(* ===== verification/Prelude.thy ===== *)
theory Prelude
  imports Complex_Main "HOL-Library.Sublist" "HOL-Library.Multiset"
begin

text \<open>
  The vocabulary the components share: how JavaScript values are read in HOL, the
  insertion-ordered \<open>Set\<close> and \<open>Map\<close> of the language, \<open>Array.prototype.sort\<close>, and
  the two generic interfaces of the development (a reducer with an invariant, a transition
  system with an invariant).

  Conventions. A JavaScript string is its UTF-8 byte sequence (\<open>string\<close>, a list of
  characters): equality, prefixes and concatenation are those of the program, and
  \<open>js_length\<close> recovers the number of UTF-16 code units that \<open>.length\<close> counts. A value
  of type \<open>T | null\<close> or an optional field is an \<open>option\<close>. Finite numbers are
  rationals (rounding of IEEE doubles is not modelled); where the code distinguishes
  \<open>NaN\<close> and the infinities, the type \<open>js_number\<close> is used. An object used as a
  dictionary (\<open>Record<string, T>\<close>) is a partial map; keys that shadow
  \<open>Object.prototype\<close> are outside the model.
\<close>

section \<open>Fact collections\<close>

named_theorems js_defs \<open>definitions of the JavaScript vocabulary\<close>
named_theorems layout_simps \<open>rewriting of split layouts to their leaves\<close>
named_theorems close_defs \<open>definitions of the close path\<close>
named_theorems snapshot_defs \<open>definitions of the snapshot projection\<close>

section \<open>Null, undefined and truthiness\<close>

datatype js_number = Finite rat | PosInfinity | NegInfinity | NaN

definition coalesce :: "'a option \<Rightarrow> 'a option \<Rightarrow> 'a option" where
  [js_defs]: "coalesce a b = (case a of None \<Rightarrow> b | Some x \<Rightarrow> Some x)"

definition first_of :: "'a list \<Rightarrow> 'a option" where
  [js_defs]: "first_of xs = (case xs of [] \<Rightarrow> None | x # _ \<Rightarrow> Some x)"

definition nth_opt :: "'a list \<Rightarrow> nat \<Rightarrow> 'a option" where
  [js_defs]: "nth_opt xs i = (if i < length xs then Some (xs ! i) else None)"

text \<open>The truthy part of a nullable string: null and the empty string are falsy.\<close>

definition truthy :: "string option \<Rightarrow> string option" where
  [js_defs]: "truthy s = (case s of None \<Rightarrow> None | Some t \<Rightarrow> if t = [] then None else Some t)"

lemma coalesce_simps [simp]:
  "coalesce None b = b"
  "coalesce (Some x) b = Some x"
  "coalesce a None = a"
  by (simp_all add: coalesce_def split: option.splits)

lemma coalesce_eq_Some:
  "coalesce a b = Some x \<longleftrightarrow> a = Some x \<or> (a = None \<and> b = Some x)"
  by (cases a) auto

lemma coalesce_eq_None: "coalesce a b = None \<longleftrightarrow> a = None \<and> b = None"
  by (cases a) auto

lemma first_of_simps [simp]:
  "first_of [] = None"
  "first_of (x # xs) = Some x"
  by (simp_all add: first_of_def)

lemma first_of_SomeD: "first_of xs = Some x \<Longrightarrow> x \<in> set xs"
  by (cases xs) auto

lemma first_of_eq_None [simp]: "first_of xs = None \<longleftrightarrow> xs = []"
  by (cases xs) auto

lemma truthy_simps [simp]:
  "truthy None = None"
  "truthy (Some []) = None"
  "truthy (Some (c # cs)) = Some (c # cs)"
  by (simp_all add: truthy_def)

lemma truthy_eq_Some: "truthy s = Some t \<longleftrightarrow> s = Some t \<and> t \<noteq> []"
  by (auto simp: truthy_def split: option.splits if_splits)

lemma find_SomeD: "find P xs = Some x \<Longrightarrow> x \<in> set xs \<and> P x"
  by (induction xs) (auto split: if_splits)

lemma find_key: "distinct (map f xs) \<Longrightarrow> x \<in> set xs \<Longrightarrow> find (\<lambda>y. f y = f x) xs = Some x"
  by (induction xs) (auto simp: image_iff)

lemma find_eq_None: "find P xs = None \<longleftrightarrow> (\<forall>x \<in> set xs. \<not> P x)"
  by (induction xs) auto

section \<open>Strings\<close>

text \<open>
  UTF-16 length of a string held as UTF-8 bytes: continuation bytes count nothing, the lead
  byte of a four-byte sequence counts two (a surrogate pair), every other byte one.
\<close>

definition js_length :: "string \<Rightarrow> nat" where
  [js_defs]: "js_length s =
    sum_list (map (\<lambda>c. let b = (of_char c :: nat) in
      if 128 \<le> b \<and> b < 192 then 0 else if 240 \<le> b then 2 else 1) s)"

lemma js_length_Nil [simp]: "js_length [] = 0"
  by (simp add: js_length_def)

lemma js_length_append [simp]: "js_length (s @ t) = js_length s + js_length t"
  by (simp add: js_length_def)

text \<open>Decimal rendering of a non-negative integer (\<open>n.toString()\<close>).\<close>

definition digit_char :: "nat \<Rightarrow> char" where
  "digit_char d = char_of (48 + d)"

fun nat_str :: "nat \<Rightarrow> string" where
  "nat_str n = (if n < 10 then [digit_char n] else nat_str (n div 10) @ [digit_char (n mod 10)])"

declare nat_str.simps [simp del]

definition str_nat :: "string \<Rightarrow> nat" where
  "str_nat s = foldl (\<lambda>acc c. 10 * acc + (of_char c - 48)) 0 s"

lemma of_digit_char: "d < 10 \<Longrightarrow> (of_char (digit_char d) :: nat) - 48 = d"
  by (simp add: digit_char_def)

lemma str_nat_nat_str [simp]: "str_nat (nat_str n) = n"
proof (induction n rule: nat_str.induct)
  case (1 n)
  show ?case
  proof (cases "n < 10")
    case True
    then show ?thesis
      by (subst nat_str.simps) (simp add: str_nat_def of_digit_char)
  next
    case False
    with 1 have "str_nat (nat_str (n div 10)) = n div 10"
      by simp
    then have "str_nat (nat_str (n div 10) @ [digit_char (n mod 10)]) = n"
      by (simp add: str_nat_def of_digit_char)
    with False show ?thesis
      by (subst nat_str.simps) simp
  qed
qed

lemma nat_str_inject [simp]: "nat_str m = nat_str n \<longleftrightarrow> m = n"
  by (metis str_nat_nat_str)

lemma nat_str_nonempty [simp]: "nat_str n \<noteq> []"
  by (subst nat_str.simps) simp

section \<open>The insertion-ordered Set\<close>

text \<open>
  A JavaScript \<open>Set\<close> is the list of its elements in insertion order. \<open>dedupe\<close> is
  \<open>new Set(iterable)\<close>: the first occurrence of each element is kept.
\<close>

fun dedupe_from :: "'a list \<Rightarrow> 'a list \<Rightarrow> 'a list" where
  "dedupe_from seen [] = []"
| "dedupe_from seen (x # xs) =
     (if x \<in> set seen then dedupe_from seen xs else x # dedupe_from (x # seen) xs)"

definition dedupe :: "'a list \<Rightarrow> 'a list" where
  "dedupe xs = dedupe_from [] xs"

lemma set_dedupe_from: "set (dedupe_from seen xs) = set xs - set seen"
  by (induction seen xs rule: dedupe_from.induct) auto

lemma distinct_dedupe_from: "distinct (dedupe_from seen xs)"
  by (induction seen xs rule: dedupe_from.induct) (auto simp: set_dedupe_from)

lemma dedupe_from_distinct:
  "distinct xs \<Longrightarrow> set xs \<inter> set seen = {} \<Longrightarrow> dedupe_from seen xs = xs"
  by (induction seen xs rule: dedupe_from.induct) auto

lemma set_dedupe [simp]: "set (dedupe xs) = set xs"
  by (simp add: dedupe_def set_dedupe_from)

lemma distinct_dedupe [simp]: "distinct (dedupe xs)"
  by (simp add: dedupe_def distinct_dedupe_from)

lemma dedupe_distinct [simp]: "distinct xs \<Longrightarrow> dedupe xs = xs"
  by (simp add: dedupe_def dedupe_from_distinct)

lemma subseq_dedupe_from: "subseq (dedupe_from seen xs) xs"
  by (induction seen xs rule: dedupe_from.induct) auto

lemma subseq_dedupe: "subseq (dedupe xs) xs"
  by (simp add: dedupe_def subseq_dedupe_from)

lemma subseq_set: "subseq xs ys \<Longrightarrow> set xs \<subseteq> set ys"
  by (induction rule: list_emb.induct) auto

section \<open>The insertion-ordered Map\<close>

text \<open>
  A JavaScript \<open>Map\<close> is the association list of its entries in insertion order:
  \<open>set\<close> overwrites the value of a present key in place and appends an absent one;
  \<open>get\<close> is \<open>map_of\<close>.
\<close>

fun map_set :: "'k \<Rightarrow> 'v \<Rightarrow> ('k \<times> 'v) list \<Rightarrow> ('k \<times> 'v) list" where
  "map_set k v [] = [(k, v)]"
| "map_set k v ((k', v') # m) = (if k = k' then (k', v) # m else (k', v') # map_set k v m)"

abbreviation map_keys :: "('k \<times> 'v) list \<Rightarrow> 'k list" where
  "map_keys m \<equiv> map fst m"

definition map_from :: "('k \<times> 'v) list \<Rightarrow> ('k \<times> 'v) list" where
  "map_from ps = fold (\<lambda>(k, v) m. map_set k v m) ps []"

lemma map_of_map_set [simp]: "map_of (map_set k v m) = (map_of m)(k \<mapsto> v)"
  by (induction k v m rule: map_set.induct) auto

lemma set_keys_map_set [simp]: "fst ` set (map_set k v m) = insert k (fst ` set m)"
  by (induction k v m rule: map_set.induct) auto

lemma distinct_keys_map_set [simp]:
  "distinct (map_keys m) \<Longrightarrow> distinct (map_keys (map_set k v m))"
  by (induction k v m rule: map_set.induct) auto

lemma map_set_fresh: "k \<notin> fst ` set m \<Longrightarrow> map_set k v m = m @ [(k, v)]"
  by (induction k v m rule: map_set.induct) auto

lemma fold_map_set_distinct:
  "distinct (map_keys (m @ ps)) \<Longrightarrow> fold (\<lambda>(k, v) m. map_set k v m) ps m = m @ ps"
proof (induction ps arbitrary: m)
  case (Cons p ps)
  obtain k v where p: "p = (k, v)"
    by force
  with Cons.prems have "k \<notin> fst ` set m"
    by auto
  then have "map_set k v m = m @ [(k, v)]"
    by (rule map_set_fresh)
  with Cons p show ?case
    by simp
qed simp

lemma map_from_distinct: "distinct (map_keys ps) \<Longrightarrow> map_from ps = ps"
  using fold_map_set_distinct [of "[]" ps] by (simp add: map_from_def)

lemma fold_map_set_invariant:
  "distinct (map_keys m) \<Longrightarrow>
    distinct (map_keys (fold (\<lambda>(k, v) m. map_set k v m) ps m)) \<and>
    fst ` set (fold (\<lambda>(k, v) m. map_set k v m) ps m) = fst ` set m \<union> fst ` set ps \<and>
    map_of (fold (\<lambda>(k, v) m. map_set k v m) ps m) = map_of m ++ map_of (rev ps)"
proof (induction ps arbitrary: m)
  case (Cons p ps)
  obtain k v where p: "p = (k, v)"
    by force
  have "distinct (map_keys (map_set k v m))"
    using Cons.prems by simp
  from Cons.IH [OF this] show ?case
    by (auto simp: p map_add_def fun_eq_iff split: option.splits)
qed simp

lemma map_from_facts:
  shows distinct_keys_map_from: "distinct (map_keys (map_from ps))"
    and keys_map_from: "fst ` set (map_from ps) = fst ` set ps"
    and map_of_map_from: "map_of (map_from ps) = map_of (rev ps)"
  using fold_map_set_invariant [of "[]" ps] by (simp_all add: map_from_def)

section \<open>Sorting with a comparator\<close>

text \<open>
  \<open>Array.prototype.sort\<close> is stable; with a consistent comparator its result is the
  stable sort, computed here by insertion. (For an inconsistent comparator the language
  leaves the order open; the facts the development uses then are only those about the
  elements.)
\<close>

fun cmp_insert :: "('a \<Rightarrow> 'a \<Rightarrow> rat) \<Rightarrow> 'a \<Rightarrow> 'a list \<Rightarrow> 'a list" where
  "cmp_insert cmp x [] = [x]"
| "cmp_insert cmp x (y # ys) = (if cmp x y \<le> 0 then x # y # ys else y # cmp_insert cmp x ys)"

definition js_sort :: "('a \<Rightarrow> 'a \<Rightarrow> rat) \<Rightarrow> 'a list \<Rightarrow> 'a list" where
  "js_sort cmp xs = foldr (cmp_insert cmp) xs []"

lemma mset_cmp_insert [simp]: "mset (cmp_insert cmp x xs) = add_mset x (mset xs)"
  by (induction xs) auto

lemma mset_js_sort [simp]: "mset (js_sort cmp xs) = mset xs"
  by (induction xs) (simp_all add: js_sort_def)

lemma set_js_sort [simp]: "set (js_sort cmp xs) = set xs"
  using mset_js_sort [of cmp xs] by (metis set_mset_mset)

lemma length_js_sort [simp]: "length (js_sort cmp xs) = length xs"
  using mset_js_sort [of cmp xs] by (metis size_mset)

lemma js_sort_eq_Nil [simp]: "js_sort cmp xs = [] \<longleftrightarrow> xs = []"
  using length_js_sort [of cmp xs] by (metis length_0_conv)

lemma js_sort_single [simp]: "js_sort cmp [x] = [x]"
  by (simp add: js_sort_def)

lemma sorted_cmp_insert:
  assumes total: "\<And>x y. cmp x y \<le> 0 \<or> cmp y x \<le> 0" and trans: "\<And>x y z. cmp x y \<le> 0 \<Longrightarrow> cmp y z \<le> 0 \<Longrightarrow> cmp x z \<le> 0"
    and "sorted_wrt (\<lambda>x y. cmp x y \<le> 0) ys"
  shows "sorted_wrt (\<lambda>x y. cmp x y \<le> 0) (cmp_insert cmp x ys)"
  using assms(3)
proof (induction ys)
  case (Cons y ys)
  have set: "set (cmp_insert cmp x ys) = insert x (set ys)"
    by (metis mset_cmp_insert set_mset_add_mset_insert set_mset_mset)
  show ?case
  proof (cases "cmp x y \<le> 0")
    case True
    then show ?thesis
      using Cons.prems trans by auto
  next
    case False
    then show ?thesis
      using Cons total [of x y] by (auto simp: set)
  qed
qed simp

lemma sorted_js_sort:
  assumes "\<And>x y. cmp x y \<le> 0 \<or> cmp y x \<le> 0" "\<And>x y z. cmp x y \<le> 0 \<Longrightarrow> cmp y z \<le> 0 \<Longrightarrow> cmp x z \<le> 0"
  shows "sorted_wrt (\<lambda>x y. cmp x y \<le> 0) (js_sort cmp xs)"
  unfolding js_sort_def by (induction xs) (simp_all add: sorted_cmp_insert [OF assms])

lemma length_filter_js_sort: "length (filter P (js_sort cmp xs)) = length (filter P xs)"
  by (metis mset_filter mset_js_sort size_mset)

lemma distinct_map_js_sort: "distinct (map f (js_sort cmp xs)) \<longleftrightarrow> distinct (map f xs)"
  by (metis mset_eq_imp_distinct_iff mset_js_sort mset_map)

section \<open>Results\<close>

text \<open>Code that throws returns a sum: \<open>Inl\<close> the error, \<open>Inr\<close> the value.\<close>

definition result_bind :: "'e + 'a \<Rightarrow> ('a \<Rightarrow> 'e + 'b) \<Rightarrow> 'e + 'b" where
  [js_defs]: "result_bind r f = (case r of Inl e \<Rightarrow> Inl e | Inr x \<Rightarrow> f x)"

definition result_when :: "bool \<Rightarrow> 'e \<Rightarrow> 'e + 'b \<Rightarrow> 'e + 'b" where
  [js_defs]: "result_when bad e r = (if bad then Inl e else r)"

fun result_map :: "('a \<Rightarrow> 'e + 'b) \<Rightarrow> 'a list \<Rightarrow> 'e + 'b list" where
  "result_map f [] = Inr []"
| "result_map f (x # xs) = result_bind (f x) (\<lambda>y. result_bind (result_map f xs) (\<lambda>ys. Inr (y # ys)))"

lemma result_bind_simps [simp]:
  "result_bind (Inl e) f = Inl e"
  "result_bind (Inr x) f = f x"
  by (simp_all add: result_bind_def)

lemma result_bind_eq_Inr: "result_bind r f = Inr y \<longleftrightarrow> (\<exists>x. r = Inr x \<and> f x = Inr y)"
  by (cases r) auto

lemma result_when_eq_Inr: "result_when bad e r = Inr y \<longleftrightarrow> \<not> bad \<and> r = Inr y"
  by (simp add: result_when_def)

lemma result_when_False [simp]: "result_when False e r = r"
  by (simp add: result_when_def)

lemma result_map_Inr_iff:
  "result_map f xs = Inr ys \<longleftrightarrow> list_all2 (\<lambda>x y. f x = Inr y) xs ys"
  by (induction xs arbitrary: ys) (auto simp: result_bind_eq_Inr list_all2_Cons1)

lemma result_map_Inr_set:
  "result_map f xs = Inr ys \<Longrightarrow> y \<in> set ys \<Longrightarrow> \<exists>x \<in> set xs. f x = Inr y"
  by (induction xs arbitrary: ys) (auto simp: result_bind_eq_Inr)

lemma result_map_cong_Inr: "(\<And>x. x \<in> set xs \<Longrightarrow> f (g x) = Inr x) \<Longrightarrow> result_map f (map g xs) = Inr xs"
  by (induction xs) auto

section \<open>Reducers\<close>

text \<open>
  The contract of a React reducer whose states satisfy an invariant: every action keeps it,
  so it holds after every sequence of dispatched actions.
\<close>

locale reducer =
  fixes reduce :: "'s \<Rightarrow> 'a \<Rightarrow> 's"
    and invar :: "'s \<Rightarrow> bool"
  assumes reduce_invar: "invar s \<Longrightarrow> invar (reduce s a)"
begin

lemma run_invar: "invar s \<Longrightarrow> invar (foldl reduce s as)"
  by (induction as arbitrary: s) (simp_all add: reduce_invar)

end

text \<open>
  A reducer some of whose actions are guarded: a measure that only those actions may enlarge
  is bounded by its first value along every run without them.
\<close>

locale shrinking_reducer =
  fixes reduce :: "'s \<Rightarrow> 'a \<Rightarrow> 's"
    and content :: "'s \<Rightarrow> 'b set"
    and explicit :: "'a \<Rightarrow> bool"
  assumes reduce_shrinks: "\<not> explicit a \<Longrightarrow> content (reduce s a) \<subseteq> content s"
begin

lemma run_shrinks: "\<forall>a \<in> set as. \<not> explicit a \<Longrightarrow> content (foldl reduce s as) \<subseteq> content s"
proof (induction as arbitrary: s)
  case (Cons a as)
  then have "content (foldl reduce (reduce s a) as) \<subseteq> content (reduce s a)"
    by simp
  also have "\<dots> \<subseteq> content s"
    using Cons.prems by (simp add: reduce_shrinks)
  finally show ?case
    by simp
qed simp

end

section \<open>Transition systems\<close>

text \<open>
  The contract of a component with internal choice (which worker moves, when a timer fires,
  when a promise settles): initial states, a step relation, and an invariant every step keeps.
\<close>

locale transition_system =
  fixes start :: "'s \<Rightarrow> bool"
    and step :: "'s \<Rightarrow> 's \<Rightarrow> bool"
    and invar :: "'s \<Rightarrow> bool"
  assumes start_invar: "start s \<Longrightarrow> invar s"
    and step_invar: "invar s \<Longrightarrow> step s t \<Longrightarrow> invar t"
begin

lemma steps_invar: "step\<^sup>*\<^sup>* s t \<Longrightarrow> invar s \<Longrightarrow> invar t"
  by (induction rule: rtranclp_induct) (auto intro: step_invar)

lemma reachable_invar: "start s \<Longrightarrow> step\<^sup>*\<^sup>* s t \<Longrightarrow> invar t"
  using steps_invar start_invar by blast

end

text \<open>
  A system some of whose steps are progress: a rank falls with each of them and no other step
  raises it, so a run takes at most as many of them as the rank of its first state, whatever
  other steps are interleaved.
\<close>

locale progress_system = transition_system start step invar
  for start :: "'s \<Rightarrow> bool" and step :: "'s \<Rightarrow> 's \<Rightarrow> bool" and invar :: "'s \<Rightarrow> bool" +
  fixes progress :: "'s \<Rightarrow> 's \<Rightarrow> bool"
    and rank :: "'s \<Rightarrow> nat"
  assumes progress_step: "progress s t \<Longrightarrow> step s t"
    and progress_rank: "invar s \<Longrightarrow> progress s t \<Longrightarrow> rank t < rank s"
    and step_rank: "invar s \<Longrightarrow> step s t \<Longrightarrow> rank t \<le> rank s"
begin

lemma run_invar_rank:
  assumes "start (f 0)" and run: "\<And>n. step (f n) (f (Suc n))"
  shows "invar (f n) \<and> card {k. k < n \<and> progress (f k) (f (Suc k))} + rank (f n) \<le> rank (f 0)"
proof (induction n)
  case 0
  then show ?case
    using assms(1) start_invar by simp
next
  case (Suc n)
  then have ok: "invar (f n)" and le: "card {k. k < n \<and> progress (f k) (f (Suc k))} + rank (f n) \<le> rank (f 0)"
    by simp_all
  let ?P = "\<lambda>n. {k. k < n \<and> progress (f k) (f (Suc k))}"
  have next_ok: "invar (f (Suc n))"
    using step_invar [OF ok run] .
  show ?case
  proof (cases "progress (f n) (f (Suc n))")
    case True
    then have "?P (Suc n) = insert n (?P n)"
      by (auto simp: less_Suc_eq)
    then have "card (?P (Suc n)) = Suc (card (?P n))"
      by simp
    with le next_ok progress_rank [OF ok True] show ?thesis
      by linarith
  next
    case False
    then have "?P (Suc n) = ?P n"
      by (auto simp: less_Suc_eq)
    with le next_ok step_rank [OF ok run] show ?thesis
      by simp
  qed
qed

lemma finite_progress:
  assumes "start (f 0)" and "\<And>n. step (f n) (f (Suc n))"
  shows "finite {k. progress (f k) (f (Suc k))} \<and> card {k. progress (f k) (f (Suc k))} \<le> rank (f 0)"
proof -
  have bound: "card S \<le> rank (f 0)" if "finite S" "S \<subseteq> {k. progress (f k) (f (Suc k))}" for S
  proof -
    obtain n where "\<forall>k \<in> S. k < n"
      using \<open>finite S\<close> finite_nat_set_iff_bounded by blast
    then have "card S \<le> card {k. k < n \<and> progress (f k) (f (Suc k))}"
      using that(2) by (intro card_mono) auto
    also have "\<dots> \<le> rank (f 0)"
      using run_invar_rank [OF assms, of n] by linarith
    finally show ?thesis .
  qed
  have "finite {k. progress (f k) (f (Suc k))}"
  proof (rule ccontr)
    assume "infinite {k. progress (f k) (f (Suc k))}"
    from infinite_arbitrarily_large [OF this, of "Suc (rank (f 0))"]
    obtain S where "finite S" "card S = Suc (rank (f 0))" "S \<subseteq> {k. progress (f k) (f (Suc k))}"
      by blast
    with bound [of S] show False
      by simp
  qed
  with bound show ?thesis
    by blast
qed

end

end
