(* ===== verification/Split_Layout.thy ===== *)
theory Split_Layout
  imports Prelude
begin

text \<open>
  The binary tree of terminal panes (\<open>features/terminal/terminalSplitLayout.ts\<close>): pane
  bindings and their keys, the tree, its projection to rectangles of the unit square, and
  the operations that split, fill, move, resize and close panes.

  A branch divides its rectangle in a row (left/right) or a column (top/bottom). Coordinates
  and ratios are rationals. \<open>node_leaves\<close> is the reading of a tree the lemmas use: its
  leaves from left to right as pairs of pane id and binding.
\<close>

section \<open>Data\<close>

datatype TerminalPaneBinding = SshBinding (binding_tabId: string) | LocalBinding (binding_tabId: string)

datatype split_direction = Row | Column

datatype TerminalSplitNode =
    SplitLeaf (leaf_binding: "TerminalPaneBinding option") (leaf_id: string)
  | SplitBranch (branch_direction: split_direction) (branch_first: TerminalSplitNode)
      (branch_id: string) (branch_ratio: rat) (branch_second: TerminalSplitNode)

record TerminalSplitBounds =
  bounds_height :: rat
  bounds_left :: rat
  bounds_top :: rat
  bounds_width :: rat

record TerminalSplitPane =
  pane_binding :: "TerminalPaneBinding option"
  pane_bounds :: TerminalSplitBounds
  pane_id :: string

record TerminalSplitResizer =
  resizer_bounds :: TerminalSplitBounds
  resizer_direction :: split_direction
  resizer_id :: string
  resizer_ratio :: rat

definition terminalSplitMinRatio :: rat where
  "terminalSplitMinRatio = 2 / 10"

definition terminalSplitMaxRatio :: rat where
  "terminalSplitMaxRatio = 8 / 10"

definition terminalSplitMaxPanes :: nat where
  "terminalSplitMaxPanes = 4"

section \<open>Operations\<close>

fun terminalPaneBindingKey :: "TerminalPaneBinding \<Rightarrow> string" where
  "terminalPaneBindingKey (SshBinding tab) = ''ssh'' @ '':'' @ tab"
| "terminalPaneBindingKey (LocalBinding tab) = ''local'' @ '':'' @ tab"

definition terminalPaneBindingsEqual ::
  "TerminalPaneBinding option \<Rightarrow> TerminalPaneBinding option \<Rightarrow> bool" where
  "terminalPaneBindingsEqual first second =
     (case (first, second) of
        (Some a, Some b) \<Rightarrow> terminalPaneBindingKey a = terminalPaneBindingKey b
      | _ \<Rightarrow> False)"

definition createTerminalSplitLayout :: "string \<Rightarrow> TerminalPaneBinding \<Rightarrow> TerminalSplitNode" where
  "createTerminalSplitLayout paneId b = SplitLeaf (Some b) paneId"

definition clampTerminalSplitRatio :: "rat \<Rightarrow> rat" where
  "clampTerminalSplitRatio ratio = min terminalSplitMaxRatio (max terminalSplitMinRatio ratio)"

definition emptyTerminalSplitBounds :: TerminalSplitBounds where
  "emptyTerminalSplitBounds =
     \<lparr>bounds_height = 1, bounds_left = 0, bounds_top = 0, bounds_width = 1\<rparr>"

text \<open>The two arrays the source appends to are passed through as accumulators.\<close>

fun collectTerminalSplitGeometry ::
  "TerminalSplitNode \<Rightarrow> TerminalSplitBounds \<Rightarrow> TerminalSplitPane list \<Rightarrow> TerminalSplitResizer list
    \<Rightarrow> TerminalSplitPane list \<times> TerminalSplitResizer list" where
  "collectTerminalSplitGeometry (SplitLeaf b i) bounds panes resizers =
     (panes @ [\<lparr>pane_binding = b, pane_bounds = bounds, pane_id = i\<rparr>], resizers)"
| "collectTerminalSplitGeometry (SplitBranch direction first i r second) bounds panes resizers =
     (let ratio = clampTerminalSplitRatio r in
      if direction = Row then
        (let firstWidth = bounds_width bounds * ratio;
             firstBounds = bounds\<lparr>bounds_width := firstWidth\<rparr>;
             secondBounds = bounds\<lparr>bounds_left := bounds_left bounds + firstWidth,
               bounds_width := bounds_width bounds - firstWidth\<rparr>;
             resizers = resizers @ [\<lparr>resizer_bounds = bounds, resizer_direction = direction,
               resizer_id = i, resizer_ratio = ratio\<rparr>];
             (panes, resizers) = collectTerminalSplitGeometry first firstBounds panes resizers
         in collectTerminalSplitGeometry second secondBounds panes resizers)
      else
        (let firstHeight = bounds_height bounds * ratio;
             firstBounds = bounds\<lparr>bounds_height := firstHeight\<rparr>;
             secondBounds = bounds\<lparr>bounds_height := bounds_height bounds - firstHeight,
               bounds_top := bounds_top bounds + firstHeight\<rparr>;
             resizers = resizers @ [\<lparr>resizer_bounds = bounds, resizer_direction = direction,
               resizer_id = i, resizer_ratio = ratio\<rparr>];
             (panes, resizers) = collectTerminalSplitGeometry first firstBounds panes resizers
         in collectTerminalSplitGeometry second secondBounds panes resizers))"

definition compareTerminalSplitPanePosition :: "TerminalSplitPane \<Rightarrow> TerminalSplitPane \<Rightarrow> rat" where
  "compareTerminalSplitPanePosition first second =
     (let verticalDelta = bounds_top (pane_bounds first) - bounds_top (pane_bounds second) in
      if \<bar>verticalDelta\<bar> > 1 / 10000 then verticalDelta
      else bounds_left (pane_bounds first) - bounds_left (pane_bounds second))"

definition collectTerminalSplitPanes :: "TerminalSplitNode \<Rightarrow> TerminalSplitPane list" where
  "collectTerminalSplitPanes layout =
     js_sort compareTerminalSplitPanePosition
       (fst (collectTerminalSplitGeometry layout emptyTerminalSplitBounds [] []))"

definition collectTerminalSplitResizers :: "TerminalSplitNode \<Rightarrow> TerminalSplitResizer list" where
  "collectTerminalSplitResizers layout =
     snd (collectTerminalSplitGeometry layout emptyTerminalSplitBounds [] [])"

definition findTerminalSplitPaneByBinding ::
  "TerminalSplitNode \<Rightarrow> TerminalPaneBinding \<Rightarrow> TerminalSplitPane option" where
  "findTerminalSplitPaneByBinding layout b =
     find (\<lambda>pane. terminalPaneBindingsEqual (pane_binding pane) (Some b))
       (collectTerminalSplitPanes layout)"

fun splitTerminalPane ::
  "TerminalSplitNode \<Rightarrow> string \<Rightarrow> split_direction \<Rightarrow> string \<Rightarrow> string
    \<Rightarrow> TerminalPaneBinding option \<Rightarrow> TerminalSplitNode" where
  "splitTerminalPane (SplitLeaf b i) paneId direction splitId newPaneId newBinding =
     (if i = paneId
      then SplitBranch direction (SplitLeaf b i) splitId (5 / 10) (SplitLeaf newBinding newPaneId)
      else SplitLeaf b i)"
| "splitTerminalPane (SplitBranch d first i r second) paneId direction splitId newPaneId newBinding =
     SplitBranch d (splitTerminalPane first paneId direction splitId newPaneId newBinding) i r
       (splitTerminalPane second paneId direction splitId newPaneId newBinding)"

record FourPaneIds =
  ids_bottomLeft :: string
  ids_bottomRight :: string
  ids_leftSplit :: string
  ids_rightSplit :: string
  ids_root :: string
  ids_topLeft :: string
  ids_topRight :: string

definition createTerminalFourPaneLayout ::
  "TerminalPaneBinding list \<Rightarrow> FourPaneIds \<Rightarrow> TerminalSplitNode" where
  "createTerminalFourPaneLayout bindings ids =
     SplitBranch Row
       (SplitBranch Column
          (SplitLeaf (nth_opt bindings 0) (ids_topLeft ids)) (ids_leftSplit ids) (5 / 10)
          (SplitLeaf (nth_opt bindings 2) (ids_bottomLeft ids)))
       (ids_root ids) (5 / 10)
       (SplitBranch Column
          (SplitLeaf (nth_opt bindings 1) (ids_topRight ids)) (ids_rightSplit ids) (5 / 10)
          (SplitLeaf (nth_opt bindings 3) (ids_bottomRight ids)))"

fun equalizeTerminalSplitLayout :: "TerminalSplitNode \<Rightarrow> TerminalSplitNode" where
  "equalizeTerminalSplitLayout (SplitLeaf b i) = SplitLeaf b i"
| "equalizeTerminalSplitLayout (SplitBranch d first i r second) =
     SplitBranch d (equalizeTerminalSplitLayout first) i (5 / 10)
       (equalizeTerminalSplitLayout second)"

fun replaceTerminalSplitPane ::
  "TerminalSplitNode \<Rightarrow> string \<Rightarrow> TerminalSplitNode \<Rightarrow> TerminalSplitNode" where
  "replaceTerminalSplitPane (SplitLeaf b i) paneId replacement =
     (if i = paneId then replacement else SplitLeaf b i)"
| "replaceTerminalSplitPane (SplitBranch d first i r second) paneId replacement =
     SplitBranch d (replaceTerminalSplitPane first paneId replacement) i r
       (replaceTerminalSplitPane second paneId replacement)"

fun updateTerminalSplitRatio :: "TerminalSplitNode \<Rightarrow> string \<Rightarrow> rat \<Rightarrow> TerminalSplitNode" where
  "updateTerminalSplitRatio (SplitLeaf b i) splitId ratio = SplitLeaf b i"
| "updateTerminalSplitRatio (SplitBranch d first i r second) splitId ratio =
     (if i = splitId then SplitBranch d first i (clampTerminalSplitRatio ratio) second
      else SplitBranch d (updateTerminalSplitRatio first splitId ratio) i r
        (updateTerminalSplitRatio second splitId ratio))"

fun moveTerminalSplitBinding ::
  "TerminalSplitNode \<Rightarrow> string \<Rightarrow> TerminalPaneBinding \<Rightarrow> TerminalSplitNode" where
  "moveTerminalSplitBinding (SplitLeaf b i) paneId binding =
     (if i = paneId then SplitLeaf (Some binding) i
      else if terminalPaneBindingsEqual b (Some binding) then SplitLeaf None i
      else SplitLeaf b i)"
| "moveTerminalSplitBinding (SplitBranch d first i r second) paneId binding =
     SplitBranch d (moveTerminalSplitBinding first paneId binding) i r
       (moveTerminalSplitBinding second paneId binding)"

text \<open>
  The source returns the same object when neither child changed; as a value that is the
  branch rebuilt from unchanged children, so the test disappears.
\<close>

fun closeTerminalSplitPane :: "TerminalSplitNode \<Rightarrow> string \<Rightarrow> TerminalSplitNode option" where
  "closeTerminalSplitPane (SplitLeaf b i) paneId =
     (if i = paneId then None else Some (SplitLeaf b i))"
| "closeTerminalSplitPane (SplitBranch d first i r second) paneId =
     (case closeTerminalSplitPane first paneId of
        None \<Rightarrow> closeTerminalSplitPane second paneId
      | Some first' \<Rightarrow>
          (case closeTerminalSplitPane second paneId of
             None \<Rightarrow> Some first'
           | Some second' \<Rightarrow> Some (SplitBranch d first' i r second')))"

definition removeTerminalSplitBindings ::
  "TerminalSplitNode \<Rightarrow> string list \<Rightarrow> TerminalSplitNode option" where
  "removeTerminalSplitBindings layout bindings =
     (let paneIds = map pane_id
            (filter (\<lambda>pane. case pane_binding pane of None \<Rightarrow> False
               | Some b \<Rightarrow> terminalPaneBindingKey b \<in> set bindings)
             (collectTerminalSplitPanes layout))
      in foldl (\<lambda>nextLayout paneId. case nextLayout of None \<Rightarrow> None
           | Some l \<Rightarrow> closeTerminalSplitPane l paneId) (Some layout) paneIds)"

section \<open>Keys identify bindings\<close>

lemma terminalPaneBindingKey_inj [simp]:
  "terminalPaneBindingKey a = terminalPaneBindingKey b \<longleftrightarrow> a = b"
  by (cases a; cases b) auto

lemma inj_terminalPaneBindingKey: "inj terminalPaneBindingKey"
  by (simp add: inj_def)

lemma terminalPaneBindingsEqual_iff [simp]:
  "terminalPaneBindingsEqual a (Some b) \<longleftrightarrow> a = Some b"
  "terminalPaneBindingsEqual (Some b) a \<longleftrightarrow> a = Some b"
  by (auto simp: terminalPaneBindingsEqual_def split: option.splits)

section \<open>Leaves\<close>

fun node_leaves :: "TerminalSplitNode \<Rightarrow> (string \<times> TerminalPaneBinding option) list" where
  "node_leaves (SplitLeaf b i) = [(i, b)]"
| "node_leaves (SplitBranch d first i r second) = node_leaves first @ node_leaves second"

fun layout_leaves :: "TerminalSplitNode option \<Rightarrow> (string \<times> TerminalPaneBinding option) list" where
  "layout_leaves None = []"
| "layout_leaves (Some n) = node_leaves n"

abbreviation node_pane_ids :: "TerminalSplitNode \<Rightarrow> string list" where
  "node_pane_ids n \<equiv> map fst (node_leaves n)"

lemma node_leaves_nonempty [simp]: "node_leaves n \<noteq> []"
  by (induction n) auto

lemma layout_leaves_eq_Nil [simp]: "layout_leaves l = [] \<longleftrightarrow> l = None"
  by (cases l) auto

text \<open>Rectangles of a tree within given bounds, without accumulators or sorting.\<close>

fun node_panes :: "TerminalSplitNode \<Rightarrow> TerminalSplitBounds \<Rightarrow> TerminalSplitPane list" where
  "node_panes (SplitLeaf b i) bounds = [\<lparr>pane_binding = b, pane_bounds = bounds, pane_id = i\<rparr>]"
| "node_panes (SplitBranch d first i r second) bounds =
     (let ratio = clampTerminalSplitRatio r in
      if d = Row then
        node_panes first (bounds\<lparr>bounds_width := bounds_width bounds * ratio\<rparr>) @
        node_panes second (bounds\<lparr>bounds_left := bounds_left bounds + bounds_width bounds * ratio,
          bounds_width := bounds_width bounds - bounds_width bounds * ratio\<rparr>)
      else
        node_panes first (bounds\<lparr>bounds_height := bounds_height bounds * ratio\<rparr>) @
        node_panes second (bounds\<lparr>bounds_height := bounds_height bounds - bounds_height bounds * ratio,
          bounds_top := bounds_top bounds + bounds_height bounds * ratio\<rparr>))"

lemma collectTerminalSplitGeometry_panes:
  "fst (collectTerminalSplitGeometry n bounds ps rs) = ps @ node_panes n bounds"
proof (induction n arbitrary: bounds ps rs)
  case (SplitBranch d first i r second)
  then show ?case
    by (simp add: Let_def split_beta)
qed simp

lemma collectTerminalSplitPanes_mset:
  "mset (collectTerminalSplitPanes n) = mset (node_panes n emptyTerminalSplitBounds)"
  by (simp add: collectTerminalSplitPanes_def collectTerminalSplitGeometry_panes)

lemma node_panes_leaves:
  "map (\<lambda>p. (pane_id p, pane_binding p)) (node_panes n bounds) = node_leaves n"
proof (induction n arbitrary: bounds)
  case (SplitBranch d first i r second)
  show ?case
    by (simp add: Let_def SplitBranch.IH)
qed simp

text \<open>The collected panes are the leaves of the tree, in another order.\<close>

lemma collect_panes_leaves:
  "mset (map (\<lambda>p. (pane_id p, pane_binding p)) (collectTerminalSplitPanes n)) = mset (node_leaves n)"
  by (metis collectTerminalSplitPanes_mset mset_map node_panes_leaves)

lemma collect_panes_set [layout_simps]:
  "(\<lambda>p. (pane_id p, pane_binding p)) ` set (collectTerminalSplitPanes n) = set (node_leaves n)"
  by (metis collect_panes_leaves set_map set_mset_mset)

lemma collect_panes_ids [layout_simps]:
  "pane_id ` set (collectTerminalSplitPanes n) = fst ` set (node_leaves n)"
  unfolding collect_panes_set [symmetric] image_image by simp

lemma collect_panes_bindings [layout_simps]:
  "pane_binding ` set (collectTerminalSplitPanes n) = snd ` set (node_leaves n)"
  unfolding collect_panes_set [symmetric] image_image by simp

lemma length_collect_panes [layout_simps]:
  "length (collectTerminalSplitPanes n) = length (node_leaves n)"
  by (metis collect_panes_leaves length_map size_mset)

lemma collect_panes_nonempty [simp]: "collectTerminalSplitPanes n \<noteq> []"
  by (metis length_0_conv length_collect_panes node_leaves_nonempty)

lemma distinct_collect_panes_ids:
  "distinct (map pane_id (collectTerminalSplitPanes n)) \<longleftrightarrow> distinct (node_pane_ids n)"
proof -
  have "map pane_id (collectTerminalSplitPanes n) =
      map fst (map (\<lambda>p. (pane_id p, pane_binding p)) (collectTerminalSplitPanes n))"
    by simp
  then show ?thesis
    by (metis collect_panes_leaves mset_eq_imp_distinct_iff mset_map)
qed

section \<open>Geometry\<close>

definition bounds_contain :: "rat \<Rightarrow> rat \<Rightarrow> TerminalSplitBounds \<Rightarrow> bool" where
  "bounds_contain x y b \<longleftrightarrow>
     bounds_left b \<le> x \<and> x < bounds_left b + bounds_width b \<and>
     bounds_top b \<le> y \<and> y < bounds_top b + bounds_height b"

lemma clampTerminalSplitRatio_bounds:
  "terminalSplitMinRatio \<le> clampTerminalSplitRatio r"
  "clampTerminalSplitRatio r \<le> terminalSplitMaxRatio"
  by (simp_all add: clampTerminalSplitRatio_def terminalSplitMinRatio_def terminalSplitMaxRatio_def)

lemma clampTerminalSplitRatio_pos:
  "0 < clampTerminalSplitRatio r" "clampTerminalSplitRatio r < 1"
  using clampTerminalSplitRatio_bounds [of r]
  by (simp_all add: terminalSplitMinRatio_def terminalSplitMaxRatio_def)

lemma clampTerminalSplitRatio_id:
  "terminalSplitMinRatio \<le> r \<Longrightarrow> r \<le> terminalSplitMaxRatio \<Longrightarrow> clampTerminalSplitRatio r = r"
  by (simp add: clampTerminalSplitRatio_def)

lemma scaled_width_bounds:
  "0 \<le> w \<Longrightarrow> 0 \<le> w * clampTerminalSplitRatio r \<and> w * clampTerminalSplitRatio r \<le> w"
  using clampTerminalSplitRatio_pos [of r] by (simp add: mult_left_le)

text \<open>Each point of a rectangle lies in exactly one of the panes its tree divides it into.\<close>

lemma node_panes_tile:
  "0 \<le> bounds_width b \<Longrightarrow> 0 \<le> bounds_height b \<Longrightarrow>
    length (filter (\<lambda>p. bounds_contain x y (pane_bounds p)) (node_panes n b)) =
      (if bounds_contain x y b then 1 else 0)"
proof (induction n arbitrary: b)
  case (SplitBranch d first i r second)
  note w = scaled_width_bounds [OF SplitBranch.prems(1), of r]
  note h = scaled_width_bounds [OF SplitBranch.prems(2), of r]
  show ?case
  proof (cases d)
    case Row
    with w SplitBranch.prems show ?thesis
      by (simp add: Let_def SplitBranch.IH) (auto simp: bounds_contain_def)
  next
    case Column
    with h SplitBranch.prems show ?thesis
      by (simp add: Let_def SplitBranch.IH) (auto simp: bounds_contain_def)
  qed
qed simp

lemma length_filter_collect:
  "length (filter P (collectTerminalSplitPanes n)) =
     length (filter P (node_panes n emptyTerminalSplitBounds))"
  by (metis collectTerminalSplitPanes_mset mset_filter size_mset)

text \<open>
  C12. The panes of a layout tile the terminal area: every point of the unit square belongs to
  exactly one of the rectangles that \<open>collectTerminalSplitPanes\<close> computes, whatever the
  shape of the tree and the stored ratios.
\<close>

theorem split_panes_tile:
  assumes "0 \<le> x" and "x < 1" and "0 \<le> y" and "y < 1"
  shows "length (filter (\<lambda>p. bounds_contain x y (pane_bounds p)) (collectTerminalSplitPanes n)) = 1"
  using assms node_panes_tile [of emptyTerminalSplitBounds x y n]
  by (simp add: length_filter_collect emptyTerminalSplitBounds_def bounds_contain_def)

theorem split_panes_tile_witness:
  "length (filter (\<lambda>p. bounds_contain (1 / 4) (3 / 4) (pane_bounds p))
     (collectTerminalSplitPanes
        (SplitBranch Row (SplitLeaf None ''a'') ''s'' (1 / 2)
           (SplitBranch Column (SplitLeaf None ''b'') ''t'' 2 (SplitLeaf None ''c''))))) = 1"
  using split_panes_tile [of "1 / 4" "3 / 4"] by simp

text \<open>Every pane keeps a share of at least a fifth of its parent, so none collapses.\<close>

lemma node_panes_positive:
  "0 < bounds_width b \<Longrightarrow> 0 < bounds_height b \<Longrightarrow> p \<in> set (node_panes n b) \<Longrightarrow>
    0 < bounds_width (pane_bounds p) \<and> 0 < bounds_height (pane_bounds p)"
proof (induction n arbitrary: b)
  case (SplitBranch d first i r second)
  have "bounds_width b * clampTerminalSplitRatio r < bounds_width b"
    "bounds_height b * clampTerminalSplitRatio r < bounds_height b"
    using SplitBranch.prems clampTerminalSplitRatio_pos [of r]
    by (metis mult.right_neutral mult_strict_left_mono)+
  moreover have "0 < bounds_width b * clampTerminalSplitRatio r"
    "0 < bounds_height b * clampTerminalSplitRatio r"
    using SplitBranch.prems(1,2) clampTerminalSplitRatio_pos(1) [of r] by simp_all
  moreover note
    SplitBranch.IH(1) [of "b\<lparr>bounds_width := bounds_width b * clampTerminalSplitRatio r\<rparr>"]
    SplitBranch.IH(1) [of "b\<lparr>bounds_height := bounds_height b * clampTerminalSplitRatio r\<rparr>"]
    SplitBranch.IH(2) [of "b\<lparr>bounds_left := bounds_left b + bounds_width b * clampTerminalSplitRatio r,
      bounds_width := bounds_width b - bounds_width b * clampTerminalSplitRatio r\<rparr>"]
    SplitBranch.IH(2) [of "b\<lparr>bounds_height := bounds_height b - bounds_height b * clampTerminalSplitRatio r,
      bounds_top := bounds_top b + bounds_height b * clampTerminalSplitRatio r\<rparr>"]
  ultimately show ?case
    using SplitBranch.prems by (cases d) (auto simp: Let_def)
qed simp

section \<open>Ratios\<close>

fun ratios_ok :: "TerminalSplitNode \<Rightarrow> bool" where
  "ratios_ok (SplitLeaf b i) \<longleftrightarrow> True"
| "ratios_ok (SplitBranch d first i r second) \<longleftrightarrow>
     terminalSplitMinRatio \<le> r \<and> r \<le> terminalSplitMaxRatio \<and> ratios_ok first \<and> ratios_ok second"

lemma half_ratio_ok: "terminalSplitMinRatio \<le> 5 / 10" "5 / 10 \<le> terminalSplitMaxRatio"
  by (simp_all add: terminalSplitMinRatio_def terminalSplitMaxRatio_def)

lemma ratios_ok_split: "ratios_ok n \<Longrightarrow> ratios_ok (splitTerminalPane n p d s q b)"
  using half_ratio_ok by (induction n) auto

lemma ratios_ok_replace: "ratios_ok n \<Longrightarrow> ratios_ok m \<Longrightarrow> ratios_ok (replaceTerminalSplitPane n p m)"
  by (induction n) auto

lemma ratios_ok_update: "ratios_ok n \<Longrightarrow> ratios_ok (updateTerminalSplitRatio n s r)"
  using clampTerminalSplitRatio_bounds by (induction n) auto

lemma ratios_ok_move: "ratios_ok n \<Longrightarrow> ratios_ok (moveTerminalSplitBinding n p b)"
  by (induction n) auto

lemma ratios_ok_equalize: "ratios_ok (equalizeTerminalSplitLayout n)"
  using half_ratio_ok by (induction n) auto

lemma ratios_ok_four: "ratios_ok (createTerminalFourPaneLayout bs ids)"
  using half_ratio_ok by (simp add: createTerminalFourPaneLayout_def)

lemma ratios_ok_close_pred: "ratios_ok n \<Longrightarrow> pred_option ratios_ok (closeTerminalSplitPane n p)"
  by (induction n) (auto split: option.splits)

lemma ratios_ok_close: "ratios_ok n \<Longrightarrow> closeTerminalSplitPane n p = Some m \<Longrightarrow> ratios_ok m"
  using ratios_ok_close_pred [of n p] by simp

section \<open>Closing panes\<close>

lemma close_leaves [layout_simps]:
  "layout_leaves (closeTerminalSplitPane n p) = filter (\<lambda>l. fst l \<noteq> p) (node_leaves n)"
proof (induction n)
  case (SplitBranch d first i r second)
  then show ?case
    by (cases "closeTerminalSplitPane first p"; cases "closeTerminalSplitPane second p") auto
qed simp

text \<open>
  Closing a pane removes exactly the leaves with that pane id, keeps every other leaf with
  its binding in order, and yields no layout precisely when nothing else was left.
\<close>

theorem closeTerminalSplitPane_exact:
  "layout_leaves (closeTerminalSplitPane n p) = filter (\<lambda>l. fst l \<noteq> p) (node_leaves n) \<and>
   (closeTerminalSplitPane n p = None \<longleftrightarrow> set (node_pane_ids n) = {p})"
proof
  have "closeTerminalSplitPane n p = None \<longleftrightarrow> filter (\<lambda>l. fst l \<noteq> p) (node_leaves n) = []"
    by (metis close_leaves layout_leaves_eq_Nil)
  also have "\<dots> \<longleftrightarrow> set (node_pane_ids n) \<subseteq> {p}"
    by (auto simp: filter_empty_conv)
  also have "\<dots> \<longleftrightarrow> set (node_pane_ids n) = {p}"
    by (simp add: subset_singleton_iff)
  finally show "closeTerminalSplitPane n p = None \<longleftrightarrow> set (node_pane_ids n) = {p}" .
qed (rule close_leaves)

text \<open>
  The contract the bulk removals rely on: a layout with leaves, and a close operation that
  drops the leaves of one pane id. Closing a list of panes then drops the leaves of all of
  them.
\<close>

locale pane_closing =
  fixes leaves :: "'l \<Rightarrow> ('i \<times> 'b) list"
    and close :: "'l \<Rightarrow> 'i \<Rightarrow> 'l"
  assumes leaves_close: "leaves (close l p) = filter (\<lambda>x. fst x \<noteq> p) (leaves l)"
begin

lemma leaves_close_all: "leaves (foldl close l ps) = filter (\<lambda>x. fst x \<notin> set ps) (leaves l)"
  by (induction ps arbitrary: l) (auto simp: leaves_close intro!: filter_cong)

lemma close_all_ids: "fst ` set (leaves (foldl close l ps)) = fst ` set (leaves l) - set ps"
  by (auto simp: leaves_close_all)

end

interpretation split_close: pane_closing layout_leaves
  "\<lambda>nextLayout paneId. case nextLayout of None \<Rightarrow> None | Some l \<Rightarrow> closeTerminalSplitPane l paneId"
  by unfold_locales (auto simp: close_leaves split: option.splits)

definition bound_to :: "string list \<Rightarrow> string \<times> TerminalPaneBinding option \<Rightarrow> bool" where
  "bound_to ks l \<longleftrightarrow> (case snd l of None \<Rightarrow> False | Some b \<Rightarrow> terminalPaneBindingKey b \<in> set ks)"

lemma removed_pane_ids:
  "pane_id ` {p \<in> set (collectTerminalSplitPanes n). bound_to ks (pane_id p, pane_binding p)} =
     fst ` {l \<in> set (node_leaves n). bound_to ks l}"
  by (auto simp: collect_panes_set [symmetric] image_iff) blast+

lemma removeTerminalSplitBindings_leaves [layout_simps]:
  "layout_leaves (removeTerminalSplitBindings n ks) =
     filter (\<lambda>l. fst l \<notin> fst ` {l' \<in> set (node_leaves n). bound_to ks l'}) (node_leaves n)"
  unfolding removed_pane_ids [symmetric]
  by (simp add: removeTerminalSplitBindings_def split_close.leaves_close_all bound_to_def)

text \<open>
  In a layout with unique pane ids, removing a set of binding keys removes exactly the panes
  bound to one of them: empty panes and panes bound to other terminals survive in order.
\<close>

theorem removeTerminalSplitBindings_exact:
  assumes "distinct (node_pane_ids n)"
  shows "layout_leaves (removeTerminalSplitBindings n ks) =
    filter (\<lambda>l. \<not> bound_to ks l) (node_leaves n)"
  unfolding removeTerminalSplitBindings_leaves
proof (rule filter_cong [OF refl])
  fix l assume l: "l \<in> set (node_leaves n)"
  have "bound_to ks l" if "l' \<in> set (node_leaves n)" "fst l = fst l'" "bound_to ks l'" for l'
    using assms l that by (metis eq_key_imp_eq_value prod.collapse)
  with l show "fst l \<notin> fst ` {l' \<in> set (node_leaves n). bound_to ks l'} \<longleftrightarrow> \<not> bound_to ks l"
    by auto
qed

theorem removeTerminalSplitBindings_exact_witness:
  "layout_leaves (removeTerminalSplitBindings
     (SplitBranch Row (SplitLeaf (Some (SshBinding ''t1'')) ''a'') ''s'' (1 / 2)
        (SplitBranch Column (SplitLeaf None ''b'') ''t'' (1 / 2)
           (SplitLeaf (Some (LocalBinding ''t1'')) ''c''))) [''ssh:t1'']) =
   [(''b'', None), (''c'', Some (LocalBinding ''t1''))]"
  by (subst removeTerminalSplitBindings_exact) (simp_all add: bound_to_def)

section \<open>Moving, splitting and filling panes\<close>

lemma move_leaves [layout_simps]:
  "node_leaves (moveTerminalSplitBinding n p b) =
     map (\<lambda>(i, b'). (i, if i = p then Some b else if b' = Some b then None else b')) (node_leaves n)"
  by (induction n) auto

lemma equalize_leaves [layout_simps]:
  "node_leaves (equalizeTerminalSplitLayout n) = node_leaves n"
  by (induction n) auto

lemma update_ratio_leaves [layout_simps]:
  "node_leaves (updateTerminalSplitRatio n s r) = node_leaves n"
  by (induction n) auto

lemma split_leaves [layout_simps]:
  "node_leaves (splitTerminalPane n p d s q b) =
     concat (map (\<lambda>l. if fst l = p then [l, (q, b)] else [l]) (node_leaves n))"
  by (induction n) auto

lemma replace_leaves [layout_simps]:
  "node_leaves (replaceTerminalSplitPane n p m) =
     concat (map (\<lambda>l. if fst l = p then node_leaves m else [l]) (node_leaves n))"
  by (induction n) auto

lemma four_pane_leaves [layout_simps]:
  "node_leaves (createTerminalFourPaneLayout bs ids) =
     [(ids_topLeft ids, nth_opt bs 0), (ids_bottomLeft ids, nth_opt bs 2),
      (ids_topRight ids, nth_opt bs 1), (ids_bottomRight ids, nth_opt bs 3)]"
  by (simp add: createTerminalFourPaneLayout_def)

lemma filter_fst_eq_single:
  "distinct (map fst xs) \<Longrightarrow> (p, v) \<in> set xs \<Longrightarrow> filter (\<lambda>x. fst x = p) xs = [(p, v)]"
proof (induction xs)
  case (Cons x xs)
  show ?case
  proof (cases "fst x = p")
    case True
    with Cons.prems(1) have "p \<notin> fst ` set xs"
      by auto
    then have "filter (\<lambda>x. fst x = p) xs = []" and "(p, v) \<notin> set xs"
      by (force simp: filter_empty_conv)+
    with True Cons.prems(2) show ?thesis
      by simp
  qed (use Cons in auto)
qed simp

text \<open>
  After a terminal is dropped on a pane of a layout with unique pane ids, that pane and no
  other shows it, and every pane showing another terminal elsewhere is untouched.
\<close>

theorem moveTerminalSplitBinding_exclusive:
  assumes "distinct (node_pane_ids n)" and "p \<in> set (node_pane_ids n)"
  shows "filter (\<lambda>l. snd l = Some b) (node_leaves (moveTerminalSplitBinding n p b)) = [(p, Some b)] \<and>
    node_pane_ids (moveTerminalSplitBinding n p b) = node_pane_ids n \<and>
    filter (\<lambda>l. snd l \<noteq> None \<and> snd l \<noteq> Some b \<and> fst l \<noteq> p)
      (node_leaves (moveTerminalSplitBinding n p b)) =
    filter (\<lambda>l. snd l \<noteq> None \<and> snd l \<noteq> Some b \<and> fst l \<noteq> p) (node_leaves n)"
proof (intro conjI)
  let ?f = "\<lambda>(i, b'). (i, if i = p then Some b else if b' = Some b then None else b')"
  obtain v where v: "(p, v) \<in> set (node_leaves n)"
    using assms(2) by auto
  have "filter (\<lambda>l. snd l = Some b) (map ?f (node_leaves n)) =
      map ?f (filter (\<lambda>l. fst l = p) (node_leaves n))"
    by (auto simp: filter_map comp_def split_beta intro!: arg_cong [where f = "map ?f"] filter_cong)
  also have "\<dots> = [(p, Some b)]"
    by (simp add: filter_fst_eq_single [OF assms(1) v])
  finally show "filter (\<lambda>l. snd l = Some b) (node_leaves (moveTerminalSplitBinding n p b)) = [(p, Some b)]"
    by (simp add: move_leaves)
  show "node_pane_ids (moveTerminalSplitBinding n p b) = node_pane_ids n"
    by (simp add: move_leaves comp_def split_beta)
  have "filter (\<lambda>l. snd l \<noteq> None \<and> snd l \<noteq> Some b \<and> fst l \<noteq> p) (map ?f xs) =
      filter (\<lambda>l. snd l \<noteq> None \<and> snd l \<noteq> Some b \<and> fst l \<noteq> p) xs" for xs
    by (induction xs) (auto split: if_splits)
  then show "filter (\<lambda>l. snd l \<noteq> None \<and> snd l \<noteq> Some b \<and> fst l \<noteq> p)
      (node_leaves (moveTerminalSplitBinding n p b)) =
    filter (\<lambda>l. snd l \<noteq> None \<and> snd l \<noteq> Some b \<and> fst l \<noteq> p) (node_leaves n)"
    by (simp add: move_leaves)
qed

theorem moveTerminalSplitBinding_exclusive_witness:
  "filter (\<lambda>l. snd l = Some (SshBinding ''t1''))
     (node_leaves (moveTerminalSplitBinding
        (SplitBranch Row (SplitLeaf (Some (SshBinding ''t1'')) ''a'') ''s'' (1 / 2)
           (SplitLeaf (Some (SshBinding ''t2'')) ''b'')) ''b'' (SshBinding ''t1''))) =
   [(''b'', Some (SshBinding ''t1''))]"
  using moveTerminalSplitBinding_exclusive
    [of "SplitBranch Row (SplitLeaf (Some (SshBinding ''t1'')) ''a'') ''s'' (1 / 2)
      (SplitLeaf (Some (SshBinding ''t2'')) ''b'')" "''b''" "SshBinding ''t1''"]
  by simp

section \<open>Well-formed layouts\<close>

text \<open>
  Unique pane ids, no terminal in two panes, ratios within their limits. \<open>layout_wf\<close> is
  kept by every operation on layouts, under the conditions their callers meet (fresh ids, a
  terminal not yet shown).
\<close>

definition node_bindings :: "TerminalSplitNode \<Rightarrow> TerminalPaneBinding list" where
  "node_bindings n = List.map_filter snd (node_leaves n)"

definition layout_wf :: "TerminalSplitNode \<Rightarrow> bool" where
  "layout_wf n \<longleftrightarrow> distinct (node_pane_ids n) \<and> distinct (node_bindings n) \<and> ratios_ok n"

lemma set_node_bindings: "b \<in> set (node_bindings n) \<longleftrightarrow> Some b \<in> snd ` set (node_leaves n)"
  by (force simp: node_bindings_def List.map_filter_def image_iff)

lemma map_filter_filter_distinct:
  "distinct (List.map_filter f xs) \<Longrightarrow> distinct (List.map_filter f (filter P xs))"
  by (induction xs) (force simp: List.map_filter_def split: option.splits)+

lemma layout_wf_close: "layout_wf n \<Longrightarrow> closeTerminalSplitPane n p = Some m \<Longrightarrow> layout_wf m"
proof -
  assume wf: "layout_wf n" and m: "closeTerminalSplitPane n p = Some m"
  then have "node_leaves m = filter (\<lambda>l. fst l \<noteq> p) (node_leaves n)"
    using close_leaves [of n p] by simp
  with wf m show "layout_wf m"
    by (auto simp: layout_wf_def node_bindings_def ratios_ok_close
        intro: map_filter_filter_distinct distinct_map_filter)
qed

lemma map_filter_simps [simp]:
  "List.map_filter f [] = []"
  "List.map_filter f (x # xs) =
     (case f x of None \<Rightarrow> List.map_filter f xs | Some y \<Rightarrow> y # List.map_filter f xs)"
  "List.map_filter f (xs @ ys) = List.map_filter f xs @ List.map_filter f ys"
  by (simp_all add: List.map_filter_def split: option.splits)

lemma set_map_filter [simp]: "set (List.map_filter f xs) = {y. \<exists>x \<in> set xs. f x = Some y}"
  by (induction xs) (auto split: option.splits)

lemma distinct_move_bindings:
  "distinct (map fst xs) \<Longrightarrow> distinct (List.map_filter snd xs) \<Longrightarrow>
    distinct (List.map_filter snd
      (map (\<lambda>(i, b'). (i, if i = p then Some b else if b' = Some b then None else b')) xs))"
proof (induction xs)
  case (Cons x xs)
  then have IH: "distinct (List.map_filter snd
      (map (\<lambda>(i, b'). (i, if i = p then Some b else if b' = Some b then None else b')) xs))"
    by (simp split: option.splits)
  have "fst x \<notin> fst ` set xs"
    using Cons.prems(1) by simp
  then have "fst y \<noteq> fst x" if "y \<in> set xs" for y
    using that by (metis image_eqI)
  with IH Cons.prems(2) show ?case
    by (cases x) (force split: option.splits if_splits)
qed simp

lemma layout_wf_move: "layout_wf n \<Longrightarrow> layout_wf (moveTerminalSplitBinding n p b)"
  by (auto simp: layout_wf_def node_bindings_def move_leaves ratios_ok_move distinct_move_bindings
      comp_def split_beta)

lemma split_leaves_absent:
  "p \<notin> fst ` set xs \<Longrightarrow> concat (map (\<lambda>l. if fst l = p then [l, (q, b)] else [l]) xs) = xs"
  by (induction xs) auto

lemma split_leaves_distinct:
  assumes "distinct (map fst xs)" and "q \<notin> fst ` set xs" and "distinct (List.map_filter snd xs)"
    and "\<forall>b'. b = Some b' \<longrightarrow> b' \<notin> set (List.map_filter snd xs)"
  shows "distinct (map fst (concat (map (\<lambda>l. if fst l = p then [l, (q, b)] else [l]) xs))) \<and>
    distinct (List.map_filter snd (concat (map (\<lambda>l. if fst l = p then [l, (q, b)] else [l]) xs)))"
proof (cases "p \<in> fst ` set xs")
  case True
  then obtain v where "(p, v) \<in> set xs"
    by auto
  then obtain ys zs where xs: "xs = ys @ (p, v) # zs"
    by (auto simp: in_set_conv_decomp)
  with assms(1) have "p \<notin> fst ` set ys" "p \<notin> fst ` set zs"
    by auto
  then have "concat (map (\<lambda>l. if fst l = p then [l, (q, b)] else [l]) xs) =
      ys @ (p, v) # (q, b) # zs"
    by (simp add: xs split_leaves_absent del: map_append)
      (simp add: split_leaves_absent)
  with assms xs show ?thesis
    by (cases v; cases b) auto
qed (use assms in \<open>simp add: split_leaves_absent\<close>)

lemma layout_wf_split:
  assumes "layout_wf n" and "q \<notin> set (node_pane_ids n)"
    and "\<forall>b'. b = Some b' \<longrightarrow> b' \<notin> set (node_bindings n)"
  shows "layout_wf (splitTerminalPane n p d s q b)"
proof -
  from assms have "distinct (map fst (concat (map (\<lambda>l. if fst l = p then [l, (q, b)] else [l]) (node_leaves n)))) \<and>
      distinct (List.map_filter snd (concat (map (\<lambda>l. if fst l = p then [l, (q, b)] else [l]) (node_leaves n))))"
    by (intro split_leaves_distinct) (simp_all add: layout_wf_def node_bindings_def)
  with assms(1) show ?thesis
    by (simp add: layout_wf_def node_bindings_def split_leaves ratios_ok_split)
qed

lemma layout_wf_remove_fold:
  "pred_option layout_wf l \<Longrightarrow> pred_option layout_wf (foldl (\<lambda>nextLayout paneId. case nextLayout of
     None \<Rightarrow> None | Some l \<Rightarrow> closeTerminalSplitPane l paneId) l ps)"
proof (induction ps arbitrary: l)
  case (Cons p ps)
  then have "pred_option layout_wf
      (case l of None \<Rightarrow> None | Some l \<Rightarrow> closeTerminalSplitPane l p)"
    by (cases l; cases "closeTerminalSplitPane (the l) p") (auto intro: layout_wf_close)
  then show ?case
    by (simp add: Cons.IH)
qed simp

lemma layout_wf_remove:
  "layout_wf n \<Longrightarrow> removeTerminalSplitBindings n ks = Some m \<Longrightarrow> layout_wf m"
  using layout_wf_remove_fold [of "Some n"]
  by (metis option.pred_inject(2) removeTerminalSplitBindings_def)

lemma layout_wf_ratio: "layout_wf n \<Longrightarrow> layout_wf (updateTerminalSplitRatio n s r)"
  by (simp add: layout_wf_def node_bindings_def update_ratio_leaves ratios_ok_update)

lemma layout_wf_equalize: "layout_wf n \<Longrightarrow> layout_wf (equalizeTerminalSplitLayout n)"
  by (simp add: layout_wf_def node_bindings_def equalize_leaves ratios_ok_equalize)

lemmas layout_wf_intros =
  layout_wf_close layout_wf_move layout_wf_split layout_wf_remove layout_wf_ratio layout_wf_equalize

text \<open>
  Well-formedness (unique pane ids, every terminal in at most one pane, ratios between 0.2
  and 0.8) is kept by closing, bulk removal, dropping a terminal on a pane, resizing,
  equalising, and splitting with a fresh pane id and a terminal not shown yet.
\<close>

theorem layout_operations_keep_wf:
  assumes "layout_wf n"
  shows "pred_option layout_wf (closeTerminalSplitPane n p) \<and>
    pred_option layout_wf (removeTerminalSplitBindings n ks) \<and>
    layout_wf (moveTerminalSplitBinding n p b) \<and>
    layout_wf (updateTerminalSplitRatio n s r) \<and>
    layout_wf (equalizeTerminalSplitLayout n) \<and>
    (q \<notin> set (node_pane_ids n) \<and> (\<forall>b'. c = Some b' \<longrightarrow> b' \<notin> set (node_bindings n)) \<longrightarrow>
      layout_wf (splitTerminalPane n p d s q c))"
  using assms
  by (cases "closeTerminalSplitPane n p"; cases "removeTerminalSplitBindings n ks")
    (auto intro: layout_wf_intros)

theorem layout_operations_keep_wf_witness:
  "layout_wf (splitTerminalPane (createTerminalSplitLayout ''p1'' (SshBinding ''t1''))
     ''p1'' Row ''s1'' ''p2'' (Some (LocalBinding ''t1'')))"
  using layout_operations_keep_wf
    [of "createTerminalSplitLayout ''p1'' (SshBinding ''t1'')" "''p1''" "[]" "SshBinding ''t2''"
      "''s1''" 0 "''p2''" "Some (LocalBinding ''t1'')" Row]
  by (simp add: createTerminalSplitLayout_def layout_wf_def node_bindings_def)

end
