(* ===== verification/Split_Reducer.thy ===== *)
theory Split_Reducer
  imports Split_Layout
begin

text \<open>
  The state of the split workspace (\<open>features/workspace/split\<close>): the actions and the
  reducer (\<open>actions.ts\<close>, \<open>reducer.ts\<close>) with the normalisation that follows every
  change of the open terminals, the selectors (\<open>selectors.ts\<close>) and the position of the
  group in a tab strip (\<open>anchor.ts\<close>).

  \<open>allocateIds\<close> of the source is a callback that draws fresh ids; the action carries the
  ids it would return, read only when the four-pane layout is rebuilt.
\<close>

section \<open>State and actions\<close>

type_synonym TerminalSplitHost = TerminalPaneBinding

record TerminalSplitPickerOpenRequest =
  picker_key :: nat
  picker_paneId :: string

record SplitState =
  autoCreateSameSession :: bool
  collapsedTo :: "TerminalPaneBinding option"
  confirmCloseOpen :: bool
  focusedPaneId :: "string option"
  split_host :: "TerminalSplitHost option"
  split_layout :: "TerminalSplitNode option"
  split_picker :: "TerminalSplitPickerOpenRequest option"
  split_revision :: nat
  tabActive :: bool

datatype layout_update =
    LayoutValue "TerminalSplitNode option"
  | LayoutUpdater "TerminalSplitNode option \<Rightarrow> TerminalSplitNode option"

datatype SplitAction =
    SplitSetLayout layout_update
  | SplitSetHost "TerminalSplitHost option"
  | SplitSetTabActive bool
  | SplitFocusPane "string option"
  | SplitBumpRevision
  | SplitSetAutoCreateSameSession bool
  | SplitSetPicker "TerminalSplitPickerOpenRequest option"
  | SplitSetConfirmClose bool
  | SplitAvailableBindingsChanged "string list" "TerminalPaneBinding option" FourPaneIds
  | SplitCollapseHandled

definition initialSplitState :: SplitState where
  "initialSplitState =
     \<lparr>autoCreateSameSession = True, collapsedTo = None, confirmCloseOpen = False,
      focusedPaneId = None, split_host = None, split_layout = None, split_picker = None,
      split_revision = 0, tabActive = False\<rparr>"

section \<open>Reducer\<close>

definition cleared :: "SplitState \<Rightarrow> TerminalPaneBinding option \<Rightarrow> SplitState" where
  "cleared s c = s\<lparr>collapsedTo := c, focusedPaneId := None, split_host := None,
     split_layout := None, split_picker := None, tabActive := False\<rparr>"

record FourPane =
  four_emptyPaneId :: "string option"
  four_focusedPaneId :: string
  four_layout :: TerminalSplitNode

definition createFourPane :: "TerminalPaneBinding list \<Rightarrow> FourPaneIds \<Rightarrow> FourPane" where
  "createFourPane bindings ids =
     (let layout = createTerminalFourPaneLayout bindings ids;
          panes = collectTerminalSplitPanes layout;
          emptyPane = find (\<lambda>pane. pane_binding pane = None) panes;
          focusedPane = coalesce emptyPane
            (coalesce (find (\<lambda>pane. terminalPaneBindingsEqual (pane_binding pane) (first_of bindings)) panes)
              (first_of panes))
      in \<lparr>four_emptyPaneId = truthy (map_option pane_id emptyPane),
          four_focusedPaneId = (case truthy (map_option pane_id focusedPane) of
             None \<Rightarrow> ids_topLeft ids | Some i \<Rightarrow> i),
          four_layout = layout\<rparr>)"

definition first_bound :: "TerminalSplitPane list \<Rightarrow> TerminalPaneBinding option" where
  "first_bound panes = Option.bind (find (\<lambda>pane. pane_binding pane \<noteq> None) panes) pane_binding"

definition resolveHost ::
  "TerminalSplitHost option \<Rightarrow> TerminalSplitPane list \<Rightarrow> TerminalSplitHost option" where
  "resolveHost h panes =
     (if (\<exists>pane \<in> set panes. terminalPaneBindingsEqual (pane_binding pane) h) then h
      else first_bound panes)"

definition optionalBindingsEqual ::
  "TerminalSplitHost option \<Rightarrow> TerminalSplitHost option \<Rightarrow> bool" where
  "optionalBindingsEqual first second \<longleftrightarrow> first = second \<or> terminalPaneBindingsEqual first second"

text \<open>
  The normalisation, in the order of the source: drop panes whose terminal is gone, repair the
  host and the focus, rebuild a layout above the pane limit, dissolve a single pane.
\<close>

definition unavailableKeys :: "TerminalSplitNode \<Rightarrow> string list \<Rightarrow> string list" where
  "unavailableKeys layout availableKeys =
     dedupe (concat (map (\<lambda>pane. case pane_binding pane of
         None \<Rightarrow> []
       | Some b \<Rightarrow> if terminalPaneBindingKey b \<notin> set availableKeys
           then [terminalPaneBindingKey b] else []) (collectTerminalSplitPanes layout)))"

definition refocusPane :: "string option \<Rightarrow> TerminalSplitPane list \<Rightarrow> string option" where
  "refocusPane focused panes =
     (case truthy focused of
        None \<Rightarrow> truthy (map_option pane_id (first_of panes))
      | Some f \<Rightarrow> if f \<in> pane_id ` set panes then Some f
          else truthy (map_option pane_id (first_of panes)))"

definition overLimitBinding ::
  "TerminalSplitPane list \<Rightarrow> string option \<Rightarrow> TerminalPaneBinding option \<Rightarrow> TerminalPaneBinding option" where
  "overLimitBinding panes focused fallbackBinding =
     coalesce (Option.bind (find (\<lambda>pane. Some (pane_id pane) = focused) panes) pane_binding)
       (coalesce (first_bound panes) fallbackBinding)"

definition overLimitBindings ::
  "TerminalSplitPane list \<Rightarrow> TerminalPaneBinding \<Rightarrow> TerminalPaneBinding list" where
  "overLimitBindings panes b =
     take terminalSplitMaxPanes
       (b # concat (map (\<lambda>pane. case pane_binding pane of
           None \<Rightarrow> []
         | Some c \<Rightarrow> if terminalPaneBindingsEqual (Some c) (Some b) then [] else [c]) panes))"

definition rebuildOverLimit ::
  "TerminalSplitNode \<Rightarrow> string option \<Rightarrow> TerminalSplitHost option \<Rightarrow> TerminalPaneBinding option
    \<Rightarrow> FourPaneIds \<Rightarrow> TerminalSplitNode \<times> string option \<times> TerminalSplitHost option" where
  "rebuildOverLimit layout focused host fallbackBinding ids =
     (let panes = collectTerminalSplitPanes layout in
      if length panes > terminalSplitMaxPanes then
        (case overLimitBinding panes focused fallbackBinding of
           None \<Rightarrow> (layout, focused, host)
         | Some b \<Rightarrow>
             (let four = createFourPane (overLimitBindings panes b) ids
              in (four_layout four, Some (four_focusedPaneId four),
                  resolveHost host (collectTerminalSplitPanes (four_layout four)))))
      else (layout, focused, host))"

definition normalizeSplit ::
  "SplitState \<Rightarrow> string list \<Rightarrow> TerminalPaneBinding option \<Rightarrow> FourPaneIds \<Rightarrow> SplitState" where
  "normalizeSplit s availableKeys fallbackBinding ids =
     (case split_layout s of
        None \<Rightarrow> s
      | Some current \<Rightarrow>
          (case removeTerminalSplitBindings current (unavailableKeys current availableKeys) of
             None \<Rightarrow> cleared s None
           | Some remaining \<Rightarrow>
               (let panes = collectTerminalSplitPanes remaining;
                    (layout, focused, host) = rebuildOverLimit remaining
                      (refocusPane (focusedPaneId s) panes) (resolveHost (split_host s) panes)
                      fallbackBinding ids;
                    panes = collectTerminalSplitPanes layout
                in if length panes = 1 then cleared s (Option.bind (first_of panes) pane_binding)
                   else if Some layout = split_layout s \<and> focused = focusedPaneId s \<and>
                       optionalBindingsEqual host (split_host s) then s
                   else s\<lparr>focusedPaneId := focused, split_host := host,
                          split_layout := Some layout\<rparr>)))"

fun apply_layout_update ::
  "layout_update \<Rightarrow> TerminalSplitNode option \<Rightarrow> TerminalSplitNode option" where
  "apply_layout_update (LayoutValue l) current = l"
| "apply_layout_update (LayoutUpdater f) current = f current"

fun splitReducer :: "SplitState \<Rightarrow> SplitAction \<Rightarrow> SplitState" where
  "splitReducer s (SplitSetLayout update) =
     (let layout = apply_layout_update update (split_layout s) in
      if layout = split_layout s then s else s\<lparr>split_layout := layout\<rparr>)"
| "splitReducer s (SplitSetHost h) =
     (if optionalBindingsEqual h (split_host s) then s else s\<lparr>split_host := h\<rparr>)"
| "splitReducer s (SplitSetTabActive active) =
     (if active = tabActive s then s else s\<lparr>tabActive := active\<rparr>)"
| "splitReducer s (SplitFocusPane paneId) =
     (if paneId = focusedPaneId s then s else s\<lparr>focusedPaneId := paneId\<rparr>)"
| "splitReducer s SplitBumpRevision = s\<lparr>split_revision := split_revision s + 1\<rparr>"
| "splitReducer s (SplitSetAutoCreateSameSession enabled) =
     (if enabled = autoCreateSameSession s then s else s\<lparr>autoCreateSameSession := enabled\<rparr>)"
| "splitReducer s (SplitSetPicker request) =
     (if request = split_picker s then s else s\<lparr>split_picker := request\<rparr>)"
| "splitReducer s (SplitSetConfirmClose opened) =
     (if opened = confirmCloseOpen s then s else s\<lparr>confirmCloseOpen := opened\<rparr>)"
| "splitReducer s (SplitAvailableBindingsChanged availableKeys fallbackBinding ids) =
     normalizeSplit s availableKeys fallbackBinding ids"
| "splitReducer s SplitCollapseHandled =
     (if collapsedTo s = None then s else s\<lparr>collapsedTo := None\<rparr>)"

section \<open>Selectors and anchor\<close>

definition selectSplitPanes :: "TerminalSplitNode option \<Rightarrow> TerminalSplitPane list" where
  "selectSplitPanes layout = (case layout of None \<Rightarrow> [] | Some l \<Rightarrow> collectTerminalSplitPanes l)"

definition selectPaneByBinding :: "TerminalSplitPane list \<Rightarrow> (string \<times> TerminalSplitPane) list" where
  "selectPaneByBinding panes = map_from (concat (map (\<lambda>pane. case pane_binding pane of
     None \<Rightarrow> [] | Some b \<Rightarrow> [(terminalPaneBindingKey b, pane)]) panes))"

definition selectMemberKeys :: "TerminalSplitPane list \<Rightarrow> string list" where
  "selectMemberKeys panes = dedupe (concat (map (\<lambda>pane. case pane_binding pane of
     None \<Rightarrow> [] | Some b \<Rightarrow> [terminalPaneBindingKey b]) panes))"

definition selectSplitExists :: "TerminalSplitNode option \<Rightarrow> TerminalSplitPane list \<Rightarrow> bool" where
  "selectSplitExists layout panes \<longleftrightarrow> layout \<noteq> None \<and> length panes > 1"

definition selectCanAddPane :: "TerminalSplitPane list \<Rightarrow> bool" where
  "selectCanAddPane panes \<longleftrightarrow> length panes < terminalSplitMaxPanes"

datatype binding_kind = KindSsh | KindLocal

fun binding_kind_of :: "TerminalPaneBinding \<Rightarrow> binding_kind" where
  "binding_kind_of (SshBinding t) = KindSsh"
| "binding_kind_of (LocalBinding t) = KindLocal"

fun make_binding :: "binding_kind \<Rightarrow> string \<Rightarrow> TerminalPaneBinding" where
  "make_binding KindSsh t = SshBinding t"
| "make_binding KindLocal t = LocalBinding t"

fun insertion_index_from ::
  "nat \<Rightarrow> string list \<Rightarrow> binding_kind \<Rightarrow> string \<Rightarrow> string list \<Rightarrow> nat" where
  "insertion_index_from visibleIndex [] kind hostTab memberKeys = visibleIndex"
| "insertion_index_from visibleIndex (tab # tabs) kind hostTab memberKeys =
     (if tab = hostTab then visibleIndex
      else insertion_index_from
        (if terminalPaneBindingKey (make_binding kind tab) \<notin> set memberKeys
         then visibleIndex + 1 else visibleIndex)
        tabs kind hostTab memberKeys)"

definition splitGroupInsertionIndex ::
  "string list \<Rightarrow> binding_kind \<Rightarrow> TerminalPaneBinding option \<Rightarrow> string list \<Rightarrow> nat" where
  "splitGroupInsertionIndex tabs kind host memberKeys =
     (case host of
        None \<Rightarrow> length tabs
      | Some h \<Rightarrow> if binding_kind_of h \<noteq> kind then length tabs
          else insertion_index_from 0 tabs kind (binding_tabId h) memberKeys)"

section \<open>Stages of the normalisation\<close>

lemma collect_pane_leaf:
  "p \<in> set (collectTerminalSplitPanes n) \<Longrightarrow> (pane_id p, pane_binding p) \<in> set (node_leaves n)"
  using collect_panes_set [of n] by auto

lemma set_unavailableKeys:
  "set (unavailableKeys n available) =
     {terminalPaneBindingKey b | b. b \<in> set (node_bindings n) \<and> terminalPaneBindingKey b \<notin> set available}"
proof -
  have "Some b \<in> pane_binding ` set (collectTerminalSplitPanes n) \<longleftrightarrow> b \<in> set (node_bindings n)" for b
    unfolding collect_panes_bindings by (simp add: set_node_bindings)
  then show ?thesis
    by (auto simp: unavailableKeys_def split: option.splits if_splits) (metis image_iff)+
qed

lemma bound_to_unavailable:
  assumes "l \<in> set (node_leaves n)"
  shows "bound_to (unavailableKeys n available) l \<longleftrightarrow>
    (\<exists>b. snd l = Some b \<and> terminalPaneBindingKey b \<notin> set available)"
  using assms
  by (auto simp: bound_to_def set_unavailableKeys set_node_bindings image_iff split: option.splits)
    (metis snd_conv)+

lemma remaining_available:
  assumes "removeTerminalSplitBindings n (unavailableKeys n available) = Some m"
  shows "set (node_leaves m) \<subseteq> set (node_leaves n)"
    and "b \<in> set (node_bindings m) \<Longrightarrow> terminalPaneBindingKey b \<in> set available"
proof -
  have m: "node_leaves m = filter (\<lambda>l. fst l \<notin> fst ` {l' \<in> set (node_leaves n).
      bound_to (unavailableKeys n available) l'}) (node_leaves n)"
    using removeTerminalSplitBindings_leaves [of n "unavailableKeys n available"] assms by simp
  then show "set (node_leaves m) \<subseteq> set (node_leaves n)"
    by auto
  show "terminalPaneBindingKey b \<in> set available" if b: "b \<in> set (node_bindings m)"
  proof (rule ccontr)
    assume "terminalPaneBindingKey b \<notin> set available"
    moreover obtain i where i: "(i, Some b) \<in> set (node_leaves m)"
      using b by (force simp: set_node_bindings)
    ultimately have "bound_to (unavailableKeys n available) (i, Some b)"
      using m by (subst bound_to_unavailable) auto
    with i m show False
      by force
  qed
qed

lemma remove_nothing:
  assumes "\<forall>b \<in> set (node_bindings n). terminalPaneBindingKey b \<in> set available"
  shows "removeTerminalSplitBindings n (unavailableKeys n available) = Some n"
proof -
  have "set (unavailableKeys n available) = {}"
    using assms by (auto simp: set_unavailableKeys)
  then have "unavailableKeys n available = []"
    by simp
  then show ?thesis
    by (simp add: removeTerminalSplitBindings_def option.case_eq_if)
qed

lemma first_bound_SomeD: "first_bound panes = Some b \<Longrightarrow> Some b \<in> pane_binding ` set panes"
  by (auto simp: first_bound_def bind_eq_Some_conv dest!: find_SomeD)
    (metis image_eqI)

lemma first_bound_None: "first_bound panes = None \<longleftrightarrow> pane_binding ` set panes \<subseteq> {None}"
proof (cases "find (\<lambda>pane. pane_binding pane \<noteq> None) panes")
  case None
  then have "pane_binding ` set panes \<subseteq> {None}"
    by (auto simp: find_eq_None)
  with None show ?thesis
    by (simp add: first_bound_def)
next
  case (Some p)
  then show ?thesis
    by (auto simp: first_bound_def image_iff dest!: find_SomeD)
qed

lemma resolveHost_SomeD: "resolveHost h panes = Some b \<Longrightarrow> Some b \<in> pane_binding ` set panes"
  by (auto simp: resolveHost_def split: if_splits dest: first_bound_SomeD) (metis image_eqI)

lemma resolveHost_None: "resolveHost h panes = None \<Longrightarrow> pane_binding ` set panes \<subseteq> {None}"
  by (cases h) (auto simp: resolveHost_def first_bound_None terminalPaneBindingsEqual_def
      split: if_splits option.splits)

lemma resolveHost_fixed:
  "Some b \<in> pane_binding ` set panes \<Longrightarrow> resolveHost (Some b) panes = Some b"
  by (auto simp: resolveHost_def image_iff)

lemma resolveHost_idem [simp]: "resolveHost (resolveHost h panes) panes = resolveHost h panes"
proof (cases "resolveHost h panes")
  case None
  then have "pane_binding ` set panes \<subseteq> {None}"
    by (rule resolveHost_None)
  then have "\<not> (\<exists>pane \<in> set panes. terminalPaneBindingsEqual (pane_binding pane) None)"
      "first_bound panes = None"
    by (auto simp: terminalPaneBindingsEqual_def first_bound_None)
  with None show ?thesis
    by (simp add: resolveHost_def)
next
  case (Some b)
  then show ?thesis
    by (simp add: resolveHost_SomeD resolveHost_fixed)
qed

lemma refocusPane_SomeD:
  "panes \<noteq> [] \<Longrightarrow> [] \<notin> pane_id ` set panes \<Longrightarrow>
    \<exists>f. refocusPane focused panes = Some f \<and> f \<in> pane_id ` set panes \<and> f \<noteq> []"
  by (cases panes) (auto simp: refocusPane_def truthy_def image_iff split: option.splits if_splits)

lemma refocusPane_fixed: "f \<in> pane_id ` set panes \<Longrightarrow> f \<noteq> [] \<Longrightarrow> refocusPane (Some f) panes = Some f"
  by (simp add: refocusPane_def truthy_def)

lemma nth_opt_set: "nth_opt xs i = Some x \<Longrightarrow> x \<in> set xs"
  by (auto simp: nth_opt_def split: if_splits)

abbreviation four_ids_nonempty :: "FourPaneIds \<Rightarrow> bool" where
  "four_ids_nonempty ids \<equiv>
     [] \<notin> {ids_topLeft ids, ids_topRight ids, ids_bottomLeft ids, ids_bottomRight ids}"

lemma createFourPane_facts:
  assumes "four_ids_nonempty ids"
  shows "length (node_leaves (four_layout (createFourPane bs ids))) = 4"
    and "[] \<notin> set (node_pane_ids (four_layout (createFourPane bs ids)))"
    and "set (node_bindings (four_layout (createFourPane bs ids))) \<subseteq> set bs"
    and "bs \<noteq> [] \<Longrightarrow> hd bs \<in> set (node_bindings (four_layout (createFourPane bs ids)))"
    and "four_focusedPaneId (createFourPane bs ids) \<in>
      set (node_pane_ids (four_layout (createFourPane bs ids)))"
proof -
  let ?l = "createTerminalFourPaneLayout bs ids"
  have l: "four_layout (createFourPane bs ids) = ?l"
    by (simp add: createFourPane_def Let_def)
  show "length (node_leaves (four_layout (createFourPane bs ids))) = 4"
    by (simp add: l four_pane_leaves)
  show "[] \<notin> set (node_pane_ids (four_layout (createFourPane bs ids)))"
    using assms by (auto simp: l four_pane_leaves)
  show "set (node_bindings (four_layout (createFourPane bs ids))) \<subseteq> set bs"
    by (auto simp: l set_node_bindings four_pane_leaves dest!: sym [where t = "nth_opt _ _"]
        intro: nth_opt_set)
  show "hd bs \<in> set (node_bindings (four_layout (createFourPane bs ids)))" if "bs \<noteq> []"
    unfolding l using that by (cases bs) (simp_all add: set_node_bindings four_pane_leaves nth_opt_def)
  have pane: "truthy (map_option pane_id o1) = Some i \<Longrightarrow> set_option o1 \<subseteq> set (collectTerminalSplitPanes ?l)
      \<Longrightarrow> i \<in> set (node_pane_ids ?l)" for o1 i
    by (cases o1) (auto simp: truthy_eq_Some collect_panes_ids [symmetric])
  show "four_focusedPaneId (createFourPane bs ids) \<in> set (node_pane_ids (four_layout (createFourPane bs ids)))"
    unfolding l
    by (auto simp: createFourPane_def Let_def l four_pane_leaves [of bs ids] split: option.splits
        dest!: pane simp: coalesce_eq_Some dest: find_SomeD first_of_SomeD)
qed

lemma overLimitBindings_subset:
  "set (overLimitBindings panes b) \<subseteq> insert b {c. Some c \<in> pane_binding ` set panes}"
proof -
  have "set (b # concat (map (\<lambda>pane. case pane_binding pane of
      None \<Rightarrow> [] | Some c \<Rightarrow> if terminalPaneBindingsEqual (Some c) (Some b) then [] else [c]) panes))
    \<subseteq> insert b {c. Some c \<in> pane_binding ` set panes}"
    by (auto split: option.splits if_splits)
  then show ?thesis
    unfolding overLimitBindings_def by (rule order_trans [OF set_take_subset])
qed

lemma node_bindings_collect:
  "b \<in> set (node_bindings n) \<longleftrightarrow> Some b \<in> pane_binding ` set (collectTerminalSplitPanes n)"
  by (simp add: collect_panes_bindings set_node_bindings)

lemma overLimitBinding_SomeD:
  "overLimitBinding (collectTerminalSplitPanes n) focused fallback = Some b \<Longrightarrow>
    b \<in> set (node_bindings n) \<union> set_option fallback"
  by (auto simp: overLimitBinding_def coalesce_eq_Some node_bindings_collect bind_eq_Some_conv
      dest!: find_SomeD first_bound_SomeD) (metis image_eqI)

lemma overLimitBinding_NoneD:
  assumes "overLimitBinding (collectTerminalSplitPanes n) focused fallback = None"
  shows "node_bindings n = [] \<and> fallback = None"
proof -
  from assms have "pane_binding ` set (collectTerminalSplitPanes n) \<subseteq> {None}" "fallback = None"
    by (auto simp: overLimitBinding_def coalesce_eq_None first_bound_None)
  then have "b \<notin> set (node_bindings n)" for b
    unfolding node_bindings_collect by auto
  with \<open>fallback = None\<close> show ?thesis
    by (metis list.set_intros(1) neq_Nil_conv)
qed

text \<open>What the third stage leaves behind, given a repaired focus and host.\<close>

definition over_limit_ok :: "TerminalSplitNode \<Rightarrow> TerminalPaneBinding option \<Rightarrow> bool" where
  "over_limit_ok n fallback \<longleftrightarrow>
     length (node_leaves n) \<le> terminalSplitMaxPanes \<or> (node_bindings n = [] \<and> fallback = None)"

lemma rebuildOverLimit_cases:
  obtains (keep) "rebuildOverLimit n focused host fallback ids = (n, focused, host)"
      and "over_limit_ok n fallback"
  | (rebuilt) b four where "overLimitBinding (collectTerminalSplitPanes n) focused fallback = Some b"
      and "four = createFourPane (overLimitBindings (collectTerminalSplitPanes n) b) ids"
      and "rebuildOverLimit n focused host fallback ids = (four_layout four,
        Some (four_focusedPaneId four), resolveHost host (collectTerminalSplitPanes (four_layout four)))"
proof (cases "length (collectTerminalSplitPanes n) > terminalSplitMaxPanes")
  case False
  then show ?thesis
    by (intro keep) (simp_all add: rebuildOverLimit_def over_limit_ok_def length_collect_panes)
next
  case True
  show ?thesis
  proof (cases "overLimitBinding (collectTerminalSplitPanes n) focused fallback")
    case None
    with True overLimitBinding_NoneD [OF None] show ?thesis
      by (intro keep) (simp_all add: rebuildOverLimit_def over_limit_ok_def)
  next
    case (Some b)
    with True show ?thesis
      by (intro rebuilt [OF Some refl]) (simp add: rebuildOverLimit_def Let_def)
  qed
qed

lemma rebuildOverLimit_facts:
  assumes reb: "rebuildOverLimit n focused host fallback ids = (m, focused', host')"
    and foc: "focused = Some f" "f \<in> set (node_pane_ids n)"
    and host: "host = resolveHost h (collectTerminalSplitPanes n)"
    and ids: "four_ids_nonempty ids" "[] \<notin> set (node_pane_ids n)"
  shows "set (node_bindings m) \<subseteq> set (node_bindings n) \<union> set_option fallback \<and>
    over_limit_ok m fallback \<and> (\<exists>f'. focused' = Some f' \<and> f' \<in> set (node_pane_ids m)) \<and>
    [] \<notin> set (node_pane_ids m) \<and> resolveHost host' (collectTerminalSplitPanes m) = host'"
proof (cases rule: rebuildOverLimit_cases [of n focused host fallback ids])
  case keep
  with reb have "m = n" "focused' = focused" "host' = host"
    by simp_all
  with keep foc host ids show ?thesis
    by auto
next
  case (rebuilt b four)
  from rebuilt(3) reb have m: "m = four_layout four" "focused' = Some (four_focusedPaneId four)"
      "host' = resolveHost host (collectTerminalSplitPanes m)"
    by auto
  have "set (node_bindings m) \<subseteq> insert b {c. Some c \<in> pane_binding ` set (collectTerminalSplitPanes n)}"
    unfolding m rebuilt(2)
    by (rule order_trans [OF createFourPane_facts(3) [OF ids(1)] overLimitBindings_subset])
  then have "set (node_bindings m) \<subseteq> set (node_bindings n) \<union> set_option fallback"
    using overLimitBinding_SomeD [OF rebuilt(1)] by (auto simp: node_bindings_collect)
  moreover have "over_limit_ok m fallback"
    unfolding m rebuilt(2) over_limit_ok_def createFourPane_facts(1) [OF ids(1)]
    by (simp add: terminalSplitMaxPanes_def)
  moreover have "four_focusedPaneId four \<in> set (node_pane_ids m)" "[] \<notin> set (node_pane_ids m)"
    unfolding m rebuilt(2) by (rule createFourPane_facts(5,2) [OF ids(1)])+
  ultimately show ?thesis
    using m by simp
qed

section \<open>What the normalisation establishes\<close>

text \<open>
  A settled state has no layout, or a layout of at least two panes, within the limit unless
  nothing is bound and nothing could be, whose bound terminals are all open, whose focus is one
  of its panes and whose host is one of its bindings (absent only when nothing is bound).
\<close>

definition split_settled ::
  "string list \<Rightarrow> TerminalPaneBinding option \<Rightarrow> SplitState \<Rightarrow> bool" where
  "split_settled available fallback s \<longleftrightarrow>
     (case split_layout s of
        None \<Rightarrow> True
      | Some n \<Rightarrow>
          (\<forall>b \<in> set (node_bindings n). terminalPaneBindingKey b \<in> set available) \<and>
          2 \<le> length (collectTerminalSplitPanes n) \<and>
          (length (collectTerminalSplitPanes n) \<le> terminalSplitMaxPanes \<or>
            (node_bindings n = [] \<and> fallback = None)) \<and>
          (case focusedPaneId s of None \<Rightarrow> False
             | Some f \<Rightarrow> f \<noteq> [] \<and> f \<in> pane_id ` set (collectTerminalSplitPanes n)) \<and>
          (case split_host s of None \<Rightarrow> node_bindings n = []
             | Some h \<Rightarrow> h \<in> set (node_bindings n)))"

definition pane_ids_nonempty :: "SplitState \<Rightarrow> bool" where
  "pane_ids_nonempty s \<longleftrightarrow>
     (case split_layout s of None \<Rightarrow> True | Some n \<Rightarrow> [] \<notin> set (node_pane_ids n))"

lemma resolved_host_bound:
  assumes "resolveHost h (collectTerminalSplitPanes n) = h"
  shows "case h of None \<Rightarrow> node_bindings n = [] | Some b \<Rightarrow> b \<in> set (node_bindings n)"
proof (cases h)
  case None
  then have "pane_binding ` set (collectTerminalSplitPanes n) \<subseteq> {None}"
    using assms resolveHost_None by metis
  then have "b \<notin> set (node_bindings n)" for b
    unfolding node_bindings_collect by auto
  then have "node_bindings n = []"
    by (cases "node_bindings n") auto
  with None show ?thesis
    by simp
next
  case (Some b)
  with assms show ?thesis
    by (auto simp: node_bindings_collect dest: resolveHost_SomeD)
qed

lemma host_resolved:
  assumes "case h of None \<Rightarrow> node_bindings n = [] | Some b \<Rightarrow> b \<in> set (node_bindings n)"
  shows "resolveHost h (collectTerminalSplitPanes n) = h"
proof (cases h)
  case None
  with assms have "Some b \<notin> pane_binding ` set (collectTerminalSplitPanes n)" for b
    unfolding node_bindings_collect [symmetric] by simp
  then have "resolveHost h (collectTerminalSplitPanes n) \<noteq> Some b" for b
    using resolveHost_SomeD by blast
  with None show ?thesis
    by auto
next
  case (Some b)
  with assms show ?thesis
    by (simp add: node_bindings_collect resolveHost_fixed)
qed

lemma cleared_settled [simp]: "split_settled available fallback (cleared s c)"
  by (simp add: split_settled_def cleared_def)

lemma normalizeSplit_settled:
  assumes ids: "four_ids_nonempty ids" and panes: "pane_ids_nonempty s"
    and fallback: "\<forall>b. fallback = Some b \<longrightarrow> terminalPaneBindingKey b \<in> set available"
  shows "split_settled available fallback (normalizeSplit s available fallback ids)"
proof (cases "split_layout s")
  case None
  then show ?thesis
    by (simp add: normalizeSplit_def split_settled_def)
next
  case cur: (Some n)
  show ?thesis
  proof (cases "removeTerminalSplitBindings n (unavailableKeys n available)")
    case None
    with cur show ?thesis
      by (simp add: normalizeSplit_def)
  next
    case (Some m)
    let ?panes = "collectTerminalSplitPanes m"
    note rem = remaining_available [OF Some]
    from panes cur rem(1) have m_ids: "[] \<notin> set (node_pane_ids m)"
      by (auto simp: pane_ids_nonempty_def)
    then have "[] \<notin> pane_id ` set ?panes"
      by (simp add: collect_panes_ids)
    then obtain f where f: "refocusPane (focusedPaneId s) ?panes = Some f" "f \<in> set (node_pane_ids m)"
      using refocusPane_SomeD [of ?panes "focusedPaneId s"] by (auto simp: collect_panes_ids)
    obtain layout focused host where reb:
      "rebuildOverLimit m (refocusPane (focusedPaneId s) ?panes) (resolveHost (split_host s) ?panes)
         fallback ids = (layout, focused, host)"
      by (metis prod_cases3)
    note facts = rebuildOverLimit_facts [OF reb f refl ids m_ids]
    have norm: "normalizeSplit s available fallback ids =
        (if length (collectTerminalSplitPanes layout) = 1
         then cleared s (Option.bind (first_of (collectTerminalSplitPanes layout)) pane_binding)
         else if Some layout = split_layout s \<and> focused = focusedPaneId s \<and>
             optionalBindingsEqual host (split_host s) then s
         else s\<lparr>focusedPaneId := focused, split_host := host, split_layout := Some layout\<rparr>)"
      using cur Some reb by (simp add: normalizeSplit_def Let_def)
    have settled: "split_settled available fallback t"
      if t: "split_layout t = Some layout" "focusedPaneId t = focused" "split_host t = host"
        and two: "length (collectTerminalSplitPanes layout) \<noteq> 1" for t
    proof -
      have "length (collectTerminalSplitPanes layout) \<noteq> 0"
        by simp
      with two have "2 \<le> length (collectTerminalSplitPanes layout)"
        by linarith
      moreover have "\<forall>b \<in> set (node_bindings layout). terminalPaneBindingKey b \<in> set available"
        using facts rem(2) fallback by (auto simp: subset_iff)
      moreover have "case host of None \<Rightarrow> node_bindings layout = [] | Some b \<Rightarrow> b \<in> set (node_bindings layout)"
        using facts resolved_host_bound by blast
      ultimately show ?thesis
        using facts t
        by (clarsimp simp: split_settled_def over_limit_ok_def length_collect_panes collect_panes_ids)
          (metis fst_conv image_eqI)
    qed
    have "host = split_host s" if "optionalBindingsEqual host (split_host s)"
      using that by (cases host)
        (auto simp: optionalBindingsEqual_def terminalPaneBindingsEqual_def split: option.splits)
    with settled [of s] settled show ?thesis
      unfolding norm by (cases "length (collectTerminalSplitPanes layout) = 1") auto
  qed
qed

lemma normalizeSplit_fixed:
  assumes "split_settled available fallback s"
  shows "normalizeSplit s available fallback ids = s"
proof (cases "split_layout s")
  case None
  then show ?thesis
    by (simp add: normalizeSplit_def)
next
  case (Some n)
  let ?panes = "collectTerminalSplitPanes n"
  from assms Some have n: "\<forall>b \<in> set (node_bindings n). terminalPaneBindingKey b \<in> set available"
      "2 \<le> length ?panes"
      "length ?panes \<le> terminalSplitMaxPanes \<or> (node_bindings n = [] \<and> fallback = None)"
      "case split_host s of None \<Rightarrow> node_bindings n = [] | Some h \<Rightarrow> h \<in> set (node_bindings n)"
    by (simp_all add: split_settled_def)
  from assms Some obtain f where f: "focusedPaneId s = Some f" "f \<noteq> []" "f \<in> pane_id ` set ?panes"
    by (auto simp: split_settled_def split: option.splits)
  have host: "resolveHost (split_host s) ?panes = split_host s"
    by (rule host_resolved [OF n(4)])
  have "rebuildOverLimit n (Some f) (split_host s) fallback ids = (n, Some f, split_host s)"
  proof (cases "length ?panes \<le> terminalSplitMaxPanes")
    case False
    with n(3) have "node_bindings n = []" "fallback = None"
      by auto
    then have "overLimitBinding ?panes (Some f) fallback = None"
      using overLimitBinding_SomeD [of n "Some f" fallback]
      by (metis Un_empty_left empty_iff list.set(1) not_None_eq option.set(1))
    then show ?thesis
      by (simp add: rebuildOverLimit_def Let_def)
  qed (simp add: rebuildOverLimit_def)
  then show ?thesis
    using Some n(2) f remove_nothing [OF n(1)] host refocusPane_fixed [OF f(3,2)]
    by (simp add: normalizeSplit_def Let_def optionalBindingsEqual_def)
qed

text \<open>
  C9. Whatever state the split is in, once the open terminals have been announced (with the
  fallback among them) it is settled: every bound pane shows an open terminal, there are
  between two and four panes, the focus is a pane of the layout, the host is one of the bound
  terminals; and announcing the same terminals again changes nothing, whatever ids are drawn,
  so the announcing effect does not loop.
\<close>

theorem split_normalisation_settles:
  assumes "four_ids_nonempty ids" "pane_ids_nonempty s"
    and "\<forall>b. fallback = Some b \<longrightarrow> terminalPaneBindingKey b \<in> set available"
  shows "split_settled available fallback
      (splitReducer s (SplitAvailableBindingsChanged available fallback ids)) \<and>
    splitReducer (splitReducer s (SplitAvailableBindingsChanged available fallback ids))
      (SplitAvailableBindingsChanged available fallback ids') =
    splitReducer s (SplitAvailableBindingsChanged available fallback ids)"
  using normalizeSplit_settled [OF assms] normalizeSplit_fixed by simp

definition sample_four_ids :: FourPaneIds where
  "sample_four_ids =
     \<lparr>ids_bottomLeft = ''bl'', ids_bottomRight = ''br'', ids_leftSplit = ''ls'',
      ids_rightSplit = ''rs'', ids_root = ''root'', ids_topLeft = ''tl'', ids_topRight = ''tr''\<rparr>"

definition sample_split_state :: SplitState where
  "sample_split_state = initialSplitState
     \<lparr>split_layout := Some (SplitBranch Row (SplitLeaf (Some (SshBinding ''t1'')) ''p1'') ''s1'' (1 / 2)
        (SplitBranch Column (SplitLeaf (Some (LocalBinding ''t2'')) ''p2'') ''s2'' (1 / 2)
          (SplitLeaf (Some (SshBinding ''t3'')) ''p3''))),
      focusedPaneId := Some ''p3'', split_host := Some (SshBinding ''t3''), tabActive := True\<rparr>"

theorem split_normalisation_settles_witness:
  "split_settled [''ssh:t1'', ''local:t2''] (Some (SshBinding ''t1''))
     (splitReducer sample_split_state (SplitAvailableBindingsChanged [''ssh:t1'', ''local:t2'']
        (Some (SshBinding ''t1'')) sample_four_ids))"
  using split_normalisation_settles [of sample_four_ids sample_split_state "Some (SshBinding ''t1'')"
      "[''ssh:t1'', ''local:t2'']" sample_four_ids]
  by (simp add: sample_four_ids_def sample_split_state_def pane_ids_nonempty_def)

section \<open>Collapse to one pane\<close>

lemma single_leaf_pane:
  assumes "node_leaves m = [(i, c)]"
  shows "length (collectTerminalSplitPanes m) = 1"
    and "Option.bind (first_of (collectTerminalSplitPanes m)) pane_binding = c"
proof -
  show len: "length (collectTerminalSplitPanes m) = 1"
    by (simp add: length_collect_panes assms)
  then obtain p where p: "collectTerminalSplitPanes m = [p]"
    by (metis One_nat_def length_0_conv length_Suc_conv)
  with collect_panes_bindings [of m] assms have "pane_binding p = c"
    by simp
  with p show "Option.bind (first_of (collectTerminalSplitPanes m)) pane_binding = c"
    by simp
qed

lemma remaining_leaves_distinct:
  assumes "distinct (node_pane_ids n)"
  shows "layout_leaves (removeTerminalSplitBindings n (unavailableKeys n available)) =
    filter (\<lambda>l. \<forall>b. snd l = Some b \<longrightarrow> terminalPaneBindingKey b \<in> set available) (node_leaves n)"
proof -
  have inj: "inj_on fst (set (node_leaves n))"
    using assms by (simp add: distinct_map)
  have "fst l \<in> fst ` {l' \<in> set (node_leaves n). bound_to (unavailableKeys n available) l'} \<longleftrightarrow>
      (\<exists>b. snd l = Some b \<and> terminalPaneBindingKey b \<notin> set available)"
    if "l \<in> set (node_leaves n)" for l
    using that inj by (auto simp: bound_to_unavailable inj_on_def)
  then show ?thesis
    unfolding removeTerminalSplitBindings_leaves by (intro filter_cong refl) blast
qed

lemma normalizeSplit_collapse:
  assumes "split_layout s = Some n" "distinct (node_pane_ids n)"
    and "filter (\<lambda>l. \<forall>b. snd l = Some b \<longrightarrow> terminalPaneBindingKey b \<in> set available) (node_leaves n) = [(i, c)]"
  shows "normalizeSplit s available fallback ids = cleared s c"
proof -
  have "layout_leaves (removeTerminalSplitBindings n (unavailableKeys n available)) = [(i, c)]"
    using assms(2,3) by (simp add: remaining_leaves_distinct)
  then obtain m where m: "removeTerminalSplitBindings n (unavailableKeys n available) = Some m"
      "node_leaves m = [(i, c)]"
    by (cases "removeTerminalSplitBindings n (unavailableKeys n available)") auto
  note pane = single_leaf_pane [OF m(2)]
  then have "rebuildOverLimit m f h fallback ids = (m, f, h)" for f h
    by (simp add: rebuildOverLimit_def terminalSplitMaxPanes_def)
  with assms(1) m(1) pane show ?thesis
    by (simp add: normalizeSplit_def Let_def)
qed

text \<open>
  When all but one pane of a layout with distinct pane ids have lost their terminal, the
  split is dissolved and the surviving terminal is handed back: no layout, host, focus or
  picker is left, the split tab is no longer active, and \<open>collapsedTo\<close> is the binding of
  the surviving pane until its hand-over is acknowledged.
\<close>

theorem split_collapse_hands_back:
  assumes "split_layout s = Some n" "distinct (node_pane_ids n)"
    and "filter (\<lambda>l. \<forall>b. snd l = Some b \<longrightarrow> terminalPaneBindingKey b \<in> set available) (node_leaves n) = [(i, c)]"
    and "t = splitReducer s (SplitAvailableBindingsChanged available fallback ids)"
  shows "split_layout t = None \<and> split_host t = None \<and> focusedPaneId t = None \<and>
    split_picker t = None \<and> \<not> tabActive t \<and> collapsedTo t = c \<and>
    splitReducer t SplitCollapseHandled = t\<lparr>collapsedTo := None\<rparr>"
proof -
  have "t = cleared s c"
    using normalizeSplit_collapse [OF assms(1,2,3)] assms(4) by simp
  then show ?thesis
    by (cases c) (simp_all add: cleared_def)
qed

theorem split_collapse_hands_back_witness:
  "collapsedTo (splitReducer sample_split_state
     (SplitAvailableBindingsChanged [''ssh:t3''] None sample_four_ids)) = Some (SshBinding ''t3'')"
  using split_collapse_hands_back [of sample_split_state "the (split_layout sample_split_state)"
      "[''ssh:t3'']" "''p3''" "Some (SshBinding ''t3'')" _ None sample_four_ids]
  by (simp add: sample_split_state_def)

section \<open>Position of the group in a tab strip\<close>

lemma insertion_index_from_eq:
  "insertion_index_from k tabs kind h members =
     k + length (filter (\<lambda>t. terminalPaneBindingKey (make_binding kind t) \<notin> set members)
       (takeWhile (\<lambda>t. t \<noteq> h) tabs))"
  by (induction k tabs kind h members rule: insertion_index_from.induct) auto

text \<open>
  The split group is inserted into the strip of its host's kind right after the tabs that
  precede the host and are not themselves members of the group; in the other strip (or without
  a host) it would go last. The index never exceeds the length of the strip.
\<close>

theorem splitGroupInsertionIndex_position:
  "splitGroupInsertionIndex tabs kind host members =
     (case host of
        None \<Rightarrow> length tabs
      | Some h \<Rightarrow> if binding_kind_of h \<noteq> kind then length tabs
          else length (filter (\<lambda>t. terminalPaneBindingKey (make_binding kind t) \<notin> set members)
            (takeWhile (\<lambda>t. t \<noteq> binding_tabId h) tabs))) \<and>
   splitGroupInsertionIndex tabs kind host members \<le> length tabs"
proof -
  have "length (filter P (takeWhile Q tabs)) \<le> length tabs" for P Q
    by (rule order_trans [OF length_filter_le length_takeWhile_le])
  then show ?thesis
    by (simp add: splitGroupInsertionIndex_def insertion_index_from_eq split: option.split)
qed

end
