(* ===== verification/Multi_Exec.thy ===== *)
theory Multi_Exec
  imports Split_Layout
begin

text \<open>
  MultiExec, the broadcast of terminal input to a fixed set of instances
  (\<open>features/workspace/multiExec\<close>): the state reducer (\<open>actions.ts\<close>,
  \<open>reducer.ts\<close>), the projection of open tabs to receivers (\<open>targets.ts\<close>), the
  concurrent live fan-out (\<open>live.ts\<close>) and the sequential command send (\<open>send.ts\<close>).

  A set of receivers is an insertion-ordered list of keys. The terminal runtime's
  \<open>write\<close> is a parameter: the settlement of its \<open>i\<close>-th call, \<open>None\<close> when
  the promise is fulfilled and \<open>Some\<close> of the reason when it is rejected; the model
  returns the calls made next to the deliveries.
\<close>

section \<open>State\<close>

datatype MultiExecMode = ModeOff | ModeLive | ModeSend

record MultiExecState =
  me_error :: "string option"
  me_mode :: MultiExecMode
  me_targets :: "string list"

datatype targets_update =
    TargetsValue "string list"
  | TargetsUpdater "string list \<Rightarrow> string list"

datatype MultiExecAction =
    MultiExecSetMode MultiExecMode
  | MultiExecSetLive bool
  | MultiExecSetTargets targets_update
  | MultiExecSetError "string option"
  | MultiExecTargetsAvailable (available_keys: "string list") (focused_key: "string option")
      (split_active: "bool option")

definition initialMultiExecState :: MultiExecState where
  "initialMultiExecState = \<lparr>me_error = None, me_mode = ModeOff, me_targets = []\<rparr>"

definition setsEqual :: "string list \<Rightarrow> string list \<Rightarrow> bool" where
  "setsEqual left right \<longleftrightarrow>
     length left = length right \<and> (\<forall>value \<in> set left. value \<in> set right)"

fun apply_targets_update :: "targets_update \<Rightarrow> string list \<Rightarrow> string list" where
  "apply_targets_update (TargetsValue ts) current = dedupe ts"
| "apply_targets_update (TargetsUpdater f) current = dedupe (f current)"

fun multiExecReducer :: "MultiExecState \<Rightarrow> MultiExecAction \<Rightarrow> MultiExecState" where
  "multiExecReducer s (MultiExecSetMode m) =
     (if m = me_mode s then s else s\<lparr>me_mode := m\<rparr>)"
| "multiExecReducer s (MultiExecSetLive enabled) =
     (let m = (if enabled then ModeLive else ModeOff) in
      if m = me_mode s then s else s\<lparr>me_mode := m\<rparr>)"
| "multiExecReducer s (MultiExecSetTargets update) =
     (let next = apply_targets_update update (me_targets s);
          targets = (if setsEqual (me_targets s) next then me_targets s else next);
          m = (if me_mode s = ModeLive \<and> targets = [] then ModeOff else me_mode s)
      in s\<lparr>me_targets := targets, me_mode := m\<rparr>)"
| "multiExecReducer s (MultiExecSetError e) =
     (if e = me_error s then s else s\<lparr>me_error := e\<rparr>)"
| "multiExecReducer s (MultiExecTargetsAvailable available focused split) =
     (let next = filter (\<lambda>key. key \<in> set available) (me_targets s);
          targets = (if setsEqual (me_targets s) next then me_targets s else next);
          m = (if me_mode s = ModeLive \<and> next = [] then ModeOff else me_mode s)
      in s\<lparr>me_mode := m, me_targets := targets\<rparr>)"

section \<open>Receivers\<close>

datatype MultiExecTargetKind = TargetSsh | TargetLocal | TargetTelnet | TargetSerial

record MultiExecTarget =
  mt_binding :: TerminalPaneBinding
  mt_key :: string
  mt_kind :: MultiExecTargetKind
  mt_ownerId :: string
  mt_sessionId :: string
  mt_tabId :: string
  mt_title :: string

datatype tab_type = TabConnecting | TabTerminal

datatype terminal_source = SourceLocal | SourceSerial | SourceTelnet

record MultiExecSshTab =
  mst_connectionId :: string
  mst_id :: string
  mst_sessionId :: "string option"
  mst_title :: string
  mst_type :: tab_type

record MultiExecCharacterTab =
  mct_id :: string
  mct_profileId :: string
  mct_sessionId :: "string option"
  mct_source :: "terminal_source option"
  mct_title :: string

definition sshTarget :: "MultiExecSshTab \<Rightarrow> MultiExecTarget list" where
  "sshTarget tab =
     (case truthy (mst_sessionId tab) of
        None \<Rightarrow> []
      | Some session \<Rightarrow>
          if mst_type tab \<noteq> TabTerminal then []
          else [\<lparr>mt_binding = SshBinding (mst_id tab),
                 mt_key = terminalPaneBindingKey (SshBinding (mst_id tab)),
                 mt_kind = TargetSsh, mt_ownerId = mst_connectionId tab, mt_sessionId = session,
                 mt_tabId = mst_id tab, mt_title = mst_title tab\<rparr>])"

definition characterTarget :: "MultiExecCharacterTab \<Rightarrow> MultiExecTarget list" where
  "characterTarget tab =
     (case truthy (mct_sessionId tab) of
        None \<Rightarrow> []
      | Some session \<Rightarrow>
          [\<lparr>mt_binding = LocalBinding (mct_id tab),
            mt_key = terminalPaneBindingKey (LocalBinding (mct_id tab)),
            mt_kind = (if mct_source tab = Some SourceTelnet then TargetTelnet
              else if mct_source tab = Some SourceSerial then TargetSerial else TargetLocal),
            mt_ownerId = mct_profileId tab, mt_sessionId = session,
            mt_tabId = mct_id tab, mt_title = mct_title tab\<rparr>])"

definition buildMultiExecTargets ::
  "MultiExecCharacterTab list \<Rightarrow> MultiExecSshTab list \<Rightarrow> MultiExecTarget list" where
  "buildMultiExecTargets localTabs sshTabs =
     concat (map sshTarget sshTabs) @ concat (map characterTarget localTabs)"

definition selectExplicitMultiExecTargets ::
  "MultiExecTarget list \<Rightarrow> string list \<Rightarrow> MultiExecTarget list" where
  "selectExplicitMultiExecTargets targets selectedKeys =
     filter (\<lambda>target. mt_key target \<in> set selectedKeys) targets"

definition selectLiveFanoutTargets ::
  "MultiExecTarget list \<Rightarrow> string list \<Rightarrow> string option \<Rightarrow> MultiExecTarget list" where
  "selectLiveFanoutTargets targets selectedKeys sourceKey =
     filter (\<lambda>target. Some (mt_key target) \<noteq> sourceKey)
       (selectExplicitMultiExecTargets targets selectedKeys)"

definition multiExecAvailableKeys :: "MultiExecTarget list \<Rightarrow> string list" where
  "multiExecAvailableKeys targets = dedupe (map mt_key targets)"

section \<open>Live input and command send\<close>

datatype 'e live_error = LiveReason 'e | MissingLiveDeliveryResult

datatype delivery_status = DeliveryWritten | DeliveryFailed | DeliveryDisconnected

record 'e MultiExecLiveDelivery =
  live_error :: "'e live_error option"
  live_key :: string
  live_status :: delivery_status

text \<open>
  All writes are started in target order before any of them settles (\<open>Promise.allSettled\<close>);
  the result is the list of calls and one delivery per target.
\<close>

definition writeMultiExecLiveInput ::
  "string \<Rightarrow> string list \<Rightarrow> string \<Rightarrow> MultiExecTarget list
    \<Rightarrow> (nat \<Rightarrow> string \<Rightarrow> string \<Rightarrow> 'e option)
    \<Rightarrow> (string \<times> string) list \<times> 'e MultiExecLiveDelivery list" where
  "writeMultiExecLiveInput data selectedKeys sourceKey allTargets write =
     (let targets = selectLiveFanoutTargets allTargets selectedKeys (Some sourceKey);
          calls = map (\<lambda>target. (mt_sessionId target, data)) targets;
          results = map (\<lambda>(i, session, d). write i session d) (enumerate 0 calls)
      in (calls,
          map (\<lambda>(index, target).
             case nth_opt results index of
               Some None \<Rightarrow>
                 \<lparr>live_error = None, live_key = mt_key target, live_status = DeliveryWritten\<rparr>
             | Some (Some reason) \<Rightarrow>
                 \<lparr>live_error = Some (LiveReason reason), live_key = mt_key target,
                  live_status = DeliveryFailed\<rparr>
             | None \<Rightarrow>
                 \<lparr>live_error = Some MissingLiveDeliveryResult, live_key = mt_key target,
                  live_status = DeliveryFailed\<rparr>)
            (enumerate 0 targets)))"

record 'e MultiExecSendDelivery =
  send_error :: "'e option"
  send_key :: string
  send_status :: delivery_status

text \<open>
  One key after the other; \<open>resolveTarget\<close> is asked when the loop reaches the key, so
  its answer may depend on the iteration.
\<close>

fun writeMultiExecCommand_from ::
  "nat \<Rightarrow> string \<Rightarrow> string list \<Rightarrow> (nat \<Rightarrow> string \<Rightarrow> MultiExecTarget option)
    \<Rightarrow> (nat \<Rightarrow> string \<Rightarrow> string \<Rightarrow> 'e option)
    \<Rightarrow> (string \<times> string) list \<times> 'e MultiExecSendDelivery list" where
  "writeMultiExecCommand_from i data [] resolveTarget write = ([], [])"
| "writeMultiExecCommand_from i data (key # keys) resolveTarget write =
     (let (calls, deliveries) = writeMultiExecCommand_from (Suc i) data keys resolveTarget write in
      case resolveTarget i key of
        None \<Rightarrow>
          (calls, \<lparr>send_error = None, send_key = key, send_status = DeliveryDisconnected\<rparr> # deliveries)
      | Some target \<Rightarrow>
          ((mt_sessionId target, data) # calls,
           (case write i (mt_sessionId target) data of
              None \<Rightarrow> \<lparr>send_error = None, send_key = key, send_status = DeliveryWritten\<rparr>
            | Some e \<Rightarrow> \<lparr>send_error = Some e, send_key = key, send_status = DeliveryFailed\<rparr>)
           # deliveries))"

definition writeMultiExecCommand ::
  "string \<Rightarrow> string list \<Rightarrow> (nat \<Rightarrow> string \<Rightarrow> MultiExecTarget option)
    \<Rightarrow> (nat \<Rightarrow> string \<Rightarrow> string \<Rightarrow> 'e option)
    \<Rightarrow> (string \<times> string) list \<times> 'e MultiExecSendDelivery list" where
  "writeMultiExecCommand data targetKeys resolveTarget write =
     writeMultiExecCommand_from 0 data targetKeys resolveTarget write"

section \<open>The reducer\<close>

lemma filter_length_eq: "length (filter P xs) = length xs \<longleftrightarrow> (\<forall>x \<in> set xs. P x)"
  by (metis filter_True filter_id_conv length_filter_less not_less_iff_gr_or_eq)

lemma setsEqual_filter: "setsEqual xs (filter P xs) \<longleftrightarrow> filter P xs = xs"
  by (auto simp: setsEqual_def filter_id_conv)

lemma setsEqual_set:
  "setsEqual xs ys \<Longrightarrow> distinct xs \<Longrightarrow> distinct ys \<Longrightarrow> set xs = set ys"
  by (metis card_subset_eq distinct_card finite_set setsEqual_def subsetI)

lemma apply_targets_update_distinct [simp]: "distinct (apply_targets_update u ts)"
  by (cases u) auto

lemma targetsAvailable_eq:
  "multiExecReducer s (MultiExecTargetsAvailable available focused split) =
     s\<lparr>me_targets := filter (\<lambda>key. key \<in> set available) (me_targets s),
       me_mode := (if me_mode s = ModeLive \<and> filter (\<lambda>key. key \<in> set available) (me_targets s) = []
         then ModeOff else me_mode s)\<rparr>"
  by (simp add: Let_def setsEqual_filter)

fun is_setTargets :: "MultiExecAction \<Rightarrow> bool" where
  "is_setTargets (MultiExecSetTargets u) = True"
| "is_setTargets _ = False"

lemma multiExec_shrinks:
  "\<not> is_setTargets a \<Longrightarrow> set (me_targets (multiExecReducer s a)) \<subseteq> set (me_targets s)"
  by (cases a) (auto simp: Let_def)

interpretation multi_exec_set: reducer multiExecReducer "\<lambda>s. distinct (me_targets s)"
proof
  show "distinct (me_targets (multiExecReducer s a))" if "distinct (me_targets s)" for s a
    using that by (cases a) (simp_all add: Let_def)
qed

interpretation multi_exec_targets: shrinking_reducer multiExecReducer "\<lambda>s. set (me_targets s)" is_setTargets
  by unfold_locales (rule multiExec_shrinks)

text \<open>
  C8. Receivers change by explicit choice only: along any run of actions none of which is
  \<open>setTargets\<close> (mode switches, errors, focus changes, terminals connecting and
  disconnecting), every receiver at the end was already one at the start.
\<close>

theorem multiExec_no_implicit_receiver:
  assumes "\<forall>a \<in> set actions. \<not> is_setTargets a"
  shows "set (me_targets (foldl multiExecReducer s actions)) \<subseteq> set (me_targets s)"
  using assms by (rule multi_exec_targets.run_shrinks)

theorem multiExec_no_implicit_receiver_witness:
  "set (me_targets (foldl multiExecReducer
      \<lparr>me_error = None, me_mode = ModeLive, me_targets = [''ssh:a'', ''ssh:b'']\<rparr>
      [MultiExecTargetsAvailable [''ssh:b'', ''ssh:c''] (Some ''ssh:c'') (Some True), MultiExecSetMode ModeSend]))
    \<subseteq> {''ssh:a'', ''ssh:b''}"
  using multiExec_no_implicit_receiver
    [of "[MultiExecTargetsAvailable [''ssh:b'', ''ssh:c''] (Some ''ssh:c'') (Some True), MultiExecSetMode ModeSend]"
      "\<lparr>me_error = None, me_mode = ModeLive, me_targets = [''ssh:a'', ''ssh:b'']\<rparr>"]
  by simp

text \<open>
  Reconciling with the connected terminals keeps exactly the receivers still connected, in
  their order, whatever has the focus; live mode survives precisely while a receiver is left,
  and the other modes never change.
\<close>

theorem multiExec_reconcile:
  "multiExecReducer s (MultiExecTargetsAvailable available focused split) =
     s\<lparr>me_targets := filter (\<lambda>key. key \<in> set available) (me_targets s),
       me_mode := (if me_mode s = ModeLive \<and> set (me_targets s) \<inter> set available = {}
         then ModeOff else me_mode s)\<rparr>"
  unfolding targetsAvailable_eq by (auto simp: filter_empty_conv)

lemma setTargets_set:
  "distinct (me_targets s) \<Longrightarrow>
    set (me_targets (multiExecReducer s (MultiExecSetTargets u))) = set (apply_targets_update u (me_targets s))"
  by (auto simp: Let_def dest: setsEqual_set)

section \<open>Receivers of live input\<close>

lemma sshTarget_SomeD:
  "t \<in> set (sshTarget tab) \<Longrightarrow>
    mt_key t = ''ssh:'' @ mst_id tab \<and> mst_sessionId tab = Some (mt_sessionId t) \<and>
    mt_sessionId t \<noteq> [] \<and> mst_type tab = TabTerminal"
  by (auto simp: sshTarget_def truthy_def split: option.splits if_splits)

lemma characterTarget_SomeD:
  "t \<in> set (characterTarget tab) \<Longrightarrow>
    mt_key t = ''local:'' @ mct_id tab \<and> mct_sessionId tab = Some (mt_sessionId t) \<and> mt_sessionId t \<noteq> []"
  by (auto simp: characterTarget_def truthy_def split: option.splits if_splits)

lemma distinct_concat_keys:
  assumes "distinct (map ident tabs)" and "inj k"
    and "\<And>tab. tab \<in> set tabs \<Longrightarrow> map key (f tab) = [] \<or> map key (f tab) = [k (ident tab)]"
  shows "distinct (map key (concat (map f tabs))) \<and>
    set (map key (concat (map f tabs))) \<subseteq> k ` ident ` set tabs"
  using assms(1,3)
proof (induction tabs)
  case (Cons tab tabs)
  then have IH: "distinct (map key (concat (map f tabs)))"
      "set (map key (concat (map f tabs))) \<subseteq> k ` ident ` set tabs"
    by auto
  have "k (ident tab) \<notin> k ` ident ` set tabs"
    using Cons.prems(1) assms(2) by (auto dest: injD)
  moreover have "map key (f tab) = [] \<or> map key (f tab) = [k (ident tab)]"
    using Cons.prems(2) by simp
  ultimately show ?case
    using IH by auto blast
qed simp

lemma buildMultiExecTargets_keys_distinct:
  assumes "distinct (map mct_id localTabs)" and "distinct (map mst_id sshTabs)"
  shows "distinct (map mt_key (buildMultiExecTargets localTabs sshTabs))"
proof -
  have "distinct (map mt_key (concat (map sshTarget sshTabs))) \<and>
      set (map mt_key (concat (map sshTarget sshTabs))) \<subseteq> (\<lambda>i. ''ssh:'' @ i) ` mst_id ` set sshTabs"
    by (rule distinct_concat_keys [OF assms(2)])
      (auto simp: inj_def sshTarget_def split: option.splits)
  moreover have "distinct (map mt_key (concat (map characterTarget localTabs))) \<and>
      set (map mt_key (concat (map characterTarget localTabs))) \<subseteq> (\<lambda>i. ''local:'' @ i) ` mct_id ` set localTabs"
    by (rule distinct_concat_keys [OF assms(1)])
      (auto simp: inj_def characterTarget_def split: option.splits)
  ultimately show ?thesis
    by (fastforce simp: buildMultiExecTargets_def)
qed

fun live_delivery_of :: "string \<Rightarrow> 'e option \<Rightarrow> 'e MultiExecLiveDelivery" where
  "live_delivery_of key None = \<lparr>live_error = None, live_key = key, live_status = DeliveryWritten\<rparr>"
| "live_delivery_of key (Some reason) =
     \<lparr>live_error = Some (LiveReason reason), live_key = key, live_status = DeliveryFailed\<rparr>"

lemma live_key_of [simp]: "live_key (live_delivery_of key r) = key"
  by (cases r) auto

lemma live_input_eq:
  "writeMultiExecLiveInput data selected source targets write =
     (let ts = filter (\<lambda>t. mt_key t \<in> set selected \<and> mt_key t \<noteq> source) targets in
      (map (\<lambda>t. (mt_sessionId t, data)) ts,
       map (\<lambda>(i, t). live_delivery_of (mt_key t) (write i (mt_sessionId t) data)) (enumerate 0 ts)))"
proof -
  have deliver: "(case nth_opt (map (\<lambda>(i, session, d). write i session d)
        (enumerate 0 (map (\<lambda>t. (mt_sessionId t, data)) ts))) i of
      Some None \<Rightarrow> \<lparr>live_error = None, live_key = mt_key t, live_status = DeliveryWritten\<rparr>
    | Some (Some reason) \<Rightarrow> \<lparr>live_error = Some (LiveReason reason), live_key = mt_key t,
        live_status = DeliveryFailed\<rparr>
    | None \<Rightarrow> \<lparr>live_error = Some MissingLiveDeliveryResult, live_key = mt_key t,
        live_status = DeliveryFailed\<rparr>) = live_delivery_of (mt_key t) (write i (mt_sessionId t) data)"
    if "(i, t) \<in> set (enumerate 0 ts)" for i t ts
    using that
    by (auto simp: nth_opt_def in_set_enumerate_eq nth_enumerate_eq split: option.splits)
  show ?thesis
    by (auto simp: writeMultiExecLiveInput_def selectLiveFanoutTargets_def
        selectExplicitMultiExecTargets_def Let_def conj_commute intro!: deliver)
qed

lemma enumerate_map_snd: "map (\<lambda>x. f (snd x)) (enumerate k xs) = map f xs"
  by (induction xs arbitrary: k) auto

text \<open>
  Live input typed in one terminal is written exactly once to every other connected
  terminal among the chosen receivers and never back to its source: the written sessions are
  those of the connected, chosen, non-source tabs, no receiver appears twice, and each
  delivery reports the settlement of its own write.
\<close>

theorem multiExec_live_fanout:
  assumes "distinct (map mct_id localTabs)" and "distinct (map mst_id sshTabs)"
    and "targets = buildMultiExecTargets localTabs sshTabs"
    and "writeMultiExecLiveInput data selected source targets write = (calls, deliveries)"
  shows "calls = map (\<lambda>t. (mt_sessionId t, data))
      (filter (\<lambda>t. mt_key t \<in> set selected \<and> mt_key t \<noteq> source) targets) \<and>
    distinct (map live_key deliveries) \<and>
    set (map live_key deliveries) = (set (multiExecAvailableKeys targets) \<inter> set selected) - {source} \<and>
    deliveries = map (\<lambda>(i, t). live_delivery_of (mt_key t) (write i (mt_sessionId t) data))
      (enumerate 0 (filter (\<lambda>t. mt_key t \<in> set selected \<and> mt_key t \<noteq> source) targets))"
proof -
  let ?ts = "filter (\<lambda>t. mt_key t \<in> set selected \<and> mt_key t \<noteq> source) targets"
  have ds: "deliveries = map (\<lambda>(i, t). live_delivery_of (mt_key t) (write i (mt_sessionId t) data)) (enumerate 0 ?ts)"
    and calls: "calls = map (\<lambda>t. (mt_sessionId t, data)) ?ts"
    using assms(4) by (simp_all add: live_input_eq Let_def)
  have keys: "map live_key deliveries = map mt_key ?ts"
    unfolding ds by (simp add: comp_def split_beta enumerate_map_snd)
  moreover have "distinct (map mt_key ?ts)"
    using buildMultiExecTargets_keys_distinct [OF assms(1,2)] assms(3)
    by (simp add: distinct_map_filter)
  ultimately show ?thesis
    using ds calls by (auto simp: multiExecAvailableKeys_def)
qed

theorem multiExec_live_fanout_witness:
  "set (map live_key (snd (writeMultiExecLiveInput ''ls'' [''ssh:a'', ''ssh:b'', ''local:z''] ''ssh:a''
      (buildMultiExecTargets []
        [\<lparr>mst_connectionId = ''c'', mst_id = ''a'', mst_sessionId = Some ''s1'', mst_title = ''A'', mst_type = TabTerminal\<rparr>,
         \<lparr>mst_connectionId = ''c'', mst_id = ''b'', mst_sessionId = Some ''s2'', mst_title = ''B'', mst_type = TabTerminal\<rparr>])
      (\<lambda>i session d. (None :: string option))))) = {''ssh:b''}"
proof -
  let ?tabs = "[\<lparr>mst_connectionId = ''c'', mst_id = ''a'', mst_sessionId = Some ''s1'', mst_title = ''A'', mst_type = TabTerminal\<rparr>,
    \<lparr>mst_connectionId = ''c'', mst_id = ''b'', mst_sessionId = Some ''s2'', mst_title = ''B'', mst_type = TabTerminal\<rparr>]"
  let ?run = "writeMultiExecLiveInput ''ls'' [''ssh:a'', ''ssh:b'', ''local:z''] ''ssh:a''
    (buildMultiExecTargets [] ?tabs) (\<lambda>i session d. (None :: string option))"
  have "set (map live_key (snd ?run)) =
      (set (multiExecAvailableKeys (buildMultiExecTargets [] ?tabs)) \<inter> set [''ssh:a'', ''ssh:b'', ''local:z'']) - {''ssh:a''}"
    by (rule multiExec_live_fanout [OF _ _ refl prod.collapse [symmetric],
          THEN conjunct2, THEN conjunct2, THEN conjunct1]) simp_all
  then show ?thesis
    by (simp add: buildMultiExecTargets_def sshTarget_def multiExecAvailableKeys_def)
qed

section \<open>Command send\<close>

lemma send_deliveries:
  "map send_key (snd (writeMultiExecCommand_from i data keys resolve write)) = keys \<and>
   (\<forall>j < length keys.
     let d = snd (writeMultiExecCommand_from i data keys resolve write) ! j in
     case resolve (i + j) (keys ! j) of
       None \<Rightarrow> send_status d = DeliveryDisconnected \<and> send_error d = None
     | Some t \<Rightarrow> send_error d = write (i + j) (mt_sessionId t) data \<and>
         (send_status d = DeliveryWritten \<longleftrightarrow> write (i + j) (mt_sessionId t) data = None) \<and>
         (send_status d = DeliveryFailed \<longleftrightarrow> write (i + j) (mt_sessionId t) data \<noteq> None))"
proof (induction keys arbitrary: i)
  case (Cons key keys)
  have IH: "map send_key (snd (writeMultiExecCommand_from (Suc i) data keys resolve write)) = keys"
    using Cons.IH [of "Suc i"] by simp
  have "let d = snd (writeMultiExecCommand_from i data (key # keys) resolve write) ! j in
     case resolve (i + j) ((key # keys) ! j) of
       None \<Rightarrow> send_status d = DeliveryDisconnected \<and> send_error d = None
     | Some t \<Rightarrow> send_error d = write (i + j) (mt_sessionId t) data \<and>
         (send_status d = DeliveryWritten \<longleftrightarrow> write (i + j) (mt_sessionId t) data = None) \<and>
         (send_status d = DeliveryFailed \<longleftrightarrow> write (i + j) (mt_sessionId t) data \<noteq> None)"
    if "j < length (key # keys)" for j
  proof (cases j)
    case 0
    then show ?thesis
      by (simp add: split_beta Let_def split: option.splits)
  next
    case (Suc k)
    with that have "k < length keys"
      by simp
    then show ?thesis
      using Cons.IH [of "Suc i"] Suc by (auto simp add: split_beta Let_def split: option.splits)
  qed
  with IH show ?case
    by (auto simp: split_beta Let_def split: option.splits)
qed simp

text \<open>
  A sent command yields one delivery per chosen key in the order of the keys; a key whose
  terminal is gone when its turn comes is reported disconnected without a write, and a failed
  write marks its own key failed and stops no later one.
\<close>

theorem multiExec_command_send:
  "map send_key (snd (writeMultiExecCommand data keys resolve write)) = keys \<and>
   (\<forall>j < length keys.
     let d = snd (writeMultiExecCommand data keys resolve write) ! j in
     case resolve j (keys ! j) of
       None \<Rightarrow> send_status d = DeliveryDisconnected \<and> send_error d = None
     | Some t \<Rightarrow> send_error d = write j (mt_sessionId t) data \<and>
         (send_status d = DeliveryWritten \<longleftrightarrow> write j (mt_sessionId t) data = None) \<and>
         (send_status d = DeliveryFailed \<longleftrightarrow> write j (mt_sessionId t) data \<noteq> None))"
  unfolding writeMultiExecCommand_def
  by (rule send_deliveries [of 0 "data" keys resolve "write", unfolded add_0])

theorem multiExec_command_send_witness:
  "map send_status (snd (writeMultiExecCommand ''ls'' [''k1'', ''k2'', ''k3'']
     (\<lambda>i key. if key = ''k1'' then None else Some
        \<lparr>mt_binding = SshBinding key, mt_key = key, mt_kind = TargetSsh, mt_ownerId = ''o'',
         mt_sessionId = key, mt_tabId = key, mt_title = key\<rparr>)
     (\<lambda>i session d. if session = ''k2'' then Some ''broken'' else None))) =
   [DeliveryDisconnected, DeliveryFailed, DeliveryWritten] \<and>
   map send_key (snd (writeMultiExecCommand ''ls'' [''k1'', ''k2''] (\<lambda>i key. None) (\<lambda>i session d. (None :: string option))))
     = [''k1'', ''k2'']"
  using multiExec_command_send [of "''ls''" "[''k1'', ''k2'']" "\<lambda>i key. None" "\<lambda>i session d. (None :: string option)"]
  by (simp add: writeMultiExecCommand_def)

end
