(* ===== verification/Close_Decision.thy ===== *)
theory Close_Decision
  imports Prelude
begin

text \<open>
  What becomes active when sessions are closed
  (\<open>features/workspace/sessionTabs/closeDecision.ts\<close>), with the pointer state it reads
  (\<open>SessionPointerState\<close> of \<open>reducer.ts\<close>, \<open>types.ts\<close>). A decision is a patch of
  the pointers, changes of the per-connection memory, and a follow-up activation that the shell
  performs after the reducer has run. The two memory tables are partial maps.
\<close>

section \<open>State\<close>

datatype WorkspaceMode = ModeHome | ModeSsh | ModeLocal | ModeRdp | ModeVnc

datatype WorkbenchTabKind = WorkbenchTerminal | WorkbenchFile

record UnifiedWorkbenchTab =
  unified_id :: string
  unified_kind :: WorkbenchTabKind

record SessionRef =
  ref_connectionId :: string
  ref_id :: string

record CloseSnapshot =
  snap_localTerminalTabs :: "string list"
  snap_rdpSessions :: "SessionRef list"
  snap_remoteFileTabs :: "SessionRef list"
  snap_terminalTabs :: "SessionRef list"
  snap_vncSessions :: "SessionRef list"

datatype FollowUp =
    FollowLocal string
  | FollowRdp string string
  | FollowTerminal string string
  | FollowVnc string string

datatype active_view = ViewWorkspace | ViewSettings

record SessionPointerState =
  activeConnectionId :: "string option"
  activeLocalTerminalTabId :: "string option"
  activeRdpSessionId :: "string option"
  activeRemoteFileTabId :: "string option"
  activeTabByConnectionId :: "string \<rightharpoonup> string"
  activeTabId :: "string option"
  activeUnifiedTabByConnectionId :: "string \<rightharpoonup> UnifiedWorkbenchTab"
  activeView :: active_view
  activeVncSessionId :: "string option"
  followUp :: "FollowUp option"
  homeActive :: bool
  session_mode :: WorkspaceMode
  session_order :: "string list"

text \<open>A patch: \<open>None\<close> for a key the object does not have.\<close>

record PointerPatch =
  patch_activeConnectionId :: "string option option"
  patch_activeLocalTerminalTabId :: "string option option"
  patch_activeRdpSessionId :: "string option option"
  patch_activeRemoteFileTabId :: "string option option"
  patch_activeTabId :: "string option option"
  patch_activeVncSessionId :: "string option option"
  patch_homeActive :: "bool option"
  patch_mode :: "WorkspaceMode option"

record CloseDecision =
  decision_followUp :: "FollowUp option"
  decision_forget :: "string list option"
  decision_patch :: PointerPatch
  decision_remember :: "(string \<times> string) option"

definition emptyPatch :: PointerPatch where
  [close_defs]: "emptyPatch =
     \<lparr>patch_activeConnectionId = None, patch_activeLocalTerminalTabId = None,
      patch_activeRdpSessionId = None, patch_activeRemoteFileTabId = None,
      patch_activeTabId = None, patch_activeVncSessionId = None,
      patch_homeActive = None, patch_mode = None\<rparr>"

definition HOME_PATCH :: PointerPatch where
  [close_defs]: "HOME_PATCH = emptyPatch
     \<lparr>patch_activeConnectionId := Some None, patch_activeTabId := Some None,
      patch_homeActive := Some True, patch_mode := Some ModeHome\<rparr>"

definition RETURN_HOME_PATCH :: PointerPatch where
  [close_defs]: "RETURN_HOME_PATCH = HOME_PATCH
     \<lparr>patch_activeLocalTerminalTabId := Some None, patch_activeRdpSessionId := Some None,
      patch_activeVncSessionId := Some None\<rparr>"

definition workspaceEmpty :: "CloseSnapshot \<Rightarrow> bool" where
  "workspaceEmpty s \<longleftrightarrow> snap_terminalTabs s = [] \<and> snap_remoteFileTabs s = [] \<and>
     snap_localTerminalTabs s = [] \<and> snap_rdpSessions s = [] \<and> snap_vncSessions s = []"

definition rdpFollowUp :: "SessionRef option \<Rightarrow> FollowUp option" where
  [close_defs]: "rdpFollowUp = map_option (\<lambda>s. FollowRdp (ref_connectionId s) (ref_id s))"

definition vncFollowUp :: "SessionRef option \<Rightarrow> FollowUp option" where
  [close_defs]: "vncFollowUp = map_option (\<lambda>s. FollowVnc (ref_connectionId s) (ref_id s))"

definition terminalFollowUp :: "SessionRef option \<Rightarrow> FollowUp option" where
  [close_defs]: "terminalFollowUp = map_option (\<lambda>s. FollowTerminal (ref_connectionId s) (ref_id s))"

definition localFollowUp :: "string option \<Rightarrow> FollowUp option" where
  [close_defs]: "localFollowUp = map_option FollowLocal"

definition fallbackRdpVncLocal :: "CloseSnapshot \<Rightarrow> FollowUp option" where
  [close_defs]: "fallbackRdpVncLocal s =
     coalesce (rdpFollowUp (first_of (snap_rdpSessions s)))
       (coalesce (vncFollowUp (first_of (snap_vncSessions s)))
         (localFollowUp (first_of (snap_localTerminalTabs s))))"

section \<open>Decisions\<close>

text \<open>The session of a connection, or else the first one.\<close>

definition prefer_connection :: "string \<Rightarrow> SessionRef list \<Rightarrow> SessionRef option" where
  [close_defs]: "prefer_connection c refs =
     coalesce (find (\<lambda>tab. ref_connectionId tab = c) refs) (first_of refs)"

definition decideTerminalClose ::
  "SessionPointerState \<Rightarrow> SessionRef list \<Rightarrow> CloseSnapshot \<Rightarrow> CloseDecision" where
  "decideTerminalClose pointers closingTabs snapshot =
     (let nextTabs = snap_terminalTabs snapshot;
          files = snap_remoteFileTabs snapshot;
          activeClosingTab = (case truthy (activeTabId pointers) of
              None \<Rightarrow> None | Some i \<Rightarrow> find (\<lambda>tab. ref_id tab = i) closingTabs);
          closingActiveConnectionTab = coalesce activeClosingTab
            (case truthy (activeConnectionId pointers) of
               None \<Rightarrow> None | Some c \<Rightarrow> find (\<lambda>tab. ref_connectionId tab = c) closingTabs);
          patch = (if workspaceEmpty snapshot then HOME_PATCH else emptyPatch)
      in case activeClosingTab of
           Some closedTab \<Rightarrow>
             (let nextActiveTab = prefer_connection (ref_connectionId closedTab) nextTabs;
                  nextActiveFile = prefer_connection (ref_connectionId closedTab) files;
                  patch = patch\<lparr>patch_activeTabId := Some (map_option ref_id nextActiveTab),
                    patch_activeConnectionId := Some (coalesce (map_option ref_connectionId nextActiveTab)
                      (map_option ref_connectionId nextActiveFile))\<rparr>;
                  patch = (case nextActiveFile of
                      Some file \<Rightarrow> if nextActiveTab = None
                        then patch\<lparr>patch_activeRemoteFileTabId := Some (Some (ref_id file))\<rparr> else patch
                    | None \<Rightarrow> patch)
              in case nextActiveTab of
                   Some tab \<Rightarrow>
                     \<lparr>decision_followUp = None, decision_forget = None, decision_patch = patch,
                      decision_remember = Some (ref_connectionId tab, ref_id tab)\<rparr>
                 | None \<Rightarrow>
                     \<lparr>decision_followUp = (if nextActiveFile = None then fallbackRdpVncLocal snapshot else None),
                      decision_forget = Some [ref_connectionId closedTab], decision_patch = patch,
                      decision_remember = None\<rparr>)
         | None \<Rightarrow>
             (case closingActiveConnectionTab of
                Some closedTab \<Rightarrow>
                  if activeConnectionId pointers = Some (ref_connectionId closedTab) \<and>
                     \<not> (\<exists>tab \<in> set nextTabs. ref_connectionId tab = ref_connectionId closedTab)
                  then
                    (let nextActiveFile = prefer_connection (ref_connectionId closedTab) files;
                         patch = patch\<lparr>patch_activeConnectionId :=
                           Some (coalesce (map_option ref_connectionId (first_of nextTabs))
                             (map_option ref_connectionId nextActiveFile))\<rparr>
                     in \<lparr>decision_followUp =
                           (if nextTabs = [] \<and> nextActiveFile = None then fallbackRdpVncLocal snapshot else None),
                         decision_forget = Some [ref_connectionId closedTab], decision_patch = patch,
                         decision_remember = None\<rparr>)
                  else \<lparr>decision_followUp = None, decision_forget = None, decision_patch = patch,
                         decision_remember = None\<rparr>
              | None \<Rightarrow> \<lparr>decision_followUp = None, decision_forget = None, decision_patch = patch,
                         decision_remember = None\<rparr>))"

datatype close_variant = VariantDelete | VariantSessions

definition not_closing :: "string list \<Rightarrow> SessionRef \<Rightarrow> bool" where
  [close_defs]: "not_closing closing r \<longleftrightarrow> ref_connectionId r \<notin> set closing"

definition decideConnectionClose ::
  "SessionPointerState \<Rightarrow> string list \<Rightarrow> CloseSnapshot \<Rightarrow> close_variant \<Rightarrow> CloseDecision" where
  "decideConnectionClose pointers closing snapshot variant =
     (let nextTabs = filter (not_closing closing) (snap_terminalTabs snapshot);
          files = snap_remoteFileTabs snapshot;
          rdp = filter (not_closing closing) (snap_rdpSessions snapshot);
          vnc = filter (not_closing closing) (snap_vncSessions snapshot);
          local_tabs = snap_localTerminalTabs snapshot;
          patch = (if nextTabs = [] \<and> files = [] \<and> local_tabs = [] \<and> rdp = [] \<and> vnc = []
                   then HOME_PATCH else emptyPatch)
      in if (case truthy (activeConnectionId pointers) of None \<Rightarrow> False | Some c \<Rightarrow> c \<in> set closing) then
           (let nextActiveTab = first_of nextTabs;
                nextActiveFile = (case variant of
                    VariantSessions \<Rightarrow> coalesce (find (not_closing closing) files) (first_of files)
                  | VariantDelete \<Rightarrow> first_of files);
                patch = patch\<lparr>patch_activeTabId := Some (map_option ref_id nextActiveTab),
                  patch_activeConnectionId := Some (coalesce (map_option ref_connectionId nextActiveTab)
                    (map_option ref_connectionId nextActiveFile))\<rparr>
            in case nextActiveFile of
                 Some file \<Rightarrow>
                   if variant = VariantSessions \<or> nextActiveTab = None then
                     \<lparr>decision_followUp = None, decision_forget = None,
                      decision_patch = patch\<lparr>patch_activeRemoteFileTabId := Some (Some (ref_id file))\<rparr>,
                      decision_remember = None\<rparr>
                   else \<lparr>decision_followUp = None, decision_forget = None, decision_patch = patch,
                          decision_remember = None\<rparr>
               | None \<Rightarrow>
                   \<lparr>decision_followUp = (if nextActiveTab = None
                       then coalesce (rdpFollowUp (first_of rdp))
                         (coalesce (vncFollowUp (first_of vnc)) (localFollowUp (first_of local_tabs)))
                       else None),
                    decision_forget = None, decision_patch = patch, decision_remember = None\<rparr>)
         else if variant = VariantDelete \<and>
             \<not> (\<exists>tab \<in> set nextTabs. Some (ref_id tab) = activeTabId pointers) then
           \<lparr>decision_followUp = None, decision_forget = None,
            decision_patch = patch\<lparr>patch_activeTabId := Some (map_option ref_id (first_of nextTabs))\<rparr>,
            decision_remember = None\<rparr>
         else \<lparr>decision_followUp = None, decision_forget = None, decision_patch = patch,
                decision_remember = None\<rparr>)"

definition decideLocalClose ::
  "SessionPointerState \<Rightarrow> string list \<Rightarrow> CloseSnapshot \<Rightarrow> CloseDecision" where
  "decideLocalClose pointers closing snapshot =
     (if (case truthy (activeLocalTerminalTabId pointers) of None \<Rightarrow> True | Some i \<Rightarrow> i \<notin> set closing) then
        \<lparr>decision_followUp = None, decision_forget = None, decision_patch = emptyPatch,
         decision_remember = None\<rparr>
      else
        (let nextActive = first_of (snap_localTerminalTabs snapshot);
             patch = emptyPatch\<lparr>patch_activeLocalTerminalTabId := Some nextActive\<rparr>;
             (patch, followUp) =
               (if nextActive \<noteq> None then (patch, None)
                else if workspaceEmpty snapshot then
                  (patch\<lparr>patch_homeActive := Some True, patch_mode := Some ModeHome\<rparr>, None)
                else if snap_terminalTabs snapshot \<noteq> [] then (patch\<lparr>patch_mode := Some ModeSsh\<rparr>, None)
                else if snap_rdpSessions snapshot \<noteq> [] then
                  (patch, rdpFollowUp (first_of (snap_rdpSessions snapshot)))
                else if snap_vncSessions snapshot \<noteq> [] then
                  (patch, vncFollowUp (first_of (snap_vncSessions snapshot)))
                else (patch, None))
         in \<lparr>decision_followUp = followUp, decision_forget = None, decision_patch = patch,
             decision_remember = None\<rparr>))"

datatype RemoteKind = KindRdp | KindVnc

fun remote_mode :: "RemoteKind \<Rightarrow> WorkspaceMode" where
  "remote_mode KindRdp = ModeRdp"
| "remote_mode KindVnc = ModeVnc"

fun remote_active :: "RemoteKind \<Rightarrow> SessionPointerState \<Rightarrow> string option" where
  "remote_active KindRdp p = activeRdpSessionId p"
| "remote_active KindVnc p = activeVncSessionId p"

fun remote_sessions :: "RemoteKind \<Rightarrow> CloseSnapshot \<Rightarrow> SessionRef list" where
  "remote_sessions KindRdp s = snap_rdpSessions s"
| "remote_sessions KindVnc s = snap_vncSessions s"

fun patch_remote :: "RemoteKind \<Rightarrow> string option \<Rightarrow> PointerPatch \<Rightarrow> PointerPatch" where
  "patch_remote KindRdp v p = p\<lparr>patch_activeRdpSessionId := Some v\<rparr>"
| "patch_remote KindVnc v p = p\<lparr>patch_activeVncSessionId := Some v\<rparr>"

definition decideRemoteDesktopRemove ::
  "RemoteKind \<Rightarrow> SessionPointerState \<Rightarrow> string list \<Rightarrow> CloseSnapshot \<Rightarrow> CloseDecision" where
  "decideRemoteDesktopRemove kind pointers closing snapshot =
     (let activeClosed = (case truthy (remote_active kind pointers) of
            None \<Rightarrow> session_mode pointers = remote_mode kind | Some i \<Rightarrow> i \<in> set closing)
      in if \<not> activeClosed then
           \<lparr>decision_followUp = None, decision_forget = None, decision_patch = emptyPatch,
            decision_remember = None\<rparr>
         else
           (let nextSessions = remote_sessions kind snapshot;
                sameConnection = (case truthy (activeConnectionId pointers) of
                    None \<Rightarrow> None | Some c \<Rightarrow> find (\<lambda>s. ref_connectionId s = c) nextSessions)
            in case coalesce sameConnection (first_of nextSessions) of
                 Some s \<Rightarrow>
                   \<lparr>decision_followUp = None, decision_forget = None,
                    decision_patch = (patch_remote kind (Some (ref_id s)) emptyPatch)
                      \<lparr>patch_activeConnectionId := Some (Some (ref_connectionId s)),
                       patch_homeActive := Some False, patch_mode := Some (remote_mode kind)\<rparr>,
                    decision_remember = None\<rparr>
               | None \<Rightarrow>
                   (let other = (case kind of
                          KindRdp \<Rightarrow> vncFollowUp (first_of (snap_vncSessions snapshot))
                        | KindVnc \<Rightarrow> rdpFollowUp (first_of (snap_rdpSessions snapshot)));
                        follow = coalesce other
                          (coalesce (terminalFollowUp (first_of (snap_terminalTabs snapshot)))
                            (localFollowUp (first_of (snap_localTerminalTabs snapshot))))
                    in if follow \<noteq> None then
                         \<lparr>decision_followUp = follow, decision_forget = None,
                          decision_patch = patch_remote kind None emptyPatch, decision_remember = None\<rparr>
                       else
                         \<lparr>decision_followUp = None, decision_forget = None,
                          decision_patch = patch_remote kind None RETURN_HOME_PATCH,
                          decision_remember = None\<rparr>)))"

definition decideRdpRemove ::
  "SessionPointerState \<Rightarrow> string list \<Rightarrow> CloseSnapshot \<Rightarrow> CloseDecision" where
  "decideRdpRemove = decideRemoteDesktopRemove KindRdp"

definition decideVncRemove ::
  "SessionPointerState \<Rightarrow> string list \<Rightarrow> CloseSnapshot \<Rightarrow> CloseDecision" where
  "decideVncRemove = decideRemoteDesktopRemove KindVnc"

section \<open>A follow-up names an open session\<close>

fun follow_open :: "CloseSnapshot \<Rightarrow> FollowUp \<Rightarrow> bool" where
  "follow_open s (FollowLocal t) \<longleftrightarrow> t \<in> set (snap_localTerminalTabs s)"
| "follow_open s (FollowRdp c i) \<longleftrightarrow> \<lparr>ref_connectionId = c, ref_id = i\<rparr> \<in> set (snap_rdpSessions s)"
| "follow_open s (FollowTerminal c i) \<longleftrightarrow> \<lparr>ref_connectionId = c, ref_id = i\<rparr> \<in> set (snap_terminalTabs s)"
| "follow_open s (FollowVnc c i) \<longleftrightarrow> \<lparr>ref_connectionId = c, ref_id = i\<rparr> \<in> set (snap_vncSessions s)"

fun follow_connection :: "FollowUp \<Rightarrow> string option" where
  "follow_connection (FollowLocal t) = None"
| "follow_connection (FollowRdp c i) = Some c"
| "follow_connection (FollowTerminal c i) = Some c"
| "follow_connection (FollowVnc c i) = Some c"

lemma session_ref_eta [simp]: "\<lparr>ref_connectionId = ref_connectionId r, ref_id = ref_id r\<rparr> = (r :: SessionRef)"
  by simp

lemma follow_first:
  "rdpFollowUp (first_of xs) = Some f \<Longrightarrow> \<exists>r \<in> set xs. f = FollowRdp (ref_connectionId r) (ref_id r)"
  "vncFollowUp (first_of xs) = Some f \<Longrightarrow> \<exists>r \<in> set xs. f = FollowVnc (ref_connectionId r) (ref_id r)"
  "terminalFollowUp (first_of xs) = Some f \<Longrightarrow> \<exists>r \<in> set xs. f = FollowTerminal (ref_connectionId r) (ref_id r)"
  "localFollowUp (first_of ts) = Some f \<Longrightarrow> \<exists>t \<in> set ts. f = FollowLocal t"
  by (cases xs; cases ts; auto simp: rdpFollowUp_def vncFollowUp_def terminalFollowUp_def localFollowUp_def)+

lemma fallback_open: "fallbackRdpVncLocal s = Some f \<Longrightarrow> follow_open s f"
  by (auto simp: fallbackRdpVncLocal_def coalesce_eq_Some dest!: follow_first)

lemma terminal_follow_open:
  "decision_followUp (decideTerminalClose p closing s) = Some f \<Longrightarrow> follow_open s f"
  by (auto simp: decideTerminalClose_def Let_def intro: fallback_open split: option.splits if_splits)

lemma connection_follow_open:
  "decision_followUp (decideConnectionClose p closing s v) = Some f \<Longrightarrow>
    follow_open s f \<and> (\<forall>c. follow_connection f = Some c \<longrightarrow> c \<notin> set closing)"
  by (auto simp: decideConnectionClose_def Let_def coalesce_eq_Some not_closing_def
      split: option.splits if_splits close_variant.splits dest!: follow_first)

lemma local_follow_open: "decision_followUp (decideLocalClose p closing s) = Some f \<Longrightarrow> follow_open s f"
  by (auto simp: decideLocalClose_def Let_def split: option.splits if_splits dest!: follow_first)

lemma remote_follow_open:
  "decision_followUp (decideRemoteDesktopRemove k p closing s) = Some f \<Longrightarrow> follow_open s f"
  by (cases k) (auto simp: decideRemoteDesktopRemove_def Let_def coalesce_eq_Some
      split: option.splits if_splits dest!: follow_first)

end
