(* ===== verification/Instances.thy ===== *)
theory Instances
  imports Split_Reducer Multi_Exec Close_Decision
begin

text \<open>
  The projection of the four session collections to the items of the title bar
  (\<open>features/workspace/sessionTabs/instances.ts\<close>): item identities, instance numbers,
  the ordered list of items with the members of the split folded into one group, titles, and
  the active item.
\<close>

section \<open>Items\<close>

definition HOME_ITEM_ID :: string where "HOME_ITEM_ID = ''home''"
definition SPLIT_ITEM_ID :: string where "SPLIT_ITEM_ID = ''split''"

datatype InstanceKind = InstLocal | InstRdp | InstSsh | InstVnc

fun instance_kind_name :: "InstanceKind \<Rightarrow> string" where
  "instance_kind_name InstLocal = ''local''"
| "instance_kind_name InstRdp = ''rdp''"
| "instance_kind_name InstSsh = ''ssh''"
| "instance_kind_name InstVnc = ''vnc''"

datatype InstanceItem =
    SshItem (inst_id: string) (ssh_connectionId: string) (ssh_ordinal: int) (ssh_tabId: string)
  | LocalItem (inst_id: string) (local_ordinal: int) (local_profileId: string)
      (local_source: terminal_source) (local_tabId: string)
  | RdpItem (inst_id: string) (rdp_connectionId: string) (rdp_sessionId: string)
  | VncItem (inst_id: string) (vnc_connectionId: string) (vnc_sessionId: string)

record SplitGroupItem =
  group_host :: InstanceItem
  group_memberIds :: "string list"

datatype WorkspaceItem = HomeItem | ItemInstance InstanceItem | ItemSplit SplitGroupItem

fun workspace_item_id :: "WorkspaceItem \<Rightarrow> string" where
  "workspace_item_id HomeItem = HOME_ITEM_ID"
| "workspace_item_id (ItemInstance i) = inst_id i"
| "workspace_item_id (ItemSplit g) = SPLIT_ITEM_ID"

record InstanceTerminalTab =
  itt_connectionId :: string
  itt_id :: string
  itt_ordinal :: int

record InstanceLocalTab =
  ilt_id :: string
  ilt_ordinal :: int
  ilt_profileId :: string
  ilt_source :: "terminal_source option"

record InstanceCollections =
  coll_localTerminalTabs :: "InstanceLocalTab list"
  coll_rdpSessions :: "SessionRef list"
  coll_terminalTabs :: "InstanceTerminalTab list"
  coll_vncSessions :: "SessionRef list"

record SplitGroupInput =
  sgi_bindings :: "TerminalPaneBinding list"
  sgi_host :: TerminalPaneBinding

definition instanceItemId :: "InstanceKind \<Rightarrow> string \<Rightarrow> string" where
  "instanceItemId kind rawId = instance_kind_name kind @ '':'' @ rawId"

fun binding_instance_kind :: "TerminalPaneBinding \<Rightarrow> InstanceKind" where
  "binding_instance_kind (SshBinding t) = InstSsh"
| "binding_instance_kind (LocalBinding t) = InstLocal"

definition binding_item_id :: "TerminalPaneBinding \<Rightarrow> string" where
  "binding_item_id b = instanceItemId (binding_instance_kind b) (binding_tabId b)"

definition nextOrdinal :: "int list \<Rightarrow> int" where
  "nextOrdinal ordinals = foldl max (- 1) ordinals + 1"

definition displayOrdinal :: "int \<Rightarrow> int option" where
  "displayOrdinal ordinal = (if ordinal = 0 then None else Some (ordinal + 1))"

definition collectionIds ::
  "string list \<Rightarrow> string list \<Rightarrow> string list \<Rightarrow> string list \<Rightarrow> string list" where
  "collectionIds ssh locals rdp vnc =
     map (instanceItemId InstSsh) ssh @ map (instanceItemId InstLocal) locals @
     map (instanceItemId InstRdp) rdp @ map (instanceItemId InstVnc) vnc"

definition unregisteredInstanceIds :: "InstanceCollections \<Rightarrow> string list \<Rightarrow> string list" where
  "unregisteredInstanceIds c order =
     filter (\<lambda>i. i \<notin> set order)
       (collectionIds (map itt_id (coll_terminalTabs c)) (map ilt_id (coll_localTerminalTabs c))
         (map ref_id (coll_rdpSessions c)) (map ref_id (coll_vncSessions c)))"

text \<open>The entries put into the \<open>Map\<close>, in the order of the four loops.\<close>

definition instance_entries :: "InstanceCollections \<Rightarrow> (string \<times> InstanceItem) list" where
  "instance_entries c =
     map (\<lambda>tab. let i = instanceItemId InstSsh (itt_id tab)
        in (i, SshItem i (itt_connectionId tab) (itt_ordinal tab) (itt_id tab))) (coll_terminalTabs c) @
     map (\<lambda>tab. let i = instanceItemId InstLocal (ilt_id tab)
        in (i, LocalItem i (ilt_ordinal tab) (ilt_profileId tab)
              (case ilt_source tab of None \<Rightarrow> SourceLocal | Some s \<Rightarrow> s) (ilt_id tab))) (coll_localTerminalTabs c) @
     map (\<lambda>s. let i = instanceItemId InstRdp (ref_id s)
        in (i, RdpItem i (ref_connectionId s) (ref_id s))) (coll_rdpSessions c) @
     map (\<lambda>s. let i = instanceItemId InstVnc (ref_id s)
        in (i, VncItem i (ref_connectionId s) (ref_id s))) (coll_vncSessions c)"

definition collectInstances :: "InstanceCollections \<Rightarrow> (string \<times> InstanceItem) list" where
  "collectInstances c = map_from (instance_entries c)"

fun is_terminal_item :: "InstanceItem \<Rightarrow> bool" where
  "is_terminal_item (SshItem i c n t) = True"
| "is_terminal_item (LocalItem i n p s t) = True"
| "is_terminal_item (RdpItem i c s) = False"
| "is_terminal_item (VncItem i c s) = False"

definition split_members ::
  "TerminalPaneBinding list \<Rightarrow> (string \<times> InstanceItem) list \<Rightarrow> InstanceItem list" where
  "split_members bindings instances =
     concat (map (\<lambda>b. case map_of instances (binding_item_id b) of
        None \<Rightarrow> [] | Some item \<Rightarrow> if is_terminal_item item then [item] else []) bindings)"

definition buildSplitGroup ::
  "SplitGroupInput \<Rightarrow> (string \<times> InstanceItem) list \<Rightarrow> SplitGroupItem option" where
  "buildSplitGroup split instances =
     (let members = split_members (sgi_bindings split) instances in
      case members of
        [] \<Rightarrow> None
      | m # _ \<Rightarrow>
          (let hostId = binding_item_id (sgi_host split);
               host = (case find (\<lambda>item. inst_id item = hostId) members of None \<Rightarrow> m | Some h \<Rightarrow> h)
           in Some \<lparr>group_host = host, group_memberIds = map inst_id members\<rparr>))"

definition orderInstances :: "(string \<times> InstanceItem) list \<Rightarrow> string list \<Rightarrow> InstanceItem list" where
  "orderInstances instances order =
     (let placed = filter (\<lambda>i. map_of instances i \<noteq> None) order
      in List.map_filter (map_of instances) order @
         map snd (filter (\<lambda>(i, item). i \<notin> set placed) instances))"

fun place_items ::
  "SplitGroupItem option \<Rightarrow> string list \<Rightarrow> bool \<Rightarrow> InstanceItem list \<Rightarrow> WorkspaceItem list" where
  "place_items grp memberIds groupPlaced [] = []"
| "place_items grp memberIds groupPlaced (item # items) =
     (if inst_id item \<notin> set memberIds then
        ItemInstance item # place_items grp memberIds groupPlaced items
      else case grp of
          None \<Rightarrow> place_items grp memberIds groupPlaced items
        | Some g \<Rightarrow> if \<not> groupPlaced then ItemSplit g # place_items grp memberIds True items
            else place_items grp memberIds groupPlaced items)"

definition selectWorkspaceItems ::
  "InstanceCollections \<Rightarrow> string list \<Rightarrow> SplitGroupInput option \<Rightarrow> WorkspaceItem list" where
  "selectWorkspaceItems c order split =
     (let instances = collectInstances c;
          ordered = orderInstances instances order;
          grp = (case split of None \<Rightarrow> None | Some s \<Rightarrow> buildSplitGroup s instances);
          memberIds = (case grp of None \<Rightarrow> [] | Some g \<Rightarrow> group_memberIds g)
      in HomeItem # place_items grp memberIds False ordered)"

section \<open>Titles and the active item\<close>

datatype WorkspaceItemTitle =
    TitleHome
  | TitleLocal "string option" int
  | TitleRdp "string option"
  | TitleSsh "string option" int
  | TitleVnc "string option"

fun instance_title ::
  "(string \<Rightarrow> string option) \<Rightarrow> (string \<Rightarrow> string option) \<Rightarrow> InstanceItem \<Rightarrow> WorkspaceItemTitle" where
  "instance_title connectionName localProfileName (SshItem i c n t) = TitleSsh (connectionName c) n"
| "instance_title connectionName localProfileName (LocalItem i n p s t) =
     TitleLocal (if s = SourceLocal then localProfileName p else connectionName p) n"
| "instance_title connectionName localProfileName (RdpItem i c s) = TitleRdp (connectionName c)"
| "instance_title connectionName localProfileName (VncItem i c s) = TitleVnc (connectionName c)"

fun itemTitle ::
  "(string \<Rightarrow> string option) \<Rightarrow> (string \<Rightarrow> string option) \<Rightarrow> WorkspaceItem \<Rightarrow> WorkspaceItemTitle" where
  "itemTitle connectionName localProfileName HomeItem = TitleHome"
| "itemTitle connectionName localProfileName (ItemInstance i) =
     instance_title connectionName localProfileName i"
| "itemTitle connectionName localProfileName (ItemSplit g) =
     instance_title connectionName localProfileName (group_host g)"

record ActiveInstanceRefs =
  air_localTerminalTabId :: "string option"
  air_mode :: WorkspaceMode
  air_rdpSessionId :: "string option"
  air_showingHome :: bool
  air_splitActive :: bool
  air_terminalTabId :: "string option"
  air_vncSessionId :: "string option"

definition activeInstanceId :: "ActiveInstanceRefs \<Rightarrow> string option" where
  "activeInstanceId active =
     (case air_mode active of
        ModeSsh \<Rightarrow> map_option (instanceItemId InstSsh) (truthy (air_terminalTabId active))
      | ModeLocal \<Rightarrow> map_option (instanceItemId InstLocal) (truthy (air_localTerminalTabId active))
      | ModeRdp \<Rightarrow> map_option (instanceItemId InstRdp) (truthy (air_rdpSessionId active))
      | ModeVnc \<Rightarrow> map_option (instanceItemId InstVnc) (truthy (air_vncSessionId active))
      | ModeHome \<Rightarrow> None)"

fun split_item_of :: "WorkspaceItem list \<Rightarrow> SplitGroupItem option" where
  "split_item_of [] = None"
| "split_item_of (ItemSplit g # items) = Some g"
| "split_item_of (_ # items) = split_item_of items"

definition selectActiveItemId :: "ActiveInstanceRefs \<Rightarrow> WorkspaceItem list \<Rightarrow> string option" where
  "selectActiveItemId active items =
     (if air_showingHome active then Some HOME_ITEM_ID
      else
        (let split = split_item_of items;
             terminalMode = (air_mode active = ModeSsh \<or> air_mode active = ModeLocal)
         in if split \<noteq> None \<and> terminalMode \<and> air_splitActive active then Some SPLIT_ITEM_ID
            else case activeInstanceId active of
                None \<Rightarrow> None
              | Some instanceId \<Rightarrow>
                  if (case split of None \<Rightarrow> False | Some g \<Rightarrow> instanceId \<in> set (group_memberIds g))
                  then Some SPLIT_ITEM_ID
                  else if instanceId \<in> workspace_item_id ` set items then Some instanceId else None))"

definition liveInstanceIds :: "CloseSnapshot \<Rightarrow> string list option \<Rightarrow> string list" where
  "liveInstanceIds snapshot closingConnectionIds =
     (let kept = (\<lambda>r. case closingConnectionIds of
            None \<Rightarrow> True | Some closing \<Rightarrow> ref_connectionId r \<notin> set closing)
      in dedupe (collectionIds (map ref_id (filter kept (snap_terminalTabs snapshot)))
           (snap_localTerminalTabs snapshot)
           (map ref_id (filter kept (snap_rdpSessions snapshot)))
           (map ref_id (filter kept (snap_vncSessions snapshot)))))"

section \<open>Identities\<close>

lemma instanceItemId_inject [simp]:
  "instanceItemId k a = instanceItemId k' b \<longleftrightarrow> k = k' \<and> a = b"
  by (cases k; cases k') (simp_all add: instanceItemId_def)

lemma instanceItemId_not_fixed [simp]:
  "instanceItemId k a \<noteq> HOME_ITEM_ID" "instanceItemId k a \<noteq> SPLIT_ITEM_ID"
  "HOME_ITEM_ID \<noteq> instanceItemId k a" "SPLIT_ITEM_ID \<noteq> instanceItemId k a"
  by (cases k; simp add: instanceItemId_def HOME_ITEM_ID_def SPLIT_ITEM_ID_def)+

lemma binding_item_id_key: "binding_item_id b = terminalPaneBindingKey b"
  by (cases b) (simp_all add: binding_item_id_def instanceItemId_def)

lemma instance_entries_ids:
  "map fst (instance_entries c) = collectionIds (map itt_id (coll_terminalTabs c))
     (map ilt_id (coll_localTerminalTabs c)) (map ref_id (coll_rdpSessions c)) (map ref_id (coll_vncSessions c))"
  by (simp add: instance_entries_def collectionIds_def Let_def)

lemma instance_entries_wf: "(i, item) \<in> set (instance_entries c) \<Longrightarrow>
    inst_id item = i \<and> (\<exists>k raw. i = instanceItemId k raw)"
  by (auto simp: instance_entries_def Let_def)

lemma map_of_revD: "map_of (rev ps) k = Some v \<Longrightarrow> (k, v) \<in> set ps"
  by (metis map_of_SomeD set_rev)

lemma collectInstances_facts:
  shows collectInstances_distinct: "distinct (map_keys (collectInstances c))"
    and collectInstances_keys: "set (map_keys (collectInstances c)) = set (map fst (instance_entries c))"
    and collectInstances_lookup: "map_of (collectInstances c) i = Some item \<Longrightarrow>
      inst_id item = i \<and> (\<exists>k raw. i = instanceItemId k raw)"
  using distinct_keys_map_from [of "instance_entries c"] keys_map_from [of "instance_entries c"]
  by (auto simp: collectInstances_def map_of_map_from dest!: map_of_revD instance_entries_wf)

section \<open>Every instance is shown exactly once\<close>

lemma map_filter_lookup_ids:
  assumes "\<And>i item. f i = Some item \<Longrightarrow> inst_id item = i"
  shows "map inst_id (List.map_filter f xs) = filter (\<lambda>i. f i \<noteq> None) xs"
  using assms by (induction xs) (auto simp: List.map_filter_def split: option.splits)

lemma ordered_ids:
  "map inst_id (orderInstances (collectInstances c) order) =
     filter (\<lambda>i. i \<in> set (map fst (instance_entries c))) order @
     filter (\<lambda>i. i \<notin> set order) (map_keys (collectInstances c))"
proof -
  let ?m = "collectInstances c"
  have dom: "map_of ?m i \<noteq> None \<longleftrightarrow> i \<in> set (map fst (instance_entries c))" for i
    unfolding collectInstances_keys [symmetric] by (simp add: map_of_eq_None_iff)
  have keyed: "inst_id item = i" if "(i, item) \<in> set ?m" for i item
    using that collectInstances_lookup collectInstances_distinct by (metis map_of_is_SomeI)
  have tail: "map inst_id (map snd (filter (\<lambda>(i, item). i \<notin> S) ps)) = filter (\<lambda>i. i \<notin> S) (map fst ps)"
    if "\<forall>(i, item) \<in> set ps. inst_id item = i" for S and ps :: "(string \<times> InstanceItem) list"
    using that by (induction ps) auto
  have placed: "filter (\<lambda>i. i \<notin> set (filter (\<lambda>i. map_of ?m i \<noteq> None) order)) (map_keys ?m) =
      filter (\<lambda>i. i \<notin> set order) (map_keys ?m)"
    by (rule filter_cong [OF refl]) (auto simp: map_of_eq_None_iff)
  have "map inst_id (List.map_filter (map_of ?m) order) =
      filter (\<lambda>i. i \<in> set (map fst (instance_entries c))) order"
    unfolding dom [symmetric] by (rule map_filter_lookup_ids) (simp add: collectInstances_lookup)
  moreover have "map inst_id (map snd (filter (\<lambda>(i, item).
      i \<notin> set (filter (\<lambda>i. map_of ?m i \<noteq> None) order)) ?m)) = filter (\<lambda>i. i \<notin> set order) (map_keys ?m)"
    unfolding placed [symmetric] by (rule tail) (auto intro: keyed)
  ultimately show ?thesis
    by (simp only: orderInstances_def Let_def map_append)
qed

lemma ordered_distinct:
  "distinct order \<Longrightarrow> distinct (map inst_id (orderInstances (collectInstances c) order))"
  unfolding ordered_ids using collectInstances_distinct [of c] by auto

lemma ordered_set:
  "set (map inst_id (orderInstances (collectInstances c) order)) = set (map fst (instance_entries c))"
  unfolding ordered_ids using collectInstances_keys [of c] by auto

text \<open>The instances an item stands for.\<close>

fun shown_ids :: "WorkspaceItem \<Rightarrow> string list" where
  "shown_ids HomeItem = []"
| "shown_ids (ItemInstance i) = [inst_id i]"
| "shown_ids (ItemSplit g) = group_memberIds g"

lemma place_items_None: "place_items None [] b items = map ItemInstance items"
  by (induction items) auto

lemma place_items_placed:
  "place_items (Some g) ms True items = map ItemInstance (filter (\<lambda>i. inst_id i \<notin> set ms) items)"
  by (induction items) auto

lemma place_items_Some:
  assumes "\<exists>i \<in> set items. inst_id i \<in> set ms"
  shows "\<exists>before after. items = before @ after \<and> (\<forall>i \<in> set before. inst_id i \<notin> set ms) \<and>
    place_items (Some g) ms False items =
      map ItemInstance before @ [ItemSplit g] @
      map ItemInstance (filter (\<lambda>i. inst_id i \<notin> set ms) after)"
  using assms
proof (induction items)
  case (Cons x xs)
  show ?case
  proof (cases "inst_id x \<in> set ms")
    case True
    then have "place_items (Some g) ms False (x # xs) =
        map ItemInstance [] @ [ItemSplit g] @ map ItemInstance (filter (\<lambda>i. inst_id i \<notin> set ms) (x # xs))"
      by (simp add: place_items_placed)
    then show ?thesis
      by (metis append_Nil empty_iff list.set(1))
  next
    case False
    with Cons obtain before after where "xs = before @ after" "\<forall>i \<in> set before. inst_id i \<notin> set ms"
        "place_items (Some g) ms False xs = map ItemInstance before @ [ItemSplit g] @
          map ItemInstance (filter (\<lambda>i. inst_id i \<notin> set ms) after)"
      by auto
    with False show ?thesis
      by (intro exI [of _ "x # before"] exI [of _ after]) simp
  qed
qed simp

lemma concat_shown_instances: "concat (map shown_ids (map ItemInstance items)) = map inst_id items"
  by (induction items) auto

lemma split_members_mem:
  "item \<in> set (split_members bs m) \<longleftrightarrow>
    (\<exists>b \<in> set bs. map_of m (binding_item_id b) = Some item \<and> is_terminal_item item)"
  by (auto simp: split_members_def split: option.splits if_splits) (metis)+

lemma split_members_ids:
  assumes "item \<in> set (split_members bs (collectInstances c))"
  shows "inst_id item \<in> binding_item_id ` set bs" "inst_id item \<in> set (map fst (instance_entries c))"
proof -
  obtain b where b: "b \<in> set bs" "map_of (collectInstances c) (binding_item_id b) = Some item"
    using assms by (auto simp: split_members_mem)
  then have id: "inst_id item = binding_item_id b"
    using collectInstances_lookup by blast
  with b(1) show "inst_id item \<in> binding_item_id ` set bs"
    by simp
  show "inst_id item \<in> set (map fst (instance_entries c))"
    unfolding id collectInstances_keys [symmetric] using b(2) by (force dest: map_of_SomeD)
qed

lemma split_members_distinct:
  "distinct bs \<Longrightarrow> distinct (map inst_id (split_members bs (collectInstances c)))"
proof (induction bs)
  case (Cons b bs)
  have fresh: "binding_item_id b \<notin> inst_id ` set (split_members bs (collectInstances c))"
    using split_members_ids(1) Cons.prems by (fastforce simp: binding_item_id_key)
  have "split_members (b # bs) (collectInstances c) =
      (case map_of (collectInstances c) (binding_item_id b) of
         None \<Rightarrow> [] | Some item \<Rightarrow> if is_terminal_item item then [item] else []) @
      split_members bs (collectInstances c)"
    by (simp add: split_members_def)
  with Cons fresh show ?case
    by (auto dest!: collectInstances_lookup split: option.splits) (metis image_eqI)
qed (simp add: split_members_def)

lemma buildSplitGroup_members:
  "buildSplitGroup s m = Some g \<Longrightarrow>
    group_memberIds g = map inst_id (split_members (sgi_bindings s) m) \<and> group_memberIds g \<noteq> [] \<and>
    inst_id (group_host g) \<in> set (group_memberIds g)"
  by (auto simp: buildSplitGroup_def Let_def split: list.splits option.splits if_splits
      dest!: find_SomeD) (metis imageI)

text \<open>
  What the projection yields: without a group the instances in order; with a group, the
  instances outside it in order and the group at the place of its first member.
\<close>

definition split_group_of :: "InstanceCollections \<Rightarrow> SplitGroupInput option \<Rightarrow> SplitGroupItem option" where
  "split_group_of c split =
     (case split of None \<Rightarrow> None | Some s \<Rightarrow> buildSplitGroup s (collectInstances c))"

lemma selectWorkspaceItems_cases:
  obtains (plain) "split_group_of c split = None"
      and "selectWorkspaceItems c order split =
        HomeItem # map ItemInstance (orderInstances (collectInstances c) order)"
  | (grouped) g before after where "split_group_of c split = Some g"
      and "orderInstances (collectInstances c) order = before @ after"
      and "\<forall>i \<in> set before. inst_id i \<notin> set (group_memberIds g)"
      and "selectWorkspaceItems c order split = HomeItem # map ItemInstance before @ [ItemSplit g] @
        map ItemInstance (filter (\<lambda>i. inst_id i \<notin> set (group_memberIds g)) after)"
proof (cases "split_group_of c split")
  case None
  then show ?thesis
    by (intro plain) (simp_all add: split_group_of_def selectWorkspaceItems_def place_items_None)
next
  case (Some g)
  then obtain s where s: "split = Some s" "buildSplitGroup s (collectInstances c) = Some g"
    by (auto simp: split_group_of_def split: option.splits)
  note members = buildSplitGroup_members [OF s(2)]
  then obtain i where "i \<in> set (split_members (sgi_bindings s) (collectInstances c))"
      "inst_id i = inst_id (group_host g)"
    by auto
  then have "inst_id (group_host g) \<in> set (map inst_id (orderInstances (collectInstances c) order))"
    unfolding ordered_set by (metis split_members_ids(2))
  then have "\<exists>i \<in> set (orderInstances (collectInstances c) order). inst_id i \<in> set (group_memberIds g)"
    using members by (metis ex_map_conv in_set_conv_nth image_iff list.set_map)
  from place_items_Some [OF this, of g] s Some show ?thesis
    by (auto intro!: grouped simp: selectWorkspaceItems_def)
qed

lemma ordered_id_shape:
  assumes "i \<in> set (orderInstances (collectInstances c) order)"
  shows "\<exists>k raw. inst_id i = instanceItemId k raw"
proof -
  have "inst_id i \<in> set (map fst (instance_entries c))"
    using assms ordered_set [of c order] by auto
  then show ?thesis
    by (auto dest: instance_entries_wf)
qed

text \<open>
  C13. The title bar shows every open instance exactly once: home comes first, item ids are
  pairwise distinct, and the instances the items stand for (an instance item for itself, the
  split group for its members) are, without repetition, exactly the open instances.
\<close>

theorem workspace_items_exact:
  assumes "distinct order" "\<forall>s. split = Some s \<longrightarrow> distinct (sgi_bindings s)"
  shows "first_of (selectWorkspaceItems c order split) = Some HomeItem \<and>
    distinct (map workspace_item_id (selectWorkspaceItems c order split)) \<and>
    distinct (concat (map shown_ids (selectWorkspaceItems c order split))) \<and>
    set (concat (map shown_ids (selectWorkspaceItems c order split))) =
      set (unregisteredInstanceIds c [])"
proof -
  let ?o = "orderInstances (collectInstances c) order"
  have all: "set (unregisteredInstanceIds c []) = set (map inst_id ?o)"
    unfolding ordered_set instance_entries_ids by (simp add: unregisteredInstanceIds_def)
  note o = ordered_distinct [OF assms(1), of c]
  have shape: "HOME_ITEM_ID \<notin> inst_id ` set ?o" "SPLIT_ITEM_ID \<notin> inst_id ` set ?o"
    using ordered_id_shape by fastforce+
  show ?thesis
  proof (cases rule: selectWorkspaceItems_cases [of c split order])
    case plain
    then show ?thesis
      using o shape by (auto simp: all concat_shown_instances [simplified] comp_def)
  next
    case (grouped g before after)
    obtain s where s: "split = Some s" "buildSplitGroup s (collectInstances c) = Some g"
      using grouped(1) by (auto simp: split_group_of_def split: option.splits)
    then have mem: "distinct (group_memberIds g)" "set (group_memberIds g) \<subseteq> set (map inst_id ?o)"
      using assms(2) buildSplitGroup_members [OF s(2)] split_members_ids(2) ordered_set [of c order]
      by (auto simp: split_members_distinct)
    let ?rest = "filter (\<lambda>i. inst_id i \<notin> set (group_memberIds g)) after"
    have shown: "concat (map shown_ids (selectWorkspaceItems c order split)) =
        map inst_id before @ group_memberIds g @ map inst_id ?rest"
      by (simp add: grouped(4) concat_shown_instances [simplified] comp_def)
    have "distinct (map inst_id before @ group_memberIds g @ map inst_id ?rest)"
      using o mem(1) grouped(2,3) by (auto simp: distinct_map_filter)
    moreover have "set (map inst_id before @ group_memberIds g @ map inst_id ?rest) = set (map inst_id ?o)"
      using mem(2) grouped(2) by auto
    moreover have "distinct (map workspace_item_id (selectWorkspaceItems c order split))"
    proof -
      have "map workspace_item_id (selectWorkspaceItems c order split) =
          HOME_ITEM_ID # map inst_id before @ [SPLIT_ITEM_ID] @ map inst_id ?rest"
        by (simp add: grouped(4) comp_def)
      moreover have "HOME_ITEM_ID \<noteq> SPLIT_ITEM_ID"
        by (simp add: HOME_ITEM_ID_def SPLIT_ITEM_ID_def)
      ultimately show ?thesis
        using o shape grouped(2) by (auto simp: distinct_map_filter)
    qed
    ultimately show ?thesis
      by (simp only: shown all) (simp add: grouped(4))
  qed
qed

definition sample_collections :: InstanceCollections where
  "sample_collections =
     \<lparr>coll_localTerminalTabs = [\<lparr>ilt_id = ''l1'', ilt_ordinal = 0, ilt_profileId = ''p'', ilt_source = None\<rparr>],
      coll_rdpSessions = [\<lparr>ref_connectionId = ''c2'', ref_id = ''r1''\<rparr>],
      coll_terminalTabs = [\<lparr>itt_connectionId = ''c1'', itt_id = ''t1'', itt_ordinal = 0\<rparr>,
        \<lparr>itt_connectionId = ''c1'', itt_id = ''t2'', itt_ordinal = 1\<rparr>],
      coll_vncSessions = []\<rparr>"

theorem workspace_items_exact_witness:
  "set (concat (map shown_ids (selectWorkspaceItems sample_collections [''rdp:r1'', ''ssh:t2'', ''ssh:gone'']
      (Some \<lparr>sgi_bindings = [SshBinding ''t2'', LocalBinding ''l1''], sgi_host = SshBinding ''t2''\<rparr>)))) =
    set (unregisteredInstanceIds sample_collections [])"
  using workspace_items_exact [of "[''rdp:r1'', ''ssh:t2'', ''ssh:gone'']"
      "Some \<lparr>sgi_bindings = [SshBinding ''t2'', LocalBinding ''l1''], sgi_host = SshBinding ''t2''\<rparr>"
      sample_collections]
  by simp

section \<open>Order, active item, numbering\<close>

text \<open>
  Items keep the order table: the instances that are shown as items of their own and are
  registered appear in the order of the table, before every unregistered one.
\<close>

theorem workspace_items_follow_order:
  "\<exists>registered late. concat (map (\<lambda>w. case w of ItemInstance i \<Rightarrow> [inst_id i] | _ \<Rightarrow> [])
      (selectWorkspaceItems c order split)) = registered @ late \<and>
    subseq registered order \<and> set late \<inter> set order = {}"
proof -
  let ?o = "orderInstances (collectInstances c) order"
  let ?own = "\<lambda>w. case w of ItemInstance i \<Rightarrow> [inst_id i] | _ \<Rightarrow> []"
  have own: "concat (map ?own (map ItemInstance is)) = map inst_id is" for "is"
    by (induction "is") auto
  have "subseq (concat (map ?own (selectWorkspaceItems c order split))) (map inst_id ?o)"
  proof (cases rule: selectWorkspaceItems_cases [of c split order])
    case plain
    then show ?thesis
      using own [of ?o] by simp
  next
    case (grouped g before after)
    have "concat (map ?own (selectWorkspaceItems c order split)) =
        map inst_id before @ map inst_id (filter (\<lambda>i. inst_id i \<notin> set (group_memberIds g)) after)"
      unfolding grouped(4) list.map map_append concat_append concat.simps own by simp
    then show ?thesis
      by (simp add: grouped(2) list_emb_append_mono subseq_map)
  qed
  then obtain r l where rl: "concat (map ?own (selectWorkspaceItems c order split)) = r @ l"
      "subseq r (filter (\<lambda>i. i \<in> set (map fst (instance_entries c))) order)"
      "subseq l (filter (\<lambda>i. i \<notin> set order) (map_keys (collectInstances c)))"
    unfolding ordered_ids by (metis subseq_appendE)
  have "subseq r order"
    by (rule subseq_order.trans [OF rl(2) subseq_filter_left])
  moreover have "set l \<subseteq> set (filter (\<lambda>i. i \<notin> set order) (map_keys (collectInstances c)))"
    by (rule subseq_set [OF rl(3)])
  then have "set l \<inter> set order = {}"
    by auto
  ultimately show ?thesis
    using rl(1) by blast
qed

lemma split_item_of_mem: "split_item_of items = Some g \<Longrightarrow> ItemSplit g \<in> set items"
  by (induction items rule: split_item_of.induct) auto

text \<open>
  The active item is always one of the items shown: home while home is shown, the split
  group while the split is shown or the active terminal is one of its members, otherwise the
  active instance itself, and none only if that instance is not open.
\<close>

theorem selectActiveItemId_shown:
  "(case selectActiveItemId active (selectWorkspaceItems c order split) of
      None \<Rightarrow> \<not> air_showingHome active \<and>
        (\<forall>i. activeInstanceId active = Some i \<longrightarrow> i \<notin> set (unregisteredInstanceIds c []))
    | Some i \<Rightarrow> i \<in> workspace_item_id ` set (selectWorkspaceItems c order split))"
proof -
  let ?items = "selectWorkspaceItems c order split"
  have home: "HOME_ITEM_ID \<in> workspace_item_id ` set ?items"
    by (simp add: selectWorkspaceItems_def Let_def)
  have grp: "split_item_of ?items = Some g \<Longrightarrow> SPLIT_ITEM_ID \<in> workspace_item_id ` set ?items" for g
    by (force dest: split_item_of_mem)
  have open_shown: "i \<in> workspace_item_id ` set ?items \<or>
      (\<exists>g. split_item_of ?items = Some g \<and> i \<in> set (group_memberIds g))"
    if "i \<in> set (unregisteredInstanceIds c [])" for i
  proof -
    from that have "i \<in> set (map inst_id (orderInstances (collectInstances c) order))"
      unfolding ordered_set instance_entries_ids by (simp add: unregisteredInstanceIds_def)
    then obtain it where it: "it \<in> set (orderInstances (collectInstances c) order)" "i = inst_id it"
      by auto
    have skip: "split_item_of (map ItemInstance is @ rest) = split_item_of rest" for "is" rest
      by (induction "is") auto
    show ?thesis
    proof (cases rule: selectWorkspaceItems_cases [of c split order])
      case plain
      then show ?thesis
        using it by (force simp: image_iff)
    next
      case (grouped g before after)
      then show ?thesis
        using it by (cases "i \<in> set (group_memberIds g)") (auto simp: skip image_image image_Un)
    qed
  qed
  show ?thesis
    using home grp
    by (auto simp: selectActiveItemId_def Let_def split: option.splits if_splits dest!: open_shown)
qed

lemma foldl_max_ge: "(k :: int) \<le> foldl max k xs \<and> (\<forall>x \<in> set xs. x \<le> foldl max k xs)"
proof (induction xs arbitrary: k)
  case (Cons x xs)
  from Cons [of "max k x"] show ?case
    by auto
qed simp

lemma nextOrdinal_fresh: "0 \<le> nextOrdinal ns \<and> (\<forall>n \<in> set ns. n < nextOrdinal ns)"
  using foldl_max_ge [of "- 1" ns] by (auto simp: nextOrdinal_def)

end
