(* ===== verification/Session_Reducer.thy ===== *)
theory Session_Reducer
  imports Instances
begin

text \<open>
  The pointer reducer of the session tabs (\<open>features/workspace/sessionTabs/actions.ts\<close>,
  \<open>reducer.ts\<close>), its selectors (\<open>selectors.ts\<close>) and the effects of the controller
  that keep its tables in step with the collections (\<open>useSessionTabsController.ts\<close>).
  \<open>set\<close> of the source skips a write of an equal value; as a value that is the update itself.
\<close>

section \<open>Actions\<close>

datatype split_host_ref = HostSsh string | HostLocal

record session_counts =
  count_local :: nat
  count_rdp :: nat
  count_ssh :: nat
  count_vnc :: nat

datatype SessionTabsAction =
    TabsActivateTerminal string string bool
  | TabsActivateLocal string
  | TabsActivateRdp string string
  | TabsActivateVnc string string
  | TabsActivateFile string string bool "string option"
  | TabsActivateSplitHost split_host_ref
  | TabsFocusPaneBinding TerminalPaneBinding
  | TabsStartConnecting string string
  | TabsOpenSettings
  | TabsCloseSettings
  | TabsGoHome
  | TabsReturnHomeIfEmpty session_counts
  | TabsRememberActive string string
  | TabsForgetConnections "string list"
  | TabsRememberUnified string UnifiedWorkbenchTab
  | TabsForgetUnified "string list"
  | TabsItemOpened string
  | TabsNormalizeUnified "SessionRef list" "SessionRef list"
  | TabsFallbackHomeKeepPointers
  | TabsClearActiveFile
  | TabsCloseTerminals "SessionRef list" CloseSnapshot
  | TabsCloseConnections "string list" CloseSnapshot close_variant
  | TabsCloseLocalTerminals "string list" CloseSnapshot
  | TabsRemoveRdp "string list" CloseSnapshot
  | TabsRemoveVnc "string list" CloseSnapshot
  | TabsConsumeFollowUp
  | TabsSetActiveRemoteFileTabId "string option"

definition initialSessionPointerState :: SessionPointerState where
  "initialSessionPointerState =
     \<lparr>activeConnectionId = None, activeLocalTerminalTabId = None, activeRdpSessionId = None,
      activeRemoteFileTabId = None, activeTabByConnectionId = Map.empty, activeTabId = None,
      activeUnifiedTabByConnectionId = Map.empty, activeView = ViewWorkspace,
      activeVncSessionId = None, followUp = None, homeActive = False, session_mode = ModeHome,
      session_order = []\<rparr>"

section \<open>Reducer\<close>

definition rememberActive :: "SessionPointerState \<Rightarrow> string \<Rightarrow> string \<Rightarrow> SessionPointerState" where
  "rememberActive s c t =
     s\<lparr>activeTabByConnectionId := (activeTabByConnectionId s)(c \<mapsto> t)\<rparr>"

definition rememberUnified ::
  "SessionPointerState \<Rightarrow> string \<Rightarrow> UnifiedWorkbenchTab \<Rightarrow> SessionPointerState" where
  "rememberUnified s c tab =
     s\<lparr>activeUnifiedTabByConnectionId := (activeUnifiedTabByConnectionId s)(c \<mapsto> tab)\<rparr>"

definition enterWorkspace :: "SessionPointerState \<Rightarrow> WorkspaceMode \<Rightarrow> SessionPointerState" where
  "enterWorkspace s m = s\<lparr>activeView := ViewWorkspace, session_mode := m, homeActive := False\<rparr>"

definition forget_keys :: "string list \<Rightarrow> (string \<rightharpoonup> 'v) \<Rightarrow> (string \<rightharpoonup> 'v)" where
  "forget_keys ids m = m |` (- set ids)"

definition patched :: "'a option \<Rightarrow> 'a \<Rightarrow> 'a" where
  "patched p v = (case p of None \<Rightarrow> v | Some w \<Rightarrow> w)"

definition applyPatch :: "SessionPointerState \<Rightarrow> PointerPatch \<Rightarrow> SessionPointerState" where
  "applyPatch s p = s
     \<lparr>activeConnectionId := patched (patch_activeConnectionId p) (activeConnectionId s),
      activeLocalTerminalTabId := patched (patch_activeLocalTerminalTabId p) (activeLocalTerminalTabId s),
      activeRdpSessionId := patched (patch_activeRdpSessionId p) (activeRdpSessionId s),
      activeRemoteFileTabId := patched (patch_activeRemoteFileTabId p) (activeRemoteFileTabId s),
      activeTabId := patched (patch_activeTabId p) (activeTabId s),
      activeVncSessionId := patched (patch_activeVncSessionId p) (activeVncSessionId s),
      homeActive := patched (patch_homeActive p) (homeActive s),
      session_mode := patched (patch_mode p) (session_mode s)\<rparr>"

definition applyDecision :: "SessionPointerState \<Rightarrow> CloseDecision \<Rightarrow> SessionPointerState" where
  "applyDecision s d =
     (let next = applyPatch s (decision_patch d);
          next = (case decision_remember d of
              None \<Rightarrow> next | Some (c, t) \<Rightarrow> rememberActive next c t);
          next = (case decision_forget d of
              None \<Rightarrow> next
            | Some ids \<Rightarrow> next\<lparr>activeTabByConnectionId :=
                forget_keys ids (activeTabByConnectionId next)\<rparr>)
      in next\<lparr>followUp := decision_followUp d\<rparr>)"

definition pruneOrder ::
  "SessionPointerState \<Rightarrow> CloseSnapshot \<Rightarrow> string list option \<Rightarrow> SessionPointerState" where
  "pruneOrder s snapshot closing =
     s\<lparr>session_order := filter (\<lambda>i. i \<in> set (liveInstanceIds snapshot closing)) (session_order s)\<rparr>"

definition applyClose ::
  "SessionPointerState \<Rightarrow> CloseDecision \<Rightarrow> CloseSnapshot \<Rightarrow> string list option \<Rightarrow> SessionPointerState" where
  "applyClose s d snapshot closing = pruneOrder (applyDecision s d) snapshot closing"

definition normalizeUnifiedTab ::
  "SessionRef list \<Rightarrow> SessionRef list \<Rightarrow> string \<Rightarrow> UnifiedWorkbenchTab \<Rightarrow> UnifiedWorkbenchTab option" where
  "normalizeUnifiedTab fileTabs terminalTabs c tab =
     (let terminalTab = find (\<lambda>r. ref_connectionId r = c \<and> ref_id r = unified_id tab) terminalTabs;
          fileTab = find (\<lambda>r. ref_connectionId r = c \<and> ref_id r = unified_id tab) fileTabs
      in if (unified_kind tab = WorkbenchTerminal \<and> terminalTab \<noteq> None) \<or>
            (unified_kind tab = WorkbenchFile \<and> fileTab \<noteq> None) then Some tab
         else case find (\<lambda>r. ref_connectionId r = c) fileTabs of
             Some f \<Rightarrow> Some \<lparr>unified_id = ref_id f, unified_kind = WorkbenchFile\<rparr>
           | None \<Rightarrow>
               (case find (\<lambda>r. ref_connectionId r = c) terminalTabs of
                  Some t \<Rightarrow> Some \<lparr>unified_id = ref_id t, unified_kind = WorkbenchTerminal\<rparr>
                | None \<Rightarrow> None))"

fun sessionPointerReducer :: "SessionPointerState \<Rightarrow> SessionTabsAction \<Rightarrow> SessionPointerState" where
  "sessionPointerReducer s (TabsActivateTerminal c t rememberU) =
     (let next = rememberActive ((enterWorkspace s ModeSsh)
            \<lparr>activeConnectionId := Some c, activeTabId := Some t\<rparr>) c t
      in if rememberU
         then rememberUnified next c \<lparr>unified_id = t, unified_kind = WorkbenchTerminal\<rparr> else next)"
| "sessionPointerReducer s (TabsActivateLocal t) =
     (enterWorkspace s ModeLocal)\<lparr>activeLocalTerminalTabId := Some t\<rparr>"
| "sessionPointerReducer s (TabsActivateRdp c i) =
     (enterWorkspace s ModeRdp)\<lparr>activeConnectionId := Some c, activeRdpSessionId := Some i\<rparr>"
| "sessionPointerReducer s (TabsActivateVnc c i) =
     (enterWorkspace s ModeVnc)\<lparr>activeConnectionId := Some c, activeVncSessionId := Some i\<rparr>"
| "sessionPointerReducer s (TabsActivateFile c f rememberU terminalTab) =
     (let next = s\<lparr>homeActive := False, session_mode := ModeSsh, activeConnectionId := Some c,
            activeRemoteFileTabId := Some f\<rparr>;
          next = (if rememberU
            then rememberUnified next c \<lparr>unified_id = f, unified_kind = WorkbenchFile\<rparr> else next)
      in case truthy terminalTab of
           None \<Rightarrow> next
         | Some t \<Rightarrow> rememberActive (next\<lparr>activeTabId := Some t\<rparr>) c t)"
| "sessionPointerReducer s (TabsActivateSplitHost host) =
     (case host of
        HostSsh c \<Rightarrow> (enterWorkspace s ModeSsh)\<lparr>activeConnectionId := Some c\<rparr>
      | HostLocal \<Rightarrow> enterWorkspace s ModeLocal)"
| "sessionPointerReducer s (TabsFocusPaneBinding b) =
     (case b of
        SshBinding t \<Rightarrow> s\<lparr>activeTabId := Some t\<rparr>
      | LocalBinding t \<Rightarrow> s\<lparr>activeLocalTerminalTabId := Some t\<rparr>)"
| "sessionPointerReducer s (TabsStartConnecting c t) =
     rememberActive (s\<lparr>session_mode := ModeSsh, homeActive := False, activeConnectionId := Some c,
       activeTabId := Some t\<rparr>) c t"
| "sessionPointerReducer s TabsOpenSettings = s\<lparr>activeView := ViewSettings\<rparr>"
| "sessionPointerReducer s TabsCloseSettings = s\<lparr>activeView := ViewWorkspace\<rparr>"
| "sessionPointerReducer s TabsClearActiveFile = s\<lparr>activeRemoteFileTabId := None\<rparr>"
| "sessionPointerReducer s (TabsCloseTerminals closingTabs snapshot) =
     applyClose s (decideTerminalClose s closingTabs snapshot) snapshot None"
| "sessionPointerReducer s (TabsCloseConnections ids snapshot variant) =
     applyClose s (decideConnectionClose s ids snapshot variant) snapshot (Some ids)"
| "sessionPointerReducer s (TabsCloseLocalTerminals ids snapshot) =
     applyClose s (decideLocalClose s ids snapshot) snapshot None"
| "sessionPointerReducer s (TabsRemoveRdp ids snapshot) =
     applyClose s (decideRdpRemove s ids snapshot) snapshot None"
| "sessionPointerReducer s (TabsRemoveVnc ids snapshot) =
     applyClose s (decideVncRemove s ids snapshot) snapshot None"
| "sessionPointerReducer s (TabsItemOpened i) =
     (if i \<in> set (session_order s) then s else s\<lparr>session_order := session_order s @ [i]\<rparr>)"
| "sessionPointerReducer s TabsConsumeFollowUp = s\<lparr>followUp := None\<rparr>"
| "sessionPointerReducer s TabsGoHome =
     s\<lparr>activeView := ViewWorkspace, session_mode := ModeHome, homeActive := True\<rparr>"
| "sessionPointerReducer s (TabsReturnHomeIfEmpty counts) =
     (if count_ssh counts \<noteq> 0 \<or> count_local counts \<noteq> 0 \<or> count_rdp counts \<noteq> 0 \<or> count_vnc counts \<noteq> 0
      then s
      else s\<lparr>activeConnectionId := None, activeTabId := None, activeRdpSessionId := None,
             activeVncSessionId := None, activeLocalTerminalTabId := None,
             session_mode := ModeHome, homeActive := True\<rparr>)"
| "sessionPointerReducer s TabsFallbackHomeKeepPointers =
     s\<lparr>activeConnectionId := None, session_mode := ModeHome, homeActive := True\<rparr>"
| "sessionPointerReducer s (TabsRememberActive c t) = rememberActive s c t"
| "sessionPointerReducer s (TabsForgetConnections ids) =
     s\<lparr>activeTabByConnectionId := forget_keys ids (activeTabByConnectionId s)\<rparr>"
| "sessionPointerReducer s (TabsRememberUnified c tab) = rememberUnified s c tab"
| "sessionPointerReducer s (TabsForgetUnified ids) =
     s\<lparr>activeUnifiedTabByConnectionId := forget_keys ids (activeUnifiedTabByConnectionId s)\<rparr>"
| "sessionPointerReducer s (TabsNormalizeUnified fileTabs terminalTabs) =
     s\<lparr>activeUnifiedTabByConnectionId := (\<lambda>c. Option.bind (activeUnifiedTabByConnectionId s c)
         (normalizeUnifiedTab fileTabs terminalTabs c))\<rparr>"
| "sessionPointerReducer s (TabsSetActiveRemoteFileTabId v) = s\<lparr>activeRemoteFileTabId := v\<rparr>"

section \<open>Selectors\<close>

definition groupByConnection :: "SessionRef list \<Rightarrow> (string \<times> SessionRef list) list" where
  "groupByConnection items =
     foldl (\<lambda>groups item. map_set (ref_connectionId item)
       ((case map_of groups (ref_connectionId item) of None \<Rightarrow> [] | Some g \<Rightarrow> g) @ [item]) groups) [] items"

definition selectActiveSession ::
  "SessionRef list \<Rightarrow> (string \<times> SessionRef list) list \<Rightarrow> string option \<Rightarrow> string option \<Rightarrow> SessionRef option" where
  "selectActiveSession sessions byConnection activeSession activeConnection =
     (let byId = (case truthy activeSession of
            None \<Rightarrow> None
          | Some i \<Rightarrow> find (\<lambda>s. ref_id s = i \<and>
              (truthy activeConnection = None \<or> Some (ref_connectionId s) = activeConnection)) sessions)
      in case byId of
           Some s \<Rightarrow> Some s
         | None \<Rightarrow>
             (case truthy activeConnection of
                None \<Rightarrow> None
              | Some c \<Rightarrow> Option.bind (map_of byConnection c) first_of))"

definition selectActiveTerminalTab ::
  "('t \<Rightarrow> string) \<Rightarrow> 't list \<Rightarrow> string option \<Rightarrow> 't option" where
  "selectActiveTerminalTab tab_id tabs active =
     (case truthy active of None \<Rightarrow> None | Some i \<Rightarrow> find (\<lambda>tab. tab_id tab = i) tabs)"

definition selectActiveConnectedTerminalTab :: "MultiExecSshTab option \<Rightarrow> MultiExecSshTab option" where
  "selectActiveConnectedTerminalTab activeTab =
     (case activeTab of
        None \<Rightarrow> None
      | Some tab \<Rightarrow> if mst_type tab = TabTerminal \<and> truthy (mst_sessionId tab) \<noteq> None
          then Some tab else None)"

definition selectActiveTerminalSplitBinding ::
  "WorkspaceMode \<Rightarrow> string option \<Rightarrow> string option \<Rightarrow> TerminalPaneBinding option" where
  "selectActiveTerminalSplitBinding m activeTerminalTab activeLocalTab =
     (case (m, activeTerminalTab, activeLocalTab) of
        (ModeLocal, _, Some t) \<Rightarrow> Some (LocalBinding t)
      | (ModeSsh, Some t, _) \<Rightarrow> Some (SshBinding t)
      | _ \<Rightarrow> None)"

section \<open>Controller effects\<close>

text \<open>
  The follow-up effect returns what is handed to \<open>onFollowUp\<close>. The layout memory of remote
  files is an object in insertion order; modes are strings, of which the empty one is falsy.
\<close>

definition followUpEffect :: "SessionPointerState \<Rightarrow> SessionPointerState \<times> FollowUp list" where
  "followUpEffect s =
     (case followUp s of
        None \<Rightarrow> (s, [])
      | Some f \<Rightarrow> (sessionPointerReducer s TabsConsumeFollowUp, [f]))"

definition fileLayoutEffect ::
  "SessionRef list \<Rightarrow> SessionRef list \<Rightarrow> string \<Rightarrow> (string \<times> string) list \<Rightarrow> (string \<times> string) list" where
  "fileLayoutEffect terminalTabs remoteFileTabs defaultMode layouts =
     (let live = dedupe (map ref_connectionId terminalTabs @ map ref_connectionId remoteFileTabs);
          fileIds = dedupe (map ref_connectionId remoteFileTabs);
          kept = filter (\<lambda>(c, m). c \<in> set live) layouts
      in foldl (\<lambda>next c. if truthy (map_of next c) = None then map_set c defaultMode next else next)
           kept fileIds)"

definition registerEffect :: "InstanceCollections \<Rightarrow> SessionPointerState \<Rightarrow> SessionPointerState" where
  "registerEffect c s =
     foldl sessionPointerReducer s (map TabsItemOpened (unregisteredInstanceIds c (session_order s)))"

section \<open>The order table\<close>

lemma rememberActive_order [simp]: "session_order (rememberActive s c t) = session_order s"
  by (simp add: rememberActive_def)

lemma rememberUnified_order [simp]: "session_order (rememberUnified s c t) = session_order s"
  by (simp add: rememberUnified_def)

lemma enterWorkspace_order [simp]: "session_order (enterWorkspace s m) = session_order s"
  by (simp add: enterWorkspace_def)

lemma applyDecision_order [simp]: "session_order (applyDecision s d) = session_order s"
  by (simp add: applyDecision_def applyPatch_def Let_def split: option.splits prod.splits)

lemma applyClose_order [simp]:
  "session_order (applyClose s d snapshot closing) =
     filter (\<lambda>i. i \<in> set (liveInstanceIds snapshot closing)) (session_order s)"
  by (simp add: applyClose_def pruneOrder_def)

lemma reducer_order:
  "session_order (sessionPointerReducer s a) =
     (case a of
        TabsItemOpened i \<Rightarrow> if i \<in> set (session_order s) then session_order s else session_order s @ [i]
      | TabsCloseTerminals ts snapshot \<Rightarrow>
          filter (\<lambda>i. i \<in> set (liveInstanceIds snapshot None)) (session_order s)
      | TabsCloseConnections ids snapshot v \<Rightarrow>
          filter (\<lambda>i. i \<in> set (liveInstanceIds snapshot (Some ids))) (session_order s)
      | TabsCloseLocalTerminals ids snapshot \<Rightarrow>
          filter (\<lambda>i. i \<in> set (liveInstanceIds snapshot None)) (session_order s)
      | TabsRemoveRdp ids snapshot \<Rightarrow>
          filter (\<lambda>i. i \<in> set (liveInstanceIds snapshot None)) (session_order s)
      | TabsRemoveVnc ids snapshot \<Rightarrow>
          filter (\<lambda>i. i \<in> set (liveInstanceIds snapshot None)) (session_order s)
      | _ \<Rightarrow> session_order s)"
  by (cases a) (simp_all add: Let_def split: option.splits split_host_ref.splits TerminalPaneBinding.splits)

interpretation session_tabs: reducer sessionPointerReducer "\<lambda>s. distinct (session_order s)"
  by unfold_locales (simp add: reducer_order split: SessionTabsAction.splits)

lemma fold_itemOpened_order:
  "distinct (session_order s) \<Longrightarrow>
    session_order (foldl sessionPointerReducer s (map TabsItemOpened ids)) =
      session_order s @ dedupe_from (session_order s) ids"
proof (induction ids arbitrary: s)
  case (Cons i ids)
  have perm: "dedupe_from xs ids = dedupe_from ys ids" if "set xs = set ys" for xs ys
    using that by (induction xs ids arbitrary: ys rule: dedupe_from.induct) auto
  show ?case
  proof (cases "i \<in> set (session_order s)")
    case False
    with Cons.IH [of "s\<lparr>session_order := session_order s @ [i]\<rparr>"] Cons.prems show ?thesis
      by (simp add: perm [of "session_order s @ [i]" "i # session_order s"])
  qed (simp add: Cons)
qed simp

lemma registerEffect_order:
  "distinct (session_order s) \<Longrightarrow> session_order (registerEffect c s) =
     session_order s @ dedupe_from (session_order s) (unregisteredInstanceIds c (session_order s))"
  unfolding registerEffect_def by (rule fold_itemOpened_order)

text \<open>
  After any sequence of actions from the initial state, the registration effect leaves an
  order table without repetition that extends the previous one, contains every open instance,
  and has nothing left to register, so the effect does not fire again.
\<close>

theorem order_table_complete:
  "let s = foldl sessionPointerReducer initialSessionPointerState actions;
       t = registerEffect c s
   in distinct (session_order t) \<and> prefix (session_order s) (session_order t) \<and>
      set (unregisteredInstanceIds c []) \<subseteq> set (session_order t) \<and>
      unregisteredInstanceIds c (session_order t) = []"
proof -
  define s where "s = foldl sessionPointerReducer initialSessionPointerState actions"
  have s: "distinct (session_order s)"
    unfolding s_def by (rule session_tabs.run_invar) (simp add: initialSessionPointerState_def)
  note t = registerEffect_order [OF s, of c]
  have "distinct (session_order (registerEffect c s))"
    unfolding t using s by (auto simp: distinct_dedupe_from set_dedupe_from)
  moreover have "set (unregisteredInstanceIds c []) \<subseteq> set (session_order (registerEffect c s))"
    unfolding t by (auto simp: set_dedupe_from unregisteredInstanceIds_def)
  moreover from this have "unregisteredInstanceIds c (session_order (registerEffect c s)) = []"
    by (auto simp: unregisteredInstanceIds_def filter_empty_conv subset_iff)
  ultimately show ?thesis
    unfolding s_def [symmetric] Let_def using t by simp
qed

section \<open>Closing leaves no dangling pointer\<close>

definition pointer_open :: "string set \<Rightarrow> string option \<Rightarrow> bool" where
  "pointer_open ids p \<longleftrightarrow> (case truthy p of None \<Rightarrow> True | Some i \<Rightarrow> i \<in> ids)"

lemma pointer_open_simps [simp]:
  "pointer_open ids None"
  "i \<in> ids \<Longrightarrow> pointer_open ids (Some i)"
  by (simp_all add: pointer_open_def truthy_def)

lemma pointer_open_first: "pointer_open (f ` set xs) (map_option f (first_of xs))"
  by (cases xs) simp_all

lemma prefer_connection_mem: "prefer_connection c xs = Some r \<Longrightarrow> r \<in> set xs"
  by (auto simp: prefer_connection_def coalesce_eq_Some dest: find_SomeD first_of_SomeD)

lemma applyClose_pointers [simp]:
  "activeTabId (applyClose s d snapshot closing) = patched (patch_activeTabId (decision_patch d)) (activeTabId s)"
  "activeConnectionId (applyClose s d snapshot closing) =
     patched (patch_activeConnectionId (decision_patch d)) (activeConnectionId s)"
  "activeLocalTerminalTabId (applyClose s d snapshot closing) =
     patched (patch_activeLocalTerminalTabId (decision_patch d)) (activeLocalTerminalTabId s)"
  "activeRdpSessionId (applyClose s d snapshot closing) =
     patched (patch_activeRdpSessionId (decision_patch d)) (activeRdpSessionId s)"
  "activeVncSessionId (applyClose s d snapshot closing) =
     patched (patch_activeVncSessionId (decision_patch d)) (activeVncSessionId s)"
  "homeActive (applyClose s d snapshot closing) = patched (patch_homeActive (decision_patch d)) (homeActive s)"
  "session_mode (applyClose s d snapshot closing) = patched (patch_mode (decision_patch d)) (session_mode s)"
  "followUp (applyClose s d snapshot closing) = decision_followUp d"
  by (simp_all add: applyClose_def pruneOrder_def applyDecision_def applyPatch_def Let_def
      rememberActive_def split: option.splits prod.splits)

lemma patched_simps [simp]: "patched None v = v" "patched (Some w) v = w"
  by (simp_all add: patched_def)

lemma find_ref_id: "find (\<lambda>tab. ref_id tab = i) xs = None \<longleftrightarrow> i \<notin> ref_id ` set xs"
  by (auto simp: find_eq_None)

lemma close_terminals_pointer:
  assumes "pointer_open (ref_id ` set closing \<union> ref_id ` set (snap_terminalTabs snapshot)) (activeTabId s)"
  shows "pointer_open (ref_id ` set (snap_terminalTabs snapshot))
    (patched (patch_activeTabId (decision_patch (decideTerminalClose s closing snapshot))) (activeTabId s))"
proof (cases "\<exists>i r. truthy (activeTabId s) = Some i \<and> find (\<lambda>tab. ref_id tab = i) closing = Some r")
  case True
  then show ?thesis
    by (auto simp: decideTerminalClose_def Let_def split: option.splits
        dest!: prefer_connection_mem)
next
  case False
  then have "pointer_open (ref_id ` set (snap_terminalTabs snapshot)) (activeTabId s)"
    using assms by (auto simp: pointer_open_def find_ref_id split: option.splits)
  with False show ?thesis
    by (auto simp: decideTerminalClose_def Let_def HOME_PATCH_def emptyPatch_def split: option.splits)
qed


lemma close_connections_pointer:
  assumes "v = VariantDelete \<or> (\<exists>c. truthy (activeConnectionId s) = Some c \<and> c \<in> set closing)"
  shows "pointer_open (ref_id ` {r \<in> set (snap_terminalTabs snapshot). ref_connectionId r \<notin> set closing})
    (patched (patch_activeTabId (decision_patch (decideConnectionClose s closing snapshot v))) (activeTabId s))"
proof -
  let ?next = "filter (not_closing closing) (snap_terminalTabs snapshot)"
  have next_set: "set ?next = {r \<in> set (snap_terminalTabs snapshot). ref_connectionId r \<notin> set closing}"
    by (auto simp: not_closing_def)
  have kept: "pointer_open (ref_id ` set ?next) (activeTabId s)"
    if "\<exists>tab \<in> set ?next. Some (ref_id tab) = activeTabId s"
    using that by (metis image_eqI pointer_open_simps(2))
  show ?thesis
    unfolding next_set [symmetric] using assms kept pointer_open_first [of ref_id ?next]
    by (auto simp: decideConnectionClose_def Let_def HOME_PATCH_def emptyPatch_def
        split: option.splits close_variant.splits)
qed

lemma close_local_pointer:
  assumes "pointer_open (set closing \<union> set (snap_localTerminalTabs snapshot)) (activeLocalTerminalTabId s)"
  shows "pointer_open (set (snap_localTerminalTabs snapshot))
    (patched (patch_activeLocalTerminalTabId (decision_patch (decideLocalClose s closing snapshot)))
      (activeLocalTerminalTabId s))"
  using assms pointer_open_first [of id "snap_localTerminalTabs snapshot"]
  by (auto simp: decideLocalClose_def Let_def emptyPatch_def pointer_open_def
      split: option.splits)

definition remote_next :: "RemoteKind \<Rightarrow> SessionPointerState \<Rightarrow> CloseSnapshot \<Rightarrow> SessionRef option" where
  "remote_next k s snapshot =
     coalesce (case truthy (activeConnectionId s) of
         None \<Rightarrow> None | Some c \<Rightarrow> find (\<lambda>r. ref_connectionId r = c) (remote_sessions k snapshot))
       (first_of (remote_sessions k snapshot))"

lemma remote_next_mem: "remote_next k s snapshot = Some r \<Longrightarrow> r \<in> set (remote_sessions k snapshot)"
  by (auto simp: remote_next_def coalesce_eq_Some split: option.splits dest: find_SomeD first_of_SomeD)

definition remote_closed :: "RemoteKind \<Rightarrow> SessionPointerState \<Rightarrow> string list \<Rightarrow> bool" where
  "remote_closed k s closing \<longleftrightarrow>
     (case truthy (remote_active k s) of None \<Rightarrow> session_mode s = remote_mode k | Some i \<Rightarrow> i \<in> set closing)"

lemma decideRemoteDesktopRemove_patch:
  "decision_patch (decideRemoteDesktopRemove k s closing snapshot) =
     (if \<not> remote_closed k s closing then emptyPatch
      else case remote_next k s snapshot of
          Some r \<Rightarrow> (patch_remote k (Some (ref_id r)) emptyPatch)
            \<lparr>patch_activeConnectionId := Some (Some (ref_connectionId r)),
             patch_homeActive := Some False, patch_mode := Some (remote_mode k)\<rparr>
        | None \<Rightarrow> if decision_followUp (decideRemoteDesktopRemove k s closing snapshot) \<noteq> None
            then patch_remote k None emptyPatch else patch_remote k None RETURN_HOME_PATCH)"
  unfolding decideRemoteDesktopRemove_def Let_def remote_next_def [symmetric] remote_closed_def [symmetric]
  by (cases "remote_closed k s closing"; cases "remote_next k s snapshot") auto

lemma remove_remote_active:
  "remote_active k (applyClose s (decideRemoteDesktopRemove k s closing snapshot) snapshot None) =
     (if remote_closed k s closing then map_option ref_id (remote_next k s snapshot) else remote_active k s)"
  by (cases k; cases "remote_next k s snapshot")
    (simp_all add: decideRemoteDesktopRemove_patch emptyPatch_def)

lemma remove_remote_pointer:
  assumes "pointer_open (set closing \<union> ref_id ` set (remote_sessions k snapshot)) (remote_active k s)"
  shows "pointer_open (ref_id ` set (remote_sessions k snapshot))
    (remote_active k (applyClose s (decideRemoteDesktopRemove k s closing snapshot) snapshot None))"
proof (cases "remote_closed k s closing")
  case True
  then show ?thesis
    unfolding remove_remote_active by (cases "remote_next k s snapshot") (auto dest: remote_next_mem)
next
  case False
  then show ?thesis
    unfolding remove_remote_active using assms
    by (auto simp: pointer_open_def remote_closed_def split: option.splits)
qed

text \<open>
  C6. Closing sessions never leaves an active pointer on a closed one. A pointer that named an
  open or a closing session before names an open one (or nothing) afterwards: for closed
  terminals, local terminals, RDP and VNC sessions; deleting a connection repairs the terminal
  pointer whatever it was.
\<close>

theorem close_leaves_no_dangling_pointer:
  "(pointer_open (ref_id ` set closingTabs \<union> ref_id ` set (snap_terminalTabs snapshot)) (activeTabId s) \<longrightarrow>
      pointer_open (ref_id ` set (snap_terminalTabs snapshot))
        (activeTabId (sessionPointerReducer s (TabsCloseTerminals closingTabs snapshot)))) \<and>
   (pointer_open (set ids \<union> set (snap_localTerminalTabs snapshot)) (activeLocalTerminalTabId s) \<longrightarrow>
      pointer_open (set (snap_localTerminalTabs snapshot))
        (activeLocalTerminalTabId (sessionPointerReducer s (TabsCloseLocalTerminals ids snapshot)))) \<and>
   (pointer_open (set ids \<union> ref_id ` set (snap_rdpSessions snapshot)) (activeRdpSessionId s) \<longrightarrow>
      pointer_open (ref_id ` set (snap_rdpSessions snapshot))
        (activeRdpSessionId (sessionPointerReducer s (TabsRemoveRdp ids snapshot)))) \<and>
   (pointer_open (set ids \<union> ref_id ` set (snap_vncSessions snapshot)) (activeVncSessionId s) \<longrightarrow>
      pointer_open (ref_id ` set (snap_vncSessions snapshot))
        (activeVncSessionId (sessionPointerReducer s (TabsRemoveVnc ids snapshot)))) \<and>
   pointer_open (ref_id ` {r \<in> set (snap_terminalTabs snapshot). ref_connectionId r \<notin> set ids})
     (activeTabId (sessionPointerReducer s (TabsCloseConnections ids snapshot VariantDelete)))"
  using close_terminals_pointer [of closingTabs snapshot s] close_local_pointer [of ids snapshot s]
    remove_remote_pointer [of ids KindRdp snapshot s] remove_remote_pointer [of ids KindVnc snapshot s]
    close_connections_pointer [of VariantDelete s ids snapshot]
  by (simp add: decideRdpRemove_def decideVncRemove_def)

definition sample_close_snapshot :: CloseSnapshot where
  "sample_close_snapshot =
     \<lparr>snap_localTerminalTabs = [''l1''], snap_rdpSessions = [\<lparr>ref_connectionId = ''c2'', ref_id = ''r1''\<rparr>],
      snap_remoteFileTabs = [], snap_terminalTabs = [\<lparr>ref_connectionId = ''c1'', ref_id = ''t2''\<rparr>],
      snap_vncSessions = []\<rparr>"

definition sample_pointers :: SessionPointerState where
  "sample_pointers = initialSessionPointerState
     \<lparr>activeTabId := Some ''t1'', activeConnectionId := Some ''c1'', session_mode := ModeSsh\<rparr>"

theorem close_leaves_no_dangling_pointer_witness:
  "pointer_open {''t2''} (activeTabId (sessionPointerReducer sample_pointers
     (TabsCloseTerminals [\<lparr>ref_connectionId = ''c1'', ref_id = ''t1''\<rparr>] sample_close_snapshot)))"
  using close_leaves_no_dangling_pointer
    [of "[\<lparr>ref_connectionId = ''c1'', ref_id = ''t1''\<rparr>]" sample_close_snapshot sample_pointers "[]"]
  by (simp add: sample_close_snapshot_def sample_pointers_def del: sessionPointerReducer.simps)

text \<open>
  After every closing action the follow-up activation, if there is one, names a session
  that is still open (never one of a connection being closed), and the order table has kept,
  in place, exactly the instances that are still open.
\<close>

theorem close_follow_up_open:
  assumes "a = TabsCloseTerminals closingTabs snapshot \<and> closing = None \<or>
      a = TabsCloseConnections ids snapshot v \<and> closing = Some ids \<or>
      a = TabsCloseLocalTerminals ids snapshot \<and> closing = None \<or>
      a = TabsRemoveRdp ids snapshot \<and> closing = None \<or> a = TabsRemoveVnc ids snapshot \<and> closing = None"
  shows "(\<forall>f. followUp (sessionPointerReducer s a) = Some f \<longrightarrow>
       follow_open snapshot f \<and> (\<forall>c. follow_connection f = Some c \<longrightarrow> c \<notin> set (case closing of None \<Rightarrow> [] | Some cs \<Rightarrow> cs))) \<and>
    session_order (sessionPointerReducer s a) =
      filter (\<lambda>i. i \<in> set (liveInstanceIds snapshot closing)) (session_order s)"
  using assms terminal_follow_open [of s closingTabs snapshot] connection_follow_open [of s ids snapshot v]
    local_follow_open [of s ids snapshot] remote_follow_open [of _ s ids snapshot]
  by (elim disjE) (simp_all add: decideRdpRemove_def decideVncRemove_def)

theorem close_follow_up_open_witness:
  "session_order (sessionPointerReducer (sample_pointers\<lparr>session_order := [''rdp:r1'', ''ssh:t1'', ''ssh:t2'']\<rparr>)
     (TabsCloseTerminals [\<lparr>ref_connectionId = ''c1'', ref_id = ''t1''\<rparr>] sample_close_snapshot)) =
   [''rdp:r1'', ''ssh:t2'']"
  using close_follow_up_open [of "TabsCloseTerminals [\<lparr>ref_connectionId = ''c1'', ref_id = ''t1''\<rparr>] sample_close_snapshot"
      "[\<lparr>ref_connectionId = ''c1'', ref_id = ''t1''\<rparr>]" sample_close_snapshot None "[]" VariantDelete
      "sample_pointers\<lparr>session_order := [''rdp:r1'', ''ssh:t1'', ''ssh:t2'']\<rparr>"]
  by (simp add: liveInstanceIds_def collectionIds_def instanceItemId_def sample_close_snapshot_def
      del: sessionPointerReducer.simps)

section \<open>Memory tables and selectors\<close>

definition unified_open :: "SessionRef list \<Rightarrow> SessionRef list \<Rightarrow> string \<Rightarrow> UnifiedWorkbenchTab \<Rightarrow> bool" where
  "unified_open fileTabs terminalTabs c tab \<longleftrightarrow>
     \<lparr>ref_connectionId = c, ref_id = unified_id tab\<rparr> \<in>
       set (case unified_kind tab of WorkbenchTerminal \<Rightarrow> terminalTabs | WorkbenchFile \<Rightarrow> fileTabs)"

lemma find_ref_iff:
  "find (\<lambda>r. ref_connectionId r = c \<and> ref_id r = i) xs = None \<longleftrightarrow>
     \<lparr>ref_connectionId = c, ref_id = i\<rparr> \<notin> set xs"
proof (induction xs)
  case (Cons r xs)
  then show ?case
    by (cases r) auto
qed simp

lemma normalizeUnifiedTab_cases:
  "unified_open fs ts c tab \<Longrightarrow> normalizeUnifiedTab fs ts c tab = Some tab"
  "normalizeUnifiedTab fs ts c tab = Some tab' \<Longrightarrow> unified_open fs ts c tab'"
  "normalizeUnifiedTab fs ts c tab = None \<Longrightarrow> c \<notin> ref_connectionId ` set fs \<union> ref_connectionId ` set ts"
proof -
  note defs = normalizeUnifiedTab_def Let_def find_ref_iff
  show "unified_open fs ts c tab \<Longrightarrow> normalizeUnifiedTab fs ts c tab = Some tab"
    by (cases "unified_kind tab") (simp_all add: unified_open_def defs)
  have mem: "find (\<lambda>r. ref_connectionId r = c) xs = Some r \<Longrightarrow>
      \<lparr>ref_connectionId = c, ref_id = ref_id r\<rparr> \<in> set xs" for xs and r :: SessionRef
    by (cases r) (auto dest: find_SomeD)
  have mem2: "find (\<lambda>r. ref_connectionId r = c \<and> ref_id r = i) xs = Some r \<Longrightarrow>
      \<lparr>ref_connectionId = c, ref_id = i\<rparr> \<in> set xs" for xs i and r :: SessionRef
    by (cases r) (auto dest: find_SomeD)
  show "unified_open fs ts c tab'" if "normalizeUnifiedTab fs ts c tab = Some tab'"
    using that by (auto simp: unified_open_def defs dest: mem mem2 split: if_splits option.splits)
  show "c \<notin> ref_connectionId ` set fs \<union> ref_connectionId ` set ts" if "normalizeUnifiedTab fs ts c tab = None"
    using that by (auto simp: defs find_eq_None split: if_splits option.splits)
qed

text \<open>
  After the collections of terminals and files have been announced, every remembered
  workbench tab is open in its connection; a memory that was still valid is kept, one whose
  connection still has tabs falls back (to a file first), one whose connection has none is
  dropped; and announcing the same collections again changes nothing.
\<close>

theorem normalizeUnified_sound:
  "let t = sessionPointerReducer s (TabsNormalizeUnified fs ts) in
   (\<forall>c tab. activeUnifiedTabByConnectionId t c = Some tab \<longrightarrow> unified_open fs ts c tab) \<and>
   (\<forall>c tab. activeUnifiedTabByConnectionId s c = Some tab \<and> unified_open fs ts c tab \<longrightarrow>
      activeUnifiedTabByConnectionId t c = Some tab) \<and>
   dom (activeUnifiedTabByConnectionId t) = dom (activeUnifiedTabByConnectionId s) \<inter>
     (ref_connectionId ` set fs \<union> ref_connectionId ` set ts) \<and>
   sessionPointerReducer t (TabsNormalizeUnified fs ts) = t"
proof -
  let ?f = "normalizeUnifiedTab fs ts"
  define m where "m = activeUnifiedTabByConnectionId s"
  define m' where "m' = (\<lambda>c. Option.bind (m c) (?f c))"
  have sound: "unified_open fs ts c tab" if "m' c = Some tab" for c tab
    using that by (auto simp: m'_def bind_eq_Some_conv intro: normalizeUnifiedTab_cases(2))
  have conn: "c \<in> ref_connectionId ` set fs \<union> ref_connectionId ` set ts" if "unified_open fs ts c tab" for c tab
    using that by (cases "unified_kind tab") (force simp: unified_open_def)+
  have "dom m' = dom m \<inter> (ref_connectionId ` set fs \<union> ref_connectionId ` set ts)"
    using sound conn normalizeUnifiedTab_cases(3) by (fastforce simp: m'_def dom_def bind_eq_Some_conv)
  moreover have "(\<lambda>c. Option.bind (m' c) (?f c)) = m'"
  proof
    show "Option.bind (m' c) (?f c) = m' c" for c
      using sound by (cases "m' c") (simp_all add: normalizeUnifiedTab_cases(1))
  qed
  moreover have "m' c = Some tab" if "m c = Some tab" "unified_open fs ts c tab" for c tab
    using that by (simp add: m'_def normalizeUnifiedTab_cases(1))
  ultimately show ?thesis
    using sound by (simp add: Let_def m'_def [symmetric] m_def [symmetric])
qed

theorem normalizeUnified_sound_witness:
  "activeUnifiedTabByConnectionId (sessionPointerReducer
     (rememberUnified initialSessionPointerState ''c1'' \<lparr>unified_id = ''t1'', unified_kind = WorkbenchTerminal\<rparr>)
     (TabsNormalizeUnified [\<lparr>ref_connectionId = ''c1'', ref_id = ''f1''\<rparr>]
       [\<lparr>ref_connectionId = ''c1'', ref_id = ''t1''\<rparr>])) ''c1'' =
   Some \<lparr>unified_id = ''t1'', unified_kind = WorkbenchTerminal\<rparr>"
  using normalizeUnified_sound
    [of "rememberUnified initialSessionPointerState ''c1'' \<lparr>unified_id = ''t1'', unified_kind = WorkbenchTerminal\<rparr>"
      "[\<lparr>ref_connectionId = ''c1'', ref_id = ''f1''\<rparr>]" "[\<lparr>ref_connectionId = ''c1'', ref_id = ''t1''\<rparr>]"]
  unfolding Let_def
  by (elim conjE) (drule spec [of _ "''c1''"], simp add: rememberUnified_def unified_open_def)

lemma groupByConnection_lookup_gen:
  "map_of (foldl (\<lambda>groups item. map_set (ref_connectionId item)
       ((case map_of groups (ref_connectionId item) of None \<Rightarrow> [] | Some g \<Rightarrow> g) @ [item]) groups) m items) c =
   (let own = filter (\<lambda>r. ref_connectionId r = c) items in
    if own = [] then map_of m c else Some ((case map_of m c of None \<Rightarrow> [] | Some g \<Rightarrow> g) @ own))"
proof (induction items arbitrary: m)
  case (Cons r items)
  then show ?case
    by (cases "ref_connectionId r = c") (simp_all add: Let_def)
qed simp

lemma groupByConnection_lookup:
  "map_of (groupByConnection items) c =
   (let own = filter (\<lambda>r. ref_connectionId r = c) items in if own = [] then None else Some own)"
  unfolding groupByConnection_def groupByConnection_lookup_gen by (simp add: Let_def)

lemma filter_first_find: "first_of (filter P xs) = find P xs"
  by (induction xs) auto

text \<open>
  The active desktop session is an open session of the active connection: the one the
  pointer names if it belongs to that connection, else the first open one of the connection;
  there is none only if the connection has none.
\<close>

theorem selectActiveSession_exact:
  assumes "truthy conn = Some c"
  shows "selectActiveSession sessions (groupByConnection sessions) active conn =
    coalesce (Option.bind (truthy active) (\<lambda>i. find (\<lambda>r. ref_id r = i \<and> ref_connectionId r = c) sessions))
      (find (\<lambda>r. ref_connectionId r = c) sessions)"
proof -
  have "conn = Some c"
    using assms by (simp add: truthy_eq_Some)
  moreover have "Option.bind (map_of (groupByConnection sessions) c) first_of =
      find (\<lambda>r. ref_connectionId r = c) sessions"
    unfolding groupByConnection_lookup filter_first_find [symmetric] by (simp add: Let_def)
  ultimately show ?thesis
    using assms by (simp add: selectActiveSession_def Let_def split: option.splits)
qed

theorem selectActiveSession_exact_witness:
  "selectActiveSession (snap_rdpSessions sample_close_snapshot)
     (groupByConnection (snap_rdpSessions sample_close_snapshot)) (Some ''gone'') (Some ''c2'') =
   Some \<lparr>ref_connectionId = ''c2'', ref_id = ''r1''\<rparr>"
  using selectActiveSession_exact [of "Some ''c2''" "''c2''" "snap_rdpSessions sample_close_snapshot" "Some ''gone''"]
  by (simp add: sample_close_snapshot_def)

end
