(* ===== verification/Split_Controller.thy ===== *)
theory Split_Controller
  imports Session_Reducer
begin

text \<open>
  The split controller (\<open>features/workspace/split/useTerminalSplitController.ts\<close>) and the
  handlers of the workspace shell that drive it (\<open>features/layout/WorkspaceShell.tsx\<close>,
  \<open>terminalSplitHostForBinding\<close> to \<open>updateTerminalSplitRatio\<close>): the two reducers, the id
  and picker counters, the normalisation effects, and the user's operations on the split.

  The state holds the two reducer states, the pointers the handlers dispatch to, and the refs.
  A handler runs on a rendered state, so the values it closes over are those of the state.
  Opening a further terminal of the same session (\<open>createSameSessionTerminalBinding\<close>) is
  outside this component: its result, the binding or nothing, is an argument.
\<close>

section \<open>State\<close>

record split_tab =
  stab_connectionId :: string
  stab_id :: string
  stab_sessionId :: "string option"
  stab_status :: string

record TerminalSplitControllerInputs =
  in_activeTerminalSplitBinding :: "TerminalPaneBinding option"
  in_localTerminalTabs :: "split_tab list"
  in_terminalTabs :: "split_tab list"

record SplitController =
  ctl_split :: SplitState
  ctl_multiExec :: MultiExecState
  ctl_tabs :: SessionPointerState
  ctl_id :: nat
  ctl_pickerRequest :: nat
  ctl_pickerPendingPane :: "string option"

definition initialSplitController :: SplitController where
  "initialSplitController =
     \<lparr>ctl_split = initialSplitState, ctl_multiExec = initialMultiExecState,
      ctl_tabs = initialSessionPointerState\<lparr>homeActive := True\<rparr>, ctl_id = 0,
      ctl_pickerRequest = 0, ctl_pickerPendingPane = None\<rparr>"

definition dispatchSplit :: "SplitAction \<Rightarrow> SplitController \<Rightarrow> SplitController" where
  "dispatchSplit a c = c\<lparr>ctl_split := splitReducer (ctl_split c) a\<rparr>"

definition dispatchMultiExec :: "MultiExecAction \<Rightarrow> SplitController \<Rightarrow> SplitController" where
  "dispatchMultiExec a c = c\<lparr>ctl_multiExec := multiExecReducer (ctl_multiExec c) a\<rparr>"

definition dispatchTabs :: "SessionTabsAction \<Rightarrow> SplitController \<Rightarrow> SplitController" where
  "dispatchTabs a c = c\<lparr>ctl_tabs := sessionPointerReducer (ctl_tabs c) a\<rparr>"

section \<open>Ids\<close>

definition nextTerminalSplitId :: "string \<Rightarrow> SplitController \<Rightarrow> string \<times> SplitController" where
  "nextTerminalSplitId pre c =
     (let c = c\<lparr>ctl_id := ctl_id c + 1\<rparr> in (pre @ ''-'' @ nat_str (ctl_id c), c))"

definition pane_name :: "nat \<Rightarrow> string" where
  "pane_name n = ''terminal-pane'' @ ''-'' @ nat_str n"

definition split_name :: "nat \<Rightarrow> string" where
  "split_name n = ''terminal-split'' @ ''-'' @ nat_str n"

definition four_pane_ids_from :: "nat \<Rightarrow> FourPaneIds" where
  "four_pane_ids_from n =
     \<lparr>ids_bottomLeft = pane_name (n + 1), ids_bottomRight = pane_name (n + 2),
      ids_leftSplit = split_name (n + 3), ids_rightSplit = split_name (n + 4),
      ids_root = split_name (n + 5), ids_topLeft = pane_name (n + 6), ids_topRight = pane_name (n + 7)\<rparr>"

definition allocateFourPaneIds :: "SplitController \<Rightarrow> FourPaneIds \<times> SplitController" where
  "allocateFourPaneIds c =
     (let (bottomLeft, c) = nextTerminalSplitId ''terminal-pane'' c;
          (bottomRight, c) = nextTerminalSplitId ''terminal-pane'' c;
          (leftSplit, c) = nextTerminalSplitId ''terminal-split'' c;
          (rightSplit, c) = nextTerminalSplitId ''terminal-split'' c;
          (root, c) = nextTerminalSplitId ''terminal-split'' c;
          (topLeft, c) = nextTerminalSplitId ''terminal-pane'' c;
          (topRight, c) = nextTerminalSplitId ''terminal-pane'' c
      in (\<lparr>ids_bottomLeft = bottomLeft, ids_bottomRight = bottomRight, ids_leftSplit = leftSplit,
           ids_rightSplit = rightSplit, ids_root = root, ids_topLeft = topLeft, ids_topRight = topRight\<rparr>, c))"

section \<open>Derived values\<close>

definition ctl_panes :: "SplitController \<Rightarrow> TerminalSplitPane list" where
  "ctl_panes c = selectSplitPanes (split_layout (ctl_split c))"

definition focusedTerminalSplitPane :: "SplitController \<Rightarrow> TerminalSplitPane option" where
  "focusedTerminalSplitPane c =
     (case truthy (focusedPaneId (ctl_split c)) of
        None \<Rightarrow> None | Some f \<Rightarrow> find (\<lambda>pane. pane_id pane = f) (ctl_panes c))"

text \<open>The two status texts under which a terminal has a live session, in UTF-8.\<close>

definition status_connected :: string where
  "status_connected = map char_of [0xE5, 0xB7, 0xB2, 0xE8, 0xBF, 0x9E, 0xE6, 0x8E, 0xA5 :: nat]"

definition status_preview :: string where
  "status_preview = map char_of [0xE9, 0xA2, 0x84, 0xE8, 0xA7, 0x88 :: nat]"

fun find_binding_tab :: "TerminalSplitControllerInputs \<Rightarrow> TerminalPaneBinding \<Rightarrow> split_tab option" where
  "find_binding_tab inputs (SshBinding t) = find (\<lambda>tab. stab_id tab = t) (in_terminalTabs inputs)"
| "find_binding_tab inputs (LocalBinding t) = find (\<lambda>tab. stab_id tab = t) (in_localTerminalTabs inputs)"

definition terminalSessionIdForBinding ::
  "TerminalSplitControllerInputs \<Rightarrow> TerminalPaneBinding \<Rightarrow> string option" where
  "terminalSessionIdForBinding inputs b =
     (case find_binding_tab inputs b of
        None \<Rightarrow> None
      | Some tab \<Rightarrow>
          (case truthy (stab_sessionId tab) of
             None \<Rightarrow> None
           | Some session \<Rightarrow>
               if stab_status tab \<noteq> status_connected \<and> stab_status tab \<noteq> status_preview
               then None else Some session))"

definition fallbackTerminalSplitBinding :: "TerminalSplitControllerInputs \<Rightarrow> TerminalPaneBinding option" where
  "fallbackTerminalSplitBinding inputs =
     (case in_activeTerminalSplitBinding inputs of
        Some b \<Rightarrow> Some b
      | None \<Rightarrow>
          (case in_terminalTabs inputs of
             tab # _ \<Rightarrow> Some (SshBinding (stab_id tab))
           | [] \<Rightarrow> (case in_localTerminalTabs inputs of
               tab # _ \<Rightarrow> Some (LocalBinding (stab_id tab)) | [] \<Rightarrow> None)))"

definition availableBindingKeys :: "TerminalSplitControllerInputs \<Rightarrow> string list" where
  "availableBindingKeys inputs =
     dedupe (map (\<lambda>tab. terminalPaneBindingKey (SshBinding (stab_id tab))) (in_terminalTabs inputs) @
       map (\<lambda>tab. terminalPaneBindingKey (LocalBinding (stab_id tab))) (in_localTerminalTabs inputs))"

text \<open>
  The keys of the connected terminals. The source sorts and joins them to a string, so that the
  effect fires only when they change, and splits it again into a set.
\<close>

definition connectedKeys :: "TerminalSplitControllerInputs \<Rightarrow> string list" where
  "connectedKeys inputs =
     dedupe (map terminalPaneBindingKey (filter (\<lambda>b. terminalSessionIdForBinding inputs b \<noteq> None)
       (map (\<lambda>tab. SshBinding (stab_id tab)) (in_terminalTabs inputs) @
        map (\<lambda>tab. LocalBinding (stab_id tab)) (in_localTerminalTabs inputs))))"

section \<open>Effects\<close>

text \<open>
  The reducer draws ids only when it rebuilds a layout above the limit; the counter moves
  exactly then.
\<close>

definition rebuild_needed :: "SplitState \<Rightarrow> string list \<Rightarrow> TerminalPaneBinding option \<Rightarrow> bool" where
  "rebuild_needed s available fallback =
     (case split_layout s of
        None \<Rightarrow> False
      | Some n \<Rightarrow>
          (case removeTerminalSplitBindings n (unavailableKeys n available) of
             None \<Rightarrow> False
           | Some m \<Rightarrow>
               (let panes = collectTerminalSplitPanes m
                in length panes > terminalSplitMaxPanes \<and>
                   overLimitBinding panes (refocusPane (focusedPaneId s) panes) fallback \<noteq> None)))"

definition normaliseEffect :: "TerminalSplitControllerInputs \<Rightarrow> SplitController \<Rightarrow> SplitController" where
  "normaliseEffect inputs c =
     (if split_layout (ctl_split c) = None then c
      else
        (let available = availableBindingKeys inputs;
             fallback = fallbackTerminalSplitBinding inputs;
             (ids, c') = allocateFourPaneIds c;
             c' = (if rebuild_needed (ctl_split c) available fallback then c' else c)
         in dispatchSplit (SplitAvailableBindingsChanged available fallback ids) c'))"

text \<open>The collapse effect; what is handed to \<open>onCollapseToStandalone\<close> is returned.\<close>

definition collapseEffect :: "SplitController \<Rightarrow> SplitController \<times> TerminalPaneBinding list" where
  "collapseEffect c =
     (case collapsedTo (ctl_split c) of
        None \<Rightarrow> (c, [])
      | Some b \<Rightarrow> ((dispatchSplit SplitCollapseHandled c)\<lparr>ctl_pickerPendingPane := None\<rparr>, [b]))"

definition targetsEffect :: "TerminalSplitControllerInputs \<Rightarrow> SplitController \<Rightarrow> SplitController" where
  "targetsEffect inputs c =
     dispatchMultiExec (MultiExecTargetsAvailable (connectedKeys inputs) None None) c"

section \<open>Handlers\<close>

definition terminalSplitHostForBinding ::
  "TerminalSplitControllerInputs \<Rightarrow> TerminalPaneBinding \<Rightarrow> TerminalSplitHost option" where
  "terminalSplitHostForBinding inputs b = (if find_binding_tab inputs b = None then None else Some b)"

definition activateTerminalSplitHost ::
  "TerminalSplitControllerInputs \<Rightarrow> TerminalSplitHost option \<Rightarrow> SplitController \<Rightarrow> SplitController" where
  "activateTerminalSplitHost inputs host c =
     (case host of
        None \<Rightarrow> c
      | Some h \<Rightarrow>
          (case find_binding_tab inputs h of
             None \<Rightarrow> c
           | Some tab \<Rightarrow>
               (case h of
                  SshBinding t \<Rightarrow> dispatchTabs (TabsActivateSplitHost (HostSsh (stab_connectionId tab))) c
                | LocalBinding t \<Rightarrow> dispatchTabs (TabsActivateSplitHost HostLocal) c)))"

definition requestTerminalSplitPicker :: "string \<Rightarrow> bool \<Rightarrow> SplitController \<Rightarrow> SplitController" where
  "requestTerminalSplitPicker paneId removeOnCancel c =
     (let c = c\<lparr>ctl_pickerRequest := ctl_pickerRequest c + 1,
            ctl_pickerPendingPane := (if removeOnCancel then Some paneId else None)\<rparr>
      in dispatchSplit (SplitSetPicker (Some \<lparr>picker_key = ctl_pickerRequest c, picker_paneId = paneId\<rparr>)) c)"

definition focusTerminalSplitPane ::
  "TerminalSplitControllerInputs \<Rightarrow> string \<Rightarrow> SplitController \<Rightarrow> SplitController" where
  "focusTerminalSplitPane inputs paneId c =
     (case find (\<lambda>pane. pane_id pane = paneId) (ctl_panes c) of
        None \<Rightarrow> c
      | Some pane \<Rightarrow>
          (let c = dispatchSplit (SplitFocusPane (Some (pane_id pane))) c in
           case pane_binding pane of
             None \<Rightarrow> c
           | Some b \<Rightarrow> if find_binding_tab inputs b = None then c
               else dispatchTabs (TabsFocusPaneBinding b) c))"

definition activateTerminalSplitTab ::
  "TerminalSplitControllerInputs \<Rightarrow> string option \<Rightarrow> SplitController \<Rightarrow> SplitController" where
  "activateTerminalSplitTab inputs paneId c =
     (if split_layout (ctl_split c) = None \<or> split_host (ctl_split c) = None then c
      else
        (let nextPane = coalesce (case truthy paneId of None \<Rightarrow> None
                 | Some p \<Rightarrow> find (\<lambda>pane. pane_id pane = p) (ctl_panes c))
               (coalesce (focusedTerminalSplitPane c) (first_of (ctl_panes c)));
             host = split_host (ctl_split c);
             c = dispatchSplit (SplitSetTabActive True) c;
             c = dispatchMultiExec (MultiExecSetError None) c;
             c = activateTerminalSplitHost inputs host c
         in case nextPane of None \<Rightarrow> c | Some pane \<Rightarrow> focusTerminalSplitPane inputs (pane_id pane) c))"

definition swap_binding :: "string \<Rightarrow> TerminalPaneBinding \<Rightarrow> TerminalSplitNode \<Rightarrow> TerminalSplitNode" where
  "swap_binding paneId b layout =
     (let previousPane = findTerminalSplitPaneByBinding layout b;
          targetPane = find (\<lambda>pane. pane_id pane = paneId) (collectTerminalSplitPanes layout);
          nextLayout = moveTerminalSplitBinding layout paneId b
      in case previousPane of
           None \<Rightarrow> nextLayout
         | Some previous \<Rightarrow>
             if pane_id previous = paneId then nextLayout
             else (case Option.bind targetPane pane_binding of
                 None \<Rightarrow> nextLayout
               | Some other \<Rightarrow> if terminalPaneBindingsEqual (Some other) (Some b) then nextLayout
                   else moveTerminalSplitBinding nextLayout (pane_id previous) other))"

definition assignTerminalSplitBinding ::
  "string \<Rightarrow> TerminalPaneBinding \<Rightarrow> SplitController \<Rightarrow> SplitController" where
  "assignTerminalSplitBinding paneId b c =
     (let c = dispatchSplit (SplitSetLayout (LayoutUpdater (map_option (swap_binding paneId b)))) c;
          c = dispatchSplit (SplitFocusPane (Some paneId)) c;
          c = c\<lparr>ctl_pickerPendingPane := None\<rparr>
      in dispatchSplit (SplitSetPicker None) c)"

text \<open>
  Splitting: \<open>sameSession\<close> is what \<open>createSameSessionTerminalBinding\<close> would return. In an
  existing layout the id of the new branch is drawn by the layout update, after the pane's.
\<close>

definition startTerminalSplitForBinding ::
  "TerminalSplitControllerInputs \<Rightarrow> TerminalPaneBinding \<Rightarrow> split_direction \<Rightarrow> TerminalPaneBinding option
    \<Rightarrow> SplitController \<Rightarrow> SplitController" where
  "startTerminalSplitForBinding inputs b direction sameSession c =
     (case split_layout (ctl_split c) of
        None \<Rightarrow>
          (case terminalSplitHostForBinding inputs b of
             None \<Rightarrow> c
           | Some host \<Rightarrow>
               (let (firstPaneId, c) = nextTerminalSplitId ''terminal-pane'' c;
                    (nextPaneId, c) = nextTerminalSplitId ''terminal-pane'' c;
                    nextBinding = (if autoCreateSameSession (ctl_split c) then sameSession else None);
                    (splitId, c) = nextTerminalSplitId ''terminal-split'' c;
                    nextLayout = splitTerminalPane (createTerminalSplitLayout firstPaneId b) firstPaneId
                      direction splitId nextPaneId nextBinding;
                    c = dispatchSplit (SplitSetHost (Some host)) c;
                    c = dispatchSplit (SplitSetTabActive True) c;
                    c = dispatchSplit (SplitSetLayout (LayoutValue (Some nextLayout))) c;
                    c = dispatchSplit (SplitFocusPane (Some nextPaneId)) c;
                    c = activateTerminalSplitHost inputs (Some host) c
                in if nextBinding = None then requestTerminalSplitPicker nextPaneId True c else c))
      | Some layout \<Rightarrow>
          if \<not> selectCanAddPane (ctl_panes c) then c
          else
            (let boundPane = findTerminalSplitPaneByBinding layout b;
                 paneId = coalesce (truthy (map_option pane_id boundPane))
                   (coalesce (truthy (focusedPaneId (ctl_split c)))
                     (map_option pane_id (first_of (ctl_panes c))))
             in case truthy paneId of
                  None \<Rightarrow> c
                | Some p \<Rightarrow>
                    (let host = split_host (ctl_split c);
                         (nextPaneId, c) = nextTerminalSplitId ''terminal-pane'' c;
                         nextBinding = (if boundPane \<noteq> None
                           then (if autoCreateSameSession (ctl_split c) then sameSession else None)
                           else Some b);
                         (splitId, c) = nextTerminalSplitId ''terminal-split'' c;
                         c = dispatchSplit (SplitSetLayout (LayoutUpdater (map_option (\<lambda>layout.
                           splitTerminalPane layout p direction splitId nextPaneId nextBinding)))) c;
                         c = dispatchSplit (SplitSetTabActive True) c;
                         c = activateTerminalSplitHost inputs host c;
                         c = dispatchSplit (SplitFocusPane (Some nextPaneId)) c
                     in if nextBinding = None then requestTerminalSplitPicker nextPaneId True c else c)))"

text \<open>
  The four-pane layout. \<open>created\<close> lists what the successive calls of
  \<open>createSameSessionTerminalBinding\<close> return; the loop stops at the limit or at the first
  call that returns nothing.
\<close>

fun fill_bindings :: "TerminalPaneBinding list \<Rightarrow> TerminalPaneBinding option list \<Rightarrow> TerminalPaneBinding list" where
  "fill_bindings bindings [] = bindings"
| "fill_bindings bindings (None # created) = bindings"
| "fill_bindings bindings (Some b # created) =
     (if length bindings < terminalSplitMaxPanes then fill_bindings (bindings @ [b]) created else bindings)"

definition startTerminalFourPaneForBinding ::
  "TerminalSplitControllerInputs \<Rightarrow> TerminalPaneBinding \<Rightarrow> TerminalPaneBinding option list
    \<Rightarrow> SplitController \<Rightarrow> SplitController" where
  "startTerminalFourPaneForBinding inputs b created c =
     (let hadHost = split_host (ctl_split c);
          host = coalesce hadHost (terminalSplitHostForBinding inputs b)
      in case host of
           None \<Rightarrow> c
         | Some h \<Rightarrow>
             (let currentBindings = List.map_filter pane_binding (ctl_panes c);
                  bindings = (if currentBindings \<noteq> [] then currentBindings else [b]);
                  bindings = (if (\<exists>candidate \<in> set bindings. terminalPaneBindingsEqual (Some candidate) (Some b))
                    then bindings else bindings @ [b]);
                  bindings = (if autoCreateSameSession (ctl_split c) then fill_bindings bindings created else bindings);
                  (ids, c) = allocateFourPaneIds c;
                  four = createFourPane (take terminalSplitMaxPanes bindings) ids;
                  c = (if hadHost = None then dispatchSplit (SplitSetHost (Some h)) c else c);
                  c = dispatchSplit (SplitSetTabActive True) c;
                  c = dispatchSplit (SplitSetLayout (LayoutValue (Some (four_layout four)))) c;
                  c = dispatchSplit (SplitFocusPane (Some (four_focusedPaneId four))) c;
                  c = activateTerminalSplitHost inputs (Some h) c
              in case four_emptyPaneId four of
                   None \<Rightarrow> c | Some p \<Rightarrow> requestTerminalSplitPicker p False c))"

definition resetTerminalSplitState :: "SplitController \<Rightarrow> SplitController" where
  "resetTerminalSplitState c =
     (let c = dispatchSplit (SplitSetLayout (LayoutValue None)) c;
          c = dispatchSplit (SplitSetHost None) c;
          c = dispatchSplit (SplitSetTabActive False) c;
          c = dispatchSplit (SplitFocusPane None) c;
          c = dispatchSplit (SplitSetPicker None) c;
          c = c\<lparr>ctl_pickerPendingPane := None\<rparr>;
          c = dispatchMultiExec (MultiExecSetMode ModeOff) c
      in dispatchMultiExec (MultiExecSetError None) c)"

definition removeTerminalSplitPaneLayout :: "string \<Rightarrow> SplitController \<Rightarrow> SplitController" where
  "removeTerminalSplitPaneLayout paneId c =
     (case split_layout (ctl_split c) of
        None \<Rightarrow> c
      | Some layout \<Rightarrow>
          (case closeTerminalSplitPane layout paneId of
             None \<Rightarrow> resetTerminalSplitState c
           | Some nextLayout \<Rightarrow>
               (let nextPanes = collectTerminalSplitPanes nextLayout;
                    nextFocusedPane = coalesce
                      (find (\<lambda>pane. Some (pane_id pane) = focusedPaneId (ctl_split c)) nextPanes)
                      (first_of nextPanes);
                    c = dispatchSplit (SplitSetLayout (LayoutValue (Some nextLayout))) c
                in dispatchSplit (SplitFocusPane (truthy (map_option pane_id nextFocusedPane))) c)))"

definition closeTerminalSplitEmptyPane :: "string \<Rightarrow> SplitController \<Rightarrow> SplitController" where
  "closeTerminalSplitEmptyPane paneId c =
     (let panes = ctl_panes c;
          focused = focusedPaneId (ctl_split c);
          c = dispatchSplit (SplitSetLayout (LayoutUpdater (\<lambda>layout.
            case layout of None \<Rightarrow> None | Some l \<Rightarrow> closeTerminalSplitPane l paneId))) c
      in if focused = Some paneId
         then dispatchSplit (SplitFocusPane (truthy (map_option pane_id
           (find (\<lambda>pane. pane_id pane \<noteq> paneId) panes)))) c
         else c)"

definition handleTerminalSplitPickerOpenChange :: "string \<Rightarrow> bool \<Rightarrow> SplitController \<Rightarrow> SplitController" where
  "handleTerminalSplitPickerOpenChange paneId opened c =
     (if opened \<or> ctl_pickerPendingPane c \<noteq> Some paneId then c
      else closeTerminalSplitEmptyPane paneId
        (dispatchSplit (SplitSetPicker None) (c\<lparr>ctl_pickerPendingPane := None\<rparr>)))"

definition equalizeTerminalSplitPanes :: "SplitController \<Rightarrow> SplitController" where
  "equalizeTerminalSplitPanes c =
     dispatchSplit SplitBumpRevision
       (dispatchSplit (SplitSetLayout (LayoutUpdater (map_option equalizeTerminalSplitLayout))) c)"

definition updateSplitRatio :: "string \<Rightarrow> rat \<Rightarrow> SplitController \<Rightarrow> SplitController" where
  "updateSplitRatio splitId ratio c =
     dispatchSplit (SplitSetLayout (LayoutUpdater (map_option (\<lambda>l. updateTerminalSplitRatio l splitId ratio)))) c"

definition setTerminalSplitSyncState :: "string \<Rightarrow> bool \<Rightarrow> SplitController \<Rightarrow> SplitController" where
  "setTerminalSplitSyncState chooseTarget enabled c =
     (let c = dispatchMultiExec (MultiExecSetError None) c in
      if \<not> enabled then dispatchMultiExec (MultiExecSetMode ModeOff) c
      else if me_targets (ctl_multiExec c) = [] then
        dispatchMultiExec (MultiExecSetError (Some chooseTarget))
          (dispatchMultiExec (MultiExecSetMode ModeOff) c)
      else dispatchMultiExec (MultiExecSetMode ModeLive) c)"

definition setTerminalSplitSyncParticipant :: "string \<Rightarrow> bool \<Rightarrow> SplitController \<Rightarrow> SplitController" where
  "setTerminalSplitSyncParticipant key participant c =
     dispatchMultiExec (MultiExecSetError None)
       (dispatchMultiExec (MultiExecSetTargets (TargetsUpdater (\<lambda>current.
          if participant then (if key \<in> set current then current else current @ [key])
          else filter (\<lambda>k. k \<noteq> key) current))) c)"

text \<open>
  \<open>restoreWorkspaceShell\<close> puts the layout of the saved workspace back with its pane ids
  (lines 4417 and 4418 of the shell), while the id counter of the new run starts at zero.
\<close>

definition restoreSplit ::
  "TerminalSplitNode option \<Rightarrow> TerminalSplitHost option \<Rightarrow> string option \<Rightarrow> bool \<Rightarrow> SplitController \<Rightarrow> SplitController" where
  "restoreSplit layout host focused active c =
     (let c = dispatchSplit (SplitSetLayout (LayoutValue layout)) c;
          c = dispatchSplit (SplitSetHost host) c;
          c = dispatchSplit (SplitFocusPane focused) c;
          c = dispatchSplit (SplitSetTabActive (active \<and> layout \<noteq> None)) c;
          c = dispatchMultiExec (MultiExecSetMode ModeOff) c;
          c = dispatchMultiExec (MultiExecSetTargets (TargetsValue [])) c
      in dispatchMultiExec (MultiExecSetError None) c)"

section \<open>Ids drawn by the controller are fresh\<close>

lemma pane_name_inject [simp]: "pane_name m = pane_name n \<longleftrightarrow> m = n"
  by (simp add: pane_name_def)

lemma pane_name_nonempty [simp]: "pane_name n \<noteq> []" "[] \<noteq> pane_name n"
  by (simp_all add: pane_name_def)

lemma nextTerminalSplitId_pane [simp]:
  "nextTerminalSplitId ''terminal-pane'' c = (pane_name (ctl_id c + 1), c\<lparr>ctl_id := ctl_id c + 1\<rparr>)"
  by (simp add: nextTerminalSplitId_def pane_name_def)

lemma nextTerminalSplitId_split [simp]:
  "nextTerminalSplitId ''terminal-split'' c = (split_name (ctl_id c + 1), c\<lparr>ctl_id := ctl_id c + 1\<rparr>)"
  by (simp add: nextTerminalSplitId_def split_name_def)

lemma allocateFourPaneIds_eq [simp]:
  "allocateFourPaneIds c = (four_pane_ids_from (ctl_id c), c\<lparr>ctl_id := ctl_id c + 7\<rparr>)"
  by (simp add: allocateFourPaneIds_def four_pane_ids_from_def eval_nat_numeral)

text \<open>
  The pane ids of a layout are distinct, and none of them is a name with a number above \<open>k\<close> and up
  to \<open>m\<close>. A counter at \<open>k\<close> that stays below \<open>m\<close> can draw no other names.
\<close>

definition ids_fresh :: "nat \<Rightarrow> nat \<Rightarrow> TerminalSplitNode \<Rightarrow> bool" where
  "ids_fresh m k n \<longleftrightarrow> k \<le> m \<longrightarrow> distinct (node_pane_ids n) \<and> (\<forall>j\<in>{k<..m}. pane_name j \<notin> set (node_pane_ids n))"

definition split_ids_ok :: "nat \<Rightarrow> SplitController \<Rightarrow> bool" where
  "split_ids_ok m c \<longleftrightarrow> pred_option (ids_fresh m (ctl_id c)) (split_layout (ctl_split c))"

lemma ids_fresh_filter:
  assumes "ids_fresh m k n" "layout_leaves l = filter P (node_leaves n)"
  shows "pred_option (ids_fresh m k) l"
  using assms by (cases l) (auto simp: ids_fresh_def distinct_map_filter)

lemma ids_fresh_close: "ids_fresh m k n \<Longrightarrow> pred_option (ids_fresh m k) (closeTerminalSplitPane n p)"
  by (erule ids_fresh_filter) (rule close_leaves)

lemma ids_fresh_remove: "ids_fresh m k n \<Longrightarrow> pred_option (ids_fresh m k) (removeTerminalSplitBindings n ks)"
  by (erule ids_fresh_filter) (rule removeTerminalSplitBindings_leaves)

lemma move_pane_ids [simp]: "map fst (node_leaves (moveTerminalSplitBinding n p b)) = node_pane_ids n"
  by (simp add: move_leaves comp_def split_beta)

lemma ids_fresh_same: "node_pane_ids n' = node_pane_ids n \<Longrightarrow> ids_fresh m k n \<Longrightarrow> ids_fresh m k n'"
  by (simp add: ids_fresh_def)

lemma swap_pane_ids [simp]: "map fst (node_leaves (swap_binding p b n)) = node_pane_ids n"
  by (simp add: swap_binding_def Let_def split: option.split)

lemma split_pane_ids:
  "node_pane_ids (splitTerminalPane n p d s q b) =
     concat (map (\<lambda>i. if i = p then [i, q] else [i]) (node_pane_ids n))"
  by (simp add: split_leaves map_concat comp_def if_distrib cong: if_cong)

lemma distinct_insert_after:
  assumes "distinct is" "q \<notin> set is"
  shows "distinct (concat (map (\<lambda>i. if i = p then [i, q] else [i]) is))"
proof (cases "p \<in> set is")
  case True
  then obtain ys zs where split: "is = ys @ p # zs"
    by (auto simp: in_set_conv_decomp)
  have same: "concat (map (\<lambda>i. if i = p then [i, q] else [i]) xs) = xs" if "p \<notin> set xs" for xs
    using that by (induction xs) auto
  from assms(1) split have "p \<notin> set ys" "p \<notin> set zs"
    by auto
  then have "concat (map (\<lambda>i. if i = p then [i, q] else [i]) is) = ys @ p # q # zs"
    by (simp add: split same)
  then show ?thesis
    using assms split by auto
next
  case False
  then have "concat (map (\<lambda>i. if i = p then [i, q] else [i]) is) = is"
    by (induction "is") auto
  with assms show ?thesis
    by simp
qed

lemma ids_fresh_split:
  assumes "ids_fresh m k n" "k < j"
  shows "ids_fresh m j (splitTerminalPane n p d s (pane_name (Suc k)) b)"
proof -
  let ?ids = "concat (map (\<lambda>i. if i = p then [i, pane_name (Suc k)] else [i]) (node_pane_ids n))"
  have "distinct ?ids \<and> (\<forall>i\<in>{j<..m}. pane_name i \<notin> set ?ids)" if "j \<le> m"
  proof
    have ids: "distinct (node_pane_ids n)" "pane_name i \<notin> set (node_pane_ids n)" if "i \<in> {k<..m}" for i
      using assms \<open>j \<le> m\<close> that by (auto simp: ids_fresh_def)
    then show "distinct ?ids"
      using assms(2) \<open>j \<le> m\<close> by (intro distinct_insert_after) auto
    have "set ?ids \<subseteq> insert (pane_name (Suc k)) (set (node_pane_ids n))"
      by auto
    moreover have "pane_name i \<notin> insert (pane_name (Suc k)) (set (node_pane_ids n))" if "i \<in> {j<..m}" for i
      using ids(2) [of i] assms(2) that by simp
    ultimately show "\<forall>i\<in>{j<..m}. pane_name i \<notin> set ?ids"
      by blast
  qed
  then show ?thesis
    unfolding ids_fresh_def split_pane_ids by blast
qed

lemma ids_fresh_four: "ids_fresh m (k + 7) (four_layout (createFourPane bs (four_pane_ids_from k)))"
  by (auto simp: createFourPane_def Let_def ids_fresh_def four_pane_leaves four_pane_ids_from_def)


section \<open>Steps of the split workspace\<close>

text \<open>
  The effects of the controller, the operations of the user and the restoring of a saved layout, in any
  order. \<open>admits\<close> says which layouts are restored, given the value of the id counter; with everything
  admitted these are the steps of the program.
\<close>

inductive split_step :: "(nat \<Rightarrow> TerminalSplitNode \<Rightarrow> bool) \<Rightarrow> SplitController \<Rightarrow> SplitController \<Rightarrow> bool"
  for admits where
  step_normalise: "split_step admits c (normaliseEffect inputs c)"
| step_collapse: "split_step admits c (fst (collapseEffect c))"
| step_targets: "split_step admits c (targetsEffect inputs c)"
| step_focus: "split_step admits c (focusTerminalSplitPane inputs p c)"
| step_activate: "split_step admits c (activateTerminalSplitTab inputs po c)"
| step_assign: "split_step admits c (assignTerminalSplitBinding p b c)"
| step_start: "split_step admits c (startTerminalSplitForBinding inputs b d sameSession c)"
| step_four: "split_step admits c (startTerminalFourPaneForBinding inputs b created c)"
| step_remove: "split_step admits c (removeTerminalSplitPaneLayout p c)"
| step_picker: "split_step admits c (handleTerminalSplitPickerOpenChange p opened c)"
| step_equalize: "split_step admits c (equalizeTerminalSplitPanes c)"
| step_ratio: "split_step admits c (updateSplitRatio i r c)"
| step_sync: "split_step admits c (setTerminalSplitSyncState msg enabled c)"
| step_participant: "split_step admits c (setTerminalSplitSyncParticipant k on c)"
| step_reset: "split_step admits c (resetTerminalSplitState c)"
| step_restore: "pred_option (admits (ctl_id c)) layout \<Longrightarrow> split_step admits c (restoreSplit layout host focused active c)"

lemma dispatch_layout [simp]:
  "split_layout (ctl_split (dispatchMultiExec m c)) = split_layout (ctl_split c)"
  "split_layout (ctl_split (dispatchTabs t c)) = split_layout (ctl_split c)"
  "split_layout (ctl_split (dispatchSplit (SplitSetLayout u) c)) = apply_layout_update u (split_layout (ctl_split c))"
  "split_layout (ctl_split (dispatchSplit (SplitSetHost h) c)) = split_layout (ctl_split c)"
  "split_layout (ctl_split (dispatchSplit (SplitSetTabActive b) c)) = split_layout (ctl_split c)"
  "split_layout (ctl_split (dispatchSplit (SplitFocusPane f) c)) = split_layout (ctl_split c)"
  "split_layout (ctl_split (dispatchSplit SplitBumpRevision c)) = split_layout (ctl_split c)"
  "split_layout (ctl_split (dispatchSplit (SplitSetPicker q) c)) = split_layout (ctl_split c)"
  "split_layout (ctl_split (dispatchSplit SplitCollapseHandled c)) = split_layout (ctl_split c)"
  by (simp_all add: dispatchMultiExec_def dispatchTabs_def dispatchSplit_def Let_def)

lemma dispatch_id [simp]:
  "ctl_id (dispatchMultiExec m c) = ctl_id c"
  "ctl_id (dispatchTabs t c) = ctl_id c"
  "ctl_id (dispatchSplit a c) = ctl_id c"
  by (simp_all add: dispatchMultiExec_def dispatchTabs_def dispatchSplit_def)

lemma host_ids [simp]:
  "split_layout (ctl_split (activateTerminalSplitHost inputs h c)) = split_layout (ctl_split c)"
  "ctl_id (activateTerminalSplitHost inputs h c) = ctl_id c"
  "split_layout (ctl_split (requestTerminalSplitPicker p r c)) = split_layout (ctl_split c)"
  "ctl_id (requestTerminalSplitPicker p r c) = ctl_id c"
  "split_layout (ctl_split (focusTerminalSplitPane inputs p c)) = split_layout (ctl_split c)"
  "ctl_id (focusTerminalSplitPane inputs p c) = ctl_id c"
  by (simp_all add: activateTerminalSplitHost_def requestTerminalSplitPicker_def focusTerminalSplitPane_def
      Let_def split: option.split TerminalPaneBinding.split)

lemma normalizeSplit_layout:
  assumes "split_layout s = Some n"
  shows "split_layout (normalizeSplit s available fallback ids) = None \<or>
    (\<exists>m. removeTerminalSplitBindings n (unavailableKeys n available) = Some m \<and>
      split_layout (normalizeSplit s available fallback ids) =
        Some (if rebuild_needed s available fallback
          then four_layout (createFourPane (overLimitBindings (collectTerminalSplitPanes m)
            (the (overLimitBinding (collectTerminalSplitPanes m)
              (refocusPane (focusedPaneId s) (collectTerminalSplitPanes m)) fallback))) ids)
          else m))"
  using assms
  by (auto simp: normalizeSplit_def rebuild_needed_def rebuildOverLimit_def cleared_def Let_def
      split: option.splits if_splits)

lemma normaliseEffect_ids:
  assumes "split_ids_ok m c"
  shows "split_ids_ok m (normaliseEffect inputs c)"
proof (cases "split_layout (ctl_split c)")
  case None
  with assms show ?thesis
    by (simp add: normaliseEffect_def)
next
  case (Some n)
  let ?s = "ctl_split c" and ?a = "availableBindingKeys inputs" and ?f = "fallbackTerminalSplitBinding inputs"
  let ?t = "normalizeSplit ?s ?a ?f (four_pane_ids_from (ctl_id c))"
  let ?k = "if rebuild_needed ?s ?a ?f then ctl_id c + 7 else ctl_id c"
  have drawn: "ids_fresh m (ctl_id c) n"
    using assms Some by (simp add: split_ids_ok_def)
  have "pred_option (ids_fresh m ?k) (split_layout ?t)"
    using normalizeSplit_layout [OF Some, of ?a ?f "four_pane_ids_from (ctl_id c)"]
      ids_fresh_remove [OF drawn, of "unavailableKeys n ?a"]
    by (elim disjE exE conjE) (simp_all add: ids_fresh_four split: if_split)
  with Some show ?thesis
    by (simp add: normaliseEffect_def split_ids_ok_def dispatchSplit_def Let_def split: if_splits)
qed

lemma start_ids:
  assumes "split_ids_ok m c"
  shows "split_ids_ok m (startTerminalSplitForBinding inputs b d sameSession c)"
proof (cases "split_layout (ctl_split c)")
  case None
  have "ids_fresh m (k + 3) (SplitBranch d (SplitLeaf x (pane_name (Suc k))) s r (SplitLeaf y (pane_name (Suc (Suc k)))))"
    for k x s r y
    by (auto simp: ids_fresh_def)
  with assms None show ?thesis
    by (simp add: startTerminalSplitForBinding_def split_ids_ok_def createTerminalSplitLayout_def
        eval_nat_numeral Let_def split: option.split)
next
  case (Some n)
  then have "ids_fresh m (ctl_id c) n"
    using assms by (simp add: split_ids_ok_def)
  then have "ids_fresh m (Suc (Suc (ctl_id c))) (splitTerminalPane n p d s (pane_name (Suc (ctl_id c))) y)" for p s y
    by (rule ids_fresh_split) simp
  with assms Some show ?thesis
    by (simp add: startTerminalSplitForBinding_def split_ids_ok_def Let_def split: option.split)
qed

lemma four_ids:
  assumes "split_ids_ok m c"
  shows "split_ids_ok m (startTerminalFourPaneForBinding inputs b created c)"
proof (cases "coalesce (split_host (ctl_split c)) (terminalSplitHostForBinding inputs b)")
  case None
  with assms show ?thesis
    by (simp add: startTerminalFourPaneForBinding_def Let_def)
next
  case (Some h)
  then show ?thesis
    using ids_fresh_four [of m "ctl_id c"]
    by (simp add: startTerminalFourPaneForBinding_def split_ids_ok_def Let_def split: option.split)
qed

lemma handler_ids:
  assumes ok: "split_ids_ok m c"
  shows "split_ids_ok m (fst (collapseEffect c))"
    and "split_ids_ok m (targetsEffect inputs c)"
    and "split_ids_ok m (focusTerminalSplitPane inputs p c)"
    and "split_ids_ok m (activateTerminalSplitTab inputs po c)"
    and "split_ids_ok m (setTerminalSplitSyncState msg enabled c)"
    and "split_ids_ok m (setTerminalSplitSyncParticipant k on c)"
    and "split_ids_ok m (assignTerminalSplitBinding p b c)"
    and "split_ids_ok m (equalizeTerminalSplitPanes c)"
    and "split_ids_ok m (updateSplitRatio i r c)"
    and "split_ids_ok m (resetTerminalSplitState c)"
    and "split_ids_ok m (removeTerminalSplitPaneLayout p c)"
    and "split_ids_ok m (handleTerminalSplitPickerOpenChange p opened c)"
proof -
  from ok have kept: "pred_option (ids_fresh m (ctl_id c)) (split_layout (ctl_split c))"
    by (simp add: split_ids_ok_def)
  show "split_ids_ok m (fst (collapseEffect c))"
    using kept by (simp add: collapseEffect_def split_ids_ok_def split: option.split)
  show "split_ids_ok m (targetsEffect inputs c)" "split_ids_ok m (focusTerminalSplitPane inputs p c)"
      "split_ids_ok m (activateTerminalSplitTab inputs po c)" "split_ids_ok m (setTerminalSplitSyncState msg enabled c)"
      "split_ids_ok m (setTerminalSplitSyncParticipant k on c)"
    using kept by (simp_all add: targetsEffect_def activateTerminalSplitTab_def setTerminalSplitSyncState_def
        setTerminalSplitSyncParticipant_def split_ids_ok_def Let_def split: option.split)
  show "split_ids_ok m (assignTerminalSplitBinding p b c)"
    using kept by (cases "split_layout (ctl_split c)")
      (auto simp: assignTerminalSplitBinding_def split_ids_ok_def Let_def intro: ids_fresh_same [rotated])
  show "split_ids_ok m (equalizeTerminalSplitPanes c)" "split_ids_ok m (updateSplitRatio i r c)"
    using kept by (cases "split_layout (ctl_split c)";
      auto simp: equalizeTerminalSplitPanes_def updateSplitRatio_def split_ids_ok_def equalize_leaves
        update_ratio_leaves intro: ids_fresh_same [rotated])+
  show reset: "split_ids_ok m (resetTerminalSplitState c)"
    by (simp add: resetTerminalSplitState_def split_ids_ok_def Let_def)
  show "split_ids_ok m (removeTerminalSplitPaneLayout p c)"
  proof (cases "split_layout (ctl_split c)")
    case (Some n)
    with kept have "pred_option (ids_fresh m (ctl_id c)) (closeTerminalSplitPane n p)"
      by (simp add: ids_fresh_close)
    with Some reset show ?thesis
      by (cases "closeTerminalSplitPane n p")
        (simp_all add: removeTerminalSplitPaneLayout_def split_ids_ok_def Let_def)
  qed (simp add: removeTerminalSplitPaneLayout_def ok)
  show "split_ids_ok m (handleTerminalSplitPickerOpenChange p opened c)"
    using ok kept ids_fresh_close [of m "ctl_id c" _ p]
    by (cases "split_layout (ctl_split c)")
      (auto simp: handleTerminalSplitPickerOpenChange_def closeTerminalSplitEmptyPane_def split_ids_ok_def Let_def)
qed

lemma restore_ids:
  "pred_option (ids_fresh m (ctl_id c)) layout \<Longrightarrow> split_ids_ok m (restoreSplit layout host focused active c)"
  by (simp add: restoreSplit_def split_ids_ok_def Let_def)

lemma split_step_ids: "split_step (ids_fresh m) c c' \<Longrightarrow> split_ids_ok m c \<Longrightarrow> split_ids_ok m c'"
  by (induction rule: split_step.induct) (blast intro: normaliseEffect_ids start_ids four_ids handler_ids restore_ids)+

interpretation split_workspace:
  transition_system "\<lambda>c. c = initialSplitController" "split_step (ids_fresh m)" "split_ids_ok m" for m
proof
  show "split_ids_ok m c" if "c = initialSplitController" for c
    using that by (simp add: split_ids_ok_def initialSplitController_def initialSplitState_def)
  show "split_ids_ok m c'" if "split_ids_ok m c" "split_step (ids_fresh m) c c'" for c c'
    using that by (blast intro: split_step_ids)
qed

text \<open>
  C7. In every state the split workspace reaches from its initial state, by effects, user operations
  and the restoring of layouts in any order, the pane ids of the layout are pairwise distinct and none
  of the names the counter draws next, up to any number \<open>m\<close>, is among them, as long as every layout
  that was restored had distinct ids and held no name the counter was still to draw up to \<open>m\<close>.
\<close>

theorem split_pane_ids_never_clash:
  assumes "(split_step (ids_fresh m))\<^sup>*\<^sup>* initialSplitController c" "split_layout (ctl_split c) = Some n"
    and "ctl_id c < m"
  shows "distinct (node_pane_ids n) \<and>
    fst (nextTerminalSplitId ''terminal-pane'' c) \<notin> set (node_pane_ids n) \<and>
    (\<forall>j\<in>{ctl_id c<..m}. pane_name j \<notin> set (node_pane_ids n))"
proof -
  have "split_ids_ok m c"
    using split_workspace.reachable_invar [OF refl assms(1)] .
  with assms(2) have "ids_fresh m (ctl_id c) n"
    by (simp add: split_ids_ok_def)
  then show ?thesis
    using assms(3) by (auto simp: ids_fresh_def)
qed

definition sample_split_inputs :: TerminalSplitControllerInputs where
  "sample_split_inputs =
     \<lparr>in_activeTerminalSplitBinding = None, in_localTerminalTabs = [],
      in_terminalTabs = [\<lparr>stab_connectionId = ''c1'', stab_id = ''t1'', stab_sessionId = None, stab_status = []\<rparr>]\<rparr>"

lemma sample_start_layout:
  "split_layout (ctl_split (startTerminalSplitForBinding sample_split_inputs (SshBinding ''t1'') Row None
      initialSplitController)) =
   Some (SplitBranch Row (SplitLeaf (Some (SshBinding ''t1'')) (pane_name 1)) (split_name 3) (5 / 10)
      (SplitLeaf None (pane_name 2)))"
  by (simp add: startTerminalSplitForBinding_def initialSplitController_def initialSplitState_def
      terminalSplitHostForBinding_def sample_split_inputs_def createTerminalSplitLayout_def Let_def eval_nat_numeral)

text \<open>A restored layout with the panes 5 and 6 of an earlier run is split: the new pane is number 1.\<close>

definition restored_sample :: SplitController where
  "restored_sample = restoreSplit (Some (SplitBranch Row (SplitLeaf (Some (SshBinding ''t1'')) (pane_name 5)) (split_name 7) (1 / 2)
     (SplitLeaf None (pane_name 6)))) None None True initialSplitController"

definition resplit_sample :: SplitController where
  "resplit_sample = startTerminalSplitForBinding sample_split_inputs (SshBinding ''t1'') Row None restored_sample"

lemma resplit_sample_layout:
  "split_layout (ctl_split resplit_sample) =
   Some (SplitBranch Row
     (SplitBranch Row (SplitLeaf (Some (SshBinding ''t1'')) (pane_name 5)) (split_name 2) (5 / 10) (SplitLeaf None (pane_name 1)))
     (split_name 7) (1 / 2) (SplitLeaf None (pane_name 6)))"
  "ctl_id resplit_sample = 2"
  by code_simp+

theorem split_pane_ids_never_clash_witness:
  "distinct [pane_name 5, pane_name 1, pane_name 6] \<and>
   fst (nextTerminalSplitId ''terminal-pane'' resplit_sample) \<notin> {pane_name 5, pane_name 1, pane_name 6}"
proof -
  have "split_step (ids_fresh 4) initialSplitController restored_sample"
    unfolding restored_sample_def
    by (rule split_step.step_restore) (auto simp: ids_fresh_def)
  moreover have "split_step (ids_fresh 4) restored_sample resplit_sample"
    unfolding resplit_sample_def by (rule split_step.step_start)
  ultimately have "(split_step (ids_fresh 4))\<^sup>*\<^sup>* initialSplitController resplit_sample"
    by (blast intro: converse_rtranclp_into_rtranclp)
  from split_pane_ids_never_clash [OF this resplit_sample_layout(1)] show ?thesis
    by (simp add: resplit_sample_layout(2))
qed

section \<open>A restored layout\<close>

text \<open>
  C14. A layout restored from the previous run clashes with the ids of the new one. Whenever a
  restored layout of two or three panes contains the first pane id of a fresh counter (as every
  layout started in an earlier run does), splitting the pane of a terminal it shows yields a
  layout in which that id occurs twice, and closing the new pane closes the old one with it.
\<close>

theorem restored_split_reuses_pane_id:
  assumes "distinct (node_pane_ids n)" "pane_name 1 \<in> set (node_pane_ids n)"
    and "[] \<notin> set (node_pane_ids n)" "length (node_leaves n) < terminalSplitMaxPanes"
    and "b \<in> set (node_bindings n)"
    and "c = restoreSplit (Some n) host focused active initialSplitController"
    and "c' = startTerminalSplitForBinding inputs b d sameSession c"
  shows "\<exists>m. split_layout (ctl_split c') = Some m \<and> length (node_leaves m) = length (node_leaves n) + 1 \<and>
    \<not> distinct (node_pane_ids m) \<and>
    length (layout_leaves (closeTerminalSplitPane m (pane_name 1))) = length (node_leaves n) - 1"
proof -
  have c: "split_layout (ctl_split c) = Some n" "ctl_id c = 0"
    by (simp_all add: assms(6) restoreSplit_def Let_def initialSplitController_def)
  obtain pane where pane: "findTerminalSplitPaneByBinding n b = Some pane" "pane_id pane \<in> set (node_pane_ids n)"
  proof (cases "findTerminalSplitPaneByBinding n b")
    case None
    then have "Some b \<notin> pane_binding ` set (collectTerminalSplitPanes n)"
      by (auto simp: findTerminalSplitPaneByBinding_def find_eq_None)
    with assms(5) show ?thesis
      by (simp add: node_bindings_collect)
  next
    case (Some pane)
    then have "pane \<in> set (collectTerminalSplitPanes n)"
      by (auto simp: findTerminalSplitPaneByBinding_def dest: find_SomeD)
    with Some that show ?thesis
      using collect_panes_ids [of n] by auto
  qed
  let ?p = "pane_id pane"
  have "?p \<noteq> []"
    using pane(2) assms(3) by metis
  then have p: "truthy (Some ?p) = Some ?p"
    by (simp add: truthy_eq_Some)
  have can: "selectCanAddPane (ctl_panes c)"
    by (simp add: selectCanAddPane_def ctl_panes_def c selectSplitPanes_def length_collect_panes assms(4))
  obtain y where m: "split_layout (ctl_split c') =
      Some (splitTerminalPane n ?p d (split_name 2) (pane_name 1) y)"
    using assms(7) c pane(1) p can
    by (simp add: startTerminalSplitForBinding_def Let_def eval_nat_numeral split: if_splits)
  let ?m = "splitTerminalPane n ?p d (split_name 2) (pane_name 1) y"
  obtain ys zs where ids: "node_pane_ids n = ys @ ?p # zs"
    using pane(2) by (meson split_list)
  have same: "concat (map (\<lambda>i. if i = ?p then [i, pane_name 1] else [i]) xs) = xs" if "?p \<notin> set xs" for xs
    using that by (induction xs) auto
  have m_ids: "node_pane_ids ?m = ys @ ?p # pane_name 1 # zs"
    unfolding split_pane_ids using assms(1) by (simp add: ids same)
  have len: "length (layout_leaves (closeTerminalSplitPane k (pane_name 1))) =
      length (filter (\<lambda>i. i \<noteq> pane_name 1) (node_pane_ids k))" for k
    unfolding close_leaves by (simp add: filter_map comp_def)
  have count: "length (filter (\<lambda>i. i \<noteq> x) is) = length is - 1" if "distinct is" "x \<in> set is" for x and "is" :: "string list"
  proof -
    have "filter (\<lambda>i. i \<noteq> x) is = removeAll x is"
      by (induction "is") auto
    with that show ?thesis
      by (simp add: distinct_remove1_removeAll [symmetric] length_remove1)
  qed
  have "length (filter (\<lambda>i. i \<noteq> pane_name 1) (node_pane_ids ?m)) =
      length (filter (\<lambda>i. i \<noteq> pane_name 1) (node_pane_ids n))"
    unfolding m_ids ids by simp
  then have "length (layout_leaves (closeTerminalSplitPane ?m (pane_name 1))) = length (node_leaves n) - 1"
    unfolding len using count [OF assms(1,2)] by simp
  moreover have "length (node_leaves ?m) = length (node_leaves n) + 1"
    using arg_cong [OF m_ids, of length] arg_cong [OF ids, of length] by simp
  moreover have "\<not> distinct (node_pane_ids ?m)"
    unfolding m_ids using assms(2) ids by auto
  ultimately show ?thesis
    using m by blast
qed

theorem restored_split_reuses_pane_id_witness:
  "\<exists>m. split_layout (ctl_split (startTerminalSplitForBinding sample_split_inputs (SshBinding ''t1'') Row None
      (restoreSplit (split_layout (ctl_split (startTerminalSplitForBinding sample_split_inputs
        (SshBinding ''t1'') Row None initialSplitController))) None None True initialSplitController))) = Some m \<and>
     \<not> distinct (node_pane_ids m)"
proof -
  let ?n = "SplitBranch Row (SplitLeaf (Some (SshBinding ''t1'')) (pane_name 1)) (split_name 3) (5 / 10)
    (SplitLeaf None (pane_name 2))"
  have n: "distinct (node_pane_ids ?n)" "pane_name 1 \<in> set (node_pane_ids ?n)"
      "[] \<notin> set (node_pane_ids ?n)" "length (node_leaves ?n) < terminalSplitMaxPanes"
      "SshBinding ''t1'' \<in> set (node_bindings ?n)"
    by (simp_all add: terminalSplitMaxPanes_def node_bindings_def)
  show ?thesis
    unfolding sample_start_layout
    using restored_split_reuses_pane_id [OF n refl refl, of sample_split_inputs Row None None None True] by blast
qed

section \<open>Dropping a terminal on a pane\<close>

lemma leaf_at: "distinct (node_pane_ids n) \<Longrightarrow> (i, x) \<in> set (node_leaves n) \<Longrightarrow> (i, y) \<in> set (node_leaves n) \<Longrightarrow> x = y"
  by (metis eq_key_imp_eq_value)

lemma bound_leaf_unique:
  assumes "layout_wf n" "(i, Some b) \<in> set (node_leaves n)" "(j, Some b) \<in> set (node_leaves n)"
  shows "i = j"
proof -
  have "i = j" if "distinct (List.map_filter snd xs)" "(i, Some b) \<in> set xs" "(j, Some b) \<in> set xs"
    for xs :: "(string \<times> TerminalPaneBinding option) list"
    using that
  proof (induction xs)
    case (Cons x xs)
    then show ?case
      by (cases x; cases "snd x") (force simp: List.map_filter_def)+
  qed simp
  with assms show ?thesis
    by (auto simp: layout_wf_def node_bindings_def)
qed

text \<open>
  Dropping a terminal on a pane of a well-formed layout swaps: the pane shows the terminal,
  the pane that showed it (if any) shows what the target pane showed before (possibly
  nothing), every other pane is unchanged, and the layout stays well-formed.
\<close>

theorem assign_swaps_bindings:
  assumes wf: "layout_wf n" and p: "(p, t) \<in> set (node_leaves n)"
    and c: "split_layout (ctl_split c) = Some n"
  shows "\<exists>m. split_layout (ctl_split (assignTerminalSplitBinding p b c)) = Some m \<and>
    node_leaves m = map (\<lambda>(i, x). (i, if i = p then Some b else if x = Some b then t else x)) (node_leaves n)"
proof -
  have ids: "distinct (node_pane_ids n)"
    using wf by (simp add: layout_wf_def)
  have target: "Option.bind (find (\<lambda>pane. pane_id pane = p) (collectTerminalSplitPanes n)) pane_binding = t"
  proof (cases "find (\<lambda>pane. pane_id pane = p) (collectTerminalSplitPanes n)")
    case None
    then have "p \<notin> pane_id ` set (collectTerminalSplitPanes n)"
      by (auto simp: find_eq_None)
    with p show ?thesis
      by (force simp: collect_panes_ids)
  next
    case (Some pane)
    from find_SomeD [OF this] have "(p, pane_binding pane) \<in> set (node_leaves n)"
      using collect_pane_leaf [of pane n] by auto
    with leaf_at [OF ids p] Some show ?thesis
      by simp
  qed
  have "node_leaves (swap_binding p b n) =
      map (\<lambda>(i, x). (i, if i = p then Some b else if x = Some b then t else x)) (node_leaves n)"
  proof (cases "findTerminalSplitPaneByBinding n b")
    case None
    then have "Some b \<notin> snd ` set (node_leaves n)"
      unfolding collect_panes_bindings [symmetric] by (auto simp: findTerminalSplitPaneByBinding_def find_eq_None)
    with None show ?thesis
      by (force simp: swap_binding_def move_leaves)
  next
    case (Some previous)
    let ?q = "pane_id previous"
    have q: "(?q, Some b) \<in> set (node_leaves n)"
      using Some collect_pane_leaf [of previous n]
      by (auto simp: findTerminalSplitPaneByBinding_def dest!: find_SomeD)
    have only: "(i, Some b) \<in> set (node_leaves n) \<Longrightarrow> i = ?q" for i
      using bound_leaf_unique [OF wf _ q] .
    show ?thesis
    proof (cases "?q = p \<or> t = None")
      case True
      with Some target have "swap_binding p b n = moveTerminalSplitBinding n p b"
        by (auto simp: swap_binding_def Let_def)
      moreover have "(i, if i = p then Some b else if x = Some b then None else x) =
          (i, if i = p then Some b else if x = Some b then t else x)" if "(i, x) \<in> set (node_leaves n)" for i x
        using True only that by auto
      ultimately show ?thesis
        by (auto simp: move_leaves)
    next
      case False
      then obtain t' where t': "t = Some t'" "?q \<noteq> p"
        by auto
      have tb: "t' \<noteq> b"
        using only p t' by auto
      have t_only: "(i, Some t') \<in> set (node_leaves n) \<Longrightarrow> i = p" for i
        using bound_leaf_unique [OF wf] p t'(1) by blast
      let ?v = "\<lambda>i x. if i = p then Some b else if x = Some b then None else x"
      have calc: "(if i = ?q then Some t' else if ?v i x = Some t' then None else ?v i x) =
          (if i = p then Some b else if x = Some b then t else x)" if "(i, x) \<in> set (node_leaves n)" for i x
      proof (cases "i = ?q")
        case True
        with that have "(?q, x) \<in> set (node_leaves n)"
          by simp
        then have "x = Some b"
          using leaf_at [OF ids q] by simp
        with True t' show ?thesis
          by simp
      next
        case False
        have "x \<noteq> Some b"
          using that only False by blast
        moreover have "x \<noteq> Some t'" if "i \<noteq> p"
          using that \<open>(i, x) \<in> set (node_leaves n)\<close> t_only by blast
        ultimately show ?thesis
          using False tb by (cases "i = p") simp_all
      qed
      have "swap_binding p b n = moveTerminalSplitBinding (moveTerminalSplitBinding n p b) ?q t'"
        using Some target t' tb by (simp add: swap_binding_def)
      then have "node_leaves (swap_binding p b n) =
          map (\<lambda>l. (fst l, if fst l = ?q then Some t' else if ?v (fst l) (snd l) = Some t' then None
            else ?v (fst l) (snd l))) (node_leaves n)"
        by (simp only: move_leaves map_map comp_def split_beta fst_conv snd_conv)
      also have "\<dots> = map (\<lambda>l. (fst l, if fst l = p then Some b else if snd l = Some b then t else snd l))
          (node_leaves n)"
        by (rule map_cong [OF refl], rule arg_cong2 [where f = Pair], rule refl, rule calc) simp
      finally show ?thesis
        by (simp only: case_prod_unfold)
    qed
  qed
  then show ?thesis
    using c by (simp add: assignTerminalSplitBinding_def Let_def)
qed

theorem assign_swaps_bindings_witness:
  "\<exists>m. split_layout (ctl_split (assignTerminalSplitBinding ''p1'' (LocalBinding ''t2'')
      (restoreSplit (Some (SplitBranch Row (SplitLeaf (Some (SshBinding ''t1'')) ''p1'') ''s'' (1 / 2)
        (SplitLeaf (Some (LocalBinding ''t2'')) ''p2''))) None None True initialSplitController))) = Some m \<and>
     node_leaves m = [(''p1'', Some (LocalBinding ''t2'')), (''p2'', Some (SshBinding ''t1''))]"
  using assign_swaps_bindings [of "SplitBranch Row (SplitLeaf (Some (SshBinding ''t1'')) ''p1'') ''s'' (1 / 2)
      (SplitLeaf (Some (LocalBinding ''t2'')) ''p2'')" "''p1''" "Some (SshBinding ''t1'')"
      "restoreSplit (Some (SplitBranch Row (SplitLeaf (Some (SshBinding ''t1'')) ''p1'') ''s'' (1 / 2)
        (SplitLeaf (Some (LocalBinding ''t2'')) ''p2''))) None None True initialSplitController" "LocalBinding ''t2''"]
  by (simp add: layout_wf_def node_bindings_def restoreSplit_def Let_def terminalSplitMinRatio_def
      terminalSplitMaxRatio_def)

end
