(* ===== verification/Transfer_Types.thy ===== *)
theory Transfer_Types
  imports Prelude
begin

text \<open>
  The enumerations of \<open>src/features/files/remoteFileTransferTypes.ts\<close> that the transfer list and
  the close path share.
\<close>

datatype transfer_status = TransferQueued | TransferRunning | TransferSuccess | TransferError | TransferSkipped | TransferCanceled

datatype TransferDirection = Upload | Download

datatype TransferKind = TransferFile | TransferDirectory

datatype RemoteFileTransferConflictPolicy = PolicyAsk | PolicyOverwrite | PolicySkip | PolicyRename

end
