(* ===== verification/Item_Close.thy ===== *)
theory Item_Close
  imports Instances Transfer_Types
begin

text \<open>
  Closing items of the title bar: the scope of a close command and the close plan
  (\<open>features/workspace/sessionTabs/itemClose.ts\<close>), the policy for running file transfers
  (\<open>features/files/remoteFileTransferClosePolicy.ts\<close>), and the confirmation state machine
  (\<open>useCloseRequest.ts\<close>).
\<close>

section \<open>Transfers\<close>

record RemoteFileTransferCloseCandidate =
  cand_connectionId :: "string option"
  cand_id :: string
  cand_status :: transfer_status

datatype RemoteFileTransferCloseBehavior = KeepRunning | ConfirmCancelActive

definition currentRemoteFileTransferClosePolicy :: RemoteFileTransferCloseBehavior where
  "currentRemoteFileTransferClosePolicy = ConfirmCancelActive"

record RemoteFileTransferCloseDecision =
  tcd_activeTransferIds :: "string list"
  tcd_cancelTransferIds :: "string list"
  tcd_requiresConfirmation :: bool

definition transfer_active_in :: "string list \<Rightarrow> RemoteFileTransferCloseCandidate \<Rightarrow> bool" where
  "transfer_active_in closing item \<longleftrightarrow>
     (case truthy (cand_connectionId item) of None \<Rightarrow> False | Some c \<Rightarrow> c \<in> set closing) \<and>
     (cand_status item = TransferQueued \<or> cand_status item = TransferRunning)"

definition planRemoteFileTransferClose ::
  "RemoteFileTransferCloseCandidate list \<Rightarrow> string list \<Rightarrow> RemoteFileTransferCloseBehavior
    \<Rightarrow> RemoteFileTransferCloseDecision" where
  "planRemoteFileTransferClose items closing behavior =
     (let activeTransferIds = map cand_id (filter (transfer_active_in closing) items);
          cancelActive = (behavior = ConfirmCancelActive)
      in \<lparr>tcd_activeTransferIds = activeTransferIds,
          tcd_cancelTransferIds = (if cancelActive then activeTransferIds else []),
          tcd_requiresConfirmation = (cancelActive \<and> activeTransferIds \<noteq> [])\<rparr>)"

section \<open>Scope and request\<close>

datatype CloseScope = ScopeAll | ScopeOthers | ScopeRight | ScopeSelf

fun slice_after :: "string \<Rightarrow> string list \<Rightarrow> string list" where
  "slice_after t [] = []"
| "slice_after t (x # xs) = (if x = t then xs else slice_after t xs)"

definition closeScopeItemIds :: "WorkspaceItem list \<Rightarrow> string \<Rightarrow> CloseScope \<Rightarrow> string list" where
  "closeScopeItemIds items targetId scope =
     (let closable = map workspace_item_id (filter (\<lambda>item. item \<noteq> HomeItem) items) in
      case scope of
        ScopeSelf \<Rightarrow> if targetId \<in> set closable then [targetId] else []
      | ScopeOthers \<Rightarrow> filter (\<lambda>i. i \<noteq> targetId) closable
      | ScopeRight \<Rightarrow> slice_after targetId closable
      | ScopeAll \<Rightarrow> closable)"

record CloseRequest =
  req_instanceIds :: "string list"
  req_splitPaneIds :: "string list option"
  req_splitGroup :: bool

definition is_split_item :: "WorkspaceItem \<Rightarrow> bool" where
  "is_split_item item = (case item of ItemSplit g \<Rightarrow> True | _ \<Rightarrow> False)"

definition closeRequestFromItems :: "string list \<Rightarrow> WorkspaceItem list \<Rightarrow> CloseRequest" where
  "closeRequestFromItems itemIds items =
     (let selected = filter (\<lambda>item. workspace_item_id item \<in> set itemIds \<and> item \<noteq> HomeItem) items
      in \<lparr>req_instanceIds = map workspace_item_id (filter (\<lambda>item. \<not> is_split_item item) selected),
          req_splitPaneIds = None,
          req_splitGroup = (\<exists>item \<in> set selected. is_split_item item)\<rparr>)"

section \<open>Context and plan\<close>

record close_file_tab =
  cft_connectionId :: string
  cft_dirty :: bool
  cft_name :: string

record close_split_pane =
  csp_id :: string
  csp_instanceId :: "string option"

record CloseContext =
  ctx_localTerminalTabs :: "string list"
  ctx_rdpSessions :: "string list"
  ctx_remoteFileTabs :: "close_file_tab list"
  ctx_remoteFileTransfers :: "RemoteFileTransferCloseCandidate list option"
  ctx_splitMemberIds :: "string list"
  ctx_splitPanes :: "close_split_pane list option"
  ctx_terminalTabs :: "SessionRef list"
  ctx_vncSessions :: "string list"

definition buildCloseContext ::
  "string list \<Rightarrow> string list \<Rightarrow> close_file_tab list \<Rightarrow> TerminalSplitPane list \<Rightarrow> SessionRef list
    \<Rightarrow> string list \<Rightarrow> RemoteFileTransferCloseCandidate list option \<Rightarrow> CloseContext" where
  "buildCloseContext localTabs rdp files panes terminalTabs vnc transfers =
     \<lparr>ctx_localTerminalTabs = localTabs, ctx_rdpSessions = rdp, ctx_remoteFileTabs = files,
      ctx_remoteFileTransfers = transfers,
      ctx_splitMemberIds = concat (map (\<lambda>pane. case pane_binding pane of
          None \<Rightarrow> [] | Some b \<Rightarrow> [terminalPaneBindingKey b]) panes),
      ctx_splitPanes = Some (map (\<lambda>pane. \<lparr>csp_id = pane_id pane,
          csp_instanceId = map_option terminalPaneBindingKey (pane_binding pane)\<rparr>) panes),
      ctx_terminalTabs = terminalTabs, ctx_vncSessions = vnc\<rparr>"

record CloseConfirmation =
  conf_activeTransferCount :: "nat option"
  conf_cascadeConnectionCount :: nat
  conf_dirtyFileNames :: "string list"
  conf_instanceCount :: nat
  conf_splitPaneCount :: nat

record ClosePlan =
  plan_confirmation :: "CloseConfirmation option"
  plan_connectionIds :: "string list"
  plan_localTabIds :: "string list"
  plan_rdpSessionIds :: "string list"
  plan_splitGroup :: bool
  plan_splitPaneIds :: "string list option"
  plan_sshTabIds :: "string list"
  plan_transferIdsToCancel :: "string list option"
  plan_vncSessionIds :: "string list"

definition requested_panes :: "CloseRequest \<Rightarrow> CloseContext \<Rightarrow> close_split_pane list" where
  "requested_panes request context =
     filter (\<lambda>pane. csp_id pane \<in> set (case req_splitPaneIds request of None \<Rightarrow> [] | Some ids \<Rightarrow> ids))
       (case ctx_splitPanes context of None \<Rightarrow> [] | Some ps \<Rightarrow> ps)"

definition closing_ids :: "CloseRequest \<Rightarrow> CloseContext \<Rightarrow> string list" where
  "closing_ids request context =
     dedupe (req_instanceIds request @
       concat (map (\<lambda>pane. case truthy (csp_instanceId pane) of None \<Rightarrow> [] | Some i \<Rightarrow> [i])
         (requested_panes request context)) @
       (if req_splitGroup request then ctx_splitMemberIds context else []))"

text \<open>
  The loop over the closing SSH tabs: the connections released so far and, of those, the ones
  with open files. A connection is examined again only while it is not released.
\<close>

definition all_closing :: "SessionRef list \<Rightarrow> string list \<Rightarrow> string \<Rightarrow> bool" where
  "all_closing terminalTabs closingSshIds c =
     (\<forall>other \<in> set terminalTabs. ref_connectionId other = c \<longrightarrow> ref_id other \<in> set closingSshIds)"

fun release_loop ::
  "SessionRef list \<Rightarrow> string list \<Rightarrow> string list \<Rightarrow> SessionRef list \<Rightarrow> string list \<times> string list
    \<Rightarrow> string list \<times> string list" where
  "release_loop terminalTabs closingSshIds filesBy [] (released, connectionIds) = (released, connectionIds)"
| "release_loop terminalTabs closingSshIds filesBy (tab # tabs) (released, connectionIds) =
     (let c = ref_connectionId tab in
      release_loop terminalTabs closingSshIds filesBy tabs
        (if c \<in> set released then (released, connectionIds)
         else if all_closing terminalTabs closingSshIds c
         then (released @ [c], if c \<in> set filesBy then connectionIds @ [c] else connectionIds)
         else (released, connectionIds)))"

definition planClose ::
  "CloseRequest \<Rightarrow> CloseContext \<Rightarrow> RemoteFileTransferCloseBehavior \<Rightarrow> ClosePlan" where
  "planClose request context policy =
     (let splitPaneIds = map csp_id (requested_panes request context);
          closing = closing_ids request context;
          closingSsh = filter (\<lambda>tab. (''ssh:'' @ ref_id tab) \<in> set closing) (ctx_terminalTabs context);
          closingSshIds = map ref_id closingSsh;
          filesByConnection = map cft_connectionId (ctx_remoteFileTabs context);
          (released, connectionIds) =
            release_loop (ctx_terminalTabs context) closingSshIds filesByConnection closingSsh ([], []);
          localTabIds = filter (\<lambda>i. (''local:'' @ i) \<in> set closing) (ctx_localTerminalTabs context);
          rdpSessionIds = filter (\<lambda>i. (''rdp:'' @ i) \<in> set closing) (ctx_rdpSessions context);
          vncSessionIds = filter (\<lambda>i. (''vnc:'' @ i) \<in> set closing) (ctx_vncSessions context);
          splitPaneCount = (if req_splitGroup request then length (ctx_splitMemberIds context) else 0);
          dirtyFileNames = map cft_name (filter (\<lambda>tab. cft_dirty tab \<and> cft_connectionId tab \<in> set connectionIds)
            (ctx_remoteFileTabs context));
          decision = planRemoteFileTransferClose
            (case ctx_remoteFileTransfers context of None \<Rightarrow> [] | Some ts \<Rightarrow> ts) released policy
      in \<lparr>plan_confirmation =
            (if dirtyFileNames \<noteq> [] \<or> splitPaneCount > 1 \<or> tcd_requiresConfirmation decision
             then Some \<lparr>conf_activeTransferCount = (if tcd_requiresConfirmation decision
                    then Some (length (tcd_activeTransferIds decision)) else None),
                  conf_cascadeConnectionCount = length connectionIds,
                  conf_dirtyFileNames = dirtyFileNames,
                  conf_instanceCount = length closingSsh + length localTabIds + length rdpSessionIds
                    + length vncSessionIds,
                  conf_splitPaneCount = splitPaneCount\<rparr>
             else None),
          plan_connectionIds = connectionIds,
          plan_localTabIds = localTabIds,
          plan_rdpSessionIds = rdpSessionIds,
          plan_splitGroup = req_splitGroup request,
          plan_splitPaneIds = (if splitPaneIds \<noteq> [] then Some splitPaneIds else None),
          plan_sshTabIds = map ref_id (filter (\<lambda>tab. ref_connectionId tab \<notin> set connectionIds) closingSsh),
          plan_transferIdsToCancel = (if tcd_cancelTransferIds decision \<noteq> []
            then Some (tcd_cancelTransferIds decision) else None),
          plan_vncSessionIds = vncSessionIds\<rparr>)"

definition closePlanIsEmpty :: "ClosePlan \<Rightarrow> bool" where
  "closePlanIsEmpty plan \<longleftrightarrow>
     \<not> plan_splitGroup plan \<and>
     (case plan_splitPaneIds plan of None \<Rightarrow> True | Some ids \<Rightarrow> ids = []) \<and>
     plan_connectionIds plan = [] \<and> plan_sshTabIds plan = [] \<and> plan_localTabIds plan = [] \<and>
     plan_rdpSessionIds plan = [] \<and> plan_vncSessionIds plan = []"

section \<open>Confirmation\<close>

record PendingClose =
  pending_confirmation :: CloseConfirmation
  pending_request :: CloseRequest

text \<open>
  The state of \<open>useCloseRequest\<close>: the pending request and the plans executed so far. The
  context is read when a plan is computed, so every event carries the context of its moment.
\<close>

record close_machine =
  cm_pending :: "PendingClose option"
  cm_executed :: "ClosePlan list"

datatype close_event =
    EventRequest CloseRequest CloseContext
  | EventConfirm CloseContext
  | EventCancel

fun closeRequestStep :: "RemoteFileTransferCloseBehavior \<Rightarrow> close_machine \<Rightarrow> close_event \<Rightarrow> close_machine" where
  "closeRequestStep policy m (EventRequest request context) =
     (if cm_pending m \<noteq> None then m
      else
        (let plan = planClose request context policy in
         if closePlanIsEmpty plan then m
         else case plan_confirmation plan of
             Some confirmation \<Rightarrow> m\<lparr>cm_pending :=
               Some \<lparr>pending_confirmation = confirmation, pending_request = request\<rparr>\<rparr>
           | None \<Rightarrow> m\<lparr>cm_executed := cm_executed m @ [plan]\<rparr>))"
| "closeRequestStep policy m (EventConfirm context) =
     (case cm_pending m of
        None \<Rightarrow> m
      | Some current \<Rightarrow>
          (let m = m\<lparr>cm_pending := None\<rparr>;
               plan = planClose (pending_request current) context policy
           in if closePlanIsEmpty plan then m else m\<lparr>cm_executed := cm_executed m @ [plan]\<rparr>))"
| "closeRequestStep policy m EventCancel = m\<lparr>cm_pending := None\<rparr>"

section \<open>Correctness of the plan\<close>

lemma release_loop_spec:
  "release_loop tabs ids files cs (rel, cons) = (rel', cons') \<Longrightarrow>
    set rel' = set rel \<union> {c \<in> ref_connectionId ` set cs. all_closing tabs ids c} \<and>
    (distinct rel \<longrightarrow> distinct rel') \<and>
    (cons = filter (\<lambda>c. c \<in> set files) rel \<longrightarrow> cons' = filter (\<lambda>c. c \<in> set files) rel')"
  by (induction tabs ids files cs "(rel, cons)" arbitrary: rel cons rule: release_loop.induct)
    (auto simp: Let_def split: if_splits)

definition closing_ssh :: "CloseRequest \<Rightarrow> CloseContext \<Rightarrow> SessionRef list" where
  "closing_ssh request context =
     filter (\<lambda>tab. (''ssh:'' @ ref_id tab) \<in> set (closing_ids request context)) (ctx_terminalTabs context)"

definition released_connections :: "CloseRequest \<Rightarrow> CloseContext \<Rightarrow> string set" where
  "released_connections request context =
     {c. (\<exists>tab \<in> set (ctx_terminalTabs context). ref_connectionId tab = c) \<and>
       (\<forall>tab \<in> set (ctx_terminalTabs context). ref_connectionId tab = c \<longrightarrow>
         (''ssh:'' @ ref_id tab) \<in> set (closing_ids request context))}"

lemma all_closing_released:
  assumes "c \<in> ref_connectionId ` set (closing_ssh request context)"
  shows "all_closing (ctx_terminalTabs context) (map ref_id (closing_ssh request context)) c \<longleftrightarrow>
    c \<in> released_connections request context"
  using assms by (force simp: all_closing_def closing_ssh_def released_connections_def)

lemma planClose_loop:
  obtains released where
    "release_loop (ctx_terminalTabs context) (map ref_id (closing_ssh request context))
       (map cft_connectionId (ctx_remoteFileTabs context)) (closing_ssh request context) ([], []) =
     (released, plan_connectionIds (planClose request context policy))"
    and "set released = released_connections request context" and "distinct released"
    and "plan_connectionIds (planClose request context policy) =
      filter (\<lambda>c. c \<in> cft_connectionId ` set (ctx_remoteFileTabs context)) released"
proof -
  obtain released cons where loop: "release_loop (ctx_terminalTabs context) (map ref_id (closing_ssh request context))
      (map cft_connectionId (ctx_remoteFileTabs context)) (closing_ssh request context) ([], []) = (released, cons)"
    by force
  have cons: "plan_connectionIds (planClose request context policy) = cons"
    using loop by (simp add: planClose_def closing_ssh_def Let_def)
  have "set released = {c \<in> ref_connectionId ` set (closing_ssh request context).
      all_closing (ctx_terminalTabs context) (map ref_id (closing_ssh request context)) c}"
    using release_loop_spec [OF loop] by simp
  also have "\<dots> = released_connections request context"
    using all_closing_released [of _ request "context"]
    by (auto simp: released_connections_def closing_ssh_def)
  finally show ?thesis
    using release_loop_spec [OF loop] loop cons by (intro that [of released]) auto
qed

lemma plan_fields:
  "plan_localTabIds (planClose r c p) = filter (\<lambda>i. (''local:'' @ i) \<in> set (closing_ids r c)) (ctx_localTerminalTabs c)"
  "plan_rdpSessionIds (planClose r c p) = filter (\<lambda>i. (''rdp:'' @ i) \<in> set (closing_ids r c)) (ctx_rdpSessions c)"
  "plan_vncSessionIds (planClose r c p) = filter (\<lambda>i. (''vnc:'' @ i) \<in> set (closing_ids r c)) (ctx_vncSessions c)"
  "plan_sshTabIds (planClose r c p) =
     map ref_id (filter (\<lambda>tab. ref_connectionId tab \<notin> set (plan_connectionIds (planClose r c p))) (closing_ssh r c))"
  "plan_splitGroup (planClose r c p) = req_splitGroup r"
  by (simp_all add: planClose_def closing_ssh_def Let_def split: prod.split)

lemma plan_connections:
  "set (plan_connectionIds (planClose r c p)) =
     released_connections r c \<inter> cft_connectionId ` set (ctx_remoteFileTabs c)"
  by (rule planClose_loop [of c r p]) auto

text \<open>
  C1. The close plan closes exactly what was asked for. A terminal, local terminal, RDP or VNC
  session that is open is closed by the plan iff the request (with the panes and the split
  group it names) covers it; a connection is closed as a whole, with its remote files, iff it
  has open files and every one of its terminals is covered.
\<close>

theorem planClose_exact:
  assumes "distinct (map ref_id (ctx_terminalTabs context))"
    and "plan = planClose request context policy"
  shows "(\<forall>tab \<in> set (ctx_terminalTabs context).
      (''ssh:'' @ ref_id tab) \<in> set (closing_ids request context) \<longleftrightarrow>
      ref_id tab \<in> set (plan_sshTabIds plan) \<or> ref_connectionId tab \<in> set (plan_connectionIds plan)) \<and>
    plan_localTabIds plan =
      filter (\<lambda>i. (''local:'' @ i) \<in> set (closing_ids request context)) (ctx_localTerminalTabs context) \<and>
    plan_rdpSessionIds plan =
      filter (\<lambda>i. (''rdp:'' @ i) \<in> set (closing_ids request context)) (ctx_rdpSessions context) \<and>
    plan_vncSessionIds plan =
      filter (\<lambda>i. (''vnc:'' @ i) \<in> set (closing_ids request context)) (ctx_vncSessions context) \<and>
    set (plan_connectionIds plan) =
      released_connections request context \<inter> cft_connectionId ` set (ctx_remoteFileTabs context)"
proof -
  have inj: "inj_on ref_id (set (ctx_terminalTabs context))"
    using assms(1) by (simp add: distinct_map)
  have "(''ssh:'' @ ref_id tab) \<in> set (closing_ids request context) \<longleftrightarrow>
      ref_id tab \<in> set (plan_sshTabIds plan) \<or> ref_connectionId tab \<in> set (plan_connectionIds plan)"
    if "tab \<in> set (ctx_terminalTabs context)" for tab
    using that inj unfolding assms(2) plan_fields plan_connections
    by (auto simp: closing_ssh_def released_connections_def inj_on_def)
  then show ?thesis
    unfolding assms(2) plan_connections by (simp add: plan_fields(1-3))
qed

definition sample_close_context :: CloseContext where
  "sample_close_context =
     \<lparr>ctx_localTerminalTabs = [''l1''], ctx_rdpSessions = [],
      ctx_remoteFileTabs =
        [\<lparr>cft_connectionId = ''c1'', cft_dirty = True, cft_name = ''f1''\<rparr>,
         \<lparr>cft_connectionId = ''c2'', cft_dirty = True, cft_name = ''f2''\<rparr>],
      ctx_remoteFileTransfers = Some [], ctx_splitMemberIds = [], ctx_splitPanes = Some [],
      ctx_terminalTabs =
        [\<lparr>ref_connectionId = ''c1'', ref_id = ''t1''\<rparr>, \<lparr>ref_connectionId = ''c2'', ref_id = ''t2''\<rparr>,
         \<lparr>ref_connectionId = ''c2'', ref_id = ''t3''\<rparr>],
      ctx_vncSessions = []\<rparr>"

definition sample_close_request :: CloseRequest where
  "sample_close_request =
     \<lparr>req_instanceIds = [''ssh:t1'', ''ssh:t2''], req_splitPaneIds = None, req_splitGroup = False\<rparr>"

theorem planClose_exact_witness:
  "set (plan_connectionIds (planClose sample_close_request sample_close_context ConfirmCancelActive)) =
     released_connections sample_close_request sample_close_context \<inter> {''c1'', ''c2''}"
  using planClose_exact [of sample_close_context _ sample_close_request ConfirmCancelActive]
  by (simp add: sample_close_context_def)

section \<open>Nothing is lost without confirmation\<close>

lemma plan_confirmation_None:
  assumes "plan_confirmation (planClose r c p) = None"
  shows "(\<forall>tab \<in> set (ctx_remoteFileTabs c).
      cft_dirty tab \<longrightarrow> cft_connectionId tab \<notin> set (plan_connectionIds (planClose r c p))) \<and>
    plan_transferIdsToCancel (planClose r c p) = None \<and>
    (req_splitGroup r \<longrightarrow> length (ctx_splitMemberIds c) \<le> 1)"
  using assms
  by (auto simp: planClose_def Let_def planRemoteFileTransferClose_def filter_empty_conv
      split: prod.splits if_splits)

lemma plan_confirmation_Some:
  assumes "plan_confirmation (planClose r c p) = Some k"
  shows "conf_dirtyFileNames k = map cft_name (filter (\<lambda>tab. cft_dirty tab \<and>
      cft_connectionId tab \<in> set (plan_connectionIds (planClose r c p))) (ctx_remoteFileTabs c))"
    and "conf_cascadeConnectionCount k = length (plan_connectionIds (planClose r c p))"
  using assms by (auto simp: planClose_def Let_def split: prod.splits if_splits)

text \<open>
  C2. A plan that needs no confirmation loses nothing: no dirty file belongs to a connection it
  closes, no queued or running transfer is cancelled, no split of several terminals is
  dissolved. A plan that needs one lists, in order, exactly the dirty files it will discard.
\<close>

theorem no_silent_loss:
  "(case plan_confirmation (planClose request context policy) of
      None \<Rightarrow>
        (\<forall>tab \<in> set (ctx_remoteFileTabs context). cft_dirty tab \<longrightarrow>
          cft_connectionId tab \<notin> set (plan_connectionIds (planClose request context policy))) \<and>
        plan_transferIdsToCancel (planClose request context policy) = None \<and>
        (req_splitGroup request \<longrightarrow> length (ctx_splitMemberIds context) \<le> 1)
    | Some k \<Rightarrow>
        conf_dirtyFileNames k = map cft_name (filter (\<lambda>tab. cft_dirty tab \<and>
          cft_connectionId tab \<in> set (plan_connectionIds (planClose request context policy)))
            (ctx_remoteFileTabs context)))"
  using plan_confirmation_None [of request "context" policy] plan_confirmation_Some(1) [of request "context" policy]
  by (cases "plan_confirmation (planClose request context policy)") auto

theorem no_silent_loss_witness:
  "case plan_confirmation (planClose sample_close_request (sample_close_context\<lparr>ctx_remoteFileTabs := []\<rparr>) KeepRunning) of
     None \<Rightarrow> plan_transferIdsToCancel (planClose sample_close_request
       (sample_close_context\<lparr>ctx_remoteFileTabs := []\<rparr>) KeepRunning) = None
   | Some k \<Rightarrow> conf_dirtyFileNames k = []"
  using no_silent_loss [of "sample_close_context\<lparr>ctx_remoteFileTabs := []\<rparr>" sample_close_request KeepRunning]
  by (simp split: option.splits)

section \<open>The confirmation machine\<close>

definition initial_close_machine :: close_machine where
  "initial_close_machine = \<lparr>cm_pending = None, cm_executed = []\<rparr>"

definition close_machine_ok :: "close_machine \<Rightarrow> bool" where
  "close_machine_ok m \<longleftrightarrow> (\<forall>plan \<in> set (cm_executed m). \<not> closePlanIsEmpty plan)"

interpretation close_requests: reducer "closeRequestStep policy" close_machine_ok
proof
  show "close_machine_ok (closeRequestStep policy m e)" if "close_machine_ok m" for m e
    using that by (cases e) (auto simp: close_machine_ok_def Let_def split: option.splits)
qed

lemma executed_step:
  "cm_executed (closeRequestStep policy m e) =
     cm_executed m @
       (case e of
          EventRequest r c \<Rightarrow>
            if cm_pending m = None \<and> \<not> closePlanIsEmpty (planClose r c policy) \<and>
               plan_confirmation (planClose r c policy) = None then [planClose r c policy] else []
        | EventConfirm c \<Rightarrow>
            (case cm_pending m of None \<Rightarrow> []
             | Some k \<Rightarrow> if closePlanIsEmpty (planClose (pending_request k) c policy) then []
                 else [planClose (pending_request k) c policy])
        | EventCancel \<Rightarrow> [])"
  by (cases e) (auto simp: Let_def split: option.splits)

definition confirm_event :: "close_event \<Rightarrow> bool" where
  "confirm_event e = (case e of EventConfirm c \<Rightarrow> True | _ \<Rightarrow> False)"

lemma risky_executed:
  "length (filter (\<lambda>plan. plan_confirmation plan \<noteq> None) (cm_executed (foldl (closeRequestStep policy) m es))) \<le>
     length (filter (\<lambda>plan. plan_confirmation plan \<noteq> None) (cm_executed m)) + length (filter confirm_event es)"
proof (induction es arbitrary: m)
  case (Cons e es)
  have "length (filter (\<lambda>plan. plan_confirmation plan \<noteq> None) (cm_executed (closeRequestStep policy m e))) \<le>
      length (filter (\<lambda>plan. plan_confirmation plan \<noteq> None) (cm_executed m)) + (if confirm_event e then 1 else 0)"
    unfolding executed_step by (cases e) (auto simp: confirm_event_def split: option.splits)
  with Cons.IH [of "closeRequestStep policy m e"] show ?case
    by (cases "confirm_event e") simp_all
qed simp

text \<open>
  Over any sequence of requests, confirmations and cancellations: no empty plan is
  executed; plans that needed a confirmation are executed at most as often as the user
  confirmed; a request made while one is pending changes nothing; and a cancellation executes
  nothing.
\<close>

theorem close_requests_confirmed:
  "let m = foldl (closeRequestStep policy) initial_close_machine events in
   (\<forall>plan \<in> set (cm_executed m). \<not> closePlanIsEmpty plan) \<and>
   length (filter (\<lambda>plan. plan_confirmation plan \<noteq> None) (cm_executed m)) \<le> length (filter confirm_event events) \<and>
   (cm_pending m \<noteq> None \<longrightarrow> closeRequestStep policy m (EventRequest request context) = m) \<and>
   cm_executed (closeRequestStep policy m EventCancel) = cm_executed m"
proof -
  have "close_machine_ok (foldl (closeRequestStep policy) initial_close_machine events)"
    by (rule close_requests.run_invar) (simp add: close_machine_ok_def initial_close_machine_def)
  then show ?thesis
    using risky_executed [of policy initial_close_machine events]
    by (simp add: Let_def close_machine_ok_def initial_close_machine_def)
qed

theorem close_requests_confirmed_witness:
  "length (filter (\<lambda>plan. plan_confirmation plan \<noteq> None) (cm_executed (foldl (closeRequestStep ConfirmCancelActive)
     initial_close_machine [EventRequest sample_close_request sample_close_context, EventCancel]))) = 0"
  using close_requests_confirmed [of ConfirmCancelActive
      "[EventRequest sample_close_request sample_close_context, EventCancel]"
      sample_close_request sample_close_context]
  by (simp add: Let_def confirm_event_def del: foldl.simps closeRequestStep.simps)

text \<open>
  Recomputing the plan on confirmation can enlarge it. While the dialog for a request is
  open, a terminal outside the request ends on its own; the recomputed plan then closes the
  whole connection of that terminal and discards a dirty file the dialog did not list.
\<close>

theorem confirmed_plan_can_grow:
  "let later = sample_close_context\<lparr>ctx_terminalTabs := filter (\<lambda>tab. ref_id tab \<noteq> ''t3'')
         (ctx_terminalTabs sample_close_context)\<rparr>;
       m = closeRequestStep currentRemoteFileTransferClosePolicy initial_close_machine
         (EventRequest sample_close_request sample_close_context);
       m' = closeRequestStep currentRemoteFileTransferClosePolicy m (EventConfirm later)
   in map_option (\<lambda>k. conf_dirtyFileNames (pending_confirmation k)) (cm_pending m) = Some [''f1''] \<and>
      map plan_connectionIds (cm_executed m') = [[''c1'', ''c2'']] \<and>
      map (\<lambda>plan. map_option conf_dirtyFileNames (plan_confirmation plan)) (cm_executed m') = [Some [''f1'', ''f2'']]"
  by code_simp

end
