(* ===== verification/Js_Json.thy ===== *)
theory Js_Json
  imports Prelude
begin

text \<open>
  JSON values, as \<open>JSON.parse\<close> returns them or as a component hands over a value of unknown type.
  An object is the list of its entries in order; a field that is absent is \<open>None\<close>.
\<close>

datatype json =
    JNull
  | JBool bool
  | JNum js_number
  | JStr string
  | JArr "json list"
  | JObj "(string \<times> json) list"

definition field :: "(string \<times> json) list \<Rightarrow> string \<Rightarrow> json option" where
  "field obj name = map_of obj name"

end
