(* ===== verification/Snapshot_Codec.thy ===== *)
theory Snapshot_Codec
  imports Instances Js_Json
begin

text \<open>
  The persisted workspace snapshot and its decoder
  (\<open>features/workspace/restore/snapshotTypes.ts\<close>, \<open>snapshotCodec.ts\<close>). What is read
  back from disk is an arbitrary JSON value; decoding either throws (\<open>Inl\<close>, one
  constructor per \<open>throw\<close> of the source) or yields a snapshot.

  Numbers distinguish the non-finite values the code tests for. A dictionary of the snapshot is an
  insertion-ordered association list.
\<close>

section \<open>Snapshot\<close>

datatype WorkspaceSnapshotSidebarView = SidebarSessions | SidebarFiles

datatype WorkspaceSnapshotTargetRef =
    ProfileTarget (profileId: string)
  | TemporaryTarget (targetId: string)

datatype WorkspaceSnapshotInstance =
    SnapSsh (snap_id: string) (snap_ordinal: int) (snap_target: WorkspaceSnapshotTargetRef)
  | SnapLocal (snap_id: string) (snap_ordinal: int) (snap_source: terminal_source)
      (snap_target: WorkspaceSnapshotTargetRef)
  | SnapRdp (snap_id: string) (snap_target: WorkspaceSnapshotTargetRef)
  | SnapVnc (snap_id: string) (snap_target: WorkspaceSnapshotTargetRef)

datatype WorkspaceSnapshotPaneNode =
    PaneLeaf string "string option"
  | PaneSplit split_direction WorkspaceSnapshotPaneNode string rat WorkspaceSnapshotPaneNode

record WorkspaceSnapshotFiles =
  files_directories :: "(string \<times> string) list"
  files_followActivePane :: bool
  files_followTerminalDirectories :: "(string \<times> bool) list option"

record WorkspaceSnapshotSidebar =
  sidebar_collapsed :: bool
  sidebar_view :: WorkspaceSnapshotSidebarView

record WorkspaceSnapshotV1 =
  ws_activeItemId :: "string option"
  ws_files :: WorkspaceSnapshotFiles
  ws_instances :: "WorkspaceSnapshotInstance list"
  ws_order :: "string list"
  ws_panes :: "WorkspaceSnapshotPaneNode option"
  ws_sidebar :: WorkspaceSnapshotSidebar

definition WORKSPACE_SNAPSHOT_VERSION :: rat where
  "WORKSPACE_SNAPSHOT_VERSION = 1"

fun is_snap_ssh :: "WorkspaceSnapshotInstance \<Rightarrow> bool" where
  "is_snap_ssh (SnapSsh i n t) = True"
| "is_snap_ssh _ = False"

fun snap_kind :: "WorkspaceSnapshotInstance \<Rightarrow> InstanceKind" where
  "snap_kind (SnapSsh i n t) = InstSsh"
| "snap_kind (SnapLocal i n s t) = InstLocal"
| "snap_kind (SnapRdp i t) = InstRdp"
| "snap_kind (SnapVnc i t) = InstVnc"

section \<open>Errors and readers\<close>

datatype snapshot_error =
    InvalidField string
  | UnsupportedVersion "json option"
  | TooManyInstances
  | DuplicateInstanceId string
  | UnsupportedInstanceKind "json option"
  | InvalidInstanceId InstanceKind string
  | UnsupportedTargetKind "json option"
  | PaneTreeTooDeep
  | UnsupportedPaneKind "json option"
  | InvalidOrdinal

definition MAX_INSTANCES :: nat where "MAX_INSTANCES = 100"
definition MAX_PANE_DEPTH :: nat where "MAX_PANE_DEPTH = 8"

definition read_record :: "json option \<Rightarrow> string \<Rightarrow> snapshot_error + (string \<times> json) list" where
  "read_record v label = (case v of Some (JObj obj) \<Rightarrow> Inr obj | _ \<Rightarrow> Inl (InvalidField label))"

definition read_array :: "json option \<Rightarrow> string \<Rightarrow> snapshot_error + json list" where
  "read_array v label = (case v of Some (JArr xs) \<Rightarrow> Inr xs | _ \<Rightarrow> Inl (InvalidField label))"

definition string_ok :: "string \<Rightarrow> bool" where
  "string_ok s \<longleftrightarrow> s \<noteq> [] \<and> js_length s \<le> 4096"

definition nonEmptyString :: "json option \<Rightarrow> string \<Rightarrow> snapshot_error + string" where
  "nonEmptyString v label =
     (case v of Some (JStr s) \<Rightarrow> if string_ok s then Inr s else Inl (InvalidField label)
      | _ \<Rightarrow> Inl (InvalidField label))"

definition read_number :: "json option \<Rightarrow> string \<Rightarrow> snapshot_error + rat" where
  "read_number v label =
     (case v of Some (JNum (Finite q)) \<Rightarrow> Inr q | _ \<Rightarrow> Inl (InvalidField label))"

definition ordinal :: "json option \<Rightarrow> snapshot_error + int" where
  "ordinal v =
     result_bind (read_number v ''instance.ordinal'') (\<lambda>q.
       if of_int \<lfloor>q\<rfloor> \<noteq> q \<or> q < 0 then Inl InvalidOrdinal else Inr \<lfloor>q\<rfloor>)"

text \<open>\<open>Boolean(value)\<close>.\<close>

definition js_boolean :: "json option \<Rightarrow> bool" where
  "js_boolean v =
     (case v of
        None \<Rightarrow> False
      | Some JNull \<Rightarrow> False
      | Some (JBool b) \<Rightarrow> b
      | Some (JNum n) \<Rightarrow> n \<noteq> Finite 0 \<and> n \<noteq> NaN
      | Some (JStr s) \<Rightarrow> s \<noteq> []
      | Some (JArr xs) \<Rightarrow> True
      | Some (JObj ps) \<Rightarrow> True)"

definition dedupeStrings :: "json list \<Rightarrow> string list" where
  "dedupeStrings values =
     dedupe (concat (map (\<lambda>v. case v of JStr s \<Rightarrow> [s] | _ \<Rightarrow> []) values))"

section \<open>Decoder\<close>

definition requireInstancePrefix :: "string \<Rightarrow> InstanceKind \<Rightarrow> snapshot_error + unit" where
  "requireInstancePrefix i kind =
     (let pre = instance_kind_name kind @ '':''
      in if \<not> prefix pre i \<or> length i = length pre then Inl (InvalidInstanceId kind i) else Inr ())"

definition parseTarget :: "json option \<Rightarrow> snapshot_error + WorkspaceSnapshotTargetRef" where
  "parseTarget v =
     result_bind (read_record v ''instance.target'') (\<lambda>target.
       if field target ''kind'' = Some (JStr ''profile'') then
         result_bind (nonEmptyString (field target ''profileId'') ''profileId'') (\<lambda>p. Inr (ProfileTarget p))
       else if field target ''kind'' = Some (JStr ''temporary'') then
         result_bind (nonEmptyString (field target ''targetId'') ''targetId'') (\<lambda>t. Inr (TemporaryTarget t))
       else Inl (UnsupportedTargetKind (field target ''kind'')))"

definition read_source :: "json option \<Rightarrow> terminal_source" where
  "read_source v =
     (if v = Some (JStr ''telnet'') then SourceTelnet
      else if v = Some (JStr ''serial'') then SourceSerial else SourceLocal)"

definition parseInstance :: "json \<Rightarrow> snapshot_error + WorkspaceSnapshotInstance" where
  "parseInstance v =
     result_bind (read_record (Some v) ''instance'') (\<lambda>item.
     result_bind (nonEmptyString (field item ''id'') ''instance.id'') (\<lambda>i.
     result_bind (parseTarget (field item ''target'')) (\<lambda>target.
       if field item ''kind'' = Some (JStr ''ssh'') then
         result_bind (requireInstancePrefix i InstSsh) (\<lambda>_.
         result_bind (ordinal (field item ''ordinal'')) (\<lambda>n. Inr (SnapSsh i n target)))
       else if field item ''kind'' = Some (JStr ''local'') then
         result_bind (requireInstancePrefix i InstLocal) (\<lambda>_.
         result_bind (ordinal (field item ''ordinal'')) (\<lambda>n.
           Inr (SnapLocal i n (read_source (field item ''source'')) target)))
       else if field item ''kind'' = Some (JStr ''rdp'') then
         result_bind (requireInstancePrefix i InstRdp) (\<lambda>_. Inr (SnapRdp i target))
       else if field item ''kind'' = Some (JStr ''vnc'') then
         result_bind (requireInstancePrefix i InstVnc) (\<lambda>_. Inr (SnapVnc i target))
       else Inl (UnsupportedInstanceKind (field item ''kind'')))))"

text \<open>
  The depth test bounds the recursion: the first argument is the number of levels left,
  \<open>MAX_PANE_DEPTH + 1 - depth\<close>, and the source throws exactly when it is zero.
\<close>

fun parsePane :: "nat \<Rightarrow> json option \<Rightarrow> string list \<Rightarrow> snapshot_error + WorkspaceSnapshotPaneNode" where
  "parsePane 0 v liveIds = Inl PaneTreeTooDeep"
| "parsePane (Suc left) v liveIds =
     result_bind (read_record v ''pane'') (\<lambda>node.
     result_bind (nonEmptyString (field node ''id'') ''pane.id'') (\<lambda>i.
       if field node ''kind'' = Some (JStr ''leaf'') then
         Inr (PaneLeaf i (case field node ''instanceId'' of
             Some (JStr s) \<Rightarrow> if s \<in> set liveIds then Some s else None | _ \<Rightarrow> None))
       else if field node ''kind'' \<noteq> Some (JStr ''split'') then
         Inl (UnsupportedPaneKind (field node ''kind''))
       else
         result_bind (parsePane left (field node ''first'') liveIds) (\<lambda>first.
         result_bind (read_number (field node ''ratio'') ''pane.ratio'') (\<lambda>ratio.
         result_bind (parsePane left (field node ''second'') liveIds) (\<lambda>second.
           Inr (PaneSplit (if field node ''direction'' = Some (JStr ''column'') then Column else Row)
             first i (clampTerminalSplitRatio ratio) second))))))"

definition sanitizeActiveItem :: "json option \<Rightarrow> string list \<Rightarrow> bool \<Rightarrow> string option" where
  "sanitizeActiveItem v liveIds hasPanes =
     (if v = Some (JStr HOME_ITEM_ID) then Some HOME_ITEM_ID
      else if v = Some (JStr SPLIT_ITEM_ID) then (if hasPanes then Some SPLIT_ITEM_ID else None)
      else case v of Some (JStr s) \<Rightarrow> if s \<in> set liveIds then Some s else None | _ \<Rightarrow> None)"

fun first_duplicate :: "string list \<Rightarrow> string list \<Rightarrow> string option" where
  "first_duplicate seen [] = None"
| "first_duplicate seen (x # xs) = (if x \<in> set seen then Some x else first_duplicate (x # seen) xs)"

definition complete_order :: "string list \<Rightarrow> string list \<Rightarrow> string list" where
  "complete_order order ids = foldl (\<lambda>order i. if i \<in> set order then order else order @ [i]) order ids"

definition read_directories :: "string list \<Rightarrow> (string \<times> json) list \<Rightarrow> (string \<times> string) list" where
  "read_directories sshIds entries =
     map_from (concat (map (\<lambda>(i, v). case v of
         JStr path \<Rightarrow> if i \<in> set sshIds \<and> path \<noteq> [] then [(i, path)] else [] | _ \<Rightarrow> []) entries))"

definition read_follow :: "string list \<Rightarrow> (string \<times> json) list \<Rightarrow> (string \<times> bool) list" where
  "read_follow sshIds entries =
     map_from (concat (map (\<lambda>(i, v). case v of
         JBool b \<Rightarrow> if i \<in> set sshIds then [(i, b)] else [] | _ \<Rightarrow> []) entries))"

definition check_distinct :: "string list \<Rightarrow> snapshot_error + unit" where
  "check_distinct ids =
     (case first_duplicate [] ids of Some d \<Rightarrow> Inl (DuplicateInstanceId d) | None \<Rightarrow> Inr ())"

definition read_panes :: "json option \<Rightarrow> string list \<Rightarrow> snapshot_error + WorkspaceSnapshotPaneNode option" where
  "read_panes v ids =
     (if v = None \<or> v = Some JNull then Inr None
      else result_bind (parsePane (Suc MAX_PANE_DEPTH) v ids) (\<lambda>n. Inr (Some n)))"

definition read_follow_field :: "json option \<Rightarrow> string list \<Rightarrow> snapshot_error + (string \<times> bool) list option" where
  "read_follow_field v sshIds =
     (if v = None then Inr None
      else result_bind (read_record v ''files.followTerminalDirectories'')
        (\<lambda>entries. Inr (Some (read_follow sshIds entries))))"

definition decodeWorkspaceSnapshot :: "json \<Rightarrow> snapshot_error + WorkspaceSnapshotV1" where
  "decodeWorkspaceSnapshot v =
     result_bind (read_record (Some v) ''snapshot'') (\<lambda>root.
     result_when (field root ''version'' \<noteq> Some (JNum (Finite WORKSPACE_SNAPSHOT_VERSION)))
       (UnsupportedVersion (field root ''version'')) (
     result_bind (read_array (field root ''instances'') ''instances'') (\<lambda>rawInstances.
     result_when (length rawInstances > MAX_INSTANCES) TooManyInstances (
     result_bind (result_map parseInstance rawInstances) (\<lambda>instances.
     result_bind (check_distinct (map snap_id instances)) (\<lambda>_.
     result_bind (read_panes (field root ''panes'') (map snap_id instances)) (\<lambda>panes.
     result_bind (read_array (field root ''order'') ''order'') (\<lambda>rawOrder.
     result_bind (read_record (field root ''files'') ''files'') (\<lambda>files.
     result_bind (read_record (field files ''directories'') ''files.directories'') (\<lambda>dirs.
     result_bind (read_record (field root ''sidebar'') ''sidebar'') (\<lambda>sidebar.
     result_bind (read_follow_field (field files ''followTerminalDirectories'')
       (map snap_id (filter is_snap_ssh instances))) (\<lambda>follow.
       Inr \<lparr>ws_activeItemId = sanitizeActiveItem (field root ''activeItemId'') (map snap_id instances) (panes \<noteq> None),
            ws_files = \<lparr>files_directories = read_directories (map snap_id (filter is_snap_ssh instances)) dirs,
              files_followActivePane = js_boolean (field files ''followActivePane''),
              files_followTerminalDirectories = follow\<rparr>,
            ws_instances = instances,
            ws_order = complete_order (filter (\<lambda>i. i \<in> set (map snap_id instances)) (dedupeStrings rawOrder))
              (map snap_id instances),
            ws_panes = panes,
            ws_sidebar = \<lparr>sidebar_collapsed = js_boolean (field sidebar ''collapsed''),
              sidebar_view = (if field sidebar ''view'' = Some (JStr ''files'')
                then SidebarFiles else SidebarSessions)\<rparr>\<rparr>))))))))))))"

section \<open>Selection between current and backup\<close>

record WorkspaceSnapshotEnvelope =
  env_backup :: "json option"
  env_current :: "json option"

datatype snapshot_source = FromBackup | FromCurrent | FromNone

record WorkspaceSnapshotSelection =
  sel_currentError :: "snapshot_error option"
  sel_snapshot :: "WorkspaceSnapshotV1 option"
  sel_source :: snapshot_source

text \<open>A value that is not nullish, as tested by \<open>!= null\<close>.\<close>

definition present :: "json option \<Rightarrow> json option" where
  "present v = (case v of Some JNull \<Rightarrow> None | _ \<Rightarrow> v)"

definition select_backup :: "snapshot_error option \<Rightarrow> json option \<Rightarrow> WorkspaceSnapshotSelection" where
  "select_backup err backup =
     (case present backup of
        None \<Rightarrow> \<lparr>sel_currentError = err, sel_snapshot = None, sel_source = FromNone\<rparr>
      | Some b \<Rightarrow>
          (case decodeWorkspaceSnapshot b of
             Inr s \<Rightarrow> \<lparr>sel_currentError = err, sel_snapshot = Some s, sel_source = FromBackup\<rparr>
           | Inl _ \<Rightarrow> \<lparr>sel_currentError = err, sel_snapshot = None, sel_source = FromNone\<rparr>))"

definition selectWorkspaceSnapshot :: "WorkspaceSnapshotEnvelope \<Rightarrow> WorkspaceSnapshotSelection" where
  "selectWorkspaceSnapshot envelope =
     (case present (env_current envelope) of
        Some c \<Rightarrow>
          (case decodeWorkspaceSnapshot c of
             Inr s \<Rightarrow> \<lparr>sel_currentError = None, sel_snapshot = Some s, sel_source = FromCurrent\<rparr>
           | Inl e \<Rightarrow> select_backup (Some e) (env_backup envelope))
      | None \<Rightarrow> select_backup None (env_backup envelope))"

section \<open>Well-formed snapshots and their JSON form\<close>

fun target_ok :: "WorkspaceSnapshotTargetRef \<Rightarrow> bool" where
  "target_ok (ProfileTarget p) \<longleftrightarrow> string_ok p"
| "target_ok (TemporaryTarget t) \<longleftrightarrow> string_ok t"

fun ordinal_ok :: "WorkspaceSnapshotInstance \<Rightarrow> bool" where
  "ordinal_ok (SnapSsh i n t) \<longleftrightarrow> 0 \<le> n"
| "ordinal_ok (SnapLocal i n s t) \<longleftrightarrow> 0 \<le> n"
| "ordinal_ok _ \<longleftrightarrow> True"

definition id_of_kind :: "InstanceKind \<Rightarrow> string \<Rightarrow> bool" where
  "id_of_kind k i \<longleftrightarrow> string_ok i \<and> (\<exists>raw. raw \<noteq> [] \<and> i = instanceItemId k raw)"

definition instance_ok :: "WorkspaceSnapshotInstance \<Rightarrow> bool" where
  "instance_ok x \<longleftrightarrow> id_of_kind (snap_kind x) (snap_id x) \<and> target_ok (snap_target x) \<and> ordinal_ok x"

fun pane_ok :: "nat \<Rightarrow> string list \<Rightarrow> WorkspaceSnapshotPaneNode \<Rightarrow> bool" where
  "pane_ok 0 ids n \<longleftrightarrow> False"
| "pane_ok (Suc k) ids (PaneLeaf i x) \<longleftrightarrow> string_ok i \<and> (\<forall>s. x = Some s \<longrightarrow> s \<in> set ids)"
| "pane_ok (Suc k) ids (PaneSplit d first i r second) \<longleftrightarrow>
     string_ok i \<and> terminalSplitMinRatio \<le> r \<and> r \<le> terminalSplitMaxRatio \<and>
     pane_ok k ids first \<and> pane_ok k ids second"

definition snapshot_ok :: "WorkspaceSnapshotV1 \<Rightarrow> bool" where
  "snapshot_ok s \<longleftrightarrow>
     (let ids = map snap_id (ws_instances s);
          sshIds = map snap_id (filter is_snap_ssh (ws_instances s))
      in length (ws_instances s) \<le> MAX_INSTANCES \<and> distinct ids \<and>
         (\<forall>x \<in> set (ws_instances s). instance_ok x) \<and>
         distinct (ws_order s) \<and> set (ws_order s) = set ids \<and>
         pred_option (pane_ok (Suc MAX_PANE_DEPTH) ids) (ws_panes s) \<and>
         (\<forall>a. ws_activeItemId s = Some a \<longrightarrow>
            a = HOME_ITEM_ID \<or> (a = SPLIT_ITEM_ID \<and> ws_panes s \<noteq> None) \<or> a \<in> set ids) \<and>
         distinct (map_keys (files_directories (ws_files s))) \<and>
         (\<forall>(i, path) \<in> set (files_directories (ws_files s)). i \<in> set sshIds \<and> path \<noteq> []) \<and>
         (\<forall>f. files_followTerminalDirectories (ws_files s) = Some f \<longrightarrow>
            distinct (map_keys f) \<and> set (map_keys f) \<subseteq> set sshIds))"

fun encode_target :: "WorkspaceSnapshotTargetRef \<Rightarrow> json" where
  "encode_target (ProfileTarget p) = JObj [(''kind'', JStr ''profile''), (''profileId'', JStr p)]"
| "encode_target (TemporaryTarget t) = JObj [(''kind'', JStr ''temporary''), (''targetId'', JStr t)]"

fun source_name :: "terminal_source \<Rightarrow> string" where
  "source_name SourceLocal = ''local''"
| "source_name SourceTelnet = ''telnet''"
| "source_name SourceSerial = ''serial''"

fun encode_instance :: "WorkspaceSnapshotInstance \<Rightarrow> json" where
  "encode_instance (SnapSsh i n t) =
     JObj [(''id'', JStr i), (''kind'', JStr ''ssh''), (''ordinal'', JNum (Finite (of_int n))),
       (''target'', encode_target t)]"
| "encode_instance (SnapLocal i n s t) =
     JObj [(''id'', JStr i), (''kind'', JStr ''local''), (''ordinal'', JNum (Finite (of_int n))),
       (''source'', JStr (source_name s)), (''target'', encode_target t)]"
| "encode_instance (SnapRdp i t) =
     JObj [(''id'', JStr i), (''kind'', JStr ''rdp''), (''target'', encode_target t)]"
| "encode_instance (SnapVnc i t) =
     JObj [(''id'', JStr i), (''kind'', JStr ''vnc''), (''target'', encode_target t)]"

definition encode_null :: "string option \<Rightarrow> json" where
  "encode_null v = (case v of None \<Rightarrow> JNull | Some s \<Rightarrow> JStr s)"

fun encode_pane :: "WorkspaceSnapshotPaneNode \<Rightarrow> json" where
  "encode_pane (PaneLeaf i x) =
     JObj [(''id'', JStr i), (''instanceId'', encode_null x), (''kind'', JStr ''leaf'')]"
| "encode_pane (PaneSplit d first i r second) =
     JObj [(''direction'', JStr (case d of Row \<Rightarrow> ''row'' | Column \<Rightarrow> ''column'')),
       (''first'', encode_pane first), (''id'', JStr i), (''kind'', JStr ''split''),
       (''ratio'', JNum (Finite r)), (''second'', encode_pane second)]"

definition encode_files :: "WorkspaceSnapshotFiles \<Rightarrow> json" where
  "encode_files f =
     JObj ([(''directories'', JObj (map (\<lambda>(i, p). (i, JStr p)) (files_directories f))),
       (''followActivePane'', JBool (files_followActivePane f))] @
       (case files_followTerminalDirectories f of None \<Rightarrow> []
        | Some m \<Rightarrow> [(''followTerminalDirectories'', JObj (map (\<lambda>(i, b). (i, JBool b)) m))]))"

definition encodeWorkspaceSnapshot :: "WorkspaceSnapshotV1 \<Rightarrow> json" where
  "encodeWorkspaceSnapshot s =
     JObj [(''activeItemId'', encode_null (ws_activeItemId s)),
       (''files'', encode_files (ws_files s)),
       (''instances'', JArr (map encode_instance (ws_instances s))),
       (''order'', JArr (map JStr (ws_order s))),
       (''panes'', case ws_panes s of None \<Rightarrow> JNull | Some n \<Rightarrow> encode_pane n),
       (''sidebar'', JObj [(''collapsed'', JBool (sidebar_collapsed (ws_sidebar s))),
          (''view'', JStr (case sidebar_view (ws_sidebar s) of
             SidebarSessions \<Rightarrow> ''sessions'' | SidebarFiles \<Rightarrow> ''files''))]),
       (''version'', JNum (Finite WORKSPACE_SNAPSHOT_VERSION))]"

section \<open>Readers\<close>

lemma nonEmptyString_Inr [simp]: "nonEmptyString v l = Inr s \<longleftrightarrow> v = Some (JStr s) \<and> string_ok s"
  by (auto simp: nonEmptyString_def split: option.splits json.splits)

lemma read_number_Inr [simp]: "read_number v l = Inr q \<longleftrightarrow> v = Some (JNum (Finite q))"
  by (auto simp: read_number_def split: option.splits json.splits js_number.splits)

lemma read_record_Inr [simp]: "read_record v l = Inr r \<longleftrightarrow> v = Some (JObj r)"
  by (auto simp: read_record_def split: option.splits json.splits)

lemma read_array_Inr [simp]: "read_array v l = Inr xs \<longleftrightarrow> v = Some (JArr xs)"
  by (auto simp: read_array_def split: option.splits json.splits)

lemma ordinal_Inr: "ordinal v = Inr n \<longleftrightarrow> 0 \<le> n \<and> v = Some (JNum (Finite (of_int n)))"
proof
  show "0 \<le> n \<and> v = Some (JNum (Finite (of_int n)))" if "ordinal v = Inr n"
    using that by (auto simp: ordinal_def result_bind_eq_Inr split: if_splits)
  show "ordinal v = Inr n" if "0 \<le> n \<and> v = Some (JNum (Finite (of_int n)))"
    using that by (simp add: ordinal_def read_number_def)
qed

lemma requireInstancePrefix_Inr:
  "requireInstancePrefix i k = Inr u \<longleftrightarrow> (\<exists>raw. raw \<noteq> [] \<and> i = instanceItemId k raw)"
  by (auto simp: requireInstancePrefix_def Let_def instanceItemId_def prefix_def)

lemma parseTarget_ok: "parseTarget v = Inr t \<Longrightarrow> target_ok t"
  by (auto simp: parseTarget_def result_bind_eq_Inr split: if_splits)

lemma parseInstance_ok: "parseInstance v = Inr x \<Longrightarrow> instance_ok x"
  by (auto simp: parseInstance_def result_bind_eq_Inr requireInstancePrefix_Inr ordinal_Inr
      instance_ok_def id_of_kind_def split: if_splits dest: parseTarget_ok)

lemma parsePane_ok: "parsePane k v ids = Inr n \<Longrightarrow> pane_ok k ids n"
proof (induction k v ids arbitrary: n rule: parsePane.induct)
  case (2 k v ids)
  then show ?case
    by (auto simp: result_bind_eq_Inr clampTerminalSplitRatio_bounds split: if_splits option.splits json.splits)
qed simp

lemma first_duplicate_None: "first_duplicate seen xs = None \<longleftrightarrow> distinct xs \<and> set xs \<inter> set seen = {}"
  by (induction seen xs rule: first_duplicate.induct) auto

lemma complete_order_facts:
  "distinct order \<Longrightarrow> distinct (complete_order order ids) \<and> set (complete_order order ids) = set order \<union> set ids"
  unfolding complete_order_def by (induction ids arbitrary: order) auto

lemma complete_order_id: "set ids \<subseteq> set order \<Longrightarrow> complete_order order ids = order"
  unfolding complete_order_def by (induction ids) auto

lemma read_directories_ok:
  "distinct (map_keys (read_directories ids es)) \<and>
   (\<forall>(i, path) \<in> set (read_directories ids es). i \<in> set ids \<and> path \<noteq> [])"
proof -
  have "i \<in> set ids \<and> path \<noteq> []" if "(i, path) \<in> set (read_directories ids es)" for i path
  proof -
    have "map_of (read_directories ids es) i = Some path"
      using that by (simp add: read_directories_def distinct_keys_map_from)
    then show ?thesis
      unfolding read_directories_def map_of_map_from
      by (auto dest!: map_of_revD split: json.splits if_splits)
  qed
  then show ?thesis
    by (auto simp: read_directories_def distinct_keys_map_from)
qed

lemma read_follow_ok:
  "distinct (map_keys (read_follow ids es)) \<and> set (map_keys (read_follow ids es)) \<subseteq> set ids"
proof -
  have "fst ` set (read_follow ids es) \<subseteq> set ids"
    unfolding read_follow_def keys_map_from by (auto split: json.splits if_splits)
  then show ?thesis
    by (simp add: read_follow_def distinct_keys_map_from)
qed

section \<open>Soundness\<close>

lemma check_distinct_Inr [simp]: "check_distinct ids = Inr u \<longleftrightarrow> distinct ids"
  by (auto simp: check_distinct_def first_duplicate_None split: option.splits dest: sym)
    (metis Int_empty_right empty_set first_duplicate_None option.distinct(1))

lemma read_panes_ok: "read_panes v ids = Inr p \<Longrightarrow> pred_option (pane_ok (Suc MAX_PANE_DEPTH) ids) p"
  by (auto simp: read_panes_def result_bind_eq_Inr simp del: parsePane.simps pane_ok.simps
      split: if_splits intro: parsePane_ok)

lemma read_follow_field_ok:
  "read_follow_field v ids = Inr (Some f) \<Longrightarrow> distinct (map_keys f) \<and> set (map_keys f) \<subseteq> set ids"
  using read_follow_ok by (auto simp: read_follow_field_def result_bind_eq_Inr split: if_splits)

lemma sanitizeActiveItem_ok:
  "sanitizeActiveItem v ids h = Some a \<Longrightarrow> a = HOME_ITEM_ID \<or> (a = SPLIT_ITEM_ID \<and> h) \<or> a \<in> set ids"
  by (auto simp: sanitizeActiveItem_def split: if_splits option.splits json.splits)

lemma decode_ok:
  assumes "decodeWorkspaceSnapshot v = Inr s"
  shows "snapshot_ok s"
proof -
  from assms obtain root raws insts u panes dirs order files sidebar follow where
    raws: "\<not> MAX_INSTANCES < length raws" "result_map parseInstance raws = Inr insts"
      "check_distinct (map snap_id insts) = Inr u"
    and panes: "read_panes (field root ''panes'') (map snap_id insts) = Inr panes"
    and follow: "read_follow_field (field files ''followTerminalDirectories'') (map snap_id (filter is_snap_ssh insts)) = Inr follow"
    and eq: "Inr \<lparr>ws_activeItemId = sanitizeActiveItem (field root ''activeItemId'') (map snap_id insts) (panes \<noteq> None),
        ws_files = \<lparr>files_directories = read_directories (map snap_id (filter is_snap_ssh insts)) dirs,
          files_followActivePane = js_boolean (field files ''followActivePane''),
          files_followTerminalDirectories = follow\<rparr>,
        ws_instances = insts,
        ws_order = complete_order (filter (\<lambda>i. i \<in> set (map snap_id insts)) (dedupeStrings order)) (map snap_id insts),
        ws_panes = panes,
        ws_sidebar = \<lparr>sidebar_collapsed = js_boolean (field sidebar ''collapsed''),
          sidebar_view = (if field sidebar ''view'' = Some (JStr ''files'') then SidebarFiles else SidebarSessions)\<rparr>\<rparr> =
        (Inr s :: snapshot_error + _)"
    unfolding decodeWorkspaceSnapshot_def result_bind_eq_Inr result_when_eq_Inr
    by (elim exE conjE) (rule that, assumption+)
  note s = eq [unfolded sum.inject, symmetric]
  have "length insts \<le> MAX_INSTANCES"
    using raws(1,2) by (metis list_all2_lengthD not_less result_map_Inr_iff)
  moreover have "\<forall>x \<in> set insts. instance_ok x"
    using raws(2) by (auto dest!: result_map_Inr_set intro: parseInstance_ok)
  moreover have "distinct (ws_order s)" "set (ws_order s) = set (map snap_id insts)"
    using complete_order_facts [of "filter (\<lambda>i. i \<in> set (map snap_id insts)) (dedupeStrings order)" "map snap_id insts"]
    by (auto simp: s dedupeStrings_def)
  moreover have "\<forall>a. ws_activeItemId s = Some a \<longrightarrow>
      a = HOME_ITEM_ID \<or> (a = SPLIT_ITEM_ID \<and> panes \<noteq> None) \<or> a \<in> set (map snap_id insts)"
    by (auto simp: s dest!: sanitizeActiveItem_ok)
  moreover have "\<forall>f. follow = Some f \<longrightarrow>
      distinct (map_keys f) \<and> set (map_keys f) \<subseteq> set (map snap_id (filter is_snap_ssh insts))"
    using follow read_follow_field_ok by blast
  ultimately show ?thesis
    using raws(3) read_panes_ok [OF panes]
      read_directories_ok [of "map snap_id (filter is_snap_ssh insts)" dirs]
    by (simp add: snapshot_ok_def Let_def s)
qed

section \<open>Round trip\<close>

lemma decode_target: "target_ok t \<Longrightarrow> parseTarget (Some (encode_target t)) = Inr t"
  by (cases t) (simp_all add: parseTarget_def read_record_def field_def nonEmptyString_def)

lemma read_source_name [simp]: "read_source (Some (JStr (source_name s))) = s"
  by (cases s) (simp_all add: read_source_def)

lemma decode_instance: "instance_ok x \<Longrightarrow> parseInstance (encode_instance x) = Inr x"
proof -
  assume ok: "instance_ok x"
  have pre: "requireInstancePrefix (snap_id x) (snap_kind x) = Inr ()"
    using ok by (simp add: requireInstancePrefix_Inr instance_ok_def id_of_kind_def)
  have ord: "0 \<le> n \<Longrightarrow> ordinal (Some (JNum (Finite (of_int n)))) = Inr n" for n
    by (simp add: ordinal_Inr)
  from ok pre show ?thesis
    by (cases x) (simp_all add: parseInstance_def read_record_def field_def nonEmptyString_def
        decode_target ord instance_ok_def id_of_kind_def)
qed

lemma decode_pane: "pane_ok k ids n \<Longrightarrow> parsePane k (Some (encode_pane n)) ids = Inr n"
proof (induction k ids n rule: pane_ok.induct)
  case (2 k ids i x)
  then show ?case
    by (cases x) (simp_all add: read_record_def field_def nonEmptyString_def encode_null_def)
next
  case (3 k ids d first i r second)
  then show ?case
    by (cases d) (simp_all add: read_record_def field_def nonEmptyString_def read_number_def clampTerminalSplitRatio_id)
qed simp

lemma read_directories_encode:
  assumes "distinct (map_keys ds)" "\<forall>(i, path) \<in> set ds. i \<in> set ids \<and> path \<noteq> []"
  shows "read_directories ids (map (\<lambda>(i, p). (i, JStr p)) ds) = ds"
proof -
  have "concat (map (\<lambda>(i, v). case v of JStr path \<Rightarrow> if i \<in> set ids \<and> path \<noteq> [] then [(i, path)] else []
      | _ \<Rightarrow> []) (map (\<lambda>(i, p). (i, JStr p)) ds)) = ds"
    using assms(2) by (induction ds) auto
  then show ?thesis
    using assms(1) by (simp add: read_directories_def map_from_distinct)
qed

lemma read_follow_encode:
  assumes "distinct (map_keys ds)" "set (map_keys ds) \<subseteq> set ids"
  shows "read_follow ids (map (\<lambda>(i, b). (i, JBool b)) ds) = ds"
proof -
  have "concat (map (\<lambda>(i, v). case v of JBool b \<Rightarrow> if i \<in> set ids then [(i, b)] else []
      | _ \<Rightarrow> []) (map (\<lambda>(i, b). (i, JBool b)) ds)) = ds"
    using assms(2) by (induction ds) auto
  then show ?thesis
    using assms(1) by (simp add: read_follow_def map_from_distinct)
qed

lemma dedupeStrings_encode: "distinct xs \<Longrightarrow> dedupeStrings (map JStr xs) = xs"
proof -
  have "concat (map (\<lambda>v. case v of JStr s \<Rightarrow> [s] | _ \<Rightarrow> []) (map JStr xs)) = xs"
    by (induction xs) auto
  then show "distinct xs \<Longrightarrow> dedupeStrings (map JStr xs) = xs"
    by (simp add: dedupeStrings_def)
qed

lemma encode_pane_JObj: "\<exists>ps. encode_pane n = JObj ps"
  by (cases n) simp_all

lemma read_panes_encode:
  assumes "pred_option (pane_ok (Suc MAX_PANE_DEPTH) ids) p"
  shows "read_panes (Some (case p of None \<Rightarrow> JNull | Some n \<Rightarrow> encode_pane n)) ids = Inr p"
proof (cases p)
  case (Some n)
  then have "parsePane (Suc MAX_PANE_DEPTH) (Some (encode_pane n)) ids = Inr n"
    using assms by (intro decode_pane) simp
  with Some show ?thesis
    using encode_pane_JObj [of n] by (auto simp: read_panes_def simp del: parsePane.simps)
qed (simp add: read_panes_def)

lemma sanitizeActiveItem_encode:
  assumes "\<forall>a. v = Some a \<longrightarrow> a = HOME_ITEM_ID \<or> (a = SPLIT_ITEM_ID \<and> h) \<or> a \<in> set ids"
    and "HOME_ITEM_ID \<notin> set ids" "SPLIT_ITEM_ID \<notin> set ids"
  shows "sanitizeActiveItem (Some (encode_null v)) ids h = v"
  using assms by (cases v) (auto simp: sanitizeActiveItem_def encode_null_def HOME_ITEM_ID_def SPLIT_ITEM_ID_def)

lemma decode_encode:
  assumes ok: "snapshot_ok s"
  shows "decodeWorkspaceSnapshot (encodeWorkspaceSnapshot s) = Inr s"
proof -
  let ?ids = "map snap_id (ws_instances s)"
  let ?ssh = "map snap_id (filter is_snap_ssh (ws_instances s))"
  have insts: "length (ws_instances s) \<le> MAX_INSTANCES" "distinct ?ids" "\<forall>x \<in> set (ws_instances s). instance_ok x"
    and order: "distinct (ws_order s)" "set (ws_order s) = set ?ids"
    and panes: "pred_option (pane_ok (Suc MAX_PANE_DEPTH) ?ids) (ws_panes s)"
    and active: "\<forall>a. ws_activeItemId s = Some a \<longrightarrow>
        a = HOME_ITEM_ID \<or> (a = SPLIT_ITEM_ID \<and> ws_panes s \<noteq> None) \<or> a \<in> set ?ids"
    and dirs: "distinct (map_keys (files_directories (ws_files s)))"
        "\<forall>(i, path) \<in> set (files_directories (ws_files s)). i \<in> set ?ssh \<and> path \<noteq> []"
    and follow: "\<forall>f. files_followTerminalDirectories (ws_files s) = Some f \<longrightarrow>
        distinct (map_keys f) \<and> set (map_keys f) \<subseteq> set ?ssh"
    using ok [unfolded snapshot_ok_def Let_def] by blast+
  have shape: "HOME_ITEM_ID \<notin> set ?ids" "SPLIT_ITEM_ID \<notin> set ?ids"
    using insts(3) by (auto simp: instance_ok_def id_of_kind_def)
  have 1: "result_map parseInstance (map encode_instance (ws_instances s)) = Inr (ws_instances s)"
    using insts(3) by (intro result_map_cong_Inr decode_instance) blast
  have 2: "check_distinct ?ids = Inr ()"
    using insts(2) by simp
  have 3: "complete_order (filter (\<lambda>i. i \<in> set ?ids) (dedupeStrings (map JStr (ws_order s)))) ?ids = ws_order s"
    using order by (simp add: dedupeStrings_encode complete_order_id)
  have 4: "read_follow_field (map_of (case files_followTerminalDirectories (ws_files s) of None \<Rightarrow> []
        | Some m \<Rightarrow> [(''followTerminalDirectories'', JObj (map (\<lambda>(i, b). (i, JBool b)) m))]) ''followTerminalDirectories'')
      ?ssh = Inr (files_followTerminalDirectories (ws_files s))"
    using follow by (cases "files_followTerminalDirectories (ws_files s)")
      (simp_all add: read_follow_field_def read_record_def read_follow_encode)
  have 5: "(if Some (JStr (case sidebar_view b of SidebarSessions \<Rightarrow> ''sessions'' | SidebarFiles \<Rightarrow> ''files'')) =
      Some (JStr ''files'') then SidebarFiles else SidebarSessions) = sidebar_view b" for b :: WorkspaceSnapshotSidebar
    by (cases "sidebar_view b") simp_all
  show ?thesis
    using insts(1) 1 2 3 4 5 read_panes_encode [OF panes] sanitizeActiveItem_encode [OF active shape]
      read_directories_encode [OF dirs]
    by (simp add: decodeWorkspaceSnapshot_def encodeWorkspaceSnapshot_def encode_files_def read_record_def
        read_array_def field_def js_boolean_def del: check_distinct_Inr)
qed

text \<open>
  C5. Decoding is sound: whatever JSON is read back, a snapshot that decodes is well-formed. It has
  at most 100 instances with distinct ids of their kind, an order that lists exactly those,
  panes at most 8 levels deep that bind only to them with ratios in range, an active item
  that exists, and directories of SSH instances only.
\<close>

theorem decode_sound:
  "case decodeWorkspaceSnapshot v of Inl e \<Rightarrow> True | Inr s \<Rightarrow> snapshot_ok s"
  using decode_ok by (auto split: sum.splits)

text \<open>
  C4. Round trip: a well-formed snapshot is read back exactly as it was written.
\<close>

theorem decode_encode_roundtrip:
  assumes "snapshot_ok s"
  shows "decodeWorkspaceSnapshot (encodeWorkspaceSnapshot s) = Inr s"
  using assms by (rule decode_encode)

definition sample_snapshot :: WorkspaceSnapshotV1 where
  "sample_snapshot =
     \<lparr>ws_activeItemId = Some SPLIT_ITEM_ID,
      ws_files = \<lparr>files_directories = [(''ssh:t1'', ''/srv'')], files_followActivePane = True,
        files_followTerminalDirectories = Some [(''ssh:t1'', False)]\<rparr>,
      ws_instances = [SnapSsh ''ssh:t1'' 0 (ProfileTarget ''c1''),
        SnapLocal ''local:l1'' 1 SourceSerial (TemporaryTarget ''x'')],
      ws_order = [''local:l1'', ''ssh:t1''],
      ws_panes = Some (PaneSplit Row (PaneLeaf ''terminal-pane-1'' (Some ''ssh:t1'')) ''terminal-split-3'' (1 / 2)
        (PaneLeaf ''terminal-pane-2'' None)),
      ws_sidebar = \<lparr>sidebar_collapsed = False, sidebar_view = SidebarFiles\<rparr>\<rparr>"

lemma sample_snapshot_ok: "snapshot_ok sample_snapshot"
proof -
  have ids: "id_of_kind InstSsh ''ssh:t1''" "id_of_kind InstLocal ''local:l1''"
    by (auto simp: id_of_kind_def string_ok_def js_length_def instanceItemId_def)
  show ?thesis
    using ids by (auto simp: snapshot_ok_def sample_snapshot_def Let_def instance_ok_def string_ok_def js_length_def
        MAX_INSTANCES_def MAX_PANE_DEPTH_def terminalSplitMinRatio_def terminalSplitMaxRatio_def eval_nat_numeral)
qed

theorem decode_encode_roundtrip_witness:
  "decodeWorkspaceSnapshot (encodeWorkspaceSnapshot sample_snapshot) = Inr sample_snapshot"
  using decode_encode_roundtrip [OF sample_snapshot_ok] .

text \<open>
  Falling back: the current snapshot is used whenever it decodes; otherwise the backup is, if
  it decodes; otherwise nothing is restored. What is selected is always well-formed, and the
  error of an unusable current snapshot is reported.
\<close>

theorem selectWorkspaceSnapshot_fallback:
  "let r = selectWorkspaceSnapshot e;
       cur = present (env_current e); bak = present (env_backup e);
       good = (\<lambda>v. \<exists>x s. v = Some x \<and> decodeWorkspaceSnapshot x = Inr s)
   in (case sel_snapshot r of
         None \<Rightarrow> sel_source r = FromNone \<and> \<not> good cur \<and> \<not> good bak
       | Some s \<Rightarrow> snapshot_ok s \<and>
           (if good cur then sel_source r = FromCurrent \<and> map_option decodeWorkspaceSnapshot cur = Some (Inr s)
            else sel_source r = FromBackup \<and> map_option decodeWorkspaceSnapshot bak = Some (Inr s))) \<and>
      (sel_currentError r \<noteq> None \<longleftrightarrow> cur \<noteq> None \<and> \<not> good cur)"
  using decode_ok
  by (auto simp: selectWorkspaceSnapshot_def select_backup_def Let_def split: option.splits sum.splits)

end
