(* ===== verification/Snapshot_Restore.thy ===== *)
theory Snapshot_Restore
  imports Snapshot_Codec
begin

text \<open>
  Projection of the running workspace to a snapshot (\<open>toSnapshot\<close> of
  \<open>snapshotTypes.ts\<close>), the plan of what may reconnect (\<open>restorePlan.ts\<close>), the
  hydration of a snapshot to the collections of the shell (\<open>shellHydration.ts\<close>) and the
  directory memory of the file panels (\<open>remoteFileSnapshotBridge.ts\<close>), all of
  \<open>features/workspace/restore\<close>.

  The translation function and the look-ups of connection and profile names are arguments.
\<close>

section \<open>Projection\<close>

record WorkspaceSnapshotPointers =
  wp_activeItemId :: "string option"
  wp_directories :: "(string \<times> string option) list"
  wp_followActivePane :: bool
  wp_followTerminalDirectories :: "(string \<times> bool) list option"
  wp_order :: "string list"
  wp_sidebar :: WorkspaceSnapshotSidebar
  wp_splitLayout :: "TerminalSplitNode option"

record WorkspaceSnapshotCollections =
  wc_localTerminalTabs :: "InstanceLocalTab list"
  wc_rdpSessions :: "SessionRef list"
  wc_connections :: "string \<rightharpoonup> WorkspaceSnapshotTargetRef"
  wc_localProfiles :: "string \<rightharpoonup> WorkspaceSnapshotTargetRef"
  wc_terminalTabs :: "InstanceTerminalTab list"
  wc_vncSessions :: "SessionRef list"

fun target_owner :: "WorkspaceSnapshotTargetRef \<Rightarrow> string" where
  "target_owner (ProfileTarget p) = p"
| "target_owner (TemporaryTarget t) = t"

fun is_snap_local :: "WorkspaceSnapshotInstance \<Rightarrow> bool" where
  "is_snap_local (SnapLocal i n s t) = True"
| "is_snap_local _ = False"

definition snapshotTargetRefs ::
  "WorkspaceSnapshotV1 \<Rightarrow> (string \<rightharpoonup> WorkspaceSnapshotTargetRef) \<times> (string \<rightharpoonup> WorkspaceSnapshotTargetRef)" where
  "snapshotTargetRefs snapshot =
     foldl (\<lambda>(connections, localProfiles) x.
         let target = snap_target x; owner = target_owner target in
         if is_snap_local x then (connections, localProfiles(owner \<mapsto> target))
         else (connections(owner \<mapsto> target), localProfiles))
       (Map.empty, Map.empty) (ws_instances snapshot)"

definition target_or_profile :: "(string \<rightharpoonup> WorkspaceSnapshotTargetRef) \<Rightarrow> string \<Rightarrow> WorkspaceSnapshotTargetRef" where
  "target_or_profile refs owner = (case refs owner of None \<Rightarrow> ProfileTarget owner | Some t \<Rightarrow> t)"

definition collectSnapshotInstances :: "WorkspaceSnapshotCollections \<Rightarrow> WorkspaceSnapshotInstance list" where
  "collectSnapshotInstances c =
     map (\<lambda>tab. SnapSsh (instanceItemId InstSsh (itt_id tab)) (itt_ordinal tab)
       (target_or_profile (wc_connections c) (itt_connectionId tab))) (wc_terminalTabs c) @
     map (\<lambda>tab. SnapLocal (instanceItemId InstLocal (ilt_id tab)) (ilt_ordinal tab)
       (case ilt_source tab of None \<Rightarrow> SourceLocal | Some s \<Rightarrow> s)
       (target_or_profile (wc_localProfiles c) (ilt_profileId tab))) (wc_localTerminalTabs c) @
     map (\<lambda>s. SnapRdp (instanceItemId InstRdp (ref_id s))
       (target_or_profile (wc_connections c) (ref_connectionId s))) (wc_rdpSessions c) @
     map (\<lambda>s. SnapVnc (instanceItemId InstVnc (ref_id s))
       (target_or_profile (wc_connections c) (ref_connectionId s))) (wc_vncSessions c)"

definition snapshotOrder :: "string list \<Rightarrow> WorkspaceSnapshotInstance list \<Rightarrow> string list" where
  "snapshotOrder order instances =
     (let liveIds = map snap_id instances
      in complete_order (dedupe (filter (\<lambda>i. i \<in> set liveIds) order)) liveIds)"

definition sanitizeActiveItemId :: "string option \<Rightarrow> string list \<Rightarrow> bool \<Rightarrow> string option" where
  "sanitizeActiveItemId active liveIds hasSplitLayout =
     (if active = Some HOME_ITEM_ID then Some HOME_ITEM_ID
      else if active = Some SPLIT_ITEM_ID then (if hasSplitLayout then Some SPLIT_ITEM_ID else None)
      else case truthy active of None \<Rightarrow> None | Some a \<Rightarrow> if a \<in> set liveIds then Some a else None)"

definition snapshotDirectories :: "(string \<times> string option) list \<Rightarrow> string list \<Rightarrow> (string \<times> string) list" where
  "snapshotDirectories directories sshIds =
     map_from (concat (map (\<lambda>(i, path). case path of
         Some p \<Rightarrow> if i \<in> set sshIds \<and> p \<noteq> [] then [(i, p)] else [] | None \<Rightarrow> []) directories))"

fun snapshotPaneNode :: "TerminalSplitNode \<Rightarrow> string list \<Rightarrow> WorkspaceSnapshotPaneNode" where
  "snapshotPaneNode (SplitLeaf b i) liveIds =
     PaneLeaf i (case b of None \<Rightarrow> None
       | Some x \<Rightarrow> if binding_item_id x \<in> set liveIds then Some (binding_item_id x) else None)"
| "snapshotPaneNode (SplitBranch d first i r second) liveIds =
     PaneSplit d (snapshotPaneNode first liveIds) i (clampTerminalSplitRatio r)
       (snapshotPaneNode second liveIds)"

definition toSnapshot ::
  "WorkspaceSnapshotPointers \<Rightarrow> WorkspaceSnapshotCollections \<Rightarrow> WorkspaceSnapshotV1" where
  "toSnapshot pointers collections =
     (let instances = collectSnapshotInstances collections;
          liveIds = map snap_id instances;
          sshIds = map snap_id (filter is_snap_ssh instances)
      in \<lparr>ws_activeItemId = sanitizeActiveItemId (wp_activeItemId pointers) liveIds
            (wp_splitLayout pointers \<noteq> None),
          ws_files = \<lparr>files_directories = snapshotDirectories (wp_directories pointers) sshIds,
            files_followActivePane = wp_followActivePane pointers,
            files_followTerminalDirectories = map_option
              (\<lambda>f. map_from (filter (\<lambda>(i, b). i \<in> set sshIds) f)) (wp_followTerminalDirectories pointers)\<rparr>,
          ws_instances = instances,
          ws_order = snapshotOrder (wp_order pointers) instances,
          ws_panes = map_option (\<lambda>n. snapshotPaneNode n liveIds) (wp_splitLayout pointers),
          ws_sidebar = wp_sidebar pointers\<rparr>)"

section \<open>Restore plan\<close>

datatype WorkspaceRestoreItemStatus = MissingProfile | Ready | TemporaryAuthRequired

record WorkspaceRestoreItem =
  item_autoReconnect :: bool
  item_instance :: WorkspaceSnapshotInstance
  item_status :: WorkspaceRestoreItemStatus

record WorkspaceRestorePlan =
  rp_activeItemId :: "string option"
  rp_files :: WorkspaceSnapshotFiles
  rp_items :: "WorkspaceRestoreItem list"
  rp_multiExecMode :: MultiExecMode
  rp_order :: "string list"
  rp_panes :: "WorkspaceSnapshotPaneNode option"
  rp_sidebar :: WorkspaceSnapshotSidebar

record WorkspaceRestoreAvailability =
  av_autoReconnect :: bool
  av_profileIds :: "string list"
  av_temporaryTargetIds :: "string list option"

definition restoreStatus ::
  "WorkspaceSnapshotInstance \<Rightarrow> string list \<Rightarrow> string list \<Rightarrow> WorkspaceRestoreItemStatus" where
  "restoreStatus x profileIds temporaryTargetIds =
     (case snap_target x of
        ProfileTarget p \<Rightarrow> if p \<in> set profileIds then Ready else MissingProfile
      | TemporaryTarget t \<Rightarrow> if t \<in> set temporaryTargetIds then TemporaryAuthRequired else TemporaryAuthRequired)"

definition buildWorkspaceRestorePlan ::
  "WorkspaceSnapshotV1 \<Rightarrow> WorkspaceRestoreAvailability \<Rightarrow> WorkspaceRestorePlan" where
  "buildWorkspaceRestorePlan snapshot availability =
     (let temporaryTargetIds = (case av_temporaryTargetIds availability of None \<Rightarrow> [] | Some ts \<Rightarrow> ts);
          items = map (\<lambda>x.
            let status = restoreStatus x (av_profileIds availability) temporaryTargetIds
            in \<lparr>item_autoReconnect = (status = Ready \<and> av_autoReconnect availability \<and>
                  (snap_kind x = InstSsh \<or> snap_kind x = InstLocal)),
                item_instance = x, item_status = status\<rparr>) (ws_instances snapshot)
      in \<lparr>rp_activeItemId = ws_activeItemId snapshot, rp_files = ws_files snapshot, rp_items = items,
          rp_multiExecMode = ModeOff, rp_order = ws_order snapshot, rp_panes = ws_panes snapshot,
          rp_sidebar = ws_sidebar snapshot\<rparr>)"

section \<open>Hydration\<close>

record RestoredTerminalTab =
  rt_connectionId :: string
  rt_error :: "string option"
  rt_id :: string
  rt_ordinal :: int
  rt_status :: string
  rt_title :: string

record RestoredLocalTab =
  rl_error :: "string option"
  rl_id :: string
  rl_ordinal :: int
  rl_profileId :: string
  rl_profileKind :: string
  rl_source :: terminal_source
  rl_status :: string
  rl_title :: string

record RestoredDesktop =
  rd_connectionId :: string
  rd_error :: "string option"
  rd_id :: string
  rd_message :: "string option"
  rd_status :: string
  rd_title :: string

datatype WorkspaceShellRestoreTarget =
    TargetHome
  | TargetSplit TerminalPaneBinding
  | TargetSshTab string string
  | TargetLocalTab string
  | TargetRdpSession string string
  | TargetVncSession string string

record WorkspaceShellHydration =
  hy_active :: WorkspaceShellRestoreTarget
  hy_focusedPaneId :: "string option"
  hy_localTerminalTabs :: "RestoredLocalTab list"
  hy_rdpSessions :: "RestoredDesktop list"
  hy_splitHost :: "TerminalPaneBinding option"
  hy_splitLayout :: "TerminalSplitNode option"
  hy_terminalTabs :: "RestoredTerminalTab list"
  hy_vncSessions :: "RestoredDesktop list"

text \<open>\<open>rawInstanceId\<close> throws on an id that does not belong to its kind.\<close>

definition rawInstanceId :: "WorkspaceSnapshotInstance \<Rightarrow> snapshot_error + string" where
  "rawInstanceId x =
     (let pre = instance_kind_name (snap_kind x) @ '':'' in
      if \<not> prefix pre (snap_id x) \<or> length (snap_id x) = length pre
      then Inl (InvalidInstanceId (snap_kind x) (snap_id x))
      else Inr (drop (length pre) (snap_id x)))"

text \<open>\<open>a || b\<close> on nullable strings.\<close>

definition or_else :: "string option \<Rightarrow> string \<Rightarrow> string" where
  "or_else a b = (case truthy a of None \<Rightarrow> b | Some s \<Rightarrow> s)"

definition restored_ssh :: "(string \<Rightarrow> string option) \<Rightarrow> WorkspaceSnapshotInstance \<Rightarrow> snapshot_error + RestoredTerminalTab" where
  "restored_ssh connectionName x =
     result_bind (rawInstanceId x) (\<lambda>i.
       let c = target_owner (snap_target x)
       in Inr \<lparr>rt_connectionId = c, rt_error = None, rt_id = i, rt_ordinal = snap_ordinal x,
            rt_status = ''restored'', rt_title = or_else (connectionName c) c\<rparr>)"

definition restored_local ::
  "(string \<Rightarrow> string option) \<Rightarrow> (string \<Rightarrow> (string \<times> string) option) \<Rightarrow> WorkspaceSnapshotInstance
    \<Rightarrow> snapshot_error + RestoredLocalTab" where
  "restored_local connectionName localProfile x =
     result_bind (rawInstanceId x) (\<lambda>i.
       let p = target_owner (snap_target x);
           profile = (if snap_source x = SourceLocal then localProfile p else None)
       in Inr \<lparr>rl_error = None, rl_id = i, rl_ordinal = snap_ordinal x, rl_profileId = p,
            rl_profileKind = or_else (map_option fst profile) (source_name (snap_source x)),
            rl_source = snap_source x, rl_status = ''restored'',
            rl_title = or_else (map_option snd profile) (or_else (connectionName p) p)\<rparr>)"

definition restored_desktop :: "(string \<Rightarrow> string option) \<Rightarrow> WorkspaceSnapshotInstance \<Rightarrow> snapshot_error + RestoredDesktop" where
  "restored_desktop connectionName x =
     result_bind (rawInstanceId x) (\<lambda>i.
       let c = target_owner (snap_target x)
       in Inr \<lparr>rd_connectionId = c, rd_error = None, rd_id = i, rd_message = Some ''workspace-restored'',
            rd_status = ''error'', rd_title = or_else (connectionName c) c\<rparr>)"

fun terminal_binding :: "WorkspaceSnapshotInstance \<Rightarrow> string \<Rightarrow> TerminalPaneBinding option" where
  "terminal_binding (SnapSsh i n t) raw = Some (SshBinding raw)"
| "terminal_binding (SnapLocal i n s t) raw = Some (LocalBinding raw)"
| "terminal_binding _ raw = None"

fun restorePane ::
  "WorkspaceSnapshotPaneNode \<Rightarrow> (string \<times> WorkspaceSnapshotInstance) list \<Rightarrow> snapshot_error + TerminalSplitNode" where
  "restorePane (PaneLeaf i x) byId =
     (case Option.bind (truthy x) (map_of byId) of
        None \<Rightarrow> Inr (SplitLeaf None i)
      | Some inst \<Rightarrow>
          if snap_kind inst = InstSsh \<or> snap_kind inst = InstLocal
          then result_bind (rawInstanceId inst) (\<lambda>raw. Inr (SplitLeaf (terminal_binding inst raw) i))
          else Inr (SplitLeaf None i))"
| "restorePane (PaneSplit d first i r second) byId =
     result_bind (restorePane first byId) (\<lambda>first'.
     result_bind (restorePane second byId) (\<lambda>second'.
       Inr (SplitBranch d first' i r second')))"

fun firstBinding :: "TerminalSplitNode \<Rightarrow> TerminalPaneBinding option" where
  "firstBinding (SplitLeaf b i) = b"
| "firstBinding (SplitBranch d first i r second) = coalesce (firstBinding first) (firstBinding second)"

fun firstBoundPaneId :: "TerminalSplitNode \<Rightarrow> string option" where
  "firstBoundPaneId (SplitLeaf b i) = (if b \<noteq> None then Some i else None)"
| "firstBoundPaneId (SplitBranch d first i r second) =
     (case truthy (firstBoundPaneId first) of
        None \<Rightarrow> firstBoundPaneId second | Some p \<Rightarrow> Some p)"

definition restoreActive ::
  "string option \<Rightarrow> (string \<times> WorkspaceSnapshotInstance) list \<Rightarrow> TerminalPaneBinding option
    \<Rightarrow> snapshot_error + WorkspaceShellRestoreTarget" where
  "restoreActive active byId splitHost =
     (case truthy active of
        None \<Rightarrow> Inr TargetHome
      | Some a \<Rightarrow>
          if a = ''home'' then Inr TargetHome
          else if a = ''split'' \<and> splitHost \<noteq> None then Inr (TargetSplit (the splitHost))
          else case map_of byId a of
              None \<Rightarrow> Inr TargetHome
            | Some x \<Rightarrow>
                result_bind (rawInstanceId x) (\<lambda>i.
                  let owner = target_owner (snap_target x) in
                  Inr (case snap_kind x of
                      InstSsh \<Rightarrow> TargetSshTab owner i
                    | InstLocal \<Rightarrow> TargetLocalTab i
                    | InstRdp \<Rightarrow> TargetRdpSession owner i
                    | InstVnc \<Rightarrow> TargetVncSession owner i)))"

definition of_kind :: "InstanceKind \<Rightarrow> WorkspaceSnapshotV1 \<Rightarrow> WorkspaceSnapshotInstance list" where
  "of_kind k s = filter (\<lambda>x. snap_kind x = k) (ws_instances s)"

definition buildWorkspaceShellHydration ::
  "WorkspaceSnapshotV1 \<Rightarrow> (string \<Rightarrow> string option) \<Rightarrow> (string \<Rightarrow> (string \<times> string) option)
    \<Rightarrow> snapshot_error + WorkspaceShellHydration" where
  "buildWorkspaceShellHydration snapshot connectionName localProfile =
     (let byId = map_from (map (\<lambda>x. (snap_id x, x)) (ws_instances snapshot)) in
      result_bind (result_map (restored_ssh connectionName) (of_kind InstSsh snapshot)) (\<lambda>terminalTabs.
      result_bind (result_map (restored_local connectionName localProfile) (of_kind InstLocal snapshot)) (\<lambda>localTabs.
      result_bind (result_map (restored_desktop connectionName) (of_kind InstRdp snapshot)) (\<lambda>rdpSessions.
      result_bind (result_map (restored_desktop connectionName) (of_kind InstVnc snapshot)) (\<lambda>vncSessions.
      result_bind (case ws_panes snapshot of None \<Rightarrow> Inr None
        | Some n \<Rightarrow> result_bind (restorePane n byId) (\<lambda>l. Inr (Some l))) (\<lambda>splitLayout.
      let splitHost = Option.bind splitLayout firstBinding in
      result_bind (restoreActive (ws_activeItemId snapshot) byId splitHost) (\<lambda>active.
        Inr \<lparr>hy_active = active, hy_focusedPaneId = Option.bind splitLayout firstBoundPaneId,
             hy_localTerminalTabs = localTabs, hy_rdpSessions = rdpSessions, hy_splitHost = splitHost,
             hy_splitLayout = splitLayout, hy_terminalTabs = terminalTabs, hy_vncSessions = vncSessions\<rparr>)))))))"

definition terminalRestoreState ::
  "(string \<Rightarrow> string) \<Rightarrow> WorkspaceRestoreItem option \<Rightarrow> string option \<times> string" where
  "terminalRestoreState tr item =
     (case item of
        None \<Rightarrow> (Some (tr ''workspace.restore.missing''), tr ''workspace.connection.failed'')
      | Some it \<Rightarrow>
          if item_status it = MissingProfile then
            (Some (tr ''workspace.restore.profileMissing''), tr ''workspace.connection.failed'')
          else if item_status it = TemporaryAuthRequired then
            (Some (tr ''workspace.restore.temporaryCredentials''), tr ''workspace.connection.failed'')
          else if item_autoReconnect it then (None, tr ''workspace.restore.restoring'')
          else (Some (tr ''workspace.restore.manualRetry''), tr ''workspace.connection.failed''))"

definition desktopRestoreState ::
  "(string \<Rightarrow> string) \<Rightarrow> WorkspaceRestoreItem option \<Rightarrow> string option \<times> string option \<times> string" where
  "desktopRestoreState tr item =
     (let err = truthy (fst (terminalRestoreState tr item))
      in (err, if err = None then Some (tr ''workspace.restore.desktopStopped'') else None, ''error''))"

definition applyWorkspaceRestorePlanToHydration ::
  "(string \<Rightarrow> string) \<Rightarrow> WorkspaceShellHydration \<Rightarrow> WorkspaceRestorePlan \<Rightarrow> WorkspaceShellHydration" where
  "applyWorkspaceRestorePlanToHydration tr hydration plan =
     (let byId = map_from (map (\<lambda>it. (snap_id (item_instance it), it)) (rp_items plan));
          desktop = (\<lambda>pre s. let (e, m, st) = desktopRestoreState tr (map_of byId (pre @ rd_id s))
            in s\<lparr>rd_error := e, rd_message := m, rd_status := st\<rparr>)
      in hydration
        \<lparr>hy_terminalTabs := map (\<lambda>tab. let (e, st) = terminalRestoreState tr (map_of byId (''ssh:'' @ rt_id tab))
            in tab\<lparr>rt_error := e, rt_status := st\<rparr>) (hy_terminalTabs hydration),
         hy_localTerminalTabs := map (\<lambda>tab. let (e, st) = terminalRestoreState tr (map_of byId (''local:'' @ rl_id tab))
            in tab\<lparr>rl_error := e, rl_status := st\<rparr>) (hy_localTerminalTabs hydration),
         hy_rdpSessions := map (desktop ''rdp:'') (hy_rdpSessions hydration),
         hy_vncSessions := map (desktop ''vnc:'') (hy_vncSessions hydration)\<rparr>)"

section \<open>Directories of the file panels\<close>

record WorkspaceRemoteFileNavigation =
  nav_path :: string
  nav_followTerminalDirectory :: bool

record navigation_store =
  nav_byStateKey :: "(string \<times> WorkspaceRemoteFileNavigation) list"
  nav_revision :: nat

definition workspaceRemoteFileStateKey :: "string \<Rightarrow> string" where
  "workspaceRemoteFileStateKey tabId = ''ssh-file-panel:'' @ tabId"

definition nav_put :: "string \<Rightarrow> string \<Rightarrow> bool \<Rightarrow> navigation_store \<Rightarrow> navigation_store" where
  "nav_put key path follow store =
     store\<lparr>nav_byStateKey := map_set key \<lparr>nav_path = path, nav_followTerminalDirectory = follow\<rparr> (nav_byStateKey store)\<rparr>"

definition publishWorkspaceRemoteFileNavigation ::
  "string \<Rightarrow> string \<Rightarrow> bool \<Rightarrow> navigation_store \<Rightarrow> navigation_store" where
  "publishWorkspaceRemoteFileNavigation stateKey path follow store =
     (if stateKey = [] \<or> path = [] then store
      else if map_of (nav_byStateKey store) stateKey = Some \<lparr>nav_path = path, nav_followTerminalDirectory = follow\<rparr>
      then store
      else (nav_put stateKey path follow store)\<lparr>nav_revision := nav_revision store + 1\<rparr>)"

definition seed_one ::
  "(string \<rightharpoonup> bool) \<Rightarrow> navigation_store \<times> bool \<Rightarrow> string \<times> string \<Rightarrow> navigation_store \<times> bool" where
  "seed_one follows acc entry =
     (let (store, changed) = acc; (instanceId, path) = entry in
      if \<not> prefix ''ssh:'' instanceId \<or> path = [] then (store, changed)
      else
        (let stateKey = workspaceRemoteFileStateKey (drop 4 instanceId);
             follow = (case follows instanceId of None \<Rightarrow> False | Some b \<Rightarrow> b)
         in if map_of (nav_byStateKey store) stateKey = Some \<lparr>nav_path = path, nav_followTerminalDirectory = follow\<rparr>
            then (store, changed) else (nav_put stateKey path follow store, True)))"

definition seedWorkspaceRemoteFileDirectories ::
  "(string \<times> string) list \<Rightarrow> (string \<rightharpoonup> bool) \<Rightarrow> navigation_store \<Rightarrow> navigation_store" where
  "seedWorkspaceRemoteFileDirectories directories follows store =
     (let (store, changed) = foldl (seed_one follows) (store, False) directories
      in if changed then store\<lparr>nav_revision := nav_revision store + 1\<rparr> else store)"

definition workspaceRemoteFileDirectories :: "string list \<Rightarrow> navigation_store \<Rightarrow> (string \<times> string) list" where
  "workspaceRemoteFileDirectories tabIds store =
     map_from (concat (map (\<lambda>t. case map_of (nav_byStateKey store) (workspaceRemoteFileStateKey t) of
         None \<Rightarrow> [] | Some nav \<Rightarrow> if nav_path nav = [] then [] else [(''ssh:'' @ t, nav_path nav)]) tabIds))"

definition workspaceRemoteFileFollowStates :: "string list \<Rightarrow> navigation_store \<Rightarrow> (string \<times> bool) list" where
  "workspaceRemoteFileFollowStates tabIds store =
     map_from (concat (map (\<lambda>t. case map_of (nav_byStateKey store) (workspaceRemoteFileStateKey t) of
         None \<Rightarrow> [] | Some nav \<Rightarrow> [(''ssh:'' @ t, nav_followTerminalDirectory nav)]) tabIds))"

section \<open>What is written can be read back\<close>

definition raw_ok :: "InstanceKind \<Rightarrow> string \<Rightarrow> bool" where
  "raw_ok k raw \<longleftrightarrow> raw \<noteq> [] \<and> js_length (instanceItemId k raw) \<le> 4096"

definition collections_ok :: "WorkspaceSnapshotCollections \<Rightarrow> bool" where
  "collections_ok c \<longleftrightarrow>
     distinct (map itt_id (wc_terminalTabs c)) \<and> distinct (map ilt_id (wc_localTerminalTabs c)) \<and>
     distinct (map ref_id (wc_rdpSessions c)) \<and> distinct (map ref_id (wc_vncSessions c)) \<and>
     (\<forall>t \<in> set (wc_terminalTabs c). raw_ok InstSsh (itt_id t) \<and> 0 \<le> itt_ordinal t \<and>
        target_ok (target_or_profile (wc_connections c) (itt_connectionId t))) \<and>
     (\<forall>t \<in> set (wc_localTerminalTabs c). raw_ok InstLocal (ilt_id t) \<and> 0 \<le> ilt_ordinal t \<and>
        target_ok (target_or_profile (wc_localProfiles c) (ilt_profileId t))) \<and>
     (\<forall>r \<in> set (wc_rdpSessions c). raw_ok InstRdp (ref_id r) \<and>
        target_ok (target_or_profile (wc_connections c) (ref_connectionId r))) \<and>
     (\<forall>r \<in> set (wc_vncSessions c). raw_ok InstVnc (ref_id r) \<and>
        target_ok (target_or_profile (wc_connections c) (ref_connectionId r))) \<and>
     length (wc_terminalTabs c) + length (wc_localTerminalTabs c) + length (wc_rdpSessions c) +
       length (wc_vncSessions c) \<le> MAX_INSTANCES"

fun node_depth :: "TerminalSplitNode \<Rightarrow> nat" where
  "node_depth (SplitLeaf b i) = 0"
| "node_depth (SplitBranch d first i r second) = Suc (max (node_depth first) (node_depth second))"

fun node_ids :: "TerminalSplitNode \<Rightarrow> string list" where
  "node_ids (SplitLeaf b i) = [i]"
| "node_ids (SplitBranch d first i r second) = i # node_ids first @ node_ids second"

lemma instanceItemId_nonempty [simp]: "instanceItemId k raw \<noteq> []"
  by (simp add: instanceItemId_def)

lemma raw_id_of_kind: "raw_ok k raw \<Longrightarrow> id_of_kind k (instanceItemId k raw)"
  by (auto simp: raw_ok_def id_of_kind_def string_ok_def)

lemma collectSnapshotInstances_ok:
  assumes "collections_ok c"
  shows "\<forall>x \<in> set (collectSnapshotInstances c). instance_ok x"
  using assms by (auto simp: collections_ok_def collectSnapshotInstances_def instance_ok_def raw_id_of_kind)

lemma collectSnapshotInstances_distinct:
  assumes "collections_ok c"
  shows "distinct (map snap_id (collectSnapshotInstances c))"
proof -
  have inj: "distinct (map (instanceItemId k) xs) \<longleftrightarrow> distinct xs" for k xs
    by (simp add: distinct_map inj_on_def)
  have "map snap_id (collectSnapshotInstances c) =
      map (instanceItemId InstSsh) (map itt_id (wc_terminalTabs c)) @
      map (instanceItemId InstLocal) (map ilt_id (wc_localTerminalTabs c)) @
      map (instanceItemId InstRdp) (map ref_id (wc_rdpSessions c)) @
      map (instanceItemId InstVnc) (map ref_id (wc_vncSessions c))"
    by (simp add: collectSnapshotInstances_def comp_def)
  then show ?thesis
    using assms inj by (auto simp: collections_ok_def simp del: map_map)
qed

lemma snapshotPaneNode_ok:
  "node_depth n < k \<Longrightarrow> \<forall>i \<in> set (node_ids n). string_ok i \<Longrightarrow> pane_ok k ids (snapshotPaneNode n ids)"
proof (induction n arbitrary: k)
  case (SplitLeaf b i)
  then show ?case
    by (cases k) (auto split: option.splits)
next
  case (SplitBranch d first i r second)
  then show ?case
    by (cases k) (auto simp: clampTerminalSplitRatio_bounds)
qed

lemma snapshotDirectories_ok:
  "distinct (map_keys (snapshotDirectories ds ids)) \<and>
   (\<forall>(i, path) \<in> set (snapshotDirectories ds ids). i \<in> set ids \<and> path \<noteq> [])"
proof -
  have "i \<in> set ids \<and> path \<noteq> []" if "(i, path) \<in> set (snapshotDirectories ds ids)" for i path
  proof -
    have "map_of (snapshotDirectories ds ids) i = Some path"
      using that by (simp add: snapshotDirectories_def distinct_keys_map_from)
    then show ?thesis
      unfolding snapshotDirectories_def map_of_map_from
      by (auto dest!: map_of_revD split: option.splits if_splits)
  qed
  then show ?thesis
    by (auto simp: snapshotDirectories_def distinct_keys_map_from)
qed

lemma sanitizeActiveItemId_ok:
  "sanitizeActiveItemId v ids h = Some a \<Longrightarrow> a = HOME_ITEM_ID \<or> (a = SPLIT_ITEM_ID \<and> h) \<or> a \<in> set ids"
  by (auto simp: sanitizeActiveItemId_def split: if_splits option.splits)

lemma toSnapshot_ok:
  assumes c: "collections_ok c"
    and layout: "\<forall>n. wp_splitLayout p = Some n \<longrightarrow>
      node_depth n \<le> MAX_PANE_DEPTH \<and> (\<forall>i \<in> set (node_ids n). string_ok i)"
  shows "snapshot_ok (toSnapshot p c)"
proof -
  let ?insts = "collectSnapshotInstances c"
  let ?ids = "map snap_id ?insts" and ?ssh = "map snap_id (filter is_snap_ssh ?insts)"
  have "length ?insts \<le> MAX_INSTANCES"
    using c by (simp add: collections_ok_def collectSnapshotInstances_def)
  moreover have "distinct (snapshotOrder (wp_order p) ?insts) \<and> set (snapshotOrder (wp_order p) ?insts) = set ?ids"
    using complete_order_facts [of "dedupe (filter (\<lambda>i. i \<in> set ?ids) (wp_order p))" ?ids]
    by (auto simp: snapshotOrder_def)
  moreover have "pred_option (pane_ok (Suc MAX_PANE_DEPTH) ?ids)
      (map_option (\<lambda>n. snapshotPaneNode n ?ids) (wp_splitLayout p))"
    using layout by (cases "wp_splitLayout p") (simp_all add: snapshotPaneNode_ok del: pane_ok.simps)
  moreover have "distinct (map_keys (map_from (filter (\<lambda>(i, b). i \<in> set ?ssh) f))) \<and>
      set (map_keys (map_from (filter (\<lambda>(i, b). i \<in> set ?ssh) f))) \<subseteq> set ?ssh" for f :: "(string \<times> bool) list"
    by (auto simp: distinct_keys_map_from keys_map_from)
  moreover have "\<forall>a. sanitizeActiveItemId (wp_activeItemId p) ?ids (wp_splitLayout p \<noteq> None) = Some a \<longrightarrow>
      a = HOME_ITEM_ID \<or> (a = SPLIT_ITEM_ID \<and> wp_splitLayout p \<noteq> None) \<or> a \<in> set ?ids"
    using sanitizeActiveItemId_ok by blast
  ultimately show ?thesis
    using collectSnapshotInstances_ok [OF c] collectSnapshotInstances_distinct [OF c]
      snapshotDirectories_ok [of "wp_directories p" ?ssh]
    by (auto simp: snapshot_ok_def toSnapshot_def Let_def simp del: pane_ok.simps)
qed

text \<open>
  What the running workspace saves can be restored: with at most 100 open instances whose ids
  are distinct and within the length bound, and a split at most 8 levels deep, the projected
  snapshot decodes to itself.
\<close>

theorem saved_workspace_is_restorable:
  assumes "collections_ok c"
    and "\<forall>n. wp_splitLayout p = Some n \<longrightarrow>
      node_depth n \<le> MAX_PANE_DEPTH \<and> (\<forall>i \<in> set (node_ids n). string_ok i)"
  shows "decodeWorkspaceSnapshot (encodeWorkspaceSnapshot (toSnapshot p c)) = Inr (toSnapshot p c)"
  by (rule decode_encode [OF toSnapshot_ok [OF assms]])

definition sample_snapshot_collections :: WorkspaceSnapshotCollections where
  "sample_snapshot_collections =
     \<lparr>wc_localTerminalTabs = [], wc_rdpSessions = [\<lparr>ref_connectionId = ''c2'', ref_id = ''r1''\<rparr>],
      wc_connections = Map.empty, wc_localProfiles = Map.empty,
      wc_terminalTabs = [\<lparr>itt_connectionId = ''c1'', itt_id = ''t1'', itt_ordinal = 0\<rparr>], wc_vncSessions = []\<rparr>"

definition sample_snapshot_pointers :: WorkspaceSnapshotPointers where
  "sample_snapshot_pointers =
     \<lparr>wp_activeItemId = Some ''gone'', wp_directories = [(''ssh:t1'', Some ''/srv''), (''rdp:r1'', Some ''/x'')],
      wp_followActivePane = True, wp_followTerminalDirectories = None, wp_order = [''rdp:r1'', ''ssh:t9''],
      wp_sidebar = \<lparr>sidebar_collapsed = False, sidebar_view = SidebarSessions\<rparr>,
      wp_splitLayout = Some (SplitLeaf (Some (SshBinding ''t1'')) ''p1'')\<rparr>"

theorem saved_workspace_is_restorable_witness:
  "decodeWorkspaceSnapshot (encodeWorkspaceSnapshot (toSnapshot sample_snapshot_pointers sample_snapshot_collections)) =
     Inr (toSnapshot sample_snapshot_pointers sample_snapshot_collections)"
proof (rule saved_workspace_is_restorable)
  show "collections_ok sample_snapshot_collections"
    by (simp add: collections_ok_def sample_snapshot_collections_def raw_ok_def instanceItemId_def js_length_def
        target_or_profile_def string_ok_def MAX_INSTANCES_def)
  show "\<forall>n. wp_splitLayout sample_snapshot_pointers = Some n \<longrightarrow>
      node_depth n \<le> MAX_PANE_DEPTH \<and> (\<forall>i \<in> set (node_ids n). string_ok i)"
    by (simp add: sample_snapshot_pointers_def MAX_PANE_DEPTH_def string_ok_def js_length_def)
qed

section \<open>The restore plan\<close>

text \<open>
  The restore plan has one item per saved instance, in order; an instance reconnects by itself
  only if automatic reconnection is on, it is a terminal, and its profile still exists. A
  temporary target always asks for credentials again, a missing profile and a desktop session
  never reconnect by themselves, and MultiExec is off.
\<close>

theorem restore_plan_reconnects_only_ready_terminals:
  "map item_instance (rp_items (buildWorkspaceRestorePlan s a)) = ws_instances s \<and>
   rp_multiExecMode (buildWorkspaceRestorePlan s a) = ModeOff \<and>
   list_all (\<lambda>it.
     (item_autoReconnect it \<longleftrightarrow> av_autoReconnect a \<and> snap_kind (item_instance it) \<in> {InstSsh, InstLocal} \<and>
        (case snap_target (item_instance it) of ProfileTarget p \<Rightarrow> p \<in> set (av_profileIds a) | TemporaryTarget t \<Rightarrow> False)) \<and>
     (case snap_target (item_instance it) of
        ProfileTarget p \<Rightarrow> item_status it = (if p \<in> set (av_profileIds a) then Ready else MissingProfile)
      | TemporaryTarget t \<Rightarrow> item_status it = TemporaryAuthRequired)) (rp_items (buildWorkspaceRestorePlan s a))"
  by (auto simp: buildWorkspaceRestorePlan_def restoreStatus_def Let_def comp_def list.pred_map list_all_iff
      split: WorkspaceSnapshotTargetRef.splits)

section \<open>Restart\<close>

definition raw_of :: "WorkspaceSnapshotInstance \<Rightarrow> string" where
  "raw_of x = drop (length (instance_kind_name (snap_kind x) @ '':'')) (snap_id x)"

lemma instance_ok_raw:
  assumes "instance_ok x"
  shows "rawInstanceId x = Inr (raw_of x)" and "instanceItemId (snap_kind x) (raw_of x) = snap_id x"
proof -
  obtain raw where raw: "raw \<noteq> []" "snap_id x = instanceItemId (snap_kind x) raw"
    using assms by (auto simp: instance_ok_def id_of_kind_def)
  then have "raw_of x = raw"
    by (simp add: raw_of_def instanceItemId_def)
  with raw show "rawInstanceId x = Inr (raw_of x)" "instanceItemId (snap_kind x) (raw_of x) = snap_id x"
    by (simp_all add: rawInstanceId_def Let_def instanceItemId_def)
qed

lemma result_map_all: "(\<And>x. x \<in> set xs \<Longrightarrow> f x = Inr (g x)) \<Longrightarrow> result_map f xs = Inr (map g xs)"
  by (induction xs) auto

lemma snapshotTargetRefs_fold:
  "foldl (\<lambda>(connections, localProfiles) x.
       let target = snap_target x; owner = target_owner target in
       if is_snap_local x then (connections, localProfiles(owner \<mapsto> target))
       else (connections(owner \<mapsto> target), localProfiles)) (m1, m2) xs =
   (m1 ++ map_of (rev (map (\<lambda>x. (target_owner (snap_target x), snap_target x)) (filter (\<lambda>x. \<not> is_snap_local x) xs))),
    m2 ++ map_of (rev (map (\<lambda>x. (target_owner (snap_target x), snap_target x)) (filter is_snap_local xs))))"
  by (induction xs arbitrary: m1 m2) (simp_all add: Let_def)

text \<open>Within connections, and within local profiles, an owner id names one target.\<close>

definition owners_unique :: "WorkspaceSnapshotV1 \<Rightarrow> bool" where
  "owners_unique s \<longleftrightarrow> (\<forall>x \<in> set (ws_instances s). \<forall>y \<in> set (ws_instances s).
     is_snap_local x = is_snap_local y \<and> target_owner (snap_target x) = target_owner (snap_target y) \<longrightarrow>
     snap_target x = snap_target y)"

lemma map_of_rev_only:
  assumes "(k, v) \<in> set ps" "\<And>w. (k, w) \<in> set ps \<Longrightarrow> w = v"
  shows "map_of (rev ps) k = Some v"
proof (cases "map_of (rev ps) k")
  case None
  with assms(1) show ?thesis
    by (force simp: map_of_eq_None_iff)
next
  case (Some w)
  with assms(2) map_of_revD [OF Some] show ?thesis
    by simp
qed

lemma map_of_rev_unique:
  assumes "x \<in> set xs" "\<forall>y \<in> set xs. f y = f x \<longrightarrow> g y = g x"
  shows "map_of (rev (map (\<lambda>y. (f y, g y)) xs)) (f x) = Some (g x)"
proof -
  have "f x \<in> fst ` set (rev (map (\<lambda>y. (f y, g y)) xs))"
    using assms(1) by force
  then obtain v where v: "map_of (rev (map (\<lambda>y. (f y, g y)) xs)) (f x) = Some v"
    by (metis domD dom_map_of_conv_image_fst)
  then have "(f x, v) \<in> set (map (\<lambda>y. (f y, g y)) xs)"
    by (rule map_of_revD)
  with assms(2) v show ?thesis
    by auto
qed

lemma target_refs_lookup:
  assumes "owners_unique s" "x \<in> set (ws_instances s)"
  shows "target_or_profile ((if is_snap_local x then snd else fst) (snapshotTargetRefs s)) (target_owner (snap_target x)) = snap_target x"
proof -
  let ?xs = "filter (\<lambda>y. is_snap_local y = is_snap_local x) (ws_instances s)"
  have "map_of (rev (map (\<lambda>y. (target_owner (snap_target y), snap_target y)) ?xs)) (target_owner (snap_target x)) =
      Some (snap_target x)"
    using assms by (intro map_of_rev_unique) (auto simp: owners_unique_def)
  then show ?thesis
    by (cases "is_snap_local x")
      (simp_all add: snapshotTargetRefs_def snapshotTargetRefs_fold target_or_profile_def split_beta)
qed

text \<open>The collections the shell holds after a restore, with the target references it kept.\<close>

definition hydrated_collections :: "WorkspaceSnapshotV1 \<Rightarrow> WorkspaceShellHydration \<Rightarrow> WorkspaceSnapshotCollections" where
  "hydrated_collections s h =
     \<lparr>wc_localTerminalTabs = map (\<lambda>t. \<lparr>ilt_id = rl_id t, ilt_ordinal = rl_ordinal t,
        ilt_profileId = rl_profileId t, ilt_source = Some (rl_source t)\<rparr>) (hy_localTerminalTabs h),
      wc_rdpSessions = map (\<lambda>r. \<lparr>ref_connectionId = rd_connectionId r, ref_id = rd_id r\<rparr>) (hy_rdpSessions h),
      wc_connections = fst (snapshotTargetRefs s), wc_localProfiles = snd (snapshotTargetRefs s),
      wc_terminalTabs = map (\<lambda>t. \<lparr>itt_connectionId = rt_connectionId t, itt_id = rt_id t,
        itt_ordinal = rt_ordinal t\<rparr>) (hy_terminalTabs h),
      wc_vncSessions = map (\<lambda>r. \<lparr>ref_connectionId = rd_connectionId r, ref_id = rd_id r\<rparr>) (hy_vncSessions h)\<rparr>"

fun pane_terminals :: "WorkspaceSnapshotInstance list \<Rightarrow> WorkspaceSnapshotPaneNode \<Rightarrow> bool" where
  "pane_terminals xs (PaneLeaf i v) \<longleftrightarrow>
     (\<forall>s. v = Some s \<longrightarrow> (\<exists>x \<in> set xs. snap_id x = s \<and> snap_kind x \<in> {InstSsh, InstLocal}))"
| "pane_terminals xs (PaneSplit d first i r second) \<longleftrightarrow> pane_terminals xs first \<and> pane_terminals xs second"

lemma restored_binding:
  "snap_kind x \<in> {InstSsh, InstLocal} \<Longrightarrow>
    \<exists>b. terminal_binding x raw = Some b \<and> binding_item_id b = instanceItemId (snap_kind x) raw"
  by (cases x) (auto simp: binding_item_id_def)

lemma restorePane_roundtrip:
  assumes "distinct (map snap_id xs)" "\<forall>x \<in> set xs. instance_ok x"
    and "pane_ok k (map snap_id xs) n" "pane_terminals xs n"
  shows "\<exists>l. restorePane n (map (\<lambda>x. (snap_id x, x)) xs) = Inr l \<and> snapshotPaneNode l (map snap_id xs) = n"
  using assms(3,4)
proof (induction n arbitrary: k)
  case (PaneLeaf i v)
  show ?case
  proof (cases v)
    case (Some sid)
    with PaneLeaf obtain x where x: "x \<in> set xs" "snap_id x = sid" "snap_kind x \<in> {InstSsh, InstLocal}"
      by auto
    then have ok: "instance_ok x"
      using assms(2) by blast
    have "map_of (map (\<lambda>x. (snap_id x, x)) xs) sid = Some x"
      using assms(1) x by (auto intro!: map_of_is_SomeI simp: comp_def)
    moreover have "sid \<noteq> []"
      using ok x(2) by (auto simp: instance_ok_def id_of_kind_def string_ok_def)
    moreover obtain b where b: "terminal_binding x (raw_of x) = Some b" "binding_item_id b = sid"
      using restored_binding [OF x(3)] instance_ok_raw(2) [OF ok] x(2) by metis
    moreover have "sid \<in> snap_id ` set xs"
      using x(1,2) by blast
    ultimately show ?thesis
      using x(3) Some instance_ok_raw(1) [OF ok] by (auto simp: truthy_def)
  qed simp
next
  case (PaneSplit d first i r second)
  from PaneSplit.prems obtain k' where k: "k = Suc k'" "pane_ok k' (map snap_id xs) first"
      "pane_ok k' (map snap_id xs) second" "terminalSplitMinRatio \<le> r" "r \<le> terminalSplitMaxRatio"
    by (cases k) auto
  from PaneSplit.IH(1) [OF k(2)] PaneSplit.IH(2) [OF k(3)] PaneSplit.prems(2) obtain l1 l2 where
      "restorePane first (map (\<lambda>x. (snap_id x, x)) xs) = Inr l1" "snapshotPaneNode l1 (map snap_id xs) = first"
      "restorePane second (map (\<lambda>x. (snap_id x, x)) xs) = Inr l2" "snapshotPaneNode l2 (map snap_id xs) = second"
    by auto
  with k(4,5) show ?case
    by (simp add: clampTerminalSplitRatio_id)
qed

lemma restoreActive_total:
  "\<forall>x \<in> snd ` set byId. instance_ok x \<Longrightarrow> \<exists>t. restoreActive a byId h = Inr t"
  by (auto simp: restoreActive_def Let_def image_iff split: option.splits dest!: map_of_SomeD instance_ok_raw(1))

lemma restored_fields:
  assumes "instance_ok x"
  shows "\<exists>t. restored_ssh cn x = Inr t \<and> (rt_connectionId t, rt_id t, rt_ordinal t) =
      (target_owner (snap_target x), raw_of x, snap_ordinal x)"
    and "\<exists>t. restored_local cn lp x = Inr t \<and> (rl_profileId t, rl_id t, rl_ordinal t, rl_source t) =
      (target_owner (snap_target x), raw_of x, snap_ordinal x, snap_source x)"
    and "\<exists>t. restored_desktop cn x = Inr t \<and> (rd_connectionId t, rd_id t) =
      (target_owner (snap_target x), raw_of x)"
  by (simp_all add: restored_ssh_def restored_local_def restored_desktop_def instance_ok_raw(1) [OF assms] Let_def)

lemma result_map_fields:
  assumes "\<And>x. x \<in> set xs \<Longrightarrow> \<exists>t. f x = Inr t \<and> g t = h x"
  shows "\<exists>ts. result_map f xs = Inr ts \<and> map g ts = map h xs"
  using assms
proof (induction xs)
  case (Cons x xs)
  then obtain t ts where "f x = Inr t" "g t = h x" "result_map f xs = Inr ts" "map g ts = map h xs"
    by (metis list.set_intros(1,2))
  then show ?case
    by simp
qed simp

lemma of_kind_ok: "snapshot_ok s \<Longrightarrow> x \<in> set (of_kind k s) \<Longrightarrow> instance_ok x"
  by (simp add: of_kind_def snapshot_ok_def Let_def)

lemma restored_lists:
  assumes "snapshot_ok s"
  shows "\<exists>ts. result_map (restored_ssh cn) (of_kind k s) = Inr ts \<and>
      map (\<lambda>t. (rt_connectionId t, rt_id t, rt_ordinal t)) ts =
        map (\<lambda>x. (target_owner (snap_target x), raw_of x, snap_ordinal x)) (of_kind k s)"
    and "\<exists>ts. result_map (restored_local cn lp) (of_kind k s) = Inr ts \<and>
      map (\<lambda>t. (rl_profileId t, rl_id t, rl_ordinal t, rl_source t)) ts =
        map (\<lambda>x. (target_owner (snap_target x), raw_of x, snap_ordinal x, snap_source x)) (of_kind k s)"
    and "\<exists>ts. result_map (restored_desktop cn) (of_kind k s) = Inr ts \<and>
      map (\<lambda>t. (rd_connectionId t, rd_id t)) ts = map (\<lambda>x. (target_owner (snap_target x), raw_of x)) (of_kind k s)"
  by (rule result_map_fields, rule restored_fields, erule of_kind_ok [OF assms])+

lemma hydration_exists:
  assumes ok: "snapshot_ok s" and panes: "\<forall>n. ws_panes s = Some n \<longrightarrow> pane_terminals (ws_instances s) n"
  shows "\<exists>h. buildWorkspaceShellHydration s cn lp = Inr h \<and>
    map (\<lambda>t. (rt_connectionId t, rt_id t, rt_ordinal t)) (hy_terminalTabs h) =
      map (\<lambda>x. (target_owner (snap_target x), raw_of x, snap_ordinal x)) (of_kind InstSsh s) \<and>
    map (\<lambda>t. (rl_profileId t, rl_id t, rl_ordinal t, rl_source t)) (hy_localTerminalTabs h) =
      map (\<lambda>x. (target_owner (snap_target x), raw_of x, snap_ordinal x, snap_source x)) (of_kind InstLocal s) \<and>
    map (\<lambda>t. (rd_connectionId t, rd_id t)) (hy_rdpSessions h) =
      map (\<lambda>x. (target_owner (snap_target x), raw_of x)) (of_kind InstRdp s) \<and>
    map (\<lambda>t. (rd_connectionId t, rd_id t)) (hy_vncSessions h) =
      map (\<lambda>x. (target_owner (snap_target x), raw_of x)) (of_kind InstVnc s) \<and>
    map_option (\<lambda>l. snapshotPaneNode l (map snap_id (ws_instances s))) (hy_splitLayout h) = ws_panes s"
proof -
  let ?xs = "ws_instances s"
  have xs: "distinct (map snap_id ?xs)" "\<forall>x \<in> set ?xs. instance_ok x"
      "pred_option (pane_ok (Suc MAX_PANE_DEPTH) (map snap_id ?xs)) (ws_panes s)"
    using ok [unfolded snapshot_ok_def Let_def] by blast+
  have byId: "map_from (map (\<lambda>x. (snap_id x, x)) ?xs) = map (\<lambda>x. (snap_id x, x)) ?xs"
    using xs(1) by (intro map_from_distinct) (simp add: comp_def)
  note fields = restored_lists [OF ok]
  obtain ssh where ssh: "result_map (restored_ssh cn) (of_kind InstSsh s) = Inr ssh"
      "map (\<lambda>t. (rt_connectionId t, rt_id t, rt_ordinal t)) ssh =
        map (\<lambda>x. (target_owner (snap_target x), raw_of x, snap_ordinal x)) (of_kind InstSsh s)"
    using fields(1) by blast
  obtain loc where loc: "result_map (restored_local cn lp) (of_kind InstLocal s) = Inr loc"
      "map (\<lambda>t. (rl_profileId t, rl_id t, rl_ordinal t, rl_source t)) loc =
        map (\<lambda>x. (target_owner (snap_target x), raw_of x, snap_ordinal x, snap_source x)) (of_kind InstLocal s)"
    using fields(2) by blast
  obtain rdp where rdp: "result_map (restored_desktop cn) (of_kind InstRdp s) = Inr rdp"
      "map (\<lambda>t. (rd_connectionId t, rd_id t)) rdp =
        map (\<lambda>x. (target_owner (snap_target x), raw_of x)) (of_kind InstRdp s)"
    using fields(3) by blast
  obtain vnc where vnc: "result_map (restored_desktop cn) (of_kind InstVnc s) = Inr vnc"
      "map (\<lambda>t. (rd_connectionId t, rd_id t)) vnc =
        map (\<lambda>x. (target_owner (snap_target x), raw_of x)) (of_kind InstVnc s)"
    using fields(3) by blast
  obtain layout where layout: "(case ws_panes s of None \<Rightarrow> Inr None
        | Some n \<Rightarrow> result_bind (restorePane n (map (\<lambda>x. (snap_id x, x)) ?xs)) (\<lambda>l. Inr (Some l))) = Inr layout"
      "map_option (\<lambda>l. snapshotPaneNode l (map snap_id ?xs)) layout = ws_panes s"
  proof (cases "ws_panes s")
    case (Some n)
    with xs(3) panes restorePane_roundtrip [OF xs(1,2), of "Suc MAX_PANE_DEPTH" n] obtain l where
        "restorePane n (map (\<lambda>x. (snap_id x, x)) ?xs) = Inr l" "snapshotPaneNode l (map snap_id ?xs) = n"
      by auto
    with Some that [of "Some l"] show ?thesis
      by simp
  qed (use that in simp)
  obtain active where active: "restoreActive (ws_activeItemId s) (map (\<lambda>x. (snap_id x, x)) ?xs)
      (Option.bind layout firstBinding) = Inr active"
    using restoreActive_total [of "map (\<lambda>x. (snap_id x, x)) ?xs"] xs(2) by fastforce
  show ?thesis
    unfolding buildWorkspaceShellHydration_def Let_def byId
    using ssh loc rdp vnc layout active by simp
qed

lemma collected_of_kind:
  assumes ok: "snapshot_ok s" and uniq: "owners_unique s"
    and fields: "map f ts = map (\<lambda>x. (target_owner (snap_target x), raw_of x, g x)) (of_kind k s)"
    and build: "\<And>x. snap_kind x = k \<Longrightarrow> mk (snap_id x) (g x) (snap_target x) = x"
    and refs: "refs = (if k = InstLocal then snd else fst) (snapshotTargetRefs s)"
  shows "map (\<lambda>t. case f t of (c, i, v) \<Rightarrow> mk (instanceItemId k i) v (target_or_profile refs c)) ts = of_kind k s"
proof -
  have "map (\<lambda>t. case f t of (c, i, v) \<Rightarrow> mk (instanceItemId k i) v (target_or_profile refs c)) ts =
      map (\<lambda>(c, i, v). mk (instanceItemId k i) v (target_or_profile refs c)) (map f ts)"
    by simp
  also have "\<dots> = of_kind k s"
    unfolding fields map_map comp_def split_conv
  proof (rule map_idI)
    fix x assume x: "x \<in> set (of_kind k s)"
    then have mem: "x \<in> set (ws_instances s)" "snap_kind x = k"
      by (simp_all add: of_kind_def)
    have "is_snap_local x \<longleftrightarrow> k = InstLocal"
      using mem(2) by (cases x) auto
    with target_refs_lookup [OF uniq mem(1)] instance_ok_raw(2) [OF of_kind_ok [OF ok x]] mem(2) build [OF mem(2)]
    show "mk (instanceItemId k (raw_of x)) (g x) (target_or_profile refs (target_owner (snap_target x))) = x"
      by (simp add: refs)
  qed
  finally show ?thesis .
qed

lemma restart_exact:
  assumes ok: "snapshot_ok s" and uniq: "owners_unique s"
    and panes: "\<forall>n. ws_panes s = Some n \<longrightarrow> pane_terminals (ws_instances s) n"
  shows "\<exists>h. buildWorkspaceShellHydration s connectionName localProfile = Inr h \<and>
    collectSnapshotInstances (hydrated_collections s h) =
      of_kind InstSsh s @ of_kind InstLocal s @ of_kind InstRdp s @ of_kind InstVnc s \<and>
    map_option (\<lambda>l. snapshotPaneNode l (map snap_id (ws_instances s))) (hy_splitLayout h) = ws_panes s"
proof -
  obtain h where h: "buildWorkspaceShellHydration s connectionName localProfile = Inr h"
    and ssh: "map (\<lambda>t. (rt_connectionId t, rt_id t, rt_ordinal t)) (hy_terminalTabs h) =
      map (\<lambda>x. (target_owner (snap_target x), raw_of x, snap_ordinal x)) (of_kind InstSsh s)"
    and loc: "map (\<lambda>t. (rl_profileId t, rl_id t, rl_ordinal t, rl_source t)) (hy_localTerminalTabs h) =
      map (\<lambda>x. (target_owner (snap_target x), raw_of x, snap_ordinal x, snap_source x)) (of_kind InstLocal s)"
    and rdp: "map (\<lambda>t. (rd_connectionId t, rd_id t)) (hy_rdpSessions h) =
      map (\<lambda>x. (target_owner (snap_target x), raw_of x)) (of_kind InstRdp s)"
    and vnc: "map (\<lambda>t. (rd_connectionId t, rd_id t)) (hy_vncSessions h) =
      map (\<lambda>x. (target_owner (snap_target x), raw_of x)) (of_kind InstVnc s)"
    and layout: "map_option (\<lambda>l. snapshotPaneNode l (map snap_id (ws_instances s))) (hy_splitLayout h) = ws_panes s"
    using hydration_exists [OF ok panes] by blast
  have desktop: "map (\<lambda>t. (rd_connectionId t, rd_id t, ())) ts = map (\<lambda>x. (target_owner (snap_target x), raw_of x, ())) xs"
    if "map (\<lambda>t. (rd_connectionId t, rd_id t)) ts = map (\<lambda>x. (target_owner (snap_target x), raw_of x)) xs" for ts xs
    using arg_cong [OF that, of "map (\<lambda>(c, i). (c, i, ()))"] by (simp add: comp_def)
  have kinds: "snap_kind x = InstSsh \<Longrightarrow> SnapSsh (snap_id x) (snap_ordinal x) (snap_target x) = x"
      "snap_kind x = InstLocal \<Longrightarrow> SnapLocal (snap_id x) (snap_ordinal x) (snap_source x) (snap_target x) = x"
      "snap_kind x = InstRdp \<Longrightarrow> SnapRdp (snap_id x) (snap_target x) = x"
      "snap_kind x = InstVnc \<Longrightarrow> SnapVnc (snap_id x) (snap_target x) = x" for x
    by (cases x; simp)+
  have "collectSnapshotInstances (hydrated_collections s h) =
      of_kind InstSsh s @ of_kind InstLocal s @ of_kind InstRdp s @ of_kind InstVnc s"
    using collected_of_kind [OF ok uniq ssh, of SnapSsh] kinds(1)
      collected_of_kind [OF ok uniq loc, of "\<lambda>i (n, src) t. SnapLocal i n src t"] kinds(2)
      collected_of_kind [OF ok uniq desktop [OF rdp], of "\<lambda>i u t. SnapRdp i t"] kinds(3)
      collected_of_kind [OF ok uniq desktop [OF vnc], of "\<lambda>i u t. SnapVnc i t"] kinds(4)
    by (simp add: collectSnapshotInstances_def hydrated_collections_def comp_def)
  with h layout show ?thesis
    by blast
qed

text \<open>
  A restart loses nothing. Hydrating a well-formed snapshot whose panes show terminals never
  throws; and when the hydrated workspace is projected again, it yields the same instances
  (grouped by kind, each kind in its order, with their targets) and the same pane tree.
\<close>

theorem restart_roundtrip:
  assumes ok: "snapshot_ok s" and uniq: "owners_unique s"
    and panes: "\<forall>n. ws_panes s = Some n \<longrightarrow> pane_terminals (ws_instances s) n"
  shows "\<exists>h. buildWorkspaceShellHydration s connectionName localProfile = Inr h \<and>
    collectSnapshotInstances (hydrated_collections s h) =
      of_kind InstSsh s @ of_kind InstLocal s @ of_kind InstRdp s @ of_kind InstVnc s \<and>
    map_option (\<lambda>l. snapshotPaneNode l (map snap_id (ws_instances s))) (hy_splitLayout h) = ws_panes s"
  using assms by (rule restart_exact)

theorem restart_roundtrip_witness:
  "\<exists>h. buildWorkspaceShellHydration sample_snapshot (\<lambda>_. None) (\<lambda>_. None) = Inr h \<and>
    collectSnapshotInstances (hydrated_collections sample_snapshot h) = ws_instances sample_snapshot"
proof -
  have "owners_unique sample_snapshot" "\<forall>n. ws_panes sample_snapshot = Some n \<longrightarrow>
      pane_terminals (ws_instances sample_snapshot) n"
    by (simp_all add: owners_unique_def sample_snapshot_def)
  from restart_roundtrip [OF sample_snapshot_ok this, of "\<lambda>_. None" "\<lambda>_. None"] show ?thesis
    by (auto simp: of_kind_def sample_snapshot_def)
qed

section \<open>Directories survive a restart\<close>

lemma state_key_inject [simp]:
  "workspaceRemoteFileStateKey a = workspaceRemoteFileStateKey b \<longleftrightarrow> a = b"
  by (simp add: workspaceRemoteFileStateKey_def)

lemma seed_fold_lookup:
  assumes "distinct (map_keys ds)" "\<forall>(i, path) \<in> set ds. (\<exists>raw. i = ''ssh:'' @ raw) \<and> path \<noteq> []"
  shows "map_of (nav_byStateKey (fst (foldl (seed_one follows) (store, ch) ds))) (workspaceRemoteFileStateKey t) =
    (case map_of ds (''ssh:'' @ t) of
       None \<Rightarrow> map_of (nav_byStateKey store) (workspaceRemoteFileStateKey t)
     | Some path \<Rightarrow> Some \<lparr>nav_path = path, nav_followTerminalDirectory =
         (case follows (''ssh:'' @ t) of None \<Rightarrow> False | Some b \<Rightarrow> b)\<rparr>)"
  using assms
proof (induction ds arbitrary: store ch)
  case (Cons d ds)
  obtain raw path where d: "d = (''ssh:'' @ raw, path)" "path \<noteq> []"
    using Cons.prems(2) by (cases d) auto
  obtain store' ch' where step: "seed_one follows (store, ch) d = (store', ch')"
    by force
  have key: "map_of (nav_byStateKey store') (workspaceRemoteFileStateKey t) =
      (if t = raw then Some \<lparr>nav_path = path, nav_followTerminalDirectory =
         (case follows (''ssh:'' @ raw) of None \<Rightarrow> False | Some b \<Rightarrow> b)\<rparr>
       else map_of (nav_byStateKey store) (workspaceRemoteFileStateKey t))"
    using step d by (auto simp: seed_one_def Let_def nav_put_def split: if_splits)
  have "map_of ds (''ssh:'' @ raw) = None"
    using Cons.prems(1) d(1) by (simp add: map_of_eq_None_iff)
  with Cons.IH [of store' ch'] Cons.prems step key d(1) show ?case
    by (auto split: option.split)
qed simp

text \<open>
  Seeding the file panels with the directories of a snapshot and reading them back for the open
  terminals gives exactly those directories: the directory of every listed SSH instance,
  whatever the panels held before.
\<close>

theorem seeded_directories_read_back:
  assumes "distinct (map_keys ds)" "\<forall>(i, path) \<in> set ds. (\<exists>raw. i = ''ssh:'' @ raw) \<and> path \<noteq> []"
    and "(''ssh:'' @ t, path) \<in> set ds" "t \<in> set tabIds"
  shows "map_of (workspaceRemoteFileDirectories tabIds
      (seedWorkspaceRemoteFileDirectories ds follows store)) (''ssh:'' @ t) = Some path"
proof -
  let ?store = "seedWorkspaceRemoteFileDirectories ds follows store"
  let ?read = "\<lambda>t. case map_of (nav_byStateKey ?store) (workspaceRemoteFileStateKey t) of
      None \<Rightarrow> [] | Some nav \<Rightarrow> if nav_path nav = [] then [] else [(''ssh:'' @ t, nav_path nav)]"
  have "map_of ds (''ssh:'' @ t) = Some path"
    using assms(1,3) by simp
  then have "\<exists>nav. map_of (nav_byStateKey ?store) (workspaceRemoteFileStateKey t) = Some nav \<and> nav_path nav = path"
    using seed_fold_lookup [OF assms(1,2), of follows store False t]
    by (auto simp: seedWorkspaceRemoteFileDirectories_def split_beta Let_def)
  moreover have "path \<noteq> []"
    using assms(2,3) by auto
  ultimately have "(''ssh:'' @ t, path) \<in> set (concat (map ?read tabIds))"
    using assms(4) by force
  moreover have "p = path" if "(''ssh:'' @ t, p) \<in> set (concat (map ?read tabIds))" for p
    using that \<open>\<exists>nav. _\<close> by (auto split: option.splits if_splits)
  ultimately show ?thesis
    unfolding workspaceRemoteFileDirectories_def map_of_map_from
    by (rule map_of_rev_only)
qed

theorem seeded_directories_read_back_witness:
  "map_of (workspaceRemoteFileDirectories [''t0'', ''t1'']
     (seedWorkspaceRemoteFileDirectories [(''ssh:t1'', ''/srv'')] Map.empty
       \<lparr>nav_byStateKey = [], nav_revision = 0\<rparr>)) ''ssh:t1'' = Some ''/srv''"
  using seeded_directories_read_back [of "[(''ssh:t1'', ''/srv'')]" "''t1''" "''/srv''" "[''t0'', ''t1'']"]
  by simp

end
