(* ===== verification/Snapshot_Lifecycle.thy ===== *)
theory Snapshot_Lifecycle
  imports Snapshot_Codec
begin

text \<open>
  When the workspace is loaded and saved
  (\<open>features/workspace/restore/useWorkspaceSnapshotLifecycle.ts\<close>): renders with any inputs, answers of
  \<open>load\<close>, timers and answers of \<open>save\<close> in any order, and the unmount.

  The state holds the refs of the hook (\<open>restoredRef\<close>, \<open>lastSavedRef\<close>, the save queue), its \<open>ready\<close>
  flag, the inputs and the flag the effects last ran with (from which React decides which effects to
  run again, and which are those of \<open>inputRef\<close>), the loads in flight, each with the inputs its effect
  has captured and its \<open>disposed\<close> flag, the armed timer, and what is stored. A render and its effects
  are one step; \<open>setReady\<close> takes effect at the next render. A runtime is its identity; all runtimes
  write to the one store of the desktop process. Snapshots are compared as values, which is what
  comparing their serialisations does.
\<close>

section \<open>State\<close>

record 's lifecycle_input =
  li_enabled :: bool
  li_restoreOnLaunch :: bool
  li_snapshot :: 's
  li_runtime :: "nat option"

record 's lifecycle =
  lc_commit :: "('s lifecycle_input \<times> bool) option"
  lc_mounted :: bool
  lc_loads :: "('s lifecycle_input \<times> bool) list"
  lc_restored :: bool
  lc_ready :: bool
  lc_lastSaved :: "'s option"
  lc_timer :: "(nat \<times> 's) option"
  lc_queue :: "(nat \<times> 's) list"
  lc_stored :: "'s option"
  lc_writes :: "'s list"
  lc_errors :: nat

definition lifecycle_start :: "'s option \<Rightarrow> 's lifecycle" where
  "lifecycle_start stored =
     \<lparr>lc_commit = None, lc_mounted = True, lc_loads = [], lc_restored = False, lc_ready = False,
      lc_lastSaved = None, lc_timer = None, lc_queue = [], lc_stored = stored, lc_writes = [], lc_errors = 0\<rparr>"

section \<open>Effects\<close>

definition restore_deps :: "'s lifecycle_input \<Rightarrow> bool \<times> bool \<times> nat option" where
  "restore_deps i = (li_enabled i, li_restoreOnLaunch i, li_runtime i)"

definition save_deps :: "'s lifecycle_input \<times> bool \<Rightarrow> bool \<times> nat option \<times> bool \<times> 's" where
  "save_deps c = (li_enabled (fst c), li_runtime (fst c), snd c, li_snapshot (fst c))"

definition restore_settled :: "'s \<Rightarrow> 's lifecycle \<Rightarrow> 's lifecycle" where
  "restore_settled saved st = st\<lparr>lc_lastSaved := Some saved, lc_restored := True, lc_ready := True\<rparr>"

text \<open>The restore effect: nothing to restore, or the start of \<open>load\<close>. Its cleanup disposes of the load.\<close>

definition restore_effect :: "'s lifecycle_input \<Rightarrow> 's lifecycle \<Rightarrow> 's lifecycle" where
  "restore_effect i st =
     (if \<not> li_enabled i \<or> lc_restored st then st
      else if li_runtime i = None \<or> \<not> li_restoreOnLaunch i then restore_settled (li_snapshot i) st
      else st\<lparr>lc_loads := lc_loads st @ [(i, False)]\<rparr>)"

definition restore_cleanup :: "'s lifecycle \<Rightarrow> 's lifecycle" where
  "restore_cleanup st = st\<lparr>lc_loads := map (\<lambda>(i, _). (i, True)) (lc_loads st)\<rparr>"

text \<open>The save effect arms a timer unless the snapshot is the last saved one. Its cleanup cancels the timer.\<close>

definition save_effect :: "'s lifecycle_input \<Rightarrow> bool \<Rightarrow> 's lifecycle \<Rightarrow> 's lifecycle" where
  "save_effect i ready st =
     (if \<not> ready \<or> \<not> li_enabled i then st
      else case li_runtime i of
        None \<Rightarrow> st
      | Some runtime \<Rightarrow>
          if lc_lastSaved st = Some (li_snapshot i) then st
          else st\<lparr>lc_timer := Some (runtime, li_snapshot i)\<rparr>)"

definition save_cleanup :: "'s lifecycle \<Rightarrow> 's lifecycle" where
  "save_cleanup st = st\<lparr>lc_timer := None\<rparr>"

text \<open>
  A render: the effects whose dependencies have changed run again, after the cleanups of their
  previous runs.
\<close>

definition commit_effects :: "bool \<Rightarrow> bool \<Rightarrow> 's lifecycle_input \<Rightarrow> bool \<Rightarrow> 's lifecycle \<Rightarrow> 's lifecycle" where
  "commit_effects restoring saving i ready st =
     (let st = (if restoring then restore_cleanup st else st);
          st = (if saving then save_cleanup st else st);
          st = (if restoring then restore_effect i st else st)
      in if saving then save_effect i ready st else st)"

definition render :: "'s lifecycle_input \<Rightarrow> 's lifecycle \<Rightarrow> 's lifecycle" where
  "render i st =
     commit_effects (map_option (restore_deps \<circ> fst) (lc_commit st) \<noteq> Some (restore_deps i))
       (map_option save_deps (lc_commit st) \<noteq> Some (save_deps (i, lc_ready st))) i (lc_ready st)
       (st\<lparr>lc_commit := Some (i, lc_ready st)\<rparr>)"

definition unmount :: "'s lifecycle \<Rightarrow> 's lifecycle" where
  "unmount st = save_cleanup (restore_cleanup (st\<lparr>lc_mounted := False\<rparr>))"

text \<open>
  \<open>load\<close> settles: with an envelope in which a snapshot is selected (and handed to \<open>onRestore\<close>, whose
  changes appear in a later render) or none, or with an error; \<open>None\<close> is the error, also one raised while the
  envelope is read or restored.
\<close>

definition load_settled :: "nat \<Rightarrow> 's option option \<Rightarrow> 's lifecycle \<Rightarrow> 's lifecycle" where
  "load_settled n answer st =
     (if n < length (lc_loads st) then
        let disposed = snd (lc_loads st ! n);
            current = (case lc_commit st of Some (i, _) \<Rightarrow> li_snapshot i | None \<Rightarrow> li_snapshot (fst (lc_loads st ! n)));
            st = st\<lparr>lc_loads := take n (lc_loads st) @ drop (Suc n) (lc_loads st)\<rparr>
        in if disposed then st
           else case answer of
               Some (Some s) \<Rightarrow> restore_settled s st
             | Some None \<Rightarrow> restore_settled current st
             | None \<Rightarrow> restore_settled current (st\<lparr>lc_errors := lc_errors st + 1\<rparr>)
      else st)"

text \<open>The timer puts its snapshot at the end of the chain of saves, which run one at a time.\<close>

definition timer_fires :: "'s lifecycle \<Rightarrow> 's lifecycle" where
  "timer_fires st =
     (case lc_timer st of
        None \<Rightarrow> st
      | Some save \<Rightarrow> st\<lparr>lc_timer := None, lc_queue := lc_queue st @ [save]\<rparr>)"

definition save_settles :: "bool \<Rightarrow> 's lifecycle \<Rightarrow> 's lifecycle" where
  "save_settles ok st =
     (case lc_queue st of
        [] \<Rightarrow> st
      | (_, s) # rest \<Rightarrow>
          if ok then st\<lparr>lc_queue := rest, lc_stored := Some s, lc_lastSaved := Some s,
            lc_writes := lc_writes st @ [s]\<rparr>
          else st\<lparr>lc_queue := rest, lc_errors := lc_errors st + 1\<rparr>)"

datatype 's lifecycle_event =
    Render "'s lifecycle_input" | Unmount | LoadSettles nat "'s option option" | TimerFires | SaveSettles bool

fun lifecycle_step :: "'s lifecycle \<Rightarrow> 's lifecycle_event \<Rightarrow> 's lifecycle" where
  "lifecycle_step st (Render i) = (if lc_mounted st then render i st else st)"
| "lifecycle_step st Unmount = unmount st"
| "lifecycle_step st (LoadSettles n answer) = load_settled n answer st"
| "lifecycle_step st TimerFires = timer_fires st"
| "lifecycle_step st (SaveSettles ok) = save_settles ok st"

definition run_lifecycle :: "'s lifecycle \<Rightarrow> 's lifecycle_event list \<Rightarrow> 's lifecycle" where
  "run_lifecycle = foldl lifecycle_step"

section \<open>Safety\<close>

text \<open>
  What gives leave to write: a load that was started under the inputs still in force is answered, with
  or without success, or the hook is rendered, enabled, with nothing to read from or told not to read.
\<close>

fun opens :: "'s lifecycle \<Rightarrow> 's lifecycle_event \<Rightarrow> bool" where
  "opens st (Render i) = (li_enabled i \<and> (li_runtime i = None \<or> \<not> li_restoreOnLaunch i))"
| "opens st (LoadSettles n answer) =
     (lc_mounted st \<and> n < length (lc_loads st) \<and>
      Some (restore_deps (fst (lc_loads st ! n))) = map_option (restore_deps \<circ> fst) (lc_commit st))"
| "opens st _ = False"

fun opened :: "'s lifecycle \<Rightarrow> 's lifecycle_event list \<Rightarrow> bool" where
  "opened st [] = False"
| "opened st (e # es) = (opens st e \<or> opened (lifecycle_step st e) es)"

text \<open>
  Before leave is given nothing is under way; at most one load is not disposed, and it is one of the inputs in force;
  the timer is that of the last render; the store holds the last write.
\<close>

definition load_ok :: "'s lifecycle \<Rightarrow> 's lifecycle_input \<times> bool \<Rightarrow> bool" where
  "load_ok st l \<longleftrightarrow> snd l \<or> \<not> lc_restored st \<and> lc_mounted st \<and>
     map_option (restore_deps \<circ> fst) (lc_commit st) = Some (restore_deps (fst l))"

definition save_timer_ok :: "'s lifecycle \<Rightarrow> bool" where
  "save_timer_ok st \<longleftrightarrow> (\<forall>runtime s. lc_timer st = Some (runtime, s) \<longrightarrow>
     (\<exists>i. lc_commit st = Some (i, True) \<and> li_enabled i \<and> li_runtime i = Some runtime \<and> li_snapshot i = s))"

definition store_ok :: "'s option \<Rightarrow> 's lifecycle \<Rightarrow> bool" where
  "store_ok stored st \<longleftrightarrow>
     lc_stored st = (if lc_writes st = [] then stored else Some (last (lc_writes st))) \<and>
     (lc_writes st \<noteq> [] \<longrightarrow> lc_lastSaved st = Some (last (lc_writes st)))"

definition lifecycle_ok :: "'s option \<Rightarrow> bool \<Rightarrow> 's lifecycle \<Rightarrow> bool" where
  "lifecycle_ok stored leave st \<longleftrightarrow>
     lc_ready st = lc_restored st \<and> (lc_restored st \<longrightarrow> leave) \<and>
     (\<not> lc_restored st \<longrightarrow> lc_timer st = None \<and> lc_queue st = [] \<and> lc_writes st = []) \<and>
     list_all (load_ok st) (lc_loads st) \<and> length (filter (\<lambda>l. \<not> snd l) (lc_loads st)) \<le> 1 \<and> save_timer_ok st \<and> store_ok stored st"

lemmas lifecycle_defs =
  restore_effect_def restore_settled_def restore_cleanup_def save_effect_def save_cleanup_def unmount_def
  load_settled_def timer_fires_def save_settles_def

lemmas lifecycle_ok_defs = lifecycle_ok_def load_ok_def save_timer_ok_def store_ok_def

lemma restore_fields [simp]:
  "lc_commit (restore_effect i st) = lc_commit st" "lc_mounted (restore_effect i st) = lc_mounted st"
  "lc_queue (restore_effect i st) = lc_queue st" "lc_stored (restore_effect i st) = lc_stored st"
  "lc_writes (restore_effect i st) = lc_writes st" "lc_timer (restore_effect i st) = lc_timer st"
  "lc_restored (restore_effect i st) =
     (lc_restored st \<or> li_enabled i \<and> (li_runtime i = None \<or> \<not> li_restoreOnLaunch i))"
  "lc_ready (restore_effect i st) =
     (lc_ready st \<or> \<not> lc_restored st \<and> li_enabled i \<and> (li_runtime i = None \<or> \<not> li_restoreOnLaunch i))"
  "lc_loads (restore_effect i st) = lc_loads st @
     (if li_enabled i \<and> \<not> lc_restored st \<and> li_runtime i \<noteq> None \<and> li_restoreOnLaunch i then [(i, False)] else [])"
  "lc_restored st \<Longrightarrow> restore_effect i st = st"
  by (auto simp: restore_effect_def restore_settled_def)

lemma cleanup_fields [simp]:
  "lc_commit (restore_cleanup st) = lc_commit st" "lc_mounted (restore_cleanup st) = lc_mounted st"
  "lc_queue (restore_cleanup st) = lc_queue st" "lc_stored (restore_cleanup st) = lc_stored st"
  "lc_writes (restore_cleanup st) = lc_writes st" "lc_timer (restore_cleanup st) = lc_timer st"
  "lc_restored (restore_cleanup st) = lc_restored st" "lc_ready (restore_cleanup st) = lc_ready st"
  "lc_lastSaved (restore_cleanup st) = lc_lastSaved st"
  "lc_loads (restore_cleanup st) = map (\<lambda>(i, _). (i, True)) (lc_loads st)"
  by (simp_all add: restore_cleanup_def)

lemma save_fields [simp]:
  "lc_commit (save_effect i r st) = lc_commit st" "lc_mounted (save_effect i r st) = lc_mounted st"
  "lc_queue (save_effect i r st) = lc_queue st" "lc_stored (save_effect i r st) = lc_stored st"
  "lc_writes (save_effect i r st) = lc_writes st" "lc_restored (save_effect i r st) = lc_restored st"
  "lc_ready (save_effect i r st) = lc_ready st" "lc_lastSaved (save_effect i r st) = lc_lastSaved st"
  "lc_loads (save_effect i r st) = lc_loads st"
  by (simp_all add: save_effect_def split: option.split)

lemma save_timer:
  "lc_timer (save_effect i r st) = Some (runtime, s) \<Longrightarrow> lc_timer st = None \<Longrightarrow>
     r \<and> li_enabled i \<and> li_runtime i = Some runtime \<and> li_snapshot i = s"
  "\<not> r \<Longrightarrow> save_effect i r st = st"
  by (auto simp: save_effect_def split: option.splits if_splits)

lemma commit_fields:
  "lc_commit (commit_effects restoring saving i ready st) = lc_commit st"
  "lc_mounted (commit_effects restoring saving i ready st) = lc_mounted st"
  "lc_queue (commit_effects restoring saving i ready st) = lc_queue st"
  "lc_stored (commit_effects restoring saving i ready st) = lc_stored st"
  "lc_writes (commit_effects restoring saving i ready st) = lc_writes st"
  "lc_restored (commit_effects restoring saving i ready st) =
     (lc_restored st \<or> restoring \<and> li_enabled i \<and> (li_runtime i = None \<or> \<not> li_restoreOnLaunch i))"
  "lc_ready (commit_effects restoring saving i ready st) =
     (lc_ready st \<or> restoring \<and> \<not> lc_restored st \<and> li_enabled i \<and> (li_runtime i = None \<or> \<not> li_restoreOnLaunch i))"
  "lc_loads (commit_effects restoring saving i ready st) =
     (if restoring then map (\<lambda>(i, _). (i, True)) (lc_loads st) @
        (if li_enabled i \<and> \<not> lc_restored st \<and> li_runtime i \<noteq> None \<and> li_restoreOnLaunch i then [(i, False)] else [])
      else lc_loads st)"
  "lc_restored st \<Longrightarrow> lc_lastSaved (commit_effects restoring saving i ready st) = lc_lastSaved st"
  by (simp_all add: commit_effects_def save_cleanup_def Let_def)

lemma commit_timer:
  "lc_timer (commit_effects restoring False i ready st) = lc_timer st"
  "lc_timer (commit_effects restoring True i ready st) = Some (runtime, s) \<Longrightarrow>
     ready \<and> li_enabled i \<and> li_runtime i = Some runtime \<and> li_snapshot i = s"
  "\<not> ready \<Longrightarrow> lc_timer st = None \<Longrightarrow> lc_timer (commit_effects restoring saving i ready st) = None"
  by (auto simp: commit_effects_def save_cleanup_def save_timer Let_def dest: save_timer split: if_splits)

lemma render_timer: "save_timer_ok st \<Longrightarrow> save_timer_ok (render i st)"
  by (cases "map_option save_deps (lc_commit st) = Some (save_deps (i, lc_ready st))")
     (auto simp: save_timer_ok_def render_def commit_fields commit_timer save_deps_def dest: commit_timer(2))

lemma render_loads:
  assumes "list_all (load_ok st) (lc_loads st)" "lc_mounted st"
  shows "list_all (load_ok (render i st)) (lc_loads (render i st))"
proof (cases "map_option (restore_deps \<circ> fst) (lc_commit st) = Some (restore_deps i)")
  case True
  with assms show ?thesis
    by (auto simp: load_ok_def list_all_iff render_def commit_fields)
next
  case False
  with assms(2) show ?thesis
    by (auto simp: load_ok_def list_all_iff render_def commit_fields)
qed

lemma render_ok:
  assumes "lifecycle_ok stored leave st" "lc_mounted st"
  shows "lifecycle_ok stored (leave \<or> opens st (Render i)) (render i st)"
proof -
  have "list_all (load_ok (render i st)) (lc_loads (render i st))" "save_timer_ok (render i st)"
    using assms by (simp_all add: lifecycle_ok_def render_loads render_timer)
  moreover have "length (filter (\<lambda>l. \<not> snd l) (lc_loads (render i st))) \<le> 1"
    using assms(1) by (simp add: lifecycle_ok_def render_def commit_fields filter_map comp_def split_beta)
  moreover have "store_ok stored (render i st)"
    using assms(1) by (cases "lc_restored st") (simp_all add: lifecycle_ok_def store_ok_def render_def commit_fields)
  moreover have "\<not> lc_restored st \<Longrightarrow> lc_timer (render i st) = None"
    using assms(1) by (simp add: lifecycle_ok_def render_def commit_timer)
  moreover have "lc_ready (render i st) = lc_restored (render i st)" "lc_restored (render i st) \<longrightarrow> leave \<or> opens st (Render i)"
    "\<not> lc_restored (render i st) \<longrightarrow> \<not> lc_restored st \<and> lc_queue (render i st) = [] \<and> lc_writes (render i st) = []"
    using assms(1) unfolding lifecycle_ok_def render_def by (auto simp: commit_fields)
  ultimately show ?thesis
    unfolding lifecycle_ok_def by blast
qed

lemma load_settled_ok:
  assumes "lifecycle_ok stored leave st"
  shows "lifecycle_ok stored (leave \<or> opens st (LoadSettles n answer)) (load_settled n answer st)"
proof (cases "n < length (lc_loads st)")
  case True
  define b where "b = take n (lc_loads st) @ drop (Suc n) (lc_loads st)"
  have loads: "load_ok st (lc_loads st ! n)" "list_all (load_ok st) b"
    using assms True by (auto simp: lifecycle_ok_def list_all_iff b_def dest: in_set_takeD in_set_dropD)
  have split: "lc_loads st = take n (lc_loads st) @ lc_loads st ! n # drop (Suc n) (lc_loads st)"
    using True by (rule id_take_nth_drop)
  have live_count: "length (filter (\<lambda>l. \<not> snd l) (lc_loads st)) =
      of_bool (\<not> snd (lc_loads st ! n)) + length (filter (\<lambda>l. \<not> snd l) b)"
    by (subst split) (simp add: b_def)
  show ?thesis
  proof (cases "snd (lc_loads st ! n)")
    case disposed: True
    then have "load_settled n answer st = st\<lparr>lc_loads := b\<rparr>"
      using True by (simp add: load_settled_def b_def)
    with assms loads(2) live_count disposed show ?thesis
      by (auto simp: lifecycle_ok_defs list_all_iff)
  next
    case live: False
    then have b: "filter (\<lambda>l. \<not> snd l) b = []"
      using assms live_count by (simp add: lifecycle_ok_def)
    then have b_disposed: "\<forall>l\<in>set b. snd l"
      by (simp add: filter_empty_conv)
    have same: "st\<lparr>lc_loads := b, lc_errors := lc_errors st\<rparr> = st\<lparr>lc_loads := b\<rparr>"
      by (cases st) simp
    obtain saved errors where settled: "load_settled n answer st = restore_settled saved (st\<lparr>lc_loads := b, lc_errors := errors\<rparr>)"
    proof (cases answer)
      case None
      with True live that show ?thesis
        by (simp add: load_settled_def b_def Let_def)
    next
      case (Some selected)
      with True live that [of _ "lc_errors st"] show ?thesis
        unfolding same by (cases selected) (simp_all add: load_settled_def b_def Let_def)
    qed
    have "\<not> lc_restored st" "opens st (LoadSettles n answer)"
      using loads(1) live True by (auto simp: load_ok_def)
    with assms b b_disposed show ?thesis
      by (auto simp: settled restore_settled_def lifecycle_ok_defs list_all_iff)
  qed
qed (use assms in \<open>auto simp: load_settled_def lifecycle_ok_def\<close>)

lemma lifecycle_step_ok:
  assumes "lifecycle_ok stored leave st"
  shows "lifecycle_ok stored (leave \<or> opens st e) (lifecycle_step st e)"
proof (cases e)
  case (Render i)
  with assms show ?thesis
    using render_ok [of stored leave st i] by (auto simp: lifecycle_ok_def)
next
  case (LoadSettles n answer)
  with assms show ?thesis
    using load_settled_ok [of stored leave st n answer] by simp
next
  case Unmount
  with assms show ?thesis
    by (auto simp: unmount_def save_cleanup_def lifecycle_ok_defs list_all_iff filter_map comp_def split_beta)
next
  case TimerFires
  with assms show ?thesis
    by (auto simp: timer_fires_def lifecycle_ok_defs list_all_iff split: option.split)
next
  case (SaveSettles ok)
  with assms show ?thesis
    by (auto simp: save_settles_def lifecycle_ok_defs list_all_iff split: list.splits)
qed

lemma run_lifecycle_ok:
  "lifecycle_ok stored leave st \<Longrightarrow> lifecycle_ok stored (leave \<or> opened st es) (run_lifecycle st es)"
proof (induction es arbitrary: leave st)
  case (Cons e es)
  from Cons.IH [OF lifecycle_step_ok [OF Cons.prems]] show ?case
    by (simp add: run_lifecycle_def disj_assoc)
qed (simp add: run_lifecycle_def)

lemma lifecycle_start_ok: "lifecycle_ok stored False (lifecycle_start stored)"
  by (simp add: lifecycle_ok_defs lifecycle_start_def)

text \<open>
  C11. Whatever the order of renders, answers and timers, nothing is written before a load started
  under the inputs still in force has been answered (with a workspace, with none, or with an error) or
  the hook has been rendered, enabled, with no runtime or told not to restore: until then the store is
  untouched and no save is armed or queued. The store always holds the last write, if there was
  one, and \<open>lastSaved\<close> then agrees with it; an armed timer carries the snapshot and the runtime of the
  last render, in which the hook was enabled and ready.
\<close>

theorem no_write_before_restore:
  "let st = run_lifecycle (lifecycle_start stored) es in
    (\<not> opened (lifecycle_start stored) es \<longrightarrow>
      lc_stored st = stored \<and> lc_writes st = [] \<and> lc_queue st = [] \<and> lc_timer st = None) \<and>
    (lc_writes st \<noteq> [] \<longrightarrow> lc_stored st = Some (last (lc_writes st)) \<and> lc_lastSaved st = lc_stored st) \<and>
    (\<forall>runtime s. lc_timer st = Some (runtime, s) \<longrightarrow>
      (\<exists>i. lc_commit st = Some (i, True) \<and> li_enabled i \<and> li_runtime i = Some runtime \<and> li_snapshot i = s))"
proof -
  have "lifecycle_ok stored (opened (lifecycle_start stored) es) (run_lifecycle (lifecycle_start stored) es)"
    using run_lifecycle_ok [OF lifecycle_start_ok] by simp
  then show ?thesis
    unfolding Let_def by (auto simp: lifecycle_ok_defs)
qed

definition shell_input :: "bool \<Rightarrow> nat \<Rightarrow> nat lifecycle_input" where
  "shell_input restoring s = \<lparr>li_enabled = True, li_restoreOnLaunch = restoring, li_snapshot = s, li_runtime = Some 0\<rparr>"

text \<open>
  Snapshots are numbers. The hook is rendered with the empty workspace 0, reads the stored workspace 1,
  which then appears in a render, and saves the changed workspace 2.
\<close>

definition reading_events :: "nat lifecycle_event list" where
  "reading_events =
     [Render (shell_input True 0), TimerFires, LoadSettles 0 (Some (Some 1)), Render (shell_input True 1),
      Render (shell_input True 2), TimerFires, SaveSettles True]"

theorem no_write_before_restore_witness:
  "(let st = run_lifecycle (lifecycle_start (Some 1)) (take 2 reading_events) in lc_stored st = Some 1 \<and> lc_timer st = None) \<and>
   (let st = run_lifecycle (lifecycle_start (Some 1)) reading_events in lc_stored st = Some 2 \<and> lc_lastSaved st = Some 2)"
proof -
  have "\<not> opened (lifecycle_start (Some 1)) (take 2 reading_events)"
    "lc_writes (run_lifecycle (lifecycle_start (Some 1)) reading_events) = [2]"
    by code_simp+
  then show ?thesis
    using no_write_before_restore [of "Some 1" "take 2 reading_events"] no_write_before_restore [of "Some 1" reading_events]
    by (simp add: Let_def)
qed

text \<open>
  A slow save can leave a stale workspace on disk. From a saved workspace 1 the layout
  changes to 2, its save is under way, and the layout changes back to 1: the effect sees the
  last completed save (1) and arms no timer; then the save of 2 completes. No timer is armed,
  no save is pending, no error was reported, and the store holds 2 while the workspace is 1.
\<close>

definition slow_save_run :: "nat lifecycle" where
  "slow_save_run = run_lifecycle (lifecycle_start (Some 1))
     [Render (shell_input True 0), LoadSettles 0 (Some (Some 1)), Render (shell_input True 1), Render (shell_input True 2),
      TimerFires, Render (shell_input True 1), SaveSettles True]"

theorem slow_save_leaves_stale_store:
  "lc_ready slow_save_run \<and> lc_timer slow_save_run = None \<and> lc_queue slow_save_run = [] \<and>
   lc_errors slow_save_run = 0 \<and> lc_commit slow_save_run = Some (shell_input True 1, True) \<and>
   lc_stored slow_save_run = Some 2"
  by code_simp

end
