(* ===== verification/Batch_Model.thy ===== *)
theory Batch_Model
  imports Prelude
begin

text \<open>
  Connecting a folder of connections at once
  (\<open>features/connections/batchConnectModel.ts\<close>): which connections a folder offers, which
  of them are preselected, and the list of items whose progress the dialog shows.

  \<open>collectGroups\<close> walks the folder tree depth first with a visited set, \<open>resolveGroupPath\<close>
  climbs it with another; both are proved to terminate on every table of folders, cyclic ones
  included, and the walk is proved to find exactly the descendants of the root.
\<close>

section \<open>Data\<close>

datatype ConnectionProtocol = ProtoSsh | ProtoRdp | ProtoVnc | ProtoTelnet | ProtoSerial

datatype credential_choice = CredPrompt | CredSaved | CredInline | CredOsStore | CredSame

record batch_rdp =
  rdp_security_mode :: credential_choice
  rdp_gateway_source :: "credential_choice option"

record BatchConnectProfile =
  bp_id :: string
  bp_name :: string
  bp_group_id :: "string option"
  bp_protocol :: "ConnectionProtocol option"
  bp_credential_mode :: credential_choice
  bp_rdp :: "batch_rdp option"
  bp_vnc_mode :: "credential_choice option"

record BatchConnectGroup =
  bg_id :: string
  bg_name :: string
  bg_parentId :: "string option"
  bg_sortOrder :: rat

record BatchConnectCandidate =
  bc_alreadyOpen :: bool
  bc_connectionId :: string
  bc_groupId :: string
  bc_groupPath :: string
  bc_name :: string
  bc_protocol :: ConnectionProtocol
  bc_requiresInteraction :: bool

record BatchConnectPreviewPlan =
  bpp_candidates :: "BatchConnectCandidate list"
  bpp_eligibleCount :: nat
  bpp_selectedConnectionIds :: "string list"
  bpp_selectionLimitReached :: bool

definition batchConnectMaxNewSessions :: int where "batchConnectMaxNewSessions = 20"
definition batchConnectMaxConcurrentAttempts :: int where "batchConnectMaxConcurrentAttempts = 4"

section \<open>Folders\<close>

text \<open>
  \<open>originalIndex.get(id) || 0\<close>: the last position of the id, as later entries of a
  \<open>Map\<close> overwrite earlier ones.
\<close>

definition originalIndex :: "BatchConnectGroup list \<Rightarrow> string \<Rightarrow> rat" where
  "originalIndex groups i =
     (case map_of (rev (zip (map bg_id groups) [0..<length groups])) i of
        None \<Rightarrow> 0 | Some n \<Rightarrow> of_nat n)"

definition compareChildren :: "BatchConnectGroup list \<Rightarrow> BatchConnectGroup \<Rightarrow> BatchConnectGroup \<Rightarrow> rat" where
  "compareChildren groups left right =
     (let bySort = bg_sortOrder left - bg_sortOrder right in
      if bySort \<noteq> 0 then bySort
      else originalIndex groups (bg_id left) - originalIndex groups (bg_id right))"

definition childrenByParent :: "BatchConnectGroup list \<Rightarrow> string \<Rightarrow> BatchConnectGroup list" where
  "childrenByParent groups parent =
     js_sort (compareChildren groups) (filter (\<lambda>g. truthy (bg_parentId g) = Some parent) groups)"

text \<open>
  \<open>visit\<close>, over the list of folders its loop still has to visit. The visited set always holds
  the ids of the folders pushed to \<open>ordered\<close>, so \<open>ordered\<close> is the whole state.
\<close>

function visit :: "BatchConnectGroup list \<Rightarrow> bool \<Rightarrow> BatchConnectGroup list \<Rightarrow> BatchConnectGroup list
    \<Rightarrow> BatchConnectGroup list" where
  "visit groups includeDescendants [] ordered = ordered"
| "visit groups includeDescendants (g # rest) ordered =
     visit groups includeDescendants rest
       (if bg_id g \<in> bg_id ` set ordered then ordered
        else if \<not> includeDescendants then ordered @ [g]
        else visit groups includeDescendants (childrenByParent groups (bg_id g)) (ordered @ [g]))"
  by pat_completeness auto

definition pending_ids :: "BatchConnectGroup list \<Rightarrow> BatchConnectGroup list \<Rightarrow> BatchConnectGroup list \<Rightarrow> string set" where
  "pending_ids groups work ordered = bg_id ` set groups \<union> bg_id ` set work - bg_id ` set ordered"

lemma finite_pending_ids [simp]: "finite (pending_ids groups work ordered)"
  by (simp add: pending_ids_def)

lemma set_childrenByParent:
  "set (childrenByParent groups p) = {g \<in> set groups. truthy (bg_parentId g) = Some p}"
  by (auto simp: childrenByParent_def)

lemma pending_ids_visit:
  assumes "bg_id g \<notin> bg_id ` set ordered"
  shows "card (pending_ids groups (childrenByParent groups (bg_id g)) (ordered @ [g]))
    < card (pending_ids groups (g # rest) ordered)"
proof (rule psubset_card_mono)
  show "pending_ids groups (childrenByParent groups (bg_id g)) (ordered @ [g])
      \<subset> pending_ids groups (g # rest) ordered"
    using assms by (auto simp: pending_ids_def set_childrenByParent)
qed simp

lemma visit_grows:
  "visit_dom (groups, inc, work, ordered) \<Longrightarrow> set ordered \<subseteq> set (visit groups inc work ordered)"
proof (induction rule: visit.pinduct)
  case (2 groups inc g rest ordered)
  let ?next = "if bg_id g \<in> bg_id ` set ordered then ordered
    else if \<not> inc then ordered @ [g]
    else visit groups inc (childrenByParent groups (bg_id g)) (ordered @ [g])"
  have "set ordered \<subseteq> set ?next"
    using "2.IH"(1) by (auto split: if_splits)
  with "2.IH"(2) show ?case
    by (subst visit.psimps(2) [OF "2.hyps"]) blast
qed (simp add: visit.psimps)

lemma pending_ids_mono:
  assumes "set ordered \<subseteq> set ordered'"
  shows "card (pending_ids groups rest ordered') \<le> card (pending_ids groups (g # rest) ordered)"
proof (rule card_mono)
  show "pending_ids groups rest ordered' \<subseteq> pending_ids groups (g # rest) ordered"
    using image_mono [OF assms, of bg_id] by (auto simp: pending_ids_def)
qed simp

termination visit
proof (relation "measures [\<lambda>(groups, inc, work, ordered). card (pending_ids groups work ordered),
    \<lambda>(groups, inc, work, ordered). length work]", goal_cases)
  case 1
  then show ?case
    by simp
next
  case (2 groups inc g rest ordered)
  then show ?case
    by (simp add: pending_ids_visit)
next
  case (3 groups inc g rest ordered)
  let ?next = "if bg_id g \<in> bg_id ` set ordered then ordered
    else if \<not> inc then ordered @ [g]
    else visit groups inc (childrenByParent groups (bg_id g)) (ordered @ [g])"
  have "set ordered \<subseteq> set ?next"
    using 3 visit_grows [of groups inc "childrenByParent groups (bg_id g)" "ordered @ [g]"]
    by auto
  from pending_ids_mono [OF this] have
    "card (pending_ids groups rest ?next) \<le> card (pending_ids groups (g # rest) ordered)" .
  then show ?case
    by (simp add: le_less split del: if_split)
qed

definition collectGroups :: "BatchConnectGroup list \<Rightarrow> string \<Rightarrow> bool \<Rightarrow> BatchConnectGroup list" where
  "collectGroups groups rootGroupId includeDescendants =
     (case find (\<lambda>g. bg_id g = rootGroupId) groups of
        None \<Rightarrow> []
      | Some top_group \<Rightarrow> visit groups includeDescendants [top_group] [])"

definition group_by_id :: "BatchConnectGroup list \<Rightarrow> string \<Rightarrow> BatchConnectGroup option" where
  "group_by_id groups = map_of (rev (map (\<lambda>g. (bg_id g, g)) groups))"

fun join_names :: "string list \<Rightarrow> string" where
  "join_names [] = []"
| "join_names [n] = n"
| "join_names (n # ns) = n @ '' / '' @ join_names ns"

lemma group_by_id_SomeD: "group_by_id groups i = Some g \<Longrightarrow> g \<in> set groups \<and> bg_id g = i"
  unfolding group_by_id_def by (drule map_of_SomeD) auto

function climb :: "BatchConnectGroup list \<Rightarrow> string list \<Rightarrow> BatchConnectGroup option \<Rightarrow> string list
    \<Rightarrow> string list" where
  "climb groups visited None names = names"
| "climb groups visited (Some current) names =
     (if bg_id current \<in> set visited then names
      else climb groups (bg_id current # visited)
        (case truthy (bg_parentId current) of None \<Rightarrow> None | Some p \<Rightarrow> group_by_id groups p)
        (bg_name current # names))"
  by pat_completeness auto
termination climb
proof (relation "measure (\<lambda>(groups, visited, current, names).
    case current of None \<Rightarrow> 0 | Some g \<Rightarrow> Suc (card (bg_id ` set (g # groups) - set visited)))", goal_cases)
  case (2 groups visited current names)
  have "card (bg_id ` set (g # groups) - set (bg_id current # visited))
      < card (bg_id ` set (current # groups) - set visited)"
    if "group_by_id groups p = Some g" for p g
    by (rule psubset_card_mono) (use 2 group_by_id_SomeD [OF that] in auto)
  then show ?case
    by (auto split: option.splits)
qed simp

definition resolveGroupPath :: "BatchConnectGroup list \<Rightarrow> string \<Rightarrow> string" where
  "resolveGroupPath groups groupId = join_names (climb groups [] (group_by_id groups groupId) [])"

section \<open>The preview\<close>

definition requiresInteractiveCredential :: "BatchConnectProfile \<Rightarrow> bool" where
  "requiresInteractiveCredential c =
     (case bp_protocol c of
        Some ProtoRdp \<Rightarrow> (case bp_rdp c of
            None \<Rightarrow> False
          | Some rdp \<Rightarrow> rdp_security_mode rdp = CredPrompt \<or> rdp_gateway_source rdp = Some CredPrompt)
      | Some ProtoVnc \<Rightarrow> bp_vnc_mode c = Some CredPrompt
      | _ \<Rightarrow> bp_credential_mode c = CredPrompt)"

definition batch_candidate ::
  "BatchConnectGroup list \<Rightarrow> string list \<Rightarrow> BatchConnectGroup \<Rightarrow> BatchConnectProfile \<Rightarrow> BatchConnectCandidate" where
  "batch_candidate groups openIds g c =
     \<lparr>bc_alreadyOpen = (bp_id c \<in> set openIds),
      bc_connectionId = bp_id c,
      bc_groupId = bg_id g,
      bc_groupPath = (let path = resolveGroupPath groups (bg_id g) in if path = [] then bg_name g else path),
      bc_name = bp_name c,
      bc_protocol = (case bp_protocol c of None \<Rightarrow> ProtoSsh | Some p \<Rightarrow> p),
      bc_requiresInteraction = requiresInteractiveCredential c\<rparr>"

definition buildBatchConnectPreviewPlan ::
  "BatchConnectProfile list \<Rightarrow> BatchConnectGroup list \<Rightarrow> bool \<Rightarrow> string list \<Rightarrow> string \<Rightarrow> int
    \<Rightarrow> BatchConnectPreviewPlan" where
  "buildBatchConnectPreviewPlan connections groups includeDescendants openConnectionIds rootGroupId selectionLimit =
     (let orderedGroups = collectGroups groups rootGroupId includeDescendants;
          candidates = concat (map (\<lambda>g. map (batch_candidate groups openConnectionIds g)
            (filter (\<lambda>c. bp_group_id c = Some (bg_id g)) connections)) orderedGroups);
          eligible = filter (\<lambda>c. \<not> bc_alreadyOpen c) candidates;
          normalizedLimit = max 0 selectionLimit
      in \<lparr>bpp_candidates = candidates,
          bpp_eligibleCount = length eligible,
          bpp_selectedConnectionIds = map bc_connectionId (take (nat normalizedLimit) eligible),
          bpp_selectionLimitReached = (int (length eligible) > normalizedLimit)\<rparr>)"

section \<open>The run\<close>

datatype BatchConnectItemStatus =
  BcQueued | BcConnecting | BcWaitingUser | BcSuccess | BcFailed | BcCancelled

record BatchConnectRunItem =
  bri_connectionId :: string
  bri_error :: "string option"
  bri_status :: BatchConnectItemStatus

record BatchConnectRun =
  run_cancelRequested :: bool
  run_items :: "BatchConnectRunItem list"

record BatchConnectCancelPlan =
  bcp_activeConnectionIds :: "string list"
  bcp_run :: BatchConnectRun

definition isActiveStatus :: "BatchConnectItemStatus \<Rightarrow> bool" where
  "isActiveStatus s \<longleftrightarrow> s = BcConnecting \<or> s = BcWaitingUser"

definition createBatchConnectRun :: "string list \<Rightarrow> BatchConnectRun" where
  "createBatchConnectRun connectionIds =
     \<lparr>run_cancelRequested = False,
      run_items = map (\<lambda>i. \<lparr>bri_connectionId = i, bri_error = None, bri_status = BcQueued\<rparr>)
        (dedupe connectionIds)\<rparr>"

definition batchConnectActiveCount :: "BatchConnectRun \<Rightarrow> nat" where
  "batchConnectActiveCount run = length (filter (\<lambda>item. isActiveStatus (bri_status item)) (run_items run))"

definition nextBatchConnectConnectionIds :: "BatchConnectRun \<Rightarrow> int \<Rightarrow> string list" where
  "nextBatchConnectConnectionIds run concurrencyLimit =
     (if run_cancelRequested run then []
      else let availableSlots = max 0 (concurrencyLimit - int (batchConnectActiveCount run)) in
        if availableSlots = 0 then []
        else map bri_connectionId (take (nat availableSlots)
          (filter (\<lambda>item. bri_status item = BcQueued) (run_items run))))"

definition updateItem ::
  "string \<Rightarrow> BatchConnectItemStatus \<Rightarrow> string option \<Rightarrow> BatchConnectRunItem \<Rightarrow> BatchConnectRunItem" where
  "updateItem connectionId status error item =
     (if bri_connectionId item \<noteq> connectionId then item
      else item\<lparr>bri_error := (if status = BcFailed then error else None), bri_status := status\<rparr>)"

definition updateBatchConnectItem ::
  "BatchConnectRun \<Rightarrow> string \<Rightarrow> BatchConnectItemStatus \<Rightarrow> string option \<Rightarrow> BatchConnectRun" where
  "updateBatchConnectItem run connectionId status error =
     run\<lparr>run_items := map (updateItem connectionId status error) (run_items run)\<rparr>"

definition requestBatchConnectCancel :: "BatchConnectRun \<Rightarrow> BatchConnectCancelPlan" where
  "requestBatchConnectCancel run =
     \<lparr>bcp_activeConnectionIds = map bri_connectionId
        (filter (\<lambda>item. isActiveStatus (bri_status item)) (run_items run)),
      bcp_run = \<lparr>run_cancelRequested = True,
        run_items = map (\<lambda>item. if bri_status item = BcQueued then item\<lparr>bri_status := BcCancelled\<rparr> else item)
          (run_items run)\<rparr>\<rparr>"

definition retryItem :: "BatchConnectRunItem \<Rightarrow> BatchConnectRunItem" where
  "retryItem item =
     (if bri_status item \<noteq> BcFailed then item else item\<lparr>bri_error := None, bri_status := BcQueued\<rparr>)"

definition retryFailedBatchConnectItems :: "BatchConnectRun \<Rightarrow> BatchConnectRun" where
  "retryFailedBatchConnectItems run =
     (let changed = (run_cancelRequested run \<or> (\<exists>item \<in> set (run_items run). bri_status item = BcFailed)) in
      if changed then \<lparr>run_cancelRequested = False, run_items = map retryItem (run_items run)\<rparr> else run)"

definition batchConnectSummary :: "BatchConnectRun \<Rightarrow> BatchConnectItemStatus \<Rightarrow> nat" where
  "batchConnectSummary run =
     fold (\<lambda>item counts. counts(bri_status item := counts (bri_status item) + 1)) (run_items run) (\<lambda>_. 0)"

section \<open>The walk finds the subtree\<close>

definition child_of :: "BatchConnectGroup list \<Rightarrow> BatchConnectGroup \<Rightarrow> BatchConnectGroup \<Rightarrow> bool" where
  "child_of groups p c \<longleftrightarrow> c \<in> set groups \<and> truthy (bg_parentId c) = Some (bg_id p)"

lemma child_of_iff: "child_of groups p c \<longleftrightarrow> c \<in> set (childrenByParent groups (bg_id p))"
  by (auto simp: child_of_def set_childrenByParent)

lemma visit_superset: "set ordered \<subseteq> set (visit groups inc work ordered)"
proof (induction groups inc work ordered rule: visit.induct)
  case (2 groups inc g rest ordered)
  let ?next = "if bg_id g \<in> bg_id ` set ordered then ordered
    else if \<not> inc then ordered @ [g]
    else visit groups inc (childrenByParent groups (bg_id g)) (ordered @ [g])"
  have "set ordered \<subseteq> set ?next"
    using "2.IH"(1) by auto
  with "2.IH"(2) show ?case
    by simp
qed simp

lemma visit_distinct:
  "distinct (map bg_id ordered) \<Longrightarrow> distinct (map bg_id (visit groups inc work ordered))"
  by (induction groups inc work ordered rule: visit.induct) auto

lemma visit_covers: "bg_id ` set work \<subseteq> bg_id ` set (visit groups inc work ordered)"
proof (induction groups inc work ordered rule: visit.induct)
  case (2 groups inc g rest ordered)
  let ?next = "if bg_id g \<in> bg_id ` set ordered then ordered
    else if \<not> inc then ordered @ [g]
    else visit groups inc (childrenByParent groups (bg_id g)) (ordered @ [g])"
  have "bg_id g \<in> bg_id ` set ?next"
    using visit_superset [of "ordered @ [g]" groups inc "childrenByParent groups (bg_id g)"] by auto
  then have "bg_id g \<in> bg_id ` set (visit groups inc rest ?next)"
    using visit_superset [of ?next groups inc rest] by blast
  with "2.IH"(2) show ?case
    by simp
qed simp

lemma visit_sound:
  "x \<in> set (visit groups inc work ordered) \<Longrightarrow>
    x \<in> set ordered \<or> (\<exists>w \<in> set work. if inc then (child_of groups)\<^sup>*\<^sup>* w x else x = w)"
proof (induction groups inc work ordered rule: visit.induct)
  case (2 groups inc g rest ordered)
  let ?next = "if bg_id g \<in> bg_id ` set ordered then ordered
    else if \<not> inc then ordered @ [g]
    else visit groups inc (childrenByParent groups (bg_id g)) (ordered @ [g])"
  have step: "x \<in> set ordered \<or> (if inc then (child_of groups)\<^sup>*\<^sup>* g x else x = g)" if "x \<in> set ?next"
  proof (cases "bg_id g \<in> bg_id ` set ordered \<or> \<not> inc")
    case True
    with that show ?thesis
      by (auto split: if_splits)
  next
    case False
    with that have "x \<in> set (visit groups inc (childrenByParent groups (bg_id g)) (ordered @ [g]))"
      by simp
    from "2.IH"(1) [OF _ _ this] False show ?thesis
      by (auto simp: child_of_iff [symmetric] intro: converse_rtranclp_into_rtranclp)
  qed
  from "2.prems" have "x \<in> set (visit groups inc rest ?next)"
    by simp
  from "2.IH"(2) [OF this] step show ?case
    by auto
qed simp

lemma visit_closed:
  "x \<in> set (visit groups True work ordered) \<Longrightarrow> x \<notin> set ordered \<Longrightarrow> child_of groups x c \<Longrightarrow>
    bg_id c \<in> bg_id ` set (visit groups True work ordered)"
proof (induction groups True work ordered rule: visit.induct)
  case (2 groups g rest ordered)
  let ?inner = "visit groups True (childrenByParent groups (bg_id g)) (ordered @ [g])"
  let ?next = "if bg_id g \<in> bg_id ` set ordered then ordered else if \<not> True then ordered @ [g] else ?inner"
  have eq: "visit groups True (g # rest) ordered = visit groups True rest ?next"
    by simp
  show ?case
  proof (cases "x \<in> set ?next")
    case False
    with 2 show ?thesis
      unfolding eq by blast
  next
    case True
    with "2.prems"(2) have new: "bg_id g \<notin> bg_id ` set ordered" and inner: "x \<in> set ?inner"
      by (auto split: if_splits)
    have "bg_id c \<in> bg_id ` set ?inner"
    proof (cases "x = g")
      case True
      with "2.prems"(3) have "bg_id c \<in> bg_id ` set (childrenByParent groups (bg_id g))"
        by (auto simp: child_of_iff)
      then show ?thesis
        using visit_covers [of "childrenByParent groups (bg_id g)" groups True "ordered @ [g]"] by blast
    next
      case False
      with "2.hyps"(1) [OF new _ inner] "2.prems" show ?thesis
        by auto
    qed
    then have "bg_id c \<in> bg_id ` set ?next"
      using new by simp
    then show ?thesis
      unfolding eq using visit_superset [of ?next groups True rest] by blast
  qed
qed simp

text \<open>The folders a batch covers: the chosen one, and its descendants when asked for.\<close>

definition in_scope :: "BatchConnectGroup list \<Rightarrow> string \<Rightarrow> bool \<Rightarrow> BatchConnectGroup \<Rightarrow> bool" where
  "in_scope groups rootGroupId inc g \<longleftrightarrow>
     (\<exists>r \<in> set groups. bg_id r = rootGroupId \<and> (if inc then (child_of groups)\<^sup>*\<^sup>* r g else g = r))"

lemma visit_complete:
  assumes ids: "distinct (map bg_id groups)" and "(child_of groups)\<^sup>*\<^sup>* r g" and r: "r \<in> set groups"
  shows "g \<in> set (visit groups True [r] [])"
  using assms(2)
proof (induction rule: rtranclp_induct)
  case base
  have "bg_id r \<in> bg_id ` set (visit groups True [r] [])"
    using visit_covers [of "[r]" groups True "[]"] by simp
  then obtain x where x: "x \<in> set (visit groups True [r] [])" "bg_id x = bg_id r"
    by (metis imageE)
  then have "x \<in> set groups"
    using visit_sound [OF x(1)] r by (auto elim: rtranclp.cases simp: child_of_def)
  with x r ids show ?case
    by (metis distinct_map inj_onD)
next
  case (step y z)
  have "bg_id z \<in> bg_id ` set (visit groups True [r] [])"
    using visit_closed [OF step.IH _ step.hyps(2)] by simp
  then obtain x where x: "x \<in> set (visit groups True [r] [])" "bg_id x = bg_id z"
    by (metis imageE)
  have "x \<in> set groups"
    using visit_sound [OF x(1)] r by (auto elim: rtranclp.cases simp: child_of_def)
  moreover have "z \<in> set groups"
    using step.hyps(2) by (simp add: child_of_def)
  ultimately show ?case
    using x ids by (metis distinct_map inj_onD)
qed

lemma collectGroups_exact:
  assumes ids: "distinct (map bg_id groups)"
  shows "set (collectGroups groups rootGroupId inc) = {g. in_scope groups rootGroupId inc g}"
proof (cases "find (\<lambda>g. bg_id g = rootGroupId) groups")
  case None
  then have "\<not> in_scope groups rootGroupId inc g" for g
    unfolding find_eq_None by (auto simp: in_scope_def)
  with None show ?thesis
    by (simp add: collectGroups_def)
next
  case (Some r)
  then have r: "r \<in> set groups" "bg_id r = rootGroupId"
    using find_SomeD by fastforce+
  have scope: "in_scope groups rootGroupId inc g \<longleftrightarrow> (if inc then (child_of groups)\<^sup>*\<^sup>* r g else g = r)" for g
    using r ids by (metis in_scope_def distinct_map inj_onD)
  have "g \<in> set (visit groups inc [r] []) \<longleftrightarrow> in_scope groups rootGroupId inc g" for g
    unfolding scope using visit_sound [of g groups inc "[r]" "[]"] visit_complete [OF ids _ r(1), of g]
    by (cases inc) auto
  then show ?thesis
    by (simp add: collectGroups_def Some set_eq_iff del: visit.simps)
qed

lemma collectGroups_distinct: "distinct (map bg_id (collectGroups groups rootGroupId inc))"
  by (simp add: collectGroups_def visit_distinct split: option.splits)

section \<open>What the preview offers\<close>

lemma batch_candidate_simps [simp]:
  "bc_connectionId (batch_candidate groups openIds g c) = bp_id c"
  "bc_alreadyOpen (batch_candidate groups openIds g c) \<longleftrightarrow> bp_id c \<in> set openIds"
  by (simp_all add: batch_candidate_def)

lemma distinct_candidate_ids:
  "distinct (map bg_id gs) \<Longrightarrow> distinct (map bp_id connections) \<Longrightarrow>
    distinct (concat (map (\<lambda>g. map bp_id (filter (\<lambda>c. bp_group_id c = Some (bg_id g)) connections)) gs))"
proof (induction gs)
  case (Cons g gs)
  let ?own = "filter (\<lambda>c. bp_group_id c = Some (bg_id g)) connections"
  have "c = d" if "c \<in> set connections" "d \<in> set connections" "bp_id c = bp_id d" for c d
    using that Cons.prems(2) by (metis distinct_map inj_onD)
  then have "set (map bp_id ?own) \<inter>
      set (concat (map (\<lambda>g. map bp_id (filter (\<lambda>c. bp_group_id c = Some (bg_id g)) connections)) gs)) = {}"
    using Cons.prems(1) by (fastforce simp: image_iff)
  then show ?case
    using Cons by (simp add: distinct_map_filter)
qed simp

lemma preview_candidate_ids:
  "map bc_connectionId (bpp_candidates (buildBatchConnectPreviewPlan connections groups inc openIds top_id limit)) =
    concat (map (\<lambda>g. map bp_id (filter (\<lambda>c. bp_group_id c = Some (bg_id g)) connections))
      (collectGroups groups top_id inc))"
  by (simp add: buildBatchConnectPreviewPlan_def Let_def map_concat comp_def)

lemma preview_eligible:
  fixes connections groups inc openIds top_id limit
  defines "plan \<equiv> buildBatchConnectPreviewPlan connections groups inc openIds top_id limit"
  shows "filter (\<lambda>i. i \<notin> set openIds) (map bc_connectionId (bpp_candidates plan)) =
    map bc_connectionId (filter (\<lambda>c. \<not> bc_alreadyOpen c) (bpp_candidates plan))"
proof -
  have "bc_alreadyOpen c \<longleftrightarrow> bc_connectionId c \<in> set openIds" if "c \<in> set (bpp_candidates plan)" for c
    using that by (auto simp: plan_def buildBatchConnectPreviewPlan_def Let_def)
  then show ?thesis
    by (simp add: filter_map comp_def cong: filter_cong)
qed

lemma preview_selected:
  fixes connections groups inc openIds top_id limit
  defines "plan \<equiv> buildBatchConnectPreviewPlan connections groups inc openIds top_id limit"
  shows "bpp_selectedConnectionIds plan =
    take (nat limit) (filter (\<lambda>i. i \<notin> set openIds) (map bc_connectionId (bpp_candidates plan)))"
proof -
  have "nat (max 0 limit) = nat limit"
    by simp
  then show ?thesis
    unfolding plan_def preview_eligible
    by (simp add: buildBatchConnectPreviewPlan_def Let_def take_map)
qed

text \<open>
  C10. On every table of folders with unique ids, cyclic ones included, the preview of a batch
  offers each connection of the chosen folder (and, when asked, of its descendants) exactly
  once and no other connection. The preselected connections are the first ones offered that
  are not open already, at most \<open>selectionLimit\<close> of them, and the flag that the limit was
  reached is set exactly when an eligible connection was left out.
\<close>

theorem batch_preview_exact:
  assumes "distinct (map bg_id groups)" and "distinct (map bp_id connections)"
    and plan_def: "plan = buildBatchConnectPreviewPlan connections groups inc openIds top_id limit"
    and ids_def: "ids = map bc_connectionId (bpp_candidates plan)"
  shows "distinct ids \<and>
    set ids = {bp_id c | c g. c \<in> set connections \<and> in_scope groups top_id inc g \<and> bp_group_id c = Some (bg_id g)} \<and>
    bpp_selectedConnectionIds plan = take (nat limit) (filter (\<lambda>i. i \<notin> set openIds) ids) \<and>
    (bpp_selectionLimitReached plan \<longleftrightarrow>
      length (bpp_selectedConnectionIds plan) < length (filter (\<lambda>i. i \<notin> set openIds) ids))"
proof (intro conjI)
  show "distinct ids"
    unfolding ids_def plan_def preview_candidate_ids
    using assms(2) by (simp add: distinct_candidate_ids collectGroups_distinct)
  show "set ids = {bp_id c | c g. c \<in> set connections \<and> in_scope groups top_id inc g \<and> bp_group_id c = Some (bg_id g)}"
    unfolding ids_def plan_def preview_candidate_ids
    using collectGroups_exact [OF assms(1), of top_id inc] by auto
  show selected: "bpp_selectedConnectionIds plan = take (nat limit) (filter (\<lambda>i. i \<notin> set openIds) ids)"
    unfolding ids_def plan_def by (rule preview_selected)
  have "bpp_selectionLimitReached plan \<longleftrightarrow> int (length (filter (\<lambda>c. \<not> bc_alreadyOpen c) (bpp_candidates plan))) > max 0 limit"
    by (simp add: plan_def buildBatchConnectPreviewPlan_def Let_def)
  also have "length (filter (\<lambda>c. \<not> bc_alreadyOpen c) (bpp_candidates plan)) = length (filter (\<lambda>i. i \<notin> set openIds) ids)"
    unfolding ids_def plan_def preview_eligible by simp
  finally show "bpp_selectionLimitReached plan \<longleftrightarrow>
      length (bpp_selectedConnectionIds plan) < length (filter (\<lambda>i. i \<notin> set openIds) ids)"
    unfolding selected by (simp add: max_def) linarith
qed

text \<open>Three folders, the first and the last each other's parents, and a connection in each.\<close>

definition sample_groups :: "BatchConnectGroup list" where
  "sample_groups =
     [\<lparr>bg_id = ''a'', bg_name = ''A'', bg_parentId = Some ''c'', bg_sortOrder = 0\<rparr>,
      \<lparr>bg_id = ''b'', bg_name = ''B'', bg_parentId = None, bg_sortOrder = 1\<rparr>,
      \<lparr>bg_id = ''c'', bg_name = ''C'', bg_parentId = Some ''a'', bg_sortOrder = 0\<rparr>]"

definition sample_profile :: "string \<Rightarrow> string \<Rightarrow> BatchConnectProfile" where
  "sample_profile i g = \<lparr>bp_id = i, bp_name = i, bp_group_id = Some g, bp_protocol = None,
     bp_credential_mode = CredSaved, bp_rdp = None, bp_vnc_mode = None\<rparr>"

definition sample_connections :: "BatchConnectProfile list" where
  "sample_connections = [sample_profile ''1'' ''a'', sample_profile ''2'' ''b'',
     sample_profile ''3'' ''c'', sample_profile ''4'' ''c'']"

theorem batch_preview_exact_witness:
  "bpp_selectedConnectionIds (buildBatchConnectPreviewPlan sample_connections sample_groups True [''1''] ''a'' 1) = [''3''] \<and>
   bpp_selectionLimitReached (buildBatchConnectPreviewPlan sample_connections sample_groups True [''1''] ''a'' 1)"
proof -
  let ?plan = "buildBatchConnectPreviewPlan sample_connections sample_groups True [''1''] ''a'' 1"
  have "distinct (map bg_id sample_groups)" "distinct (map bp_id sample_connections)"
    by (simp_all add: sample_groups_def sample_connections_def sample_profile_def)
  from batch_preview_exact [OF this refl refl, of True "[''1'']" "''a''" 1]
  have "bpp_selectedConnectionIds ?plan = take 1 (filter (\<lambda>i. i \<notin> set [''1'']) (map bc_connectionId (bpp_candidates ?plan)))"
    and "bpp_selectionLimitReached ?plan \<longleftrightarrow> length (bpp_selectedConnectionIds ?plan) <
      length (filter (\<lambda>i. i \<notin> set [''1'']) (map bc_connectionId (bpp_candidates ?plan)))"
    by simp_all
  moreover have "map bc_connectionId (bpp_candidates ?plan) = [''1'', ''3'', ''4'']"
    unfolding preview_candidate_ids by code_simp
  ultimately show ?thesis
    by simp
qed

section \<open>The run keeps to its limit\<close>

lemma run_items_update [simp]:
  "run_items (updateBatchConnectItem run i st err) = map (updateItem i st err) (run_items run)"
  by (simp add: updateBatchConnectItem_def)

lemma bri_connectionId_updateItem [simp]: "bri_connectionId (updateItem i st err item) = bri_connectionId item"
  by (simp add: updateItem_def)

definition start_items :: "BatchConnectRun \<Rightarrow> string list \<Rightarrow> BatchConnectRun" where
  "start_items run ids = foldl (\<lambda>r i. updateBatchConnectItem r i BcConnecting None) run ids"

lemma run_items_start_items:
  "run_items (start_items run ids) =
    map (\<lambda>item. if bri_connectionId item \<in> set ids
      then item\<lparr>bri_error := None, bri_status := BcConnecting\<rparr> else item) (run_items run)"
proof (induction ids arbitrary: run)
  case (Cons i ids)
  show ?case
    using Cons.IH [of "updateBatchConnectItem run i BcConnecting None"]
    by (auto simp: start_items_def updateItem_def)
qed (simp add: start_items_def)

lemma length_filter_active_start:
  assumes "distinct (map bri_connectionId items)"
    and "set picked \<subseteq> set (filter (\<lambda>item. bri_status item = BcQueued) items)" and "distinct picked"
  shows "length (filter (\<lambda>item. isActiveStatus (bri_status item))
      (map (\<lambda>item. if bri_connectionId item \<in> bri_connectionId ` set picked
        then item\<lparr>bri_error := None, bri_status := BcConnecting\<rparr> else item) items)) =
    length (filter (\<lambda>item. isActiveStatus (bri_status item)) items) + length picked"
proof -
  have inj: "inj_on bri_connectionId (set items)" and items: "distinct items"
    using assms(1) by (auto simp: distinct_map)
  have mem: "bri_connectionId item \<in> bri_connectionId ` set picked \<longleftrightarrow> item \<in> set picked" if "item \<in> set items" for item
    using assms(2) inj that by (auto dest: inj_onD)
  let ?active = "\<lambda>item. isActiveStatus (bri_status item)"
  have "length (filter ?active (map (\<lambda>item. if bri_connectionId item \<in> bri_connectionId ` set picked
        then item\<lparr>bri_error := None, bri_status := BcConnecting\<rparr> else item) items)) =
      length (filter (\<lambda>item. ?active item \<or> item \<in> set picked) items)"
    using mem by (auto simp: filter_map comp_def isActiveStatus_def intro!: arg_cong [where f = length] filter_cong)
  also have "\<dots> = card ({item \<in> set items. ?active item} \<union> set picked)"
    using assms(2) items by (subst distinct_card [symmetric]) (auto intro!: arg_cong [where f = card])
  also have "\<dots> = card {item \<in> set items. ?active item} + card (set picked)"
    using assms(2) by (intro card_Un_disjoint) (auto simp: isActiveStatus_def)
  also have "card {item \<in> set items. ?active item} = length (filter ?active items)"
    using items by (metis distinct_card distinct_filter set_filter)
  finally show ?thesis
    using assms(3) by (simp add: distinct_card)
qed

text \<open>
  The scheduler of a run respects its limit and leaves no slot idle: starting the
  connections \<open>nextBatchConnectConnectionIds\<close> hands out raises the number of active items by
  exactly their number, never above the limit (unless it was above it before), and when a
  slot is free and an item is queued at least one connection is handed out.
\<close>

theorem batch_run_respects_limit:
  assumes "distinct (map bri_connectionId (run_items run))"
  shows "int (batchConnectActiveCount (start_items run (nextBatchConnectConnectionIds run limit)))
      \<le> max limit (int (batchConnectActiveCount run)) \<and>
    batchConnectActiveCount (start_items run (nextBatchConnectConnectionIds run limit)) =
      batchConnectActiveCount run + length (nextBatchConnectConnectionIds run limit) \<and>
    (nextBatchConnectConnectionIds run limit = [] \<longleftrightarrow>
      run_cancelRequested run \<or> limit \<le> int (batchConnectActiveCount run) \<or>
      BcQueued \<notin> bri_status ` set (run_items run))"
proof -
  define slots where "slots = (if run_cancelRequested run then 0 else nat (limit - int (batchConnectActiveCount run)))"
  define picked where "picked = take slots (filter (\<lambda>item. bri_status item = BcQueued) (run_items run))"
  have ids: "nextBatchConnectConnectionIds run limit = map bri_connectionId picked"
    by (auto simp: nextBatchConnectConnectionIds_def picked_def slots_def Let_def max_def)
  have picked: "set picked \<subseteq> set (filter (\<lambda>item. bri_status item = BcQueued) (run_items run))" "distinct picked"
    using assms by (auto simp: picked_def distinct_map dest: in_set_takeD)
  have count: "batchConnectActiveCount (start_items run (map bri_connectionId picked)) =
      batchConnectActiveCount run + length picked"
    using length_filter_active_start [OF assms picked]
    by (simp add: batchConnectActiveCount_def run_items_start_items)
  have "length picked \<le> slots"
    by (simp add: picked_def)
  moreover have "picked = [] \<longleftrightarrow> slots = 0 \<or> BcQueued \<notin> bri_status ` set (run_items run)"
    by (auto simp: picked_def filter_empty_conv image_iff)
  ultimately show ?thesis
    unfolding ids count by (auto simp: slots_def split: if_splits)
qed

theorem batch_run_respects_limit_witness:
  "nextBatchConnectConnectionIds (createBatchConnectRun [''a'', ''b'', ''c'', ''a'']) 2 \<noteq> [] \<and>
   batchConnectActiveCount (start_items (createBatchConnectRun [''a'', ''b'', ''c'', ''a''])
     (nextBatchConnectConnectionIds (createBatchConnectRun [''a'', ''b'', ''c'', ''a'']) 2)) \<le> 2"
proof -
  let ?run = "createBatchConnectRun [''a'', ''b'', ''c'', ''a'']"
  have "distinct (map bri_connectionId (run_items ?run))"
    by (simp add: createBatchConnectRun_def comp_def)
  from batch_run_respects_limit [OF this, of 2] show ?thesis
    by (simp add: batchConnectActiveCount_def createBatchConnectRun_def isActiveStatus_def dedupe_def)
qed

end
