(* ===== verification/Batch_Executor.thy ===== *)
theory Batch_Executor
  imports Batch_Model
begin

text \<open>
  The executor of a batch (\<open>features/connections/batchConnectExecutor.ts\<close>): a bounded
  number of asynchronous workers that take connections from a shared queue, and the
  cancellation that interferes with them.

  JavaScript runs the code between two \<open>await\<close>s without interruption, so a worker is the
  \<open>await\<close> it is suspended at and a step of the system is one promise settling (or a call of
  \<open>cancelRemaining\<close>), together with everything the code then does up to the next \<open>await\<close>.
  The adapter (\<open>start\<close>, \<open>wait\<close>, \<open>cancel\<close>) is the environment: which of its promises settles
  next, and how, is the choice of the step relation. Handles are a type parameter.
\<close>

section \<open>State\<close>

record BatchConnectExecutionResult =
  res_connectionId :: string
  res_error :: "string option"
  res_status :: BatchConnectItemStatus

text \<open>
  A worker awaits \<open>adapter.start\<close>, \<open>adapter.cancel\<close> of a handle that arrived after the
  cancellation, or \<open>adapter.wait\<close>; or it has returned, or thrown.
\<close>

datatype 'h batch_worker =
    AwaitStart string
  | AwaitCancel string 'h
  | AwaitOutcome string 'h
  | Returned
  | Threw

type_synonym item_event = "string \<times> BatchConnectItemStatus \<times> string option"

record 'h batch_execution =
  bx_queue :: "string list"
  bx_active :: "(string \<times> 'h) list"
  bx_results :: "string \<rightharpoonup> BatchConnectExecutionResult"
  bx_started :: "string list"
  bx_cancelRequested :: bool
  bx_nextIndex :: nat
  bx_workers :: "'h batch_worker list"
  bx_events :: "item_event list"
  bx_cancelCalls :: "'h list"

definition uniqueConnectionIds :: "string list \<Rightarrow> string list" where
  "uniqueConnectionIds connectionIds = dedupe connectionIds"

section \<open>Pieces of the worker\<close>

definition onItemStatus ::
  "string \<Rightarrow> BatchConnectItemStatus \<Rightarrow> string option \<Rightarrow> 'h batch_execution \<Rightarrow> 'h batch_execution" where
  "onItemStatus i status error st = st\<lparr>bx_events := bx_events st @ [(i, status, error)]\<rparr>"

definition settle_item ::
  "string \<Rightarrow> BatchConnectItemStatus \<Rightarrow> string option \<Rightarrow> 'h batch_execution \<Rightarrow> 'h batch_execution" where
  "settle_item i status error st =
     onItemStatus i status error (st\<lparr>bx_results := (bx_results st)(i \<mapsto>
       \<lparr>res_connectionId = i, res_error = error, res_status = status\<rparr>)\<rparr>)"

text \<open>\<open>if (!results.has(connectionId))\<close> record and report the cancellation.\<close>

definition cancel_item :: "string \<Rightarrow> 'h batch_execution \<Rightarrow> 'h batch_execution" where
  "cancel_item i st = (if bx_results st i \<noteq> None then st else settle_item i BcCancelled None st)"

definition drop_active :: "string \<Rightarrow> 'h batch_execution \<Rightarrow> 'h batch_execution" where
  "drop_active i st = st\<lparr>bx_active := filter (\<lambda>(k, h). k \<noteq> i) (bx_active st)\<rparr>"

text \<open>The head of the worker's loop, up to \<open>await adapter.start(connectionId)\<close> or the return.\<close>

function take_next :: "'h batch_execution \<Rightarrow> 'h batch_execution \<times> 'h batch_worker" where
  "take_next st =
     (if bx_cancelRequested st then (st, Returned)
      else let index = bx_nextIndex st; st = st\<lparr>bx_nextIndex := index + 1\<rparr> in
        if length (bx_queue st) \<le> index then (st, Returned)
        else let connectionId = bx_queue st ! index in
          if bx_results st connectionId \<noteq> None then take_next st
          else (onItemStatus connectionId BcConnecting None
                  (st\<lparr>bx_started := connectionId # bx_started st\<rparr>), AwaitStart connectionId))"
  by pat_completeness auto
termination take_next
  by (relation "measure (\<lambda>st. length (bx_queue st) - bx_nextIndex st)") auto

declare take_next.simps [simp del]

definition set_worker :: "nat \<Rightarrow> 'h batch_execution \<times> 'h batch_worker \<Rightarrow> 'h batch_execution" where
  "set_worker w r = (fst r)\<lparr>bx_workers := (bx_workers (fst r))[w := snd r]\<rparr>"

definition continue_worker :: "nat \<Rightarrow> 'h batch_execution \<Rightarrow> 'h batch_execution" where
  "continue_worker w st = set_worker w (take_next st)"

section \<open>What the code does when a promise settles\<close>

definition start_resolved :: "nat \<Rightarrow> string \<Rightarrow> 'h \<Rightarrow> 'h batch_execution \<Rightarrow> 'h batch_execution" where
  "start_resolved w connectionId handle st =
     (let st = st\<lparr>bx_active := map_set connectionId handle (bx_active st)\<rparr> in
      if bx_cancelRequested st
      then set_worker w (st\<lparr>bx_cancelCalls := bx_cancelCalls st @ [handle]\<rparr>, AwaitCancel connectionId handle)
      else set_worker w (st, AwaitOutcome connectionId handle))"

definition start_rejected :: "nat \<Rightarrow> string \<Rightarrow> string \<Rightarrow> 'h batch_execution \<Rightarrow> 'h batch_execution" where
  "start_rejected w connectionId message st =
     continue_worker w (settle_item connectionId BcFailed (Some message) st)"

definition cancel_resolved :: "nat \<Rightarrow> string \<Rightarrow> 'h batch_execution \<Rightarrow> 'h batch_execution" where
  "cancel_resolved w connectionId st = continue_worker w (cancel_item connectionId (drop_active connectionId st))"

text \<open>The \<open>finally\<close> block runs and the rejection leaves the worker.\<close>

definition cancel_rejected :: "nat \<Rightarrow> string \<Rightarrow> 'h batch_execution \<Rightarrow> 'h batch_execution" where
  "cancel_rejected w connectionId st =
     set_worker w (cancel_item connectionId (drop_active connectionId st), Threw)"

definition reportStatus :: "string \<Rightarrow> BatchConnectItemStatus \<Rightarrow> 'h batch_execution \<Rightarrow> 'h batch_execution" where
  "reportStatus connectionId status st =
     (if \<not> bx_cancelRequested st \<and> bx_results st connectionId = None
      then onItemStatus connectionId status None st else st)"

definition already_cancelled :: "string \<Rightarrow> 'h batch_execution \<Rightarrow> bool" where
  "already_cancelled connectionId st \<longleftrightarrow>
     bx_cancelRequested st \<and> map_option res_status (bx_results st connectionId) = Some BcCancelled"

definition wait_resolved :: "nat \<Rightarrow> string \<Rightarrow> bool \<Rightarrow> string option \<Rightarrow> 'h batch_execution \<Rightarrow> 'h batch_execution" where
  "wait_resolved w connectionId success error st =
     continue_worker w (drop_active connectionId
       (if already_cancelled connectionId st then st
        else if success then settle_item connectionId BcSuccess None st
        else settle_item connectionId BcFailed
          (Some (case truthy error of None \<Rightarrow> ''Connection failed.'' | Some e \<Rightarrow> e)) st))"

definition wait_rejected :: "nat \<Rightarrow> string \<Rightarrow> string \<Rightarrow> 'h batch_execution \<Rightarrow> 'h batch_execution" where
  "wait_rejected w connectionId message st =
     continue_worker w (drop_active connectionId
       (if already_cancelled connectionId st then st
        else settle_item connectionId BcFailed (Some message) st))"

definition cancel_queued :: "'h batch_execution \<Rightarrow> 'h batch_execution" where
  "cancel_queued st =
     fold (\<lambda>i s. if i \<in> set (bx_started s) \<or> bx_results s i \<noteq> None then s else settle_item i BcCancelled None s)
       (drop (bx_nextIndex st) (bx_queue st)) st"

definition cancel_active :: "'h batch_execution \<Rightarrow> 'h batch_execution" where
  "cancel_active st =
     fold (\<lambda>(i, h) s. (cancel_item i s)\<lparr>bx_cancelCalls := bx_cancelCalls s @ [h]\<rparr>) (bx_active st) st"

definition cancelRemaining :: "'h batch_execution \<Rightarrow> 'h batch_execution" where
  "cancelRemaining st =
     (if bx_cancelRequested st then st
      else cancel_active (cancel_queued (st\<lparr>bx_cancelRequested := True\<rparr>)))"

section \<open>Creation and outcome\<close>

definition workerCount :: "nat \<Rightarrow> int \<Rightarrow> nat" where
  "workerCount queued concurrencyLimit = min queued (nat (max 1 concurrencyLimit))"

text \<open>\<open>worker()\<close>: a new worker runs up to its first \<open>await\<close>.\<close>

definition spawn_worker :: "'h batch_execution \<Rightarrow> 'h batch_execution" where
  "spawn_worker st = (let r = take_next st in (fst r)\<lparr>bx_workers := bx_workers (fst r) @ [snd r]\<rparr>)"

definition fresh_execution :: "string list \<Rightarrow> 'h batch_execution" where
  "fresh_execution queue =
     \<lparr>bx_queue = queue, bx_active = [], bx_results = (\<lambda>_. None), bx_started = [], bx_cancelRequested = False,
      bx_nextIndex = 0, bx_workers = [], bx_events = map (\<lambda>i. (i, BcQueued, None)) queue, bx_cancelCalls = []\<rparr>"

definition createBatchConnectExecution :: "string list \<Rightarrow> int \<Rightarrow> 'h batch_execution" where
  "createBatchConnectExecution connectionIds concurrencyLimit =
     (let queue = uniqueConnectionIds connectionIds in
      (spawn_worker ^^ workerCount (length queue) concurrencyLimit) (fresh_execution queue))"

text \<open>
  \<open>done\<close>: it rejects with the first worker that throws, and resolves to the results in queue
  order once every worker has returned.
\<close>

datatype batch_outcome = Pending | DoneRejected | DoneWith "BatchConnectExecutionResult list"

definition collect_results :: "'h batch_execution \<Rightarrow> BatchConnectExecutionResult list" where
  "collect_results st = concat (map (\<lambda>i. case bx_results st i of None \<Rightarrow> [] | Some r \<Rightarrow> [r]) (bx_queue st))"

definition execution_outcome :: "'h batch_execution \<Rightarrow> batch_outcome" where
  "execution_outcome st =
     (if Threw \<in> set (bx_workers st) then DoneRejected
      else if \<forall>w \<in> set (bx_workers st). w = Returned then DoneWith (collect_results st)
      else Pending)"

section \<open>The step relation\<close>

inductive settle_step :: "'h batch_execution \<Rightarrow> 'h batch_execution \<Rightarrow> bool" where
  start_ok: "w < length (bx_workers st) \<Longrightarrow> bx_workers st ! w = AwaitStart i \<Longrightarrow>
    settle_step st (start_resolved w i h st)"
| start_bad: "w < length (bx_workers st) \<Longrightarrow> bx_workers st ! w = AwaitStart i \<Longrightarrow>
    settle_step st (start_rejected w i message st)"
| cancel_ok: "w < length (bx_workers st) \<Longrightarrow> bx_workers st ! w = AwaitCancel i h \<Longrightarrow>
    settle_step st (cancel_resolved w i st)"
| cancel_bad: "w < length (bx_workers st) \<Longrightarrow> bx_workers st ! w = AwaitCancel i h \<Longrightarrow>
    settle_step st (cancel_rejected w i st)"
| wait_ok: "w < length (bx_workers st) \<Longrightarrow> bx_workers st ! w = AwaitOutcome i h \<Longrightarrow>
    settle_step st (wait_resolved w i success err st)"
| wait_bad: "w < length (bx_workers st) \<Longrightarrow> bx_workers st ! w = AwaitOutcome i h \<Longrightarrow>
    settle_step st (wait_rejected w i message st)"

inductive execution_step :: "'h batch_execution \<Rightarrow> 'h batch_execution \<Rightarrow> bool" where
  settles: "settle_step st t \<Longrightarrow> execution_step st t"
| reports: "AwaitOutcome i h \<in> set (bx_workers st) \<Longrightarrow> isActiveStatus status \<Longrightarrow>
    execution_step st (reportStatus i status st)"
| cancels: "execution_step st (cancelRemaining st)"

inductive_cases settle_stepE: "settle_step st t"
inductive_cases execution_stepE: "execution_step st t"

section \<open>The invariant\<close>

fun worker_id :: "'h batch_worker \<Rightarrow> string option" where
  "worker_id (AwaitStart i) = Some i"
| "worker_id (AwaitCancel i h) = Some i"
| "worker_id (AwaitOutcome i h) = Some i"
| "worker_id Returned = None"
| "worker_id Threw = None"

definition worker_at :: "'h batch_execution \<Rightarrow> nat \<Rightarrow> 'h batch_worker \<Rightarrow> bool" where
  "worker_at st w x \<longleftrightarrow> w < length (bx_workers st) \<and> bx_workers st ! w = x"

definition works_on :: "'h batch_execution \<Rightarrow> nat \<Rightarrow> string \<Rightarrow> bool" where
  "works_on st w i \<longleftrightarrow> w < length (bx_workers st) \<and> worker_id (bx_workers st ! w) = Some i"

definition last_event :: "item_event list \<Rightarrow> string \<Rightarrow> (BatchConnectItemStatus \<times> string option) option" where
  "last_event evs = map_of (rev evs)"

definition is_final :: "BatchConnectItemStatus \<Rightarrow> string option \<Rightarrow> bool" where
  "is_final s e \<longleftrightarrow> s = BcFailed \<and> e \<noteq> None \<or> (s = BcSuccess \<or> s = BcCancelled) \<and> e = None"

definition shown_ok ::
  "BatchConnectExecutionResult option \<Rightarrow> bool \<Rightarrow> (BatchConnectItemStatus \<times> string option) option \<Rightarrow> bool" where
  "shown_ok r started e =
     (case r of
        Some r \<Rightarrow> e = Some (res_status r, res_error r)
      | None \<Rightarrow> if started then \<exists>s. e = Some (s, None) \<and> isActiveStatus s else e = Some (BcQueued, None))"

text \<open>The queue: what lies before \<open>nextIndex\<close> was started, what lies behind it is untouched or cancelled.\<close>

definition queue_ok :: "'h batch_execution \<Rightarrow> bool" where
  "queue_ok st \<longleftrightarrow> distinct (bx_queue st) \<and> distinct (bx_started st) \<and>
     set (bx_started st) = set (take (bx_nextIndex st) (bx_queue st)) \<and>
     (\<forall>i \<in> set (drop (bx_nextIndex st) (bx_queue st)). bx_results st i \<noteq> None \<longleftrightarrow> bx_cancelRequested st) \<and>
     dom (bx_results st) \<subseteq> set (bx_queue st) \<and>
     (\<forall>i r. bx_results st i = Some r \<longrightarrow> res_connectionId r = i \<and> is_final (res_status r) (res_error r))"

text \<open>The workers: each started connection without a result has exactly one worker.\<close>

definition worker_ok :: "bool \<Rightarrow> (string \<rightharpoonup> BatchConnectExecutionResult) \<Rightarrow> 'h batch_worker \<Rightarrow> bool" where
  "worker_ok cancelRequested results x =
     (case x of
        AwaitStart i \<Rightarrow> results i = None
      | AwaitCancel i h \<Rightarrow> cancelRequested \<and> results i = None
      | AwaitOutcome i h \<Rightarrow>
          if cancelRequested then map_option res_status (results i) = Some BcCancelled else results i = None
      | _ \<Rightarrow> True)"

definition workers_ok :: "'h batch_execution \<Rightarrow> bool" where
  "workers_ok st \<longleftrightarrow>
     (\<forall>w i. works_on st w i \<longrightarrow> i \<in> set (bx_started st)) \<and>
     (\<forall>w v i. works_on st w i \<longrightarrow> works_on st v i \<longrightarrow> w = v) \<and>
     (\<forall>i \<in> set (bx_started st). bx_results st i \<noteq> None \<or> (\<exists>w. works_on st w i)) \<and>
     (\<forall>w x. worker_at st w x \<longrightarrow> worker_ok (bx_cancelRequested st) (bx_results st) x)"

definition holds :: "'h batch_execution \<Rightarrow> nat \<Rightarrow> string \<Rightarrow> 'h \<Rightarrow> bool" where
  "holds st w i h \<longleftrightarrow> worker_at st w (AwaitCancel i h) \<or> worker_at st w (AwaitOutcome i h)"

definition active_ok :: "'h batch_execution \<Rightarrow> bool" where
  "active_ok st \<longleftrightarrow> distinct (map_keys (bx_active st)) \<and>
     (\<forall>i h. (i, h) \<in> set (bx_active st) \<longleftrightarrow> (\<exists>w. holds st w i h))"

definition events_ok :: "'h batch_execution \<Rightarrow> bool" where
  "events_ok st \<longleftrightarrow> fst ` set (bx_events st) \<subseteq> set (bx_queue st) \<and>
     (\<forall>i \<in> set (bx_queue st).
        shown_ok (bx_results st i) (i \<in> set (bx_started st)) (last_event (bx_events st) i))"

definition execution_ok :: "'h batch_execution \<Rightarrow> bool" where
  "execution_ok st \<longleftrightarrow> queue_ok st \<and> workers_ok st \<and> active_ok st \<and> events_ok st"

lemmas execution_ok_defs = execution_ok_def queue_ok_def workers_ok_def active_ok_def events_ok_def

lemma shown_ok_simps [simp]:
  "shown_ok (Some r) started e \<longleftrightarrow> e = Some (res_status r, res_error r)"
  "shown_ok None True (Some (s, None)) \<longleftrightarrow> isActiveStatus s"
  "shown_ok None False e \<longleftrightarrow> e = Some (BcQueued, None)"
  by (auto simp: shown_ok_def)

lemma last_event_snoc [simp]: "last_event (evs @ [(i, x)]) = (last_event evs)(i \<mapsto> x)"
  by (simp add: last_event_def)

lemma worker_at_works_on:
  "worker_at st w (AwaitStart i) \<Longrightarrow> works_on st w i"
  "worker_at st w (AwaitCancel i h) \<Longrightarrow> works_on st w i"
  "worker_at st w (AwaitOutcome i h) \<Longrightarrow> works_on st w i"
  by (auto simp: worker_at_def works_on_def)

lemma holds_works_on: "holds st w i h \<Longrightarrow> works_on st w i"
  by (auto simp: holds_def worker_at_works_on)

lemma works_on_cases:
  "works_on st w i \<longleftrightarrow> worker_at st w (AwaitStart i) \<or> (\<exists>h. worker_at st w (AwaitCancel i h)) \<or>
    (\<exists>h. worker_at st w (AwaitOutcome i h))"
  unfolding works_on_def worker_at_def by (cases "bx_workers st ! w") auto

lemma worker_ok_simps [simp]:
  "worker_ok c r (AwaitStart i) \<longleftrightarrow> r i = None"
  "worker_ok c r (AwaitCancel i h) \<longleftrightarrow> c \<and> r i = None"
  "worker_ok True r (AwaitOutcome i h) \<longleftrightarrow> map_option res_status (r i) = Some BcCancelled"
  "worker_ok False r (AwaitOutcome i h) \<longleftrightarrow> r i = None"
  "worker_ok c r Returned" "worker_ok c r Threw"
  by (simp_all add: worker_ok_def)

lemma workers_okD:
  assumes "workers_ok st"
  shows workers_started: "works_on st w i \<Longrightarrow> i \<in> set (bx_started st)"
    and workers_unique: "works_on st w i \<Longrightarrow> works_on st v i \<Longrightarrow> w = v"
    and workers_covered: "i \<in> set (bx_started st) \<Longrightarrow> bx_results st i \<noteq> None \<or> (\<exists>w. works_on st w i)"
    and workers_at: "worker_at st w x \<Longrightarrow> worker_ok (bx_cancelRequested st) (bx_results st) x"
  using assms by (simp_all add: workers_ok_def)

lemma nextIndex_independent [simp]:
  "workers_ok (st\<lparr>bx_nextIndex := n\<rparr>) = workers_ok st"
  "active_ok (st\<lparr>bx_nextIndex := n\<rparr>) = active_ok st"
  "events_ok (st\<lparr>bx_nextIndex := n\<rparr>) = events_ok st"
  by (simp_all add: workers_ok_def active_ok_def events_ok_def works_on_def worker_at_def holds_def)

section \<open>A worker takes the next connection\<close>

lemma take_next_ok:
  assumes "queue_ok st"
  shows "take_next st =
    (if bx_cancelRequested st then (st, Returned)
     else let st' = st\<lparr>bx_nextIndex := bx_nextIndex st + 1\<rparr>; i = bx_queue st ! bx_nextIndex st in
       if length (bx_queue st) \<le> bx_nextIndex st then (st', Returned)
       else (onItemStatus i BcConnecting None (st'\<lparr>bx_started := i # bx_started st\<rparr>), AwaitStart i))"
proof -
  have "bx_results st (bx_queue st ! bx_nextIndex st) = None"
    if "\<not> bx_cancelRequested st" "bx_nextIndex st < length (bx_queue st)"
    using assms that by (auto simp: queue_ok_def Cons_nth_drop_Suc [symmetric])
  then show ?thesis
    by (subst take_next.simps) (auto simp: Let_def)
qed

lemma distinct_next:
  assumes "distinct q" and "n < length q"
  shows "set (take (Suc n) q) = insert (q ! n) (set (take n q))"
    and "q ! n \<notin> set (take n q)" and "drop n q = q ! n # drop (Suc n) q" and "q ! n \<in> set q"
    and "q ! n \<notin> set (drop (Suc n) q)"
proof -
  have split: "q = take n q @ q ! n # drop (Suc n) q"
    using assms(2) by (simp add: id_take_nth_drop)
  show "set (take (Suc n) q) = insert (q ! n) (set (take n q))" "drop n q = q ! n # drop (Suc n) q" "q ! n \<in> set q"
    using assms(2) by (simp_all add: take_Suc_conv_app_nth Cons_nth_drop_Suc)
  show "q ! n \<notin> set (take n q)" "q ! n \<notin> set (drop (Suc n) q)"
    using assms(1) by (subst (asm) split, simp)+
qed

lemma continue_worker_ok:
  assumes ok: "execution_ok st" and w: "worker_at st w Returned"
  shows "execution_ok (continue_worker w st)"
proof -
  have queue: "queue_ok st"
    using ok by (simp add: execution_ok_def)
  have same: "(bx_workers st)[w := Returned] = bx_workers st"
    using w list_update_id [of "bx_workers st" w] by (simp add: worker_at_def)
  consider (cancelled) "bx_cancelRequested st"
    | (exhausted) "\<not> bx_cancelRequested st" "length (bx_queue st) \<le> bx_nextIndex st"
    | (picks) "\<not> bx_cancelRequested st" "bx_nextIndex st < length (bx_queue st)"
    by linarith
  then show ?thesis
  proof cases
    case cancelled
    then have "continue_worker w st = st"
      using same by (simp add: continue_worker_def set_worker_def take_next_ok [OF queue])
    with ok show ?thesis
      by simp
  next
    case exhausted
    then have "continue_worker w st = st\<lparr>bx_nextIndex := bx_nextIndex st + 1\<rparr>"
      using same by (simp add: continue_worker_def set_worker_def take_next_ok [OF queue])
    with ok exhausted show ?thesis
      by (simp add: execution_ok_def queue_ok_def)
  next
    case picks
    let ?i = "bx_queue st ! bx_nextIndex st"
    let ?t = "continue_worker w st"
    have t: "?t = st\<lparr>bx_nextIndex := bx_nextIndex st + 1, bx_started := ?i # bx_started st,
        bx_events := bx_events st @ [(?i, BcConnecting, None)], bx_workers := (bx_workers st)[w := AwaitStart ?i]\<rparr>"
      using picks w by (simp add: continue_worker_def set_worker_def take_next_ok [OF queue] onItemStatus_def Let_def)
    have dist: "distinct (bx_queue st)"
      using queue by (simp add: queue_ok_def)
    note nxt = distinct_next [OF dist picks(2)]
    have fresh: "?i \<notin> set (bx_started st)" "bx_results st ?i = None"
      using queue picks nxt by (simp_all add: queue_ok_def)
    have works: "works_on ?t v i \<longleftrightarrow> (if v = w then i = ?i else works_on st v i)" for v i
      using w by (auto simp: t works_on_def worker_at_def nth_list_update)
    have at: "worker_at ?t v x \<longleftrightarrow> (if v = w then x = AwaitStart ?i else worker_at st v x)" for v x
      using w by (auto simp: t worker_at_def nth_list_update)
    have idle: "\<not> works_on st w i" for i
      using w by (auto simp: works_on_def worker_at_def)
    have "queue_ok ?t"
      using queue nxt by (auto simp: queue_ok_def t)
    moreover have "workers_ok ?t"
    proof -
      have old: "workers_ok st"
        using ok by (simp add: execution_ok_def)
      have "bx_results st i \<noteq> None \<or> (\<exists>v. if v = w then i = ?i else works_on st v i)"
        if "i \<in> set (?i # bx_started st)" for i
        using old that idle unfolding workers_ok_def by (metis set_ConsD)
      moreover have "worker_ok False (bx_results st) x" if "if v = w then x = AwaitStart ?i else worker_at st v x" for v x
        using old that fresh picks(1) unfolding workers_ok_def by (cases "v = w") (auto simp: worker_ok_def)
      ultimately show ?thesis
        using old fresh(1) picks(1) unfolding workers_ok_def works at
        by (auto simp: t split: if_splits)
    qed
    moreover have "active_ok ?t"
    proof -
      have "holds ?t v i h \<longleftrightarrow> holds st v i h" for v i h
        using w unfolding holds_def at by (auto simp: worker_at_def)
      then show ?thesis
        using ok by (simp add: execution_ok_def active_ok_def) (simp add: t)
    qed
    moreover have "events_ok ?t"
      using ok fresh nxt(4) by (auto simp: execution_ok_def events_ok_def t isActiveStatus_def)
    ultimately show ?thesis
      by (simp add: execution_ok_def)
  qed
qed

section \<open>A worker lets go of its connection\<close>

text \<open>The state with worker \<open>w\<close> done with \<open>i\<close>, before it goes on.\<close>

definition retire :: "nat \<Rightarrow> string \<Rightarrow> 'h batch_execution \<Rightarrow> 'h batch_execution" where
  "retire w i st = drop_active i (st\<lparr>bx_workers := (bx_workers st)[w := Returned]\<rparr>)"

lemma retire_simps [simp]:
  "bx_queue (retire w i st) = bx_queue st" "bx_results (retire w i st) = bx_results st"
  "bx_started (retire w i st) = bx_started st" "bx_nextIndex (retire w i st) = bx_nextIndex st"
  "bx_cancelRequested (retire w i st) = bx_cancelRequested st" "bx_events (retire w i st) = bx_events st"
  "bx_active (retire w i st) = filter (\<lambda>(k, h). k \<noteq> i) (bx_active st)"
  "bx_workers (retire w i st) = (bx_workers st)[w := Returned]"
  by (simp_all add: retire_def drop_active_def)

lemma settle_item_simps [simp]:
  "bx_queue (settle_item i s e st) = bx_queue st" "bx_started (settle_item i s e st) = bx_started st"
  "bx_nextIndex (settle_item i s e st) = bx_nextIndex st" "bx_workers (settle_item i s e st) = bx_workers st"
  "bx_cancelRequested (settle_item i s e st) = bx_cancelRequested st" "bx_active (settle_item i s e st) = bx_active st"
  "bx_events (settle_item i s e st) = bx_events st @ [(i, s, e)]"
  "bx_results (settle_item i s e st) = (bx_results st)(i \<mapsto> \<lparr>res_connectionId = i, res_error = e, res_status = s\<rparr>)"
  by (simp_all add: settle_item_def onItemStatus_def)

lemma retire_views:
  assumes "works_on st w i"
  shows retire_works: "works_on ((retire w i st)\<lparr>bx_results := r, bx_events := evs\<rparr>) v j \<longleftrightarrow> v \<noteq> w \<and> works_on st v j"
    and retire_at: "worker_at ((retire w i st)\<lparr>bx_results := r, bx_events := evs\<rparr>) v x \<longleftrightarrow>
      (if v = w then x = Returned else worker_at st v x)"
  using assms by (auto simp: works_on_def worker_at_def nth_list_update)

lemma retire_workers_ok:
  assumes ok: "workers_ok st" and w: "works_on st w i"
    and r: "r i \<noteq> None" "\<And>j. j \<noteq> i \<Longrightarrow> r j = bx_results st j"
  shows "workers_ok ((retire w i st)\<lparr>bx_results := r, bx_events := evs\<rparr>)"
proof -
  have "r j \<noteq> None \<or> (\<exists>v. v \<noteq> w \<and> works_on st v j)" if "j \<in> set (bx_started st)" for j
  proof (cases "j = i")
    case False
    with w have "\<not> works_on st w j"
      by (simp add: works_on_def)
    with workers_covered [OF ok that] r(2) [OF False] show ?thesis
      by metis
  qed (use r(1) in simp)
  moreover have "worker_ok (bx_cancelRequested st) r x" if at: "if v = w then x = Returned else worker_at st v x" for v x
  proof (cases "v = w")
    case False
    with at have x: "worker_at st v x"
      by simp
    with False have "worker_id x \<noteq> Some i"
      using workers_unique [OF ok w, of v] by (auto simp: works_on_def worker_at_def)
    with workers_at [OF ok x] r(2) show ?thesis
      by (cases x) (auto simp: worker_ok_def)
  qed (use at in simp)
  moreover have "j \<in> set (bx_started st)" if "v \<noteq> w \<and> works_on st v j" for v j
    using that by (auto intro: workers_started [OF ok])
  moreover have "u = v" if "u \<noteq> w \<and> works_on st u j" "v \<noteq> w \<and> works_on st v j" for u v j
    using workers_unique [OF ok, of u j v] that by simp
  ultimately show ?thesis
    unfolding workers_ok_def retire_works [OF w] retire_at [OF w] by simp blast
qed

lemma retire_active_ok:
  assumes ok: "workers_ok st" "active_ok st" and w: "works_on st w i"
  shows "active_ok ((retire w i st)\<lparr>bx_results := r, bx_events := evs\<rparr>)"
proof -
  have "holds ((retire w i st)\<lparr>bx_results := r, bx_events := evs\<rparr>) v j h \<longleftrightarrow> j \<noteq> i \<and> holds st v j h" for v j h
  proof (cases "v = w")
    case True
    then show ?thesis
      using w holds_works_on [of st w j h] unfolding holds_def retire_at [OF w] by (auto simp: works_on_def)
  next
    case False
    then show ?thesis
      using workers_unique [OF ok(1) w, of v] holds_works_on [of st v j h] unfolding holds_def retire_at [OF w] by auto
  qed
  then show ?thesis
    using ok(2) by (auto simp: active_ok_def distinct_map_filter)
qed

lemma started_queued:
  assumes "queue_ok st" and "i \<in> set (bx_started st)"
  shows "i \<notin> set (drop (bx_nextIndex st) (bx_queue st)) \<and> i \<in> set (bx_queue st)"
  using assms set_take_disj_set_drop_if_distinct [of "bx_queue st" "bx_nextIndex st" "bx_nextIndex st"]
  by (auto simp: queue_ok_def dest: in_set_takeD)

lemma retire_settle_ok:
  assumes ok: "execution_ok st" and w: "works_on st w i"
    and r: "r = bx_results st \<and> r i \<noteq> None \<and> evs = bx_events st \<or>
      bx_results st i = None \<and> is_final s e \<and> evs = bx_events st @ [(i, s, e)] \<and>
      r = (bx_results st)(i \<mapsto> \<lparr>res_connectionId = i, res_error = e, res_status = s\<rparr>)"
  shows "execution_ok ((retire w i st)\<lparr>bx_results := r, bx_events := evs\<rparr>)"
proof -
  let ?t = "(retire w i st)\<lparr>bx_results := r, bx_events := evs\<rparr>"
  have parts: "queue_ok st" "workers_ok st" "active_ok st" "events_ok st"
    using ok by (simp_all add: execution_ok_def)
  have started: "i \<in> set (bx_started st)"
    using workers_started [OF parts(2) w] .
  note queued = started_queued [OF parts(1) started]
  have "r i \<noteq> None" "\<And>j. j \<noteq> i \<Longrightarrow> r j = bx_results st j"
    using r by auto
  then have "workers_ok ?t"
    by (rule retire_workers_ok [OF parts(2) w])
  moreover have "active_ok ?t"
    by (rule retire_active_ok [OF parts(2,3) w])
  moreover have "queue_ok ?t \<and> events_ok ?t"
    using r
  proof
    assume "r = bx_results st \<and> r i \<noteq> None \<and> evs = bx_events st"
    then show "queue_ok ?t \<and> events_ok ?t"
      using parts by (simp_all add: queue_ok_def events_ok_def)
  next
    assume "bx_results st i = None \<and> is_final s e \<and> evs = bx_events st @ [(i, s, e)] \<and>
      r = (bx_results st)(i \<mapsto> \<lparr>res_connectionId = i, res_error = e, res_status = s\<rparr>)"
    then show "queue_ok ?t \<and> events_ok ?t"
      using parts queued started by (auto simp: queue_ok_def events_ok_def split: if_splits)
  qed
  ultimately show ?thesis
    by (simp add: execution_ok_def)
qed

lemma queue_ok_workers [simp]: "queue_ok (st\<lparr>bx_workers := ws\<rparr>) = queue_ok st"
  by (simp add: queue_ok_def)

lemma continue_worker_retired:
  assumes "queue_ok st"
  shows "continue_worker w (st\<lparr>bx_workers := (bx_workers st)[w := Returned]\<rparr>) = continue_worker w st"
  using assms
  by (simp add: continue_worker_def set_worker_def take_next_ok onItemStatus_def Let_def)

lemma finish_ok:
  assumes "execution_ok st" and w: "works_on st w i"
    and "r = bx_results st \<and> r i \<noteq> None \<and> evs = bx_events st \<or>
      bx_results st i = None \<and> is_final s e \<and> evs = bx_events st @ [(i, s, e)] \<and>
      r = (bx_results st)(i \<mapsto> \<lparr>res_connectionId = i, res_error = e, res_status = s\<rparr>)"
  shows "execution_ok (continue_worker w ((drop_active i st)\<lparr>bx_results := r, bx_events := evs\<rparr>))"
proof -
  let ?done = "(retire w i st)\<lparr>bx_results := r, bx_events := evs\<rparr>"
  have ok: "execution_ok ?done"
    by (rule retire_settle_ok [OF assms])
  have "worker_at ?done w Returned"
    using w by (simp add: worker_at_def works_on_def)
  from continue_worker_ok [OF ok this] have "execution_ok (continue_worker w ?done)" .
  moreover have "?done = (drop_active i st)\<lparr>bx_results := r, bx_events := evs,
      bx_workers := (bx_workers ((drop_active i st)\<lparr>bx_results := r, bx_events := evs\<rparr>))[w := Returned]\<rparr>"
    by (simp add: retire_def drop_active_def)
  moreover from this ok have "queue_ok ((drop_active i st)\<lparr>bx_results := r, bx_events := evs\<rparr>)"
    by (metis execution_ok_def queue_ok_workers)
  ultimately show ?thesis
    by (metis continue_worker_retired)
qed

lemma threw_ok:
  assumes ok: "execution_ok st" and w: "worker_at st w Returned"
  shows "execution_ok (st\<lparr>bx_workers := (bx_workers st)[w := Threw]\<rparr>)"
proof -
  let ?t = "st\<lparr>bx_workers := (bx_workers st)[w := Threw]\<rparr>"
  have at: "worker_at ?t v x \<longleftrightarrow> (if v = w then x = Threw else worker_at st v x)" for v x
    using w by (auto simp: worker_at_def nth_list_update)
  have works: "works_on ?t v i \<longleftrightarrow> works_on st v i" for v i
    using w by (auto simp: works_on_def worker_at_def nth_list_update)
  have held: "holds ?t v i h \<longleftrightarrow> holds st v i h" for v i h
    using w unfolding holds_def at by (auto simp: worker_at_def)
  have "worker_ok (bx_cancelRequested st) (bx_results st) x" if "if v = w then x = Threw else worker_at st v x" for v x
    using ok that by (cases "v = w") (auto simp: worker_ok_def execution_ok_def workers_ok_def)
  then have "workers_ok ?t"
    using ok unfolding execution_ok_def workers_ok_def works at by simp
  moreover have "active_ok ?t" "events_ok ?t" "queue_ok ?t"
    using ok by (simp_all add: execution_ok_def active_ok_def held events_ok_def)
  ultimately show ?thesis
    by (simp add: execution_ok_def)
qed

section \<open>Cancellation\<close>

abbreviation cancelled_result :: "string \<Rightarrow> BatchConnectExecutionResult" where
  "cancelled_result i \<equiv> \<lparr>res_connectionId = i, res_error = None, res_status = BcCancelled\<rparr>"

definition cancel_all :: "string list \<Rightarrow> 'h batch_execution \<Rightarrow> 'h batch_execution" where
  "cancel_all xs st = st\<lparr>bx_results := (\<lambda>i. if i \<in> set xs then Some (cancelled_result i) else bx_results st i),
     bx_events := bx_events st @ map (\<lambda>i. (i, BcCancelled, None)) xs\<rparr>"

lemma cancel_all_Cons: "cancel_all (i # xs) st = cancel_all xs (settle_item i BcCancelled None st)"
  by (auto simp: cancel_all_def settle_item_def onItemStatus_def fun_eq_iff)

lemma cancel_all_Nil [simp]: "cancel_all [] st = st"
  by (simp add: cancel_all_def)

lemma cancel_queued_all:
  "distinct xs \<Longrightarrow> \<forall>i \<in> set xs. i \<notin> set (bx_started st) \<and> bx_results st i = None \<Longrightarrow>
    fold (\<lambda>i s. if i \<in> set (bx_started s) \<or> bx_results s i \<noteq> None then s else settle_item i BcCancelled None s) xs st
      = cancel_all xs st"
proof (induction xs arbitrary: st)
  case (Cons i xs)
  have "\<forall>j \<in> set xs. j \<notin> set (bx_started (settle_item i BcCancelled None st)) \<and>
      bx_results (settle_item i BcCancelled None st) j = None"
    using Cons.prems by auto
  from Cons.IH [OF _ this] Cons.prems show ?case
    by (simp add: cancel_all_Cons)
qed simp

lemma cancel_active_all:
  "distinct (map fst xs) \<Longrightarrow> \<forall>(i, h) \<in> set xs. bx_results st i = None \<Longrightarrow>
    fold (\<lambda>(i, h) s. (cancel_item i s)\<lparr>bx_cancelCalls := bx_cancelCalls s @ [h]\<rparr>) xs st
      = (cancel_all (map fst xs) st)\<lparr>bx_cancelCalls := bx_cancelCalls st @ map snd xs\<rparr>"
proof (induction xs arbitrary: st)
  case (Cons x xs)
  obtain i h where x: "x = (i, h)"
    by force
  let ?s = "(settle_item i BcCancelled None st)\<lparr>bx_cancelCalls := bx_cancelCalls st @ [h]\<rparr>"
  have "\<forall>(j, h) \<in> set xs. bx_results ?s j = None"
    using Cons.prems by (force simp: x)
  with Cons.IH [of ?s] Cons.prems show ?case
    by (auto simp: x cancel_item_def cancel_all_def settle_item_def onItemStatus_def fun_eq_iff)
qed simp

lemma active_ok_iff: "active_ok st \<Longrightarrow> (i, h) \<in> set (bx_active st) \<longleftrightarrow> (\<exists>w. holds st w i h)"
  by (simp add: active_ok_def)

lemma last_event_cancel_all:
  "last_event (evs @ map (\<lambda>i. (i, x)) xs) i = (if i \<in> set xs then Some x else last_event evs i)"
proof -
  have "map_of (rev (map (\<lambda>i. (i, x)) xs)) i = (if i \<in> set xs then Some x else None)"
    by (simp add: rev_map map_of_map_restrict restrict_map_def)
  then show ?thesis
    by (simp add: last_event_def map_add_def)
qed

lemma cancelRemaining_eq:
  assumes ok: "execution_ok st" and "\<not> bx_cancelRequested st"
  shows "cancelRemaining st =
    (cancel_all (drop (bx_nextIndex st) (bx_queue st) @ map fst (bx_active st)) (st\<lparr>bx_cancelRequested := True\<rparr>))
      \<lparr>bx_cancelCalls := bx_cancelCalls st @ map snd (bx_active st)\<rparr>"
proof -
  let ?q = "drop (bx_nextIndex st) (bx_queue st)"
  let ?s = "st\<lparr>bx_cancelRequested := True\<rparr>"
  have queue: "queue_ok st" and workers: "workers_ok st" and active: "active_ok st"
    using ok by (simp_all add: execution_ok_def)
  have fresh: "i \<notin> set (bx_started st)" "bx_results st i = None" if "i \<in> set ?q" for i
    using queue assms(2) that set_take_disj_set_drop_if_distinct [of "bx_queue st" "bx_nextIndex st" "bx_nextIndex st"]
    by (auto simp: queue_ok_def)
  have held: "i \<in> set (bx_started st)" "bx_results st i = None" if mem: "(i, h) \<in> set (bx_active st)" for i h
  proof -
    obtain w where w: "holds st w i h"
      using active_ok_iff [OF active] mem by blast
    then show "i \<in> set (bx_started st)"
      by (rule workers_started [OF workers holds_works_on])
    show "bx_results st i = None"
      using w [unfolded holds_def] assms(2) by (auto dest!: workers_at [OF workers])
  qed
  have "cancel_queued ?s = cancel_all ?q ?s"
    unfolding cancel_queued_def using queue fresh
    by (subst cancel_queued_all) (auto simp: queue_ok_def)
  moreover have "bx_active (cancel_all ?q ?s) = bx_active st"
    by (simp add: cancel_all_def)
  moreover have "\<forall>(i, h) \<in> set (bx_active st). bx_results (cancel_all ?q ?s) i = None"
  proof (rule ballI, clarify)
    fix i h
    assume "(i, h) \<in> set (bx_active st)"
    from held [OF this] fresh(1) [of i] show "bx_results (cancel_all ?q ?s) i = None"
      by (auto simp: cancel_all_def)
  qed
  ultimately have "cancelRemaining st = (cancel_all (map fst (bx_active st)) (cancel_all ?q ?s))
      \<lparr>bx_cancelCalls := bx_cancelCalls (cancel_all ?q ?s) @ map snd (bx_active st)\<rparr>"
    using assms(2) active cancel_active_all [of "bx_active st" "cancel_all ?q ?s"]
    by (simp add: cancelRemaining_def cancel_active_def active_ok_def)
  then show ?thesis
    by (auto simp: cancel_all_def fun_eq_iff)
qed

lemma cancelRemaining_fields:
  assumes "execution_ok st" and "\<not> bx_cancelRequested st"
  defines "xs \<equiv> drop (bx_nextIndex st) (bx_queue st) @ map fst (bx_active st)"
  shows "bx_queue (cancelRemaining st) = bx_queue st" "bx_started (cancelRemaining st) = bx_started st"
    "bx_nextIndex (cancelRemaining st) = bx_nextIndex st" "bx_workers (cancelRemaining st) = bx_workers st"
    "bx_active (cancelRemaining st) = bx_active st" "bx_cancelRequested (cancelRemaining st)"
    "bx_events (cancelRemaining st) = bx_events st @ map (\<lambda>i. (i, BcCancelled, None)) xs"
    "bx_results (cancelRemaining st) = (\<lambda>i. if i \<in> set xs then Some (cancelled_result i) else bx_results st i)"
  by (simp_all add: cancelRemaining_eq [OF assms(1,2)] cancel_all_def xs_def fun_eq_iff)

lemma active_keys: "active_ok st \<Longrightarrow> i \<in> fst ` set (bx_active st) \<longleftrightarrow> (\<exists>w h. holds st w i h)"
  by (force simp: active_ok_def)

lemma cancelRemaining_queue_ok:
  assumes ok: "execution_ok st" and "\<not> bx_cancelRequested st"
  shows "queue_ok (cancelRemaining st)"
proof -
  note t = cancelRemaining_fields [OF assms]
  have parts: "queue_ok st" "workers_ok st" "active_ok st"
    using ok by (simp_all add: execution_ok_def)
  have held: "i \<in> set (bx_queue st)" if "holds st w i h" for w i h
    using started_queued [OF parts(1) workers_started [OF parts(2) holds_works_on [OF that]]] by simp
  have old: "i \<in> set (bx_queue st) \<and> res_connectionId r = i \<and> is_final (res_status r) (res_error r)"
    if "bx_results st i = Some r" for i r
    using parts(1) that domI [of "bx_results st" i r] by (auto simp: queue_ok_def)
  have result: "i \<in> set (bx_queue st) \<and> res_connectionId r = i \<and> is_final (res_status r) (res_error r)"
    if "bx_results (cancelRemaining st) i = Some r" for i r
    using that old held active_keys [OF parts(3), of i]
    by (auto simp: t is_final_def split: if_splits dest: in_set_dropD)
  then have "dom (bx_results (cancelRemaining st)) \<subseteq> set (bx_queue st)"
    by blast
  moreover have "bx_results (cancelRemaining st) i \<noteq> None" if "i \<in> set (drop (bx_nextIndex st) (bx_queue st))" for i
    using that by (simp add: t)
  moreover have "\<forall>i r. bx_results (cancelRemaining st) i = Some r \<longrightarrow> res_connectionId r = i \<and> is_final (res_status r) (res_error r)"
    using result by blast
  ultimately show ?thesis
    using parts(1) t(6) by (simp add: queue_ok_def t(1-3))
qed

lemma cancelRemaining_worker_ok:
  assumes ok: "execution_ok st" and "\<not> bx_cancelRequested st" and x: "worker_at st w x"
  shows "worker_ok True (bx_results (cancelRemaining st)) x"
proof -
  note t = cancelRemaining_fields [OF assms(1,2)]
  have parts: "queue_ok st" "workers_ok st" "active_ok st"
    using ok by (simp_all add: execution_ok_def)
  show ?thesis
  proof (cases x)
    case (AwaitStart i)
    with x have w: "worker_at st w (AwaitStart i)" "works_on st w i"
      by (simp_all add: worker_at_works_on)
    have "\<not> holds st v i h" for v h
      using workers_unique [OF parts(2) w(2), of v] holds_works_on [of st v i h] w(1)
      by (auto simp: holds_def worker_at_def)
    with workers_at [OF parts(2) w(1)] started_queued [OF parts(1) workers_started [OF parts(2) w(2)]] show ?thesis
      using active_keys [OF parts(3)] by (simp add: AwaitStart t)
  next
    case (AwaitCancel i h)
    with workers_at [OF parts(2) x] assms(2) show ?thesis
      by simp
  next
    case (AwaitOutcome i h)
    with x have "holds st w i h"
      by (simp add: holds_def)
    then show ?thesis
      using active_keys [OF parts(3)] by (auto simp: AwaitOutcome t)
  qed simp_all
qed

lemma cancelRemaining_ok:
  assumes ok: "execution_ok st"
  shows "execution_ok (cancelRemaining st)"
proof (cases "bx_cancelRequested st")
  case True
  with ok show ?thesis
    by (simp add: cancelRemaining_def)
next
  case False
  let ?t = "cancelRemaining st"
  note t = cancelRemaining_fields [OF ok False]
  have parts: "workers_ok st" "active_ok st" "events_ok st"
    using ok by (simp_all add: execution_ok_def)
  have at: "worker_at ?t w x \<longleftrightarrow> worker_at st w x" and works: "works_on ?t w i \<longleftrightarrow> works_on st w i" for w x i
    by (simp_all add: worker_at_def works_on_def t)
  have held: "holds ?t w i h \<longleftrightarrow> holds st w i h" for w i h
    by (simp add: holds_def at)
  have "set (drop (bx_nextIndex st) (bx_queue st) @ map fst (bx_active st)) \<subseteq> set (bx_queue st)"
  proof
    fix i
    assume "i \<in> set (drop (bx_nextIndex st) (bx_queue st) @ map fst (bx_active st))"
    then have "i \<in> dom (bx_results ?t)"
      unfolding t(8) by (simp add: domIff)
    moreover have "dom (bx_results ?t) \<subseteq> set (bx_queue ?t)"
      using cancelRemaining_queue_ok [OF ok False] unfolding queue_ok_def by blast
    ultimately show "i \<in> set (bx_queue st)"
      unfolding t(1) by blast
  qed
  then have "events_ok ?t"
    using parts(3) unfolding events_ok_def t last_event_cancel_all by (simp add: image_Un image_image)
  moreover have "bx_results ?t i \<noteq> None \<or> (\<exists>w. works_on st w i)" if "i \<in> set (bx_started st)" for i
    using workers_covered [OF parts(1) that] by (simp add: t)
  ultimately have "workers_ok ?t \<and> events_ok ?t"
    using parts(1) t(6) cancelRemaining_worker_ok [OF ok False] unfolding workers_ok_def at works t(2) by simp
  moreover have "active_ok ?t"
    using parts(2) by (simp add: active_ok_def held t)
  ultimately show ?thesis
    using cancelRemaining_queue_ok [OF ok False] by (simp add: execution_ok_def)
qed

section \<open>The other steps\<close>

lemma start_resolved_ok:
  assumes ok: "execution_ok st" and w: "worker_at st w (AwaitStart i)"
  shows "execution_ok (start_resolved w i h st)"
proof -
  let ?x = "if bx_cancelRequested st then AwaitCancel i h else AwaitOutcome i h"
  let ?t = "start_resolved w i h st"
  have parts: "queue_ok st" "workers_ok st" "active_ok st" "events_ok st"
    using ok by (simp_all add: execution_ok_def)
  have none: "bx_results st i = None"
    using workers_at [OF parts(2) w] by simp
  have mine: "works_on st w i"
    using w by (rule worker_at_works_on)
  have t: "bx_queue ?t = bx_queue st" "bx_started ?t = bx_started st" "bx_nextIndex ?t = bx_nextIndex st"
      "bx_workers ?t = (bx_workers st)[w := ?x]" "bx_active ?t = map_set i h (bx_active st)"
      "bx_cancelRequested ?t = bx_cancelRequested st" "bx_results ?t = bx_results st" "bx_events ?t = bx_events st"
    by (simp_all add: start_resolved_def set_worker_def Let_def)
  have at: "worker_at ?t v x \<longleftrightarrow> (if v = w then x = ?x else worker_at st v x)" for v x
    using w by (auto simp: t worker_at_def nth_list_update)
  have works: "works_on ?t v j \<longleftrightarrow> works_on st v j" for v j
    using w by (auto simp: t works_on_def worker_at_def nth_list_update)
  have idle: "\<not> holds st w j g" for j g
    using w by (auto simp: holds_def worker_at_def)
  have held: "holds ?t v j g \<longleftrightarrow> (v = w \<and> j = i \<and> g = h \<or> holds st v j g)" for v j g
    using idle [of j g] unfolding holds_def at by auto
  have absent: "\<not> holds st v i g" for v g
    using idle [of i g] workers_unique [OF parts(2) mine, of v] holds_works_on [of st v i g] by auto
  have "worker_ok (bx_cancelRequested st) (bx_results st) x" if "if v = w then x = ?x else worker_at st v x" for v x
    using that none workers_at [OF parts(2), of v x] by (cases "v = w"; cases "bx_cancelRequested st") auto
  then have "workers_ok ?t"
    using parts(2) unfolding workers_ok_def works at t by simp
  moreover have "active_ok ?t"
  proof -
    have "i \<notin> fst ` set (bx_active st)"
      using absent active_ok_iff [OF parts(3)] by auto
    then have "bx_active ?t = bx_active st @ [(i, h)]" "distinct (map_keys (bx_active ?t))"
      using parts(3) by (simp_all add: t map_set_fresh active_ok_def)
    then show ?thesis
      using active_ok_iff [OF parts(3)] unfolding active_ok_def held by auto
  qed
  moreover have "queue_ok ?t" "events_ok ?t"
    using parts by (simp_all add: queue_ok_def events_ok_def t)
  ultimately show ?thesis
    by (simp add: execution_ok_def)
qed

lemma reportStatus_ok:
  assumes ok: "execution_ok st" and w: "works_on st w i" and "isActiveStatus status"
  shows "execution_ok (reportStatus i status st)"
proof (cases "\<not> bx_cancelRequested st \<and> bx_results st i = None")
  case True
  have "i \<in> set (bx_started st)"
    using ok w by (auto simp: execution_ok_def intro: workers_started)
  moreover from this have "i \<in> set (bx_queue st)"
    using ok started_queued by (auto simp: execution_ok_def)
  ultimately have "events_ok (st\<lparr>bx_events := bx_events st @ [(i, status, None)]\<rparr>)"
    using ok True assms(3) by (auto simp: execution_ok_def events_ok_def)
  moreover have "queue_ok (st\<lparr>bx_events := evs\<rparr>) = queue_ok st" "workers_ok (st\<lparr>bx_events := evs\<rparr>) = workers_ok st"
      "active_ok (st\<lparr>bx_events := evs\<rparr>) = active_ok st" for evs
    by (simp_all add: queue_ok_def workers_ok_def active_ok_def works_on_def worker_at_def holds_def)
  ultimately show ?thesis
    using True ok by (simp add: reportStatus_def onItemStatus_def execution_ok_def)
next
  case False
  then show ?thesis
    using ok by (auto simp: reportStatus_def)
qed

lemma settle_item_eq:
  "settle_item i s e st = st\<lparr>bx_results := (bx_results st)(i \<mapsto> \<lparr>res_connectionId = i, res_error = e, res_status = s\<rparr>),
     bx_events := bx_events st @ [(i, s, e)]\<rparr>"
  by (simp add: settle_item_def onItemStatus_def)

lemma drop_active_settle: "drop_active i (settle_item i s e st) = settle_item i s e (drop_active i st)"
  by (simp add: drop_active_def settle_item_eq)

lemma drop_active_simps [simp]:
  "bx_results (drop_active i st) = bx_results st" "bx_events (drop_active i st) = bx_events st"
  "bx_workers (drop_active i st) = bx_workers st"
  by (simp_all add: drop_active_def)

lemma finish_settle_ok:
  assumes "execution_ok st" "works_on st w i" "bx_results st i = None" "is_final s e"
  shows "execution_ok (continue_worker w (settle_item i s e (drop_active i st)))"
  unfolding settle_item_eq using finish_ok [OF assms(1,2)] assms(3,4) by simp

lemma finish_keep_ok:
  assumes "execution_ok st" "works_on st w i" "bx_results st i \<noteq> None"
  shows "execution_ok (continue_worker w (drop_active i st))"
proof -
  have "drop_active i st = (drop_active i st)\<lparr>bx_results := bx_results st, bx_events := bx_events st\<rparr>"
    by (simp add: drop_active_def)
  with finish_ok [OF assms(1,2), of "bx_results st" "bx_events st"] assms(3) show ?thesis
    by simp
qed

lemma drop_active_absent:
  assumes ok: "execution_ok st" and w: "worker_at st w (AwaitStart i)"
  shows "drop_active i st = st"
proof -
  have parts: "workers_ok st" "active_ok st"
    using ok by (simp_all add: execution_ok_def)
  have "\<not> holds st v i h" for v h
    using w workers_unique [OF parts(1) worker_at_works_on(1) [OF w], of v] holds_works_on [of st v i h]
    by (auto simp: holds_def worker_at_def)
  then have "\<forall>(k, h) \<in> set (bx_active st). k \<noteq> i"
    using active_ok_iff [OF parts(2)] by auto
  then show ?thesis
    by (simp add: drop_active_def filter_id_conv case_prod_unfold)
qed

lemma cancel_rejected_ok:
  assumes ok: "execution_ok st" and w: "worker_at st w (AwaitCancel i h)"
  shows "execution_ok (cancel_rejected w i st)"
proof -
  have none: "bx_results st i = None"
    using workers_at [of st w] ok w by (fastforce simp: execution_ok_def)
  let ?r = "(bx_results st)(i \<mapsto> \<lparr>res_connectionId = i, res_error = None, res_status = BcCancelled\<rparr>)"
  let ?s = "(retire w i st)\<lparr>bx_results := ?r, bx_events := bx_events st @ [(i, BcCancelled, None)]\<rparr>"
  have "execution_ok ?s"
    using none by (intro retire_settle_ok [OF ok worker_at_works_on(2) [OF w], where s = BcCancelled and e = None])
      (simp add: is_final_def)
  moreover have "worker_at ?s w Returned"
    using w by (simp add: worker_at_def)
  ultimately have "execution_ok (?s\<lparr>bx_workers := (bx_workers ?s)[w := Threw]\<rparr>)"
    by (rule threw_ok)
  moreover have "cancel_rejected w i st = ?s\<lparr>bx_workers := (bx_workers ?s)[w := Threw]\<rparr>"
    using none by (simp add: cancel_rejected_def set_worker_def cancel_item_def settle_item_eq retire_def drop_active_def)
  ultimately show ?thesis
    by simp
qed

lemma await_outcome_cases:
  assumes ok: "execution_ok st" and w: "worker_at st w (AwaitOutcome i h)"
  shows "if already_cancelled i st then bx_results st i \<noteq> None else bx_results st i = None"
proof -
  have "worker_ok (bx_cancelRequested st) (bx_results st) (AwaitOutcome i h)"
    using ok w by (auto simp: execution_ok_def intro: workers_at)
  then show ?thesis
    by (cases "bx_cancelRequested st") (auto simp: already_cancelled_def)
qed

lemma settle_step_ok:
  assumes "settle_step st t" and ok: "execution_ok st"
  shows "execution_ok t"
  using assms(1)
proof (cases rule: settle_step.cases)
  case (start_ok w i h)
  then show ?thesis
    using start_resolved_ok [OF ok] by (simp add: worker_at_def)
next
  case (start_bad w i message)
  then have w: "worker_at st w (AwaitStart i)"
    by (simp add: worker_at_def)
  have "bx_results st i = None"
    using workers_at [of st w] ok w by (fastforce simp: execution_ok_def)
  from finish_settle_ok [OF ok worker_at_works_on(1) [OF w] this, of BcFailed "Some message"] start_bad show ?thesis
    by (simp add: start_rejected_def is_final_def drop_active_absent [OF ok w])
next
  case (cancel_ok w i h)
  then have w: "worker_at st w (AwaitCancel i h)"
    by (simp add: worker_at_def)
  have "bx_results st i = None"
    using workers_at [of st w] ok w by (fastforce simp: execution_ok_def)
  with finish_settle_ok [OF ok worker_at_works_on(2) [OF w] this, of BcCancelled None] cancel_ok show ?thesis
    by (simp add: cancel_resolved_def cancel_item_def is_final_def)
next
  case (cancel_bad w i h)
  then show ?thesis
    using cancel_rejected_ok [OF ok, of w i h] by (simp add: worker_at_def)
next
  case (wait_ok w i h success err)
  then have w: "worker_at st w (AwaitOutcome i h)"
    by (simp add: worker_at_def)
  note works = worker_at_works_on(3) [OF w]
  show ?thesis
  proof (cases "already_cancelled i st")
    case True
    with await_outcome_cases [OF ok w] show ?thesis
      using finish_keep_ok [OF ok works] wait_ok by (simp add: wait_resolved_def)
  next
    case False
    with await_outcome_cases [OF ok w] have "bx_results st i = None"
      by simp
    from finish_settle_ok [OF ok works this] False wait_ok show ?thesis
      by (simp add: wait_resolved_def drop_active_settle is_final_def)
  qed
next
  case (wait_bad w i h message)
  then have w: "worker_at st w (AwaitOutcome i h)"
    by (simp add: worker_at_def)
  note works = worker_at_works_on(3) [OF w]
  show ?thesis
  proof (cases "already_cancelled i st")
    case True
    with await_outcome_cases [OF ok w] show ?thesis
      using finish_keep_ok [OF ok works] wait_bad by (simp add: wait_rejected_def)
  next
    case False
    with await_outcome_cases [OF ok w] have "bx_results st i = None"
      by simp
    from finish_settle_ok [OF ok works this] False wait_bad show ?thesis
      by (simp add: wait_rejected_def drop_active_settle is_final_def)
  qed
qed

lemma execution_step_ok:
  assumes "execution_step st t" and ok: "execution_ok st"
  shows "execution_ok t"
  using assms(1)
proof (cases rule: execution_step.cases)
  case (reports i h status)
  then obtain w where "worker_at st w (AwaitOutcome i h)"
    by (auto simp: in_set_conv_nth worker_at_def)
  with reports show ?thesis
    using reportStatus_ok [OF ok worker_at_works_on(3)] by blast
qed (use ok settle_step_ok cancelRemaining_ok in auto)

section \<open>Creation\<close>

lemma fresh_execution_ok: "distinct queue \<Longrightarrow> execution_ok (fresh_execution queue)"
proof -
  assume "distinct queue"
  moreover have "map_of (rev (map (\<lambda>i. (i, BcQueued, None :: string option)) queue)) i = Some (BcQueued, None)" if "i \<in> set queue" for i
    using that by (simp add: rev_map map_of_map_restrict restrict_map_def)
  ultimately show ?thesis
    by (simp add: execution_ok_defs fresh_execution_def works_on_def worker_at_def holds_def last_event_def image_image)
qed

lemma spawn_worker_eq:
  assumes "queue_ok st"
  shows "spawn_worker st = continue_worker (length (bx_workers st)) (st\<lparr>bx_workers := bx_workers st @ [Returned]\<rparr>)"
  using assms
  by (simp add: spawn_worker_def continue_worker_def set_worker_def take_next_ok onItemStatus_def Let_def)

lemma spawn_worker_ok:
  assumes ok: "execution_ok st"
  shows "execution_ok (spawn_worker st)"
proof -
  let ?s = "st\<lparr>bx_workers := bx_workers st @ [Returned]\<rparr>"
  have works: "works_on ?s w i \<longleftrightarrow> works_on st w i" for w i
    by (auto simp: works_on_def nth_append)
  have at: "worker_at ?s w x \<longleftrightarrow> worker_at st w x \<or> w = length (bx_workers st) \<and> x = Returned" for w x
    by (auto simp: worker_at_def nth_append)
  have held: "holds ?s w i h \<longleftrightarrow> holds st w i h" for w i h
    unfolding holds_def at by simp
  have "worker_ok (bx_cancelRequested st) (bx_results st) x"
    if "worker_at st w x \<or> w = length (bx_workers st) \<and> x = Returned" for w x
    using that ok workers_at [of st w x] by (auto simp: execution_ok_def)
  then have "workers_ok ?s"
    using ok unfolding execution_ok_def workers_ok_def works at by simp
  moreover have "queue_ok ?s" "active_ok ?s" "events_ok ?s"
    using ok by (simp_all add: execution_ok_def active_ok_def held events_ok_def)
  ultimately have "execution_ok ?s"
    by (simp add: execution_ok_def)
  moreover have "worker_at ?s (length (bx_workers st)) Returned"
    by (simp add: worker_at_def)
  ultimately have "execution_ok (continue_worker (length (bx_workers st)) ?s)"
    by (rule continue_worker_ok)
  moreover have "queue_ok st"
    using ok by (simp add: execution_ok_def)
  ultimately show ?thesis
    by (simp add: spawn_worker_eq)
qed

lemma spawn_workers_ok: "distinct queue \<Longrightarrow> execution_ok ((spawn_worker ^^ n) (fresh_execution queue))"
  by (induction n) (simp_all add: fresh_execution_ok spawn_worker_ok)

lemma createBatchConnectExecution_ok: "execution_ok (createBatchConnectExecution connectionIds limit)"
  by (simp add: createBatchConnectExecution_def uniqueConnectionIds_def spawn_workers_ok Let_def)

section \<open>What no step changes, and what every settlement uses up\<close>

fun worker_rank :: "'h batch_worker \<Rightarrow> nat" where
  "worker_rank (AwaitStart i) = 2"
| "worker_rank (AwaitCancel i h) = 1"
| "worker_rank (AwaitOutcome i h) = 1"
| "worker_rank Returned = 0"
| "worker_rank Threw = 0"

definition execution_rank :: "'h batch_execution \<Rightarrow> nat" where
  "execution_rank st = sum_list (map worker_rank (bx_workers st)) + 3 * (length (bx_queue st) - bx_nextIndex st)"

lemma rank_set_worker:
  assumes "w < length ws"
  shows "sum_list (map worker_rank (ws[w := x])) + worker_rank (ws ! w) =
    sum_list (map worker_rank ws) + worker_rank x"
proof -
  have "worker_rank (ws ! w) \<le> sum_list (map worker_rank ws)"
    using assms by (intro member_le_sum_list) auto
  then show ?thesis
    using assms by (simp add: map_update sum_list_update)
qed

lemma take_next_facts:
  "bx_queue (fst (take_next st)) = bx_queue st \<and> bx_workers (fst (take_next st)) = bx_workers st \<and>
   bx_results (fst (take_next st)) = bx_results st \<and>
   3 * (length (bx_queue st) - bx_nextIndex (fst (take_next st))) + worker_rank (snd (take_next st))
     \<le> 3 * (length (bx_queue st) - bx_nextIndex st)"
proof (induction st rule: take_next.induct)
  case (1 st)
  let ?i = "bx_queue st ! bx_nextIndex st"
  let ?s = "st\<lparr>bx_nextIndex := bx_nextIndex st + 1\<rparr>"
  consider "bx_cancelRequested st" | "\<not> bx_cancelRequested st" "length (bx_queue st) \<le> bx_nextIndex st"
    | (skip) "\<not> bx_cancelRequested st" "bx_nextIndex st < length (bx_queue st)" "bx_results st ?i \<noteq> None"
    | (picks) "\<not> bx_cancelRequested st" "bx_nextIndex st < length (bx_queue st)" "bx_results st ?i = None"
    by linarith
  then show ?case
  proof cases
    case 1
    then show ?thesis
      by (simp add: take_next.simps [of st])
  next
    case 2
    then show ?thesis
      by (simp add: take_next.simps [of st])
  next
    case skip
    then have "take_next st = take_next ?s"
      by (simp add: take_next.simps [of st] Let_def)
    moreover have "3 * (length (bx_queue st) - Suc (bx_nextIndex st)) \<le> 3 * (length (bx_queue st) - bx_nextIndex st)"
      by simp
    ultimately show ?thesis
      using "1.IH" [of "bx_nextIndex st" ?s ?i] skip by (simp only:) (fastforce elim: order_trans)
  next
    case picks
    then have "take_next st = (onItemStatus ?i BcConnecting None (?s\<lparr>bx_started := ?i # bx_started st\<rparr>), AwaitStart ?i)"
      by (simp add: take_next.simps [of st] Let_def)
    with picks show ?thesis
      by (simp add: onItemStatus_def)
  qed
qed

lemma continue_worker_facts:
  assumes "w < length (bx_workers st)" and "0 < worker_rank (bx_workers st ! w)"
  shows "execution_rank (continue_worker w st) < execution_rank st"
    and "bx_queue (continue_worker w st) = bx_queue st"
    and "length (bx_workers (continue_worker w st)) = length (bx_workers st)"
    and "bx_results (continue_worker w st) = bx_results st"
  using take_next_facts [of st] rank_set_worker [OF assms(1), of "snd (take_next st)"] assms(2)
  by (simp_all add: continue_worker_def set_worker_def execution_rank_def)

lemma cancel_all_simps [simp]:
  "bx_queue (cancel_all xs st) = bx_queue st" "bx_workers (cancel_all xs st) = bx_workers st"
  "bx_nextIndex (cancel_all xs st) = bx_nextIndex st"
  by (simp_all add: cancel_all_def)

text \<open>
  A settlement is a change of the record of one item and of its worker; the lemma collects what
  the properties need of it.
\<close>

definition settles_to :: "'h batch_execution \<Rightarrow> 'h batch_execution \<Rightarrow> bool" where
  "settles_to st t \<longleftrightarrow> execution_rank t < execution_rank st \<and> bx_queue t = bx_queue st \<and>
     length (bx_workers t) = length (bx_workers st) \<and> bx_results st \<subseteq>\<^sub>m bx_results t"

lemma continue_worker_settles:
  assumes "w < length (bx_workers st)" and "0 < worker_rank (bx_workers st ! w)"
    and "bx_queue s = bx_queue st" "bx_nextIndex s = bx_nextIndex st" "bx_workers s = bx_workers st"
    and "bx_results st \<subseteq>\<^sub>m bx_results s"
  shows "settles_to st (continue_worker w s)"
  using continue_worker_facts [of w s] assms by (simp add: settles_to_def execution_rank_def)

lemma drop_active_more [simp]:
  "bx_queue (drop_active i st) = bx_queue st" "bx_nextIndex (drop_active i st) = bx_nextIndex st"
  "bx_cancelRequested (drop_active i st) = bx_cancelRequested st"
  by (simp_all add: drop_active_def)

lemma results_grow: "bx_results st i = None \<Longrightarrow> bx_results st \<subseteq>\<^sub>m (bx_results st)(i \<mapsto> r)"
  by (auto simp: map_le_def)

lemma settle_step_settles:
  assumes "settle_step st t" and ok: "execution_ok st"
  shows "settles_to st t"
proof -
  have none: "bx_results st i = None" if "worker_at st w (AwaitStart i) \<or> worker_at st w (AwaitCancel i h)" for w i h
    using that workers_at [of st w] ok by (fastforce simp: execution_ok_def)
  note outcome = await_outcome_cases [OF ok, unfolded worker_at_def]
  show ?thesis
    using assms(1)
  proof (cases rule: settle_step.cases)
    case (start_ok w i h)
    then show ?thesis
      using rank_set_worker [of w "bx_workers st" "AwaitCancel i h"] rank_set_worker [of w "bx_workers st" "AwaitOutcome i h"]
      by (auto simp: settles_to_def start_resolved_def set_worker_def Let_def execution_rank_def)
  next
    case (start_bad w i message)
    then show ?thesis
      using none [of w i]
      by (auto simp: start_rejected_def worker_at_def results_grow intro!: continue_worker_settles)
  next
    case (cancel_ok w i h)
    then show ?thesis
      using none [of w i h]
      by (auto simp: cancel_resolved_def cancel_item_def worker_at_def results_grow intro!: continue_worker_settles)
  next
    case (cancel_bad w i h)
    then show ?thesis
      using none [of w i h] rank_set_worker [of w "bx_workers st" Threw]
      by (auto simp: settles_to_def cancel_rejected_def cancel_item_def worker_at_def results_grow set_worker_def
          execution_rank_def)
  next
    case (wait_ok w i h success err)
    then show ?thesis
      using outcome [of w i h]
      by (auto simp: wait_resolved_def results_grow split: if_splits intro!: continue_worker_settles)
  next
    case (wait_bad w i h message)
    then show ?thesis
      using outcome [of w i h]
      by (auto simp: wait_rejected_def results_grow split: if_splits intro!: continue_worker_settles)
  qed
qed

lemma execution_step_facts:
  assumes "execution_step st t" and ok: "execution_ok st"
  shows "execution_rank t \<le> execution_rank st \<and> bx_queue t = bx_queue st \<and>
    length (bx_workers t) = length (bx_workers st) \<and> bx_results st \<subseteq>\<^sub>m bx_results t"
  using assms(1)
proof (cases rule: execution_step.cases)
  case settles
  then show ?thesis
    using settle_step_settles [of st t] ok by (simp add: settles_to_def)
next
  case (reports i h status)
  then show ?thesis
    by (simp add: reportStatus_def onItemStatus_def execution_rank_def)
next
  case cancels
  show ?thesis
  proof (cases "bx_cancelRequested st")
    case True
    with cancels show ?thesis
      by (simp add: cancelRemaining_def)
  next
    case False
    have "bx_results st i = None" if "i \<in> set (drop (bx_nextIndex st) (bx_queue st)) \<or> i \<in> fst ` set (bx_active st)" for i
    proof -
      have "bx_results st i = None" if "holds st w i h" for w h
        using that workers_at [of st w] ok False by (fastforce simp: holds_def execution_ok_def)
      then show ?thesis
        using that ok False active_ok_iff [of st i] by (auto simp: execution_ok_def queue_ok_def)
    qed
    then show ?thesis
      unfolding cancels cancelRemaining_eq [OF ok False]
      by (auto simp: execution_rank_def cancel_all_def map_le_def image_iff) force
  qed
qed

interpretation batch: progress_system
  "\<lambda>st. \<exists>ids limit. st = createBatchConnectExecution ids limit" execution_step execution_ok settle_step execution_rank
proof
  show "execution_ok s" if "\<exists>ids limit. s = createBatchConnectExecution ids limit" for s :: "'h batch_execution"
    using that createBatchConnectExecution_ok by blast
  show "execution_ok t" if "execution_ok s" "execution_step s t" for s t :: "'h batch_execution"
    using that execution_step_ok by blast
  show "execution_step s t" if "settle_step s t" for s t :: "'h batch_execution"
    using that by (rule settles)
  show "execution_rank t < execution_rank s" if "execution_ok s" "settle_step s t" for s t :: "'h batch_execution"
    using settle_step_settles [OF that(2,1)] by (simp add: settles_to_def)
  show "execution_rank t \<le> execution_rank s" if "execution_ok s" "execution_step s t" for s t :: "'h batch_execution"
    using execution_step_facts [OF that(2,1)] by simp
qed

section \<open>A worker returns only when nothing is left to start\<close>

definition returned_ok :: "'h batch_execution \<Rightarrow> bool" where
  "returned_ok st \<longleftrightarrow>
     (Returned \<in> set (bx_workers st) \<longrightarrow> bx_cancelRequested st \<or> length (bx_queue st) \<le> bx_nextIndex st)"

lemma take_next_returned:
  "bx_cancelRequested (fst (take_next st)) = bx_cancelRequested st \<and> bx_nextIndex st \<le> bx_nextIndex (fst (take_next st)) \<and>
   (snd (take_next st) = Returned \<longrightarrow> bx_cancelRequested st \<or> length (bx_queue st) \<le> bx_nextIndex (fst (take_next st)))"
proof (induction st rule: take_next.induct)
  case (1 st)
  let ?i = "bx_queue st ! bx_nextIndex st"
  let ?s = "st\<lparr>bx_nextIndex := bx_nextIndex st + 1\<rparr>"
  show ?case
  proof (cases "bx_cancelRequested st \<or> length (bx_queue st) \<le> bx_nextIndex st \<or> bx_results st ?i = None")
    case True
    then show ?thesis
      by (auto simp: take_next.simps [of st] Let_def onItemStatus_def)
  next
    case False
    then have "take_next st = take_next ?s"
      by (simp add: take_next.simps [of st] Let_def)
    with "1.IH" [of "bx_nextIndex st" ?s ?i] False show ?thesis
      by auto
  qed
qed

lemma continue_worker_returned:
  "returned_ok s \<Longrightarrow> returned_ok (continue_worker w s)"
  using take_next_returned [of s] take_next_facts [of s]
    set_update_subset_insert [of "bx_workers s" w "snd (take_next s)"]
  by (auto simp: returned_ok_def continue_worker_def set_worker_def)

lemma returned_ok_congs [simp]:
  "returned_ok (settle_item i s e st) = returned_ok st"
  "returned_ok (drop_active i st) = returned_ok st"
  "returned_ok (cancel_item i st) = returned_ok st"
  by (simp_all add: returned_ok_def settle_item_eq drop_active_def cancel_item_def)

lemma settle_step_returned:
  assumes "settle_step st t" and "returned_ok st"
  shows "returned_ok t"
  using assms(1)
proof (cases rule: settle_step.cases)
  case (start_ok w i h)
  then show ?thesis
    using assms(2) set_update_subset_insert [of "bx_workers st" w "AwaitCancel i h"]
      set_update_subset_insert [of "bx_workers st" w "AwaitOutcome i h"]
    by (auto simp: returned_ok_def start_resolved_def set_worker_def Let_def)
next
  case (cancel_bad w i h)
  then show ?thesis
    using assms(2) set_update_subset_insert [of "bx_workers st" w Threw]
    by (auto simp: returned_ok_def cancel_rejected_def set_worker_def cancel_item_def settle_item_eq)
qed (use assms(2) in \<open>simp_all add: start_rejected_def cancel_resolved_def wait_resolved_def wait_rejected_def
    continue_worker_returned\<close>)

lemma execution_step_returned:
  assumes "execution_step st t" and "execution_ok st" and "returned_ok st"
  shows "returned_ok t"
  using assms(1)
proof (cases rule: execution_step.cases)
  case settles
  then show ?thesis
    using settle_step_returned assms(3) by blast
next
  case (reports i h status)
  then show ?thesis
    using assms(3) by (auto simp: reportStatus_def onItemStatus_def returned_ok_def)
next
  case cancels
  then show ?thesis
    using assms(3) cancelRemaining_eq [OF assms(2)]
    by (cases "bx_cancelRequested st") (simp_all add: returned_ok_def cancelRemaining_def cancel_all_def)
qed

lemma spawn_worker_facts:
  "returned_ok s \<Longrightarrow> returned_ok (spawn_worker s)"
  "bx_queue (spawn_worker s) = bx_queue s"
  "length (bx_workers (spawn_worker s)) = Suc (length (bx_workers s))"
  using take_next_facts [of s] take_next_returned [of s]
  by (auto simp: spawn_worker_def returned_ok_def Let_def)

lemma spawn_workers_facts:
  "returned_ok ((spawn_worker ^^ n) (fresh_execution queue)) \<and>
   bx_queue ((spawn_worker ^^ n) (fresh_execution queue)) = queue \<and>
   length (bx_workers ((spawn_worker ^^ n) (fresh_execution queue))) = n"
  by (induction n) (simp_all add: spawn_worker_facts, simp add: fresh_execution_def returned_ok_def)

lemma createBatchConnectExecution_facts:
  "returned_ok (createBatchConnectExecution ids limit)"
  "bx_queue (createBatchConnectExecution ids limit) = dedupe ids"
  "length (bx_workers (createBatchConnectExecution ids limit)) = workerCount (length (dedupe ids)) limit"
  by (simp_all add: createBatchConnectExecution_def uniqueConnectionIds_def Let_def spawn_workers_facts)

lemma reachable_facts:
  assumes "execution_step\<^sup>*\<^sup>* (createBatchConnectExecution ids limit) st"
  shows "execution_ok st \<and> returned_ok st \<and> bx_queue st = dedupe ids \<and>
    length (bx_workers st) = workerCount (length (dedupe ids)) limit"
  using assms
proof (induction rule: rtranclp_induct)
  case base
  then show ?case
    by (simp add: createBatchConnectExecution_ok createBatchConnectExecution_facts)
next
  case (step s t)
  then show ?case
    using execution_step_ok [of s t] execution_step_facts [of s t] execution_step_returned [of s t] by simp
qed

end
