(* ===== verification/Batch_Guarantees.thy ===== *)
theory Batch_Guarantees
  imports Batch_Executor
begin

text \<open>
  What the executor of a batch guarantees in every run
  (\<open>features/connections/batchConnectExecutor.ts\<close>): bounded attempts, a complete result,
  results that stay, an end, and the run shown by the dialog as the image of the callbacks.
\<close>

section \<open>What an execution guarantees\<close>

definition attempts :: "'h batch_execution \<Rightarrow> string list" where
  "attempts st = List.map_filter worker_id (bx_workers st)"

lemma distinct_map_filter_nth:
  "(\<And>w v i. w < length xs \<Longrightarrow> v < length xs \<Longrightarrow> f (xs ! w) = Some i \<Longrightarrow> f (xs ! v) = Some i \<Longrightarrow> w = v) \<Longrightarrow>
    distinct (List.map_filter f xs)"
proof (induction xs)
  case (Cons x xs)
  have rest: "distinct (List.map_filter f xs)"
  proof (rule Cons.IH)
    fix w v i
    assume "w < length xs" "v < length xs" "f (xs ! w) = Some i" "f (xs ! v) = Some i"
    with Cons.prems [of "Suc w" "Suc v" i] show "w = v"
      by simp
  qed
  have "i \<notin> set (List.map_filter f xs)" if "f x = Some i" for i
  proof
    assume "i \<in> set (List.map_filter f xs)"
    then obtain v where "v < length xs" "f (xs ! v) = Some i"
      by (auto simp: List.map_filter_def in_set_conv_nth)
    with that Cons.prems [of 0 "Suc v" i] show False
      by simp
  qed
  with rest show ?case
    by (simp add: List.map_filter_simps split: option.splits)
qed (simp add: List.map_filter_simps)

text \<open>
  However the connections behave and whenever the user cancels, a batch never runs more
  attempts at a time than its limit (one, if the limit is smaller), never attempts the same
  connection twice, and attempts only connections that were asked for.
\<close>

theorem batch_attempts_bounded:
  assumes "execution_step\<^sup>*\<^sup>* (createBatchConnectExecution ids limit) st"
  shows "length (attempts st) \<le> nat (max 1 limit) \<and> distinct (attempts st) \<and> distinct (bx_started st) \<and>
    set (attempts st) \<subseteq> set (bx_started st) \<and> set (bx_started st) \<subseteq> set ids"
proof -
  note facts = reachable_facts [OF assms]
  then have queue: "queue_ok st" and workers: "workers_ok st"
    by (simp_all add: execution_ok_def)
  have "length (attempts st) \<le> length (bx_workers st)"
    by (simp add: attempts_def List.map_filter_def)
  then have "length (attempts st) \<le> nat (max 1 limit)"
    using facts by (simp add: workerCount_def)
  moreover have "distinct (attempts st)"
    unfolding attempts_def
    by (rule distinct_map_filter_nth, rule workers_unique [OF workers]) (simp_all add: works_on_def)
  moreover have "set (attempts st) \<subseteq> set (bx_started st)"
    using workers_started [OF workers]
    by (fastforce simp: attempts_def List.map_filter_def in_set_conv_nth works_on_def)
  moreover have "set (bx_started st) \<subseteq> set ids"
    using queue facts by (auto simp: queue_ok_def dest: in_set_takeD)
  ultimately show ?thesis
    using queue by (simp add: queue_ok_def)
qed

lemma started_attempt:
  "execution_step\<^sup>*\<^sup>* (createBatchConnectExecution ids limit) (createBatchConnectExecution ids limit)"
  by simp

theorem batch_attempts_bounded_witness:
  "length (attempts (createBatchConnectExecution [''a'', ''b'', ''a'', ''c''] 2 :: nat batch_execution)) \<le> 2 \<and>
   attempts (createBatchConnectExecution [''a'', ''b'', ''a'', ''c''] 2 :: nat batch_execution) = [''a'', ''b'']"
proof -
  have "attempts (createBatchConnectExecution [''a'', ''b'', ''a'', ''c''] 2 :: nat batch_execution) = [''a'', ''b'']"
    by code_simp
  moreover have "length (attempts (createBatchConnectExecution [''a'', ''b'', ''a'', ''c''] 2 :: nat batch_execution)) \<le> nat (max 1 2)"
    using batch_attempts_bounded [OF started_attempt] by blast
  ultimately show ?thesis
    by simp
qed

text \<open>The run shown by the dialog: every callback goes through \<open>updateBatchConnectItem\<close>.\<close>

definition apply_events :: "BatchConnectRun \<Rightarrow> item_event list \<Rightarrow> BatchConnectRun" where
  "apply_events run evs = foldl (\<lambda>r (i, s, e). updateBatchConnectItem r i s e) run evs"

lemma run_items_apply_events:
  "run_items (apply_events run evs) =
    map (\<lambda>item. case last_event evs (bri_connectionId item) of
        None \<Rightarrow> item
      | Some (s, e) \<Rightarrow> item\<lparr>bri_error := (if s = BcFailed then e else None), bri_status := s\<rparr>) (run_items run)"
proof (induction evs rule: rev_induct)
  case Nil
  then show ?case
    by (simp add: apply_events_def last_event_def)
next
  case (snoc ev evs)
  obtain i s e where ev: "ev = (i, s, e)"
    by (cases ev)
  have "run_items (apply_events run (evs @ [ev])) = map (updateItem i s e) (run_items (apply_events run evs))"
    by (simp add: apply_events_def ev)
  also have "\<dots> = map (\<lambda>item. case last_event (evs @ [ev]) (bri_connectionId item) of
        None \<Rightarrow> item
      | Some (s, e) \<Rightarrow> item\<lparr>bri_error := (if s = BcFailed then e else None), bri_status := s\<rparr>) (run_items run)"
    unfolding snoc by (auto simp: ev updateItem_def split: option.splits)
  finally show ?case .
qed

lemma concat_map_the:
  "\<forall>i \<in> set xs. f i \<noteq> None \<Longrightarrow>
    concat (map (\<lambda>i. case f i of None \<Rightarrow> [] | Some r \<Rightarrow> [r]) xs) = map (\<lambda>i. the (f i)) xs"
  by (induction xs) auto

lemma done_results:
  assumes "execution_ok st" "returned_ok st" "execution_outcome st = DoneWith results"
    and "bx_queue st \<noteq> [] \<Longrightarrow> bx_workers st \<noteq> []"
  shows "results = map (\<lambda>i. the (bx_results st i)) (bx_queue st) \<and> (\<forall>i \<in> set (bx_queue st). bx_results st i \<noteq> None)"
proof -
  have all: "\<forall>w \<in> set (bx_workers st). w = Returned" and results: "results = collect_results st"
    using assms(3) by (auto simp: execution_outcome_def split: if_splits)
  have idle: "\<not> works_on st w i" for w i
  proof
    assume w: "works_on st w i"
    then have "bx_workers st ! w \<in> set (bx_workers st)"
      by (simp add: works_on_def)
    with all have "bx_workers st ! w = Returned"
      by blast
    with w show False
      by (simp add: works_on_def)
  qed
  have queue: "queue_ok st" and workers: "workers_ok st"
    using assms(1) by (simp_all add: execution_ok_def)
  have "bx_results st i \<noteq> None" if "i \<in> set (bx_queue st)" for i
  proof (cases "i \<in> set (bx_started st)")
    case True
    then show ?thesis
      using workers_covered [OF workers True] idle by blast
  next
    case False
    have "i \<in> set (drop (bx_nextIndex st) (bx_queue st))"
      using that False queue append_take_drop_id [of "bx_nextIndex st" "bx_queue st"]
      by (metis Un_iff queue_ok_def set_append)
    moreover have "bx_cancelRequested st"
    proof -
      have "bx_workers st \<noteq> []"
        using that by (intro assms(4)) auto
      then have "Returned \<in> set (bx_workers st)"
        using all list.set_sel(1) [of "bx_workers st"] by fastforce
      then show ?thesis
        using assms(2) \<open>i \<in> set (drop (bx_nextIndex st) (bx_queue st))\<close> by (auto simp: returned_ok_def)
    qed
    ultimately show ?thesis
      using queue by (auto simp: queue_ok_def)
  qed
  then show ?thesis
    using results concat_map_the [of "bx_queue st" "bx_results st"] by (simp add: collect_results_def)
qed

text \<open>
  C15. When a batch finishes, its result names every requested connection exactly once, in the
  order requested, each with a final status (a failure carries a message, nothing else does);
  and the run the dialog shows, built from the callbacks alone, agrees with it item by item, so
  no item is left waiting.
\<close>

theorem batch_done_is_complete:
  assumes "execution_step\<^sup>*\<^sup>* (createBatchConnectExecution ids limit) st"
    and "execution_outcome st = DoneWith results"
  shows "map res_connectionId results = dedupe ids \<and>
    list_all (\<lambda>r. is_final (res_status r) (res_error r)) results \<and>
    run_items (apply_events (createBatchConnectRun ids) (bx_events st)) =
      map (\<lambda>r. \<lparr>bri_connectionId = res_connectionId r, bri_error = res_error r, bri_status = res_status r\<rparr>) results"
proof -
  note facts = reachable_facts [OF assms(1)]
  have "bx_workers st \<noteq> []" if "bx_queue st \<noteq> []"
    using facts that by (auto simp: workerCount_def min_def split: if_splits)
  with facts assms(2) have results: "results = map (\<lambda>i. the (bx_results st i)) (bx_queue st)"
    and all: "\<forall>i \<in> set (bx_queue st). bx_results st i \<noteq> None"
    using done_results [of st results] by auto
  have item: "res_connectionId (the (bx_results st i)) = i \<and> is_final (res_status (the (bx_results st i))) (res_error (the (bx_results st i))) \<and>
      last_event (bx_events st) i = Some (res_status (the (bx_results st i)), res_error (the (bx_results st i)))"
    if "i \<in> set (bx_queue st)" for i
  proof -
    from all that obtain r where r: "bx_results st i = Some r"
      by auto
    have "queue_ok st" "events_ok st"
      using facts by (simp_all add: execution_ok_def)
    with r that show ?thesis
      by (auto simp: queue_ok_def events_ok_def)
  qed
  have no_error: "res_error (the (bx_results st i)) = None"
    if "i \<in> set (bx_queue st)" "res_status (the (bx_results st i)) \<noteq> BcFailed" for i
    using item [OF that(1)] that(2) by (auto simp: is_final_def)
  have "run_items (apply_events (createBatchConnectRun ids) (bx_events st)) =
      map (\<lambda>i. \<lparr>bri_connectionId = i, bri_error = res_error (the (bx_results st i)),
        bri_status = res_status (the (bx_results st i))\<rparr>) (bx_queue st)"
    using facts item no_error by (auto simp: run_items_apply_events createBatchConnectRun_def)
  moreover have "map (\<lambda>i. res_connectionId (the (bx_results st i))) (bx_queue st) = bx_queue st"
    using item by (intro map_idI) blast
  ultimately show ?thesis
    using facts item unfolding results by (auto simp: list_all_iff comp_def)
qed

text \<open>
  C16. Once a connection of a batch has a result (connected, failed or cancelled), no later event
  changes it: in particular a connection reported as cancelled never turns into a success when
  its pending attempt completes after all.
\<close>

theorem batch_results_are_final:
  assumes "execution_step\<^sup>*\<^sup>* (createBatchConnectExecution ids limit) st"
    and "execution_step\<^sup>*\<^sup>* st t" and "bx_results st i = Some r"
  shows "bx_results t i = Some r"
  using assms(2,3)
proof (induction rule: rtranclp_induct)
  case (step t u)
  have "execution_step\<^sup>*\<^sup>* (createBatchConnectExecution ids limit) t"
    using assms(1) step.hyps(1) by simp
  then have "execution_ok t"
    using reachable_facts by blast
  then have "bx_results t \<subseteq>\<^sub>m bx_results u"
    using execution_step_facts [OF step.hyps(2)] by blast
  with step.IH [OF step.prems] show ?case
    by (metis domI map_le_def)
qed

lemma spawn_workers_rank: "execution_rank ((spawn_worker ^^ n) s) \<le> execution_rank s"
proof (induction n)
  case (Suc n)
  have "execution_rank (spawn_worker t) \<le> execution_rank t" for t :: "'a batch_execution"
    using take_next_facts [of t] by (simp add: spawn_worker_def execution_rank_def Let_def)
  from this [of "(spawn_worker ^^ n) s"] Suc show ?case
    by simp
qed simp

lemma created_rank: "execution_rank (createBatchConnectExecution ids limit) \<le> 3 * length (dedupe ids)"
proof -
  have "execution_rank (fresh_execution queue) = 3 * length queue" for queue
    by (simp add: execution_rank_def fresh_execution_def)
  then show ?thesis
    using spawn_workers_rank [of _ "fresh_execution (dedupe ids)"]
    by (simp add: createBatchConnectExecution_def uniqueConnectionIds_def Let_def fresh_execution_def execution_rank_def)
qed

lemma pending_can_settle:
  assumes "execution_outcome st = Pending"
  shows "\<exists>t. settle_step st t"
proof -
  obtain w where w: "w < length (bx_workers st)" "bx_workers st ! w \<noteq> Returned" "bx_workers st ! w \<noteq> Threw"
    using assms by (auto simp: execution_outcome_def in_set_conv_nth split: if_splits)
  show ?thesis
  proof (cases "bx_workers st ! w")
    case (AwaitStart i)
    from start_bad [OF w(1) this] show ?thesis
      by blast
  next
    case (AwaitCancel i h)
    from cancel_ok [OF w(1) this] show ?thesis
      by blast
  next
    case (AwaitOutcome i h)
    from wait_bad [OF w(1) this] show ?thesis
      by blast
  qed (use w in simp_all)
qed

text \<open>
  C17. A batch cannot stall by itself and cannot run forever: while \<open>done\<close> is pending some
  worker awaits a promise of the adapter, and in every run, infinite ones included, at most three
  promises per requested connection settle in all, however many status reports and
  cancellations are interleaved.
\<close>

theorem batch_execution_ends:
  assumes "f 0 = createBatchConnectExecution ids limit" and "\<And>n. execution_step (f n) (f (Suc n))"
  shows "finite {n. settle_step (f n) (f (Suc n))} \<and>
    card {n. settle_step (f n) (f (Suc n))} \<le> 3 * length (dedupe ids) \<and>
    (execution_outcome (f n) = Pending \<longrightarrow> (\<exists>t. settle_step (f n) t))"
proof -
  have "finite {n. settle_step (f n) (f (Suc n))} \<and> card {n. settle_step (f n) (f (Suc n))} \<le> execution_rank (f 0)"
    using assms by (intro batch.finite_progress) auto
  moreover have "execution_rank (f 0) \<le> 3 * length (dedupe ids)"
    unfolding assms(1) by (rule created_rank)
  moreover have "\<exists>t. settle_step (f n) t" if "execution_outcome (f n) = Pending"
    using that by (rule pending_can_settle)
  ultimately show ?thesis
    by simp
qed

section \<open>Sample runs\<close>

text \<open>Two connections, one at a time, handles are numbers.\<close>

definition sample_start :: "nat batch_execution" where
  "sample_start = createBatchConnectExecution [''a'', ''b'', ''a''] 1"

definition sample_waiting :: "nat batch_execution" where
  "sample_waiting = start_resolved 0 ''a'' 7 sample_start"

definition sample_second :: "nat batch_execution" where
  "sample_second = wait_resolved 0 ''a'' True None sample_waiting"

definition sample_done :: "nat batch_execution" where
  "sample_done = start_rejected 0 ''b'' ''refused'' sample_second"

lemma three_steps: "execution_step a b \<Longrightarrow> execution_step b c \<Longrightarrow> execution_step c d \<Longrightarrow> execution_step\<^sup>*\<^sup>* a d"
  by (simp add: converse_rtranclp_into_rtranclp r_into_rtranclp)

lemma sample_steps:
  "execution_step sample_start sample_waiting"
  "execution_step sample_waiting sample_second"
  "execution_step sample_second sample_done"
proof -
  show "execution_step sample_start sample_waiting"
    unfolding sample_waiting_def by (intro settles start_ok) code_simp+
  show "execution_step sample_waiting sample_second"
    unfolding sample_second_def by (intro settles wait_ok [where h = 7]) code_simp+
  show "execution_step sample_second sample_done"
    unfolding sample_done_def by (intro settles start_bad) code_simp+
qed

theorem batch_done_is_complete_witness:
  "execution_outcome sample_done = DoneWith
     [\<lparr>res_connectionId = ''a'', res_error = None, res_status = BcSuccess\<rparr>,
      \<lparr>res_connectionId = ''b'', res_error = Some ''refused'', res_status = BcFailed\<rparr>] \<and>
   map bri_status (run_items (apply_events (createBatchConnectRun [''a'', ''b'', ''a'']) (bx_events sample_done)))
     = [BcSuccess, BcFailed]"
proof -
  have "execution_step\<^sup>*\<^sup>* sample_start sample_done"
    by (rule three_steps) (rule sample_steps)+
  then have run: "execution_step\<^sup>*\<^sup>* (createBatchConnectExecution [''a'', ''b'', ''a''] 1) sample_done"
    by (simp add: sample_start_def)
  have outcome: "execution_outcome sample_done = DoneWith
     [\<lparr>res_connectionId = ''a'', res_error = None, res_status = BcSuccess\<rparr>,
      \<lparr>res_connectionId = ''b'', res_error = Some ''refused'', res_status = BcFailed\<rparr>]"
    by code_simp
  from batch_done_is_complete [OF run outcome] outcome show ?thesis
    by simp
qed

text \<open>The user cancels while the first connection is pending; it completes all the same.\<close>

definition sample_cancelled :: "nat batch_execution" where
  "sample_cancelled = cancelRemaining sample_waiting"

theorem batch_results_are_final_witness:
  "bx_results sample_cancelled ''a'' = Some (cancelled_result ''a'') \<and>
   bx_results (wait_resolved 0 ''a'' True None sample_cancelled) ''a'' = Some (cancelled_result ''a'')"
proof -
  have "execution_step sample_waiting sample_cancelled"
    unfolding sample_cancelled_def by (rule cancels)
  with sample_steps(1) have "execution_step\<^sup>*\<^sup>* sample_start sample_cancelled"
    by (rule converse_rtranclp_into_rtranclp [OF _ r_into_rtranclp])
  then have run: "execution_step\<^sup>*\<^sup>* (createBatchConnectExecution [''a'', ''b'', ''a''] 1) sample_cancelled"
    by (simp add: sample_start_def)
  have "execution_step sample_cancelled (wait_resolved 0 ''a'' True None sample_cancelled)"
    by (intro settles wait_ok [where h = 7]) code_simp+
  then have later: "execution_step\<^sup>*\<^sup>* sample_cancelled (wait_resolved 0 ''a'' True None sample_cancelled)"
    by blast
  have "bx_results sample_cancelled ''a'' = Some (cancelled_result ''a'')"
    by code_simp
  with batch_results_are_final [OF run later this] show ?thesis
    by simp
qed

theorem batch_execution_ends_witness:
  "finite {n. settle_step ((cancelRemaining ^^ n) sample_start) ((cancelRemaining ^^ Suc n) sample_start)} \<and>
   (\<exists>t. settle_step sample_start t)"
proof -
  have "(cancelRemaining ^^ 0) sample_start = createBatchConnectExecution [''a'', ''b'', ''a''] 1"
    by (simp add: sample_start_def)
  moreover have "execution_step ((cancelRemaining ^^ n) sample_start) ((cancelRemaining ^^ Suc n) sample_start)" for n
    by (simp add: cancels)
  moreover have "execution_outcome ((cancelRemaining ^^ 0) sample_start) = Pending"
    by code_simp
  ultimately show ?thesis
    using batch_execution_ends [of "\<lambda>n. (cancelRemaining ^^ n) sample_start" "[''a'', ''b'', ''a'']" 1 0] by simp
qed

section \<open>A cancellation that fails\<close>

lemma continue_worker_views:
  "bx_cancelRequested (continue_worker w s) = bx_cancelRequested s"
  "bx_workers (continue_worker w s) = (bx_workers s)[w := snd (take_next s)]"
  using take_next_facts [of s] take_next_returned [of s] by (simp_all add: continue_worker_def set_worker_def)

lemma update_keeps: "x \<in> set xs \<Longrightarrow> xs ! w \<noteq> x \<Longrightarrow> x \<in> set (xs[w := y])"
  by (metis in_set_conv_nth length_list_update nth_list_update_neq)

lemma item_views [simp]:
  "bx_cancelRequested (settle_item i s e st) = bx_cancelRequested st" "bx_cancelRequested (cancel_item i st) = bx_cancelRequested st"
  "bx_workers (cancel_item i st) = bx_workers st"
  by (simp_all add: settle_item_eq cancel_item_def)

lemma settle_step_persists:
  assumes "settle_step st t"
  shows "(bx_cancelRequested st \<longrightarrow> bx_cancelRequested t) \<and> (Threw \<in> set (bx_workers st) \<longrightarrow> Threw \<in> set (bx_workers t))"
  using assms
  by (cases rule: settle_step.cases)
     (auto simp: start_resolved_def start_rejected_def cancel_resolved_def cancel_rejected_def wait_resolved_def wait_rejected_def
       continue_worker_views set_worker_def Let_def intro!: update_keeps)

lemma execution_step_persists:
  assumes "execution_step st t" "execution_ok st"
  shows "(bx_cancelRequested st \<longrightarrow> bx_cancelRequested t) \<and> (Threw \<in> set (bx_workers st) \<longrightarrow> Threw \<in> set (bx_workers t))"
  using assms(1)
proof (cases rule: execution_step.cases)
  case settles
  then show ?thesis
    by (rule settle_step_persists)
next
  case (reports i h status)
  then show ?thesis
    by (simp add: reportStatus_def onItemStatus_def)
next
  case cancels
  then show ?thesis
    using cancelRemaining_eq [OF assms(2)]
    by (cases "bx_cancelRequested st") (simp_all add: cancelRemaining_def cancel_all_def)
qed

lemma idle_results:
  assumes "execution_ok st" "bx_cancelRequested st" "set (bx_workers st) \<subseteq> {Returned, Threw}" "i \<in> set (bx_queue st)"
  shows "bx_results st i \<noteq> None"
proof (cases "i \<in> set (bx_started st)")
  case True
  have "worker_id x = None" if "x \<in> set (bx_workers st)" for x
    using that assms(3) by force
  then have "\<not> works_on st w i" for w
    using nth_mem by (fastforce simp: works_on_def)
  then show ?thesis
    using workers_covered [OF _ True] assms(1) by (auto simp: execution_ok_def)
next
  case False
  have queue: "queue_ok st"
    using assms(1) by (simp add: execution_ok_def)
  then have "i \<in> set (drop (bx_nextIndex st) (bx_queue st))"
    using assms(4) False append_take_drop_id [of "bx_nextIndex st" "bx_queue st"]
    by (metis Un_iff queue_ok_def set_append)
  with queue assms(2) show ?thesis
    by (auto simp: queue_ok_def)
qed

lemma collect_all_results:
  assumes "execution_ok st" "\<forall>i \<in> set (bx_queue st). bx_results st i \<noteq> None"
  shows "map res_connectionId (collect_results st) = bx_queue st"
proof -
  have "res_connectionId (the (bx_results st i)) = i" if "i \<in> set (bx_queue st)" for i
    using that assms by (auto simp: execution_ok_def queue_ok_def)
  then show ?thesis
    unfolding collect_results_def concat_map_the [OF assms(2)] by (simp add: map_idI)
qed

text \<open>
  C18. When the start of an attempt completes only after the user has cancelled the batch and the
  cancellation of that attempt then fails, \<open>done\<close> is rejected and stays rejected, whatever happens
  later: the results are never delivered, although the attempt itself is recorded as cancelled and,
  once every worker has stopped, every requested connection has its result.
\<close>

theorem batch_failed_cancel_hides_results:
  assumes "execution_step\<^sup>*\<^sup>* (createBatchConnectExecution ids limit) st"
    and "worker_at st w (AwaitCancel i h)" and "execution_step\<^sup>*\<^sup>* (cancel_rejected w i st) t"
  shows "execution_outcome t = DoneRejected \<and> bx_results t i = Some (cancelled_result i) \<and>
    (set (bx_workers t) \<subseteq> {Returned, Threw} \<longrightarrow> map res_connectionId (collect_results t) = dedupe ids)"
proof -
  have w: "w < length (bx_workers st)" "bx_workers st ! w = AwaitCancel i h"
    using assms(2) by (simp_all add: worker_at_def)
  have "worker_ok (bx_cancelRequested st) (bx_results st) (AwaitCancel i h)"
    using reachable_facts [OF assms(1)] workers_at [OF _ assms(2)] by (simp add: execution_ok_def)
  then have first: "bx_cancelRequested (cancel_rejected w i st)" "Threw \<in> set (bx_workers (cancel_rejected w i st))"
      "bx_results (cancel_rejected w i st) i = Some (cancelled_result i)"
    using w by (simp_all add: cancel_rejected_def set_worker_def cancel_item_def settle_item_eq set_update_memI)
  have "execution_step st (cancel_rejected w i st)"
    using w by (intro settles cancel_bad)
  with assms(1) have start: "execution_step\<^sup>*\<^sup>* (createBatchConnectExecution ids limit) (cancel_rejected w i st)"
    by (rule rtranclp.rtrancl_into_rtrancl)
  have "bx_cancelRequested t \<and> Threw \<in> set (bx_workers t) \<and> bx_results t i = Some (cancelled_result i)"
    using assms(3)
  proof (induction rule: rtranclp_induct)
    case (step t u)
    then have "execution_ok t"
      using reachable_facts [OF rtranclp_trans [OF start]] by blast
    with step show ?case
      using execution_step_persists [of t u] execution_step_facts [of t u] by (metis domI map_le_def)
  qed (simp add: first)
  moreover have "execution_ok t" "bx_queue t = dedupe ids"
    using reachable_facts [OF rtranclp_trans [OF start assms(3)]] by simp_all
  ultimately show ?thesis
    using idle_results [of t] collect_all_results [of t] by (auto simp: execution_outcome_def)
qed

text \<open>Two connections, one at a time: the first is starting when the batch is cancelled.\<close>

definition sample_late :: "nat batch_execution" where
  "sample_late = start_resolved 0 ''a'' 7 (cancelRemaining sample_start)"

theorem batch_failed_cancel_hides_results_witness:
  "execution_outcome (cancel_rejected 0 ''a'' sample_late) = DoneRejected \<and>
   map res_connectionId (collect_results (cancel_rejected 0 ''a'' sample_late)) = [''a'', ''b'']"
proof -
  have "execution_step sample_start (cancelRemaining sample_start)"
    by (rule cancels)
  moreover have "execution_step (cancelRemaining sample_start) sample_late"
    unfolding sample_late_def by (intro settles start_ok) code_simp+
  ultimately have run: "execution_step\<^sup>*\<^sup>* (createBatchConnectExecution [''a'', ''b'', ''a''] 1) sample_late"
    unfolding sample_start_def by (rule converse_rtranclp_into_rtranclp [OF _ r_into_rtranclp])
  have late: "worker_at sample_late 0 (AwaitCancel ''a'' 7)"
    by code_simp
  have "bx_workers (cancel_rejected 0 ''a'' sample_late) = [Threw]" "dedupe [''a'', ''b'', ''a''] = [''a'', ''b'']"
    by code_simp+
  with batch_failed_cancel_hides_results [OF run late rtranclp.rtrancl_refl] show ?thesis
    by simp
qed

end
