(* ===== verification/Batch_Runtime.thy ===== *)
theory Batch_Runtime
  imports Batch_Guarantees Item_Close
begin

text \<open>
  How a batch meets the workspace: the state of the session behind a handle, the connections
  that count as open, the polling loop that waits for a handle
  (\<open>features/connections/batchConnectWorkspaceRuntime.ts\<close>), and the controller of the dialog
  (\<open>features/connections/useBatchConnectController.ts\<close>).

  \<open>tr\<close> is the translation function of \<open>shared/i18n\<close>; the texts themselves are data.
\<close>

section \<open>Sessions of the workspace\<close>

datatype BatchWorkspaceHandle =
    HandleCharacter (handle_id: string)
  | HandleRdp (handle_id: string)
  | HandleSsh (handle_id: string)
  | HandleVnc (handle_id: string)

record batch_step =
  bstep_error :: "string option"
  bstep_status :: "string option"

record BatchSshTab =
  bst_connectionId :: string
  bst_connectionStep :: "batch_step option"
  bst_error :: "string option"
  bst_id :: string
  bst_sessionId :: "string option"
  bst_type :: tab_type

record BatchCharacterTab =
  bct_error :: "string option"
  bct_id :: string
  bct_profileId :: string
  bct_sessionId :: "string option"
  bct_source :: "terminal_source option"
  bct_status :: string

record BatchRemoteSession =
  brs_connectionId :: string
  brs_error :: "string option"
  brs_id :: string
  brs_status :: string

record BatchWorkspaceSnapshot =
  bws_localTerminalTabs :: "BatchCharacterTab list"
  bws_rdpSessions :: "BatchRemoteSession list"
  bws_terminalTabs :: "BatchSshTab list"
  bws_vncSessions :: "BatchRemoteSession list"

record BatchHandleRuntimeState =
  bhs_error :: "string option"
  bhs_status :: BatchConnectItemStatus

abbreviation or_text :: "string option \<Rightarrow> string \<Rightarrow> string" where
  "or_text s d \<equiv> (case truthy s of None \<Rightarrow> d | Some t \<Rightarrow> t)"

text \<open>The status text of a failed character session, in UTF-8.\<close>

definition status_failed :: string where
  "status_failed = map char_of [0xE8, 0xBF, 0x9E, 0xE6, 0x8E, 0xA5, 0xE5, 0xA4, 0xB1, 0xE8, 0xB4, 0xA5 :: nat]"

definition sshTabRuntimeState :: "(string \<Rightarrow> string) \<Rightarrow> BatchSshTab \<Rightarrow> BatchHandleRuntimeState" where
  "sshTabRuntimeState tr tab =
     (if bst_type tab = TabTerminal \<and> truthy (bst_sessionId tab) \<noteq> None
      then \<lparr>bhs_error = None, bhs_status = BcSuccess\<rparr>
      else
        (let stepStatus = truthy (Option.bind (bst_connectionStep tab) bstep_status) in
         if stepStatus = Some ''prompt'' \<or> stepStatus = Some ''waiting_host_key''
         then \<lparr>bhs_error = None, bhs_status = BcWaitingUser\<rparr>
         else if stepStatus = Some ''error'' \<or> truthy (bst_error tab) \<noteq> None
         then \<lparr>bhs_error = Some (or_text (Option.bind (bst_connectionStep tab) bstep_error)
                  (or_text (bst_error tab) (tr ''batch.error.ssh''))), bhs_status = BcFailed\<rparr>
         else \<lparr>bhs_error = None, bhs_status = BcConnecting\<rparr>))"

definition characterTabRuntimeState :: "(string \<Rightarrow> string) \<Rightarrow> BatchCharacterTab \<Rightarrow> BatchHandleRuntimeState" where
  "characterTabRuntimeState tr tab =
     (if truthy (bct_sessionId tab) \<noteq> None then \<lparr>bhs_error = None, bhs_status = BcSuccess\<rparr>
      else if truthy (bct_error tab) \<noteq> None \<or> bct_status tab = status_failed
      then \<lparr>bhs_error = Some (or_text (bct_error tab) (tr ''batch.error.terminal'')), bhs_status = BcFailed\<rparr>
      else \<lparr>bhs_error = None, bhs_status = BcConnecting\<rparr>)"

definition remoteSessionRuntimeState :: "(string \<Rightarrow> string) \<Rightarrow> BatchRemoteSession \<Rightarrow> BatchHandleRuntimeState" where
  "remoteSessionRuntimeState tr session =
     (if brs_status session = ''error''
      then \<lparr>bhs_error = Some (or_text (brs_error session) (tr ''batch.error.remote'')), bhs_status = BcFailed\<rparr>
      else if brs_status session \<noteq> ''launching'' then \<lparr>bhs_error = None, bhs_status = BcSuccess\<rparr>
      else \<lparr>bhs_error = None, bhs_status = BcConnecting\<rparr>)"

definition collectBatchOpenConnectionIds :: "(string \<Rightarrow> string) \<Rightarrow> BatchWorkspaceSnapshot \<Rightarrow> string list" where
  "collectBatchOpenConnectionIds tr snapshot =
     dedupe
      (map bst_connectionId (filter (\<lambda>tab. bhs_status (sshTabRuntimeState tr tab) \<noteq> BcFailed) (bws_terminalTabs snapshot)) @
       map bct_profileId (filter (\<lambda>tab. (bct_source tab = Some SourceSerial \<or> bct_source tab = Some SourceTelnet) \<and>
          bhs_status (characterTabRuntimeState tr tab) \<noteq> BcFailed) (bws_localTerminalTabs snapshot)) @
       map brs_connectionId (filter (\<lambda>s. bhs_status (remoteSessionRuntimeState tr s) \<noteq> BcFailed) (bws_rdpSessions snapshot)) @
       map brs_connectionId (filter (\<lambda>s. bhs_status (remoteSessionRuntimeState tr s) \<noteq> BcFailed) (bws_vncSessions snapshot)))"

section \<open>Handles\<close>

fun batchWorkspaceItemId :: "BatchWorkspaceHandle \<Rightarrow> string" where
  "batchWorkspaceItemId (HandleCharacter i) = instanceItemId InstLocal i"
| "batchWorkspaceItemId (HandleRdp i) = instanceItemId InstRdp i"
| "batchWorkspaceItemId (HandleSsh i) = instanceItemId InstSsh i"
| "batchWorkspaceItemId (HandleVnc i) = instanceItemId InstVnc i"

definition batchWorkspaceClosePlan :: "BatchWorkspaceHandle \<Rightarrow> ClosePlan" where
  "batchWorkspaceClosePlan handle =
     \<lparr>plan_confirmation = None, plan_connectionIds = [],
      plan_localTabIds = (case handle of HandleCharacter i \<Rightarrow> [i] | _ \<Rightarrow> []),
      plan_rdpSessionIds = (case handle of HandleRdp i \<Rightarrow> [i] | _ \<Rightarrow> []),
      plan_splitGroup = False, plan_splitPaneIds = None,
      plan_sshTabIds = (case handle of HandleSsh i \<Rightarrow> [i] | _ \<Rightarrow> []),
      plan_transferIdsToCancel = None,
      plan_vncSessionIds = (case handle of HandleVnc i \<Rightarrow> [i] | _ \<Rightarrow> [])\<rparr>"

fun batchWorkspaceHandleState ::
  "(string \<Rightarrow> string) \<Rightarrow> BatchWorkspaceHandle \<Rightarrow> BatchWorkspaceSnapshot \<Rightarrow> BatchHandleRuntimeState" where
  "batchWorkspaceHandleState tr (HandleSsh i) snapshot =
     (case find (\<lambda>item. bst_id item = i) (bws_terminalTabs snapshot) of
        Some tab \<Rightarrow> sshTabRuntimeState tr tab
      | None \<Rightarrow> \<lparr>bhs_error = Some (tr ''batch.error.sshClosed''), bhs_status = BcFailed\<rparr>)"
| "batchWorkspaceHandleState tr (HandleCharacter i) snapshot =
     (case find (\<lambda>item. bct_id item = i) (bws_localTerminalTabs snapshot) of
        Some tab \<Rightarrow> characterTabRuntimeState tr tab
      | None \<Rightarrow> \<lparr>bhs_error = Some (tr ''batch.error.terminalClosed''), bhs_status = BcFailed\<rparr>)"
| "batchWorkspaceHandleState tr (HandleRdp i) snapshot =
     (case find (\<lambda>item. brs_id item = i) (bws_rdpSessions snapshot) of
        Some session \<Rightarrow> remoteSessionRuntimeState tr session
      | None \<Rightarrow> \<lparr>bhs_error = Some (tr ''batch.error.remoteClosed''), bhs_status = BcFailed\<rparr>)"
| "batchWorkspaceHandleState tr (HandleVnc i) snapshot =
     (case find (\<lambda>item. brs_id item = i) (bws_vncSessions snapshot) of
        Some session \<Rightarrow> remoteSessionRuntimeState tr session
      | None \<Rightarrow> \<lparr>bhs_error = Some (tr ''batch.error.remoteClosed''), bhs_status = BcFailed\<rparr>)"

section \<open>Waiting\<close>

datatype wait_outcome = WaitSuccess | WaitFailed string

text \<open>
  The polling loop over the snapshots successive polls read: the statuses it reports, and the
  outcome, if the polls so far settle it.
\<close>

fun wait_from :: "(string \<Rightarrow> string) \<Rightarrow> BatchWorkspaceHandle \<Rightarrow> BatchConnectItemStatus option \<Rightarrow> BatchWorkspaceSnapshot list
    \<Rightarrow> BatchConnectItemStatus list \<times> wait_outcome option" where
  "wait_from tr handle lastStatus [] = ([], None)"
| "wait_from tr handle lastStatus (snapshot # polls) =
     (let state = batchWorkspaceHandleState tr handle snapshot in
      if bhs_status state = BcSuccess then ([], Some WaitSuccess)
      else if bhs_status state = BcFailed
      then ([], Some (WaitFailed (or_text (bhs_error state) (tr ''batch.error.connection''))))
      else if Some (bhs_status state) \<noteq> lastStatus
      then (let (reports, outcome) = wait_from tr handle (Some (bhs_status state)) polls
            in (bhs_status state # reports, outcome))
      else wait_from tr handle lastStatus polls)"

definition waitForBatchWorkspaceHandle ::
  "(string \<Rightarrow> string) \<Rightarrow> BatchWorkspaceHandle \<Rightarrow> BatchWorkspaceSnapshot list
    \<Rightarrow> BatchConnectItemStatus list \<times> wait_outcome option" where
  "waitForBatchWorkspaceHandle tr handle polls = wait_from tr handle None polls"

lemma runtime_states:
  "bhs_status (sshTabRuntimeState tr tab) \<in> {BcSuccess, BcFailed, BcConnecting, BcWaitingUser}"
  "bhs_status (characterTabRuntimeState tr ctab) \<in> {BcSuccess, BcFailed, BcConnecting, BcWaitingUser}"
  "bhs_status (remoteSessionRuntimeState tr session) \<in> {BcSuccess, BcFailed, BcConnecting, BcWaitingUser}"
  by (simp_all add: sshTabRuntimeState_def characterTabRuntimeState_def remoteSessionRuntimeState_def Let_def)

lemma handle_status:
  "bhs_status (batchWorkspaceHandleState tr handle snapshot) \<in> {BcSuccess, BcFailed, BcConnecting, BcWaitingUser}"
  using runtime_states by (cases handle) (auto split: option.splits)

definition pending_poll :: "(string \<Rightarrow> string) \<Rightarrow> BatchWorkspaceHandle \<Rightarrow> BatchWorkspaceSnapshot \<Rightarrow> bool" where
  "pending_poll tr handle snapshot \<longleftrightarrow> isActiveStatus (bhs_status (batchWorkspaceHandleState tr handle snapshot))"

definition settled_outcome :: "(string \<Rightarrow> string) \<Rightarrow> BatchHandleRuntimeState \<Rightarrow> wait_outcome" where
  "settled_outcome tr state =
     (if bhs_status state = BcSuccess then WaitSuccess
      else WaitFailed (or_text (bhs_error state) (tr ''batch.error.connection'')))"

lemma wait_from_reference:
  "wait_from tr handle previous polls =
    (let statuses = map (\<lambda>p. bhs_status (batchWorkspaceHandleState tr handle p)) (takeWhile (pending_poll tr handle) polls)
     in ((case previous of None \<Rightarrow> remdups_adj statuses | Some s \<Rightarrow> tl (remdups_adj (s # statuses))),
        map_option (\<lambda>p. settled_outcome tr (batchWorkspaceHandleState tr handle p))
          (first_of (dropWhile (pending_poll tr handle) polls))))"
proof (induction tr handle previous polls rule: wait_from.induct)
  case (2 tr handle previous snapshot polls)
  let ?s = "batchWorkspaceHandleState tr handle snapshot"
  show ?case
  proof (cases "isActiveStatus (bhs_status ?s)")
    case False
    then have "bhs_status ?s = BcSuccess \<or> bhs_status ?s = BcFailed"
      using handle_status [of tr handle snapshot] by (auto simp: isActiveStatus_def)
    with False show ?thesis
      by (auto simp: pending_poll_def settled_outcome_def Let_def split: option.splits)
  next
    case True
    then have "bhs_status ?s \<noteq> BcSuccess" "bhs_status ?s \<noteq> BcFailed"
      by (auto simp: isActiveStatus_def)
    with True "2.IH" show ?thesis
      by (auto simp: pending_poll_def Let_def remdups_adj_Cons split: option.splits list.splits)
  qed
qed (simp add: Let_def split: option.splits)

text \<open>
  Waiting for a session reports each change of its state once and in order, and nothing
  else: the statuses reported are those of the polls before the session settles with adjacent
  repetitions dropped, and the outcome is that of the first poll that finds it connected, failed
  or gone. Every failure carries a text, as long as the translations are not empty.
\<close>

theorem batch_wait_reports_changes:
  assumes "\<And>key. tr key \<noteq> []"
  shows "waitForBatchWorkspaceHandle tr handle polls =
    (remdups_adj (map (\<lambda>p. bhs_status (batchWorkspaceHandleState tr handle p)) (takeWhile (pending_poll tr handle) polls)),
     map_option (\<lambda>p. settled_outcome tr (batchWorkspaceHandleState tr handle p))
       (first_of (dropWhile (pending_poll tr handle) polls))) \<and>
    snd (waitForBatchWorkspaceHandle tr handle polls) \<noteq> Some (WaitFailed [])"
proof -
  have "or_text s (tr key) \<noteq> []" for s key
    using assms by (auto simp: truthy_def split: option.splits)
  then show ?thesis
    unfolding waitForBatchWorkspaceHandle_def wait_from_reference by (auto simp: Let_def settled_outcome_def)
qed

definition sample_ssh_tab :: "string option \<Rightarrow> string option \<Rightarrow> BatchSshTab" where
  "sample_ssh_tab stepStatus session =
     \<lparr>bst_connectionId = ''c'', bst_connectionStep = Some \<lparr>bstep_error = None, bstep_status = stepStatus\<rparr>,
      bst_error = None, bst_id = ''t'', bst_sessionId = session,
      bst_type = (if session = None then TabConnecting else TabTerminal)\<rparr>"

definition sample_poll :: "BatchSshTab list \<Rightarrow> BatchWorkspaceSnapshot" where
  "sample_poll tabs = \<lparr>bws_localTerminalTabs = [], bws_rdpSessions = [], bws_terminalTabs = tabs, bws_vncSessions = []\<rparr>"

theorem batch_wait_reports_changes_witness:
  "waitForBatchWorkspaceHandle (\<lambda>key. key @ ''!'') (HandleSsh ''t'')
     [sample_poll [sample_ssh_tab None None], sample_poll [sample_ssh_tab None None],
      sample_poll [sample_ssh_tab (Some ''prompt'') None], sample_poll []]
   = ([BcConnecting, BcWaitingUser], Some (WaitFailed ''batch.error.sshClosed!''))"
proof -
  let ?polls = "[sample_poll [sample_ssh_tab None None], sample_poll [sample_ssh_tab None None],
      sample_poll [sample_ssh_tab (Some ''prompt'') None], sample_poll []]"
  have "waitForBatchWorkspaceHandle (\<lambda>key. key @ ''!'') (HandleSsh ''t'') ?polls =
    (remdups_adj (map (\<lambda>p. bhs_status (batchWorkspaceHandleState (\<lambda>key. key @ ''!'') (HandleSsh ''t'') p))
        (takeWhile (pending_poll (\<lambda>key. key @ ''!'') (HandleSsh ''t'')) ?polls)),
     map_option (\<lambda>p. settled_outcome (\<lambda>key. key @ ''!'') (batchWorkspaceHandleState (\<lambda>key. key @ ''!'') (HandleSsh ''t'') p))
       (first_of (dropWhile (pending_poll (\<lambda>key. key @ ''!'') (HandleSsh ''t'')) ?polls)))"
    using batch_wait_reports_changes [of "\<lambda>key. key @ ''!''" "HandleSsh ''t''" ?polls] by simp
  also have "\<dots> = ([BcConnecting, BcWaitingUser], Some (WaitFailed ''batch.error.sshClosed!''))"
    by code_simp
  finally show ?thesis .
qed

text \<open>
  A batch never preselects a connection that already has a session in the workspace: no
  connection with an SSH, serial, Telnet, RDP or VNC session that is not in a failed state is
  among the selected ones, whatever the folders and the limit.
\<close>

theorem batch_preview_skips_open:
  "set (bpp_selectedConnectionIds (buildBatchConnectPreviewPlan connections groups inc
       (collectBatchOpenConnectionIds tr snapshot) top_id limit)) \<inter>
    (bst_connectionId ` {tab \<in> set (bws_terminalTabs snapshot). bhs_status (sshTabRuntimeState tr tab) \<noteq> BcFailed} \<union>
     bct_profileId ` {tab \<in> set (bws_localTerminalTabs snapshot).
       (bct_source tab = Some SourceSerial \<or> bct_source tab = Some SourceTelnet) \<and>
       bhs_status (characterTabRuntimeState tr tab) \<noteq> BcFailed} \<union>
     brs_connectionId ` {s \<in> set (bws_rdpSessions snapshot) \<union> set (bws_vncSessions snapshot).
       bhs_status (remoteSessionRuntimeState tr s) \<noteq> BcFailed}) = {}"
  unfolding preview_selected collectBatchOpenConnectionIds_def
  by (auto dest!: in_set_takeD)

section \<open>The controller of the dialog\<close>

text \<open>
  \<open>executionRef\<close> is set exactly while \<open>bk_running\<close>; \<open>bk_execution\<close> is the execution of the
  current generation, whose callbacks the controller accepts, also when \<open>done\<close> has been rejected while
  some of its workers go on. Callbacks of executions of older generations are dropped by the
  generation test and are no part of the state. \<open>bk_rejected\<close> is not in the code: it records, for the
  statements below, that a late cancellation has been rejected since the dialog was last started or
  dismissed; no operation reads it.
\<close>

record 'h batch_controller =
  bk_groupId :: "string option"
  bk_run :: "BatchConnectRun option"
  bk_running :: bool
  bk_execution :: "'h batch_execution option"
  bk_generation :: nat
  bk_handles :: "string \<rightharpoonup> 'h"
  bk_rejected :: bool

definition initial_controller :: "'h batch_controller" where
  "initial_controller = \<lparr>bk_groupId = None, bk_run = None, bk_running = False, bk_execution = None,
     bk_generation = 0, bk_handles = (\<lambda>_. None), bk_rejected = False\<rparr>"

definition launch :: "string list \<Rightarrow> 'h batch_controller \<Rightarrow> 'h batch_controller" where
  "launch connectionIds c =
     (let execution = createBatchConnectExecution connectionIds batchConnectMaxConcurrentAttempts in
      c\<lparr>bk_running := True, bk_execution := Some execution,
        bk_run := map_option (\<lambda>r. apply_events r (bx_events execution)) (bk_run c)\<rparr>)"

definition start_batch :: "string \<Rightarrow> string list \<Rightarrow> 'h batch_controller \<Rightarrow> 'h batch_controller \<times> bool" where
  "start_batch nextGroupId connectionIds c =
     (if bk_running c \<or> connectionIds = [] then (c, False)
      else (launch connectionIds (c\<lparr>bk_generation := bk_generation c + 1, bk_handles := (\<lambda>_. None),
              bk_groupId := Some nextGroupId, bk_run := Some (createBatchConnectRun connectionIds)\<rparr>), True))"

definition failed_ids :: "BatchConnectRun \<Rightarrow> string list" where
  "failed_ids run = map bri_connectionId (filter (\<lambda>item. bri_status item = BcFailed) (run_items run))"

definition retryFailed :: "'h batch_controller \<Rightarrow> 'h batch_controller \<times> bool" where
  "retryFailed c =
     (case bk_run c of
        None \<Rightarrow> (c, False)
      | Some run \<Rightarrow>
          if bk_running c \<or> failed_ids run = [] then (c, False)
          else (launch (failed_ids run) (c\<lparr>bk_generation := bk_generation c + 1,
                  bk_run := Some (retryFailedBatchConnectItems run)\<rparr>), True))"

definition focus_batch :: "string \<Rightarrow> 'h batch_controller \<Rightarrow> 'h option" where
  "focus_batch connectionId c = bk_handles c connectionId"

definition dismiss :: "'h batch_controller \<Rightarrow> 'h batch_controller \<times> bool" where
  "dismiss c =
     (if bk_running c then (c, False)
      else (c\<lparr>bk_generation := bk_generation c + 1, bk_handles := (\<lambda>_. None), bk_groupId := None,
              bk_run := None, bk_execution := None\<rparr>, True))"

definition batch_active :: "'h batch_controller \<Rightarrow> bool" where
  "batch_active c = (case bk_run c of
      None \<Rightarrow> False
    | Some run \<Rightarrow> \<exists>item \<in> set (run_items run).
        bri_status item = BcQueued \<or> bri_status item = BcConnecting \<or> bri_status item = BcWaitingUser)"

text \<open>The execution moved from \<open>st\<close> to \<open>t\<close>: the new callbacks update the run.\<close>

definition observe :: "'h batch_execution \<Rightarrow> 'h batch_execution \<Rightarrow> 'h batch_controller \<Rightarrow> 'h batch_controller" where
  "observe st t c = c\<lparr>bk_execution := Some t,
     bk_run := map_option (\<lambda>r. apply_events r (drop (length (bx_events st)) (bx_events t))) (bk_run c)\<rparr>"

text \<open>A dialog that was started or dismissed has nothing rejected yet.\<close>

definition renewed :: "'h batch_controller \<times> bool \<Rightarrow> 'h batch_controller" where
  "renewed r = (if snd r then (fst r)\<lparr>bk_rejected := False\<rparr> else fst r)"

inductive controller_step :: "'h batch_controller \<Rightarrow> 'h batch_controller \<Rightarrow> bool" where
  starts: "controller_step c (renewed (start_batch g ids c))"
| retries: "controller_step c (fst (retryFailed c))"
| dismisses: "controller_step c (renewed (dismiss c))"
| cancels_rest: "bk_running c \<Longrightarrow> bk_execution c = Some st \<Longrightarrow>
    controller_step c (observe st (cancelRemaining st) c)"
| handle_opened: "bk_execution c = Some st \<Longrightarrow> w < length (bx_workers st) \<Longrightarrow> bx_workers st ! w = AwaitStart i \<Longrightarrow>
    controller_step c (observe st (start_resolved w i h st) (c\<lparr>bk_handles := (bk_handles c)(i \<mapsto> h)\<rparr>))"
| not_opened: "bk_execution c = Some st \<Longrightarrow> w < length (bx_workers st) \<Longrightarrow> bx_workers st ! w = AwaitStart i \<Longrightarrow>
    controller_step c (observe st (start_rejected w i message st) c)"
| late_cancelled: "bk_execution c = Some st \<Longrightarrow> w < length (bx_workers st) \<Longrightarrow> bx_workers st ! w = AwaitCancel i h \<Longrightarrow>
    controller_step c (observe st (cancel_resolved w i st) c)"
| late_rejected: "bk_execution c = Some st \<Longrightarrow> w < length (bx_workers st) \<Longrightarrow> bx_workers st ! w = AwaitCancel i h \<Longrightarrow>
    controller_step c ((observe st (cancel_rejected w i st) c)\<lparr>bk_rejected := True\<rparr>)"
| reported: "bk_execution c = Some st \<Longrightarrow> AwaitOutcome i h \<in> set (bx_workers st) \<Longrightarrow> isActiveStatus status \<Longrightarrow>
    controller_step c (observe st (reportStatus i status st) c)"
| waited: "bk_execution c = Some st \<Longrightarrow> w < length (bx_workers st) \<Longrightarrow> bx_workers st ! w = AwaitOutcome i h \<Longrightarrow>
    controller_step c (observe st (wait_resolved w i success err st) c)"
| wait_threw: "bk_execution c = Some st \<Longrightarrow> w < length (bx_workers st) \<Longrightarrow> bx_workers st ! w = AwaitOutcome i h \<Longrightarrow>
    controller_step c (observe st (wait_rejected w i message st) c)"
| finished: "bk_execution c = Some st \<Longrightarrow> execution_outcome st \<noteq> Pending \<Longrightarrow>
    controller_step c (c\<lparr>bk_running := False\<rparr>)"

section \<open>Callbacks only accumulate\<close>

definition extends :: "'h batch_execution \<Rightarrow> 'h batch_execution \<Rightarrow> bool" where
  "extends st t \<longleftrightarrow> (\<exists>evs. bx_events t = bx_events st @ evs)"

lemma extends_refl [simp]: "extends st st"
  by (simp add: extends_def)

lemma extends_trans: "extends a b \<Longrightarrow> extends b c \<Longrightarrow> extends a c"
  by (auto simp: extends_def)

lemma take_next_extends: "extends st (fst (take_next st))"
proof (induction st rule: take_next.induct)
  case (1 st)
  let ?i = "bx_queue st ! bx_nextIndex st"
  let ?s = "st\<lparr>bx_nextIndex := bx_nextIndex st + 1\<rparr>"
  show ?case
  proof (cases "bx_cancelRequested st \<or> length (bx_queue st) \<le> bx_nextIndex st \<or> bx_results st ?i = None")
    case True
    then show ?thesis
      by (auto simp: take_next.simps [of st] Let_def onItemStatus_def extends_def)
  next
    case False
    then have "take_next st = take_next ?s"
      by (simp add: take_next.simps [of st] Let_def)
    with "1.IH" [of "bx_nextIndex st" ?s ?i] False show ?thesis
      by (auto simp: extends_def)
  qed
qed

lemma continue_worker_extends: "extends st s \<Longrightarrow> extends st (continue_worker w s)"
  using take_next_extends [of s] by (auto simp: continue_worker_def set_worker_def extends_def)

lemma settle_extends:
  "extends st (settle_item i s e st)" "extends st (drop_active i st)"
  "extends st (cancel_item i st)" "extends st (drop_active i (settle_item i s e st))"
  "extends st (cancel_item i (drop_active i st))"
  by (auto simp: extends_def cancel_item_def)

lemma execution_step_extends:
  assumes "execution_step st t" and "execution_ok st"
  shows "extends st t"
  using assms(1)
proof (cases rule: execution_step.cases)
  case settles
  then show ?thesis
    by (cases rule: settle_step.cases)
      (auto simp: start_resolved_def start_rejected_def cancel_resolved_def cancel_rejected_def wait_resolved_def
        wait_rejected_def set_worker_def Let_def settle_extends intro!: continue_worker_extends,
       auto simp: extends_def cancel_item_def)
next
  case (reports i h status)
  then show ?thesis
    by (auto simp: extends_def reportStatus_def onItemStatus_def)
next
  case cancels
  then show ?thesis
    using cancelRemaining_eq [OF assms(2)]
    by (cases "bx_cancelRequested st") (auto simp: extends_def cancelRemaining_def cancel_all_def)
qed

lemma apply_events_append: "apply_events (apply_events r a) b = apply_events r (a @ b)"
  by (simp add: apply_events_def)

lemma observe_run:
  assumes "extends st t" and "bk_run c = Some (apply_events r (bx_events st))"
  shows "bk_run (observe st t c) = Some (apply_events r (bx_events t))"
  using assms by (auto simp: observe_def extends_def apply_events_append)

lemma ids_apply_events [simp]: "map bri_connectionId (run_items (apply_events r evs)) = map bri_connectionId (run_items r)"
  by (auto simp: run_items_apply_events split: option.splits)

section \<open>What the dialog shows\<close>

definition threw_free :: "'h batch_execution \<Rightarrow> bool" where
  "threw_free st \<longleftrightarrow> Threw \<notin> set (bx_workers st)"

definition launched_from :: "BatchConnectRun \<Rightarrow> 'h batch_execution \<Rightarrow> bool" where
  "launched_from r st \<longleftrightarrow> set (bx_queue st) \<subseteq> bri_connectionId ` set (run_items r) \<and>
     (\<forall>item \<in> set (run_items r). bri_connectionId item \<notin> set (bx_queue st) \<longrightarrow>
        bri_status item = BcSuccess \<or> bri_status item = BcCancelled)"

definition controller_ok :: "'h batch_controller \<Rightarrow> bool" where
  "controller_ok c =
     (case bk_execution c of
        None \<Rightarrow> \<not> bk_running c \<and> bk_run c = None
      | Some st \<Rightarrow> execution_ok st \<and> returned_ok st \<and> threw_free st \<and> bx_workers st \<noteq> [] \<and>
          (\<exists>r. bk_run c = Some (apply_events r (bx_events st)) \<and> launched_from r st) \<and>
          (\<not> bk_running c \<longrightarrow> execution_outcome st \<noteq> Pending))"

lemma threw_free_update: "threw_free st \<Longrightarrow> x \<noteq> Threw \<Longrightarrow> Threw \<notin> set ((bx_workers st)[w := x])"
  using set_update_subset_insert [of "bx_workers st" w x] by (auto simp: threw_free_def)

lemma take_next_not_threw: "snd (take_next st) \<noteq> Threw"
proof (induction st rule: take_next.induct)
  case (1 st)
  let ?i = "bx_queue st ! bx_nextIndex st"
  let ?s = "st\<lparr>bx_nextIndex := bx_nextIndex st + 1\<rparr>"
  show ?case
  proof (cases "bx_cancelRequested st \<or> length (bx_queue st) \<le> bx_nextIndex st \<or> bx_results st ?i = None")
    case False
    then have "take_next st = take_next ?s"
      by (simp add: take_next.simps [of st] Let_def)
    with "1.IH" [of "bx_nextIndex st" ?s ?i] False show ?thesis
      by auto
  qed (auto simp: take_next.simps [of st] Let_def)
qed

lemma continue_worker_threw_free: "threw_free st \<Longrightarrow> threw_free (continue_worker w st)"
  using take_next_facts [of st] threw_free_update [OF _ take_next_not_threw, of st w]
  by (simp add: continue_worker_def set_worker_def threw_free_def)

lemma threw_free_congs [simp]:
  "threw_free (settle_item i s e st) = threw_free st" "threw_free (drop_active i st) = threw_free st"
  "threw_free (cancel_item i st) = threw_free st"
  by (simp_all add: threw_free_def cancel_item_def)

lemma observe_ok:
  assumes ok: "controller_ok c" and st: "bk_execution c = Some st" and step: "execution_step st t"
    and t: "threw_free t" and running: "bk_running c"
  shows "controller_ok (observe st t (c\<lparr>bk_handles := f\<rparr>))"
proof -
  have eok: "execution_ok st" and rok: "returned_ok st" and ws: "bx_workers st \<noteq> []"
    using ok st by (simp_all add: controller_ok_def)
  obtain r where r: "bk_run c = Some (apply_events r (bx_events st))" "launched_from r st"
    using ok st by (auto simp: controller_ok_def)
  have "bk_run (observe st t (c\<lparr>bk_handles := f\<rparr>)) = Some (apply_events r (bx_events t))"
    using observe_run [OF execution_step_extends [OF step eok], of "c\<lparr>bk_handles := f\<rparr>" r] r(1) by simp
  moreover have "execution_ok t" "returned_ok t" "bx_queue t = bx_queue st" "length (bx_workers t) = length (bx_workers st)"
    using execution_step_ok [OF step eok] execution_step_returned [OF step eok rok] execution_step_facts [OF step eok]
    by simp_all
  moreover have "bx_workers t \<noteq> []"
    using ws calculation(5) by (metis length_0_conv)
  ultimately show ?thesis
    using t r(2) running by (auto simp: controller_ok_def observe_def launched_from_def)
qed

lemma observe_ok_same:
  assumes "controller_ok c" "bk_execution c = Some st" "execution_step st t" "threw_free t" "bk_running c"
  shows "controller_ok (observe st t c)"
  using observe_ok [OF assms, of "bk_handles c"] by simp

lemma awaiting_running:
  assumes "controller_ok c" "bk_execution c = Some st" "x \<in> set (bx_workers st)" "x \<noteq> Returned"
  shows "bk_running c"
proof -
  have "execution_outcome st = Pending"
    using assms by (auto simp: controller_ok_def execution_outcome_def threw_free_def)
  then show ?thesis
    using assms(1,2) by (auto simp: controller_ok_def)
qed

lemma controller_threw_free: "controller_ok c \<Longrightarrow> bk_execution c = Some st \<Longrightarrow> threw_free st"
  by (simp add: controller_ok_def)

lemma spawn_worker_threw_free: "threw_free st \<Longrightarrow> threw_free (spawn_worker st)"
  using take_next_facts [of st] take_next_not_threw [of st] by (auto simp: threw_free_def spawn_worker_def Let_def)

lemma spawn_workers_threw_free: "threw_free ((spawn_worker ^^ n) (fresh_execution queue))"
  by (induction n) (simp_all add: spawn_worker_threw_free, simp add: threw_free_def fresh_execution_def)

lemma launch_ok:
  assumes "ids \<noteq> []" and "bk_run c = Some r" and "set ids \<subseteq> bri_connectionId ` set (run_items r)"
    and "\<And>item. item \<in> set (run_items r) \<Longrightarrow> bri_connectionId item \<notin> set ids \<Longrightarrow>
      bri_status item = BcSuccess \<or> bri_status item = BcCancelled"
  shows "controller_ok (launch ids c)"
proof -
  let ?n = "workerCount (length (dedupe ids)) batchConnectMaxConcurrentAttempts"
  have "dedupe ids \<noteq> []"
    using assms(1) set_dedupe [of ids] by (metis set_empty)
  then have "?n \<noteq> 0"
    by (simp add: workerCount_def batchConnectMaxConcurrentAttempts_def)
  then have "bx_workers (createBatchConnectExecution ids batchConnectMaxConcurrentAttempts) \<noteq> []"
    using createBatchConnectExecution_facts(3) by (metis length_0_conv)
  moreover have "threw_free (createBatchConnectExecution ids batchConnectMaxConcurrentAttempts)"
    by (simp add: createBatchConnectExecution_def Let_def spawn_workers_threw_free)
  ultimately show ?thesis
    using assms(2-4) createBatchConnectExecution_ok createBatchConnectExecution_facts(1)
    by (auto simp: controller_ok_def launch_def Let_def launched_from_def createBatchConnectExecution_facts(2))
qed

text \<open>Once the execution is over every item of the run is settled.\<close>

lemma idle_run_settled:
  assumes ok: "controller_ok c" and idle: "\<not> bk_running c" and run: "bk_run c = Some run"
    and item: "item \<in> set (run_items run)"
  shows "bri_status item = BcSuccess \<or> bri_status item = BcFailed \<or> bri_status item = BcCancelled"
proof -
  obtain st where st: "bk_execution c = Some st"
    using ok run by (cases "bk_execution c") (auto simp: controller_ok_def)
  then obtain r where r: "run = apply_events r (bx_events st)" "launched_from r st"
    using ok run by (auto simp: controller_ok_def)
  have parts: "execution_ok st" "returned_ok st" "threw_free st" "bx_workers st \<noteq> []" "execution_outcome st \<noteq> Pending"
    using ok st idle by (simp_all add: controller_ok_def)
  then have "execution_outcome st = DoneWith (collect_results st)"
    by (auto simp: execution_outcome_def threw_free_def split: if_splits)
  with parts have all: "\<forall>i \<in> set (bx_queue st). bx_results st i \<noteq> None"
    using done_results [of st "collect_results st"] by blast
  obtain old where old: "old \<in> set (run_items r)"
    "item = (case last_event (bx_events st) (bri_connectionId old) of None \<Rightarrow> old
      | Some (s, e) \<Rightarrow> old\<lparr>bri_error := (if s = BcFailed then e else None), bri_status := s\<rparr>)"
    using item by (auto simp: r(1) run_items_apply_events)
  show ?thesis
  proof (cases "bri_connectionId old \<in> set (bx_queue st)")
    case True
    with all obtain res where res: "bx_results st (bri_connectionId old) = Some res"
      by auto
    then have "last_event (bx_events st) (bri_connectionId old) = Some (res_status res, res_error res)"
      "is_final (res_status res) (res_error res)"
      using parts(1) True by (auto simp: execution_ok_def events_ok_def queue_ok_def)
    then show ?thesis
      using old(2) by (auto simp: is_final_def)
  next
    case False
    then have "last_event (bx_events st) (bri_connectionId old) = None"
      using parts(1) by (auto simp: execution_ok_def events_ok_def last_event_def map_of_eq_None_iff)
    then show ?thesis
      using old r(2) False by (auto simp: launched_from_def)
  qed
qed

lemma controller_ok_rejected [simp]: "controller_ok (c\<lparr>bk_rejected := b\<rparr>) = controller_ok c"
  by (simp add: controller_ok_def split: option.split)

lemma rejected_kept [simp]:
  "bk_rejected (observe st t c) = bk_rejected c" "bk_rejected (launch ids c) = bk_rejected c"
  "bk_rejected (fst (retryFailed c)) = bk_rejected c"
  by (simp_all add: observe_def launch_def retryFailed_def Let_def split: option.split)

lemma start_batch_fresh: "snd (start_batch g ids c) \<Longrightarrow> controller_ok (fst (start_batch g ids c))"
  by (auto simp: start_batch_def createBatchConnectRun_def image_image intro!: launch_ok split: if_splits)

lemma dismiss_fresh: "snd (dismiss c) \<Longrightarrow> controller_ok (fst (dismiss c))"
  by (auto simp: dismiss_def controller_ok_def split: if_splits)

lemma refused [simp]: "\<not> snd (start_batch g ids c) \<Longrightarrow> fst (start_batch g ids c) = c" "\<not> snd (dismiss c) \<Longrightarrow> fst (dismiss c) = c"
  by (auto simp: start_batch_def dismiss_def split: if_splits)

lemma renewed_ok:
  assumes "bk_rejected c \<or> controller_ok c"
  shows "bk_rejected (renewed (start_batch g ids c)) \<or> controller_ok (renewed (start_batch g ids c))"
    and "bk_rejected (renewed (dismiss c)) \<or> controller_ok (renewed (dismiss c))"
  using assms start_batch_fresh [of g ids c] dismiss_fresh [of c] by (auto simp: renewed_def)

lemma bri_connectionId_retryItem [simp]: "bri_connectionId (retryItem item) = bri_connectionId item"
  by (simp add: retryItem_def)

lemma retryFailed_ok:
  assumes ok: "controller_ok c"
  shows "controller_ok (fst (retryFailed c))"
proof (cases "bk_run c")
  case None
  with ok show ?thesis
    by (simp add: retryFailed_def)
next
  case (Some run)
  show ?thesis
  proof (cases "bk_running c \<or> failed_ids run = []")
    case True
    with Some ok show ?thesis
      by (simp add: retryFailed_def)
  next
    case False
    then have some: "\<exists>item \<in> set (run_items run). bri_status item = BcFailed"
      by (auto simp: failed_ids_def filter_empty_conv)
    have items: "run_items (retryFailedBatchConnectItems run) = map retryItem (run_items run)"
      using some by (simp add: retryFailedBatchConnectItems_def)
    have settled: "bri_status item = BcSuccess \<or> bri_status item = BcCancelled"
      if "item \<in> set (map retryItem (run_items run))" "bri_connectionId item \<notin> set (failed_ids run)" for item
      using that idle_run_settled [OF ok _ Some] False by (auto simp: retryItem_def failed_ids_def split: if_splits)
    have known: "set (failed_ids run) \<subseteq> bri_connectionId ` set (map retryItem (run_items run))"
      by (auto simp: failed_ids_def image_image)
    let ?c = "c\<lparr>bk_generation := bk_generation c + 1, bk_run := Some (retryFailedBatchConnectItems run)\<rparr>"
    have "controller_ok (launch (failed_ids run) ?c)"
    proof (rule launch_ok)
      show "bk_run ?c = Some (retryFailedBatchConnectItems run)"
        by simp
    qed (use False known settled in \<open>simp_all only: items, simp_all\<close>)
    then show ?thesis
      using False Some by (simp add: retryFailed_def)
  qed
qed

lemma controller_step_ok:
  assumes "controller_step c c'" and ok: "controller_ok c"
  shows "bk_rejected c' \<or> controller_ok c'"
  using assms(1)
proof (cases rule: controller_step.cases)
  case (cancels_rest st)
  have "threw_free (cancelRemaining st)"
    using controller_threw_free [OF ok cancels_rest(3)] ok cancels_rest(3) cancelRemaining_eq [of st]
    by (cases "bx_cancelRequested st") (auto simp: threw_free_def cancelRemaining_def controller_ok_def)
  then show ?thesis
    using observe_ok_same [OF ok cancels_rest(3) cancels] cancels_rest by simp
next
  case (handle_opened st w i h)
  have "threw_free (start_resolved w i h st)"
    using controller_threw_free [OF ok handle_opened(2)] threw_free_update [of st]
    by (auto simp: threw_free_def start_resolved_def set_worker_def Let_def)
  moreover have "bk_running c"
    using awaiting_running [OF ok handle_opened(2), of "AwaitStart i"] handle_opened nth_mem by fastforce
  ultimately show ?thesis
    using observe_ok [OF ok handle_opened(2) settles [OF start_ok]] handle_opened by simp
next
  case (not_opened st w i message)
  have "bk_running c"
    using awaiting_running [OF ok not_opened(2), of "AwaitStart i"] not_opened nth_mem by fastforce
  then show ?thesis
    using observe_ok_same [OF ok not_opened(2) settles [OF start_bad]] not_opened controller_threw_free [OF ok not_opened(2)]
    by (simp add: start_rejected_def continue_worker_threw_free)
next
  case (late_cancelled st w i h)
  have "bk_running c"
    using awaiting_running [OF ok late_cancelled(2), of "AwaitCancel i h"] late_cancelled nth_mem by fastforce
  then show ?thesis
    using observe_ok_same [OF ok late_cancelled(2) settles [OF cancel_ok]] late_cancelled
      controller_threw_free [OF ok late_cancelled(2)]
    by (simp add: cancel_resolved_def continue_worker_threw_free)
next
  case (reported st i h status)
  have "bk_running c"
    using awaiting_running [OF ok reported(2,3)] by simp
  moreover have "threw_free (reportStatus i status st)"
    using controller_threw_free [OF ok reported(2)] by (auto simp: reportStatus_def onItemStatus_def threw_free_def)
  ultimately show ?thesis
    using observe_ok_same [OF ok reported(2) reports [OF reported(3,4)]] reported by simp
next
  case (waited st w i h success err)
  have "bk_running c"
    using awaiting_running [OF ok waited(2), of "AwaitOutcome i h"] waited nth_mem by fastforce
  then show ?thesis
    using observe_ok_same [OF ok waited(2) settles [OF wait_ok]] waited controller_threw_free [OF ok waited(2)]
    by (simp add: wait_resolved_def continue_worker_threw_free)
next
  case (wait_threw st w i h message)
  have "bk_running c"
    using awaiting_running [OF ok wait_threw(2), of "AwaitOutcome i h"] wait_threw nth_mem by fastforce
  then show ?thesis
    using observe_ok_same [OF ok wait_threw(2) settles [OF wait_bad]] wait_threw controller_threw_free [OF ok wait_threw(2)]
    by (simp add: wait_rejected_def continue_worker_threw_free)
next
  case (finished st)
  then show ?thesis
    using ok by (auto simp: controller_ok_def)
next
  case (starts g ids)
  with ok show ?thesis
    using renewed_ok(1) by blast
next
  case dismisses
  with ok show ?thesis
    using renewed_ok(2) by blast
next
  case retries
  with ok show ?thesis
    using retryFailed_ok by blast
qed simp_all

lemma rejected_step_ok:
  assumes "controller_step c c'" "bk_rejected c"
  shows "bk_rejected c' \<or> controller_ok c'"
  using assms
proof (cases rule: controller_step.cases)
  case (starts g ids)
  with assms(2) show ?thesis
    using renewed_ok(1) by blast
next
  case dismisses
  with assms(2) show ?thesis
    using renewed_ok(2) by blast
qed simp_all

interpretation dialog: transition_system "\<lambda>c. c = initial_controller" controller_step "\<lambda>c. bk_rejected c \<or> controller_ok c"
proof
  show "bk_rejected s \<or> controller_ok s" if "s = initial_controller" for s :: "'h batch_controller"
    using that by (simp add: controller_ok_def initial_controller_def)
  show "bk_rejected t \<or> controller_ok t" if "bk_rejected s \<or> controller_ok s" "controller_step s t" for s t :: "'h batch_controller"
    using that controller_step_ok rejected_step_ok by blast
qed

text \<open>
  C19. Whatever the user does with the dialog and however the connections behave: when no batch is
  running, dismissing the dialog and starting a batch of at least one connection are possible again,
  and retrying is offered exactly when an item has failed; and no item of the dialog is queued, connecting or waiting for the user,
  so that \<open>active\<close> is off, unless a late cancellation has been rejected since the dialog was last
  started or dismissed.
\<close>

theorem batch_dialog_settles:
  assumes "controller_step\<^sup>*\<^sup>* initial_controller c" and "\<not> bk_running c"
  shows "(\<not> bk_rejected c \<longrightarrow> \<not> batch_active c) \<and> snd (dismiss c) \<and>
    (snd (start_batch g ids c) \<longleftrightarrow> ids \<noteq> []) \<and>
    (snd (retryFailed c) \<longleftrightarrow> (\<exists>run. bk_run c = Some run \<and> BcFailed \<in> bri_status ` set (run_items run)))"
proof -
  have ok: "bk_rejected c \<or> controller_ok c"
    by (rule dialog.reachable_invar [OF refl assms(1)])
  have "\<not> batch_active c" if "\<not> bk_rejected c"
    using idle_run_settled [OF _ assms(2)] ok that by (fastforce simp: batch_active_def split: option.splits)
  moreover have "snd (dismiss c)" "snd (start_batch g ids c) \<longleftrightarrow> ids \<noteq> []"
    using assms(2) by (simp_all add: dismiss_def start_batch_def)
  moreover have "snd (retryFailed c) \<longleftrightarrow> (\<exists>run. bk_run c = Some run \<and> BcFailed \<in> bri_status ` set (run_items run))"
    using assms(2) by (force simp: retryFailed_def failed_ids_def filter_empty_conv split: option.splits)
  ultimately show ?thesis
    by blast
qed

text \<open>One connection that cannot be opened: the batch ends, the item can be retried.\<close>

definition sample_dialog :: "nat batch_controller" where
  "sample_dialog = renewed (start_batch ''folder'' [''a''] initial_controller)"

definition sample_dialog_failed :: "nat batch_controller" where
  "sample_dialog_failed =
     (observe (the (bk_execution sample_dialog)) (start_rejected 0 ''a'' ''refused'' (the (bk_execution sample_dialog))) sample_dialog)
       \<lparr>bk_running := False\<rparr>"

theorem batch_dialog_settles_witness:
  "controller_step\<^sup>*\<^sup>* initial_controller sample_dialog_failed \<and> \<not> batch_active sample_dialog_failed \<and>
   snd (retryFailed sample_dialog_failed)"
proof -
  let ?st = "the (bk_execution sample_dialog)"
  let ?t = "start_rejected 0 ''a'' ''refused'' ?st"
  have execution: "bk_execution sample_dialog = Some ?st"
    by (simp add: sample_dialog_def renewed_def start_batch_def launch_def initial_controller_def Let_def)
  have "controller_step initial_controller sample_dialog"
    unfolding sample_dialog_def by (rule starts)
  moreover have "controller_step sample_dialog (observe ?st ?t sample_dialog)"
    by (rule not_opened [OF execution]) code_simp+
  moreover have "controller_step (observe ?st ?t sample_dialog) sample_dialog_failed"
    unfolding sample_dialog_failed_def by (intro finished [where st = ?t]) (simp add: observe_def, code_simp)
  ultimately have run: "controller_step\<^sup>*\<^sup>* initial_controller sample_dialog_failed"
    by (simp add: converse_rtranclp_into_rtranclp r_into_rtranclp)
  moreover have idle: "\<not> bk_running sample_dialog_failed"
    by (simp add: sample_dialog_failed_def)
  moreover have "map bri_status (run_items (the (bk_run sample_dialog_failed))) = [BcFailed] \<and> bk_run sample_dialog_failed \<noteq> None \<and>
      \<not> bk_rejected sample_dialog_failed"
    by code_simp
  ultimately show ?thesis
    using batch_dialog_settles [OF run idle] by (auto simp: map_eq_Cons_conv)
qed

end
