(* ===== verification/Js_Strings.thy ===== *)
theory Js_Strings
  imports Prelude
begin

text \<open>
  The string functions of the language that several components use, on strings held as UTF-8
  byte sequences: \<open>trim\<close>, \<open>split\<close> and \<open>join\<close>, \<open>includes\<close>, and the ASCII part of \<open>toLowerCase\<close>
  and \<open>toUpperCase\<close>. Where the code compares the result with its own tables no other letters matter; the
  lower-case form of any other letter in a text from outside is not modelled.
\<close>

section \<open>Trimming\<close>

text \<open>The white space of the language, as UTF-8 sequences.\<close>

definition js_spaces :: "string list" where
  "js_spaces =
     [[CHR 0x09], [CHR 0x0A], [CHR 0x0B], [CHR 0x0C], [CHR 0x0D], [CHR 0x20], [CHR 0xC2, CHR 0xA0],
      [CHR 0xE1, CHR 0x9A, CHR 0x80], [CHR 0xE2, CHR 0x80, CHR 0x80], [CHR 0xE2, CHR 0x80, CHR 0x81],
      [CHR 0xE2, CHR 0x80, CHR 0x82], [CHR 0xE2, CHR 0x80, CHR 0x83], [CHR 0xE2, CHR 0x80, CHR 0x84],
      [CHR 0xE2, CHR 0x80, CHR 0x85], [CHR 0xE2, CHR 0x80, CHR 0x86], [CHR 0xE2, CHR 0x80, CHR 0x87],
      [CHR 0xE2, CHR 0x80, CHR 0x88], [CHR 0xE2, CHR 0x80, CHR 0x89], [CHR 0xE2, CHR 0x80, CHR 0x8A],
      [CHR 0xE2, CHR 0x80, CHR 0xA8], [CHR 0xE2, CHR 0x80, CHR 0xA9], [CHR 0xE2, CHR 0x80, CHR 0xAF],
      [CHR 0xE2, CHR 0x81, CHR 0x9F], [CHR 0xE3, CHR 0x80, CHR 0x80], [CHR 0xEF, CHR 0xBB, CHR 0xBF]]"

fun strip_fuel :: "nat \<Rightarrow> string list \<Rightarrow> string \<Rightarrow> string" where
  "strip_fuel 0 pats s = s"
| "strip_fuel (Suc n) pats s =
     (case find (\<lambda>w. prefix w s) pats of None \<Rightarrow> s | Some w \<Rightarrow> strip_fuel n pats (drop (length w) s))"

text \<open>A string of \<open>n\<close> bytes is stripped at most \<open>n\<close> times.\<close>

definition strip :: "string list \<Rightarrow> string \<Rightarrow> string" where
  "strip pats s = strip_fuel (length s) pats s"

definition js_trim :: "string \<Rightarrow> string" where
  "js_trim s = rev (strip (map rev js_spaces) (rev (strip js_spaces s)))"

definition trimmed :: "string \<Rightarrow> bool" where
  "trimmed s \<longleftrightarrow> (\<forall>w \<in> set js_spaces. \<not> prefix w s \<and> \<not> suffix w s)"

lemma strip_fuel_suffix: "suffix (strip_fuel n pats s) s"
proof (induction n pats s rule: strip_fuel.induct)
  case (2 n pats s)
  show ?case
  proof (cases "find (\<lambda>w. prefix w s) pats")
    case (Some w)
    then have "suffix (strip_fuel n pats (drop (length w) s)) (drop (length w) s)"
      by (rule "2.IH")
    then show ?thesis
      using Some suffix_drop [of "length w" s] suffix_order.trans by auto
  qed simp
qed simp

lemma strip_fuel_free:
  assumes "[] \<notin> set pats" "length s \<le> n" "w \<in> set pats"
  shows "\<not> prefix w (strip_fuel n pats s)"
  using assms
proof (induction n pats s rule: strip_fuel.induct)
  case (1 pats s)
  then show ?case
    by auto
next
  case (2 n pats s)
  show ?case
  proof (cases "find (\<lambda>w. prefix w s) pats")
    case None
    then have "\<forall>v \<in> set pats. \<not> prefix v s"
      by (simp add: find_eq_None)
    with None "2.prems"(3) show ?thesis
      by simp
  next
    case (Some v)
    then have v: "v \<in> set pats" "prefix v s"
      using find_SomeD [OF Some] by auto
    then have "0 < length v" "length v \<le> length s"
      using "2.prems"(1) by (auto simp: prefix_length_le)
    then have "length (drop (length v) s) \<le> n"
      using "2.prems"(2) unfolding length_drop by linarith
    then show ?thesis
      using "2.IH" [OF Some] "2.prems"(1,3) Some by simp
  qed
qed

lemma strip_suffix: "suffix (strip pats s) s"
  by (simp add: strip_def strip_fuel_suffix)

lemma strip_free: "[] \<notin> set pats \<Longrightarrow> w \<in> set pats \<Longrightarrow> \<not> prefix w (strip pats s)"
  by (simp add: strip_def strip_fuel_free)

lemma strip_id: "\<forall>w \<in> set pats. \<not> prefix w s \<Longrightarrow> strip pats s = s"
  by (cases "length s") (auto simp: strip_def find_eq_None split: option.splits dest: find_SomeD)

lemma js_spaces_nonempty: "[] \<notin> set js_spaces"
  by (simp add: js_spaces_def)

lemma trimmed_js_trim: "trimmed (js_trim s)"
  unfolding trimmed_def
proof
  fix w assume w: "w \<in> set js_spaces"
  let ?l = "strip js_spaces s" and ?r = "strip (map rev js_spaces) (rev (strip js_spaces s))"
  have "suffix ?r (rev ?l)"
    by (rule strip_suffix)
  then have sub: "prefix (js_trim s) ?l"
    by (simp add: js_trim_def suffix_to_prefix)
  have "\<not> prefix w ?l"
    using strip_free js_spaces_nonempty w by blast
  then have "\<not> prefix w (js_trim s)"
    using sub prefix_order.trans by blast
  moreover have "\<not> prefix (rev w) ?r"
    using js_spaces_nonempty w by (intro strip_free) auto
  then have "\<not> suffix w (js_trim s)"
    by (simp add: js_trim_def suffix_to_prefix)
  ultimately show "\<not> prefix w (js_trim s) \<and> \<not> suffix w (js_trim s)"
    by blast
qed

lemma js_trim_id: "trimmed s \<Longrightarrow> js_trim s = s"
proof -
  assume t: "trimmed s"
  then have "strip js_spaces s = s"
    by (intro strip_id) (simp add: trimmed_def)
  moreover have "strip (map rev js_spaces) (rev s) = rev s"
    using t by (intro strip_id) (auto simp: trimmed_def suffix_to_prefix)
  ultimately show ?thesis
    by (simp add: js_trim_def)
qed

lemma js_trim_idem [simp]: "js_trim (js_trim s) = js_trim s"
  by (rule js_trim_id [OF trimmed_js_trim])

lemma trimmed_Nil [simp]: "trimmed []"
  using js_spaces_nonempty by (auto simp: trimmed_def)

lemma js_trim_Nil [simp]: "js_trim [] = []"
  by (simp add: js_trim_id)

section \<open>Splitting and joining\<close>

fun split_on :: "'a \<Rightarrow> 'a list \<Rightarrow> 'a list list" where
  "split_on c [] = [[]]"
| "split_on c (x # xs) = (if x = c then [] # split_on c xs
     else (case split_on c xs of [] \<Rightarrow> [[x]] | y # ys \<Rightarrow> (x # y) # ys))"

fun join_with :: "'a list \<Rightarrow> 'a list list \<Rightarrow> 'a list" where
  "join_with sep [] = []"
| "join_with sep [x] = x"
| "join_with sep (x # xs) = x @ sep @ join_with sep xs"

lemma split_on_ne [simp]: "split_on c s \<noteq> []"
  by (induction s) (auto split: list.splits)

lemma split_on_free: "p \<in> set (split_on c s) \<Longrightarrow> c \<notin> set p"
  by (induction s arbitrary: p) (auto split: if_splits list.splits)

lemma split_on_append: "c \<notin> set p \<Longrightarrow> split_on c (p @ c # s) = p # split_on c s"
  by (induction p) auto

lemma split_on_no_sep: "c \<notin> set p \<Longrightarrow> split_on c p = [p]"
  by (induction p) auto

lemma split_on_join: "xs \<noteq> [] \<Longrightarrow> \<forall>x \<in> set xs. c \<notin> set x \<Longrightarrow> split_on c (join_with [c] xs) = xs"
proof (induction "[c]" xs rule: join_with.induct)
  case (3 x y ys)
  then show ?case
    using split_on_append [of c x] by simp
qed (simp_all add: split_on_no_sep)

lemma join_split_on: "join_with [c] (split_on c s) = s"
proof (induction s)
  case (Cons x s)
  obtain y ys where y: "split_on c s = y # ys"
    by (cases "split_on c s") simp_all
  then show ?case
    using Cons by (cases ys) auto
qed simp

lemma join_with_snoc: "xs \<noteq> [] \<Longrightarrow> join_with sep (xs @ [x]) = join_with sep xs @ sep @ x"
  by (induction sep xs rule: join_with.induct) auto

lemma join_with_append:
  "xs \<noteq> [] \<Longrightarrow> ys \<noteq> [] \<Longrightarrow> join_with sep (xs @ ys) = join_with sep xs @ sep @ join_with sep ys"
proof (induction sep xs rule: join_with.induct)
  case (2 sep x)
  then show ?case
    by (cases ys) auto
qed auto

lemma split_on_join_append:
  "xs \<noteq> [] \<Longrightarrow> \<forall>x \<in> set xs. c \<notin> set x \<Longrightarrow> split_on c (join_with [c] xs @ c # s) = xs @ split_on c s"
proof (induction "[c]" xs rule: join_with.induct)
  case (3 x y ys)
  then show ?case
    using split_on_append [of c x] by simp
qed (simp_all add: split_on_append)

fun js_includes :: "'a list \<Rightarrow> 'a list \<Rightarrow> bool" where
  "js_includes pat [] = (pat = [])"
| "js_includes pat (c # s) = (prefix pat (c # s) \<or> js_includes pat s)"

lemma js_includes_sublist: "js_includes pat s \<longleftrightarrow> sublist pat s"
  by (induction s) (auto simp: sublist_Cons_right)

section \<open>Letters\<close>

definition lower_char :: "char \<Rightarrow> char" where
  "lower_char c = (let n = (of_char c :: int) in if 65 \<le> n \<and> n \<le> 90 then char_of (n + 32) else c)"

definition upper_char :: "char \<Rightarrow> char" where
  "upper_char c = (let n = (of_char c :: int) in if 97 \<le> n \<and> n \<le> 122 then char_of (n - 32) else c)"

definition toLowerCase :: "string \<Rightarrow> string" where
  "toLowerCase s = map lower_char s"

definition toUpperCase :: "string \<Rightarrow> string" where
  "toUpperCase s = map upper_char s"

end
