(* ===== verification/Js_Units.thy ===== *)
theory Js_Units
  imports Js_Strings "HOL-Library.Word"
begin

text \<open>
  Strings as the lists of their UTF-16 code units (\<open>16 word\<close>), for the components whose code
  cuts strings between code units or reads character codes: literals, white space, trimming,
  searching, and \<open>decodeURIComponent\<close>.
\<close>

type_synonym code_units = "16 word list"

definition units :: "string \<Rightarrow> code_units" where
  "units s = map of_char s"

lemma units_append [simp]: "units (s @ t) = units s @ units t"
  by (simp add: units_def)

lemma units_Nil [simp]: "units [] = []"
  by (simp add: units_def)

section \<open>White space\<close>

definition js_space_units :: code_units where
  "js_space_units =
     [0x09, 0x0A, 0x0B, 0x0C, 0x0D, 0x20, 0xA0, 0x1680, 0x2000, 0x2001, 0x2002, 0x2003, 0x2004, 0x2005, 0x2006, 0x2007,
      0x2008, 0x2009, 0x200A, 0x2028, 0x2029, 0x202F, 0x205F, 0x3000, 0xFEFF]"

definition is_space :: "16 word \<Rightarrow> bool" where
  "is_space u \<longleftrightarrow> u \<in> set js_space_units"

definition trim_start :: "code_units \<Rightarrow> code_units" where
  "trim_start s = dropWhile is_space s"

definition trim_end :: "code_units \<Rightarrow> code_units" where
  "trim_end s = rev (dropWhile is_space (rev s))"

definition trim_units :: "code_units \<Rightarrow> code_units" where
  "trim_units s = trim_end (trim_start s)"

lemma trim_start_id: "s = [] \<or> \<not> is_space (hd s) \<Longrightarrow> trim_start s = s"
  by (cases s) (auto simp: trim_start_def)

lemma trim_end_id: "s = [] \<or> \<not> is_space (last s) \<Longrightarrow> trim_end s = s"
  by (cases s rule: rev_cases) (auto simp: trim_end_def)

lemma trim_units_id: "s = [] \<or> (\<not> is_space (hd s) \<and> \<not> is_space (last s)) \<Longrightarrow> trim_units s = s"
  by (auto simp: trim_units_def trim_start_id trim_end_id)

lemma trim_start_free: "trim_start s = [] \<or> \<not> is_space (hd (trim_start s))"
  unfolding trim_start_def using hd_dropWhile by blast

lemma trim_end_free: "trim_end s = [] \<or> \<not> is_space (last (trim_end s))"
  unfolding trim_end_def using hd_dropWhile [of is_space "rev s"] by (auto simp: last_rev)

lemma prefix_trim_end: "prefix (trim_end s) s"
  unfolding trim_end_def by (metis rev_rev_ident suffix_dropWhile suffix_to_prefix)

lemma trim_units_free: "trim_units s = [] \<or> (\<not> is_space (hd (trim_units s)) \<and> \<not> is_space (last (trim_units s)))"
proof (cases "trim_units s = []")
  case False
  then have "hd (trim_units s) = hd (trim_start s)" "trim_start s \<noteq> []"
    using prefix_trim_end [of "trim_start s"] unfolding trim_units_def prefix_def by (auto, metis hd_append2)
  then show ?thesis
    using trim_start_free [of s] trim_end_free [of "trim_start s"] False by (auto simp: trim_units_def)
qed simp

lemma trim_units_idem [simp]: "trim_units (trim_units s) = trim_units s"
  using trim_units_free by (intro trim_units_id) blast

lemma trim_units_Nil [simp]: "trim_units [] = []"
  by (simp add: trim_units_id)

lemma set_trim_units: "set (trim_units s) \<subseteq> set s"
  by (auto simp: trim_units_def trim_end_def trim_start_def dest!: set_dropWhileD)

section \<open>Searching\<close>

text \<open>\<open>indexOf\<close>\<close>

fun index_of :: "'a list \<Rightarrow> 'a list \<Rightarrow> nat option" where
  "index_of pat [] = (if pat = [] then Some 0 else None)"
| "index_of pat (x # xs) = (if prefix pat (x # xs) then Some 0 else map_option Suc (index_of pat xs))"

lemma index_of_Some:
  "index_of pat s = Some i \<Longrightarrow> i \<le> length s \<and> prefix pat (drop i s) \<and> (\<forall>j < i. \<not> prefix pat (drop j s))"
proof (induction pat s arbitrary: i rule: index_of.induct)
  case (2 pat x xs)
  then show ?case
    by (fastforce split: if_splits simp: less_Suc_eq_0_disj)
qed (auto split: if_splits)

lemma index_of_None: "index_of pat s = None \<Longrightarrow> \<not> prefix pat (drop j s)"
proof (induction pat s arbitrary: j rule: index_of.induct)
  case (2 pat x xs)
  then show ?case
    by (cases j) (auto split: if_splits)
qed (auto split: if_splits)

lemma index_of_eqI:
  assumes "i \<le> length s" "prefix pat (drop i s)" "\<And>j. j < i \<Longrightarrow> \<not> prefix pat (drop j s)"
  shows "index_of pat s = Some i"
proof (cases "index_of pat s")
  case None
  then show ?thesis
    using index_of_None assms(2) by blast
next
  case (Some j)
  then show ?thesis
    using index_of_Some [OF Some] assms by (cases i j rule: linorder_cases) auto
qed

lemma prefix_drop_append:
  assumes "j + length pat \<le> length s"
  shows "prefix pat (drop j (s @ t)) \<longleftrightarrow> prefix pat (drop j s)"
proof -
  have "us = []" if "pat = drop j s @ us" for us
    using arg_cong [OF that, of length] assms unfolding length_append length_drop length_0_conv [symmetric] by linarith
  moreover have "drop j (s @ t) = drop j s @ t"
    using assms by simp
  ultimately show ?thesis
    by (auto simp: prefix_append)
qed

lemma index_of_append:
  assumes "index_of pat s = Some i"
  shows "index_of pat (s @ t) = Some i"
proof (rule index_of_eqI)
  have fits: "i + length pat \<le> length s"
    using index_of_Some [OF assms] prefix_length_le by fastforce
  then show "i \<le> length (s @ t)" "prefix pat (drop i (s @ t))"
    using index_of_Some [OF assms] by auto
  show "\<not> prefix pat (drop j (s @ t))" if "j < i" for j
    using index_of_Some [OF assms] that fits prefix_drop_append [of j pat s t] by auto
qed

lemma index_of_later:
  assumes "index_of pat s = None" "index_of pat (s @ t) = Some i"
  shows "length s < i + length pat"
  using index_of_Some [OF assms(2)] index_of_None [OF assms(1)] prefix_drop_append [of i pat s t] by fastforce

text \<open>The end of a text.\<close>

definition last_units :: "nat \<Rightarrow> code_units \<Rightarrow> code_units" where
  "last_units n s = drop (length s - n) s"

section \<open>UTF-8\<close>

definition utf8_octets :: "nat \<Rightarrow> nat list" where
  "utf8_octets v =
     (if v < 0x80 then [v]
      else if v < 0x800 then [0xC0 + v div 64, 0x80 + v mod 64]
      else if v < 0x10000 then [0xE0 + v div 4096, 0x80 + v div 64 mod 64, 0x80 + v mod 64]
      else [0xF0 + v div 262144, 0x80 + v div 4096 mod 64, 0x80 + v div 64 mod 64, 0x80 + v mod 64])"

text \<open>\<open>TextEncoder.encode\<close>: half of a surrogate pair becomes the replacement character.\<close>

type_synonym octets = "8 word list"

definition scalar_octets :: "nat \<Rightarrow> octets" where
  "scalar_octets v = map of_nat (utf8_octets v)"

function encode_utf8 :: "code_units \<Rightarrow> octets" where
  "encode_utf8 [] = []"
| "encode_utf8 (u # s) =
     (if 0xD800 \<le> u \<and> u \<le> 0xDBFF then
        (case s of
           v # t \<Rightarrow>
             if 0xDC00 \<le> v \<and> v \<le> 0xDFFF
             then scalar_octets (0x10000 + (unat u - 0xD800) * 1024 + (unat v - 0xDC00)) @ encode_utf8 t
             else scalar_octets 0xFFFD @ encode_utf8 s
         | [] \<Rightarrow> scalar_octets 0xFFFD)
      else scalar_octets (if 0xDC00 \<le> u \<and> u \<le> 0xDFFF then 0xFFFD else unat u) @ encode_utf8 s)"
  by pat_completeness auto
termination encode_utf8
  by (relation "measure length") auto

declare encode_utf8.simps(2) [simp del]

lemma utf8_octets_range: "v < 0x110000 \<Longrightarrow> b \<in> set (utf8_octets v) \<Longrightarrow> b < 256 \<and> (0 < v \<longrightarrow> 0 < b)"
  by (auto simp: utf8_octets_def split: if_splits)

lemma scalar_octets_no_zero:
  assumes "0 < v" "v < 0x110000"
  shows "0 \<notin> set (scalar_octets v)"
proof
  assume "0 \<in> set (scalar_octets v)"
  then obtain b where b: "b \<in> set (utf8_octets v)" "(of_nat b :: 8 word) = 0"
    by (auto simp: scalar_octets_def)
  then have "0 < b" "b < 256"
    using utf8_octets_range assms by auto
  then show False
    using b(2) by (auto simp: word_of_nat_eq_0_iff dest: dvd_imp_le)
qed

lemma high_surrogate_range: "0xD800 \<le> u \<Longrightarrow> u \<le> 0xDBFF \<Longrightarrow> 0xD800 \<le> unat u \<and> unat u \<le> 0xDBFF" for u :: "16 word"
  by (simp add: word_le_nat_alt)

lemma low_surrogate_range: "0xDC00 \<le> u \<Longrightarrow> u \<le> 0xDFFF \<Longrightarrow> 0xDC00 \<le> unat u \<and> unat u \<le> 0xDFFF" for u :: "16 word"
  by (simp add: word_le_nat_alt)

lemma unat_unit_bound: "unat u < 0x10000" for u :: "16 word"
  using unsigned_less [of u] by simp

lemma surrogate_pair_range:
  fixes u v :: "16 word"
  assumes "0xD800 \<le> u" "u \<le> 0xDBFF" "0xDC00 \<le> v" "v \<le> 0xDFFF"
  shows "0x10000 + (unat u - 0xD800) * 1024 + (unat v - 0xDC00) < 0x110000"
  using high_surrogate_range [OF assms(1,2)] low_surrogate_range [OF assms(3,4)] by linarith

lemma encode_utf8_no_zero: "0 \<notin> set s \<Longrightarrow> 0 \<notin> set (encode_utf8 s)"
proof (induction s rule: encode_utf8.induct)
  case (2 u s)
  have u: "0 < unat u" "unat u < 0x110000"
    using "2.prems" unat_unit_bound [of u] by (auto simp: unat_gt_0)
  then have one: "0 \<notin> set (scalar_octets (if 0xDC00 \<le> u \<and> u \<le> 0xDFFF then 0xFFFD else unat u))"
    by (simp add: scalar_octets_no_zero)
  have bad: "0 \<notin> set (scalar_octets 0xFFFD)"
    by (simp add: scalar_octets_no_zero)
  have pair: "0 \<notin> set (scalar_octets (0x10000 + (unat u - 0xD800) * 1024 + (unat v - 0xDC00)))"
    if "0xD800 \<le> u" "u \<le> 0xDBFF" "0xDC00 \<le> v" "v \<le> 0xDFFF" for v :: "16 word"
    using surrogate_pair_range [OF that] by (intro scalar_octets_no_zero) linarith+
  show ?case
    using "2.IH" "2.prems" one bad pair unfolding encode_utf8.simps(2) [of u s] by (auto split: list.split)
qed simp

lemma scalar_octets_length: "1 \<le> length (scalar_octets v)" "0x10000 \<le> v \<Longrightarrow> length (scalar_octets v) = 4"
  by (auto simp: scalar_octets_def utf8_octets_def)

lemma encode_utf8_length: "length s \<le> length (encode_utf8 s)"
proof (induction s rule: encode_utf8.induct)
  case (2 u s)
  have one: "1 + length s \<le> length (scalar_octets n @ encode_utf8 s)" if "length s \<le> length (encode_utf8 s)" for n
    using scalar_octets_length(1) [of n] that unfolding length_append by linarith
  have two: "2 + length t \<le> length (scalar_octets (0x10000 + n + m) @ encode_utf8 t)"
    if "length t \<le> length (encode_utf8 t)" for n m t
    using scalar_octets_length(2) [of "0x10000 + n + m"] that unfolding length_append by simp
  show ?case
  proof (cases "0xD800 \<le> u \<and> u \<le> 0xDBFF")
    case False
    then show ?thesis
      using one "2.IH"(3) unfolding encode_utf8.simps(2) [of u s] by auto
  next
    case high: True
    show ?thesis
    proof (cases s)
      case Nil
      then show ?thesis
        using high scalar_octets_length(1) [of "0xFFFD"] by (simp add: encode_utf8.simps(2))
    next
      case (Cons v t)
      then show ?thesis
        using high one two "2.IH"(1,2) unfolding encode_utf8.simps(2) [of u s] by simp
    qed
  qed
qed simp

lemma scalar_octets_length_le: "length (scalar_octets v) \<le> 4" "v < 0x10000 \<Longrightarrow> length (scalar_octets v) \<le> 3"
  by (auto simp: scalar_octets_def utf8_octets_def)

lemma encode_utf8_length_le: "length (encode_utf8 s) \<le> 3 * length s"
proof (induction s rule: encode_utf8.induct)
  case (2 u s)
  have one: "length (scalar_octets n @ encode_utf8 s) \<le> 3 + 3 * length s" if "length (encode_utf8 s) \<le> 3 * length s" "n < 0x10000" for n
    using scalar_octets_length_le(2) [of n] that unfolding length_append by linarith
  have two: "length (scalar_octets n @ encode_utf8 t) \<le> 6 + 3 * length t" if "length (encode_utf8 t) \<le> 3 * length t" for n t
    using scalar_octets_length_le(1) [of n] that unfolding length_append by linarith
  show ?case
  proof (cases "0xD800 \<le> u \<and> u \<le> 0xDBFF")
    case False
    then show ?thesis
      using one "2.IH"(3) unat_unit_bound [of u] unfolding encode_utf8.simps(2) [of u s] by auto
  next
    case high: True
    show ?thesis
    proof (cases s)
      case Nil
      then show ?thesis
        using high scalar_octets_length_le(2) [of "0xFFFD"] by (simp add: encode_utf8.simps(2))
    next
      case (Cons v t)
      then show ?thesis
        using high one two "2.IH"(1,2) unfolding encode_utf8.simps(2) [of u s] by simp
    qed
  qed
qed simp

lemma encode_utf8_replicate:
  "u < 0xD800 \<Longrightarrow> encode_utf8 (replicate n u) = concat (replicate n (scalar_octets (unat u)))"
  by (induction n) (auto simp: encode_utf8.simps(2) word_le_nat_alt word_less_nat_alt)

lemma encode_utf8_slash: "encode_utf8 (a @ 0x2F # b) = encode_utf8 a @ 0x2F # encode_utf8 b"
proof (induction a rule: encode_utf8.induct)
  case 1
  show ?case
    by (simp add: encode_utf8.simps(2) scalar_octets_def utf8_octets_def)
next
  case (2 u s)
  show ?case
  proof (cases s)
    case Nil
    then show ?thesis
      by (simp add: encode_utf8.simps(2) scalar_octets_def utf8_octets_def)
  next
    case (Cons v t)
    then show ?thesis
      using "2.IH" unfolding Cons append_Cons encode_utf8.simps(2) [of u] by simp
  qed
qed

end
