(* ===== verification/Output_Flow.thy ===== *)
theory Output_Flow
  imports Js_Units
begin

text \<open>
  The output queue of a terminal, after \<open>src/features/terminal/terminalOutputFlow.ts\<close>: chunks of
  output are queued, cut into batches of at most \<open>maxBatchChars\<close> code units and handed to the
  terminal one at a time, the next one only after the previous one has been parsed.

  A string is here the list of its UTF-16 code units (\<open>16 word\<close>), because the code cuts strings
  between code units and tests for surrogates. The terminal (\<open>write\<close>) and the scheduler are the
  environment: the batches handed to \<open>write\<close> are recorded in \<open>oq_output\<close>, and the environment
  acts through the events \<open>Flush\<close> (the scheduled callback runs, with what \<open>write\<close> does) and
  \<open>Parsed\<close> (the terminal reports that a batch has been parsed). \<open>write\<close> and \<open>onBatch\<close> do not
  call back into the queue other than by \<open>onParsed\<close>.
\<close>

section \<open>The queue\<close>

record output_queue =
  oq_maxBatchChars :: nat
  oq_chunks :: "code_units list"
  oq_chunkIndex :: nat
  oq_disposed :: bool
  oq_pendingChars :: int
  oq_scheduled :: bool
  oq_writing :: bool
  oq_output :: "code_units list"

definition isInteger :: "rat \<Rightarrow> bool" where
  "isInteger r \<longleftrightarrow> of_int \<lfloor>r\<rfloor> = r"

definition new_output_queue :: "js_number \<Rightarrow> string + output_queue" where
  "new_output_queue maxBatchChars =
     (case maxBatchChars of
        Finite n \<Rightarrow>
          if \<not> isInteger n \<or> n < 2 then Inl ''maxBatchChars must be an integer of at least 2''
          else Inr \<lparr>oq_maxBatchChars = nat \<lfloor>n\<rfloor>, oq_chunks = [], oq_chunkIndex = 0, oq_disposed = False,
            oq_pendingChars = 0, oq_scheduled = False, oq_writing = False, oq_output = []\<rparr>
      | _ \<Rightarrow> Inl ''maxBatchChars must be an integer of at least 2'')"

definition scheduleNext :: "output_queue \<Rightarrow> output_queue" where
  "scheduleNext q =
     (if oq_disposed q \<or> oq_writing q \<or> oq_pendingChars q = 0 \<or> oq_scheduled q then q
      else q\<lparr>oq_scheduled := True\<rparr>)"

definition put_chunk :: "code_units \<Rightarrow> output_queue \<Rightarrow> output_queue" where
  "put_chunk data q = q\<lparr>oq_chunks := oq_chunks q @ [data], oq_pendingChars := oq_pendingChars q + int (length data)\<rparr>"

definition enqueue_output :: "code_units \<Rightarrow> output_queue \<Rightarrow> output_queue" where
  "enqueue_output data q =
     (if oq_disposed q \<or> data = [] then q
      else scheduleNext (put_chunk data q))"

definition clear_output :: "output_queue \<Rightarrow> output_queue" where
  "clear_output q = q\<lparr>oq_scheduled := False, oq_chunks := [], oq_chunkIndex := 0, oq_pendingChars := 0\<rparr>"

definition dispose_output :: "output_queue \<Rightarrow> output_queue" where
  "dispose_output q = clear_output (q\<lparr>oq_disposed := True\<rparr>)"

definition high_surrogate :: "16 word \<Rightarrow> bool" where
  "high_surrogate u \<longleftrightarrow> 0xd800 \<le> u \<and> u \<le> 0xdbff"

definition low_surrogate :: "16 word \<Rightarrow> bool" where
  "low_surrogate u \<longleftrightarrow> 0xdc00 \<le> u \<and> u \<le> 0xdfff"

definition splitsSurrogatePair :: "code_units \<Rightarrow> nat \<Rightarrow> bool" where
  "splitsSurrogatePair value index =
     (if index = 0 \<or> length value \<le> index then False
      else high_surrogate (value ! (index - 1)) \<and> low_surrogate (value ! index))"

text \<open>The loop of \<open>takeBatch\<close>: the parts so far, the rest of the budget, \<open>chunks\<close> and \<open>chunkIndex\<close>.\<close>

function take_parts ::
  "code_units list \<Rightarrow> nat \<Rightarrow> code_units list \<Rightarrow> nat \<Rightarrow> code_units list \<times> code_units list \<times> nat" where
  "take_parts parts remaining chunks index =
     (if remaining = 0 \<or> length chunks \<le> index then (parts, chunks, index)
      else let chunk = chunks ! index in
        if length chunk \<le> remaining then take_parts (parts @ [chunk]) (remaining - length chunk) chunks (index + 1)
        else let n = (if splitsSurrogatePair chunk remaining then remaining - 1 else remaining) in
          if n = 0 then (parts, chunks, index)
          else take_parts (parts @ [take n chunk]) (remaining - n) (chunks[index := drop n chunk]) index)"
  by pat_completeness auto
termination take_parts
  by (relation "measure (\<lambda>(parts, remaining, chunks, index). remaining + (length chunks - index))") auto

declare take_parts.simps [simp del]

definition takeBatch :: "output_queue \<Rightarrow> code_units \<times> output_queue" where
  "takeBatch q =
     (let (parts, chunks, index) = take_parts [] (oq_maxBatchChars q) (oq_chunks q) (oq_chunkIndex q);
          batch = concat parts;
          q = q\<lparr>oq_pendingChars := oq_pendingChars q - int (length batch)\<rparr>
      in (batch,
          if index = length chunks then q\<lparr>oq_chunks := [], oq_chunkIndex := 0\<rparr>
          else if 64 \<le> index then q\<lparr>oq_chunks := drop index chunks, oq_chunkIndex := 0\<rparr>
          else q\<lparr>oq_chunks := chunks, oq_chunkIndex := index\<rparr>))"

text \<open>
  What \<open>write\<close> does with a batch: it takes it, and reports it as parsed at once or later, or it
  (or \<open>onBatch\<close>) throws.
\<close>

datatype write_result = Accepted | AcceptedParsed | WriteThrows

definition on_parsed :: "output_queue \<Rightarrow> output_queue" where
  "on_parsed q = (if oq_writing q then scheduleNext (q\<lparr>oq_writing := False\<rparr>) else q)"

definition flushNext :: "write_result \<Rightarrow> output_queue \<Rightarrow> output_queue" where
  "flushNext result q =
     (if oq_disposed q \<or> oq_writing q \<or> oq_pendingChars q = 0 then q
      else let (batch, q) = takeBatch q;
               q = q\<lparr>oq_writing := True, oq_output := oq_output q @ [batch]\<rparr>
        in case result of
             Accepted \<Rightarrow> q
           | AcceptedParsed \<Rightarrow> on_parsed q
           | WriteThrows \<Rightarrow> clear_output (q\<lparr>oq_writing := False, oq_disposed := True\<rparr>))"

datatype output_event = Enqueue code_units | Clear | Dispose | Flush write_result | Parsed

text \<open>The callback of the scheduler runs only while it is scheduled.\<close>

fun output_step :: "output_queue \<Rightarrow> output_event \<Rightarrow> output_queue" where
  "output_step q (Enqueue data) = enqueue_output data q"
| "output_step q Clear = clear_output q"
| "output_step q Dispose = dispose_output q"
| "output_step q (Flush result) = (if oq_scheduled q then flushNext result (q\<lparr>oq_scheduled := False\<rparr>) else q)"
| "output_step q Parsed = on_parsed q"

section \<open>What a batch takes from the queue\<close>

definition pieces :: "output_queue \<Rightarrow> code_units list" where
  "pieces q = drop (oq_chunkIndex q) (oq_chunks q)"

definition pair_split :: "code_units \<Rightarrow> code_units \<Rightarrow> bool" where
  "pair_split xs ys \<longleftrightarrow> xs \<noteq> [] \<and> ys \<noteq> [] \<and> high_surrogate (last xs) \<and> low_surrogate (hd ys)"

lemma not_high_and_low: "high_surrogate u \<Longrightarrow> \<not> low_surrogate u"
  by (auto simp: high_surrogate_def low_surrogate_def word_le_nat_alt)

lemma splitsSurrogatePair_iff:
  "splitsSurrogatePair value n \<longleftrightarrow> 0 < n \<and> n < length value \<and> pair_split (take n value) (drop n value)"
proof (cases "0 < n \<and> n < length value")
  case True
  then have "last (take n value) = value ! (n - 1)"
    by (subst last_conv_nth) auto
  moreover have "hd (drop n value) = value ! n"
    using True by (simp add: hd_drop_conv_nth)
  ultimately show ?thesis
    using True by (auto simp: splitsSurrogatePair_def pair_split_def)
qed (auto simp: splitsSurrogatePair_def)

definition cut_length :: "code_units \<Rightarrow> nat \<Rightarrow> nat" where
  "cut_length chunk remaining = (if splitsSurrogatePair chunk remaining then remaining - 1 else remaining)"

lemma cut_length_no_split:
  assumes "0 < remaining" "remaining < length chunk"
  shows "\<not> pair_split (take (cut_length chunk remaining) chunk) (drop (cut_length chunk remaining) chunk)"
proof (cases "splitsSurrogatePair chunk remaining")
  case True
  then have "high_surrogate (chunk ! (remaining - 1))"
    using assms by (simp add: splitsSurrogatePair_def)
  moreover have "hd (drop (remaining - 1) chunk) = chunk ! (remaining - 1)"
    using assms by (simp add: hd_drop_conv_nth)
  ultimately show ?thesis
    using True not_high_and_low by (auto simp: cut_length_def pair_split_def)
qed (use assms in \<open>simp add: cut_length_def splitsSurrogatePair_iff\<close>)

lemma take_parts_one:
  "index < length chunks \<Longrightarrow> splitsSurrogatePair (chunks ! index) 1 \<Longrightarrow>
   take_parts parts 1 chunks index = (parts, chunks, index)"
  unfolding take_parts.simps [of parts 1] by (auto simp: Let_def splitsSurrogatePair_iff)

text \<open>A chunk longer than the budget ends the loop, after at most one cut.\<close>

lemma take_parts_cut:
  assumes "0 < remaining" "index < length chunks" "remaining < length (chunks ! index)"
  defines "n \<equiv> cut_length (chunks ! index) remaining"
  shows "take_parts parts remaining chunks index =
    (if n = 0 then (parts, chunks, index)
     else (parts @ [take n (chunks ! index)], chunks[index := drop n (chunks ! index)], index))"
proof -
  let ?chunk = "chunks ! index"
  have step: "take_parts parts remaining chunks index = (if n = 0 then (parts, chunks, index)
      else take_parts (parts @ [take n ?chunk]) (remaining - n) (chunks[index := drop n ?chunk]) index)"
    using assms(1-3) by (simp add: take_parts.simps [of parts remaining] n_def cut_length_def Let_def)
  show ?thesis
  proof (cases "splitsSurrogatePair ?chunk remaining \<and> n \<noteq> 0")
    case True
    then have n: "n = remaining - 1" "remaining - n = 1"
      using assms(1) by (auto simp: n_def cut_length_def)
    have "splitsSurrogatePair (drop n ?chunk) 1"
      using True assms(1,3) by (auto simp: splitsSurrogatePair_def n)
    then show ?thesis
      using step True assms(2) take_parts_one [of index "chunks[index := drop n ?chunk]"] unfolding n(2) by simp
  next
    case False
    then have "n = 0 \<or> remaining - n = 0"
      by (auto simp: n_def cut_length_def)
    then show ?thesis
      using step by (auto simp: take_parts.simps [of _ 0])
  qed
qed

lemma take_parts_whole:
  assumes "0 < remaining" "index < length chunks" "length (chunks ! index) \<le> remaining"
  shows "take_parts parts remaining chunks index =
    take_parts (parts @ [chunks ! index]) (remaining - length (chunks ! index)) chunks (index + 1)"
  using assms by (simp add: take_parts.simps [of parts remaining] Let_def)

lemma take_parts_stop: "remaining = 0 \<or> length chunks \<le> index \<Longrightarrow> take_parts parts remaining chunks index = (parts, chunks, index)"
  by (auto simp: take_parts.simps [of parts remaining])

definition taken_ok ::
  "code_units list \<Rightarrow> nat \<Rightarrow> code_units list \<Rightarrow> nat \<Rightarrow> code_units list \<times> code_units list \<times> nat \<Rightarrow> bool" where
  "taken_ok parts remaining chunks index r \<longleftrightarrow> (case r of (ps, cs, i) \<Rightarrow>
     (\<exists>zs. ps = parts @ zs) \<and> length cs = length chunks \<and> index \<le> i \<and> i \<le> length chunks \<and> drop (i + 1) cs = drop (i + 1) chunks \<and>
     concat ps @ concat (drop i cs) = concat parts @ concat (drop index chunks) \<and>
     length (concat ps) \<le> length (concat parts) + remaining \<and>
     ((\<forall>c \<in> set (drop index chunks). c \<noteq> []) \<longrightarrow> (\<forall>c \<in> set (drop i cs). c \<noteq> [])) \<and>
     (drop i cs \<noteq> drop i chunks \<longrightarrow> \<not> pair_split (concat ps) (concat (drop i cs))))"

lemma taken_ok_stop: "index \<le> length chunks \<Longrightarrow> taken_ok parts remaining chunks index (parts, chunks, index)"
  by (simp add: taken_ok_def)

lemma taken_ok_whole:
  assumes "index < length chunks" "length (chunks ! index) \<le> remaining"
    and "taken_ok (parts @ [chunks ! index]) (remaining - length (chunks ! index)) chunks (index + 1) r"
  shows "taken_ok parts remaining chunks index r"
  using assms Cons_nth_drop_Suc [OF assms(1), symmetric] by (auto simp: taken_ok_def split: prod.splits)

lemma taken_ok_cut:
  assumes "0 < remaining" "index < length chunks" "remaining < length (chunks ! index)"
    and "n = cut_length (chunks ! index) remaining" "n \<noteq> 0"
  shows "taken_ok parts remaining chunks index
    (parts @ [take n (chunks ! index)], chunks[index := drop n (chunks ! index)], index)"
proof -
  let ?chunk = "chunks ! index"
  have n: "n \<le> remaining" "n < length ?chunk"
    using assms by (auto simp: cut_length_def)
  have whole: "drop index chunks = ?chunk # drop (index + 1) chunks"
    using Cons_nth_drop_Suc [OF assms(2)] by simp
  have cut: "drop index (chunks[index := drop n ?chunk]) = drop n ?chunk # drop (index + 1) chunks"
    using assms(2) by (simp add: drop_update_swap whole)
  have "\<not> pair_split (take n ?chunk) (drop n ?chunk)"
    using cut_length_no_split [of remaining ?chunk] assms by simp
  then have "\<not> pair_split (concat (parts @ [take n ?chunk])) (concat (drop index (chunks[index := drop n ?chunk])))"
    using n assms(5) by (auto simp: pair_split_def cut last_append)
  then show ?thesis
    using n assms(2) by (auto simp: taken_ok_def cut whole drop_update_cancel)
qed

lemma take_parts_ok: "index \<le> length chunks \<Longrightarrow> taken_ok parts remaining chunks index (take_parts parts remaining chunks index)"
proof (induction parts remaining chunks index rule: take_parts.induct)
  case (1 parts remaining chunks index)
  consider "remaining = 0 \<or> length chunks \<le> index"
    | "0 < remaining" "index < length chunks" "length (chunks ! index) \<le> remaining"
    | "0 < remaining" "index < length chunks" "remaining < length (chunks ! index)"
    by linarith
  then show ?case
  proof cases
    case 1
    with \<open>index \<le> length chunks\<close> show ?thesis
      by (simp add: take_parts_stop taken_ok_stop)
  next
    case 2
    then have "taken_ok (parts @ [chunks ! index]) (remaining - length (chunks ! index)) chunks (index + 1)
        (take_parts (parts @ [chunks ! index]) (remaining - length (chunks ! index)) chunks (index + 1))"
      using "1.IH"(1) [of "chunks ! index"] by auto
    with 2 show ?thesis
      by (metis take_parts_whole taken_ok_whole)
  next
    case 3
    then show ?thesis
      using taken_ok_cut [OF 3] by (simp add: take_parts_cut taken_ok_stop)
  qed
qed

section \<open>The queue is a FIFO buffer\<close>

text \<open>
  The contract the events rely on: a buffer of pieces into which chunks are put and from which
  batches are taken, in order and without loss; a batch of a buffer that holds something is not
  empty, and it leaves all pieces but the first one left untouched.
\<close>

locale batch_buffer =
  fixes ok :: "'q \<Rightarrow> bool"
    and held :: "'q \<Rightarrow> 'a list list"
    and put :: "'a list \<Rightarrow> 'q \<Rightarrow> 'q"
    and grab :: "'q \<Rightarrow> 'a list \<times> 'q"
  assumes put_ok: "ok q \<Longrightarrow> d \<noteq> [] \<Longrightarrow> ok (put d q) \<and> held (put d q) = held q @ [d]"
    and grab_ok: "ok q \<Longrightarrow> grab q = (b, r) \<Longrightarrow> ok r \<and> b @ concat (held r) = concat (held q)"
    and grab_some: "ok q \<Longrightarrow> held q \<noteq> [] \<Longrightarrow> fst (grab q) \<noteq> []"
begin

lemma grab_shorter:
  assumes "ok q" "held q \<noteq> []"
  shows "length (concat (held (snd (grab q)))) < length (concat (held q))"
proof -
  have "fst (grab q) @ concat (held (snd (grab q))) = concat (held q)"
    using grab_ok [OF assms(1), of "fst (grab q)" "snd (grab q)"] by simp
  then have "length (fst (grab q)) + length (concat (held (snd (grab q)))) = length (concat (held q))"
    by (metis length_append)
  moreover have "0 < length (fst (grab q))"
    using grab_some [OF assms] by simp
  ultimately show ?thesis
    by linarith
qed

end

text \<open>
  The invariant of the queue: the counter is the length of what is held, a callback is scheduled
  only for a queue that holds something and is not writing, and a queue that holds something is
  never idle.
\<close>

definition buffer_ok :: "output_queue \<Rightarrow> bool" where
  "buffer_ok q \<longleftrightarrow> 2 \<le> oq_maxBatchChars q \<and> oq_chunkIndex q \<le> length (oq_chunks q) \<and>
     (\<forall>c \<in> set (pieces q). c \<noteq> []) \<and> oq_pendingChars q = int (length (concat (pieces q)))"

definition output_ok :: "output_queue \<Rightarrow> bool" where
  "output_ok q \<longleftrightarrow> buffer_ok q \<and> (oq_disposed q \<longrightarrow> pieces q = [] \<and> \<not> oq_scheduled q) \<and>
     \<not> (oq_writing q \<and> oq_scheduled q) \<and> (oq_scheduled q \<longrightarrow> pieces q \<noteq> []) \<and>
     (pieces q \<noteq> [] \<longrightarrow> oq_scheduled q \<or> oq_writing q)"

lemma pieces_congs [simp]:
  "pieces (q\<lparr>oq_scheduled := b\<rparr>) = pieces q" "pieces (q\<lparr>oq_writing := b\<rparr>) = pieces q"
  "pieces (q\<lparr>oq_disposed := b\<rparr>) = pieces q" "pieces (q\<lparr>oq_output := out\<rparr>) = pieces q"
  "pieces (q\<lparr>oq_pendingChars := n\<rparr>) = pieces q" "pieces (scheduleNext q) = pieces q"
  by (simp_all add: pieces_def scheduleNext_def)

lemma pending_zero_iff: "buffer_ok q \<Longrightarrow> oq_pendingChars q = 0 \<longleftrightarrow> pieces q = []"
  by (cases "pieces q") (auto simp: buffer_ok_def add_nonneg_eq_0_iff)

lemma takeBatch_facts:
  assumes ok: "buffer_ok q" and b: "takeBatch q = (batch, r)"
  obtains cs i where "taken_ok [] (oq_maxBatchChars q) (oq_chunks q) (oq_chunkIndex q) ([batch], cs, i)"
    and "pieces r = drop i cs" and "r = q\<lparr>oq_pendingChars := oq_pendingChars r, oq_chunks := oq_chunks r, oq_chunkIndex := oq_chunkIndex r\<rparr>"
    and "oq_chunkIndex r \<le> length (oq_chunks r)" and "oq_pendingChars r = oq_pendingChars q - int (length batch)"
proof -
  obtain ps cs i where t: "take_parts [] (oq_maxBatchChars q) (oq_chunks q) (oq_chunkIndex q) = (ps, cs, i)"
    by (metis prod_cases3)
  have "taken_ok [] (oq_maxBatchChars q) (oq_chunks q) (oq_chunkIndex q) (ps, cs, i)"
    using take_parts_ok [of "oq_chunkIndex q" "oq_chunks q"] ok t by (metis buffer_ok_def)
  moreover have "batch = concat ps"
    using b t by (auto simp: takeBatch_def Let_def)
  ultimately have taken: "taken_ok [] (oq_maxBatchChars q) (oq_chunks q) (oq_chunkIndex q) ([batch], cs, i)"
    by (simp add: taken_ok_def)
  then have "i \<le> length cs"
    by (simp add: taken_ok_def)
  with b t that [OF taken] show thesis
    by (auto simp: takeBatch_def Let_def pieces_def split: if_splits)
qed

text \<open>With a budget of two code units the first piece always yields something.\<close>

lemma take_parts_some:
  assumes "2 \<le> remaining" "index < length chunks" "chunks ! index \<noteq> []"
  shows "concat (fst (take_parts parts remaining chunks index)) \<noteq> []"
proof (cases "length (chunks ! index) \<le> remaining")
  case True
  then show ?thesis
    using take_parts_ok [of "index + 1" chunks "parts @ [chunks ! index]" "remaining - length (chunks ! index)"] assms
    by (auto simp: take_parts_whole taken_ok_def split: prod.splits)
next
  case False
  then have "cut_length (chunks ! index) remaining \<noteq> 0"
    using assms(1) by (auto simp: cut_length_def)
  with False assms show ?thesis
    by (simp add: take_parts_cut)
qed

lemma takeBatch_some:
  assumes ok: "buffer_ok q" and "pieces q \<noteq> []"
  shows "fst (takeBatch q) \<noteq> []"
proof -
  have "oq_chunkIndex q < length (oq_chunks q)"
    using assms(2) by (simp add: pieces_def)
  moreover from this have "oq_chunks q ! oq_chunkIndex q \<in> set (pieces q)"
    unfolding pieces_def by (metis Cons_nth_drop_Suc list.set_intros(1))
  ultimately have "concat (fst (take_parts [] (oq_maxBatchChars q) (oq_chunks q) (oq_chunkIndex q))) \<noteq> []"
    using ok by (intro take_parts_some) (auto simp: buffer_ok_def)
  then show ?thesis
    by (auto simp: takeBatch_def Let_def split: prod.splits)
qed

lemma takeBatch_ok:
  assumes ok: "buffer_ok q" and b: "takeBatch q = (batch, r)"
  shows "buffer_ok r \<and> batch @ concat (pieces r) = concat (pieces q)"
proof -
  obtain cs i where f: "taken_ok [] (oq_maxBatchChars q) (oq_chunks q) (oq_chunkIndex q) ([batch], cs, i)"
    "pieces r = drop i cs" "r = q\<lparr>oq_pendingChars := oq_pendingChars r, oq_chunks := oq_chunks r, oq_chunkIndex := oq_chunkIndex r\<rparr>"
    "oq_chunkIndex r \<le> length (oq_chunks r)" "oq_pendingChars r = oq_pendingChars q - int (length batch)"
    using takeBatch_facts [OF assms] .
  have eq: "batch @ concat (pieces r) = concat (pieces q)" "\<forall>c \<in> set (pieces r). c \<noteq> []"
    using f(1,2) ok by (auto simp: taken_ok_def pieces_def buffer_ok_def)
  have "int (length batch) + int (length (concat (pieces r))) = int (length (concat (pieces q)))"
    using eq(1) by (metis length_append of_nat_add)
  moreover have "oq_maxBatchChars r = oq_maxBatchChars q"
    by (subst f(3)) simp
  ultimately show ?thesis
    using eq ok f(4,5) by (simp add: buffer_ok_def)
qed

lemma scheduleNext_buffer_ok [simp]: "buffer_ok (scheduleNext q) = buffer_ok q"
  by (simp add: buffer_ok_def scheduleNext_def pieces_def)

lemma put_chunk_ok: "buffer_ok q \<Longrightarrow> d \<noteq> [] \<Longrightarrow> buffer_ok (put_chunk d q) \<and> pieces (put_chunk d q) = pieces q @ [d]"
  by (auto simp: buffer_ok_def put_chunk_def pieces_def)

interpretation outq: batch_buffer buffer_ok pieces put_chunk takeBatch
  using put_chunk_ok takeBatch_ok takeBatch_some by unfold_locales auto

section \<open>Every event keeps the invariant\<close>

lemma scheduleNext_ok:
  assumes "buffer_ok q" "oq_disposed q \<longrightarrow> pieces q = [] \<and> \<not> oq_scheduled q"
    and "\<not> (oq_writing q \<and> oq_scheduled q)" "oq_scheduled q \<longrightarrow> pieces q \<noteq> []"
  shows "output_ok (scheduleNext q)"
proof -
  have "oq_pendingChars q = 0 \<longleftrightarrow> pieces q = []"
    using pending_zero_iff [OF assms(1)] .
  with assms show ?thesis
    by (cases "oq_disposed q \<or> oq_writing q \<or> oq_pendingChars q = 0 \<or> oq_scheduled q")
      (auto simp: output_ok_def, auto simp: scheduleNext_def)
qed

lemma buffer_ok_congs [simp]:
  "buffer_ok (q\<lparr>oq_scheduled := b\<rparr>) = buffer_ok q" "buffer_ok (q\<lparr>oq_writing := b\<rparr>) = buffer_ok q"
  "buffer_ok (q\<lparr>oq_disposed := b\<rparr>) = buffer_ok q" "buffer_ok (q\<lparr>oq_output := out\<rparr>) = buffer_ok q"
  by (simp_all add: buffer_ok_def)

lemma enqueue_output_ok: "output_ok q \<Longrightarrow> output_ok (enqueue_output d q)"
  using put_chunk_ok [of q d] unfolding enqueue_output_def
  by (auto simp: output_ok_def [of q] intro!: scheduleNext_ok) (auto simp: put_chunk_def)

lemma clear_output_ok: "output_ok q \<Longrightarrow> output_ok (clear_output q)"
  by (auto simp: output_ok_def clear_output_def buffer_ok_def pieces_def)

lemma dispose_output_ok: "output_ok q \<Longrightarrow> output_ok (dispose_output q)"
  by (auto simp: dispose_output_def output_ok_def clear_output_def buffer_ok_def pieces_def)

lemma on_parsed_ok: "output_ok q \<Longrightarrow> output_ok (on_parsed q)"
  unfolding on_parsed_def by (auto simp: output_ok_def [of q] intro!: scheduleNext_ok)

lemma takeBatch_frame:
  "takeBatch q = (batch, r) \<Longrightarrow> oq_disposed r = oq_disposed q \<and> oq_scheduled r = oq_scheduled q \<and>
     oq_writing r = oq_writing q \<and> oq_output r = oq_output q \<and> oq_maxBatchChars r = oq_maxBatchChars q"
  by (auto simp: takeBatch_def Let_def split: prod.splits if_splits)

text \<open>The three ways a flush of a scheduled queue can end.\<close>

lemma flush_cases:
  assumes ok: "output_ok q" and sched: "oq_scheduled q" and b: "takeBatch (q\<lparr>oq_scheduled := False\<rparr>) = (batch, r)"
  shows "output_step q (Flush result) =
    (let r = r\<lparr>oq_writing := True, oq_output := oq_output q @ [batch]\<rparr> in
     case result of Accepted \<Rightarrow> r | AcceptedParsed \<Rightarrow> on_parsed r
     | WriteThrows \<Rightarrow> clear_output (r\<lparr>oq_writing := False, oq_disposed := True\<rparr>))"
proof -
  have "\<not> oq_disposed q" "\<not> oq_writing q" "oq_pendingChars q \<noteq> 0"
    using ok sched pending_zero_iff [of q] by (auto simp: output_ok_def)
  with b sched takeBatch_frame [OF b] show ?thesis
    by (simp add: flushNext_def)
qed

lemma flush_writing_ok:
  assumes ok: "output_ok q" and sched: "oq_scheduled q" and b: "takeBatch (q\<lparr>oq_scheduled := False\<rparr>) = (batch, r)"
  shows "output_ok (r\<lparr>oq_writing := True, oq_output := out\<rparr>)"
  using takeBatch_ok [OF _ b] takeBatch_frame [OF b] ok sched by (auto simp: output_ok_def)

lemma output_step_ok: "output_ok q \<Longrightarrow> output_ok (output_step q e)"
proof (cases e)
  case (Flush result)
  assume ok: "output_ok q"
  obtain batch r where b: "takeBatch (q\<lparr>oq_scheduled := False\<rparr>) = (batch, r)"
    by fastforce
  let ?r = "r\<lparr>oq_writing := True, oq_output := oq_output q @ [batch]\<rparr>"
  show ?thesis
  proof (cases "oq_scheduled q")
    case True
    have "output_ok ?r"
      by (rule flush_writing_ok [OF ok True b])
    moreover from this have "output_ok (on_parsed ?r)"
      by (rule on_parsed_ok)
    moreover have "output_ok (clear_output (?r\<lparr>oq_writing := False, oq_disposed := True\<rparr>))"
      using calculation(1) by (auto simp: output_ok_def clear_output_def buffer_ok_def pieces_def)
    ultimately show ?thesis
      unfolding Flush flush_cases [OF ok True b] by (simp add: Let_def split: write_result.splits)
  qed (use ok Flush in simp)
qed (auto simp: enqueue_output_ok clear_output_ok dispose_output_ok on_parsed_ok)

lemma floor_at_least_two: "\<not> x < 2 \<Longrightarrow> 2 \<le> nat \<lfloor>x\<rfloor>" for x :: rat
  using le_floor_iff [of 2 x] by linarith

lemma new_output_queue_ok: "new_output_queue n = Inr q \<Longrightarrow> output_ok q \<and> oq_output q = [] \<and> pieces q = []"
  by (auto simp: new_output_queue_def output_ok_def buffer_ok_def pieces_def floor_at_least_two split: js_number.splits if_splits)

interpretation output_queue: reducer output_step output_ok
  by unfold_locales (rule output_step_ok)

section \<open>What the terminal receives\<close>

text \<open>Events of a run in which nothing is thrown away.\<close>

fun lossless :: "output_event \<Rightarrow> bool" where
  "lossless Clear = False"
| "lossless Dispose = False"
| "lossless (Flush result) = (result \<noteq> WriteThrows)"
| "lossless _ = True"

fun chunk_of :: "output_event \<Rightarrow> code_units list" where
  "chunk_of (Enqueue data) = (if data = [] then [] else [data])"
| "chunk_of _ = []"

definition chunks_of :: "output_event list \<Rightarrow> code_units list" where
  "chunks_of es = concat (map chunk_of es)"

text \<open>A cut of the stream \<open>concat ds\<close> after \<open>xs\<close> that separates a pair lies between two chunks.\<close>

definition cut_ok :: "code_units list \<Rightarrow> code_units \<Rightarrow> bool" where
  "cut_ok ds xs \<longleftrightarrow> (pair_split xs (drop (length xs) (concat ds)) \<longrightarrow> (\<exists>k. xs = concat (take k ds)))"

definition stream_ok :: "code_units list \<Rightarrow> output_queue \<Rightarrow> bool" where
  "stream_ok ds q \<longleftrightarrow> concat (oq_output q) @ concat (pieces q) = concat ds \<and> \<not> oq_disposed q \<and>
     (\<exists>k. tl (pieces q) = drop k ds) \<and>
     (\<forall>b \<in> set (oq_output q). b \<noteq> [] \<and> length b \<le> oq_maxBatchChars q) \<and>
     (\<forall>n. cut_ok ds (concat (take n (oq_output q))))"

lemma cut_ok_more:
  assumes "cut_ok ds xs" "concat ds = xs @ ys"
  shows "cut_ok (ds @ es) xs"
proof (cases "ys = []")
  case True
  then have "xs = concat (take (length ds) (ds @ es))"
    using assms(2) by simp
  then show ?thesis
    unfolding cut_ok_def by blast
next
  case False
  show ?thesis
    unfolding cut_ok_def
  proof
    assume "pair_split xs (drop (length xs) (concat (ds @ es)))"
    then have "pair_split xs (drop (length xs) (concat ds))"
      using False assms(2) by (simp add: pair_split_def)
    then obtain k where k: "xs = concat (take k ds)"
      using assms(1) by (auto simp: cut_ok_def)
    have "take (min k (length ds)) (ds @ es) = take k ds"
      by (simp add: min_def)
    with k show "\<exists>k. xs = concat (take k (ds @ es))"
      by metis
  qed
qed

lemma stream_ok_prefix:
  "stream_ok ds q \<Longrightarrow> \<exists>ys. concat ds = concat (take n (oq_output q)) @ ys"
  unfolding stream_ok_def by (metis append.assoc append_take_drop_id concat_append)

lemma stream_ok_put:
  assumes s: "stream_ok ds q" and d: "d \<noteq> []" and ok: "buffer_ok q"
  shows "stream_ok (ds @ [d]) (put_chunk d q)"
proof -
  obtain k where k: "tl (pieces q) = drop k ds"
    using s by (auto simp: stream_ok_def)
  have "\<exists>j. tl (pieces q @ [d]) = drop j (ds @ [d])"
  proof (cases "pieces q = []")
    case True
    then show ?thesis
      by (intro exI [of _ "length (ds @ [d])"]) simp
  next
    case False
    then have "tl (pieces q @ [d]) = drop (min k (length ds)) (ds @ [d])"
      using k by (simp add: tl_append2 min_def)
    then show ?thesis ..
  qed
  moreover have "oq_output (put_chunk d q) = oq_output q" "oq_disposed (put_chunk d q) = oq_disposed q"
    "oq_maxBatchChars (put_chunk d q) = oq_maxBatchChars q"
    by (simp_all add: put_chunk_def)
  moreover have "cut_ok (ds @ [d]) (concat (take n (oq_output q)))" for n
    using s stream_ok_prefix [OF s, of n] cut_ok_more unfolding stream_ok_def by metis
  ultimately show ?thesis
    using s put_chunk_ok [OF ok d] by (auto simp: stream_ok_def)
qed

lemma stream_ok_batch:
  assumes s: "stream_ok ds q" and ok: "buffer_ok q" and some: "pieces q \<noteq> []" and b: "takeBatch q = (batch, r)"
  shows "stream_ok ds (r\<lparr>oq_writing := w, oq_output := oq_output q @ [batch]\<rparr>)"
proof -
  let ?idx = "oq_chunkIndex q" and ?chunks = "oq_chunks q"
  obtain cs i where t: "taken_ok [] (oq_maxBatchChars q) ?chunks ?idx ([batch], cs, i)" and r: "pieces r = drop i cs"
    using takeBatch_facts [OF ok b] by metis
  have ne: "batch \<noteq> []"
    using takeBatch_some [OF ok some] b by simp
  have eq: "batch @ concat (pieces r) = concat (pieces q)"
    using takeBatch_ok [OF ok b] by simp
  have i: "?idx \<le> i" "drop (i + 1) cs = drop (i + 1) ?chunks" "length batch \<le> oq_maxBatchChars q"
    and whole: "pair_split batch (concat (pieces r)) \<Longrightarrow> pieces r = drop i ?chunks"
    using t r by (auto simp: taken_ok_def)
  obtain k where k: "drop (?idx + 1) ?chunks = drop k ds"
    using s by (auto simp: stream_ok_def pieces_def drop_Suc tl_drop)
  have later: "drop j ?chunks = drop (j - (?idx + 1) + k) ds" if "?idx < j" for j
    using arg_cong [OF k, of "drop (j - (?idx + 1))"] that by simp
  have out: "concat ds = (concat (oq_output q) @ batch) @ concat (pieces r)"
    using s eq by (simp add: stream_ok_def)
  have "tl (pieces r) = drop (i - ?idx + k) ds"
    using later [of "i + 1"] i(1,2) by (simp add: r drop_Suc tl_drop)
  moreover have last_cut: "cut_ok ds (concat (oq_output q) @ batch)"
    unfolding cut_ok_def
  proof
    assume "pair_split (concat (oq_output q) @ batch) (drop (length (concat (oq_output q) @ batch)) (concat ds))"
    then have "pair_split batch (concat (pieces r))"
      using ne out by (simp add: pair_split_def)
    then have p: "pieces r = drop i ?chunks"
      by (rule whole)
    have "i \<noteq> ?idx"
      using p eq ne by (auto simp: pieces_def)
    then have "pieces r = drop (i - (?idx + 1) + k) ds"
      using later [of i] i(1) p by simp
    then have "(concat (oq_output q) @ batch) @ concat (pieces r) = concat (take (i - (?idx + 1) + k) ds) @ concat (pieces r)"
      using out by (metis append_take_drop_id concat_append)
    then show "\<exists>k. concat (oq_output q) @ batch = concat (take k ds)"
      by blast
  qed
  moreover have "cut_ok ds (concat (take n (oq_output q @ [batch])))" for n
    using s last_cut by (cases "n \<le> length (oq_output q)") (auto simp: stream_ok_def take_Cons')
  ultimately show ?thesis
    using s ne i(3) out takeBatch_frame [OF b] by (auto simp: stream_ok_def simp del: take_append)
qed

lemma stream_ok_congs:
  "stream_ok ds (scheduleNext q) = stream_ok ds q" "stream_ok ds (q\<lparr>oq_writing := w\<rparr>) = stream_ok ds q"
  "stream_ok ds (q\<lparr>oq_scheduled := w\<rparr>) = stream_ok ds q"
  by (simp_all add: stream_ok_def scheduleNext_def)

lemma stream_ok_on_parsed: "stream_ok ds (on_parsed q) = stream_ok ds q"
  by (simp add: on_parsed_def stream_ok_congs)

lemma stream_ok_step:
  assumes s: "stream_ok ds q" and ok: "output_ok q" and e: "lossless e"
  shows "stream_ok (ds @ chunk_of e) (output_step q e)"
proof (cases e)
  case (Enqueue d)
  have "\<not> oq_disposed q"
    using s by (simp add: stream_ok_def)
  then show ?thesis
    using Enqueue s ok stream_ok_put [OF s, of d] by (auto simp: enqueue_output_def stream_ok_congs output_ok_def)
next
  case (Flush result)
  obtain batch r where b: "takeBatch (q\<lparr>oq_scheduled := False\<rparr>) = (batch, r)"
    by fastforce
  show ?thesis
  proof (cases "oq_scheduled q")
    case True
    let ?r = "r\<lparr>oq_writing := True, oq_output := oq_output q @ [batch]\<rparr>"
    have "stream_ok ds ?r"
      using stream_ok_batch [of ds "q\<lparr>oq_scheduled := False\<rparr>" batch r True] s ok True b
      by (simp add: stream_ok_congs output_ok_def)
    then show ?thesis
      using e unfolding Flush flush_cases [OF ok True b]
      by (cases result) (simp_all add: Let_def stream_ok_on_parsed)
  qed (use s Flush in simp)
qed (use s e in \<open>simp_all add: stream_ok_on_parsed\<close>)

lemma stream_ok_run:
  assumes "stream_ok ds q" "output_ok q" "\<forall>e \<in> set es. lossless e"
  shows "stream_ok (ds @ chunks_of es) (foldl output_step q es)"
  using assms
proof (induction es arbitrary: ds q)
  case (Cons e es)
  then have "stream_ok ((ds @ chunk_of e) @ chunks_of es) (foldl output_step (output_step q e) es)"
    using stream_ok_step [of ds q e] output_step_ok [of q e] by (intro Cons.IH) auto
  then show ?case
    by (simp add: chunks_of_def)
qed (simp add: chunks_of_def)

text \<open>
  C20. As long as the queue is not cleared or disposed of and the terminal does not throw, the
  terminal receives the output in order, without loss or duplication: what it has received,
  followed by what the queue still holds, is the sequence of the chunks that came in; every
  batch is non-empty and has at most \<open>maxBatchChars\<close> code units; and a batch ends inside a
  surrogate pair only where the program that sent the output had cut it into two chunks.
\<close>

theorem output_fifo:
  assumes "new_output_queue limit = Inr q" and "\<forall>e \<in> set events. lossless e"
    and "r = foldl output_step q events"
  shows "concat (oq_output r) @ concat (pieces r) = concat (chunks_of events) \<and>
    (\<forall>b \<in> set (oq_output r). b \<noteq> [] \<and> length b \<le> oq_maxBatchChars r) \<and>
    (\<forall>n. let sent = concat (take n (oq_output r)) in
      pair_split sent (drop (length sent) (concat (chunks_of events))) \<longrightarrow>
      (\<exists>k. sent = concat (take k (chunks_of events))))"
proof -
  have "stream_ok [] q"
    using new_output_queue_ok [OF assms(1)] assms(1)
    by (auto simp: stream_ok_def cut_ok_def pair_split_def new_output_queue_def split: js_number.splits if_splits)
  then have "stream_ok ([] @ chunks_of events) r"
    unfolding assms(3) using new_output_queue_ok [OF assms(1)] assms(2) by (intro stream_ok_run) auto
  then show ?thesis
    by (auto simp: stream_ok_def cut_ok_def Let_def)
qed

text \<open>One round of the environment: the terminal has parsed, the scheduled callback runs.\<close>

definition output_round :: "output_queue \<Rightarrow> output_queue" where
  "output_round q = output_step (output_step q Parsed) (Flush Accepted)"

lemma parsed_scheduled:
  assumes "output_ok q"
  shows "output_ok (on_parsed q)" "pieces (on_parsed q) = pieces q" "oq_output (on_parsed q) = oq_output q"
    "oq_scheduled (on_parsed q) \<longleftrightarrow> pieces q \<noteq> []"
  using on_parsed_ok [OF assms] assms
  by (auto simp: on_parsed_def output_ok_def scheduleNext_def)

lemma output_round_facts:
  assumes ok: "output_ok q"
  shows "output_ok (output_round q) \<and>
    concat (oq_output (output_round q)) @ concat (pieces (output_round q)) = concat (oq_output q) @ concat (pieces q) \<and>
    length (concat (pieces (output_round q))) \<le> length (concat (pieces q)) - 1"
proof (cases "pieces q = []")
  case True
  then show ?thesis
    using parsed_scheduled [OF ok] by (simp add: output_round_def)
next
  case False
  let ?q = "on_parsed q"
  have sched: "output_ok ?q" "oq_scheduled ?q" "buffer_ok (?q\<lparr>oq_scheduled := False\<rparr>)"
    using parsed_scheduled [OF ok] False by (auto simp: output_ok_def)
  obtain batch r where b: "takeBatch (?q\<lparr>oq_scheduled := False\<rparr>) = (batch, r)"
    by fastforce
  have round: "output_round q = r\<lparr>oq_writing := True, oq_output := oq_output q @ [batch]\<rparr>"
    using flush_cases [OF sched(1,2) b, of Accepted] parsed_scheduled(3) [OF ok] by (simp add: output_round_def Let_def)
  have "batch @ concat (pieces r) = concat (pieces q)"
    using takeBatch_ok [OF sched(3) b] parsed_scheduled(2) [OF ok] by simp
  moreover have "length (concat (pieces r)) < length (concat (pieces q))"
    using outq.grab_shorter [OF sched(3)] False b parsed_scheduled(2) [OF ok] by simp
  ultimately show ?thesis
    using flush_writing_ok [OF sched(1,2) b] by (simp add: round)
qed

lemma output_rounds:
  assumes "output_ok q"
  shows "output_ok ((output_round ^^ n) q) \<and>
    concat (oq_output ((output_round ^^ n) q)) @ concat (pieces ((output_round ^^ n) q)) =
      concat (oq_output q) @ concat (pieces q) \<and>
    length (concat (pieces ((output_round ^^ n) q))) \<le> length (concat (pieces q)) - n"
proof (induction n)
  case (Suc n)
  let ?q = "(output_round ^^ n) q"
  have "output_ok (output_round ?q) \<and>
      concat (oq_output (output_round ?q)) @ concat (pieces (output_round ?q)) = concat (oq_output ?q) @ concat (pieces ?q) \<and>
      length (concat (pieces (output_round ?q))) \<le> length (concat (pieces ?q)) - 1"
    by (rule output_round_facts) (use Suc in simp)
  with Suc show ?case
    by auto
qed (use assms in simp)

text \<open>
  C21. Output never gets stuck, whatever has happened to the queue before: a queue that holds
  output is scheduled or waits for the terminal, and when the terminal parses what it was given
  and the scheduled callback runs, as often as there are code units in the queue, all of it has
  reached the terminal.
\<close>

theorem output_never_stalls:
  assumes "new_output_queue limit = Inr q" and "r = foldl output_step q events"
    and "length (concat (pieces r)) \<le> n" and "s = (output_round ^^ n) r"
  shows "(oq_pendingChars r > 0 \<longrightarrow> oq_scheduled r \<or> oq_writing r) \<and>
    oq_pendingChars s = 0 \<and> concat (oq_output s) = concat (oq_output r) @ concat (pieces r)"
proof -
  have ok: "output_ok r"
    unfolding assms(2) using new_output_queue_ok [OF assms(1)] output_queue.run_invar by blast
  then have "oq_pendingChars r > 0 \<longrightarrow> oq_scheduled r \<or> oq_writing r"
    using pending_zero_iff [of r] by (auto simp: output_ok_def)
  moreover have "output_ok s" "concat (pieces s) = []"
    "concat (oq_output s) @ concat (pieces s) = concat (oq_output r) @ concat (pieces r)"
    using output_rounds [OF ok, of n] assms(3,4) by auto
  ultimately show ?thesis
    by (auto simp: output_ok_def buffer_ok_def)
qed

text \<open>Six code units with a surrogate pair in the middle, in batches of three.\<close>

definition sample_output_events :: "output_event list" where
  "sample_output_events =
     [Enqueue [0x61, 0x62, 0xd83d, 0xde00, 0x63], Enqueue [0x64], Flush Accepted, Parsed, Flush AcceptedParsed]"

definition sample_output_queue :: output_queue where
  "sample_output_queue = \<lparr>oq_maxBatchChars = 3, oq_chunks = [], oq_chunkIndex = 0, oq_disposed = False,
     oq_pendingChars = 0, oq_scheduled = False, oq_writing = False, oq_output = []\<rparr>"

lemma sample_output_queue_new: "new_output_queue (Finite 3) = Inr sample_output_queue"
  by (simp add: new_output_queue_def sample_output_queue_def isInteger_def)

lemma sample_output_values:
  "oq_output (foldl output_step sample_output_queue sample_output_events) = [[0x61, 0x62], [0xd83d, 0xde00, 0x63]]"
  "length (concat (pieces (foldl output_step sample_output_queue sample_output_events))) = 1"
  "\<forall>e \<in> set sample_output_events. lossless e"
  by code_simp+

theorem output_fifo_witness:
  "oq_output (foldl output_step sample_output_queue sample_output_events) = [[0x61, 0x62], [0xd83d, 0xde00, 0x63]] \<and>
   concat (oq_output (foldl output_step sample_output_queue sample_output_events)) @
     concat (pieces (foldl output_step sample_output_queue sample_output_events)) =
   concat (chunks_of sample_output_events)"
  using output_fifo [OF sample_output_queue_new sample_output_values(3) refl] sample_output_values(1) by blast

theorem output_never_stalls_witness:
  "oq_pendingChars ((output_round ^^ 1) (foldl output_step sample_output_queue sample_output_events)) = 0"
  using output_never_stalls [OF sample_output_queue_new refl, of sample_output_events 1] sample_output_values(2) by simp

section \<open>The scheduler\<close>

text \<open>
  \<open>createTerminalOutputSchedule\<close>: the callback is registered with the next animation frame and
  with a timer; the first of the two runs it. \<open>os_calls\<close> counts the calls of the callback.
\<close>

record output_schedule =
  os_active :: bool
  os_frame :: bool
  os_timer :: bool
  os_calls :: nat

definition schedule_output :: output_schedule where
  "schedule_output = \<lparr>os_active = True, os_frame = True, os_timer = True, os_calls = 0\<rparr>"

definition run_callback :: "output_schedule \<Rightarrow> output_schedule" where
  "run_callback s =
     (if \<not> os_active s then s
      else s\<lparr>os_active := False, os_frame := False, os_timer := False, os_calls := os_calls s + 1\<rparr>)"

definition cancel_schedule :: "output_schedule \<Rightarrow> output_schedule" where
  "cancel_schedule s = (if \<not> os_active s then s else s\<lparr>os_active := False, os_frame := False, os_timer := False\<rparr>)"

datatype schedule_event = FrameFires | TimerFires | CancelCalled

text \<open>A frame or timer that fires is no longer registered.\<close>

fun schedule_step :: "output_schedule \<Rightarrow> schedule_event \<Rightarrow> output_schedule" where
  "schedule_step s FrameFires = (if os_frame s then run_callback (s\<lparr>os_frame := False\<rparr>) else s)"
| "schedule_step s TimerFires = (if os_timer s then run_callback (s\<lparr>os_timer := False\<rparr>) else s)"
| "schedule_step s CancelCalled = cancel_schedule s"

lemma schedule_settled:
  "\<not> os_active s \<Longrightarrow> os_calls (foldl schedule_step s es) = os_calls s \<and> \<not> os_active (foldl schedule_step s es)"
proof (induction es arbitrary: s)
  case (Cons e es)
  then have "\<not> os_active (schedule_step s e) \<and> os_calls (schedule_step s e) = os_calls s"
    by (cases e) (auto simp: run_callback_def cancel_schedule_def)
  with Cons.IH [of "schedule_step s e"] show ?case
    by simp
qed simp

text \<open>
  A scheduled callback runs exactly once, for the first frame or timer, unless it was
  cancelled before; after it was cancelled it never runs.
\<close>

theorem schedule_runs_once:
  "os_calls (foldl schedule_step schedule_output (e # events)) = (if e = CancelCalled then 0 else 1)"
proof -
  have "\<not> os_active (schedule_step schedule_output e)"
    by (cases e) (simp_all add: schedule_output_def run_callback_def cancel_schedule_def)
  moreover have "os_calls (schedule_step schedule_output e) = (if e = CancelCalled then 0 else 1)"
    by (cases e) (simp_all add: schedule_output_def run_callback_def cancel_schedule_def)
  ultimately show ?thesis
    using schedule_settled by simp
qed

end
