(* ===== verification/Remote_Paths.thy ===== *)
theory Remote_Paths
  imports Js_Strings
begin

text \<open>
  Remote paths, after \<open>src/features/files/remoteFilePaths.ts\<close>: normalisation, the parent, the
  ancestors and the test for a path inside another. The order of the directory listing
  (\<open>sortRemoteFileEntries\<close>) rests on \<open>localeCompare\<close>, which is a parameter.
\<close>

section \<open>Normalisation\<close>

text \<open>\<open>replace(/\/+/g, "/")\<close>\<close>

fun collapse_slashes :: "string \<Rightarrow> string" where
  "collapse_slashes (x # y # s) =
     (if x = CHR ''/'' \<and> y = CHR ''/'' then collapse_slashes (y # s) else x # collapse_slashes (y # s))"
| "collapse_slashes s = s"

definition slash :: "char \<Rightarrow> char" where
  "slash c = (if c = CHR 0x5C then CHR ''/'' else c)"

definition drop_trailing_slash :: "string \<Rightarrow> string" where
  "drop_trailing_slash s = (if s \<noteq> [] \<and> List.last s = CHR ''/'' then butlast s else s)"

definition normalizeRemotePath :: "string option \<Rightarrow> string" where
  "normalizeRemotePath path =
     (let normalized = collapse_slashes (map slash (js_trim (case truthy path of None \<Rightarrow> ''/'' | Some p \<Rightarrow> p))) in
      if normalized = [] then ''/'' else if normalized = ''/'' then ''/'' else drop_trailing_slash normalized)"

section \<open>Parents, ancestors, descendants\<close>

text \<open>
  \<open>lastIndexOf("/")\<close> is -1 for a path without a slash, and \<open>slice(0, -1)\<close> drops the last code unit:
  here the last character (a character outside the basic plane would leave half a pair behind).
\<close>

definition drop_last_char :: "string \<Rightarrow> string" where
  "drop_last_char s = rev (case dropWhile (\<lambda>c. 128 \<le> (of_char c :: nat) \<and> (of_char c :: nat) < 192) (rev s) of
     [] \<Rightarrow> [] | c # cs \<Rightarrow> cs)"

definition before_last_slash :: "string \<Rightarrow> string" where
  "before_last_slash s = (if CHR ''/'' \<in> set s then rev (tl (dropWhile (\<lambda>c. c \<noteq> CHR ''/'') (rev s)))
     else drop_last_char s)"

definition remotePathParent :: "string option \<Rightarrow> string" where
  "remotePathParent path =
     (let normalizedPath = normalizeRemotePath path in
      if normalizedPath = ''/'' then ''/''
      else let parentPath = before_last_slash normalizedPath in if parentPath = [] then ''/'' else parentPath)"

definition remotePathAncestors :: "string option \<Rightarrow> string list" where
  "remotePathAncestors path =
     (let normalizedPath = normalizeRemotePath path in
      if normalizedPath = ''/'' then []
      else let segments = filter (\<lambda>s. s \<noteq> []) (split_on CHR ''/'' normalizedPath) in
        map (\<lambda>index. if index = 0 then ''/'' else ''/'' @ join_with ''/'' (take index segments)) [0..<length segments])"

definition isRemotePathStrictDescendant :: "string option \<Rightarrow> string option \<Rightarrow> bool" where
  "isRemotePathStrictDescendant path ancestor =
     (let normalizedPath = normalizeRemotePath path; normalizedAncestor = normalizeRemotePath ancestor in
      if normalizedPath = normalizedAncestor then False
      else if normalizedAncestor = ''/'' then normalizedPath \<noteq> ''/''
      else prefix (normalizedAncestor @ ''/'') normalizedPath)"

datatype RemoteFileKind = KindDirectory | KindFile | KindSymlink | KindOther

fun remoteFileRank :: "RemoteFileKind \<Rightarrow> nat" where
  "remoteFileRank KindDirectory = 0"
| "remoteFileRank KindSymlink = 1"
| "remoteFileRank KindFile = 2"
| "remoteFileRank KindOther = 3"

definition shouldShowRemoteDirectoryEmptyRow :: "nat \<Rightarrow> bool \<Rightarrow> bool \<Rightarrow> bool" where
  "shouldShowRemoteDirectoryEmptyRow childCount loaded loading \<longleftrightarrow> loaded \<and> \<not> loading \<and> childCount = 0"

section \<open>The shape of a normalised path\<close>

text \<open>An absolute path is the root or a non-empty list of non-empty segments behind a slash.\<close>

definition path_of :: "string list \<Rightarrow> string" where
  "path_of segments = ''/'' @ join_with ''/'' segments"

definition segments_ok :: "string list \<Rightarrow> bool" where
  "segments_ok segments \<longleftrightarrow> (\<forall>s \<in> set segments. s \<noteq> [] \<and> CHR ''/'' \<notin> set s)"

lemma collapse_slashes_eq_Nil [simp]: "collapse_slashes s = [] \<longleftrightarrow> s = []"
  by (induction s rule: collapse_slashes.induct) auto

lemma collapse_no_double: "\<not> sublist ''//'' (collapse_slashes s)"
proof (induction s rule: collapse_slashes.induct)
  case (1 x y s)
  have "hd (collapse_slashes (y # s)) = y" for y s
    by (induction "y # s" arbitrary: y s rule: collapse_slashes.induct) auto
  then have "\<exists>zs. collapse_slashes (y # s) = y # zs"
    by (metis collapse_slashes_eq_Nil list.collapse list.distinct(1))
  then show ?case
    using 1 by (auto simp: sublist_Cons_right)
qed (auto simp: sublist_Cons_right)

lemma collapse_id: "\<not> sublist ''//'' s \<Longrightarrow> collapse_slashes s = s"
  by (induction s rule: collapse_slashes.induct) (auto simp: sublist_Cons_right)


lemma slash_no_backslash: "CHR 0x5C \<notin> set (map slash s)"
  by (auto simp: slash_def)

lemma collapse_set: "set (collapse_slashes s) = set s"
  by (induction s rule: collapse_slashes.induct) auto

text \<open>
  A normalised remote path is not empty, contains no backslash and no empty segment, and
  ends in a slash only when it is the root.
\<close>

theorem normalizeRemotePath_shape:
  "normalizeRemotePath path \<noteq> [] \<and> CHR 0x5C \<notin> set (normalizeRemotePath path) \<and>
   \<not> sublist ''//'' (normalizeRemotePath path) \<and>
   (normalizeRemotePath path = ''/'' \<or> List.last (normalizeRemotePath path) \<noteq> CHR ''/'')"
proof -
  define n where "n = collapse_slashes (map slash (js_trim (case truthy path of None \<Rightarrow> ''/'' | Some p \<Rightarrow> p)))"
  have n: "\<not> sublist ''//'' n" "CHR 0x5C \<notin> set n"
    using collapse_no_double slash_no_backslash by (auto simp: n_def collapse_set)
  have r: "normalizeRemotePath path = (if n = [] \<or> n = ''/'' then ''/'' else drop_trailing_slash n)"
    unfolding normalizeRemotePath_def Let_def n_def by simp
  have cut: "butlast n \<noteq> [] \<and> List.last (butlast n) \<noteq> CHR ''/'' \<and> \<not> sublist ''//'' (butlast n)"
    if "n \<noteq> []" "n \<noteq> ''/''" "List.last n = CHR ''/''"
  proof -
    have whole: "n = butlast n @ ''/''"
      using that by (metis append_butlast_last_id)
    then have ne: "butlast n \<noteq> []"
      using that(2) by auto
    have "List.last (butlast n) \<noteq> CHR ''/''"
    proof
      assume "List.last (butlast n) = CHR ''/''"
      then have "n = butlast (butlast n) @ ''//''"
        using whole ne by (metis append.assoc append_Cons append_Nil append_butlast_last_id)
      then show False
        using n(1) by (metis sublist_append_leftI)
    qed
    moreover have "\<not> sublist ''//'' (butlast n)"
      using n(1) whole by (metis sublist_append_rightI subset_refl sublist_order.order.trans)
    ultimately show ?thesis
      using ne by blast
  qed
  show ?thesis
    using n cut by (auto simp: r drop_trailing_slash_def sublist_Cons_right dest: in_set_butlastD)
qed

text \<open>Paths the code leaves as they are, below the root.\<close>

definition canonical_path :: "string \<Rightarrow> bool" where
  "canonical_path p \<longleftrightarrow> normalizeRemotePath (Some p) = p \<and> prefix ''/'' p"

lemma split_on_hd: "t \<noteq> [] \<Longrightarrow> hd t \<noteq> c \<Longrightarrow> hd (split_on c t) \<noteq> []"
  by (cases t) (auto split: list.splits)

lemma split_on_tl:
  "\<not> sublist [c, c] t \<Longrightarrow> t \<noteq> [] \<Longrightarrow> List.last t \<noteq> c \<Longrightarrow> [] \<notin> set (tl (split_on c t))"
proof (induction t)
  case (Cons x t)
  have sub: "\<not> sublist [c, c] t"
    using Cons.prems(1) by (auto simp: sublist_Cons_right)
  show ?case
  proof (cases "t = []")
    case False
    then have IH: "[] \<notin> set (tl (split_on c t))"
      using Cons sub by auto
    obtain y ys where y: "split_on c t = y # ys"
      by (cases "split_on c t") simp_all
    show ?thesis
    proof (cases "x = c")
      case True
      then have "hd t \<noteq> c"
        using Cons.prems(1) False by (cases t) (auto simp: sublist_Cons_right)
      then show ?thesis
        using IH y split_on_hd [OF False, of c] True by auto
    qed (use IH y in auto)
  qed (use Cons in auto)
qed simp

lemma canonical_segments:
  assumes "canonical_path p"
  obtains segs where "p = path_of segs" and "segments_ok segs"
proof (cases "p = ''/''")
  case True
  then show ?thesis
    using that [of "[]"] by (simp add: path_of_def segments_ok_def)
next
  case False
  obtain t where t: "p = CHR ''/'' # t"
    using assms by (auto simp: canonical_path_def prefix_def)
  have shape: "\<not> sublist ''//'' p" "List.last p \<noteq> CHR ''/''"
    using normalizeRemotePath_shape [of "Some p"] assms False by (auto simp: canonical_path_def)
  have tne: "t \<noteq> []"
    using t False by auto
  have sub: "\<not> sublist ''//'' t" and hd: "hd t \<noteq> CHR ''/''" and last: "List.last t \<noteq> CHR ''/''"
    using shape t tne by (auto simp: sublist_Cons_right, cases t, auto)
  let ?segs = "split_on CHR ''/'' t"
  have "[] \<notin> set ?segs"
    using split_on_tl [OF sub tne last] split_on_hd [OF tne hd]
    by (metis list.collapse set_ConsD split_on_ne)
  then show ?thesis
    using that [of ?segs] split_on_free t join_split_on [of "CHR ''/''" t]
    by (force simp: path_of_def segments_ok_def)
qed

lemma path_of_split:
  assumes "segments_ok segs" "segs \<noteq> []"
  shows "filter (\<lambda>s. s \<noteq> []) (split_on CHR ''/'' (path_of segs)) = segs"
proof -
  have "split_on CHR ''/'' (path_of segs) = [] # segs"
    using assms split_on_join [of segs "CHR ''/''"] by (auto simp: path_of_def segments_ok_def)
  then show ?thesis
    using assms by (auto simp: segments_ok_def filter_id_conv)
qed

lemma path_of_eq_root: "segments_ok segs \<Longrightarrow> path_of segs = ''/'' \<longleftrightarrow> segs = []"
  by (cases segs) (auto simp: path_of_def segments_ok_def, metis append_is_Nil_conv join_with.elims list.distinct(1) list.inject)

lemma path_of_inject:
  assumes "segments_ok ps" "segments_ok qs" "path_of ps = path_of qs"
  shows "ps = qs"
  using assms path_of_eq_root path_of_split by metis

text \<open>The paths strictly above a path are the proper prefixes of its segments.\<close>

lemma path_of_below:
  assumes ps: "segments_ok ps" and qs: "segments_ok qs" "qs \<noteq> []"
  shows "prefix (path_of qs @ ''/'') (path_of ps) \<longleftrightarrow> (\<exists>i < length ps. qs = take i ps)"
proof
  assume "prefix (path_of qs @ ''/'') (path_of ps)"
  then obtain s where s: "join_with ''/'' ps = join_with ''/'' qs @ CHR ''/'' # s"
    by (auto simp: path_of_def prefix_def)
  then have "ps \<noteq> []"
    by auto
  then have "ps = qs @ split_on CHR ''/'' s"
    using split_on_join [of ps "CHR ''/''"] split_on_join_append [of qs "CHR ''/''" s] ps qs s
    by (simp add: segments_ok_def)
  then show "\<exists>i < length ps. qs = take i ps"
    by (intro exI [of _ "length qs"]) (simp add: length_greater_0_conv)
next
  assume "\<exists>i < length ps. qs = take i ps"
  then obtain i where i: "i < length ps" "qs = take i ps"
    by blast
  then have "join_with ''/'' ps = join_with ''/'' qs @ ''/'' @ join_with ''/'' (drop i ps)"
    using join_with_append [of qs "drop i ps" "''/''"] qs(2) by simp
  then show "prefix (path_of qs @ ''/'') (path_of ps)"
    by (simp add: path_of_def)
qed

lemma ancestors_of_segments:
  assumes "canonical_path p" "p = path_of ps" "segments_ok ps"
  shows "remotePathAncestors (Some p) = map (\<lambda>i. path_of (take i ps)) [0..<length ps]"
proof (cases "ps = []")
  case True
  then show ?thesis
    using assms(1,2) by (simp add: remotePathAncestors_def canonical_path_def path_of_def)
next
  case False
  then have "p \<noteq> ''/''"
    using path_of_eq_root [OF assms(3)] assms(2) by simp
  moreover have "normalizeRemotePath (Some p) = p"
    using assms(1) by (simp add: canonical_path_def)
  moreover have "filter (\<lambda>s. s \<noteq> []) (split_on CHR ''/'' p) = ps"
    using path_of_split [OF assms(3) False] assms(2) by simp
  ultimately show ?thesis
    by (auto simp: remotePathAncestors_def Let_def path_of_def)
qed

lemma before_last_slash_eq:
  assumes "CHR ''/'' \<notin> set v"
  shows "before_last_slash (u @ CHR ''/'' # v) = u"
proof -
  have "dropWhile (\<lambda>c. c \<noteq> CHR ''/'') (rev v @ CHR ''/'' # rev u) = CHR ''/'' # rev u"
    using assms by (subst dropWhile_append2) auto
  then show ?thesis
    by (simp add: before_last_slash_def)
qed

lemma path_of_butlast:
  assumes "segments_ok ps" "ps \<noteq> []"
  shows "before_last_slash (path_of ps) = (if butlast ps = [] then [] else path_of (butlast ps))"
proof (cases ps rule: rev_cases)
  case (snoc xs x)
  then have "CHR ''/'' \<notin> set x"
    using assms by (simp add: segments_ok_def)
  moreover have "path_of (xs @ [x]) = (if xs = [] then [] else path_of xs) @ CHR ''/'' # x"
    using join_with_snoc [of xs "''/''" x] by (simp add: path_of_def)
  ultimately show ?thesis
    using before_last_slash_eq [of x "if xs = [] then [] else path_of xs"] snoc by simp
qed (use assms in simp)

text \<open>
  For absolute paths in normal form the two ways the code looks at the hierarchy agree: a path
  lies inside another exactly when the other is one of its ancestors, and the parent of a path is
  the last of its ancestors.
\<close>

theorem remote_ancestors_exact:
  assumes "canonical_path p" and "canonical_path a"
  shows "(isRemotePathStrictDescendant (Some p) (Some a) \<longleftrightarrow> a \<in> set (remotePathAncestors (Some p))) \<and>
    (p \<noteq> ''/'' \<longrightarrow> remotePathParent (Some p) = List.last (remotePathAncestors (Some p)))"
proof -
  obtain ps where ps: "p = path_of ps" "segments_ok ps"
    using canonical_segments [OF assms(1)] .
  obtain qs where qs: "a = path_of qs" "segments_ok qs"
    using canonical_segments [OF assms(2)] .
  have norm: "normalizeRemotePath (Some p) = p" "normalizeRemotePath (Some a) = a"
    using assms by (simp_all add: canonical_path_def)
  have anc: "remotePathAncestors (Some p) = map (\<lambda>i. path_of (take i ps)) [0..<length ps]"
    by (rule ancestors_of_segments [OF assms(1) ps])
  have "segments_ok (take i ps)" for i
    using ps(2) by (auto simp: segments_ok_def dest: in_set_takeD)
  then have member: "a \<in> set (remotePathAncestors (Some p)) \<longleftrightarrow> (\<exists>i < length ps. qs = take i ps)"
    using path_of_inject [OF qs(2)] by (auto simp: anc qs(1))
  have "isRemotePathStrictDescendant (Some p) (Some a) \<longleftrightarrow> (\<exists>i < length ps. qs = take i ps)"
  proof (cases "qs = []")
    case True
    then show ?thesis
      using path_of_eq_root [OF ps(2)] norm ps(1) qs(1)
      by (cases ps) (auto simp: isRemotePathStrictDescendant_def path_of_def)
  next
    case False
    then have "a \<noteq> ''/''" "p = a \<longleftrightarrow> ps = qs"
      using path_of_eq_root [OF qs(2)] path_of_inject [OF ps(2) qs(2)] ps(1) qs(1) by auto
    then show ?thesis
      using path_of_below [OF ps(2) qs(2) False] norm ps(1) qs(1)
      by (auto simp: isRemotePathStrictDescendant_def Let_def)
  qed
  moreover have "remotePathParent (Some p) = List.last (remotePathAncestors (Some p))" if "p \<noteq> ''/''"
  proof -
    have "ps \<noteq> []"
      using that ps(1) by (auto simp: path_of_def)
    moreover from this have "List.last (remotePathAncestors (Some p)) = path_of (butlast ps)"
      by (simp add: anc last_map butlast_conv_take)
    ultimately show ?thesis
      using path_of_butlast [OF ps(2)] norm(1) ps(1) that
      by (auto simp: remotePathParent_def Let_def path_of_def)
  qed
  ultimately show ?thesis
    using member by blast
qed

theorem remote_ancestors_exact_witness:
  "remotePathAncestors (Some ''/var/log/nginx'') = [''/'', ''/var'', ''/var/log''] \<and>
   isRemotePathStrictDescendant (Some ''/var/log/nginx'') (Some ''/var'') \<and>
   remotePathParent (Some ''/var/log/nginx'') = ''/var/log''"
proof -
  have canonical: "canonical_path ''/var/log/nginx''" "canonical_path ''/var''"
    by code_simp+
  have anc: "remotePathAncestors (Some ''/var/log/nginx'') = [''/'', ''/var'', ''/var/log'']"
    by code_simp
  show ?thesis
    using remote_ancestors_exact [OF canonical] unfolding anc by simp
qed

text \<open>
  A relative path with a single segment has no slash to cut at: the parent the code computes
  is the name without its last character.
\<close>

theorem relative_path_parent_is_cut:
  "remotePathParent (Some ''notes'') = ''note''"
  by code_simp

end
