(* ===== verification/Transfer_Store.thy ===== *)
theory Transfer_Store
  imports Remote_Paths Transfer_Types
begin

text \<open>
  The list of file transfers, after \<open>src/features/files/remoteFileTransferStore.ts\<close> with the
  arithmetic of \<open>remoteFileTransferUtils.ts\<close>. The store is the list of its items, newest first;
  every operation is a function on that list. \<open>Date.now()\<close>, the random part of an id, the
  translated texts and the decimal rendering of a number are arguments. Browser files (\<open>File\<close>)
  are opaque values.
\<close>

section \<open>Data\<close>

record RemoteFileEntry =
  rfe_name :: string
  rfe_path :: string
  rfe_type :: RemoteFileKind

record RemoteFileDownloadToLocalInput =
  dl_connectionId :: string
  dl_compress :: "bool option"
  dl_conflictPolicy :: "RemoteFileTransferConflictPolicy option"
  dl_directory :: "bool option"
  dl_downloadRoot :: "string option"
  dl_groupBySession :: "bool option"
  dl_keepArchives :: "bool option"
  dl_path :: string
  dl_sessionName :: "string option"
  dl_timestampDirectory :: "bool option"
  dl_timestampName :: "string option"

record 'f RemoteFileUploadItem =
  up_file :: 'f
  up_relativePath :: string

datatype 'f RemoteFileTransferRetry =
    LocalFileUpload (retry_connection: string) RemoteFileTransferConflictPolicy string string
  | LocalDirectoryUpload bool (retry_connection: string) RemoteFileTransferConflictPolicy bool string string
  | BrowserFileUpload (retry_connection: string) RemoteFileTransferConflictPolicy "'f RemoteFileUploadItem" string
  | BrowserDirectoryUpload (retry_connection: string) RemoteFileTransferConflictPolicy
      "'f RemoteFileUploadItem list" bool string string
  | DownloadRetry RemoteFileEntry (retry_input: RemoteFileDownloadToLocalInput)

record 'f RemoteFileTransferItem =
  tf_id :: string
  tf_connectionId :: "string option"
  tf_createdAt :: rat
  tf_direction :: TransferDirection
  tf_error :: "string option"
  tf_kind :: TransferKind
  tf_localPath :: "string option"
  tf_name :: string
  tf_progress :: js_number
  tf_progressDetail :: "string option"
  tf_progressIndeterminate :: bool
  tf_retry :: "'f RemoteFileTransferRetry option"
  tf_remotePath :: string
  tf_speedText :: "string option"
  tf_stage :: string
  tf_startedAt :: rat
  tf_status :: transfer_status

record RemoteFileTransferProgressEvent =
  pe_direction :: TransferDirection
  pe_loaded_bytes :: rat
  pe_total_bytes :: "rat option"
  pe_transfer_id :: string

text \<open>Texts and number formatting of the environment.\<close>

record transfer_texts =
  tx_t :: "string \<Rightarrow> string"
  tx_archiveSize :: "string \<Rightarrow> string"
  tx_number :: "rat \<Rightarrow> string"

section \<open>Arithmetic and formatting\<close>

fun clampTransferProgress :: "js_number \<Rightarrow> js_number" where
  "clampTransferProgress (Finite p) = Finite (max 0 (min 100 p))"
| "clampTransferProgress _ = Finite 0"

definition transferProgressPercent :: "rat \<Rightarrow> rat \<Rightarrow> rat" where
  "transferProgressPercent loadedBytes totalBytes =
     (if totalBytes \<le> 0 then 0 else max 0 loadedBytes / totalBytes * 100)"

definition interpolateTransferProgress :: "rat \<Rightarrow> rat \<Rightarrow> rat \<Rightarrow> rat \<Rightarrow> rat" where
  "interpolateTransferProgress start stop loadedBytes totalBytes =
     (if totalBytes \<le> 0 then stop
      else start + (stop - start) * max 0 (min 1 (loadedBytes / totalBytes)))"

text \<open>\<open>x.toFixed(1)\<close> of a non-negative number: the nearest tenth, the larger one of two.\<close>

definition toFixed1 :: "rat \<Rightarrow> string" where
  "toFixed1 x = (let n = nat \<lfloor>10 * x + 1 / 2\<rfloor> in nat_str (n div 10) @ ''.'' @ nat_str (n mod 10))"

definition formatFileSize :: "transfer_texts \<Rightarrow> rat \<Rightarrow> string" where
  "formatFileSize tx bytes =
     (if bytes < 1024 then tx_number tx bytes @ '' B''
      else if bytes < 1024 * 1024 then toFixed1 (bytes / 1024) @ '' KB''
      else if bytes < 1024 * 1024 * 1024 then toFixed1 (bytes / 1024 / 1024) @ '' MB''
      else toFixed1 (bytes / 1024 / 1024 / 1024) @ '' GB'')"

definition formatTransferProgressBytes :: "transfer_texts \<Rightarrow> rat \<Rightarrow> rat \<Rightarrow> string" where
  "formatTransferProgressBytes tx loadedBytes totalBytes =
     (if totalBytes \<le> 0 then formatFileSize tx loadedBytes
      else formatFileSize tx loadedBytes @ '' / '' @ formatFileSize tx totalBytes)"

definition calculateTransferAverageSpeed :: "rat \<Rightarrow> rat \<Rightarrow> rat \<Rightarrow> rat" where
  "calculateTransferAverageSpeed now loadedBytes startedAt =
     (let elapsedSeconds = max (1 / 1000) ((now - startedAt) / 1000) in max 0 (loadedBytes / elapsedSeconds))"

definition formatTransferSpeed :: "transfer_texts \<Rightarrow> rat \<Rightarrow> string option" where
  "formatTransferSpeed tx bytesPerSecond =
     (if bytesPerSecond \<le> 0 then None else Some (formatFileSize tx bytesPerSecond @ ''/s''))"

section \<open>History\<close>

definition maxFinishedTransferHistory :: nat where
  "maxFinishedTransferHistory = 100"

definition maxErrorTransferHistory :: nat where
  "maxErrorTransferHistory = 100"

definition finishedTransferStatuses :: "transfer_status list" where
  "finishedTransferStatuses = [TransferSuccess, TransferSkipped, TransferCanceled]"

fun trim_history :: "nat \<Rightarrow> nat \<Rightarrow> 'f RemoteFileTransferItem list \<Rightarrow> 'f RemoteFileTransferItem list" where
  "trim_history finishedCount errorCount [] = []"
| "trim_history finishedCount errorCount (item # items) =
     (if tf_status item = TransferError then
        (if errorCount < maxErrorTransferHistory then item # trim_history finishedCount (errorCount + 1) items
         else trim_history finishedCount errorCount items)
      else if tf_status item \<notin> set finishedTransferStatuses then item # trim_history finishedCount errorCount items
      else if finishedCount < maxFinishedTransferHistory then item # trim_history (finishedCount + 1) errorCount items
      else trim_history finishedCount errorCount items)"

definition trimTransferHistory :: "'f RemoteFileTransferItem list \<Rightarrow> 'f RemoteFileTransferItem list" where
  "trimTransferHistory items = trim_history 0 0 items"

section \<open>Reading the store\<close>

definition getRemoteFileTransfer :: "'f RemoteFileTransferItem list \<Rightarrow> string \<Rightarrow> 'f RemoteFileTransferItem option" where
  "getRemoteFileTransfer items transferId = find (\<lambda>item. tf_id item = transferId) items"

definition activeRemoteFileTransferIdsForConnections ::
  "'f RemoteFileTransferItem list \<Rightarrow> string list \<Rightarrow> string list" where
  "activeRemoteFileTransferIdsForConnections items connectionIds =
     map tf_id (filter (\<lambda>item. (case truthy (tf_connectionId item) of None \<Rightarrow> False | Some c \<Rightarrow> c \<in> set connectionIds) \<and>
       (tf_status item = TransferQueued \<or> tf_status item = TransferRunning)) items)"

section \<open>Changing the store\<close>

fun retry_to :: "string \<Rightarrow> 'f RemoteFileTransferRetry \<Rightarrow> 'f RemoteFileTransferRetry" where
  "retry_to c (LocalFileUpload _ p l d) = LocalFileUpload c p l d"
| "retry_to c (LocalDirectoryUpload z _ p k l d) = LocalDirectoryUpload z c p k l d"
| "retry_to c (BrowserFileUpload _ p i d) = BrowserFileUpload c p i d"
| "retry_to c (BrowserDirectoryUpload _ p is k d r) = BrowserDirectoryUpload c p is k d r"
| "retry_to c (DownloadRetry e input) = DownloadRetry e (input\<lparr>dl_connectionId := c\<rparr>)"

definition rebindRemoteFileTransferItem ::
  "'f RemoteFileTransferItem \<Rightarrow> string \<Rightarrow> string \<Rightarrow> 'f RemoteFileTransferItem" where
  "rebindRemoteFileTransferItem item fromConnectionId toConnectionId =
     (if tf_connectionId item \<noteq> Some fromConnectionId then item
      else item\<lparr>tf_connectionId := Some toConnectionId, tf_retry := map_option (retry_to toConnectionId) (tf_retry item)\<rparr>)"

definition rebindRemoteFileTransferConnection ::
  "string \<Rightarrow> string \<Rightarrow> 'f RemoteFileTransferItem list \<Rightarrow> 'f RemoteFileTransferItem list" where
  "rebindRemoteFileTransferConnection fromConnectionId toConnectionId items =
     map (\<lambda>item. rebindRemoteFileTransferItem item fromConnectionId toConnectionId) items"

record 'f AddRemoteFileTransferInput =
  add_connectionId :: "string option"
  add_direction :: TransferDirection
  add_kind :: TransferKind
  add_name :: string
  add_progress :: "js_number option"
  add_progressDetail :: "string option"
  add_progressIndeterminate :: "bool option"
  add_remotePath :: string
  add_retry :: "'f RemoteFileTransferRetry option"
  add_speedText :: "string option"
  add_stage :: string

definition addRemoteFileTransfer ::
  "string \<Rightarrow> string \<Rightarrow> rat \<Rightarrow> 'f AddRemoteFileTransferInput \<Rightarrow> 'f RemoteFileTransferItem list
    \<Rightarrow> string \<times> 'f RemoteFileTransferItem list" where
  "addRemoteFileTransfer nowText random now input items =
     (let transferId = ''transfer-'' @ nowText @ ''-'' @ random;
          item = \<lparr>tf_id = transferId, tf_connectionId = add_connectionId input, tf_createdAt = now,
            tf_direction = add_direction input, tf_error = None, tf_kind = add_kind input, tf_localPath = None,
            tf_name = add_name input,
            tf_progress = (case add_progress input of None \<Rightarrow> Finite 0 | Some p \<Rightarrow> p),
            tf_progressDetail = add_progressDetail input,
            tf_progressIndeterminate = (case add_progressIndeterminate input of None \<Rightarrow> False | Some b \<Rightarrow> b),
            tf_retry = add_retry input, tf_remotePath = normalizeRemotePath (Some (add_remotePath input)),
            tf_speedText = add_speedText input, tf_stage = add_stage input, tf_startedAt = now,
            tf_status = TransferQueued\<rparr>
      in (transferId, trimTransferHistory (item # items)))"

text \<open>A partial update: \<open>None\<close> for a property the update does not have.\<close>

record 'f transfer_update =
  tu_connectionId :: "string option option"
  tu_direction :: "TransferDirection option"
  tu_error :: "string option option"
  tu_kind :: "TransferKind option"
  tu_localPath :: "string option option"
  tu_name :: "string option"
  tu_progress :: "js_number option"
  tu_progressDetail :: "string option option"
  tu_progressIndeterminate :: "bool option"
  tu_retry :: "'f RemoteFileTransferRetry option option"
  tu_remotePath :: "string option"
  tu_speedText :: "string option option"
  tu_stage :: "string option"
  tu_startedAt :: "rat option"
  tu_status :: "transfer_status option"

definition no_update :: "'f transfer_update" where
  "no_update = \<lparr>tu_connectionId = None, tu_direction = None, tu_error = None, tu_kind = None, tu_localPath = None,
     tu_name = None, tu_progress = None, tu_progressDetail = None, tu_progressIndeterminate = None, tu_retry = None,
     tu_remotePath = None, tu_speedText = None, tu_stage = None, tu_startedAt = None, tu_status = None\<rparr>"

definition given :: "'a option \<Rightarrow> 'a \<Rightarrow> 'a" where
  "given u old = (case u of None \<Rightarrow> old | Some v \<Rightarrow> v)"

definition update_item :: "'f transfer_update \<Rightarrow> 'f RemoteFileTransferItem \<Rightarrow> 'f RemoteFileTransferItem" where
  "update_item u item = item\<lparr>
     tf_connectionId := given (tu_connectionId u) (tf_connectionId item),
     tf_direction := given (tu_direction u) (tf_direction item),
     tf_error := given (tu_error u) (tf_error item),
     tf_kind := given (tu_kind u) (tf_kind item),
     tf_localPath := given (tu_localPath u) (tf_localPath item),
     tf_name := given (tu_name u) (tf_name item),
     tf_progress := given (tu_progress u) (tf_progress item),
     tf_progressDetail :=
       (if tu_progressDetail u = Some (Some ''100%'') \<and>
          (case tf_progressDetail item of None \<Rightarrow> False | Some d \<Rightarrow> js_includes '' / '' d)
        then tf_progressDetail item else given (tu_progressDetail u) (tf_progressDetail item)),
     tf_progressIndeterminate := given (tu_progressIndeterminate u) (tf_progressIndeterminate item),
     tf_retry := given (tu_retry u) (tf_retry item),
     tf_remotePath := given (tu_remotePath u) (tf_remotePath item),
     tf_speedText := given (tu_speedText u) (tf_speedText item),
     tf_stage := given (tu_stage u) (tf_stage item),
     tf_startedAt := given (tu_startedAt u) (tf_startedAt item),
     tf_status := given (tu_status u) (tf_status item)\<rparr>"


definition isTransferItemEqual :: "'f RemoteFileTransferItem \<Rightarrow> 'f RemoteFileTransferItem \<Rightarrow> bool" where
  "isTransferItemEqual left right \<longleftrightarrow>
     tf_connectionId left = tf_connectionId right \<and> tf_direction left = tf_direction right \<and>
     tf_error left = tf_error right \<and> tf_kind left = tf_kind right \<and> tf_localPath left = tf_localPath right \<and>
     tf_name left = tf_name right \<and> tf_progress left = tf_progress right \<and>
     tf_progressDetail left = tf_progressDetail right \<and>
     tf_progressIndeterminate left = tf_progressIndeterminate right \<and> tf_retry left = tf_retry right \<and>
     tf_remotePath left = tf_remotePath right \<and> tf_speedText left = tf_speedText right \<and>
     tf_stage left = tf_stage right \<and> tf_startedAt left = tf_startedAt right \<and> tf_status left = tf_status right"

definition updateRemoteFileTransfer ::
  "string \<Rightarrow> 'f transfer_update \<Rightarrow> 'f RemoteFileTransferItem list \<Rightarrow> 'f RemoteFileTransferItem list" where
  "updateRemoteFileTransfer transferId u items =
     (let touched = (\<lambda>item. tf_id item = transferId \<and> \<not> isTransferItemEqual item (update_item u item)) in
      if \<exists>item \<in> set items. touched item
      then trimTransferHistory (map (\<lambda>item. if touched item then update_item u item else item) items)
      else items)"

definition setTransferProgress ::
  "string \<Rightarrow> js_number \<Rightarrow> string option \<Rightarrow> bool option \<Rightarrow> string option \<Rightarrow> string \<Rightarrow> transfer_status option
    \<Rightarrow> 'f RemoteFileTransferItem list \<Rightarrow> 'f RemoteFileTransferItem list" where
  "setTransferProgress transferId progress detail indeterminate speedText stage status =
     updateRemoteFileTransfer transferId (no_update\<lparr>
       tu_progress := Some (clampTransferProgress progress),
       tu_progressDetail := Some detail,
       tu_progressIndeterminate := Some (given indeterminate False),
       tu_speedText := Some speedText,
       tu_stage := Some stage,
       tu_status := Some (given status TransferRunning)\<rparr>)"

definition prepareTransferRetry ::
  "string \<Rightarrow> string \<Rightarrow> rat \<Rightarrow> 'f RemoteFileTransferItem list \<Rightarrow> 'f RemoteFileTransferItem list" where
  "prepareTransferRetry transferId stage now =
     updateRemoteFileTransfer transferId (no_update\<lparr>
       tu_error := Some None, tu_localPath := Some None, tu_progress := Some (Finite 0),
       tu_progressDetail := Some None, tu_progressIndeterminate := Some False, tu_speedText := Some None,
       tu_stage := Some stage, tu_startedAt := Some now, tu_status := Some TransferQueued\<rparr>)"

definition markTransferCanceled ::
  "transfer_texts \<Rightarrow> string \<Rightarrow> 'f RemoteFileTransferItem list \<Rightarrow> 'f RemoteFileTransferItem list" where
  "markTransferCanceled tx transferId =
     updateRemoteFileTransfer transferId (no_update\<lparr>
       tu_progress := Some (Finite 0), tu_progressDetail := Some None, tu_progressIndeterminate := Some False,
       tu_speedText := Some None, tu_status := Some TransferCanceled,
       tu_stage := Some (tx_t tx ''files.transfer.status.canceled'')\<rparr>)"

definition clearFinishedTransfers :: "'f RemoteFileTransferItem list \<Rightarrow> 'f RemoteFileTransferItem list" where
  "clearFinishedTransfers items = filter (\<lambda>item. tf_status item \<notin> set finishedTransferStatuses) items"

definition removeRemoteFileTransfer :: "string \<Rightarrow> 'f RemoteFileTransferItem list \<Rightarrow> 'f RemoteFileTransferItem list" where
  "removeRemoteFileTransfer transferId items = filter (\<lambda>item. tf_id item \<noteq> transferId) items"

section \<open>Progress events\<close>

text \<open>
  \<open>pp_events\<close> is the map of the last event of each transfer, in insertion order, and \<open>pp_timer\<close>
  tells that the flush timer is set.
\<close>

record pending_progress =
  pp_events :: "(string \<times> RemoteFileTransferProgressEvent) list"
  pp_timer :: bool

definition queueRemoteTransferProgress :: "RemoteFileTransferProgressEvent \<Rightarrow> pending_progress \<Rightarrow> pending_progress" where
  "queueRemoteTransferProgress event pp = \<lparr>pp_events = map_set (pe_transfer_id event) event (pp_events pp), pp_timer = True\<rparr>"

definition clearPendingTransferProgressEvents :: "pending_progress \<Rightarrow> pending_progress" where
  "clearPendingTransferProgressEvents pp = \<lparr>pp_events = [], pp_timer = False\<rparr>"

fun at_least_100 :: "js_number \<Rightarrow> bool" where
  "at_least_100 (Finite p) = (100 \<le> p)"
| "at_least_100 PosInfinity = True"
| "at_least_100 _ = False"

definition progress_item ::
  "transfer_texts \<Rightarrow> rat \<Rightarrow> RemoteFileTransferProgressEvent \<Rightarrow> 'f RemoteFileTransferItem \<Rightarrow> 'f RemoteFileTransferItem" where
  "progress_item tx now event item =
     (let hasKnownTotal = pe_total_bytes event \<noteq> None;
          totalBytes = given (pe_total_bytes event) 0;
          upload = (pe_direction event = Upload);
          progress = (if totalBytes > 0 then Finite (transferProgressPercent (pe_loaded_bytes event) totalBytes)
            else tf_progress item);
          displayProgress = (if upload \<and> at_least_100 progress then Finite 99 else progress);
          archiving = (tf_kind item = TransferDirectory \<and> \<not> upload \<and> \<not> hasKnownTotal);
          stage = (if upload \<and> at_least_100 progress then tx_t tx ''files.transfer.stage.waitingRemote''
            else if archiving then tx_t tx ''files.transfer.stage.compressing''
            else if upload then tx_t tx ''files.transfer.stage.uploading''
            else tx_t tx ''files.transfer.stage.downloading'');
          progressDetail = (if archiving then tx_archiveSize tx (formatFileSize tx (pe_loaded_bytes event))
            else formatTransferProgressBytes tx (pe_loaded_bytes event) totalBytes)
      in item\<lparr>tf_progress := clampTransferProgress displayProgress,
           tf_progressDetail := Some progressDetail,
           tf_progressIndeterminate := (totalBytes \<le> 0),
           tf_speedText := formatTransferSpeed tx (calculateTransferAverageSpeed now (pe_loaded_bytes event) (tf_startedAt item)),
           tf_stage := stage\<rparr>)"

definition applyRemoteTransferProgressEvents ::
  "transfer_texts \<Rightarrow> rat \<Rightarrow> RemoteFileTransferProgressEvent list \<Rightarrow> 'f RemoteFileTransferItem list
    \<Rightarrow> 'f RemoteFileTransferItem list" where
  "applyRemoteTransferProgressEvents tx now events items =
     (let eventByTransferId = map_from (map (\<lambda>event. (pe_transfer_id event, event)) events) in
      map (\<lambda>item. case map_of eventByTransferId (tf_id item) of
          None \<Rightarrow> item
        | Some event \<Rightarrow> if tf_status item \<noteq> TransferRunning then item else progress_item tx now event item) items)"

text \<open>The timer fires.\<close>

definition flush_progress ::
  "transfer_texts \<Rightarrow> rat \<Rightarrow> pending_progress \<times> 'f RemoteFileTransferItem list
    \<Rightarrow> pending_progress \<times> 'f RemoteFileTransferItem list" where
  "flush_progress tx now s =
     (if \<not> pp_timer (fst s) then s
      else (\<lparr>pp_events = [], pp_timer = False\<rparr>,
            applyRemoteTransferProgressEvents tx now (map snd (pp_events (fst s))) (snd s)))"

section \<open>History is bounded, active transfers stay\<close>

definition transfer_active :: "'f RemoteFileTransferItem \<Rightarrow> bool" where
  "transfer_active item \<longleftrightarrow> tf_status item = TransferQueued \<or> tf_status item = TransferRunning"

definition finished_items :: "'f RemoteFileTransferItem list \<Rightarrow> 'f RemoteFileTransferItem list" where
  "finished_items items = filter (\<lambda>item. tf_status item \<in> set finishedTransferStatuses) items"

definition failed_items :: "'f RemoteFileTransferItem list \<Rightarrow> 'f RemoteFileTransferItem list" where
  "failed_items items = filter (\<lambda>item. tf_status item = TransferError) items"

definition history_bounded :: "'f RemoteFileTransferItem list \<Rightarrow> bool" where
  "history_bounded items \<longleftrightarrow>
     length (finished_items items) \<le> maxFinishedTransferHistory \<and> length (failed_items items) \<le> maxErrorTransferHistory"

lemma status_classes:
  "transfer_active item \<longleftrightarrow> tf_status item \<noteq> TransferError \<and> tf_status item \<notin> set finishedTransferStatuses"
  by (cases "tf_status item") (simp_all add: transfer_active_def finishedTransferStatuses_def)

lemma error_not_finished [simp]: "TransferError \<notin> set finishedTransferStatuses"
  by (simp add: finishedTransferStatuses_def)

lemma trim_history_active: "filter transfer_active (trim_history f e items) = filter transfer_active items"
  by (induction f e items rule: trim_history.induct) (auto simp: status_classes)

lemma trim_history_bound:
  "f \<le> maxFinishedTransferHistory \<Longrightarrow> e \<le> maxErrorTransferHistory \<Longrightarrow>
   f + length (finished_items (trim_history f e items)) \<le> maxFinishedTransferHistory \<and>
   e + length (failed_items (trim_history f e items)) \<le> maxErrorTransferHistory"
  by (induction f e items rule: trim_history.induct) (auto simp: finished_items_def failed_items_def)

lemma trim_history_subseq: "subseq (trim_history f e items) items"
  by (induction f e items rule: trim_history.induct) auto

lemma trim_bounded [simp]: "history_bounded (trimTransferHistory items)"
  using trim_history_bound [of 0 0 items] by (simp add: history_bounded_def trimTransferHistory_def)

lemma trim_active [simp]: "filter transfer_active (trimTransferHistory items) = filter transfer_active items"
  by (simp add: trimTransferHistory_def trim_history_active)

lemma trim_subseq: "subseq (trimTransferHistory items) items"
  by (simp add: trimTransferHistory_def trim_history_subseq)

lemma trim_keeps_active:
  assumes "item \<in> set items" "transfer_active item"
  shows "item \<in> set (trimTransferHistory items)"
proof -
  have "item \<in> set (filter transfer_active (trimTransferHistory items))"
    unfolding trim_active using assms by simp
  then show ?thesis
    by (simp del: trim_active)
qed

text \<open>The operations as actions on the store.\<close>

datatype 'f store_op =
    AddOp string string rat "'f AddRemoteFileTransferInput"
  | UpdateOp string "'f transfer_update"
  | RemoveOp string
  | ClearFinishedOp
  | RebindOp string string
  | ProgressOp rat "RemoteFileTransferProgressEvent list"

fun store_step :: "transfer_texts \<Rightarrow> 'f RemoteFileTransferItem list \<Rightarrow> 'f store_op \<Rightarrow> 'f RemoteFileTransferItem list" where
  "store_step tx items (AddOp nowText random now input) = snd (addRemoteFileTransfer nowText random now input items)"
| "store_step tx items (UpdateOp i u) = updateRemoteFileTransfer i u items"
| "store_step tx items (RemoveOp i) = removeRemoteFileTransfer i items"
| "store_step tx items ClearFinishedOp = clearFinishedTransfers items"
| "store_step tx items (RebindOp a b) = rebindRemoteFileTransferConnection a b items"
| "store_step tx items (ProgressOp now events) = applyRemoteTransferProgressEvents tx now events items"

lemma history_bounded_map:
  assumes "\<And>item. tf_status (f item) = tf_status item" "history_bounded items"
  shows "history_bounded (map f items)"
  using assms by (simp add: history_bounded_def finished_items_def failed_items_def filter_map comp_def)

lemma history_bounded_filter:
  assumes "history_bounded items"
  shows "history_bounded (filter P items)"
  using assms length_filter_le [of P "finished_items items"] length_filter_le [of P "failed_items items"]
  by (simp add: history_bounded_def finished_items_def failed_items_def conj_commute)

lemma progress_item_status [simp]: "tf_status (progress_item tx now event item) = tf_status item"
  "tf_id (progress_item tx now event item) = tf_id item"
  by (simp_all add: progress_item_def Let_def)

lemma rebind_item_simps [simp]:
  "tf_status (rebindRemoteFileTransferItem item a b) = tf_status item"
  "tf_id (rebindRemoteFileTransferItem item a b) = tf_id item"
  by (simp_all add: rebindRemoteFileTransferItem_def)

lemma update_item_id [simp]: "tf_id (update_item u item) = tf_id item"
  by (simp add: update_item_def)

lemma store_step_bounded: "history_bounded items \<Longrightarrow> history_bounded (store_step tx items a)"
proof (cases a)
  case (ProgressOp now events)
  assume "history_bounded items"
  then show ?thesis
    unfolding ProgressOp store_step.simps applyRemoteTransferProgressEvents_def Let_def
    by (intro history_bounded_map) (auto split: option.splits)
qed (auto simp: addRemoteFileTransfer_def updateRemoteFileTransfer_def Let_def removeRemoteFileTransfer_def
    clearFinishedTransfers_def rebindRemoteFileTransferConnection_def intro!: history_bounded_filter history_bounded_map)

interpretation transfer_store: reducer "store_step tx" history_bounded
  by unfold_locales (rule store_step_bounded)

text \<open>
  However long the program runs, the transfer list holds at most a hundred finished and a
  hundred failed transfers.
\<close>

theorem transfer_history_bounded:
  "length (finished_items (foldl (store_step tx) [] operations)) \<le> 100 \<and>
   length (failed_items (foldl (store_step tx) [] operations)) \<le> 100"
proof -
  have "history_bounded []"
    by (simp add: history_bounded_def finished_items_def failed_items_def)
  then have "history_bounded (foldl (store_step tx) [] operations)"
    by (rule transfer_store.run_invar)
  then show ?thesis
    by (simp add: history_bounded_def maxFinishedTransferHistory_def maxErrorTransferHistory_def)
qed

text \<open>An operation that does not name a transfer.\<close>

fun spares :: "'f RemoteFileTransferItem \<Rightarrow> 'f store_op \<Rightarrow> bool" where
  "spares x (AddOp nowText random now input) = (''transfer-'' @ nowText @ ''-'' @ random \<noteq> tf_id x)"
| "spares x (UpdateOp i u) = (i \<noteq> tf_id x)"
| "spares x (RemoveOp i) = (i \<noteq> tf_id x)"
| "spares x ClearFinishedOp = True"
| "spares x (RebindOp a b) = (tf_connectionId x \<noteq> Some a)"
| "spares x (ProgressOp now events) = (tf_id x \<notin> pe_transfer_id ` set events)"

lemma event_lookup:
  "map_of (map_from (map (\<lambda>e. (pe_transfer_id e, e)) events)) i = Some event \<Longrightarrow>
   event \<in> set events \<and> pe_transfer_id event = i"
  by (auto simp: map_of_map_from dest!: map_of_SomeD)

lemma event_lookup_None:
  "i \<notin> pe_transfer_id ` set events \<longleftrightarrow> map_of (map_from (map (\<lambda>e. (pe_transfer_id e, e)) events)) i = None"
  by (auto simp: map_of_map_from map_of_eq_None_iff image_image)

lemma store_step_spares:
  assumes x: "x \<in> set items" "transfer_active x" and spared: "spares x a"
  shows "x \<in> set (store_step tx items a)"
proof (cases a)
  case (AddOp nowText random now input)
  then show ?thesis
    using x by (auto simp: addRemoteFileTransfer_def Let_def intro: trim_keeps_active)
next
  case (UpdateOp i u)
  let ?f = "\<lambda>item. if tf_id item = i \<and> \<not> isTransferItemEqual item (update_item u item) then update_item u item else item"
  have "x = ?f x"
    using UpdateOp spared by auto
  then have "x \<in> set (map ?f items)"
    unfolding set_map using x(1) by (rule image_eqI)
  then show ?thesis
    using UpdateOp x by (simp add: updateRemoteFileTransfer_def Let_def trim_keeps_active)
next
  case ClearFinishedOp
  then show ?thesis
    using x by (auto simp: clearFinishedTransfers_def status_classes)
next
  case (RebindOp c d)
  then have "rebindRemoteFileTransferItem x c d = x"
    using spared by (simp add: rebindRemoteFileTransferItem_def)
  then show ?thesis
    using RebindOp x(1) by (force simp: rebindRemoteFileTransferConnection_def)
next
  case (ProgressOp now events)
  then have "map_of (map_from (map (\<lambda>e. (pe_transfer_id e, e)) events)) (tf_id x) = None"
    using spared event_lookup_None [of "tf_id x" events] by simp
  then show ?thesis
    using ProgressOp x(1) by (auto simp: applyRemoteTransferProgressEvents_def Let_def intro!: rev_image_eqI [of x])
qed (use x spared in \<open>auto simp: removeRemoteFileTransfer_def\<close>)

text \<open>
  Transfers do not disturb one another: a queued or running transfer stays in the list,
  unchanged, through any operations that do not name it, whatever they do to the rest of the
  list and however often the history is trimmed.
\<close>

theorem active_transfer_undisturbed:
  assumes "x \<in> set items" and "transfer_active x" and "\<forall>a \<in> set operations. spares x a"
  shows "x \<in> set (foldl (store_step tx) items operations)"
  using assms
proof (induction operations arbitrary: items)
  case (Cons a operations)
  then show ?case
    using store_step_spares [of x items a tx] by simp
qed simp

lemma clamp_range: "\<exists>p. clampTransferProgress n = Finite p \<and> 0 \<le> p \<and> p \<le> 100"
  by (cases n) auto

lemma progress_item_range:
  "\<exists>p. tf_progress (progress_item tx now event item) = Finite p \<and> 0 \<le> p \<and> p \<le> 100 \<and>
     (pe_direction event = Upload \<longrightarrow> p < 100)"
proof -
  define n where "n = (if given (pe_total_bytes event) 0 > 0
    then Finite (transferProgressPercent (pe_loaded_bytes event) (given (pe_total_bytes event) 0)) else tf_progress item)"
  have shown: "tf_progress (progress_item tx now event item) =
      clampTransferProgress (if pe_direction event = Upload \<and> at_least_100 n then Finite 99 else n)"
    by (simp add: progress_item_def n_def Let_def)
  show ?thesis
    unfolding shown using clamp_range [of n] by (cases n) auto
qed

definition reported_item ::
  "transfer_texts \<Rightarrow> rat \<Rightarrow> RemoteFileTransferProgressEvent list \<Rightarrow> 'f RemoteFileTransferItem \<Rightarrow> 'f RemoteFileTransferItem" where
  "reported_item tx now events item =
     (case map_of (map_from (map (\<lambda>e. (pe_transfer_id e, e)) events)) (tf_id item) of
        None \<Rightarrow> item
      | Some event \<Rightarrow> if tf_status item \<noteq> TransferRunning then item else progress_item tx now event item)"

lemma apply_events_map: "applyRemoteTransferProgressEvents tx now events items = map (reported_item tx now events) items"
  by (simp add: applyRemoteTransferProgressEvents_def reported_item_def [abs_def] Let_def)

lemma reported_item_keeps:
  "tf_id (reported_item tx now events item) = tf_id item"
  "tf_status (reported_item tx now events item) = tf_status item"
  "tf_connectionId (reported_item tx now events item) = tf_connectionId item"
  by (auto simp: reported_item_def progress_item_def Let_def split: option.splits)

lemma reported_item_spared:
  assumes "tf_status item \<noteq> TransferRunning \<or> tf_id item \<notin> pe_transfer_id ` set events"
  shows "reported_item tx now events item = item"
proof (cases "map_of (map_from (map (\<lambda>e. (pe_transfer_id e, e)) events)) (tf_id item)")
  case (Some event)
  then have "tf_id item \<in> pe_transfer_id ` set events"
    using event_lookup_None [of "tf_id item" events] by auto
  with assms Some show ?thesis
    by (simp add: reported_item_def)
qed (simp add: reported_item_def)

lemma reported_item_running:
  assumes "tf_status item = TransferRunning" "tf_id item \<in> pe_transfer_id ` set events"
  obtains event where "event \<in> set events" "pe_transfer_id event = tf_id item"
    "reported_item tx now events item = progress_item tx now event item"
proof (cases "map_of (map_from (map (\<lambda>e. (pe_transfer_id e, e)) events)) (tf_id item)")
  case None
  then have False
    using assms(2) event_lookup_None by blast
  then show ?thesis ..
next
  case (Some event)
  then show ?thesis
    using that [of event] event_lookup [OF Some] assms(1) by (simp add: reported_item_def)
qed

text \<open>
  Progress reports change only running transfers they name, keep the identity, the
  connection and the status of every transfer, and show a percentage between 0 and 100; an
  upload does not reach 100 before the transfer itself has ended.
\<close>

theorem progress_events_exact:
  "\<exists>f. applyRemoteTransferProgressEvents tx now events items = map f items \<and> (\<forall>item.
    tf_id (f item) = tf_id item \<and> tf_status (f item) = tf_status item \<and> tf_connectionId (f item) = tf_connectionId item \<and>
    (if tf_status item = TransferRunning \<and> tf_id item \<in> pe_transfer_id ` set events
     then \<exists>p. tf_progress (f item) = Finite p \<and> 0 \<le> p \<and>
       (if Download \<in> pe_direction ` {e \<in> set events. pe_transfer_id e = tf_id item} then p \<le> 100 else p < 100)
     else f item = item))"
proof (intro exI conjI allI)
  show "applyRemoteTransferProgressEvents tx now events items = map (reported_item tx now events) items"
    by (rule apply_events_map)
  fix item :: "'a RemoteFileTransferItem"
  show "tf_id (reported_item tx now events item) = tf_id item"
    "tf_status (reported_item tx now events item) = tf_status item"
    "tf_connectionId (reported_item tx now events item) = tf_connectionId item"
    by (simp_all add: reported_item_keeps)
  show "if tf_status item = TransferRunning \<and> tf_id item \<in> pe_transfer_id ` set events
     then \<exists>p. tf_progress (reported_item tx now events item) = Finite p \<and> 0 \<le> p \<and>
       (if Download \<in> pe_direction ` {e \<in> set events. pe_transfer_id e = tf_id item} then p \<le> 100 else p < 100)
     else reported_item tx now events item = item"
  proof (cases "tf_status item = TransferRunning \<and> tf_id item \<in> pe_transfer_id ` set events")
    case True
    then obtain event where e: "event \<in> set events" "pe_transfer_id event = tf_id item"
      "reported_item tx now events item = progress_item tx now event item"
      using reported_item_running by metis
    moreover have "pe_direction event = Upload"
      if "Download \<notin> pe_direction ` {e \<in> set events. pe_transfer_id e = tf_id item}"
      using that e(1,2) by (cases "pe_direction event") force+
    ultimately show ?thesis
      using True progress_item_range [of tx now event item] by auto
  next
    case False
    then show ?thesis
      using reported_item_spared [of item events tx now] by auto
  qed
qed

text \<open>A running upload next to a queued one.\<close>

definition sample_transfer :: "string \<Rightarrow> transfer_status \<Rightarrow> unit RemoteFileTransferItem" where
  "sample_transfer i status = \<lparr>tf_id = i, tf_connectionId = Some ''server'', tf_createdAt = 0, tf_direction = Upload,
     tf_error = None, tf_kind = TransferFile, tf_localPath = None, tf_name = ''a.txt'', tf_progress = Finite 0,
     tf_progressDetail = None, tf_progressIndeterminate = False, tf_retry = None, tf_remotePath = ''/tmp/a.txt'',
     tf_speedText = None, tf_stage = [], tf_startedAt = 0, tf_status = status\<rparr>"

definition plain_texts :: transfer_texts where
  "plain_texts = \<lparr>tx_t = (\<lambda>key. key), tx_archiveSize = (\<lambda>bytes. bytes), tx_number = (\<lambda>n. nat_str (nat \<lfloor>n\<rfloor>))\<rparr>"

theorem active_transfer_undisturbed_witness:
  "sample_transfer ''t1'' TransferQueued \<in> set (foldl (store_step plain_texts)
     [sample_transfer ''t1'' TransferQueued, sample_transfer ''t2'' TransferRunning]
     [UpdateOp ''t2'' (no_update\<lparr>tu_status := Some TransferError\<rparr>), ClearFinishedOp, RemoveOp ''t2'',
      RebindOp ''other'' ''server''])"
  by (rule active_transfer_undisturbed) (simp_all add: sample_transfer_def transfer_active_def)

section \<open>Moving transfers to another connection\<close>

fun retry_owner :: "'f RemoteFileTransferRetry \<Rightarrow> string" where
  "retry_owner (DownloadRetry e input) = dl_connectionId input"
| "retry_owner r = retry_connection r"

lemma retry_owner_retry_to [simp]: "retry_owner (retry_to c r) = c"
  by (cases r) auto

text \<open>
  Saving a temporary connection as a profile moves its transfers: nothing is left on the old
  connection, the transfers of the new one are those of both, and a retry of a moved transfer
  goes to the new connection.
\<close>

theorem rebind_transfers_exact:
  assumes "fromId \<noteq> toId" and "r = rebindRemoteFileTransferConnection fromId toId items"
  shows "map tf_id r = map tf_id items \<and> map tf_status r = map tf_status items \<and>
    (\<forall>k < length items.
      tf_connectionId (r ! k) \<noteq> Some fromId \<and>
      (tf_connectionId (r ! k) = Some toId \<longleftrightarrow> tf_connectionId (items ! k) \<in> {Some fromId, Some toId}) \<and>
      (tf_connectionId (items ! k) = Some fromId \<longrightarrow> (\<forall>retry. tf_retry (r ! k) = Some retry \<longrightarrow> retry_owner retry = toId)) \<and>
      (tf_connectionId (items ! k) \<noteq> Some fromId \<longrightarrow> r ! k = items ! k))"
  using assms(1) unfolding assms(2)
  by (auto simp: rebindRemoteFileTransferConnection_def rebindRemoteFileTransferItem_def)

theorem rebind_transfers_exact_witness:
  "map tf_connectionId (rebindRemoteFileTransferConnection ''server'' ''profile'' [sample_transfer ''t1'' TransferRunning]) =
     [Some ''profile'']"
  using rebind_transfers_exact [of "''server''" "''profile''" _ "[sample_transfer ''t1'' TransferRunning]", OF _ refl]
  by (simp add: sample_transfer_def rebindRemoteFileTransferConnection_def)

end
