(* ===== verification/Transfer_Queue.thy ===== *)
theory Transfer_Queue
  imports Transfer_Store
begin

text \<open>
  The queue of file transfers, after \<open>src/features/files/useRemoteFileTransferController.ts\<close>.
  The refs of the hook and the transfer list form one state; the asynchronous part of the code is
  cut where it suspends: a started task runs on its own (the changes it makes to the transfer
  list are \<open>StoreChange\<close> events, also what \<open>onTaskError\<close> does) until it settles
  (\<open>TaskSettles\<close>). \<open>tq_started\<close> records the calls of \<open>task()\<close>. The command that cancels a
  running transfer in the back end is pure I/O and leaves no trace here.
\<close>

section \<open>State and operations\<close>

record ('f, 't) transfer_queue =
  tq_concurrency :: int
  tq_queue :: "string list"
  tq_running :: "string list"
  tq_tasks :: "(string \<times> 't) list"
  tq_items :: "'f RemoteFileTransferItem list"
  tq_started :: "(string \<times> 't) list"

definition initial_queue :: "int \<Rightarrow> ('f, 't) transfer_queue" where
  "initial_queue concurrentTransfers = \<lparr>tq_concurrency = concurrentTransfers, tq_queue = [], tq_running = [],
     tq_tasks = [], tq_items = [], tq_started = []\<rparr>"

definition delete_task :: "string \<Rightarrow> ('f, 't) transfer_queue \<Rightarrow> ('f, 't) transfer_queue" where
  "delete_task transferId q = q\<lparr>tq_tasks := filter (\<lambda>(i, t). i \<noteq> transferId) (tq_tasks q)\<rparr>"

definition still_queued :: "('f, 't) transfer_queue \<Rightarrow> string \<Rightarrow> bool" where
  "still_queued q transferId \<longleftrightarrow>
     (case getRemoteFileTransfer (tq_items q) transferId of None \<Rightarrow> True | Some item \<Rightarrow> tf_status item = TransferQueued)"

definition start_task :: "rat \<Rightarrow> string \<Rightarrow> 't \<Rightarrow> ('f, 't) transfer_queue \<Rightarrow> ('f, 't) transfer_queue" where
  "start_task now transferId task q = q\<lparr>
     tq_running := (if transferId \<in> set (tq_running q) then tq_running q else tq_running q @ [transferId]),
     tq_items := updateRemoteFileTransfer transferId
       (no_update\<lparr>tu_startedAt := Some now, tu_status := Some TransferRunning\<rparr>) (tq_items q),
     tq_started := tq_started q @ [(transferId, task)]\<rparr>"

text \<open>The loop of \<open>drainTransferQueue\<close> on the rest of the queue; \<open>Date.now()\<close> is read once.\<close>

fun drain_from :: "rat \<Rightarrow> string list \<Rightarrow> ('f, 't) transfer_queue \<Rightarrow> ('f, 't) transfer_queue" where
  "drain_from now [] q = q\<lparr>tq_queue := []\<rparr>"
| "drain_from now (transferId # rest) q =
     (if \<not> int (length (tq_running q)) < tq_concurrency q then q\<lparr>tq_queue := transferId # rest\<rparr>
      else if transferId = [] then drain_from now rest q
      else case map_of (tq_tasks q) transferId of
          None \<Rightarrow> drain_from now rest (delete_task transferId q)
        | Some task \<Rightarrow>
            if \<not> still_queued q transferId then drain_from now rest (delete_task transferId q)
            else drain_from now rest (start_task now transferId task q))"

definition drainTransferQueue :: "rat \<Rightarrow> ('f, 't) transfer_queue \<Rightarrow> ('f, 't) transfer_queue" where
  "drainTransferQueue now q = drain_from now (tq_queue q) q"

definition task_settled :: "rat \<Rightarrow> string \<Rightarrow> ('f, 't) transfer_queue \<Rightarrow> ('f, 't) transfer_queue" where
  "task_settled now transferId q =
     drainTransferQueue now (delete_task transferId (q\<lparr>tq_running := filter (\<lambda>i. i \<noteq> transferId) (tq_running q)\<rparr>))"

definition set_concurrency :: "rat \<Rightarrow> int \<Rightarrow> ('f, 't) transfer_queue \<Rightarrow> ('f, 't) transfer_queue" where
  "set_concurrency now concurrentTransfers q = drainTransferQueue now (q\<lparr>tq_concurrency := concurrentTransfers\<rparr>)"

definition dropQueuedTransfer :: "string \<Rightarrow> ('f, 't) transfer_queue \<Rightarrow> ('f, 't) transfer_queue" where
  "dropQueuedTransfer transferId q = delete_task transferId (q\<lparr>tq_queue := filter (\<lambda>i. i \<noteq> transferId) (tq_queue q)\<rparr>)"

definition enqueueRemoteFileTransfer :: "rat \<Rightarrow> string \<Rightarrow> 't \<Rightarrow> ('f, 't) transfer_queue \<Rightarrow> ('f, 't) transfer_queue" where
  "enqueueRemoteFileTransfer now transferId task q =
     (let q = q\<lparr>tq_tasks := map_set transferId task (tq_tasks q)\<rparr>;
          q = (if transferId \<notin> set (tq_queue q) \<and> transferId \<notin> set (tq_running q)
               then q\<lparr>tq_queue := tq_queue q @ [transferId]\<rparr> else q)
      in drainTransferQueue now q)"

definition cancelQueuedTransfer :: "transfer_texts \<Rightarrow> string \<Rightarrow> ('f, 't) transfer_queue \<Rightarrow> ('f, 't) transfer_queue" where
  "cancelQueuedTransfer tx transferId q =
     (let q = dropQueuedTransfer transferId q in
      q\<lparr>tq_items := updateRemoteFileTransfer transferId (no_update\<lparr>
          tu_error := Some None, tu_progress := Some (Finite 0), tu_progressDetail := Some None,
          tu_progressIndeterminate := Some False, tu_speedText := Some None,
          tu_stage := Some (tx_t tx ''files.transfer.status.canceled''), tu_status := Some TransferCanceled\<rparr>)
        (tq_items q)\<rparr>)"

definition requestCancelTransfer :: "transfer_texts \<Rightarrow> string \<Rightarrow> ('f, 't) transfer_queue \<Rightarrow> ('f, 't) transfer_queue" where
  "requestCancelTransfer tx transferId q =
     (case getRemoteFileTransfer (tq_items q) transferId of
        None \<Rightarrow> cancelQueuedTransfer tx transferId q
      | Some item \<Rightarrow>
          if tf_status item = TransferQueued then cancelQueuedTransfer tx transferId q
          else if tf_status item \<noteq> TransferRunning then q
          else q\<lparr>tq_items := markTransferCanceled tx transferId (tq_items q)\<rparr>)"

definition removeTransfer :: "string \<Rightarrow> ('f, 't) transfer_queue \<Rightarrow> ('f, 't) transfer_queue" where
  "removeTransfer transferId q =
     (let q = dropQueuedTransfer transferId q in q\<lparr>tq_items := removeRemoteFileTransfer transferId (tq_items q)\<rparr>)"

definition isTransferNoLongerActive :: "('f, 't) transfer_queue \<Rightarrow> string \<Rightarrow> bool" where
  "isTransferNoLongerActive q transferId =
     (case getRemoteFileTransfer (tq_items q) transferId of
        None \<Rightarrow> False
      | Some item \<Rightarrow> tf_status item = TransferCanceled \<or> tf_status item = TransferError)"

datatype ('f, 't) transfer_event =
    EnqueueTask rat string 't
  | RequestCancel string
  | RemoveRequest string
  | SetConcurrency rat int
  | TaskSettles rat string
  | StoreChange "'f store_op"

fun queue_step :: "transfer_texts \<Rightarrow> ('f, 't) transfer_queue \<Rightarrow> ('f, 't) transfer_event \<Rightarrow> ('f, 't) transfer_queue" where
  "queue_step tx q (EnqueueTask now i task) = enqueueRemoteFileTransfer now i task q"
| "queue_step tx q (RequestCancel i) = requestCancelTransfer tx i q"
| "queue_step tx q (RemoveRequest i) = removeTransfer i q"
| "queue_step tx q (SetConcurrency now n) = set_concurrency now n q"
| "queue_step tx q (TaskSettles now i) = (if i \<in> set (tq_running q) then task_settled now i q else q)"
| "queue_step tx q (StoreChange a) = q\<lparr>tq_items := store_step tx (tq_items q) a\<rparr>"

section \<open>Draining\<close>

text \<open>The part of the state without the waiting list is kept in order by every turn of the loop.\<close>

definition queue_ok :: "('f, 't) transfer_queue \<Rightarrow> bool" where
  "queue_ok q \<longleftrightarrow> distinct (tq_queue q @ tq_running q) \<and> set (tq_queue q) \<subseteq> fst ` set (tq_tasks q)"

definition drain_step_ok :: "string list \<Rightarrow> ('f, 't) transfer_queue \<Rightarrow> ('f, 't) transfer_queue \<Rightarrow> bool" where
  "drain_step_ok waiting q r \<longleftrightarrow>
     queue_ok r \<and> tq_concurrency r = tq_concurrency q \<and>
     (tq_queue r \<noteq> [] \<longrightarrow> tq_concurrency r \<le> int (length (tq_running r))) \<and> suffix (tq_queue r) waiting \<and>
     (\<exists>new. tq_started r = tq_started q @ new \<and> tq_running r = tq_running q @ map fst new \<and>
        subseq (map fst new) waiting \<and> (new \<noteq> [] \<longrightarrow> int (length (tq_running r)) \<le> tq_concurrency r))"

lemma delete_task_simps [simp]:
  "tq_concurrency (delete_task i q) = tq_concurrency q" "tq_queue (delete_task i q) = tq_queue q"
  "tq_running (delete_task i q) = tq_running q" "tq_started (delete_task i q) = tq_started q"
  "tq_items (delete_task i q) = tq_items q"
  "fst ` set (tq_tasks (delete_task i q)) = fst ` set (tq_tasks q) - {i}"
  by (auto simp: delete_task_def)

lemma start_task_simps [simp]:
  "tq_concurrency (start_task now i t q) = tq_concurrency q" "tq_queue (start_task now i t q) = tq_queue q"
  "tq_started (start_task now i t q) = tq_started q @ [(i, t)]" "tq_tasks (start_task now i t q) = tq_tasks q"
  by (simp_all add: start_task_def)

lemma start_task_running: "i \<notin> set (tq_running q) \<Longrightarrow> tq_running (start_task now i t q) = tq_running q @ [i]"
  by (simp add: start_task_def)

lemma drain_step_ok_skip: "drain_step_ok waiting q r \<Longrightarrow> drain_step_ok (i # waiting) q r"
  by (auto simp: drain_step_ok_def suffix_Cons)

lemma drain_step_ok_start:
  assumes "drain_step_ok waiting (start_task now i t q) r" "i \<notin> set (tq_running q)"
    "int (length (tq_running q)) < tq_concurrency q"
  shows "drain_step_ok (i # waiting) q r"
proof -
  obtain new where new: "tq_started r = (tq_started q @ [(i, t)]) @ new" "tq_running r = (tq_running q @ [i]) @ map fst new"
    "subseq (map fst new) waiting" "new \<noteq> [] \<longrightarrow> int (length (tq_running r)) \<le> tq_concurrency r"
    using assms(1,2) by (auto simp: drain_step_ok_def start_task_running)
  have r: "queue_ok r" "tq_concurrency r = tq_concurrency q" "suffix (tq_queue r) waiting"
    "tq_queue r \<noteq> [] \<longrightarrow> tq_concurrency r \<le> int (length (tq_running r))"
    using assms(1) by (auto simp: drain_step_ok_def)
  have "int (length (tq_running r)) \<le> tq_concurrency r"
  proof (cases "new = []")
    case True
    then show ?thesis
      unfolding new(2) r(2) using assms(3) by simp
  qed (use new(4) in simp)
  then have "\<exists>new. tq_started r = tq_started q @ new \<and> tq_running r = tq_running q @ map fst new \<and>
      subseq (map fst new) (i # waiting) \<and> (new \<noteq> [] \<longrightarrow> int (length (tq_running r)) \<le> tq_concurrency r)"
    using new(1-3) by (intro exI [of _ "(i, t) # new"]) simp
  then show ?thesis
    unfolding drain_step_ok_def using r by (simp add: suffix_Cons)
qed

lemma drain_from_ok:
  assumes "distinct (waiting @ tq_running q)" "set waiting \<subseteq> fst ` set (tq_tasks q)"
  shows "drain_step_ok waiting q (drain_from now waiting q)"
  using assms
proof (induction now waiting q rule: drain_from.induct)
  case (1 now q)
  then show ?case
    by (auto simp: drain_step_ok_def queue_ok_def)
next
  case (2 now i rest q)
  then obtain t where t: "map_of (tq_tasks q) i = Some t"
    by (metis in_mono insertCI list.simps(15) map_of_eq_None_iff option.exhaust)
  have fresh: "i \<notin> set (tq_running q)" "i \<notin> set rest"
    using 2 by auto
  consider "\<not> int (length (tq_running q)) < tq_concurrency q"
    | "int (length (tq_running q)) < tq_concurrency q" "i = []"
    | "int (length (tq_running q)) < tq_concurrency q" "i \<noteq> []" "\<not> still_queued q i"
    | "int (length (tq_running q)) < tq_concurrency q" "i \<noteq> []" "still_queued q i"
    by blast
  then show ?case
  proof cases
    case 1
    then show ?thesis
      using 2 by (auto simp: drain_step_ok_def queue_ok_def)
  next
    case 2
    then show ?thesis
      using "2.IH"(1) "2.prems" by (auto intro: drain_step_ok_skip)
  next
    case 3
    then have "drain_step_ok rest (delete_task i q) (drain_from now rest (delete_task i q))"
      using "2.IH"(3) [OF _ _ t] "2.prems" fresh by auto
    then show ?thesis
      using 3 t by (auto simp: drain_step_ok_def suffix_Cons)
  next
    case 4
    then have "drain_step_ok rest (start_task now i t q) (drain_from now rest (start_task now i t q))"
      using "2.IH"(4) [OF _ _ t] "2.prems" fresh by (auto simp: start_task_running)
    then show ?thesis
      using 4 t drain_step_ok_start fresh(1) by fastforce
  qed
qed

lemma drainTransferQueue_ok:
  "queue_ok q \<Longrightarrow> drain_step_ok (tq_queue q) q (drainTransferQueue now q)"
  unfolding drainTransferQueue_def by (rule drain_from_ok) (simp_all add: queue_ok_def)

section \<open>The invariant\<close>

text \<open>
  A transfer is waiting or running at most once, what waits has a task, and nothing waits while
  a slot is free.
\<close>

definition transfers_ok :: "('f, 't) transfer_queue \<Rightarrow> bool" where
  "transfers_ok q \<longleftrightarrow> queue_ok q \<and> (tq_queue q \<noteq> [] \<longrightarrow> tq_concurrency q \<le> int (length (tq_running q)))"

lemma drained_ok: "queue_ok q \<Longrightarrow> transfers_ok (drainTransferQueue now q)"
  using drainTransferQueue_ok [of q now] unfolding transfers_ok_def drain_step_ok_def by metis

lemma queue_ok_settle:
  "queue_ok q \<Longrightarrow> i \<in> set (tq_running q) \<Longrightarrow>
   queue_ok (delete_task i (q\<lparr>tq_running := filter (\<lambda>j. j \<noteq> i) (tq_running q)\<rparr>))"
  by (auto simp: queue_ok_def)

lemma queue_ok_enqueue:
  "queue_ok q \<Longrightarrow> queue_ok (let q = q\<lparr>tq_tasks := map_set i t (tq_tasks q)\<rparr> in
     if i \<notin> set (tq_queue q) \<and> i \<notin> set (tq_running q) then q\<lparr>tq_queue := tq_queue q @ [i]\<rparr> else q)"
  by (auto simp: queue_ok_def Let_def)

lemma transfers_ok_drop: "transfers_ok q \<Longrightarrow> transfers_ok (dropQueuedTransfer i q)"
  by (auto simp: transfers_ok_def queue_ok_def dropQueuedTransfer_def filter_empty_conv)

lemma transfers_ok_items: "transfers_ok (q\<lparr>tq_items := items\<rparr>) = transfers_ok q"
  by (simp add: transfers_ok_def queue_ok_def)

lemma transfers_ok_cancelQueued: "transfers_ok q \<Longrightarrow> transfers_ok (cancelQueuedTransfer tx i q)"
  by (simp add: cancelQueuedTransfer_def Let_def transfers_ok_items transfers_ok_drop)

lemma transfers_ok_queue: "transfers_ok q \<Longrightarrow> queue_ok q"
  by (simp add: transfers_ok_def)

lemma queue_step_ok: "transfers_ok q \<Longrightarrow> transfers_ok (queue_step tx q e)"
proof (cases e)
  case (EnqueueTask now i t)
  assume "transfers_ok q"
  then show ?thesis
    using queue_ok_enqueue [OF transfers_ok_queue, of q i t]
    by (simp add: EnqueueTask enqueueRemoteFileTransfer_def Let_def drained_ok)
next
  case (TaskSettles now i)
  assume "transfers_ok q"
  then show ?thesis
    using queue_ok_settle [OF transfers_ok_queue, of q i] by (simp add: TaskSettles task_settled_def drained_ok)
next
  case (SetConcurrency now n)
  assume "transfers_ok q"
  then have "queue_ok (q\<lparr>tq_concurrency := n\<rparr>)"
    by (simp add: transfers_ok_def queue_ok_def)
  then show ?thesis
    by (simp add: SetConcurrency set_concurrency_def drained_ok)
qed (auto simp: requestCancelTransfer_def removeTransfer_def Let_def transfers_ok_items transfers_ok_drop
    transfers_ok_cancelQueued split: option.splits)

interpretation transfer_queue: reducer "queue_step tx" transfers_ok
  by unfold_locales (rule queue_step_ok)

lemma initial_queue_ok: "transfers_ok (initial_queue n)"
  by (simp add: transfers_ok_def queue_ok_def initial_queue_def)

lemma run_ok: "transfers_ok (foldl (queue_step tx) (initial_queue n) events)"
  by (rule transfer_queue.run_invar [OF initial_queue_ok])

section \<open>What each event starts\<close>

fun enqueued_ids :: "('f, 't) transfer_event \<Rightarrow> string list" where
  "enqueued_ids (EnqueueTask now i t) = [i]"
| "enqueued_ids _ = []"

definition starts_ok :: "string list \<Rightarrow> ('f, 't) transfer_queue \<Rightarrow> ('f, 't) transfer_queue \<Rightarrow> bool" where
  "starts_ok waiting q r \<longleftrightarrow> set (tq_queue r) \<subseteq> set waiting \<and>
     (\<exists>new. tq_started r = tq_started q @ new \<and> subseq (map fst new) waiting \<and>
        (new \<noteq> [] \<longrightarrow> int (length (tq_running r)) \<le> tq_concurrency r))"

lemma starts_ok_quiet: "tq_started r = tq_started q \<Longrightarrow> set (tq_queue r) \<subseteq> set waiting \<Longrightarrow> starts_ok waiting q r"
  by (simp add: starts_ok_def)

lemma starts_ok_drain:
  assumes "queue_ok p" "tq_started p = tq_started q" "subseq (tq_queue p) waiting"
  shows "starts_ok waiting q (drainTransferQueue now p)"
proof -
  obtain new where new: "tq_started (drainTransferQueue now p) = tq_started p @ new" "subseq (map fst new) (tq_queue p)"
    "new \<noteq> [] \<longrightarrow> int (length (tq_running (drainTransferQueue now p))) \<le> tq_concurrency (drainTransferQueue now p)"
    "suffix (tq_queue (drainTransferQueue now p)) (tq_queue p)"
    using drainTransferQueue_ok [OF assms(1), of now] by (auto simp: drain_step_ok_def)
  have "set (tq_queue (drainTransferQueue now p)) \<subseteq> set waiting"
    using set_mono_suffix [OF new(4)] subseq_set [OF assms(3)] by auto
  then show ?thesis
    unfolding starts_ok_def using new(1-3) assms(2) subseq_order.order_trans [OF new(2) assms(3)] by auto
qed

lemma queue_step_starts:
  assumes ok: "transfers_ok q"
  shows "starts_ok (tq_queue q @ enqueued_ids e) q (queue_step tx q e)"
proof (cases e)
  case (EnqueueTask now i t)
  then show ?thesis
    using queue_ok_enqueue [OF transfers_ok_queue [OF ok], of i t]
    by (auto simp: enqueueRemoteFileTransfer_def Let_def intro!: starts_ok_drain)
next
  case (SetConcurrency now n)
  have "queue_ok (q\<lparr>tq_concurrency := n\<rparr>)"
    using ok by (simp add: transfers_ok_def queue_ok_def)
  then show ?thesis
    by (simp add: SetConcurrency set_concurrency_def starts_ok_drain)
next
  case (TaskSettles now i)
  then show ?thesis
    using queue_ok_settle [OF transfers_ok_queue [OF ok], of i]
    by (cases "i \<in> set (tq_running q)") (auto simp: task_settled_def starts_ok_quiet intro!: starts_ok_drain)
qed (auto simp: requestCancelTransfer_def cancelQueuedTransfer_def removeTransfer_def dropQueuedTransfer_def Let_def
    split: option.splits intro!: starts_ok_quiet)

text \<open>
  C22. Whatever happens, a transfer is waiting or running at most once and nothing waits while a
  slot is free; the events start waiting transfers only, in the order they were queued, and never
  beyond the limit that is set at that moment.
\<close>

theorem transfer_queue_sound:
  assumes "q = foldl (queue_step tx) (initial_queue n) events" and "r = queue_step tx q e"
  shows "distinct (tq_queue r @ tq_running r) \<and>
    (tq_queue r \<noteq> [] \<longrightarrow> tq_concurrency r \<le> int (length (tq_running r))) \<and>
    (\<exists>new. tq_started r = tq_started q @ new \<and> subseq (map fst new) (tq_queue q @ enqueued_ids e) \<and>
      (new \<noteq> [] \<longrightarrow> int (length (tq_running r)) \<le> tq_concurrency r))"
proof -
  have ok: "transfers_ok q"
    unfolding assms(1) by (rule run_ok)
  then have "transfers_ok r"
    unfolding assms(2) by (rule queue_step_ok)
  then show ?thesis
    using queue_step_starts [OF ok, of e tx] by (auto simp: transfers_ok_def queue_ok_def starts_ok_def assms(2))
qed

lemma not_waiting_not_started:
  assumes "transfers_ok q" "i \<notin> set (tq_queue q)" "\<forall>e \<in> set events. i \<notin> set (enqueued_ids e)"
  shows "filter (\<lambda>(j, t). j = i) (tq_started (foldl (queue_step tx) q events)) = filter (\<lambda>(j, t). j = i) (tq_started q)"
  using assms
proof (induction events arbitrary: q)
  case (Cons e events)
  let ?r = "queue_step tx q e"
  obtain new where new: "tq_started ?r = tq_started q @ new" "subseq (map fst new) (tq_queue q @ enqueued_ids e)"
    "set (tq_queue ?r) \<subseteq> set (tq_queue q @ enqueued_ids e)"
    using queue_step_starts [OF Cons.prems(1), of e tx] by (auto simp: starts_ok_def)
  have waiting: "i \<notin> set (tq_queue q @ enqueued_ids e)"
    using Cons.prems by simp
  then have "i \<notin> fst ` set new"
    using subseq_set [OF new(2)] by auto
  then have "filter (\<lambda>(j, t). j = i) new = []"
    by (force simp: filter_empty_conv)
  then have "filter (\<lambda>(j, t). j = i) (tq_started ?r) = filter (\<lambda>(j, t). j = i) (tq_started q)"
    by (simp add: new(1))
  moreover have "i \<notin> set (tq_queue ?r)"
    using waiting new(3) by blast
  ultimately show ?case
    using Cons.IH [OF queue_step_ok [OF Cons.prems(1)]] Cons.prems(3) by simp
qed simp

text \<open>
  A transfer that is cancelled while it waits does not start any more, whatever happens later,
  unless it is queued again.
\<close>

theorem cancelled_transfer_never_starts:
  assumes "q = foldl (queue_step tx) (initial_queue n) events" and "still_queued q i"
    and "\<forall>e \<in> set later. i \<notin> set (enqueued_ids e)"
  shows "filter (\<lambda>(j, t). j = i) (tq_started (foldl (queue_step tx) (requestCancelTransfer tx i q) later)) =
    filter (\<lambda>(j, t). j = i) (tq_started q)"
proof -
  have "transfers_ok q"
    unfolding assms(1) by (rule run_ok)
  then have "transfers_ok (requestCancelTransfer tx i q)"
    using queue_step_ok [of q tx "RequestCancel i"] by simp
  moreover have cancelled: "requestCancelTransfer tx i q = cancelQueuedTransfer tx i q"
    using assms(2) by (auto simp: requestCancelTransfer_def still_queued_def split: option.splits)
  moreover have "i \<notin> set (tq_queue (cancelQueuedTransfer tx i q))" "tq_started (cancelQueuedTransfer tx i q) = tq_started q"
    by (simp_all add: cancelQueuedTransfer_def dropQueuedTransfer_def Let_def)
  ultimately show ?thesis
    using not_waiting_not_started [of "requestCancelTransfer tx i q" i later tx] assms(3) by simp
qed

text \<open>
  Waiting transfers get their turn: when all slots are taken and a running transfer ends, for
  whatever reason, the one that has waited longest starts, unless it has meanwhile been cancelled
  or has failed.
\<close>

theorem longest_waiting_starts_next:
  assumes "q = foldl (queue_step tx) (initial_queue n) events"
    and "tq_queue q = i # rest" and "i \<noteq> []" and "still_queued q i"
    and "j \<in> set (tq_running q)" and "int (length (tq_running q)) = tq_concurrency q"
  shows "\<exists>task more. tq_started (queue_step tx q (TaskSettles now j)) = tq_started q @ (i, task) # more"
proof -
  let ?p = "delete_task j (q\<lparr>tq_running := filter (\<lambda>k. k \<noteq> j) (tq_running q)\<rparr>)"
  have ok: "transfers_ok q"
    unfolding assms(1) by (rule run_ok)
  then have pok: "queue_ok ?p"
    using queue_ok_settle transfers_ok_queue assms(5) by blast
  have "length (filter (\<lambda>k. k \<noteq> j) (tq_running q)) < length (tq_running q)"
    using assms(5) by (intro length_filter_less) auto
  then have free: "int (length (tq_running ?p)) < tq_concurrency ?p"
    using assms(6) by simp
  have "i \<in> fst ` set (tq_tasks ?p)"
    using pok assms(2) by (simp add: queue_ok_def)
  then obtain task where task: "map_of (tq_tasks ?p) i = Some task"
    by (metis map_of_eq_None_iff option.exhaust)
  have "still_queued ?p i"
    using assms(4) by (simp add: still_queued_def)
  then have step: "drainTransferQueue now ?p = drain_from now rest (start_task now i task ?p)"
    using free task assms(2,3) by (simp add: drainTransferQueue_def)
  have "distinct (rest @ tq_running (start_task now i task ?p))" "set rest \<subseteq> fst ` set (tq_tasks (start_task now i task ?p))"
    using pok assms(2) by (auto simp: queue_ok_def start_task_running)
  from drain_from_ok [OF this, of now] obtain more where
    "tq_started (drain_from now rest (start_task now i task ?p)) = (tq_started q @ [(i, task)]) @ more"
    by (auto simp: drain_step_ok_def)
  then show ?thesis
    using assms(5) by (auto simp: task_settled_def step)
qed

section \<open>Examples\<close>

text \<open>One slot: the first transfer runs, the second waits.\<close>

definition sample_transfer_events :: "(unit, nat) transfer_event list" where
  "sample_transfer_events = [EnqueueTask 1 ''t1'' 10, EnqueueTask 2 ''t2'' 20]"

definition sample_transfer_queue :: "(unit, nat) transfer_queue" where
  "sample_transfer_queue = foldl (queue_step plain_texts) (initial_queue 1) sample_transfer_events"

lemma sample_transfer_values:
  "tq_queue sample_transfer_queue = [''t2'']" "tq_running sample_transfer_queue = [''t1'']"
  "tq_concurrency sample_transfer_queue = 1" "still_queued sample_transfer_queue ''t2''"
  "tq_started sample_transfer_queue = [(''t1'', 10)]"
  by code_simp+

theorem transfer_queue_sound_witness:
  "distinct (tq_queue (queue_step plain_texts sample_transfer_queue (TaskSettles 3 ''t1'')) @
    tq_running (queue_step plain_texts sample_transfer_queue (TaskSettles 3 ''t1'')))"
  using transfer_queue_sound [OF sample_transfer_queue_def refl, of "TaskSettles 3 ''t1''"] by blast

theorem cancelled_transfer_never_starts_witness:
  "filter (\<lambda>(j, t). j = ''t2'') (tq_started (foldl (queue_step plain_texts)
     (requestCancelTransfer plain_texts ''t2'' sample_transfer_queue) [TaskSettles 3 ''t1'', SetConcurrency 4 8])) = []"
  using cancelled_transfer_never_starts [OF sample_transfer_queue_def sample_transfer_values(4),
      of "[TaskSettles 3 ''t1'', SetConcurrency 4 8]"] sample_transfer_values(5) by simp

theorem longest_waiting_starts_next_witness:
  "\<exists>task more. tq_started (queue_step plain_texts sample_transfer_queue (TaskSettles 3 ''t1'')) =
     [(''t1'', 10)] @ (''t2'', task) # more"
  using longest_waiting_starts_next [OF sample_transfer_queue_def sample_transfer_values(1) _ sample_transfer_values(4), of "''t1''"]
    sample_transfer_values by simp

end
