(* ===== verification/Connection_Graph.thy ===== *)
theory Connection_Graph
  imports Batch_Model Js_Strings
begin

text \<open>
  Two graphs over the saved connections: the jump chain of an SSH connection
  (\<open>src/features/connections/jumpPlanPreview.ts\<close>) and the tree of groups
  (\<open>connectionGroupModel.ts\<close>). The code walks both with its own loop and its own visited set,
  because stored data may contain cycles and missing entries. Translated texts are a parameter.
\<close>

section \<open>Jump chains\<close>

datatype ConnectionJumpKind = JumpNone | SshJump

record ConnectionJumpConfig =
  jump_kind :: ConnectionJumpKind
  jump_connection_id :: "string option"

record JumpProfile =
  jp_id :: string
  jp_name :: "string option"
  jp_host :: string
  jp_port :: nat
  jp_username :: string
  jp_jump :: "ConnectionJumpConfig option"

datatype jump_issue_code = JumpCycle | JumpDepthExceeded | JumpMissing

record JumpPlanIssue =
  issue_code :: jump_issue_code
  issue_detail :: string
  issue_title :: string

record JumpPlanPreview =
  jpp_issue :: "JumpPlanIssue option"
  jpp_labels :: "string list"

definition name_or :: "string option \<Rightarrow> string \<Rightarrow> string" where
  "name_or name fallback = (case truthy (map_option js_trim name) of None \<Rightarrow> fallback | Some n \<Rightarrow> n)"

definition or_text :: "string \<Rightarrow> string \<Rightarrow> string" where
  "or_text s fallback = (if s = [] then fallback else s)"

definition labelForConnection :: "JumpProfile \<Rightarrow> string" where
  "labelForConnection c =
     name_or (jp_name c) (or_text (jp_username c) ''user'' @ ''@'' @ jp_host c @ '':'' @ nat_str (jp_port c))"

definition targetLabel :: "JumpProfile \<Rightarrow> string" where
  "targetLabel form =
     name_or (jp_name form)
       (or_text (jp_username form) ''user'' @ ''@'' @ or_text (jp_host form) ''target'' @ '':'' @ nat_str (jp_port form))"

text \<open>The id of the next host of the chain, empty at its end.\<close>

definition next_jump :: "JumpProfile \<Rightarrow> string" where
  "next_jump c = (case jp_jump c of
      None \<Rightarrow> []
    | Some j \<Rightarrow> if jump_kind j = SshJump then (case jump_connection_id j of None \<Rightarrow> [] | Some i \<Rightarrow> js_trim i) else [])"

definition profile_by_id :: "JumpProfile list \<Rightarrow> string \<Rightarrow> JumpProfile option" where
  "profile_by_id connections = map_of (rev (map (\<lambda>c. (jp_id c, c)) connections))"

definition jump_issue :: "(string \<Rightarrow> string) \<Rightarrow> jump_issue_code \<Rightarrow> string \<Rightarrow> JumpPlanIssue" where
  "jump_issue tr code key = \<lparr>issue_code = code, issue_detail = tr (''jump.issue.'' @ key @ ''.detail''),
     issue_title = tr (''jump.issue.'' @ key @ ''.title'')\<rparr>"

function jump_walk ::
  "(string \<Rightarrow> string) \<Rightarrow> JumpProfile list \<Rightarrow> string list \<Rightarrow> JumpProfile list \<Rightarrow> string
    \<Rightarrow> JumpPlanIssue option \<times> JumpProfile list" where
  "jump_walk tr connections visited jumps currentId =
     (if currentId = [] then (None, jumps)
      else if currentId \<in> set visited then (Some (jump_issue tr JumpCycle ''cycle''), jumps)
      else if 2 \<le> length jumps then (Some (jump_issue tr JumpDepthExceeded ''depth''), jumps)
      else case profile_by_id connections currentId of
          None \<Rightarrow> (Some (jump_issue tr JumpMissing ''missing''), jumps)
        | Some current \<Rightarrow> jump_walk tr connections (currentId # visited) (jumps @ [current]) (next_jump current))"
  by pat_completeness auto
termination jump_walk
  by (relation "measure (\<lambda>(tr, connections, visited, jumps, currentId). 2 - length jumps)") auto

declare jump_walk.simps [simp del]

definition buildJumpPlanPreview :: "(string \<Rightarrow> string) \<Rightarrow> JumpProfile \<Rightarrow> JumpProfile list \<Rightarrow> string \<Rightarrow> JumpPlanPreview" where
  "buildJumpPlanPreview tr form connections targetConnectionId =
     (let target = targetLabel form; jumpId = next_jump form in
      if jumpId = [] then \<lparr>jpp_issue = None, jpp_labels = [target]\<rparr>
      else let (issue, jumps) = jump_walk tr connections
                 (if targetConnectionId = [] then [] else [targetConnectionId]) [] jumpId
        in \<lparr>jpp_issue = issue, jpp_labels = rev (map labelForConnection jumps) @ [target]\<rparr>)"

lemma profile_by_id_SomeD: "profile_by_id connections i = Some c \<Longrightarrow> c \<in> set connections \<and> jp_id c = i"
  unfolding profile_by_id_def by (drule map_of_SomeD) auto

function cycle_walk :: "string \<Rightarrow> JumpProfile list \<Rightarrow> string list \<Rightarrow> string \<Rightarrow> bool" where
  "cycle_walk targetConnectionId connections visited currentId =
     (if currentId = [] then False
      else if currentId = targetConnectionId \<or> currentId \<in> set visited then True
      else case profile_by_id connections currentId of
          None \<Rightarrow> False
        | Some current \<Rightarrow> cycle_walk targetConnectionId connections (currentId # visited) (next_jump current))"
  by pat_completeness auto
termination cycle_walk
proof (relation "measure (\<lambda>(t, connections, visited, currentId). card (jp_id ` set connections - set visited))", goal_cases)
  case (2 targetConnectionId connections visited currentId current)
  then have "currentId \<in> jp_id ` set connections - set visited"
    using profile_by_id_SomeD by fastforce
  then have "jp_id ` set connections - set (currentId # visited) \<subset> jp_id ` set connections - set visited"
    by auto
  then show ?case
    by (simp add: psubset_card_mono)
qed simp

declare cycle_walk.simps [simp del]

definition jumpCandidateWouldCycle :: "string \<Rightarrow> string \<Rightarrow> JumpProfile list \<Rightarrow> bool" where
  "jumpCandidateWouldCycle candidateId targetConnectionId connections =
     cycle_walk targetConnectionId connections [] candidateId"

definition validateJumpPlanSelection :: "(string \<Rightarrow> string) \<Rightarrow> JumpProfile \<Rightarrow> JumpProfile list \<Rightarrow> string \<Rightarrow> JumpPlanIssue option" where
  "validateJumpPlanSelection tr form connections targetConnectionId =
     jpp_issue (buildJumpPlanPreview tr form connections targetConnectionId)"

section \<open>The chain as an iteration\<close>

text \<open>One hop from a stored connection to the next, and \<open>n\<close> hops.\<close>

definition hop :: "JumpProfile list \<Rightarrow> string \<Rightarrow> string option" where
  "hop connections i = (case profile_by_id connections i of None \<Rightarrow> None | Some c \<Rightarrow> truthy (Some (next_jump c)))"

fun hops :: "JumpProfile list \<Rightarrow> nat \<Rightarrow> string \<Rightarrow> string option" where
  "hops connections 0 i = Some i"
| "hops connections (Suc n) i = Option.bind (hops connections n i) (hop connections)"

lemma hops_add: "hops cs (a + b) i = Option.bind (hops cs a i) (hops cs b)"
  by (induction b) (auto split: bind_splits)

lemma hops_prefix: "hops cs n i \<noteq> None \<Longrightarrow> m \<le> n \<Longrightarrow> hops cs m i \<noteq> None"
  using hops_add [of cs m "n - m" i] by (auto split: bind_splits)

lemma hops_end: "hops cs m i = None \<Longrightarrow> m \<le> n \<Longrightarrow> hops cs n i = None"
  using hops_prefix by blast

text \<open>A chain that comes back to a host never ends.\<close>

lemma hops_periodic:
  assumes "k < m" "hops cs k i = Some j" "hops cs m i = Some j"
  shows "hops cs n i \<noteq> None"
proof (induction n rule: less_induct)
  case (less n)
  show ?case
  proof (cases "n \<le> m")
    case True
    then show ?thesis
      using hops_prefix [of cs m i n] assms(3) by simp
  next
    case False
    then have "hops cs n i = hops cs (n - m) j"
      using hops_add [of cs m "n - m" i] assms(3) by simp
    also have "\<dots> = hops cs (k + (n - m)) i"
      using hops_add [of cs k "n - m" i] assms(2) by simp
    finally show ?thesis
      using less.IH [of "k + (n - m)"] False assms(1) by simp
  qed
qed

lemma truthy_Some: "truthy (Some s) = (if s = [] then None else Some s)"
  by (cases s) auto

text \<open>
  The walk at its \<open>m\<close>-th hop: it has visited exactly the hosts before, none of them the target.
\<close>

lemma cycle_walk_exact:
  assumes "hops cs m candidate = truthy (Some i)"
    and "\<And>k. k < m \<Longrightarrow> \<exists>v \<in> set visited. hops cs k candidate = Some v"
    and "\<And>v. v \<in> set visited \<Longrightarrow> \<exists>k < m. hops cs k candidate = Some v" and "target \<notin> set visited"
  shows "cycle_walk target cs visited i \<longleftrightarrow>
    (\<exists>n. hops cs n candidate = Some target) \<or> (\<forall>n. hops cs n candidate \<noteq> None)"
  using assms
proof (induction target cs visited i arbitrary: m rule: cycle_walk.induct)
  case (1 target cs visited i)
  have ended: "\<not> ((\<exists>n. hops cs n candidate = Some target) \<or> (\<forall>n. hops cs n candidate \<noteq> None))"
    if none: "hops cs n candidate = None" "\<forall>k < n. hops cs k candidate \<noteq> Some target" for n
    using none hops_end [OF none(1)] by (metis linorder_not_le option.distinct(1))
  have before: "\<forall>k < m. hops cs k candidate \<noteq> Some target"
    using "1.prems"(2,4) by fastforce
  consider "i = []" | "i \<noteq> []" "i = target" | "i \<noteq> []" "i \<noteq> target" "i \<in> set visited"
    | "i \<noteq> []" "i \<noteq> target" "i \<notin> set visited" "profile_by_id cs i = None"
    | c where "i \<noteq> []" "i \<noteq> target" "i \<notin> set visited" "profile_by_id cs i = Some c"
    by blast
  then show ?case
  proof cases
    case 1
    then show ?thesis
      using ended [of m] before "1.prems"(1) by (simp add: cycle_walk.simps [of target])
  next
    case 2
    then show ?thesis
      using "1.prems"(1) by (auto simp: cycle_walk.simps [of target] truthy_Some)
  next
    case 3
    then obtain k where "k < m" "hops cs k candidate = Some i"
      using "1.prems"(3) by blast
    moreover have "hops cs m candidate = Some i"
      using "1.prems"(1) 3 by (simp add: truthy_Some)
    ultimately have "\<forall>n. hops cs n candidate \<noteq> None"
      using hops_periodic by blast
    then show ?thesis
      using 3 by (simp add: cycle_walk.simps [of target])
  next
    case 4
    then have "hops cs (Suc m) candidate = None"
      using "1.prems"(1) by (simp add: truthy_Some hop_def)
    moreover have "\<forall>k < Suc m. hops cs k candidate \<noteq> Some target"
      using before "1.prems"(1) 4 by (auto simp: less_Suc_eq truthy_Some)
    ultimately show ?thesis
      using ended [of "Suc m"] 4 by (simp add: cycle_walk.simps [of target])
  next
    case 5
    have here: "hops cs m candidate = Some i"
      using "1.prems"(1) 5 by (simp add: truthy_Some)
    have "cycle_walk target cs (i # visited) (next_jump c) \<longleftrightarrow>
        (\<exists>n. hops cs n candidate = Some target) \<or> (\<forall>n. hops cs n candidate \<noteq> None)"
    proof (rule "1.IH" [of c "Suc m"])
      show "hops cs (Suc m) candidate = truthy (Some (next_jump c))"
        using here 5 by (simp add: hop_def)
      show "\<exists>v \<in> set (i # visited). hops cs k candidate = Some v" if "k < Suc m" for k
        using that here "1.prems"(2) by (auto simp: less_Suc_eq)
      show "\<exists>k < Suc m. hops cs k candidate = Some v" if "v \<in> set (i # visited)" for v
        using that here "1.prems"(3) by (auto simp: less_Suc_eq)
    qed (use 5 "1.prems"(4) in auto)
    then show ?thesis
      using 5 by (simp add: cycle_walk.simps [of target cs visited i])
  qed
qed

text \<open>
  C23. The test that keeps a connection from being offered as a jump host answers exactly the
  question it is meant to answer: following the stored jump hosts from the candidate leads to the
  connection being edited, or never ends. The test itself always ends.
\<close>

theorem jump_cycle_exact:
  assumes "candidate \<noteq> []"
  shows "jumpCandidateWouldCycle candidate target connections \<longleftrightarrow>
    (\<exists>n. hops connections n candidate = Some target) \<or> (\<forall>n. hops connections n candidate \<noteq> None)"
  unfolding jumpCandidateWouldCycle_def using assms
  by (intro cycle_walk_exact [where m = 0]) (auto simp: truthy_Some)

lemma hops_nonempty: "hops cs n i = Some j \<Longrightarrow> i \<noteq> [] \<Longrightarrow> j \<noteq> []"
  by (cases n) (auto simp: hop_def truthy_Some split: bind_splits option.splits if_splits)

text \<open>The walk of the preview visits at most two hosts; these are the cases of its first steps.\<close>

lemma jump_walk_end: "jump_walk tr cs visited jumps [] = (None, jumps)"
  by (simp add: jump_walk.simps [of tr])

lemma jump_walk_none:
  assumes "i \<noteq> []" "length jumps < 2"
  shows "fst (jump_walk tr cs visited jumps i) = None \<longleftrightarrow> i \<notin> set visited \<and>
    (\<exists>c. profile_by_id cs i = Some c \<and> fst (jump_walk tr cs (i # visited) (jumps @ [c]) (next_jump c)) = None)"
  using assms by (auto simp: jump_walk.simps [of tr cs visited jumps i] split: option.splits)

lemma jump_walk_deep: "i \<noteq> [] \<Longrightarrow> 2 \<le> length jumps \<Longrightarrow> fst (jump_walk tr cs visited jumps i) \<noteq> None"
  by (simp add: jump_walk.simps [of tr cs visited jumps i])

lemma jump_walk_last:
  assumes "length jumps = 2"
  shows "fst (jump_walk tr cs visited jumps i) = None \<longleftrightarrow> i = []"
  using assms jump_walk_deep [of i jumps] by (cases "i = []") (simp_all add: jump_walk_end)

lemma jump_walk_second:
  assumes "length jumps = 1"
  shows "fst (jump_walk tr cs visited jumps i) = None \<longleftrightarrow>
    i = [] \<or> i \<notin> set visited \<and> (\<exists>c. profile_by_id cs i = Some c \<and> next_jump c = [])"
proof (cases "i = []")
  case False
  then show ?thesis
    using assms jump_walk_none [of i jumps tr cs visited] by (simp add: jump_walk_last)
qed (simp add: jump_walk_end)

lemma jump_walk_first:
  assumes "i \<noteq> []"
  shows "fst (jump_walk tr cs visited [] i) = None \<longleftrightarrow> i \<notin> set visited \<and>
    (\<exists>c. profile_by_id cs i = Some c \<and>
      (next_jump c = [] \<or> next_jump c \<notin> set (i # visited) \<and>
        (\<exists>d. profile_by_id cs (next_jump c) = Some d \<and> next_jump d = [])))"
  using jump_walk_none [OF assms, of "[]" tr cs visited] by (simp add: jump_walk_second)

text \<open>
  The preview of a connection with a jump host raises no objection exactly when the chain
  has at most two hosts, all of them stored, and does not lead back to the connection itself;
  then the candidate test agrees that there is no cycle.
\<close>

theorem jump_preview_exact:
  assumes "next_jump form = j" and "j \<noteq> []"
  shows "(validateJumpPlanSelection tr form connections target = None \<longleftrightarrow>
      hops connections 2 j = None \<and>
      (\<forall>n < 2. \<forall>i. hops connections n j = Some i \<longrightarrow> i \<noteq> target \<and> profile_by_id connections i \<noteq> None)) \<and>
    (validateJumpPlanSelection tr form connections target = None \<longrightarrow> \<not> jumpCandidateWouldCycle j target connections)"
proof -
  let ?visited = "if target = [] then [] else [target]"
  have visited: "i \<in> set ?visited \<longleftrightarrow> i = target" if "i \<noteq> []" for i
    using that by auto
  have two: "(\<forall>n < 2. P n) \<longleftrightarrow> P 0 \<and> P (Suc 0)" for P :: "nat \<Rightarrow> bool"
    by (simp add: numeral_2_eq_2 All_less_Suc2)
  have walk: "validateJumpPlanSelection tr form connections target = None \<longleftrightarrow>
      fst (jump_walk tr connections ?visited [] j) = None"
    using assms by (simp add: validateJumpPlanSelection_def buildJumpPlanPreview_def Let_def split: prod.splits)
  have exact: "validateJumpPlanSelection tr form connections target = None \<longleftrightarrow>
      hops connections 2 j = None \<and>
      (\<forall>n < 2. \<forall>i. hops connections n j = Some i \<longrightarrow> i \<noteq> target \<and> profile_by_id connections i \<noteq> None)"
  proof (cases "profile_by_id connections j")
    case None
    then show ?thesis
      using walk assms(2) by (simp add: jump_walk_first two)
  next
    case (Some c)
    show ?thesis
    proof (cases "next_jump c = []")
      case True
      then show ?thesis
        unfolding two using walk Some visited [OF assms(2)] assms(2)
        by (auto simp: jump_walk_first numeral_2_eq_2 hop_def truthy_Some)
    next
      case False
      then have "hop connections j = Some (next_jump c)"
        using Some by (simp add: hop_def truthy_Some)
      then show ?thesis
        unfolding two using walk Some False visited [OF assms(2)] visited [OF False] assms(2)
        by (auto simp: jump_walk_first numeral_2_eq_2 hop_def [of _ "next_jump c"] truthy_Some split: option.splits if_splits)
    qed
  qed
  have "\<not> jumpCandidateWouldCycle j target connections"
    if none: "validateJumpPlanSelection tr form connections target = None"
  proof -
    have "hops connections n j \<noteq> Some target" for n
      using none exact hops_end [of connections 2 j n] by (cases "n < 2") auto
    then show ?thesis
      using none exact jump_cycle_exact [OF assms(2)] by blast
  qed
  with exact show ?thesis
    by blast
qed

text \<open>A bastion in front of a server, and the server that would jump through itself.\<close>

definition sample_hosts :: "JumpProfile list" where
  "sample_hosts =
     [\<lparr>jp_id = ''a'', jp_name = None, jp_host = ''a.example'', jp_port = 22, jp_username = ''root'',
       jp_jump = Some \<lparr>jump_kind = SshJump, jump_connection_id = Some '' b ''\<rparr>\<rparr>,
      \<lparr>jp_id = ''b'', jp_name = Some ''bastion'', jp_host = ''b.example'', jp_port = 22, jp_username = [], jp_jump = None\<rparr>]"

theorem jump_cycle_exact_witness:
  "jumpCandidateWouldCycle ''a'' ''b'' sample_hosts \<and> hops sample_hosts 1 ''a'' = Some ''b'' \<and>
   \<not> jumpCandidateWouldCycle ''b'' ''a'' sample_hosts"
proof -
  have "hops sample_hosts 1 ''a'' = Some ''b''" "\<not> jumpCandidateWouldCycle ''b'' ''a'' sample_hosts"
    by code_simp+
  then show ?thesis
    using jump_cycle_exact [of "''a''" "''b''" sample_hosts] by blast
qed

theorem jump_preview_exact_witness:
  "validateJumpPlanSelection (\<lambda>key. key) (hd sample_hosts) sample_hosts ''a'' = None \<and>
   \<not> jumpCandidateWouldCycle ''b'' ''a'' sample_hosts"
proof -
  have "next_jump (hd sample_hosts) = ''b''" "validateJumpPlanSelection (\<lambda>key. key) (hd sample_hosts) sample_hosts ''a'' = None"
    by code_simp+
  then show ?thesis
    using jump_preview_exact [of "hd sample_hosts" "''b''" "\<lambda>key. key" sample_hosts "''a''"] by simp
qed

section \<open>Groups\<close>

record ConnectionGroup =
  cg_id :: string
  cg_name :: string
  cg_parentId :: "string option"
  cg_color :: string
  cg_sortOrder :: rat

definition connection_group_by_id :: "ConnectionGroup list \<Rightarrow> string \<Rightarrow> ConnectionGroup option" where
  "connection_group_by_id groups = map_of (rev (map (\<lambda>g. (cg_id g, g)) groups))"

lemma connection_group_by_id_SomeD: "connection_group_by_id groups i = Some g \<Longrightarrow> g \<in> set groups \<and> cg_id g = i"
  unfolding connection_group_by_id_def by (drule map_of_SomeD) auto

function ancestor_names :: "ConnectionGroup list \<Rightarrow> string list \<Rightarrow> string option \<Rightarrow> string list \<Rightarrow> string list" where
  "ancestor_names groups visited parent names =
     (case truthy parent of
        None \<Rightarrow> names
      | Some p \<Rightarrow>
          if p \<in> set visited then names
          else case connection_group_by_id groups p of
              None \<Rightarrow> names
            | Some ancestor \<Rightarrow> ancestor_names groups (p # visited) (cg_parentId ancestor) (cg_name ancestor # names))"
  by pat_completeness auto
termination ancestor_names
proof (relation "measure (\<lambda>(groups, visited, parent, names). card (cg_id ` set groups - set visited))", goal_cases)
  case (2 groups visited parent names p ancestor)
  then have "p \<in> cg_id ` set groups - set visited"
    using connection_group_by_id_SomeD by fastforce
  then have "cg_id ` set groups - set (p # visited) \<subset> cg_id ` set groups - set visited"
    by auto
  then show ?case
    by (simp add: psubset_card_mono)
qed simp

declare ancestor_names.simps [simp del]

definition groupOptions :: "ConnectionGroup list \<Rightarrow> (string \<times> string) list" where
  "groupOptions groups =
     map (\<lambda>g. (cg_id g, join_with '' / '' (ancestor_names groups [cg_id g] (cg_parentId g) [cg_name g]))) groups"

text \<open>The inner loop of \<open>groupDescendants\<close>; the top of the stack \<open>pending\<close> is its head.\<close>

definition scan_children ::
  "ConnectionGroup list \<Rightarrow> string \<Rightarrow> string list \<times> string list \<Rightarrow> string list \<times> string list" where
  "scan_children groups parent =
     fold (\<lambda>g (ids, pending). if cg_parentId g = Some parent \<and> cg_id g \<notin> set ids
       then (ids @ [cg_id g], cg_id g # pending) else (ids, pending)) groups"

lemma scan_children_step:
  assumes "set gs \<subseteq> set groups" "scan_children gs parent (ids, pending) = (ids', pending')"
  shows "length pending' + card (cg_id ` set groups - set ids') = length pending + card (cg_id ` set groups - set ids) \<and>
    set ids' = set ids \<union> {cg_id g |g. g \<in> set gs \<and> cg_parentId g = Some parent} \<and>
    set pending' = set pending \<union> (set ids' - set ids)"
  using assms
proof (induction gs arbitrary: ids pending)
  case (Cons g gs)
  show ?case
  proof (cases "cg_parentId g = Some parent \<and> cg_id g \<notin> set ids")
    case True
    then have scan: "scan_children gs parent (ids @ [cg_id g], cg_id g # pending) = (ids', pending')"
      using Cons.prems(2) by (simp add: scan_children_def)
    have split: "cg_id ` set groups - set ids = insert (cg_id g) (cg_id ` set groups - set (ids @ [cg_id g]))"
      using True Cons.prems(1) by auto
    have card: "card (cg_id ` set groups - set ids) = Suc (card (cg_id ` set groups - set (ids @ [cg_id g])))"
      unfolding split by (rule card_insert_disjoint) auto
    have IH: "length pending' + card (cg_id ` set groups - set ids') =
        length (cg_id g # pending) + card (cg_id ` set groups - set (ids @ [cg_id g]))"
      "set ids' = set (ids @ [cg_id g]) \<union> {cg_id g |g. g \<in> set gs \<and> cg_parentId g = Some parent}"
      "set pending' = set (cg_id g # pending) \<union> (set ids' - set (ids @ [cg_id g]))"
      using Cons.IH [OF _ scan] Cons.prems(1) by (metis set_subset_Cons subset_trans)+
    show ?thesis
    proof (intro conjI)
      show "length pending' + card (cg_id ` set groups - set ids') = length pending + card (cg_id ` set groups - set ids)"
        using IH(1) card by simp
      show "set ids' = set ids \<union> {cg_id h |h. h \<in> set (g # gs) \<and> cg_parentId h = Some parent}"
        using IH(2) True by auto
      show "set pending' = set pending \<union> (set ids' - set ids)"
        using IH(3) True by (auto simp: IH(2))
    qed
  next
    case False
    then have scan: "scan_children gs parent (ids, pending) = (ids', pending')"
      using Cons.prems(2) by (auto simp: scan_children_def)
    then show ?thesis
      using Cons.IH [OF _ scan] Cons.prems(1) False by auto
  qed
qed (auto simp: scan_children_def)

function descend :: "ConnectionGroup list \<Rightarrow> string list \<Rightarrow> string list \<Rightarrow> string list" where
  "descend groups ids [] = ids"
| "descend groups ids (parent # rest) =
     (case scan_children groups parent (ids, rest) of (ids', pending) \<Rightarrow> descend groups ids' pending)"
  by pat_completeness auto
termination descend
proof (relation "measure (\<lambda>(groups, ids, pending). length pending + card (cg_id ` set groups - set ids))", goal_cases)
  case (2 groups ids parent rest ids' pending)
  then show ?case
    using scan_children_step [of groups groups parent ids rest ids' pending] by (auto simp flip: 2)
qed simp

definition groupDescendants :: "ConnectionGroup list \<Rightarrow> string \<Rightarrow> string list" where
  "groupDescendants groups i = descend groups [i] [i]"

section \<open>The walks over groups\<close>

definition child_group :: "ConnectionGroup list \<Rightarrow> string \<Rightarrow> string \<Rightarrow> bool" where
  "child_group groups p c \<longleftrightarrow> (\<exists>g \<in> set groups. cg_parentId g = Some p \<and> cg_id g = c)"

lemma descend_closed:
  assumes "set pending \<subseteq> set ids" "\<And>x. x \<in> set ids \<Longrightarrow> (child_group groups)\<^sup>*\<^sup>* start x"
    "\<And>x c. x \<in> set ids - set pending \<Longrightarrow> child_group groups x c \<Longrightarrow> c \<in> set ids"
  shows "set ids \<subseteq> set (descend groups ids pending) \<and>
    (\<forall>x \<in> set (descend groups ids pending). (child_group groups)\<^sup>*\<^sup>* start x \<and>
      (\<forall>c. child_group groups x c \<longrightarrow> c \<in> set (descend groups ids pending)))"
  using assms
proof (induction groups ids pending rule: descend.induct)
  case (2 groups ids parent rest)
  obtain ids' pending' where scan: "scan_children groups parent (ids, rest) = (ids', pending')"
    by fastforce
  have f: "set ids' = set ids \<union> {cg_id g |g. g \<in> set groups \<and> cg_parentId g = Some parent}"
    "set pending' = set rest \<union> (set ids' - set ids)"
    using scan_children_step [OF _ scan, of groups] by auto
  have children: "x \<in> set ids' \<Longrightarrow> x \<in> set ids \<or> child_group groups parent x" for x
    by (auto simp: f(1) child_group_def)
  have parent: "(child_group groups)\<^sup>*\<^sup>* start parent"
    using "2.prems"(1,2) by simp
  have "set ids' \<subseteq> set (descend groups ids' pending') \<and>
    (\<forall>x \<in> set (descend groups ids' pending'). (child_group groups)\<^sup>*\<^sup>* start x \<and>
      (\<forall>c. child_group groups x c \<longrightarrow> c \<in> set (descend groups ids' pending')))"
  proof (rule "2.IH" [OF scan [symmetric]])
    show "set pending' \<subseteq> set ids'"
      using "2.prems"(1) f by auto
    show "(child_group groups)\<^sup>*\<^sup>* start x" if "x \<in> set ids'" for x
      using children [OF that] "2.prems"(2) parent by (auto intro: rtranclp.rtrancl_into_rtrancl)
    show "c \<in> set ids'" if "x \<in> set ids' - set pending'" "child_group groups x c" for x c
      using that "2.prems"(3) [of x c] f by (cases "x = parent") (auto simp: child_group_def)
  qed
  then show ?case
    using f(1) by (auto simp: scan)
qed auto

text \<open>
  The set of groups that may not become the parent of a group is computed exactly: the group
  itself and everything below it, also when the stored groups contain cycles.
\<close>

theorem groupDescendants_exact:
  "set (groupDescendants groups i) = {j. (child_group groups)\<^sup>*\<^sup>* i j}"
proof -
  let ?ids = "set (descend groups [i] [i])"
  have facts: "i \<in> ?ids" "\<And>x. x \<in> ?ids \<Longrightarrow> (child_group groups)\<^sup>*\<^sup>* i x"
    "\<And>x c. x \<in> ?ids \<Longrightarrow> child_group groups x c \<Longrightarrow> c \<in> ?ids"
    using descend_closed [of "[i]" "[i]" groups i] by auto
  have "j \<in> ?ids" if "(child_group groups)\<^sup>*\<^sup>* i j" for j
    using that by (induction rule: rtranclp_induct) (use facts in auto)
  with facts(2) show ?thesis
    by (auto simp: groupDescendants_def)
qed

definition batch_group :: "ConnectionGroup \<Rightarrow> BatchConnectGroup" where
  "batch_group g = \<lparr>bg_id = cg_id g, bg_name = cg_name g, bg_parentId = cg_parentId g, bg_sortOrder = cg_sortOrder g\<rparr>"

lemma group_by_id_batch: "group_by_id (map batch_group groups) i = map_option batch_group (connection_group_by_id groups i)"
proof -
  have "group_by_id (map batch_group groups) i =
      map_of (map (\<lambda>(k, g). (k, batch_group g)) (rev (map (\<lambda>g. (cg_id g, g)) groups))) i"
    by (simp add: group_by_id_def rev_map comp_def batch_group_def)
  then show ?thesis
    by (simp add: connection_group_by_id_def map_of_map)
qed

lemma ancestor_names_climb:
  "ancestor_names groups visited parent names =
   climb (map batch_group groups) visited
     (case truthy parent of None \<Rightarrow> None | Some p \<Rightarrow> group_by_id (map batch_group groups) p) names"
proof (induction groups visited parent names rule: ancestor_names.induct)
  case (1 groups visited parent names)
  show ?case
  proof (cases "truthy parent")
    case (Some p)
    show ?thesis
    proof (cases "connection_group_by_id groups p")
      case None
      then show ?thesis
        using Some by (simp add: ancestor_names.simps [of groups visited parent] group_by_id_batch)
    next
      case (Some a)
      then have "bg_id (batch_group a) = p" "bg_name (batch_group a) = cg_name a" "bg_parentId (batch_group a) = cg_parentId a"
        using connection_group_by_id_SomeD by (auto simp: batch_group_def)
      then show ?thesis
        using Some \<open>truthy parent = Some p\<close> "1.IH" [OF \<open>truthy parent = Some p\<close> _ Some]
        by (simp add: ancestor_names.simps [of groups visited parent] group_by_id_batch)
    qed
  qed (simp add: ancestor_names.simps [of groups visited parent])
qed

lemma join_names_join_with: "join_names ns = join_with '' / '' ns"
  by (induction ns rule: join_names.induct) auto

text \<open>
  The two places that spell out the path of a group agree: with unique ids the label of a
  group in the group picker is the path the batch dialog shows for it.
\<close>

theorem groupOptions_batch_path:
  assumes "distinct (map cg_id groups)"
  shows "groupOptions groups = map (\<lambda>g. (cg_id g, resolveGroupPath (map batch_group groups) (cg_id g))) groups"
proof -
  have "join_with '' / '' (ancestor_names groups [cg_id g] (cg_parentId g) [cg_name g]) =
      resolveGroupPath (map batch_group groups) (cg_id g)" if "g \<in> set groups" for g
  proof -
    have "connection_group_by_id groups (cg_id g) = Some g"
      using assms that unfolding connection_group_by_id_def
      by (subst map_of_eq_Some_iff) (auto simp: rev_map [symmetric] comp_def)
    then show ?thesis
      by (simp add: resolveGroupPath_def group_by_id_batch ancestor_names_climb join_names_join_with batch_group_def)
  qed
  then show ?thesis
    by (simp add: groupOptions_def)
qed

theorem groupOptions_batch_path_witness:
  "groupOptions [\<lparr>cg_id = ''p'', cg_name = ''Prod'', cg_parentId = None, cg_color = [], cg_sortOrder = 0\<rparr>,
     \<lparr>cg_id = ''d'', cg_name = ''Db'', cg_parentId = Some ''p'', cg_color = [], cg_sortOrder = 1\<rparr>] =
   [(''p'', resolveGroupPath (map batch_group [\<lparr>cg_id = ''p'', cg_name = ''Prod'', cg_parentId = None, cg_color = [], cg_sortOrder = 0\<rparr>,
     \<lparr>cg_id = ''d'', cg_name = ''Db'', cg_parentId = Some ''p'', cg_color = [], cg_sortOrder = 1\<rparr>]) ''p''), (''d'', ''Prod / Db'')]"
proof -
  let ?gs = "[\<lparr>cg_id = ''p'', cg_name = ''Prod'', cg_parentId = None, cg_color = [], cg_sortOrder = 0\<rparr>,
     \<lparr>cg_id = ''d'', cg_name = ''Db'', cg_parentId = Some ''p'', cg_color = [], cg_sortOrder = 1\<rparr>]"
  have "resolveGroupPath (map batch_group ?gs) ''d'' = ''Prod / Db''"
    by code_simp
  then show ?thesis
    using groupOptions_batch_path [of ?gs] by simp
qed

end
