(* ===== verification/Shortcuts.thy ===== *)
theory Shortcuts
  imports Js_Strings
begin

text \<open>
  Keyboard shortcuts, after \<open>src/features/shortcuts/\<close>: parsing and printing of bindings
  (\<open>shortcutKeys.ts\<close>), their validation (\<open>shortcutValidation.ts\<close>), the table of actions
  (\<open>shortcutRegistry.ts\<close>) and the dispatch of a key press (\<open>useShortcutManager.ts\<close>).
  The DOM enters as the properties of the event that the code reads.
\<close>

section \<open>Bindings\<close>

datatype shortcut_modifier = ModCtrl | ModShift | ModAlt | ModMeta

text \<open>Modifiers are ordered as \<open>modifierOrder\<close> lists them.\<close>

fun modifier_rank :: "shortcut_modifier \<Rightarrow> nat" where
  "modifier_rank ModCtrl = 0"
| "modifier_rank ModShift = 1"
| "modifier_rank ModAlt = 2"
| "modifier_rank ModMeta = 3"

instantiation shortcut_modifier :: linorder
begin

definition less_eq_shortcut_modifier :: "shortcut_modifier \<Rightarrow> shortcut_modifier \<Rightarrow> bool" where
  "less_eq_shortcut_modifier a b \<longleftrightarrow> modifier_rank a \<le> modifier_rank b"

definition less_shortcut_modifier :: "shortcut_modifier \<Rightarrow> shortcut_modifier \<Rightarrow> bool" where
  "less_shortcut_modifier a b \<longleftrightarrow> modifier_rank a < modifier_rank b"

instance
proof
  show "a = b" if "a \<le> b" "b \<le> a" for a b :: shortcut_modifier
    using that by (cases a; cases b) (simp_all add: less_eq_shortcut_modifier_def)
qed (auto simp: less_eq_shortcut_modifier_def less_shortcut_modifier_def)

end

record ParsedShortcutBinding =
  sb_alt :: bool
  sb_ctrl :: bool
  sb_key :: string
  sb_meta :: bool
  sb_shift :: bool

definition modifierOrder :: "shortcut_modifier list" where
  "modifierOrder = [ModCtrl, ModShift, ModAlt, ModMeta]"

fun modifierLabels :: "shortcut_modifier \<Rightarrow> string" where
  "modifierLabels ModAlt = ''Alt''"
| "modifierLabels ModCtrl = ''Ctrl''"
| "modifierLabels ModMeta = ''Meta''"
| "modifierLabels ModShift = ''Shift''"

definition modifierAliases :: "(string \<times> shortcut_modifier) list" where
  "modifierAliases =
     [(''alt'', ModAlt), (''control'', ModCtrl), (''ctrl'', ModCtrl), (''cmd'', ModMeta), (''command'', ModMeta),
      (''meta'', ModMeta), (''option'', ModAlt), (''shift'', ModShift), (''super'', ModMeta), (''win'', ModMeta)]"

definition keyAliases :: "(string \<times> string) list" where
  "keyAliases =
     [(''arrowdown'', ''ArrowDown''), (''arrowleft'', ''ArrowLeft''), (''arrowright'', ''ArrowRight''),
      (''arrowup'', ''ArrowUp''), (''backspace'', ''Backspace''), (''comma'', '',''), (''delete'', ''Delete''),
      (''del'', ''Delete''), (''down'', ''ArrowDown''), (''enter'', ''Enter''), (''esc'', ''Escape''),
      (''escape'', ''Escape''), (''left'', ''ArrowLeft''), (''minus'', ''-''), (''period'', ''.''), (''plus'', ''+''),
      (''right'', ''ArrowRight''), (''space'', ''Space''), (''tab'', ''Tab''), (''up'', ''ArrowUp'')]"

definition keyboardModifierKeys :: "string list" where
  "keyboardModifierKeys = [''Alt'', ''AltGraph'', ''Control'', ''Meta'', ''Shift'']"

fun get_modifier :: "shortcut_modifier \<Rightarrow> ParsedShortcutBinding \<Rightarrow> bool" where
  "get_modifier ModAlt b = sb_alt b"
| "get_modifier ModCtrl b = sb_ctrl b"
| "get_modifier ModMeta b = sb_meta b"
| "get_modifier ModShift b = sb_shift b"

fun set_modifier :: "shortcut_modifier \<Rightarrow> ParsedShortcutBinding \<Rightarrow> ParsedShortcutBinding" where
  "set_modifier ModAlt b = b\<lparr>sb_alt := True\<rparr>"
| "set_modifier ModCtrl b = b\<lparr>sb_ctrl := True\<rparr>"
| "set_modifier ModMeta b = b\<lparr>sb_meta := True\<rparr>"
| "set_modifier ModShift b = b\<lparr>sb_shift := True\<rparr>"

text \<open>\<open>/^f([1-9]|1[0-9]|2[0-4])$/i\<close> and \<open>/^[a-z]$/i\<close>\<close>

definition function_keys :: "string list" where
  "function_keys =
     [''f1'', ''f2'', ''f3'', ''f4'', ''f5'', ''f6'', ''f7'', ''f8'', ''f9'', ''f10'', ''f11'', ''f12'',
      ''f13'', ''f14'', ''f15'', ''f16'', ''f17'', ''f18'', ''f19'', ''f20'', ''f21'', ''f22'', ''f23'', ''f24'']"

fun single_letter :: "string \<Rightarrow> bool" where
  "single_letter [c] = (let n = (of_char (lower_char c) :: int) in 97 \<le> n \<and> n \<le> 122)"
| "single_letter _ = False"

definition normalizeShortcutKey :: "string \<Rightarrow> string" where
  "normalizeShortcutKey key =
     (let trimmed = js_trim key in
      if trimmed = [] then []
      else case map_of keyAliases (toLowerCase trimmed) of
          Some alias \<Rightarrow> alias
        | None \<Rightarrow>
            if toLowerCase trimmed \<in> set function_keys then toUpperCase trimmed
            else if js_length trimmed = 1 then (if single_letter trimmed then toUpperCase trimmed else trimmed)
            else trimmed)"

definition no_binding :: ParsedShortcutBinding where
  "no_binding = \<lparr>sb_alt = False, sb_ctrl = False, sb_key = [], sb_meta = False, sb_shift = False\<rparr>"

fun parse_parts :: "string list \<Rightarrow> ParsedShortcutBinding \<Rightarrow> ParsedShortcutBinding option" where
  "parse_parts [] binding = (if sb_key binding = [] then None else Some binding)"
| "parse_parts (part # parts) binding =
     (case map_of modifierAliases (toLowerCase part) of
        Some modifier \<Rightarrow> parse_parts parts (set_modifier modifier binding)
      | None \<Rightarrow> if sb_key binding \<noteq> [] then None
                else parse_parts parts (binding\<lparr>sb_key := normalizeShortcutKey part\<rparr>))"

definition binding_parts :: "string \<Rightarrow> string list" where
  "binding_parts v = filter (\<lambda>part. part \<noteq> []) (map js_trim (split_on CHR ''+'' v))"

definition parseShortcutBinding :: "string option \<Rightarrow> ParsedShortcutBinding option" where
  "parseShortcutBinding v =
     (case v of
        None \<Rightarrow> None
      | Some s \<Rightarrow> if binding_parts s = [] then None else parse_parts (binding_parts s) no_binding)"

definition serializeShortcutBinding :: "ParsedShortcutBinding \<Rightarrow> string" where
  "serializeShortcutBinding binding =
     join_with ''+'' (map modifierLabels (filter (\<lambda>m. get_modifier m binding) modifierOrder) @ [sb_key binding])"

definition normalizeShortcutBinding :: "string option \<Rightarrow> string option" where
  "normalizeShortcutBinding v = map_option serializeShortcutBinding (parseShortcutBinding v)"

definition isPlainPrintableShortcut :: "string option \<Rightarrow> bool" where
  "isPlainPrintableShortcut v =
     (case parseShortcutBinding v of
        None \<Rightarrow> False
      | Some b \<Rightarrow> \<not> sb_alt b \<and> \<not> sb_ctrl b \<and> \<not> sb_meta b \<and> \<not> sb_shift b \<and> js_length (sb_key b) = 1)"

section \<open>Key presses\<close>

record KeyboardEvent =
  ke_key :: string
  ke_altKey :: bool
  ke_ctrlKey :: bool
  ke_metaKey :: bool
  ke_shiftKey :: bool

definition shortcutBindingFromKeyboardEvent :: "KeyboardEvent \<Rightarrow> string option" where
  "shortcutBindingFromKeyboardEvent event =
     (if ke_key event \<in> set keyboardModifierKeys then None
      else Some (serializeShortcutBinding \<lparr>sb_alt = ke_altKey event, sb_ctrl = ke_ctrlKey event,
        sb_key = normalizeShortcutKey (ke_key event), sb_meta = ke_metaKey event, sb_shift = ke_shiftKey event\<rparr>))"

definition keyboardEventMatchesShortcut :: "KeyboardEvent \<Rightarrow> string option \<Rightarrow> bool" where
  "keyboardEventMatchesShortcut event v =
     (case parseShortcutBinding v of
        None \<Rightarrow> False
      | Some binding \<Rightarrow>
          if ke_key event \<in> set keyboardModifierKeys then False
          else ke_altKey event = sb_alt binding \<and> ke_ctrlKey event = sb_ctrl binding \<and>
            ke_metaKey event = sb_meta binding \<and> ke_shiftKey event = sb_shift binding \<and>
            normalizeShortcutKey (ke_key event) = sb_key binding)"

section \<open>Actions, validation and conflicts\<close>

datatype ShortcutCategoryId = CategoryGeneral | CategoryTerminal | CategorySearch | CategoryTools

datatype ShortcutScope = ScopeGlobal | ScopeWorkspace | ScopeTerminal | ScopeTerminalSearch

datatype ShortcutDispatch = DispatchGlobal | DispatchLocal

record ShortcutAction =
  sa_id :: string
  sa_dispatch :: ShortcutDispatch
  sa_category :: ShortcutCategoryId
  sa_defaultBinding :: "string option"
  sa_scope :: ShortcutScope
  sa_allowInTerminal :: bool

definition shortcut_action ::
  "string \<Rightarrow> ShortcutDispatch \<Rightarrow> ShortcutCategoryId \<Rightarrow> string \<Rightarrow> ShortcutScope \<Rightarrow> bool \<Rightarrow> ShortcutAction" where
  "shortcut_action i d c b s a = \<lparr>sa_id = i, sa_dispatch = d, sa_category = c, sa_defaultBinding = Some b, sa_scope = s,
     sa_allowInTerminal = a\<rparr>"

definition aiSendMessageShortcutActionId :: string where
  "aiSendMessageShortcutActionId = ''ai.sendMessage''"

definition shortcutActions :: "ShortcutAction list" where
  "shortcutActions =
     [shortcut_action ''connection.quickOpen'' DispatchGlobal CategoryGeneral ''Ctrl+Shift+O'' ScopeGlobal True,
      shortcut_action ''settings.open'' DispatchGlobal CategoryGeneral ''Ctrl+,'' ScopeGlobal True,
      shortcut_action ''terminal.newTab'' DispatchGlobal CategoryTerminal ''Ctrl+Shift+T'' ScopeTerminal True,
      shortcut_action ''terminal.closeTab'' DispatchGlobal CategoryTerminal ''Ctrl+Shift+W'' ScopeTerminal True,
      shortcut_action ''terminal.search.toggle'' DispatchGlobal CategorySearch ''Ctrl+Shift+F'' ScopeTerminal True,
      shortcut_action ''terminal.search.next'' DispatchGlobal CategorySearch ''F3'' ScopeTerminalSearch True,
      shortcut_action ''terminal.search.previous'' DispatchGlobal CategorySearch ''Shift+F3'' ScopeTerminalSearch True,
      shortcut_action aiSendMessageShortcutActionId DispatchLocal CategoryTools ''Enter'' ScopeWorkspace False,
      shortcut_action ''commandSender.toggle'' DispatchGlobal CategoryTools ''Ctrl+Shift+K'' ScopeWorkspace True]"

text \<open>
  A \<open>Record<string, string | null | undefined>\<close> is the list of its entries; \<open>None\<close> stands for null
  and undefined, a missing key for no own property.
\<close>

type_synonym shortcut_bindings = "(string \<times> string option) list"

definition getShortcutAction :: "string \<Rightarrow> ShortcutAction option" where
  "getShortcutAction actionId = find (\<lambda>action. sa_id action = actionId) shortcutActions"

definition resolveShortcutBinding :: "shortcut_bindings \<Rightarrow> ShortcutAction \<Rightarrow> string option" where
  "resolveShortcutBinding bindings action =
     (case map_of bindings (sa_id action) of Some b \<Rightarrow> b | None \<Rightarrow> sa_defaultBinding action)"

definition resolveShortcutBindingById :: "shortcut_bindings \<Rightarrow> string \<Rightarrow> string option" where
  "resolveShortcutBindingById bindings actionId =
     (case getShortcutAction actionId of None \<Rightarrow> None | Some action \<Rightarrow> resolveShortcutBinding bindings action)"

definition resolveGlobalShortcutBindings :: "shortcut_bindings \<Rightarrow> (ShortcutAction \<times> string option) list" where
  "resolveGlobalShortcutBindings bindings =
     map (\<lambda>action. (action, resolveShortcutBinding bindings action))
       (filter (\<lambda>action. sa_dispatch action = DispatchGlobal) shortcutActions)"

definition reservedBindings :: "string list" where
  "reservedBindings = [''Ctrl+A'', ''Ctrl+C'', ''Ctrl+E'', ''Ctrl+L'', ''Ctrl+R'', ''Ctrl+V'', ''Ctrl+W'', ''Ctrl+X'']"

datatype ShortcutValidationResult = ShortcutValid | ShortcutInvalid | ShortcutPlainPrintable | ShortcutReserved

definition validateShortcutBinding :: "string option \<Rightarrow> ShortcutValidationResult" where
  "validateShortcutBinding v =
     (case truthy v of
        None \<Rightarrow> ShortcutValid
      | Some s \<Rightarrow>
          (case truthy (normalizeShortcutBinding (Some s)) of
             None \<Rightarrow> ShortcutInvalid
           | Some normalized \<Rightarrow>
               if parseShortcutBinding (Some normalized) = None then ShortcutInvalid
               else if isPlainPrintableShortcut (Some normalized) then ShortcutPlainPrintable
               else if normalized \<in> set reservedBindings then ShortcutReserved
               else ShortcutValid))"

fun group_bindings :: "string list \<Rightarrow> shortcut_bindings \<Rightarrow> (string \<times> string list) list \<Rightarrow> (string \<times> string list) list" where
  "group_bindings actionIds [] byBinding = byBinding"
| "group_bindings actionIds ((actionId, binding) # entries) byBinding =
     (if actionId \<notin> set actionIds then group_bindings actionIds entries byBinding
      else case truthy (normalizeShortcutBinding binding) of
          None \<Rightarrow> group_bindings actionIds entries byBinding
        | Some normalized \<Rightarrow>
            group_bindings actionIds entries
              (map_set normalized ((case map_of byBinding normalized of None \<Rightarrow> [] | Some ids \<Rightarrow> ids) @ [actionId]) byBinding))"

record ShortcutConflict =
  conflict_actionIds :: "string list"
  conflict_binding :: string

definition findShortcutConflicts :: "shortcut_bindings \<Rightarrow> ShortcutAction list \<Rightarrow> ShortcutConflict list" where
  "findShortcutConflicts bindings actions =
     map (\<lambda>(binding, ids). \<lparr>conflict_actionIds = ids, conflict_binding = binding\<rparr>)
       (filter (\<lambda>(binding, ids). 1 < length ids) (group_bindings (map sa_id actions) bindings []))"

text \<open>A stored value: absent or not a string, null, or a string.\<close>

datatype stored_binding = StoredOther | StoredNull | StoredText string

definition normalize_stored :: "(string \<rightharpoonup> string option) \<Rightarrow> ShortcutAction \<Rightarrow> stored_binding \<Rightarrow> string option" where
  "normalize_stored fallback action raw =
     (case raw of
        StoredNull \<Rightarrow> None
      | _ \<Rightarrow>
        let normalized = (case raw of StoredText s \<Rightarrow> normalizeShortcutBinding (Some s) | _ \<Rightarrow> None);
            default_value = coalesce (case fallback (sa_id action) of None \<Rightarrow> None | Some b \<Rightarrow> b) (sa_defaultBinding action)
        in case truthy normalized of
             None \<Rightarrow> default_value
           | Some n \<Rightarrow> if validateShortcutBinding (Some n) = ShortcutValid then Some n else default_value)"

definition normalizeShortcutBindings ::
  "(string \<Rightarrow> stored_binding) \<Rightarrow> (string \<rightharpoonup> string option) \<Rightarrow> shortcut_bindings" where
  "normalizeShortcutBindings record_value fallback =
     map (\<lambda>action. (sa_id action, normalize_stored fallback action (record_value (sa_id action)))) shortcutActions"

section \<open>Dispatch\<close>

record key_target =
  kt_inTerminal :: bool
  kt_inTerminalSearch :: bool
  kt_editable :: bool

definition canRunInsideTerminalSearch :: "ShortcutAction \<Rightarrow> bool" where
  "canRunInsideTerminalSearch action \<longleftrightarrow> sa_scope action = ScopeTerminal \<or> sa_scope action = ScopeTerminalSearch"

text \<open>
  The handler of \<open>keydown\<close>: the action it runs, if any. \<open>handlers\<close> gives for an action whether its
  handler is enabled, \<open>None\<close> when there is no handler.
\<close>

definition handleKeyDown ::
  "shortcut_bindings \<Rightarrow> (string \<Rightarrow> bool option) \<Rightarrow> key_target \<Rightarrow> KeyboardEvent \<Rightarrow> string option" where
  "handleKeyDown bindings handlers target event =
     (if kt_editable target \<and> \<not> kt_inTerminal target \<and> \<not> kt_inTerminalSearch target then None
      else map_option (\<lambda>(action, binding). sa_id action)
        (find (\<lambda>(action, binding).
            truthy binding \<noteq> None \<and> keyboardEventMatchesShortcut event binding \<and>
            \<not> (kt_inTerminal target \<and> \<not> sa_allowInTerminal action) \<and>
            \<not> (kt_inTerminalSearch target \<and> \<not> canRunInsideTerminalSearch action) \<and>
            handlers (sa_id action) = Some True)
          (resolveGlobalShortcutBindings bindings)))"

section \<open>Printing and parsing\<close>

definition key_ok :: "string \<Rightarrow> bool" where
  "key_ok k \<longleftrightarrow> k \<noteq> [] \<and> CHR ''+'' \<notin> set k \<and> js_trim k = k \<and> normalizeShortcutKey k = k \<and>
     map_of modifierAliases (toLowerCase k) = None"

text \<open>Keys written in visible ASCII characters that stand for themselves.\<close>

definition plain :: "string \<Rightarrow> bool" where
  "plain s \<longleftrightarrow> (\<forall>c \<in> set s. 33 \<le> (of_char c :: int) \<and> (of_char c :: int) < 127)"

definition key_simple :: "string \<Rightarrow> bool" where
  "key_simple k \<longleftrightarrow> k \<noteq> [] \<and> plain k \<and> CHR ''+'' \<notin> set k \<and> map_of modifierAliases (toLowerCase k) = None \<and>
     (map_of keyAliases (toLowerCase k) = Some k \<or> map_of keyAliases (toLowerCase k) = None \<and> toUpperCase k = k)"

lemma js_spaces_not_plain: "list_all (\<lambda>w. w \<noteq> [] \<and> list_all (\<lambda>c. \<not> plain [c]) w) js_spaces"
  by (simp add: js_spaces_def plain_def)

lemma plain_trimmed:
  assumes "plain s"
  shows "js_trim s = s"
proof (rule js_trim_id)
  have "\<not> prefix w s \<and> \<not> suffix w s" if "w \<in> set js_spaces" for w
  proof -
    have "hd w \<in> set w" "\<not> plain [hd w]"
      using js_spaces_not_plain that by (auto simp: list_all_iff)
    then have "\<not> set w \<subseteq> set s"
      using assms by (auto simp: plain_def)
    then show ?thesis
      using set_mono_prefix set_mono_suffix by blast
  qed
  then show "trimmed s"
    by (simp add: trimmed_def)
qed

lemma key_simple_ok: "key_simple k \<Longrightarrow> key_ok k"
  using plain_trimmed [of k] by (auto simp: key_simple_def key_ok_def normalizeShortcutKey_def)

lemma key_aliases_ok: "list_all (\<lambda>(a, k). k = ''+'' \<or> key_simple k) keyAliases"
  by code_simp

lemma function_keys_ok: "list_all (\<lambda>k. key_simple (toUpperCase k)) function_keys"
  by code_simp

lemma capitals_ok: "list_all (\<lambda>c. key_simple [c]) ''ABCDEFGHIJKLMNOPQRSTUVWXYZ''"
  by code_simp

lemma capitals_codes: "map of_char ''ABCDEFGHIJKLMNOPQRSTUVWXYZ'' = [65 :: int .. 90]"
  by code_simp

lemma capitals_complete:
  assumes "65 \<le> n" "n \<le> (90 :: int)"
  shows "char_of n \<in> set ''ABCDEFGHIJKLMNOPQRSTUVWXYZ''"
proof -
  have "n \<in> set [65 :: int .. 90]"
    using assms by (simp only: set_upto atLeastAtMost_iff)
  then obtain c where "c \<in> set ''ABCDEFGHIJKLMNOPQRSTUVWXYZ''" "n = of_char c"
    unfolding capitals_codes [symmetric] set_map by blast
  then show ?thesis
    by (simp only: char_of_char)
qed

lemma upper_lower_char: "upper_char (lower_char c) = upper_char c"
  by (auto simp: upper_char_def lower_char_def Let_def)

lemma toUpperCase_toLowerCase: "toUpperCase (toLowerCase s) = toUpperCase s"
  by (simp add: toUpperCase_def toLowerCase_def upper_lower_char)

lemma single_letter_ok:
  assumes "single_letter s"
  shows "key_ok (toUpperCase s)"
proof -
  obtain c where c: "s = [c]" "97 \<le> (of_char (lower_char c) :: int)" "(of_char (lower_char c) :: int) \<le> 122"
    using assms by (cases s rule: single_letter.cases) (auto simp: Let_def)
  define d where "d = char_of ((of_char (lower_char c) :: int) - 32)"
  have "toUpperCase s = [upper_char (lower_char c)]"
    by (simp add: c(1) toUpperCase_def upper_lower_char)
  also have "\<dots> = [d]"
    using c by (simp add: upper_char_def Let_def d_def)
  moreover have "d \<in> set ''ABCDEFGHIJKLMNOPQRSTUVWXYZ''"
    unfolding d_def using c by (intro capitals_complete) linarith+
  then have "key_simple [d]"
    using capitals_ok unfolding list_all_iff by (rule bspec [rotated])
  ultimately show ?thesis
    using key_simple_ok by metis
qed

text \<open>What the parser stores as the key of a binding can be printed and read back, but for \<open>plus\<close>.\<close>

lemma normalizeShortcutKey_ok:
  assumes p: "p \<noteq> []" "CHR ''+'' \<notin> set p" "js_trim p = p" "map_of modifierAliases (toLowerCase p) = None"
  shows "normalizeShortcutKey p = ''+'' \<or> key_ok (normalizeShortcutKey p)"
proof (cases "map_of keyAliases (toLowerCase p)")
  case (Some k)
  then have "(toLowerCase p, k) \<in> set keyAliases"
    by (rule map_of_SomeD)
  then have "k = ''+'' \<or> key_ok k"
    using key_aliases_ok key_simple_ok unfolding list_all_iff by blast
  moreover have "normalizeShortcutKey p = k"
    using p(1,3) Some by (simp add: normalizeShortcutKey_def)
  ultimately show ?thesis
    by simp
next
  case None
  show ?thesis
  proof (cases "toLowerCase p \<in> set function_keys")
    case True
    then have "key_ok (toUpperCase p)"
      using function_keys_ok toUpperCase_toLowerCase [of p] key_simple_ok by (metis list_all_iff)
    moreover have "normalizeShortcutKey p = toUpperCase p"
      using p(1,3) None True by (simp add: normalizeShortcutKey_def)
    ultimately show ?thesis
      by simp
  next
    case False
    then have "normalizeShortcutKey p = (if js_length p = 1 \<and> single_letter p then toUpperCase p else p)"
      using p(1,3) None by (simp add: normalizeShortcutKey_def)
    then show ?thesis
      using single_letter_ok [of p] p by (auto simp: key_ok_def)
  qed
qed

lemma binding_parts_facts:
  "part \<in> set (binding_parts v) \<Longrightarrow> part \<noteq> [] \<and> js_trim part = part"
  by (auto simp: binding_parts_def)

lemma strip_set: "set (strip pats s) \<subseteq> set s"
  using set_mono_suffix [OF strip_suffix] .

lemma js_trim_set: "set (js_trim s) \<subseteq> set s"
  using strip_set [of "map rev js_spaces" "rev (strip js_spaces s)"] strip_set [of js_spaces s] by (auto simp: js_trim_def)

lemma binding_parts_plus: "part \<in> set (binding_parts v) \<Longrightarrow> CHR ''+'' \<notin> set part"
  using js_trim_set split_on_free by (fastforce simp: binding_parts_def)

definition parsed_key_ok :: "ParsedShortcutBinding \<Rightarrow> bool" where
  "parsed_key_ok b \<longleftrightarrow> sb_key b = [] \<or> sb_key b = ''+'' \<or> key_ok (sb_key b)"

lemma set_modifier_key [simp]: "sb_key (set_modifier m b) = sb_key b"
  by (cases m) auto

lemma parse_parts_key_ok:
  assumes "parse_parts parts b = Some r" "parsed_key_ok b"
    "\<forall>part \<in> set parts. part \<noteq> [] \<and> js_trim part = part \<and> CHR ''+'' \<notin> set part"
  shows "parsed_key_ok r \<and> sb_key r \<noteq> []"
  using assms
proof (induction parts b rule: parse_parts.induct)
  case (2 part parts b)
  show ?case
  proof (cases "map_of modifierAliases (toLowerCase part)")
    case None
    then have "parsed_key_ok (b\<lparr>sb_key := normalizeShortcutKey part\<rparr>)"
      using normalizeShortcutKey_ok [of part] "2.prems"(3) by (auto simp: parsed_key_ok_def)
    then show ?thesis
      using "2.IH"(1) [OF None] "2.prems" None by (auto split: if_splits)
  next
    case (Some m)
    then show ?thesis
      using "2.IH"(2) [OF Some] "2.prems" by (auto simp: parsed_key_ok_def)
  qed
qed (auto split: if_splits)

lemma parsed_key:
  assumes "parseShortcutBinding v = Some b"
  shows "sb_key b = ''+'' \<or> key_ok (sb_key b)"
proof -
  obtain s where "parse_parts (binding_parts s) no_binding = Some b"
    using assms by (auto simp: parseShortcutBinding_def split: option.splits if_splits)
  then have "parsed_key_ok b \<and> sb_key b \<noteq> []"
    using binding_parts_facts binding_parts_plus
    by (intro parse_parts_key_ok) (auto simp: parsed_key_ok_def no_binding_def)
  then show ?thesis
    by (auto simp: parsed_key_ok_def)
qed

lemma binding_parts_serialize:
  assumes "key_ok (sb_key b)"
  shows "binding_parts (serializeShortcutBinding b) =
    map modifierLabels (filter (\<lambda>m. get_modifier m b) modifierOrder) @ [sb_key b]"
proof -
  let ?parts = "map modifierLabels (filter (\<lambda>m. get_modifier m b) modifierOrder) @ [sb_key b]"
  have label: "CHR ''+'' \<notin> set (modifierLabels m)" "modifierLabels m \<noteq> []" "js_trim (modifierLabels m) = modifierLabels m" for m
    using plain_trimmed [of "modifierLabels m"] by (cases m; simp add: plain_def)+
  have "split_on CHR ''+'' (serializeShortcutBinding b) = ?parts"
    unfolding serializeShortcutBinding_def using label(1) assms
    by (intro split_on_join) (auto simp: key_ok_def)
  moreover have "map js_trim ?parts = ?parts"
    using label(3) assms by (simp add: key_ok_def)
  moreover have "filter (\<lambda>part. part \<noteq> []) ?parts = ?parts"
    using label(2) assms by (simp add: key_ok_def filter_map comp_def)
  ultimately show ?thesis
    unfolding binding_parts_def by (simp only:)
qed

lemma modifier_label_alias: "map_of modifierAliases (toLowerCase (modifierLabels m)) = Some m"
  by (cases m) (simp_all only: modifierLabels.simps, code_simp+)

lemma parse_parts_labels:
  "parse_parts (map modifierLabels ms @ parts) b = parse_parts parts (fold set_modifier ms b)"
  by (induction ms arbitrary: b) (simp_all add: modifier_label_alias)

lemma fold_modifiers:
  "(fold set_modifier (filter (\<lambda>m. get_modifier m b) modifierOrder) no_binding)\<lparr>sb_key := sb_key b\<rparr> = b"
  by (cases b; cases "sb_ctrl b"; cases "sb_shift b"; cases "sb_alt b"; cases "sb_meta b")
    (simp_all add: modifierOrder_def no_binding_def)

lemma fold_modifiers_key [simp]: "sb_key (fold set_modifier ms b) = sb_key b"
  by (induction ms arbitrary: b) auto

lemma parse_serialize:
  assumes "key_ok (sb_key b)"
  shows "parseShortcutBinding (Some (serializeShortcutBinding b)) = Some b"
proof -
  let ?ms = "filter (\<lambda>m. get_modifier m b) modifierOrder"
  have "parse_parts (map modifierLabels ?ms @ [sb_key b]) no_binding =
      Some ((fold set_modifier ?ms no_binding)\<lparr>sb_key := sb_key b\<rparr>)"
    using assms by (simp add: parse_parts_labels key_ok_def no_binding_def)
  then show ?thesis
    using assms by (simp add: parseShortcutBinding_def binding_parts_serialize fold_modifiers)
qed

lemma serialize_plus:
  assumes "sb_key b = ''+''"
  shows "parseShortcutBinding (Some (serializeShortcutBinding b)) = None"
proof -
  let ?labels = "map modifierLabels (filter (\<lambda>m. get_modifier m b) modifierOrder)"
  have printed: "serializeShortcutBinding b = join_with ''+'' (?labels @ [[], []])"
    using assms join_with_append [of ?labels "[[], []]" "''+''"] join_with_append [of ?labels "[''+'']" "''+''"]
    by (cases "?labels = []") (simp_all add: serializeShortcutBinding_def)
  have label: "CHR ''+'' \<notin> set (modifierLabels m)" "modifierLabels m \<noteq> []" "js_trim (modifierLabels m) = modifierLabels m" for m
    using plain_trimmed [of "modifierLabels m"] by (cases m; simp add: plain_def)+
  have "split_on CHR ''+'' (serializeShortcutBinding b) = ?labels @ [[], []]"
    unfolding printed using label(1) by (intro split_on_join) auto
  then have parts: "binding_parts (serializeShortcutBinding b) = ?labels"
    using label by (simp add: binding_parts_def filter_map comp_def)
  have "parse_parts ?labels no_binding = None"
    using parse_parts_labels [of "filter (\<lambda>m. get_modifier m b) modifierOrder" "[]"] by (simp add: no_binding_def)
  then show ?thesis
    by (simp add: parseShortcutBinding_def parts)
qed

lemma shortcut_roundtrip_key:
  "parseShortcutBinding v = Some b \<Longrightarrow>
   parseShortcutBinding (Some (serializeShortcutBinding b)) = (if sb_key b = ''+'' then None else Some b)"
  using parsed_key [of v b] parse_serialize [of b] serialize_plus [of b] by auto

text \<open>
  C24. Printing a parsed shortcut and parsing it again gives the same shortcut, so the normal form
  of a binding is stable, with one exception: a shortcut on the plus key is printed as a text the
  parser does not accept.
\<close>

theorem shortcut_roundtrip:
  assumes "parseShortcutBinding v = Some b"
  shows "parseShortcutBinding (Some (serializeShortcutBinding b)) = (if sb_key b = ''+'' then None else Some b)"
  using shortcut_roundtrip_key [OF assms] .

theorem shortcut_roundtrip_witness:
  "parseShortcutBinding (Some (serializeShortcutBinding
     \<lparr>sb_alt = False, sb_ctrl = True, sb_key = ''ArrowDown'', sb_meta = False, sb_shift = False\<rparr>)) =
   Some \<lparr>sb_alt = False, sb_ctrl = True, sb_key = ''ArrowDown'', sb_meta = False, sb_shift = False\<rparr>"
proof -
  have "parseShortcutBinding (Some '' control+down'') =
      Some \<lparr>sb_alt = False, sb_ctrl = True, sb_key = ''ArrowDown'', sb_meta = False, sb_shift = False\<rparr>"
    by code_simp
  from shortcut_roundtrip [OF this] show ?thesis
    by simp
qed

text \<open>
  A shortcut recorded from a key press fires for that key press, whenever the pressed key can
  be the key of a binding at all.
\<close>

theorem recorded_shortcut_matches:
  assumes "shortcutBindingFromKeyboardEvent event = Some s" and "key_ok (normalizeShortcutKey (ke_key event))"
  shows "keyboardEventMatchesShortcut event (Some s)"
  using assms parse_serialize [of "\<lparr>sb_alt = ke_altKey event, sb_ctrl = ke_ctrlKey event,
        sb_key = normalizeShortcutKey (ke_key event), sb_meta = ke_metaKey event, sb_shift = ke_shiftKey event\<rparr>"]
  by (auto simp: shortcutBindingFromKeyboardEvent_def keyboardEventMatchesShortcut_def split: if_splits)

theorem recorded_shortcut_matches_witness:
  "keyboardEventMatchesShortcut \<lparr>ke_key = ''K'', ke_altKey = False, ke_ctrlKey = True, ke_metaKey = False, ke_shiftKey = True\<rparr>
     (Some ''Ctrl+Shift+K'')"
proof -
  have "shortcutBindingFromKeyboardEvent
      \<lparr>ke_key = ''K'', ke_altKey = False, ke_ctrlKey = True, ke_metaKey = False, ke_shiftKey = True\<rparr> = Some ''Ctrl+Shift+K''"
    by code_simp
  moreover have "key_simple (normalizeShortcutKey ''K'')"
    by code_simp
  ultimately show ?thesis
    using key_simple_ok by (intro recorded_shortcut_matches) auto
qed

text \<open>
  The space bar never triggers a shortcut: its key, a blank, is trimmed away, although
  \<open>Space\<close> is one of the key names a binding may use.
\<close>

theorem space_bar_never_matches:
  "\<not> keyboardEventMatchesShortcut
     \<lparr>ke_key = '' '', ke_altKey = a, ke_ctrlKey = c, ke_metaKey = m, ke_shiftKey = s\<rparr> v"
proof -
  have "normalizeShortcutKey '' '' = []"
    by code_simp
  then show ?thesis
    using parsed_key [of v] by (auto simp: keyboardEventMatchesShortcut_def key_ok_def split: option.splits)
qed

section \<open>Conflicts\<close>

definition assigned :: "string list \<Rightarrow> shortcut_bindings \<Rightarrow> string \<Rightarrow> string list" where
  "assigned actionIds entries n =
     map fst (filter (\<lambda>(i, v). i \<in> set actionIds \<and> normalizeShortcutBinding v = Some n) entries)"

definition ids_of :: "(string \<times> string list) list \<Rightarrow> string \<Rightarrow> string list" where
  "ids_of m n = (case map_of m n of None \<Rightarrow> [] | Some ids \<Rightarrow> ids)"

lemma serialize_nonempty: "parseShortcutBinding v = Some b \<Longrightarrow> serializeShortcutBinding b \<noteq> []"
proof -
  assume "parseShortcutBinding v = Some b"
  then have key: "sb_key b \<noteq> []"
    using parsed_key [of v b] by (auto simp: key_ok_def)
  show ?thesis
  proof (cases "filter (\<lambda>m. get_modifier m b) modifierOrder")
    case (Cons m ms)
    then show ?thesis
      using join_with_append [of "map modifierLabels (m # ms)" "[sb_key b]" "''+''"] key
      by (simp add: serializeShortcutBinding_def)
  qed (use key in \<open>simp add: serializeShortcutBinding_def\<close>)
qed

lemma truthy_normalize [simp]: "truthy (normalizeShortcutBinding v) = normalizeShortcutBinding v"
proof (cases "parseShortcutBinding v")
  case (Some b)
  then have "serializeShortcutBinding b \<noteq> []"
    by (rule serialize_nonempty)
  then show ?thesis
    by (cases "serializeShortcutBinding b") (simp_all add: normalizeShortcutBinding_def Some)
qed (simp add: normalizeShortcutBinding_def)

lemma truthy_normalized: "normalizeShortcutBinding v = Some n \<Longrightarrow> truthy (Some n) = Some n"
  using truthy_normalize [of v] by simp

lemma group_bindings_exact:
  assumes "distinct (map_keys acc)"
  shows "distinct (map_keys (group_bindings actionIds entries acc)) \<and>
    ids_of (group_bindings actionIds entries acc) n = ids_of acc n @ assigned actionIds entries n"
  using assms
proof (induction actionIds entries acc rule: group_bindings.induct)
  case (1 actionIds acc)
  then show ?case
    by (simp add: assigned_def)
next
  case (2 actionIds i v entries acc)
  show ?case
  proof (cases "i \<in> set actionIds \<and> normalizeShortcutBinding v \<noteq> None")
    case True
    then obtain m where m: "normalizeShortcutBinding v = Some m"
      by blast
    have tm: "truthy (Some m) = Some m"
      by (rule truthy_normalized [OF m])
    let ?acc = "map_set m (ids_of acc m @ [i]) acc"
    have "group_bindings actionIds ((i, v) # entries) acc = group_bindings actionIds entries ?acc"
      using True by (simp add: ids_of_def m tm)
    moreover have "distinct (map_keys (group_bindings actionIds entries ?acc)) \<and>
        ids_of (group_bindings actionIds entries ?acc) n = ids_of ?acc n @ assigned actionIds entries n"
      using "2.IH"(3) [of m] True "2.prems" by (simp add: ids_of_def m tm)
    moreover have "ids_of ?acc n = ids_of acc n @ (if n = m then [i] else [])"
      by (simp add: ids_of_def)
    ultimately show ?thesis
      using True m by (simp add: assigned_def)
  next
    case False
    then show ?thesis
      using 2 by (auto simp: assigned_def)
  qed
qed

lemma assigned_iff:
  "i \<in> set (assigned actionIds entries n) \<longleftrightarrow>
   i \<in> set actionIds \<and> (\<exists>w. (i, w) \<in> set entries \<and> normalizeShortcutBinding w = Some n)"
  unfolding assigned_def set_map set_filter by (auto intro: rev_image_eqI)

lemma conflicts_assigned:
  "(\<exists>c \<in> set (findShortcutConflicts bindings actions). a \<in> set (conflict_actionIds c) \<and> b \<in> set (conflict_actionIds c)) \<longleftrightarrow>
   (\<exists>n. 1 < length (assigned (map sa_id actions) bindings n) \<and>
      a \<in> set (assigned (map sa_id actions) bindings n) \<and> b \<in> set (assigned (map sa_id actions) bindings n))"
proof -
  let ?m = "group_bindings (map sa_id actions) bindings []"
  have exact: "distinct (map_keys ?m)" "\<And>n. ids_of ?m n = assigned (map sa_id actions) bindings n"
    using group_bindings_exact [of "[]" "map sa_id actions" bindings] by (simp_all add: ids_of_def)
  have member: "(n, ids) \<in> set ?m \<longleftrightarrow> map_of ?m n = Some ids" for n ids
    using exact(1) by simp
  have "(\<exists>c \<in> set (findShortcutConflicts bindings actions). a \<in> set (conflict_actionIds c) \<and> b \<in> set (conflict_actionIds c)) \<longleftrightarrow>
      (\<exists>n ids. map_of ?m n = Some ids \<and> 1 < length ids \<and> a \<in> set ids \<and> b \<in> set ids)"
    by (force simp: findShortcutConflicts_def member)
  also have "\<dots> \<longleftrightarrow> (\<exists>n. 1 < length (ids_of ?m n) \<and> a \<in> set (ids_of ?m n) \<and> b \<in> set (ids_of ?m n))"
    by (fastforce simp: ids_of_def split: option.splits)
  finally show ?thesis
    by (simp add: exact(2))
qed

text \<open>
  The settings dialog reports a conflict between two actions exactly when both are known and
  their bindings have the same normal form, however differently they are written.
\<close>

theorem shortcut_conflicts_exact:
  assumes "distinct (map fst bindings)" and "(a, va) \<in> set bindings" and "(b, vb) \<in> set bindings" and "a \<noteq> b"
  shows "(\<exists>c \<in> set (findShortcutConflicts bindings actions). a \<in> set (conflict_actionIds c) \<and> b \<in> set (conflict_actionIds c)) \<longleftrightarrow>
    a \<in> sa_id ` set actions \<and> b \<in> sa_id ` set actions \<and>
    normalizeShortcutBinding va \<noteq> None \<and> normalizeShortcutBinding va = normalizeShortcutBinding vb"
proof -
  have member: "i \<in> set (assigned (map sa_id actions) bindings n) \<longleftrightarrow>
      i \<in> sa_id ` set actions \<and> normalizeShortcutBinding v = Some n" if "(i, v) \<in> set bindings" for i v n
    unfolding assigned_iff set_map using that eq_key_imp_eq_value [OF assms(1) that] by metis
  have "1 < length ids" if "a \<in> set ids" "b \<in> set ids" for ids :: "string list"
    using that assms(4) card_mono [of "set ids" "{a, b}"] card_length [of ids] by simp
  then have "(\<exists>c \<in> set (findShortcutConflicts bindings actions). a \<in> set (conflict_actionIds c) \<and> b \<in> set (conflict_actionIds c)) \<longleftrightarrow>
      (\<exists>n. a \<in> set (assigned (map sa_id actions) bindings n) \<and> b \<in> set (assigned (map sa_id actions) bindings n))"
    unfolding conflicts_assigned by blast
  then show ?thesis
    using member [OF assms(2)] member [OF assms(3)] by auto
qed

theorem shortcut_conflicts_exact_witness:
  "\<exists>c \<in> set (findShortcutConflicts [(''settings.open'', Some ''ctrl+k''), (''terminal.newTab'', Some ''Control + K'')] shortcutActions).
     ''settings.open'' \<in> set (conflict_actionIds c) \<and> ''terminal.newTab'' \<in> set (conflict_actionIds c)"
proof -
  have "''settings.open'' \<in> sa_id ` set shortcutActions" "''terminal.newTab'' \<in> sa_id ` set shortcutActions"
    by (simp_all add: shortcutActions_def shortcut_action_def)
  moreover have "normalizeShortcutBinding (Some ''ctrl+k'') = Some ''Ctrl+K''" "normalizeShortcutBinding (Some ''Control + K'') = Some ''Ctrl+K''"
    by code_simp+
  ultimately show ?thesis
    using shortcut_conflicts_exact [of "[(''settings.open'', Some ''ctrl+k''), (''terminal.newTab'', Some ''Control + K'')]"
        "''settings.open''" "Some ''ctrl+k''" "''terminal.newTab''" "Some ''Control + K''" shortcutActions] by simp
qed

section \<open>Stored bindings\<close>

definition defaultShortcutBindings :: "string \<rightharpoonup> string option" where
  "defaultShortcutBindings = map_of (map (\<lambda>action. (sa_id action, sa_defaultBinding action)) shortcutActions)"

lemma default_bindings_valid:
  "list_all (\<lambda>action. case sa_defaultBinding action of None \<Rightarrow> False | Some s \<Rightarrow>
     validateShortcutBinding (Some s) = ShortcutValid \<and> normalizeShortcutBinding (Some s) = Some s) shortcutActions"
  by code_simp

lemma valid_is_normal:
  assumes "normalizeShortcutBinding v = Some n" "validateShortcutBinding (Some n) = ShortcutValid"
  shows "normalizeShortcutBinding (Some n) = Some n"
proof -
  obtain b where b: "parseShortcutBinding v = Some b" "n = serializeShortcutBinding b"
    using assms(1) by (auto simp: normalizeShortcutBinding_def)
  then have "n \<noteq> []"
    using serialize_nonempty [of v b] by simp
  then have "truthy (Some n) = Some n"
    by (cases n) simp_all
  then have "parseShortcutBinding (Some n) \<noteq> None"
    using assms(2) by (cases "parseShortcutBinding (Some n)") (auto simp: validateShortcutBinding_def normalizeShortcutBinding_def)
  then show ?thesis
    using shortcut_roundtrip_key [OF b(1)] b(2) by (auto simp: normalizeShortcutBinding_def)
qed

text \<open>
  Whatever is stored in the settings, the bindings the program works with are valid and in
  normal form; a binding the user has removed stays removed.
\<close>

theorem stored_shortcuts_sound:
  assumes "(i, r) \<in> set (normalizeShortcutBindings stored defaultShortcutBindings)"
  shows "case r of
      None \<Rightarrow> stored i = StoredNull
    | Some s \<Rightarrow> stored i \<noteq> StoredNull \<and> validateShortcutBinding (Some s) = ShortcutValid \<and> normalizeShortcutBinding (Some s) = Some s"
proof -
  obtain action where action: "action \<in> set shortcutActions" "i = sa_id action"
    "r = normalize_stored defaultShortcutBindings action (stored i)"
    using assms by (auto simp: normalizeShortcutBindings_def)
  have "case sa_defaultBinding action of None \<Rightarrow> False | Some s \<Rightarrow>
      validateShortcutBinding (Some s) = ShortcutValid \<and> normalizeShortcutBinding (Some s) = Some s"
    using default_bindings_valid action(1) unfolding list_all_iff by blast
  then obtain d where d: "sa_defaultBinding action = Some d" "validateShortcutBinding (Some d) = ShortcutValid"
      "normalizeShortcutBinding (Some d) = Some d"
    by (cases "sa_defaultBinding action") auto
  have "distinct (map sa_id shortcutActions)"
    by (simp add: shortcutActions_def shortcut_action_def aiSendMessageShortcutActionId_def)
  then have default: "defaultShortcutBindings (sa_id action) = Some (Some d)"
    unfolding defaultShortcutBindings_def using action(1,2) d(1) by (subst map_of_eq_Some_iff) (auto simp: comp_def intro: rev_image_eqI)
  show ?thesis
  proof (cases "stored i")
    case (StoredText t)
    then show ?thesis
      using d valid_is_normal [of "Some t"] truthy_normalized [of "Some t"]
      by (cases "normalizeShortcutBinding (Some t)") (auto simp: action(3) normalize_stored_def default Let_def)
  qed (use d in \<open>simp_all add: action(3) normalize_stored_def default\<close>)
qed

theorem stored_shortcuts_sound_witness:
  "(''settings.open'', Some ''Ctrl+,'') \<in>
     set (normalizeShortcutBindings (\<lambda>i. StoredText ''Ctrl+C'') defaultShortcutBindings) \<and>
   validateShortcutBinding (Some ''Ctrl+,'') = ShortcutValid"
proof -
  have "(''settings.open'', Some ''Ctrl+,'') \<in>
      set (normalizeShortcutBindings (\<lambda>i. StoredText ''Ctrl+C'') defaultShortcutBindings)"
    by code_simp
  from stored_shortcuts_sound [OF this] this show ?thesis
    by simp
qed

section \<open>Which action a key press runs\<close>

lemma find_first:
  "find P xs = Some x \<longleftrightarrow> (\<exists>ys zs. xs = ys @ x # zs \<and> P x \<and> (\<forall>y \<in> set ys. \<not> P y))"
proof
  assume "find P xs = Some x"
  then show "\<exists>ys zs. xs = ys @ x # zs \<and> P x \<and> (\<forall>y \<in> set ys. \<not> P y)"
  proof (induction xs)
    case (Cons y xs)
    show ?case
    proof (cases "P y")
      case True
      with Cons.prems show ?thesis
        by (intro exI [of _ "[]"] exI [of _ xs]) simp
    next
      case False
      then obtain ys zs where "xs = ys @ x # zs" "P x" "\<forall>y \<in> set ys. \<not> P y"
        using Cons by auto
      then show ?thesis
        using False by (intro exI [of _ "y # ys"] exI [of _ zs]) simp
    qed
  qed simp
next
  assume "\<exists>ys zs. xs = ys @ x # zs \<and> P x \<and> (\<forall>y \<in> set ys. \<not> P y)"
  then obtain ys zs where "xs = ys @ x # zs" "P x" "\<forall>y \<in> set ys. \<not> P y"
    by blast
  moreover have "\<forall>y \<in> set ys. \<not> P y \<Longrightarrow> find P (ys @ zs') = find P zs'" for zs'
    by (induction ys) auto
  ultimately show "find P xs = Some x"
    by simp
qed

definition runnable :: "(string \<Rightarrow> bool option) \<Rightarrow> key_target \<Rightarrow> KeyboardEvent \<Rightarrow> ShortcutAction \<times> string option \<Rightarrow> bool" where
  "runnable handlers target event = (\<lambda>(action, binding).
     truthy binding \<noteq> None \<and> keyboardEventMatchesShortcut event binding \<and>
     (kt_inTerminal target \<longrightarrow> sa_allowInTerminal action) \<and>
     (kt_inTerminalSearch target \<longrightarrow> sa_scope action = ScopeTerminal \<or> sa_scope action = ScopeTerminalSearch) \<and>
     handlers (sa_id action) = Some True)"

text \<open>
  A key press outside a text field runs the first action of the table that is bound to it,
  may run where the focus is and has an enabled handler, and no other; a key press in a text field
  that is not a terminal runs none.
\<close>

theorem key_press_runs_first_match:
  "handleKeyDown bindings handlers target event = Some i \<longleftrightarrow>
   \<not> (kt_editable target \<and> \<not> kt_inTerminal target \<and> \<not> kt_inTerminalSearch target) \<and>
   (\<exists>before chosen binding after. resolveGlobalShortcutBindings bindings = before @ (chosen, binding) # after \<and>
      sa_id chosen = i \<and> runnable handlers target event (chosen, binding) \<and>
      (\<forall>other \<in> set before. \<not> runnable handlers target event other))"
proof -
  have run: "(\<lambda>(action, binding). truthy binding \<noteq> None \<and> keyboardEventMatchesShortcut event binding \<and>
      \<not> (kt_inTerminal target \<and> \<not> sa_allowInTerminal action) \<and>
      \<not> (kt_inTerminalSearch target \<and> \<not> canRunInsideTerminalSearch action) \<and> handlers (sa_id action) = Some True) =
      runnable handlers target event"
    by (auto simp: runnable_def canRunInsideTerminalSearch_def fun_eq_iff)
  show ?thesis
  proof (cases "kt_editable target \<and> \<not> kt_inTerminal target \<and> \<not> kt_inTerminalSearch target")
    case False
    then have "handleKeyDown bindings handlers target event = Some i \<longleftrightarrow>
        (\<exists>entry. find (runnable handlers target event) (resolveGlobalShortcutBindings bindings) = Some entry \<and> sa_id (fst entry) = i)"
      unfolding handleKeyDown_def run by auto
    with False show ?thesis
      unfolding find_first by (auto simp: split_paired_Ex)
  qed (simp add: handleKeyDown_def)
qed

theorem key_press_runs_first_match_witness:
  "\<exists>chosen binding. runnable (\<lambda>i. Some True) \<lparr>kt_inTerminal = True, kt_inTerminalSearch = False, kt_editable = True\<rparr>
     \<lparr>ke_key = ''F3'', ke_altKey = False, ke_ctrlKey = False, ke_metaKey = False, ke_shiftKey = False\<rparr> (chosen, binding) \<and>
   sa_id chosen = ''terminal.search.next''"
proof -
  have "handleKeyDown [] (\<lambda>i. Some True) \<lparr>kt_inTerminal = True, kt_inTerminalSearch = False, kt_editable = True\<rparr>
     \<lparr>ke_key = ''F3'', ke_altKey = False, ke_ctrlKey = False, ke_metaKey = False, ke_shiftKey = False\<rparr> =
     Some ''terminal.search.next''"
    by code_simp
  then show ?thesis
    unfolding key_press_runs_first_match by blast
qed

end
