(* ===== verification/Workspace_Actions.thy ===== *)
theory Workspace_Actions
  imports Shortcuts Instances
begin

text \<open>
  The actions of the workspace menu, tool bar and shortcuts: which target an action resolves to
  (\<open>src/features/shortcuts/actionContext.ts\<close>), when it is enabled (\<open>actionRegistry.ts\<close>), how it is
  run (\<open>actionExecutor.ts\<close>), the context it is resolved in (\<open>src/features/layout/workspaceActionContext.ts\<close>),
  the handlers (\<open>workspaceActionHandlers.ts\<close>) and the key listener
  (\<open>useWorkspaceActionShortcuts.ts\<close>).

  An optional boolean is a \<open>bool option\<close>. A handler is an asynchronous function: the model calls
  it when the action starts and lets it settle in a later step; what an operation of the shell
  does is not modelled here, only which operation is called with which argument.
\<close>

section \<open>Contexts and targets\<close>

type_synonym ActionInstanceKind = InstanceKind

record ActionInstanceRef =
  ai_id :: string
  ai_kind :: ActionInstanceKind
  ai_canCreateTerminal :: "bool option"
  ai_canSearch :: "bool option"
  ai_canSplit :: "bool option"
  ai_searchQuery :: "string option"

datatype ActionItemRef =
    ActionHome (aitem_id: string)
  | ActionSingle (aitem_id: string) (aitem_kind: ActionInstanceKind)
  | ActionSplit (aitem_id: string) (aitem_memberIds: "string list")

record ActionPaneRef =
  ap_id :: string
  ap_itemId :: string
  ap_instanceId :: "string option"

record WorkspaceActionContext =
  wc_workspaceVisible :: bool
  wc_activeItemId :: "string option"
  wc_activePaneId :: "string option"
  wc_items :: "ActionItemRef list"
  wc_instances :: "ActionInstanceRef list"
  wc_panes :: "ActionPaneRef list"
  wc_commandSenderTargetCount :: int
  wc_canOpenTunnels :: "bool option"

datatype ActionTargetSelector =
    SelectItem string
  | SelectInstance string
  | SelectPane string string

datatype ActionTargetKind = NeedsNone | NeedsItem | NeedsInstance | NeedsTerminal | NeedsPane | NeedsSplitGroup

datatype ActionTarget =
    OnApplication
  | OnItem string
  | OnSplitGroup string
  | OnInstance string ActionInstanceKind
  | OnPane string string "string option"

datatype ActionDisabledReason =
    WorkspaceInactive | NoActiveSession | TargetMissing | WrongTargetKind | EmptyPane | TerminalRequired
  | TerminalUnavailable | SearchQueryEmpty | UnknownAction | LocalOnly | NoCommandTargets | NoMultiExecTargets
  | ShortcutUnbound | InputFocus | HandlerUnavailable | ActionPending | CapabilityUnavailable | SplitUnavailable
  | TunnelUnavailable

type_synonym ActionTargetResolution = "ActionDisabledReason + ActionTarget"

definition is_terminal_kind :: "ActionInstanceKind \<Rightarrow> bool" where
  "is_terminal_kind k \<longleftrightarrow> k = InstSsh \<or> k = InstLocal"

definition resolveInstance ::
  "WorkspaceActionContext \<Rightarrow> string \<Rightarrow> ActionTargetKind \<Rightarrow> ActionInstanceKind option \<Rightarrow> ActionTargetResolution" where
  "resolveInstance ctx instanceId kind expectedKind =
     (case find (\<lambda>candidate. ai_id candidate = instanceId) (wc_instances ctx) of
        None \<Rightarrow> Inl TargetMissing
      | Some inst \<Rightarrow>
          if (case expectedKind of None \<Rightarrow> False | Some k \<Rightarrow> ai_kind inst \<noteq> k) then Inl TargetMissing
          else if kind = NeedsTerminal \<and> \<not> is_terminal_kind (ai_kind inst) then Inl TerminalRequired
          else Inr (OnInstance instanceId (ai_kind inst)))"

fun selector_itemId :: "ActionTargetSelector \<Rightarrow> string option" where
  "selector_itemId (SelectItem i) = Some i"
| "selector_itemId (SelectPane i p) = Some i"
| "selector_itemId (SelectInstance i) = None"

fun is_pane_selector :: "ActionTargetSelector option \<Rightarrow> bool" where
  "is_pane_selector (Some (SelectPane i p)) = True"
| "is_pane_selector _ = False"

text \<open>The part of \<open>resolveActionTarget\<close> for a pane of a split item.\<close>

definition resolve_pane ::
  "WorkspaceActionContext \<Rightarrow> ActionTargetKind \<Rightarrow> ActionTargetSelector option \<Rightarrow> string \<Rightarrow> string list
    \<Rightarrow> ActionTargetResolution" where
  "resolve_pane ctx kind selector itemId memberIds =
     (let paneId = (case selector of
            Some (SelectPane i p) \<Rightarrow> Some p
          | _ \<Rightarrow> if Some itemId = wc_activeItemId ctx then wc_activePaneId ctx else None)
      in case find (\<lambda>candidate. Some (ap_id candidate) = paneId \<and> ap_itemId candidate = itemId) (wc_panes ctx) of
           None \<Rightarrow> Inl TargetMissing
         | Some pane \<Rightarrow>
             (case ap_instanceId pane of
                None \<Rightarrow> if kind = NeedsPane then Inr (OnPane itemId (ap_id pane) None) else Inl EmptyPane
              | Some i \<Rightarrow>
                  (case find (\<lambda>inst. ai_id inst = i) (wc_instances ctx) of
                     None \<Rightarrow> Inl TargetMissing
                   | Some member \<Rightarrow>
                       if i \<notin> set memberIds then Inl TargetMissing
                       else if \<not> is_terminal_kind (ai_kind member) then Inl WrongTargetKind
                       else if kind = NeedsPane then Inr (OnPane itemId (ap_id pane) (Some i))
                       else resolveInstance ctx i kind None)))"

definition resolve_item ::
  "WorkspaceActionContext \<Rightarrow> ActionTargetKind \<Rightarrow> ActionTargetSelector option \<Rightarrow> ActionItemRef \<Rightarrow> ActionTargetResolution" where
  "resolve_item ctx kind selector item =
     (case item of
        ActionHome i \<Rightarrow> Inl NoActiveSession
      | ActionSingle i k \<Rightarrow>
          if kind = NeedsItem \<or> kind = NeedsSplitGroup then
            (if is_pane_selector selector \<or> kind = NeedsSplitGroup then Inl WrongTargetKind
             else if \<not> list_ex (\<lambda>inst. ai_id inst = i \<and> ai_kind inst = k) (wc_instances ctx) then Inl TargetMissing
             else Inr (OnItem i))
          else if kind = NeedsPane \<or> is_pane_selector selector then Inl WrongTargetKind
          else resolveInstance ctx i kind (Some k)
      | ActionSplit i memberIds \<Rightarrow>
          if kind = NeedsItem \<or> kind = NeedsSplitGroup then
            (if is_pane_selector selector then Inl WrongTargetKind
             else Inr (if kind = NeedsItem then OnItem i else OnSplitGroup i))
          else resolve_pane ctx kind selector i memberIds)"

definition resolveActionTarget ::
  "WorkspaceActionContext \<Rightarrow> ActionTargetKind \<Rightarrow> ActionTargetSelector option \<Rightarrow> ActionTargetResolution" where
  "resolveActionTarget ctx kind selector =
     (if kind = NeedsNone then (if selector \<noteq> None then Inl WrongTargetKind else Inr OnApplication)
      else if \<not> wc_workspaceVisible ctx then Inl WorkspaceInactive
      else case selector of
          Some (SelectInstance i) \<Rightarrow>
            if kind = NeedsInstance \<or> kind = NeedsTerminal then resolveInstance ctx i kind None else Inl WrongTargetKind
        | _ \<Rightarrow>
            (case coalesce (Option.bind selector selector_itemId) (wc_activeItemId ctx) of
               None \<Rightarrow> Inl NoActiveSession
             | Some itemId \<Rightarrow>
                 (case find (\<lambda>candidate. aitem_id candidate = itemId) (wc_items ctx) of
                    None \<Rightarrow> Inl TargetMissing
                  | Some item \<Rightarrow> resolve_item ctx kind selector item)))"

section \<open>Policies\<close>

datatype action_capability =
    CanCreateTerminal | CanSearch | CanSearchResult | CanCommandTargets | CanMultiExec | CanSplit | CanTunnels

record ActionPolicy =
  policy_target :: ActionTargetKind
  policy_capability :: "action_capability option"
  policy_deferred :: "ActionDisabledReason option"

definition action_policy ::
  "ActionTargetKind \<Rightarrow> action_capability option \<Rightarrow> ActionDisabledReason option \<Rightarrow> ActionPolicy" where
  "action_policy t c d = \<lparr>policy_target = t, policy_capability = c, policy_deferred = d\<rparr>"

definition shortcutPolicies :: "(string \<times> ActionPolicy) list" where
  "shortcutPolicies =
     [(''connection.quickOpen'', action_policy NeedsNone None None),
      (''settings.open'', action_policy NeedsNone None None),
      (''terminal.newTab'', action_policy NeedsTerminal (Some CanCreateTerminal) None),
      (''terminal.closeTab'', action_policy NeedsInstance None None),
      (''terminal.search.toggle'', action_policy NeedsTerminal (Some CanSearch) None),
      (''terminal.search.next'', action_policy NeedsTerminal (Some CanSearchResult) None),
      (''terminal.search.previous'', action_policy NeedsTerminal (Some CanSearchResult) None),
      (''ai.sendMessage'', action_policy NeedsNone None (Some LocalOnly)),
      (''commandSender.toggle'', action_policy NeedsNone (Some CanCommandTargets) None)]"

definition entryPolicies :: "(string \<times> ActionPolicy) list" where
  "entryPolicies =
     [(''view.toggleSidebar'', action_policy NeedsNone None None),
      (''view.toggleTools'', action_policy NeedsNone None None),
      (''terminal.splitRight'', action_policy NeedsTerminal (Some CanSplit) None),
      (''terminal.splitDown'', action_policy NeedsTerminal (Some CanSplit) None),
      (''terminal.splitFour'', action_policy NeedsTerminal (Some CanSplit) None),
      (''tools.tunnels'', action_policy NeedsNone (Some CanTunnels) None),
      (''tools.x11'', action_policy NeedsNone None (Some CapabilityUnavailable)),
      (''help.shortcuts'', action_policy NeedsNone None None),
      (''help.about'', action_policy NeedsNone None None),
      (''workspace.closeItem'', action_policy NeedsItem None None),
      (''terminal.closePane'', action_policy NeedsPane None None),
      (''terminal.closeSplitGroup'', action_policy NeedsSplitGroup None None),
      (''terminal.multiExec'', action_policy NeedsNone (Some CanMultiExec) None)]"

definition workspaceActionIds :: "string list" where
  "workspaceActionIds = map sa_id shortcutActions @ map fst entryPolicies"

section \<open>When an action is enabled\<close>

datatype focus_kind = FocusWorkspace | FocusEditable | FocusTerminal | FocusTerminalSearch | FocusMenu

record ActionFocusContext =
  focus_kind :: focus_kind
  focus_composing :: bool

datatype action_source = FromMenu | FromToolbar | FromContextMenu | FromShortcut

record WorkspaceActionRequest =
  req_actionId :: string
  req_target :: "ActionTargetSelector option"
  req_source :: "action_source option"
  req_focus :: "ActionFocusContext option"

record WorkspaceActionState =
  was_actionId :: string
  was_binding :: "string option"
  was_enabled :: bool
  was_target :: "ActionTarget option"
  was_reason :: "ActionDisabledReason option"

definition action_policy_of :: "string \<Rightarrow> ActionPolicy option" where
  "action_policy_of actionId =
     (if getShortcutAction actionId \<noteq> None \<and> map_of shortcutPolicies actionId \<noteq> None then map_of shortcutPolicies actionId
      else map_of entryPolicies actionId)"

definition shortcut_refused ::
  "ShortcutAction option \<Rightarrow> string option \<Rightarrow> ActionFocusContext option \<Rightarrow> ActionDisabledReason option" where
  "shortcut_refused shortcut binding focus =
     (case (shortcut, truthy binding) of
        (Some action, Some b) \<Rightarrow>
          (case focus of
             None \<Rightarrow> Some InputFocus
           | Some f \<Rightarrow>
               if focus_composing f \<or> focus_kind f = FocusEditable \<or> focus_kind f = FocusMenu then Some InputFocus
               else if focus_kind f = FocusTerminal \<and> \<not> sa_allowInTerminal action then Some InputFocus
               else if focus_kind f = FocusTerminalSearch \<and> sa_scope action \<noteq> ScopeTerminal \<and>
                 sa_scope action \<noteq> ScopeTerminalSearch then Some InputFocus
               else None)
      | _ \<Rightarrow> Some ShortcutUnbound)"

definition instance_refused ::
  "action_capability \<Rightarrow> ActionInstanceRef option \<Rightarrow> ActionDisabledReason option" where
  "instance_refused capability inst =
     (case capability of
        CanSplit \<Rightarrow> if Option.bind inst ai_canSplit \<noteq> Some True then Some SplitUnavailable else None
      | CanCreateTerminal \<Rightarrow> if Option.bind inst ai_canCreateTerminal \<noteq> Some True then Some TerminalUnavailable else None
      | CanSearch \<Rightarrow> if Option.bind inst ai_canSearch \<noteq> Some True then Some TerminalUnavailable else None
      | CanSearchResult \<Rightarrow>
          if Option.bind inst ai_canSearch \<noteq> Some True then Some TerminalUnavailable
          else if truthy (map_option js_trim (Option.bind inst ai_searchQuery)) = None then Some SearchQueryEmpty
          else None
      | _ \<Rightarrow> None)"

definition capability_refused ::
  "WorkspaceActionContext \<Rightarrow> action_capability option \<Rightarrow> ActionTarget \<Rightarrow> ActionDisabledReason option" where
  "capability_refused ctx capability target =
     (if capability = Some CanMultiExec \<and> \<not> wc_workspaceVisible ctx then Some WorkspaceInactive
      else if capability = Some CanCommandTargets \<and> \<not> 0 < wc_commandSenderTargetCount ctx then Some NoCommandTargets
      else if capability = Some CanMultiExec \<and> \<not> 0 < wc_commandSenderTargetCount ctx then Some NoMultiExecTargets
      else if capability = Some CanTunnels \<and> wc_canOpenTunnels ctx \<noteq> Some True then Some TunnelUnavailable
      else case (target, capability) of
          (OnInstance instanceId k, Some c) \<Rightarrow>
            instance_refused c (find (\<lambda>inst. ai_id inst = instanceId) (wc_instances ctx))
        | _ \<Rightarrow> None)"

definition resolveWorkspaceAction ::
  "WorkspaceActionRequest \<Rightarrow> WorkspaceActionContext \<Rightarrow> shortcut_bindings \<Rightarrow> WorkspaceActionState" where
  "resolveWorkspaceAction request ctx bindings =
     (let actionId = req_actionId request;
          shortcut = getShortcutAction actionId;
          binding = resolveShortcutBindingById bindings actionId;
          disabled = (\<lambda>reason. \<lparr>was_actionId = actionId, was_binding = binding, was_enabled = False, was_target = None,
            was_reason = Some reason\<rparr>)
      in case action_policy_of actionId of
           None \<Rightarrow> disabled UnknownAction
         | Some policy \<Rightarrow>
             if (case shortcut of None \<Rightarrow> False | Some action \<Rightarrow> sa_dispatch action = DispatchLocal) then disabled LocalOnly
             else (case policy_deferred policy of
                 Some reason \<Rightarrow> disabled reason
               | None \<Rightarrow>
                 (case (if req_source request = Some FromShortcut then shortcut_refused shortcut binding (req_focus request) else None) of
                    Some reason \<Rightarrow> disabled reason
                  | None \<Rightarrow>
                      (case resolveActionTarget ctx (policy_target policy) (req_target request) of
                         Inl reason \<Rightarrow> disabled reason
                       | Inr target \<Rightarrow>
                           (case capability_refused ctx (policy_capability policy) target of
                              Some reason \<Rightarrow> disabled reason
                            | None \<Rightarrow> \<lparr>was_actionId = actionId, was_binding = binding, was_enabled = True,
                                was_target = Some target, was_reason = None\<rparr>)))))"

section \<open>Running an action\<close>

record WorkspaceActionSnapshot =
  snap_context :: WorkspaceActionContext
  snap_bindings :: shortcut_bindings
  snap_handlers :: "string list"

text \<open>
  The executor: the set \<open>pending\<close>, the calls of handlers that have not settled yet, and the
  calls made so far. The last two are not variables of the code: the unsettled calls are its
  suspended invocations of \<open>run\<close>, the calls made are what the handlers see.
\<close>

record action_executor =
  ex_pending :: "string list"
  ex_running :: "string list"
  ex_calls :: "(string \<times> ActionTarget) list"

definition createWorkspaceActionExecutor :: action_executor where
  "createWorkspaceActionExecutor = \<lparr>ex_pending = [], ex_running = [], ex_calls = []\<rparr>"

definition resolveWithSnapshot ::
  "string list \<Rightarrow> WorkspaceActionRequest \<Rightarrow> WorkspaceActionSnapshot \<Rightarrow> WorkspaceActionState" where
  "resolveWithSnapshot pending request snapshot =
     (let state = resolveWorkspaceAction request (snap_context snapshot) (snap_bindings snapshot) in
      if \<not> was_enabled state then state
      else if req_actionId request \<notin> set (snap_handlers snapshot) then
        state\<lparr>was_enabled := False, was_reason := Some HandlerUnavailable\<rparr>
      else if req_actionId request \<in> set pending then state\<lparr>was_enabled := False, was_reason := Some ActionPending\<rparr>
      else state)"

datatype WorkspaceActionResult = ResultDisabled WorkspaceActionState | ResultExecuted | ResultFailed

text \<open>\<open>run\<close> up to the call of the handler: the result when it returns at once.\<close>

definition run_action ::
  "WorkspaceActionRequest \<Rightarrow> WorkspaceActionSnapshot \<Rightarrow> action_executor \<Rightarrow> WorkspaceActionResult option \<times> action_executor" where
  "run_action request snapshot ex =
     (let state = resolveWithSnapshot (ex_pending ex) request snapshot in
      case was_target state of
        Some target \<Rightarrow>
          if was_enabled state \<and> req_actionId request \<in> set (snap_handlers snapshot) then
            (None, ex\<lparr>ex_pending := List.insert (req_actionId request) (ex_pending ex),
               ex_running := req_actionId request # ex_running ex,
               ex_calls := ex_calls ex @ [(req_actionId request, target)]\<rparr>)
          else (Some (ResultDisabled state), ex)
      | None \<Rightarrow> (Some (ResultDisabled state), ex))"

text \<open>The handler of an action settles, with or without an error.\<close>

definition action_settled :: "string \<Rightarrow> bool \<Rightarrow> action_executor \<Rightarrow> WorkspaceActionResult option \<times> action_executor" where
  "action_settled actionId success ex =
     (if actionId \<notin> set (ex_running ex) then (None, ex)
      else (Some (if success then ResultExecuted else ResultFailed),
        ex\<lparr>ex_pending := removeAll actionId (ex_pending ex), ex_running := remove1 actionId (ex_running ex)\<rparr>))"

datatype action_event =
    RunAction WorkspaceActionRequest WorkspaceActionSnapshot
  | ActionSettles string bool

definition executor_step :: "action_executor \<Rightarrow> action_event \<Rightarrow> action_executor" where
  "executor_step ex e = (case e of
      RunAction request snapshot \<Rightarrow> snd (run_action request snapshot ex)
    | ActionSettles actionId success \<Rightarrow> snd (action_settled actionId success ex))"

section \<open>The context of the shell\<close>

datatype action_item_kind = InputHome | InputInstance ActionInstanceKind | InputSplit

record WorkspaceActionItemInput =
  wai_id :: string
  wai_kind :: action_item_kind
  wai_memberIds :: "string list option"

record WorkspaceActionContextInput =
  aci_workspaceVisible :: bool
  aci_activeItemId :: "string option"
  aci_activePaneId :: "string option"
  aci_workspaceItems :: "WorkspaceActionItemInput list"
  aci_terminalTabs :: "string list"
  aci_localTerminalTabs :: "string list"
  aci_rdpSessions :: "string list"
  aci_vncSessions :: "string list"
  aci_splitPanes :: "(string \<times> TerminalPaneBinding option) list"
  aci_terminalSearchByTabId :: "string \<rightharpoonup> string"
  aci_commandSenderTargetCount :: int
  aci_canSplitTerminal :: bool
  aci_canOpenTunnels :: "bool option"

definition terminalInstance :: "WorkspaceActionContextInput \<Rightarrow> ActionInstanceKind \<Rightarrow> string \<Rightarrow> ActionInstanceRef" where
  "terminalInstance inp kind tabId =
     \<lparr>ai_id = instanceItemId kind tabId, ai_kind = kind, ai_canCreateTerminal = Some True, ai_canSearch = Some True,
      ai_canSplit = Some (aci_canSplitTerminal inp), ai_searchQuery = aci_terminalSearchByTabId inp tabId\<rparr>"

definition desktopInstance :: "ActionInstanceKind \<Rightarrow> string \<Rightarrow> ActionInstanceRef" where
  "desktopInstance kind sessionId =
     \<lparr>ai_id = instanceItemId kind sessionId, ai_kind = kind, ai_canCreateTerminal = None, ai_canSearch = None,
      ai_canSplit = None, ai_searchQuery = None\<rparr>"

definition action_item :: "WorkspaceActionItemInput \<Rightarrow> ActionItemRef" where
  "action_item item = (case wai_kind item of
      InputHome \<Rightarrow> ActionHome (wai_id item)
    | InputInstance k \<Rightarrow> ActionSingle (wai_id item) k
    | InputSplit \<Rightarrow> ActionSplit (wai_id item) (case wai_memberIds item of None \<Rightarrow> [] | Some ids \<Rightarrow> ids))"

definition buildWorkspaceActionContext :: "WorkspaceActionContextInput \<Rightarrow> WorkspaceActionContext" where
  "buildWorkspaceActionContext inp =
     \<lparr>wc_workspaceVisible = aci_workspaceVisible inp, wc_activeItemId = aci_activeItemId inp,
      wc_activePaneId = aci_activePaneId inp, wc_items = map action_item (aci_workspaceItems inp),
      wc_instances = map (terminalInstance inp InstSsh) (aci_terminalTabs inp) @
        map (terminalInstance inp InstLocal) (aci_localTerminalTabs inp) @
        map (desktopInstance InstRdp) (aci_rdpSessions inp) @ map (desktopInstance InstVnc) (aci_vncSessions inp),
      wc_panes = map (\<lambda>(i, binding). \<lparr>ap_id = i, ap_itemId = ''split'', ap_instanceId = map_option binding_item_id binding\<rparr>)
        (aci_splitPanes inp),
      wc_commandSenderTargetCount = aci_commandSenderTargetCount inp,
      wc_canOpenTunnels = Some (aci_canOpenTunnels inp = Some True)\<rparr>"

section \<open>The handlers\<close>

datatype application_operation =
    QuickOpen | OpenSettings | ToggleSidebar | ToggleTools | ToggleCommandSender | ToggleMultiExec | OpenTunnels

datatype terminal_operation = NewTerminal | ToggleSearch | SearchNext | SearchPrevious | SplitRight | SplitDown | SplitFour

text \<open>A call of one of the operations of the shell, with the id it is given.\<close>

datatype operation_call =
    CallApplication application_operation
  | CallCloseItem string
  | CallCloseInstance ActionInstanceKind string
  | CallClosePane string string
  | CallCloseSplitGroup string
  | CallTerminal terminal_operation ActionInstanceKind string

fun after_colon :: "string \<Rightarrow> string option" where
  "after_colon [] = None"
| "after_colon (c # s) = (if c = CHR '':'' then Some s else after_colon s)"

definition action_rawInstanceId :: "string \<Rightarrow> string" where
  "action_rawInstanceId instanceId = (case after_colon instanceId of None \<Rightarrow> instanceId | Some raw \<Rightarrow> raw)"

definition application_handler :: "application_operation \<Rightarrow> ActionTarget \<Rightarrow> operation_call option" where
  "application_handler operation target = (if target = OnApplication then Some (CallApplication operation) else None)"

fun item_handler :: "ActionTarget \<Rightarrow> operation_call option" where
  "item_handler (OnItem i) = Some (CallCloseItem i)"
| "item_handler _ = None"

fun pane_handler :: "ActionTarget \<Rightarrow> operation_call option" where
  "pane_handler (OnPane i p inst) = Some (CallClosePane i p)"
| "pane_handler _ = None"

fun split_group_handler :: "ActionTarget \<Rightarrow> operation_call option" where
  "split_group_handler (OnSplitGroup i) = Some (CallCloseSplitGroup i)"
| "split_group_handler _ = None"

fun instance_handler :: "ActionTarget \<Rightarrow> operation_call option" where
  "instance_handler (OnInstance i k) = Some (CallCloseInstance k (action_rawInstanceId i))"
| "instance_handler _ = None"

fun terminal_handler :: "terminal_operation \<Rightarrow> ActionTarget \<Rightarrow> operation_call option" where
  "terminal_handler operation (OnInstance i k) =
     (if is_terminal_kind k then Some (CallTerminal operation k (action_rawInstanceId i)) else None)"
| "terminal_handler operation _ = None"

definition createWorkspaceActionHandlers :: "(string \<times> (ActionTarget \<Rightarrow> operation_call option)) list" where
  "createWorkspaceActionHandlers =
     [(''connection.quickOpen'', application_handler QuickOpen),
      (''settings.open'', application_handler OpenSettings),
      (''view.toggleSidebar'', application_handler ToggleSidebar),
      (''view.toggleTools'', application_handler ToggleTools),
      (''commandSender.toggle'', application_handler ToggleCommandSender),
      (''terminal.multiExec'', application_handler ToggleMultiExec),
      (''tools.tunnels'', application_handler OpenTunnels),
      (''workspace.closeItem'', item_handler),
      (''terminal.closeTab'', instance_handler),
      (''terminal.closePane'', pane_handler),
      (''terminal.closeSplitGroup'', split_group_handler),
      (''terminal.newTab'', terminal_handler NewTerminal),
      (''terminal.search.toggle'', terminal_handler ToggleSearch),
      (''terminal.search.next'', terminal_handler SearchNext),
      (''terminal.search.previous'', terminal_handler SearchPrevious),
      (''terminal.splitRight'', terminal_handler SplitRight),
      (''terminal.splitDown'', terminal_handler SplitDown),
      (''terminal.splitFour'', terminal_handler SplitFour)]"

section \<open>The key listener\<close>

record key_focus =
  kf_inTerminalSearch :: bool
  kf_inTerminal :: bool
  kf_inMenu :: bool
  kf_editable :: bool

definition focusKind :: "key_focus \<Rightarrow> focus_kind" where
  "focusKind target =
     (if kf_inTerminalSearch target then FocusTerminalSearch
      else if kf_inTerminal target then FocusTerminal
      else if kf_inMenu target then FocusMenu
      else if kf_editable target then FocusEditable
      else FocusWorkspace)"

definition actionFocusContextForKeyboardEvent :: "key_focus \<Rightarrow> bool \<Rightarrow> ActionFocusContext" where
  "actionFocusContextForKeyboardEvent target isComposing = \<lparr>focus_kind = focusKind target, focus_composing = isComposing\<rparr>"

definition shortcut_request :: "ActionFocusContext \<Rightarrow> ShortcutAction \<Rightarrow> WorkspaceActionRequest" where
  "shortcut_request focus action =
     \<lparr>req_actionId = sa_id action, req_target = None, req_source = Some FromShortcut, req_focus = Some focus\<rparr>"

text \<open>The request a key press runs; the snapshot is the one \<open>resolve\<close> reads.\<close>

definition shortcutKeyDown ::
  "shortcut_bindings \<Rightarrow> WorkspaceActionSnapshot \<Rightarrow> action_executor \<Rightarrow> key_focus \<Rightarrow> bool \<Rightarrow> KeyboardEvent
    \<Rightarrow> WorkspaceActionRequest option" where
  "shortcutKeyDown bindings snapshot ex target isComposing event =
     (let focus = actionFocusContextForKeyboardEvent target isComposing in
      map_option (\<lambda>(action, binding). shortcut_request focus action)
        (find (\<lambda>(action, binding). truthy binding \<noteq> None \<and> keyboardEventMatchesShortcut event binding \<and>
            was_enabled (resolveWithSnapshot (ex_pending ex) (shortcut_request focus action) snapshot))
          (resolveGlobalShortcutBindings bindings)))"

section \<open>What a resolved target is\<close>

definition has_instance :: "WorkspaceActionContext \<Rightarrow> string \<Rightarrow> ActionInstanceKind \<Rightarrow> bool" where
  "has_instance ctx i k \<longleftrightarrow> (\<exists>inst \<in> set (wc_instances ctx). ai_id inst = i \<and> ai_kind inst = k)"

definition shows_pane :: "WorkspaceActionContext \<Rightarrow> string \<Rightarrow> string \<Rightarrow> string option \<Rightarrow> bool" where
  "shows_pane ctx i p inst \<longleftrightarrow>
     (\<exists>pane \<in> set (wc_panes ctx). ap_id pane = p \<and> ap_itemId pane = i \<and> ap_instanceId pane = inst)"

text \<open>The target exists in the context.\<close>

fun target_live :: "WorkspaceActionContext \<Rightarrow> ActionTarget \<Rightarrow> bool" where
  "target_live ctx OnApplication \<longleftrightarrow> True"
| "target_live ctx (OnItem i) \<longleftrightarrow>
     (\<exists>k. ActionSingle i k \<in> set (wc_items ctx) \<and> has_instance ctx i k) \<or> (\<exists>ms. ActionSplit i ms \<in> set (wc_items ctx))"
| "target_live ctx (OnSplitGroup i) \<longleftrightarrow> (\<exists>ms. ActionSplit i ms \<in> set (wc_items ctx))"
| "target_live ctx (OnInstance i k) \<longleftrightarrow> has_instance ctx i k"
| "target_live ctx (OnPane i p inst) \<longleftrightarrow>
     shows_pane ctx i p inst \<and>
     (\<exists>ms. ActionSplit i ms \<in> set (wc_items ctx) \<and>
       (case inst of None \<Rightarrow> True | Some j \<Rightarrow> j \<in> set ms \<and> (\<exists>k. is_terminal_kind k \<and> has_instance ctx j k)))"

text \<open>The target is of the kind the action needs.\<close>

fun target_fits :: "ActionTargetKind \<Rightarrow> ActionTarget \<Rightarrow> bool" where
  "target_fits NeedsNone t \<longleftrightarrow> t = OnApplication"
| "target_fits NeedsItem t \<longleftrightarrow> (\<exists>i. t = OnItem i)"
| "target_fits NeedsSplitGroup t \<longleftrightarrow> (\<exists>i. t = OnSplitGroup i)"
| "target_fits NeedsInstance t \<longleftrightarrow> (\<exists>i k. t = OnInstance i k)"
| "target_fits NeedsTerminal t \<longleftrightarrow> (\<exists>i k. t = OnInstance i k \<and> is_terminal_kind k)"
| "target_fits NeedsPane t \<longleftrightarrow> (\<exists>i p inst. t = OnPane i p inst)"

text \<open>The target belongs to an item, seen through a pane when the item is the split.\<close>

definition within_item :: "WorkspaceActionContext \<Rightarrow> string \<Rightarrow> string option \<Rightarrow> ActionTarget \<Rightarrow> bool" where
  "within_item ctx i pane t \<longleftrightarrow>
     t = OnItem i \<or> t = OnSplitGroup i \<or> (\<exists>k. t = OnInstance i k) \<or>
     (\<exists>p inst. pane = Some p \<and> shows_pane ctx i p inst \<and>
       (t = OnPane i p inst \<or> (\<exists>j k. inst = Some j \<and> t = OnInstance j k)))"

text \<open>The target is the one the request names: what its selector says, else what is active.\<close>

fun target_named :: "WorkspaceActionContext \<Rightarrow> ActionTargetSelector option \<Rightarrow> ActionTarget \<Rightarrow> bool" where
  "target_named ctx (Some (SelectInstance i)) t \<longleftrightarrow> (\<exists>k. t = OnInstance i k)"
| "target_named ctx (Some (SelectPane i p)) t \<longleftrightarrow>
     (\<exists>inst. shows_pane ctx i p inst \<and> (t = OnPane i p inst \<or> (\<exists>j k. inst = Some j \<and> t = OnInstance j k)))"
| "target_named ctx (Some (SelectItem i)) t \<longleftrightarrow>
     within_item ctx i (if wc_activeItemId ctx = Some i then wc_activePaneId ctx else None) t"
| "target_named ctx None t \<longleftrightarrow>
     t = OnApplication \<or> (\<exists>i. wc_activeItemId ctx = Some i \<and> within_item ctx i (wc_activePaneId ctx) t)"

definition resolution_ok ::
  "WorkspaceActionContext \<Rightarrow> ActionTargetKind \<Rightarrow> ActionTargetSelector option \<Rightarrow> ActionTargetResolution \<Rightarrow> bool" where
  "resolution_ok ctx kind selector r \<longleftrightarrow>
     (\<forall>t. r = Inr t \<longrightarrow> target_live ctx t \<and> target_fits kind t \<and> target_named ctx selector t)"

lemma resolveInstance_Inr:
  assumes "resolveInstance ctx i kind expected = Inr t"
  shows "\<exists>k. t = OnInstance i k \<and> has_instance ctx i k \<and> (kind = NeedsTerminal \<longrightarrow> is_terminal_kind k)"
proof -
  obtain inst where found: "find (\<lambda>candidate. ai_id candidate = i) (wc_instances ctx) = Some inst"
    using assms by (auto simp: resolveInstance_def split: option.splits)
  then have "t = OnInstance i (ai_kind inst)" "kind = NeedsTerminal \<longrightarrow> is_terminal_kind (ai_kind inst)"
    using assms by (auto simp: resolveInstance_def split: if_splits)
  moreover have "has_instance ctx i (ai_kind inst)"
    using find_SomeD [OF found] by (auto simp: has_instance_def)
  ultimately show ?thesis
    by blast
qed

lemma resolveInstance_fits:
  assumes "resolveInstance ctx i kind expected = Inr t" "kind = NeedsInstance \<or> kind = NeedsTerminal"
  shows "target_live ctx t" "target_fits kind t" "\<exists>k. t = OnInstance i k"
  using resolveInstance_Inr [OF assms(1)] assms(2) by auto

text \<open>The pane the code looks at for a selector and an item.\<close>

definition selected_pane :: "WorkspaceActionContext \<Rightarrow> ActionTargetSelector option \<Rightarrow> string \<Rightarrow> string option" where
  "selected_pane ctx selector i = (case selector of
      Some (SelectPane j p) \<Rightarrow> Some p
    | _ \<Rightarrow> if wc_activeItemId ctx = Some i then wc_activePaneId ctx else None)"

lemma resolve_pane_ok:
  assumes r: "resolve_pane ctx kind selector i ms = Inr t" and item: "ActionSplit i ms \<in> set (wc_items ctx)"
    and kind: "kind = NeedsInstance \<or> kind = NeedsTerminal \<or> kind = NeedsPane"
  obtains p inst where "selected_pane ctx selector i = Some p" "shows_pane ctx i p inst" "target_live ctx t" "target_fits kind t"
    "t = OnPane i p inst \<or> (\<exists>j k. inst = Some j \<and> t = OnInstance j k)"
proof -
  let ?test = "\<lambda>candidate. Some (ap_id candidate) = selected_pane ctx selector i \<and> ap_itemId candidate = i"
  have eq: "(case selector of Some (SelectPane j p) \<Rightarrow> Some p
      | _ \<Rightarrow> if Some i = wc_activeItemId ctx then wc_activePaneId ctx else None) = selected_pane ctx selector i"
    by (auto simp: selected_pane_def split: option.splits ActionTargetSelector.splits)
  obtain pane where found: "find ?test (wc_panes ctx) = Some pane"
    using r unfolding resolve_pane_def eq Let_def by (auto split: option.splits)
  then have pane: "pane \<in> set (wc_panes ctx)" "selected_pane ctx selector i = Some (ap_id pane)" "ap_itemId pane = i"
    using find_SomeD [OF found] by auto
  then have shown: "shows_pane ctx i (ap_id pane) (ap_instanceId pane)"
    unfolding shows_pane_def by blast
  show thesis
  proof (cases "ap_instanceId pane")
    case None
    then have "kind = NeedsPane" "t = OnPane i (ap_id pane) None"
      using r found unfolding resolve_pane_def eq Let_def by (auto split: if_splits)
    then show thesis
      using that [OF pane(2) shown] None shown item by auto
  next
    case (Some j)
    then obtain member where member: "find (\<lambda>inst. ai_id inst = j) (wc_instances ctx) = Some member" "j \<in> set ms"
        "is_terminal_kind (ai_kind member)"
        "(if kind = NeedsPane then Inr (OnPane i (ap_id pane) (Some j)) else resolveInstance ctx j kind None) = Inr t"
      using r found unfolding resolve_pane_def eq Let_def by (auto split: option.splits if_splits)
    then have live: "has_instance ctx j (ai_kind member)"
      using find_SomeD [OF member(1)] by (auto simp: has_instance_def)
    show thesis
    proof (cases "kind = NeedsPane")
      case True
      then have "t = OnPane i (ap_id pane) (Some j)"
        using member(4) by simp
      moreover have "target_live ctx (OnPane i (ap_id pane) (Some j))"
        using shown Some item member(2,3) live by auto
      ultimately show thesis
        using that [OF pane(2) shown] True Some by simp
    next
      case False
      then show thesis
        using that [OF pane(2) shown] Some resolveInstance_fits [of ctx j kind None t] kind member(4) by auto
    qed
  qed
qed

lemma resolve_item_ok:
  assumes r: "resolve_item ctx kind selector item = Inr t" and item: "item \<in> set (wc_items ctx)" and kind: "kind \<noteq> NeedsNone"
  shows "target_live ctx t \<and> target_fits kind t \<and>
    (if is_pane_selector selector
     then \<exists>p inst. selected_pane ctx selector (aitem_id item) = Some p \<and> shows_pane ctx (aitem_id item) p inst \<and>
       (t = OnPane (aitem_id item) p inst \<or> (\<exists>j k. inst = Some j \<and> t = OnInstance j k))
     else within_item ctx (aitem_id item) (selected_pane ctx selector (aitem_id item)) t)"
proof (cases item)
  case (ActionHome i)
  then show ?thesis
    using r by (simp add: resolve_item_def)
next
  case (ActionSingle i k)
  show ?thesis
  proof (cases "kind = NeedsItem")
    case True
    then have "\<not> is_pane_selector selector" "t = OnItem i" "has_instance ctx i k"
      using r ActionSingle by (auto simp: resolve_item_def has_instance_def list_ex_iff split: if_splits)
    then show ?thesis
      using True item ActionSingle by (auto simp: within_item_def)
  next
    case False
    then have *: "\<not> is_pane_selector selector" "resolveInstance ctx i kind (Some k) = Inr t"
        "kind = NeedsInstance \<or> kind = NeedsTerminal"
      using r kind ActionSingle by (cases kind; auto simp: resolve_item_def split: if_splits)+
    then show ?thesis
      using resolveInstance_fits [OF *(2,3)] ActionSingle by (auto simp: within_item_def)
  qed
next
  case (ActionSplit i ms)
  show ?thesis
  proof (cases "kind = NeedsItem \<or> kind = NeedsSplitGroup")
    case True
    then have "\<not> is_pane_selector selector" "t = (if kind = NeedsItem then OnItem i else OnSplitGroup i)"
      using r ActionSplit by (auto simp: resolve_item_def split: if_splits)
    then show ?thesis
      using True item ActionSplit by (auto simp: within_item_def)
  next
    case False
    then have "resolve_pane ctx kind selector i ms = Inr t" "kind = NeedsInstance \<or> kind = NeedsTerminal \<or> kind = NeedsPane"
      using r kind ActionSplit by (cases kind; simp add: resolve_item_def)+
    from resolve_pane_ok [OF this(1) _ this(2)] show ?thesis
      using item ActionSplit unfolding within_item_def by (metis ActionItemRef.sel(3))
  qed
qed

lemma resolveActionTarget_ok: "resolution_ok ctx kind selector (resolveActionTarget ctx kind selector)"
  unfolding resolution_ok_def
proof (intro allI impI)
  fix t assume r: "resolveActionTarget ctx kind selector = Inr t"
  show "target_live ctx t \<and> target_fits kind t \<and> target_named ctx selector t"
  proof (cases "kind = NeedsNone")
    case True
    then show ?thesis
      using r by (auto simp: resolveActionTarget_def split: if_splits)
  next
    case False
    consider (inst) i where "selector = Some (SelectInstance i)"
      | (other) "\<And>i. selector \<noteq> Some (SelectInstance i)"
      by blast
    then show ?thesis
    proof cases
      case inst
      then show ?thesis
        using r False resolveInstance_fits [of ctx i kind None t]
        by (auto simp: resolveActionTarget_def split: if_splits)
    next
      case other
      then obtain i item where i: "coalesce (Option.bind selector selector_itemId) (wc_activeItemId ctx) = Some i"
          and item: "find (\<lambda>candidate. aitem_id candidate = i) (wc_items ctx) = Some item" "resolve_item ctx kind selector item = Inr t"
        using r False
        by (auto simp: resolveActionTarget_def split: if_splits option.splits ActionTargetSelector.splits)
      have it: "item \<in> set (wc_items ctx)" "aitem_id item = i"
        using find_SomeD [OF item(1)] by auto
      note ok = resolve_item_ok [OF item(2) it(1) False]
      show ?thesis
      proof (cases selector)
        case None
        then show ?thesis
          using ok i it by (auto simp: selected_pane_def)
      next
        case (Some sel)
        then show ?thesis
          using ok i it other by (cases sel) (auto simp: selected_pane_def)
      qed
    qed
  qed
qed

section \<open>What an enabled action does\<close>

lemma enabled_action:
  assumes "was_enabled (resolveWorkspaceAction request ctx bindings)"
  shows "\<exists>policy t. action_policy_of (req_actionId request) = Some policy \<and>
    was_target (resolveWorkspaceAction request ctx bindings) = Some t \<and>
    resolveActionTarget ctx (policy_target policy) (req_target request) = Inr t \<and>
    (req_source request = Some FromShortcut \<longrightarrow> shortcut_refused (getShortcutAction (req_actionId request))
       (resolveShortcutBindingById bindings (req_actionId request)) (req_focus request) = None)"
proof -
  let ?id = "req_actionId request"
  obtain policy where policy: "action_policy_of ?id = Some policy"
    using assms by (auto simp: resolveWorkspaceAction_def Let_def split: option.splits)
  have deferred: "policy_deferred policy = None"
    using assms policy by (auto simp: resolveWorkspaceAction_def Let_def split: option.splits if_splits)
  let ?refused = "if req_source request = Some FromShortcut then shortcut_refused (getShortcutAction ?id)
      (resolveShortcutBindingById bindings ?id) (req_focus request) else None"
  have shortcut: "?refused = None"
    using assms policy deferred by (cases ?refused) (simp_all add: resolveWorkspaceAction_def Let_def split: if_splits option.splits)
  obtain t where t: "resolveActionTarget ctx (policy_target policy) (req_target request) = Inr t"
    using assms policy deferred shortcut
    by (cases "resolveActionTarget ctx (policy_target policy) (req_target request)")
      (simp_all add: resolveWorkspaceAction_def Let_def split: if_splits option.splits)
  have "was_target (resolveWorkspaceAction request ctx bindings) = Some t"
    using assms policy deferred shortcut t
    by (cases "capability_refused ctx (policy_capability policy) t")
      (simp_all add: resolveWorkspaceAction_def Let_def split: if_splits option.splits)
  then show ?thesis
    using policy t shortcut by (cases "req_source request = Some FromShortcut") auto
qed

text \<open>
  An enabled action has a target, and the target exists, is of the kind the action needs and
  is the one the request names: an explicit selector never falls back to another session, and a
  request without one acts on the active item.
\<close>

theorem enabled_action_target:
  assumes "was_enabled (resolveWorkspaceAction request ctx bindings)"
  shows "\<exists>policy t. action_policy_of (req_actionId request) = Some policy \<and>
    was_target (resolveWorkspaceAction request ctx bindings) = Some t \<and>
    target_live ctx t \<and> target_fits (policy_target policy) t \<and> target_named ctx (req_target request) t"
proof -
  obtain policy t where "action_policy_of (req_actionId request) = Some policy"
      "was_target (resolveWorkspaceAction request ctx bindings) = Some t"
      "resolveActionTarget ctx (policy_target policy) (req_target request) = Inr t"
    using enabled_action [OF assms] by metis
  moreover from this(3) have "target_live ctx t" "target_fits (policy_target policy) t" "target_named ctx (req_target request) t"
    using resolveActionTarget_ok [of ctx "policy_target policy" "req_target request"] by (auto simp: resolution_ok_def)
  ultimately show ?thesis
    by blast
qed

text \<open>A call acts on the target it was made for.\<close>

fun call_on :: "ActionTarget \<Rightarrow> operation_call \<Rightarrow> bool" where
  "call_on OnApplication (CallApplication op) \<longleftrightarrow> True"
| "call_on (OnItem i) (CallCloseItem j) \<longleftrightarrow> i = j"
| "call_on (OnSplitGroup i) (CallCloseSplitGroup j) \<longleftrightarrow> i = j"
| "call_on (OnInstance i k) (CallCloseInstance l raw) \<longleftrightarrow> l = k \<and> raw = action_rawInstanceId i"
| "call_on (OnInstance i k) (CallTerminal op l raw) \<longleftrightarrow> l = k \<and> raw = action_rawInstanceId i \<and> is_terminal_kind k"
| "call_on (OnPane i p inst) (CallClosePane j q) \<longleftrightarrow> i = j \<and> p = q"
| "call_on _ _ \<longleftrightarrow> False"

definition serves :: "ActionTargetKind \<Rightarrow> (ActionTarget \<Rightarrow> operation_call option) \<Rightarrow> bool" where
  "serves kind handler \<longleftrightarrow> (\<forall>t. target_fits kind t \<longrightarrow> (\<exists>call. handler t = Some call \<and> call_on t call))"

lemma handlers_serve [simp]:
  "serves NeedsNone (application_handler op)" "serves NeedsItem item_handler" "serves NeedsPane pane_handler"
  "serves NeedsSplitGroup split_group_handler" "serves NeedsInstance instance_handler"
  "serves NeedsTerminal (terminal_handler operation)"
  by (auto simp: serves_def application_handler_def)

definition handled_kinds :: "ActionTargetKind list" where
  "handled_kinds =
     [NeedsNone, NeedsNone, NeedsNone, NeedsNone, NeedsNone, NeedsNone, NeedsNone, NeedsItem, NeedsInstance, NeedsPane,
      NeedsSplitGroup, NeedsTerminal, NeedsTerminal, NeedsTerminal, NeedsTerminal, NeedsTerminal, NeedsTerminal, NeedsTerminal]"

lemma handled_policies:
  "map (\<lambda>i. map_option policy_target (action_policy_of i)) (map fst createWorkspaceActionHandlers) = map Some handled_kinds"
  by code_simp

lemma handlers_served: "list_all2 serves handled_kinds (map snd createWorkspaceActionHandlers)"
  by (simp add: handled_kinds_def createWorkspaceActionHandlers_def)

lemma handler_serves:
  assumes "map_of createWorkspaceActionHandlers i = Some h" "action_policy_of i = Some policy"
  shows "serves (policy_target policy) h"
proof -
  obtain n where n: "n < length createWorkspaceActionHandlers" "createWorkspaceActionHandlers ! n = (i, h)"
    using map_of_SomeD [OF assms(1)] by (auto simp: in_set_conv_nth)
  have "length handled_kinds = length createWorkspaceActionHandlers"
    using handlers_served by (auto dest: list_all2_lengthD)
  then have "handled_kinds ! n = policy_target policy"
    using n assms(2) arg_cong [OF handled_policies, of "\<lambda>xs. xs ! n"] by simp
  moreover have "serves (handled_kinds ! n) (map snd createWorkspaceActionHandlers ! n)"
    using list_all2_nthD2 [OF handlers_served] n(1) by simp
  ultimately show ?thesis
    using n by simp
qed

text \<open>The sessions of the shell a call may name.\<close>

fun sessions_of :: "WorkspaceActionContextInput \<Rightarrow> ActionInstanceKind \<Rightarrow> string list" where
  "sessions_of inp InstSsh = aci_terminalTabs inp"
| "sessions_of inp InstLocal = aci_localTerminalTabs inp"
| "sessions_of inp InstRdp = aci_rdpSessions inp"
| "sessions_of inp InstVnc = aci_vncSessions inp"

fun call_live :: "WorkspaceActionContextInput \<Rightarrow> operation_call \<Rightarrow> bool" where
  "call_live inp (CallApplication op) \<longleftrightarrow> True"
| "call_live inp (CallCloseItem i) \<longleftrightarrow> (\<exists>item \<in> set (aci_workspaceItems inp). wai_id item = i \<and> wai_kind item \<noteq> InputHome)"
| "call_live inp (CallCloseInstance k raw) \<longleftrightarrow> raw \<in> set (sessions_of inp k)"
| "call_live inp (CallClosePane i p) \<longleftrightarrow> i = ''split'' \<and> p \<in> fst ` set (aci_splitPanes inp)"
| "call_live inp (CallCloseSplitGroup i) \<longleftrightarrow> (\<exists>item \<in> set (aci_workspaceItems inp). wai_id item = i \<and> wai_kind item = InputSplit)"
| "call_live inp (CallTerminal op k raw) \<longleftrightarrow> is_terminal_kind k \<and> raw \<in> set (sessions_of inp k)"

lemma action_rawInstanceId_instanceItemId [simp]: "action_rawInstanceId (instanceItemId k raw) = raw"
  by (cases k) (simp_all add: action_rawInstanceId_def instanceItemId_def)

lemma has_instance_built: "has_instance (buildWorkspaceActionContext inp) i k \<longleftrightarrow> (\<exists>raw \<in> set (sessions_of inp k). i = instanceItemId k raw)"
  by (cases k) (simp_all add: has_instance_def buildWorkspaceActionContext_def terminalInstance_def desktopInstance_def
    bex_Un, auto)

lemma item_built:
  "ActionSingle i k \<in> set (wc_items (buildWorkspaceActionContext inp)) \<Longrightarrow>
     \<exists>item \<in> set (aci_workspaceItems inp). wai_id item = i \<and> wai_kind item = InputInstance k"
  "ActionSplit i ms \<in> set (wc_items (buildWorkspaceActionContext inp)) \<Longrightarrow>
     \<exists>item \<in> set (aci_workspaceItems inp). wai_id item = i \<and> wai_kind item = InputSplit"
  by (auto simp: buildWorkspaceActionContext_def action_item_def split: action_item_kind.splits)

lemma pane_built: "shows_pane (buildWorkspaceActionContext inp) i p inst \<Longrightarrow> i = ''split'' \<and> p \<in> fst ` set (aci_splitPanes inp)"
  by (force simp: shows_pane_def buildWorkspaceActionContext_def)

lemma live_call:
  assumes "target_live (buildWorkspaceActionContext inp) t" "call_on t call"
  shows "call_live inp call"
  using assms
proof (induction t call rule: call_on.induct)
  case (2 i j)
  then show ?case
    using item_built by fastforce
next
  case (3 i j)
  then show ?case
    using item_built(2) by fastforce
next
  case (6 i p inst j q)
  then show ?case
    using pane_built by (auto split: option.splits)
qed (auto simp: has_instance_built)

text \<open>
  C25. Resolving, enabling and handling agree: an action that the executor enables for the current
  sessions always calls its operation, and what the call names is an open session, item or pane.
\<close>

theorem enabled_action_reaches_live_session:
  assumes "was_enabled (resolveWithSnapshot pending request
      \<lparr>snap_context = buildWorkspaceActionContext inp, snap_bindings = bindings,
       snap_handlers = map fst createWorkspaceActionHandlers\<rparr>)"
  shows "\<exists>t handler call. map_of createWorkspaceActionHandlers (req_actionId request) = Some handler \<and>
    was_target (resolveWorkspaceAction request (buildWorkspaceActionContext inp) bindings) = Some t \<and>
    handler t = Some call \<and> call_on t call \<and> call_live inp call"
proof -
  have enabled: "was_enabled (resolveWorkspaceAction request (buildWorkspaceActionContext inp) bindings)"
      and handled: "req_actionId request \<in> fst ` set createWorkspaceActionHandlers"
    using assms by (auto simp: resolveWithSnapshot_def Let_def split: if_splits)
  obtain policy t where t: "action_policy_of (req_actionId request) = Some policy"
      "was_target (resolveWorkspaceAction request (buildWorkspaceActionContext inp) bindings) = Some t"
      "resolveActionTarget (buildWorkspaceActionContext inp) (policy_target policy) (req_target request) = Inr t"
    using enabled_action [OF enabled] by metis
  then have ok: "target_live (buildWorkspaceActionContext inp) t" "target_fits (policy_target policy) t"
    using resolveActionTarget_ok [of "buildWorkspaceActionContext inp" "policy_target policy" "req_target request"]
    by (auto simp: resolution_ok_def)
  obtain h where h: "map_of createWorkspaceActionHandlers (req_actionId request) = Some h"
    using handled by (metis map_of_eq_None_iff not_Some_eq)
  obtain call where "h t = Some call" "call_on t call"
    using handler_serves [OF h t(1)] ok(2) by (auto simp: serves_def)
  then show ?thesis
    using h t(2) live_call [OF ok(1)] by blast
qed

section \<open>One run at a time\<close>

definition executor_ok :: "action_executor \<Rightarrow> bool" where
  "executor_ok ex \<longleftrightarrow> distinct (ex_running ex) \<and> distinct (ex_pending ex) \<and> set (ex_pending ex) = set (ex_running ex)"

lemma run_action_started:
  assumes "run_action request snapshot ex = (None, ex')"
  shows "req_actionId request \<notin> set (ex_pending ex) \<and>
    (\<exists>t. was_target (resolveWorkspaceAction request (snap_context snapshot) (snap_bindings snapshot)) = Some t \<and>
      was_enabled (resolveWorkspaceAction request (snap_context snapshot) (snap_bindings snapshot)) \<and>
      ex' = ex\<lparr>ex_pending := List.insert (req_actionId request) (ex_pending ex), ex_running := req_actionId request # ex_running ex,
        ex_calls := ex_calls ex @ [(req_actionId request, t)]\<rparr>)"
  using assms by (auto simp: run_action_def resolveWithSnapshot_def Let_def split: option.splits if_splits)

lemma run_action_refused:
  assumes "run_action request snapshot ex = (Some r, ex')"
  shows "ex' = ex \<and> r = ResultDisabled (resolveWithSnapshot (ex_pending ex) request snapshot)"
  using assms by (auto simp: run_action_def Let_def split: option.splits if_splits)

lemma run_action_enabled:
  assumes "was_enabled (resolveWithSnapshot (ex_pending ex) request snapshot)"
  shows "\<exists>ex'. run_action request snapshot ex = (None, ex')"
proof -
  have "was_enabled (resolveWorkspaceAction request (snap_context snapshot) (snap_bindings snapshot))"
    using assms by (auto simp: resolveWithSnapshot_def Let_def split: if_splits)
  from enabled_action [OF this] show ?thesis
    using assms by (auto simp: run_action_def resolveWithSnapshot_def Let_def split: if_splits)
qed

lemma executor_step_ok: "executor_ok ex \<Longrightarrow> executor_ok (executor_step ex e)"
proof (cases e)
  case (RunAction request snapshot)
  assume ok: "executor_ok ex"
  obtain r ex' where run: "run_action request snapshot ex = (r, ex')"
    by (cases "run_action request snapshot ex")
  have step: "executor_step ex e = ex'"
    using run RunAction by (simp add: executor_step_def)
  show ?thesis
  proof (cases r)
    case None
    then obtain t where "req_actionId request \<notin> set (ex_pending ex)"
        "ex' = ex\<lparr>ex_pending := List.insert (req_actionId request) (ex_pending ex), ex_running := req_actionId request # ex_running ex,
          ex_calls := ex_calls ex @ [(req_actionId request, t)]\<rparr>"
      using run_action_started [of request snapshot ex ex'] run by blast
    with ok show ?thesis
      by (simp add: step executor_ok_def)
  next
    case (Some d)
    then show ?thesis
      using ok step run run_action_refused [of request snapshot ex d ex'] by simp
  qed
next
  case (ActionSettles i b)
  assume "executor_ok ex"
  then show ?thesis
    using ActionSettles by (auto simp: executor_step_def action_settled_def executor_ok_def distinct_removeAll)
qed

interpretation action_executor: reducer executor_step executor_ok
  by unfold_locales (rule executor_step_ok)

text \<open>
  C26. Whatever is requested and however the handlers settle, no action is started while it is still
  running, the executor remembers exactly the running ones, a refused request changes nothing, and
  an action whose handler has settled, even with an error, can be started again.
\<close>

theorem actions_run_one_at_a_time:
  fixes events :: "action_event list"
  defines "ex \<equiv> foldl executor_step createWorkspaceActionExecutor events"
  shows "distinct (ex_running ex) \<and> set (ex_pending ex) = set (ex_running ex) \<and>
    (case run_action request snapshot ex of
       (None, ex') \<Rightarrow> req_actionId request \<notin> set (ex_running ex) \<and> ex_running ex' = req_actionId request # ex_running ex
     | (Some r, ex') \<Rightarrow> ex' = ex \<and> (\<exists>state. r = ResultDisabled state \<and> \<not> was_enabled state)) \<and>
    req_actionId request \<notin> set (ex_pending (snd (action_settled (req_actionId request) success ex)))"
proof -
  have ok: "executor_ok ex"
    unfolding ex_def by (rule action_executor.run_invar) (simp add: executor_ok_def createWorkspaceActionExecutor_def)
  obtain r ex' where run: "run_action request snapshot ex = (r, ex')"
    by (cases "run_action request snapshot ex")
  have "case r of None \<Rightarrow> req_actionId request \<notin> set (ex_running ex) \<and> ex_running ex' = req_actionId request # ex_running ex
      | Some r \<Rightarrow> ex' = ex \<and> (\<exists>state. r = ResultDisabled state \<and> \<not> was_enabled state)"
    using run run_action_started [of request snapshot ex ex'] run_action_refused [of request snapshot ex _ ex']
      run_action_enabled [of ex request snapshot] ok
    by (cases r) (auto simp: executor_ok_def)
  moreover have "req_actionId request \<notin> set (ex_pending (snd (action_settled (req_actionId request) success ex)))"
    using ok by (auto simp: action_settled_def executor_ok_def)
  ultimately show ?thesis
    using ok run by (auto simp: executor_ok_def split: option.splits)
qed

section \<open>Key presses\<close>

text \<open>
  A key press runs at most one action, one that is enabled at that moment, so that the run is
  not refused; it runs none while a text is being composed, in a menu or in a text field outside
  the terminals.
\<close>

theorem shortcut_press_runs_enabled_action:
  assumes "shortcutKeyDown bindings snapshot ex target isComposing event = Some request"
  shows "(\<exists>ex' t. run_action request snapshot ex = (None, ex') \<and> ex_calls ex' = ex_calls ex @ [(req_actionId request, t)]) \<and>
    \<not> isComposing \<and> focusKind target \<noteq> FocusMenu \<and> focusKind target \<noteq> FocusEditable \<and>
    (\<exists>action binding. getShortcutAction (req_actionId request) = Some action \<and> sa_dispatch action = DispatchGlobal \<and>
      binding = resolveShortcutBinding bindings action \<and> keyboardEventMatchesShortcut event binding)"
proof -
  let ?focus = "actionFocusContextForKeyboardEvent target isComposing"
  obtain action binding where found: "(action, binding) \<in> set (resolveGlobalShortcutBindings bindings)"
      "keyboardEventMatchesShortcut event binding" "request = shortcut_request ?focus action"
      "was_enabled (resolveWithSnapshot (ex_pending ex) request snapshot)"
    using assms by (auto simp: shortcutKeyDown_def Let_def dest!: find_SomeD)
  then have enabled: "was_enabled (resolveWorkspaceAction request (snap_context snapshot) (snap_bindings snapshot))"
    by (auto simp: resolveWithSnapshot_def Let_def split: if_splits)
  have "shortcut_refused (getShortcutAction (req_actionId request))
      (resolveShortcutBindingById (snap_bindings snapshot) (req_actionId request)) (Some ?focus) = None"
    using enabled_action [OF enabled] found(3) by (auto simp: shortcut_request_def)
  then have focus: "\<not> isComposing" "focusKind target \<noteq> FocusMenu" "focusKind target \<noteq> FocusEditable"
    by (auto simp: shortcut_refused_def actionFocusContextForKeyboardEvent_def split: option.splits if_splits)
  obtain ex' where run: "run_action request snapshot ex = (None, ex')"
    using run_action_enabled [OF found(4)] by blast
  have "action \<in> set shortcutActions" "sa_dispatch action = DispatchGlobal" "binding = resolveShortcutBinding bindings action"
    using found(1) by (auto simp: resolveGlobalShortcutBindings_def)
  moreover have "distinct (map sa_id shortcutActions)"
    by (simp add: shortcutActions_def shortcut_action_def aiSendMessageShortcutActionId_def)
  then have "getShortcutAction (sa_id action) = Some action"
    unfolding getShortcutAction_def using \<open>action \<in> set shortcutActions\<close> by (rule find_key)
  ultimately show ?thesis
    using run run_action_started [OF run] focus found(2,3) by (auto simp: shortcut_request_def)
qed

section \<open>A sample workspace\<close>

text \<open>Two SSH tabs in a split of two panes, the second one focused, and a remote desktop beside them.\<close>

definition sample_action_input :: WorkspaceActionContextInput where
  "sample_action_input =
     \<lparr>aci_workspaceVisible = True, aci_activeItemId = Some ''split'', aci_activePaneId = Some ''p2'',
      aci_workspaceItems = [\<lparr>wai_id = ''home'', wai_kind = InputHome, wai_memberIds = None\<rparr>,
        \<lparr>wai_id = ''split'', wai_kind = InputSplit, wai_memberIds = Some [''ssh:a'', ''ssh:b'']\<rparr>,
        \<lparr>wai_id = ''rdp:r'', wai_kind = InputInstance InstRdp, wai_memberIds = None\<rparr>],
      aci_terminalTabs = [''a'', ''b''], aci_localTerminalTabs = [], aci_rdpSessions = [''r''], aci_vncSessions = [],
      aci_splitPanes = [(''p1'', Some (SshBinding ''a'')), (''p2'', Some (SshBinding ''b''))],
      aci_terminalSearchByTabId = Map.empty, aci_commandSenderTargetCount = 2, aci_canSplitTerminal = True,
      aci_canOpenTunnels = None\<rparr>"

definition sample_action_snapshot :: WorkspaceActionSnapshot where
  "sample_action_snapshot = \<lparr>snap_context = buildWorkspaceActionContext sample_action_input, snap_bindings = [],
     snap_handlers = map fst createWorkspaceActionHandlers\<rparr>"

definition sample_action_request :: "string \<Rightarrow> ActionTargetSelector option \<Rightarrow> WorkspaceActionRequest" where
  "sample_action_request i selector =
     \<lparr>req_actionId = i, req_target = selector, req_source = Some FromMenu, req_focus = None\<rparr>"

theorem enabled_action_target_witness:
  "target_named (buildWorkspaceActionContext sample_action_input) (Some (SelectPane ''split'' ''p1'')) (OnInstance ''ssh:a'' InstSsh)"
proof -
  let ?request = "sample_action_request ''terminal.splitRight'' (Some (SelectPane ''split'' ''p1''))"
  have "resolveWorkspaceAction ?request (buildWorkspaceActionContext sample_action_input) [] =
      \<lparr>was_actionId = ''terminal.splitRight'', was_binding = None, was_enabled = True,
       was_target = Some (OnInstance ''ssh:a'' InstSsh), was_reason = None\<rparr>"
    by code_simp
  with enabled_action_target [of ?request "buildWorkspaceActionContext sample_action_input" "[]"] show ?thesis
    by (auto simp: sample_action_request_def)
qed

theorem enabled_action_reaches_live_session_witness:
  "\<exists>handler call. map_of createWorkspaceActionHandlers ''terminal.closeTab'' = Some handler \<and>
     handler (OnInstance ''ssh:b'' InstSsh) = Some call \<and> call_live sample_action_input call"
proof -
  let ?request = "sample_action_request ''terminal.closeTab'' None"
  have "was_enabled (resolveWithSnapshot [] ?request sample_action_snapshot)"
    by code_simp
  moreover have "was_target (resolveWorkspaceAction ?request (buildWorkspaceActionContext sample_action_input) []) =
      Some (OnInstance ''ssh:b'' InstSsh)"
    by code_simp
  ultimately show ?thesis
    using enabled_action_reaches_live_session [of "[]" ?request sample_action_input "[]"]
    by (auto simp: sample_action_snapshot_def sample_action_request_def)
qed

theorem shortcut_press_runs_enabled_action_witness:
  "\<exists>ex' t. run_action (shortcut_request \<lparr>focus_kind = FocusTerminal, focus_composing = False\<rparr>
       (shortcut_action ''terminal.closeTab'' DispatchGlobal CategoryTerminal ''Ctrl+Shift+W'' ScopeTerminal True))
     sample_action_snapshot createWorkspaceActionExecutor = (None, ex') \<and> ex_calls ex' = [(''terminal.closeTab'', t)]"
proof -
  let ?target = "\<lparr>kf_inTerminalSearch = False, kf_inTerminal = True, kf_inMenu = False, kf_editable = True\<rparr>"
  let ?event = "\<lparr>ke_key = ''W'', ke_altKey = False, ke_ctrlKey = True, ke_metaKey = False, ke_shiftKey = True\<rparr>"
  let ?request = "shortcut_request \<lparr>focus_kind = FocusTerminal, focus_composing = False\<rparr>
       (shortcut_action ''terminal.closeTab'' DispatchGlobal CategoryTerminal ''Ctrl+Shift+W'' ScopeTerminal True)"
  have "shortcutKeyDown [] sample_action_snapshot createWorkspaceActionExecutor ?target False ?event = Some ?request"
    by code_simp
  from shortcut_press_runs_enabled_action [OF this] show ?thesis
    by (auto simp: shortcut_request_def shortcut_action_def createWorkspaceActionExecutor_def)
qed

end
