(* ===== verification/Titlebar.thy ===== *)
theory Titlebar
  imports Instances Js_Strings
begin

text \<open>
  The title bar: the labels of the workspace items, the choice of the items that fit into the bar
  and the search of the switcher (\<open>src/features/layout/titlebarItems.ts\<close>), and the division of the
  tool bar into visible and overflowing entries (\<open>partitionToolbar\<close> in
  \<open>src/features/shortcuts/actionPresentation.ts\<close>). Widths are rationals in place of doubles; the
  translation function and \<open>toLowerCase\<close> are arguments.
\<close>

section \<open>Labels\<close>

record TitlebarItemLookups =
  tl_connectionAddress :: "string \<Rightarrow> string option"
  tl_connectionName :: "string \<Rightarrow> string option"
  tl_localProfileName :: "string \<Rightarrow> string option"

datatype titlebar_kind = KindHome | KindInstance InstanceKind | KindSplit

record TitlebarItem =
  tb_badge :: "string option"
  tb_closable :: bool
  tb_detail :: "string option"
  tb_id :: string
  tb_kind :: titlebar_kind
  tb_label :: string

text \<open>The translation function: a key, the number \<open>n\<close> and the \<open>name\<close> of its parameters.\<close>

type_synonym translate = "string \<Rightarrow> int option \<Rightarrow> string option \<Rightarrow> string"

fun instance_kind :: "InstanceItem \<Rightarrow> InstanceKind" where
  "instance_kind (SshItem i c n t) = InstSsh"
| "instance_kind (LocalItem i n p s t) = InstLocal"
| "instance_kind (RdpItem i c s) = InstRdp"
| "instance_kind (VncItem i c s) = InstVnc"

fun item_kind :: "WorkspaceItem \<Rightarrow> titlebar_kind" where
  "item_kind HomeItem = KindHome"
| "item_kind (ItemInstance i) = KindInstance (instance_kind i)"
| "item_kind (ItemSplit g) = KindSplit"

definition name_or_unknown :: "translate \<Rightarrow> string option \<Rightarrow> string" where
  "name_or_unknown t name = (case name of Some n \<Rightarrow> n | None \<Rightarrow> t ''item.unknownConnection'' None None)"

fun local_fallback :: "translate \<Rightarrow> WorkspaceItem \<Rightarrow> string" where
  "local_fallback t (ItemInstance (LocalItem i n p s tab)) =
     t (if s \<noteq> SourceLocal then ''item.unknownConnection'' else ''item.unknownProfile'') None None"
| "local_fallback t (ItemSplit g) =
     (case group_host g of
        LocalItem i n p s tab \<Rightarrow> t (if s \<noteq> SourceLocal then ''item.unknownConnection'' else ''item.unknownProfile'') None None
      | _ \<Rightarrow> t ''item.unknownProfile'' None None)"
| "local_fallback t _ = t ''item.unknownProfile'' None None"

definition itemLabel :: "WorkspaceItem \<Rightarrow> TitlebarItemLookups \<Rightarrow> translate \<Rightarrow> string" where
  "itemLabel item lookups t =
     (case itemTitle (tl_connectionName lookups) (tl_localProfileName lookups) item of
        TitleHome \<Rightarrow> t ''item.home'' None None
      | TitleSsh name ordinal \<Rightarrow>
          (case displayOrdinal ordinal of
             None \<Rightarrow> t ''item.sshTerminal'' None (Some (name_or_unknown t name))
           | Some n \<Rightarrow> t ''item.sshTerminalN'' (Some n) (Some (name_or_unknown t name)))
      | TitleLocal name ordinal \<Rightarrow>
          (let shown = (case name of Some n \<Rightarrow> n | None \<Rightarrow> local_fallback t item) in
           case displayOrdinal ordinal of None \<Rightarrow> shown | Some n \<Rightarrow> t ''item.localN'' (Some n) (Some shown))
      | TitleRdp name \<Rightarrow> t ''item.rdp'' None (Some (name_or_unknown t name))
      | TitleVnc name \<Rightarrow> t ''item.vnc'' None (Some (name_or_unknown t name)))"

fun itemBadge :: "WorkspaceItem \<Rightarrow> translate \<Rightarrow> string option" where
  "itemBadge HomeItem t = None"
| "itemBadge (ItemSplit g) t = Some (t ''kind.split'' None None)"
| "itemBadge (ItemInstance (LocalItem i n p s tab)) t =
     Some (t (if s = SourceTelnet then ''kind.telnet'' else if s = SourceSerial then ''kind.serial'' else ''kind.local'') None None)"
| "itemBadge (ItemInstance (SshItem i c n tab)) t = Some (t ''kind.ssh'' None None)"
| "itemBadge (ItemInstance (RdpItem i c s)) t = Some (t ''kind.rdp'' None None)"
| "itemBadge (ItemInstance (VncItem i c s)) t = Some (t ''kind.vnc'' None None)"

fun instance_detail :: "TitlebarItemLookups \<Rightarrow> InstanceItem \<Rightarrow> string option" where
  "instance_detail lookups (LocalItem i n p s tab) = (if s = SourceLocal then None else tl_connectionAddress lookups p)"
| "instance_detail lookups (SshItem i c n tab) = tl_connectionAddress lookups c"
| "instance_detail lookups (RdpItem i c s) = tl_connectionAddress lookups c"
| "instance_detail lookups (VncItem i c s) = tl_connectionAddress lookups c"

fun itemDetail :: "WorkspaceItem \<Rightarrow> TitlebarItemLookups \<Rightarrow> string option" where
  "itemDetail HomeItem lookups = None"
| "itemDetail (ItemSplit g) lookups = instance_detail lookups (group_host g)"
| "itemDetail (ItemInstance i) lookups = instance_detail lookups i"

definition buildTitlebarItems :: "WorkspaceItem list \<Rightarrow> TitlebarItemLookups \<Rightarrow> translate \<Rightarrow> TitlebarItem list" where
  "buildTitlebarItems items lookups t =
     map (\<lambda>item. \<lparr>tb_badge = itemBadge item t, tb_closable = (item_kind item \<noteq> KindHome), tb_detail = itemDetail item lookups,
        tb_id = workspace_item_id item, tb_kind = item_kind item, tb_label = itemLabel item lookups t\<rparr>) items"

section \<open>The items that fit\<close>

definition FALLBACK_VISIBLE_ITEMS :: nat where "FALLBACK_VISIBLE_ITEMS = 4"
definition TAB_GAP :: rat where "TAB_GAP = 6"
definition TABS_PADDING :: rat where "TABS_PADDING = 20"
definition SWITCHER_WIDTH :: rat where "SWITCHER_WIDTH = 34"

definition estimateItemWidth :: "TitlebarItem \<Rightarrow> rat" where
  "estimateItemWidth item = min 182 (max 118 (80 + of_nat (js_length (js_trim (tb_label item))) * (26 / 5)))"

definition gap_before :: "'a list \<Rightarrow> rat" where
  "gap_before xs = (if xs \<noteq> [] then TAB_GAP else 0)"

fun items_width_from :: "nat \<Rightarrow> rat \<Rightarrow> TitlebarItem list \<Rightarrow> rat" where
  "items_width_from index width [] = width"
| "items_width_from index width (item # items) =
     items_width_from (Suc index) (width + estimateItemWidth item + (if 0 < index then TAB_GAP else 0)) items"

definition itemsWidth :: "TitlebarItem list \<Rightarrow> rat" where
  "itemsWidth items = items_width_from 0 0 items"

fun fit_items :: "rat \<Rightarrow> TitlebarItem list \<Rightarrow> rat \<Rightarrow> TitlebarItem list \<Rightarrow> TitlebarItem list" where
  "fit_items budget fitted consumed [] = fitted"
| "fit_items budget fitted consumed (item # items) =
     (let next_width = consumed + gap_before fitted + estimateItemWidth item in
      if next_width > budget then fitted else fit_items budget (fitted @ [item]) next_width items)"

function trim_items :: "rat \<Rightarrow> rat \<Rightarrow> TitlebarItem list \<Rightarrow> TitlebarItem list" where
  "trim_items budget activeWidth items =
     (if items \<noteq> [] \<and> itemsWidth items + TAB_GAP + activeWidth > budget then trim_items budget activeWidth (butlast items)
      else items)"
  by pat_completeness auto
termination trim_items
  by (relation "measure (\<lambda>(budget, activeWidth, items). length items)") auto

declare trim_items.simps [simp del]

definition title_budget :: "TitlebarItem list \<Rightarrow> rat \<Rightarrow> rat" where
  "title_budget items availableWidth =
     max 0 (availableWidth - TABS_PADDING - (if 1 < length items then SWITCHER_WIDTH else 0))"

definition pickVisibleTitlebarItems :: "TitlebarItem list \<Rightarrow> string option \<Rightarrow> js_number \<Rightarrow> TitlebarItem list" where
  "pickVisibleTitlebarItems items activeId availableWidth =
     (let active = Option.bind (truthy activeId) (\<lambda>i. find (\<lambda>item. tb_id item = i) items);
          unknown = (if length items \<le> FALLBACK_VISIBLE_ITEMS then items
            else let visible = take FALLBACK_VISIBLE_ITEMS items
              in case active of
                   Some a \<Rightarrow> if a \<notin> set visible then butlast visible @ [a] else visible
                 | None \<Rightarrow> visible)
      in case availableWidth of
           Finite w \<Rightarrow>
             if w \<le> 0 then unknown
             else let budget = title_budget items w; fitted = fit_items budget [] 0 items
               in (case active of
                     None \<Rightarrow> fitted
                   | Some a \<Rightarrow>
                       if length fitted = length items \<or> a \<in> set fitted then fitted
                       else trim_items budget (estimateItemWidth a) fitted @ [a])
         | _ \<Rightarrow> unknown)"

definition filterTitlebarItems :: "(string \<Rightarrow> string) \<Rightarrow> TitlebarItem list \<Rightarrow> string \<Rightarrow> TitlebarItem list" where
  "filterTitlebarItems lower items query =
     (let needle = lower (js_trim query) in
      if needle = [] then items
      else filter (\<lambda>item. list_ex (\<lambda>field. case field of None \<Rightarrow> False | Some f \<Rightarrow> js_includes needle (lower f))
        [Some (tb_label item), tb_detail item, tb_badge item]) items)"

section \<open>Every choice fits and shows the active item\<close>

lemma estimateItemWidth_pos: "118 \<le> estimateItemWidth item"
  by (simp add: estimateItemWidth_def min_def)

text \<open>The width of a row of items, read from the right end.\<close>

definition row_width :: "TitlebarItem list \<Rightarrow> rat" where
  "row_width items = sum_list (map estimateItemWidth items) + TAB_GAP * of_nat (length items - 1)"

lemma row_width_Nil [simp]: "row_width [] = 0"
  by (simp add: row_width_def)

lemma row_width_snoc: "row_width (items @ [item]) = row_width items + gap_before items + estimateItemWidth item"
  by (cases items) (auto simp: row_width_def gap_before_def algebra_simps)

lemma items_width_from_eq:
  "items_width_from n w items = w + sum_list (map estimateItemWidth items) + TAB_GAP * of_nat (length items - (if n = 0 then 1 else 0))"
proof (induction n w items rule: items_width_from.induct)
  case (2 n w item items)
  then show ?case
    by (cases n; cases items) (auto simp: algebra_simps)
qed simp

lemma itemsWidth_row: "itemsWidth items = row_width items"
  by (simp add: itemsWidth_def items_width_from_eq row_width_def)

lemma fit_items_row:
  assumes "consumed = row_width fitted" "row_width fitted \<le> budget \<or> fitted = []"
  shows "\<exists>rest more. fit_items budget fitted consumed items = fitted @ more \<and> items = more @ rest \<and>
    (row_width (fitted @ more) \<le> budget \<or> fitted @ more = []) \<and>
    (case rest of [] \<Rightarrow> True | item # _ \<Rightarrow> row_width ((fitted @ more) @ [item]) > budget)"
  using assms
proof (induction budget fitted consumed items rule: fit_items.induct)
  case (1 budget fitted consumed)
  then show ?case
    by auto
next
  case (2 budget fitted consumed item items)
  define w where "w = consumed + gap_before fitted + estimateItemWidth item"
  have row: "w = row_width (fitted @ [item])"
    using "2.prems"(1) by (simp add: w_def row_width_snoc)
  show ?case
  proof (cases "w > budget")
    case True
    then have "fit_items budget fitted consumed (item # items) = fitted"
      by (simp add: w_def)
    with True show ?thesis
      using "2.prems"(2) row by - (rule exI [of _ "item # items"], rule exI [of _ "[]"], simp)
  next
    case False
    then obtain rest more where more: "fit_items budget (fitted @ [item]) w items = (fitted @ [item]) @ more" "items = more @ rest"
        "row_width ((fitted @ [item]) @ more) \<le> budget \<or> (fitted @ [item]) @ more = []"
        "case rest of [] \<Rightarrow> True | item' # _ \<Rightarrow> row_width (((fitted @ [item]) @ more) @ [item']) > budget"
      using "2.IH" [OF w_def _ row] row by auto
    have "fit_items budget fitted consumed (item # items) = fit_items budget (fitted @ [item]) w items"
      using False by (simp add: w_def)
    then show ?thesis
      using more by - (rule exI [of _ rest], rule exI [of _ "item # more"], simp split: list.splits)
  qed
qed

lemma trim_items_row:
  "\<exists>dropped. items = trim_items budget w items @ dropped \<and>
     (trim_items budget w items = [] \<or> row_width (trim_items budget w items) + TAB_GAP + w \<le> budget)"
proof (induction budget w items rule: trim_items.induct)
  case (1 budget w items)
  show ?case
  proof (cases "items \<noteq> [] \<and> itemsWidth items + TAB_GAP + w > budget")
    case True
    then obtain dropped where d: "butlast items = trim_items budget w (butlast items) @ dropped"
        "trim_items budget w (butlast items) = [] \<or> row_width (trim_items budget w (butlast items)) + TAB_GAP + w \<le> budget"
      using "1.IH" by blast
    have "items = trim_items budget w (butlast items) @ (dropped @ [last items])"
      using True d(1) by (metis append_assoc append_butlast_last_id)
    then show ?thesis
      using True d(2) trim_items.simps [of budget w items] by auto
  next
    case False
    then show ?thesis
      using trim_items.simps [of budget w items] by (auto simp: itemsWidth_row)
  qed
qed


lemma visible_items_measured:
  assumes "distinct items" "pickVisibleTitlebarItems items activeId (Finite w) = visible" "0 < w"
    and "active = Option.bind (truthy activeId) (\<lambda>i. find (\<lambda>item. tb_id item = i) items)"
  shows "(\<forall>a. active = Some a \<longrightarrow> a \<in> set visible) \<and> distinct visible \<and>
    (\<exists>shown hidden. items = shown @ hidden \<and>
      (visible = shown \<or> (\<exists>a. active = Some a \<and> visible = shown @ [a] \<and> a \<in> set hidden))) \<and>
    (row_width visible \<le> title_budget items w \<or> visible = [] \<or> (\<exists>a. active = Some a \<and> visible = [a]))"
proof -
  let ?budget = "title_budget items w"
  define fitted where "fitted = fit_items ?budget [] 0 items"
  obtain rest where fit: "items = fitted @ rest" "row_width fitted \<le> ?budget \<or> fitted = []"
    using fit_items_row [of 0 "[]" ?budget items] by (auto simp: fitted_def)
  have visible: "visible = (case active of None \<Rightarrow> fitted
      | Some a \<Rightarrow> if length fitted = length items \<or> a \<in> set fitted then fitted
        else trim_items ?budget (estimateItemWidth a) fitted @ [a])"
    using assms(2,3) unfolding pickVisibleTitlebarItems_def fitted_def assms(4) by (simp add: Let_def)
  have active: "a \<in> set items" if "active = Some a" for a
    using that assms(4) by (auto split: bind_splits dest!: find_SomeD)
  have dist: "distinct fitted" "set fitted \<inter> set rest = {}"
    using assms(1) fit(1) by auto
  show ?thesis
  proof (cases "\<exists>a. active = Some a \<and> a \<notin> set fitted")
    case False
    then have "visible = fitted"
      using visible by (auto split: option.splits)
    with False show ?thesis
      using fit dist by blast
  next
    case True
    then obtain a where a: "active = Some a" "a \<notin> set fitted" "visible = trim_items ?budget (estimateItemWidth a) fitted @ [a]"
      using visible active fit(1) by (auto split: if_splits)
    define trimmed where "trimmed = trim_items ?budget (estimateItemWidth a) fitted"
    obtain dropped where trim: "fitted = trimmed @ dropped" "trimmed = [] \<or> row_width trimmed + TAB_GAP + estimateItemWidth a \<le> ?budget"
      using trim_items_row [of fitted ?budget "estimateItemWidth a"] by (auto simp: trimmed_def)
    have shown: "visible = trimmed @ [a]"
      using a(3) by (simp add: trimmed_def)
    have "items = trimmed @ (dropped @ rest)" "a \<in> set (dropped @ rest)" "distinct visible"
      using fit(1) trim(1) shown a(2) active [OF a(1)] dist(1) by auto
    moreover have "row_width visible \<le> ?budget \<or> visible = [a]"
      using trim(2) by (cases "trimmed = []") (auto simp: shown row_width_snoc gap_before_def)
    moreover have "\<exists>shown hidden. items = shown @ hidden \<and>
        (visible = shown \<or> (\<exists>a. active = Some a \<and> visible = shown @ [a] \<and> a \<in> set hidden))"
      using calculation(1,2) a(1) shown by blast
    ultimately show ?thesis
      using a(1) shown by auto
  qed
qed

lemma visible_items_unmeasured:
  assumes "distinct items" "pickVisibleTitlebarItems items activeId width = visible" "\<And>w. width = Finite w \<Longrightarrow> w \<le> 0"
    and "active = Option.bind (truthy activeId) (\<lambda>i. find (\<lambda>item. tb_id item = i) items)"
  shows "(\<forall>a. active = Some a \<longrightarrow> a \<in> set visible) \<and> distinct visible \<and>
    (\<exists>shown hidden. items = shown @ hidden \<and>
      (visible = shown \<or> (\<exists>a. active = Some a \<and> visible = shown @ [a] \<and> a \<in> set hidden))) \<and>
    length visible = min 4 (length items)"
proof -
  have visible: "visible = (if length items \<le> 4 then items
      else case active of Some a \<Rightarrow> if a \<notin> set (take 4 items) then butlast (take 4 items) @ [a] else take 4 items | None \<Rightarrow> take 4 items)"
    using assms(2,3) unfolding assms(4) pickVisibleTitlebarItems_def FALLBACK_VISIBLE_ITEMS_def Let_def
    by (cases width) auto
  have active: "a \<in> set items" if "active = Some a" for a
    using that assms(4) by (auto split: bind_splits dest!: find_SomeD)
  show ?thesis
  proof (cases "\<exists>a. active = Some a \<and> a \<notin> set (take 4 items) \<and> 4 < length items")
    case False
    then have "visible = (if length items \<le> 4 then items else take 4 items)"
      using visible by (auto split: option.splits)
    moreover have "a \<in> set visible" if "active = Some a" for a
      using that active False calculation by auto
    moreover have "\<exists>hidden. items = visible @ hidden"
      using calculation(1) append_take_drop_id [of 4 items] by (metis append_Nil2)
    ultimately show ?thesis
      using assms(1) by (simp split: if_splits) blast+
  next
    case True
    then obtain a where a: "active = Some a" "a \<notin> set (take 4 items)" "4 < length items"
      by blast
    then have shown: "visible = take 3 items @ [a]"
      using visible by (simp add: butlast_take)
    have "a \<in> set (drop 3 items)" "a \<notin> set (take 3 items)"
      using set_take_subset_set_take [of 3 4 items] active [OF a(1)] a(2) set_append [of "take 3 items" "drop 3 items"] by auto
    then have "\<exists>hidden. items = take 3 items @ hidden \<and> a \<in> set hidden"
      by (intro exI [of _ "drop 3 items"]) simp
    moreover have "distinct visible" "length visible = 4"
      using a(3) shown assms(1) \<open>a \<notin> set (take 3 items)\<close> by simp_all
    ultimately show ?thesis
      using a(1,3) shown by auto
  qed
qed

lemma row_width_pos: "items \<noteq> [] \<Longrightarrow> 0 < row_width items"
proof (cases items rule: rev_cases)
  case (snoc xs x)
  have "0 \<le> row_width xs + gap_before xs"
    using estimateItemWidth_pos by (auto simp: row_width_def gap_before_def TAB_GAP_def intro!: add_nonneg_nonneg sum_list_nonneg order_trans [OF _ estimateItemWidth_pos])
  then show ?thesis
    using estimateItemWidth_pos [of x] unfolding snoc row_width_snoc by linarith
qed simp

lemma row_fits:
  assumes "row_width visible \<le> title_budget items w" "visible \<noteq> []"
  shows "row_width visible + 20 + (if 1 < length items then 34 else 0) \<le> w"
  using assms row_width_pos [OF assms(2)] by (auto simp: title_budget_def TABS_PADDING_def SWITCHER_WIDTH_def)

text \<open>
  C27. Whatever the width, known or not, the active item is always among the visible ones, no item is
  shown twice, and the items keep their order except that an active item that would be left out is
  moved to the end. When the width is known the row fits into the bar beside its padding and the
  button of the switcher, unless nothing or the active item alone is shown; before it has been
  measured four items are shown, or all if there are fewer.
\<close>

theorem visible_items_fit:
  assumes "distinct items" "pickVisibleTitlebarItems items activeId width = visible"
    and "active = Option.bind (truthy activeId) (\<lambda>i. find (\<lambda>item. tb_id item = i) items)"
  shows "(\<forall>a. active = Some a \<longrightarrow> a \<in> set visible) \<and> distinct visible \<and>
    (\<exists>shown hidden. items = shown @ hidden \<and>
      (visible = shown \<or> (\<exists>a. active = Some a \<and> visible = shown @ [a] \<and> a \<in> set hidden))) \<and>
    (case width of
       Finite w \<Rightarrow>
         if 0 < w then row_width visible + 20 + (if 1 < length items then 34 else 0) \<le> w \<or> visible = [] \<or> (\<exists>a. active = Some a \<and> visible = [a])
         else length visible = min 4 (length items)
     | _ \<Rightarrow> length visible = min 4 (length items))"
proof (cases "\<exists>w > 0. width = Finite w")
  case True
  then obtain w where w: "0 < w" "width = Finite w"
    by blast
  with visible_items_measured [OF assms(1) _ w(1) assms(3)] row_fits [of visible items w] assms(2) show ?thesis
    by auto
next
  case False
  then have "w \<le> 0" if "width = Finite w" for w
    using that not_le by blast
  with visible_items_unmeasured [OF assms(1,2) _ assms(3)] False show ?thesis
    by (simp split: js_number.split) blast
qed

definition sample_title :: "string \<Rightarrow> TitlebarItem" where
  "sample_title i = \<lparr>tb_badge = None, tb_closable = True, tb_detail = None, tb_id = i, tb_kind = KindInstance InstSsh, tb_label = i\<rparr>"

theorem visible_items_fit_witness:
  "sample_title ''c'' \<in> set (pickVisibleTitlebarItems (map sample_title [''a'', ''b'', ''c'']) (Some ''c'') (Finite 300)) \<and>
   length (pickVisibleTitlebarItems (map sample_title [''a'', ''b'', ''c'', ''d'', ''e'']) (Some ''e'') (Finite 0)) = 4"
proof -
  have "distinct (map sample_title [''a'', ''b'', ''c''])" and five: "distinct (map sample_title [''a'', ''b'', ''c'', ''d'', ''e''])"
    by (simp_all add: sample_title_def)
  from visible_items_fit [OF this(1) refl refl, where width = "Finite 300" and activeId = "Some ''c''"]
    visible_items_fit [OF five refl refl, where width = "Finite 0" and activeId = "Some ''e''"] show ?thesis
    by (simp add: sample_title_def)
qed

section \<open>The tool bar\<close>

record ToolbarEntry =
  te_id :: string
  te_priority :: int

definition toolbarEntries :: "ToolbarEntry list" where
  "toolbarEntries = map (\<lambda>(i, p). \<lparr>te_id = i, te_priority = p\<rparr>)
     [(''new-session'', 0), (''split'', 1), (''terminal.multiExec'', 2), (''tools.tunnels'', 4), (''tools.x11'', 5),
      (''connection.quickOpen'', 6), (''settings.open'', 7)]"

datatype toolbar_mode = ToolbarLabels | ToolbarOverflow | ToolbarIcons | ToolbarReduced

record toolbar_partition =
  tp_mode :: toolbar_mode
  tp_visible :: "ToolbarEntry list"
  tp_overflow :: "ToolbarEntry list"

definition toolbar_width :: "js_number \<Rightarrow> rat" where
  "toolbar_width availableWidth = (case availableWidth of Finite w \<Rightarrow> max 0 w | _ \<Rightarrow> 0)"

definition toolbar_order :: "ToolbarEntry list" where
  "toolbar_order = js_sort (\<lambda>a b. of_int (te_priority a - te_priority b)) toolbarEntries"

definition toolbar_candidates :: "bool \<Rightarrow> ToolbarEntry list" where
  "toolbar_candidates x11Available = filter (\<lambda>entry. te_id entry \<noteq> ''tools.x11'' \<or> x11Available) toolbar_order"

definition toolbar_count :: "rat \<Rightarrow> bool \<Rightarrow> nat" where
  "toolbar_count width x11Available =
     (let candidates = toolbar_candidates x11Available;
          allFit = (length candidates = length toolbar_order \<and> width \<ge> of_nat (length candidates) * 34 - 2)
      in min (length candidates) (nat (max 0 \<lfloor>(width - (if allFit then 0 else 34) + 2) / 34\<rfloor>)))"

definition partitionToolbar :: "js_number \<Rightarrow> bool \<Rightarrow> toolbar_partition" where
  "partitionToolbar availableWidth x11Available =
     (let width = toolbar_width availableWidth; candidates = toolbar_candidates x11Available;
          count = toolbar_count width x11Available; visible = take count candidates
      in \<lparr>tp_mode = (if width \<ge> 840 then ToolbarLabels else if count = 0 then ToolbarOverflow
            else if count = length candidates then ToolbarIcons else ToolbarReduced),
          tp_visible = visible,
          tp_overflow = filter (\<lambda>entry. te_id entry \<notin> te_id ` set visible) toolbar_order\<rparr>)"

lemma toolbar_order_eq: "toolbar_order = toolbarEntries"
  by code_simp

text \<open>The bar has seven entries, so that there are sixteen divisions.\<close>

definition toolbar_overflow :: "ToolbarEntry list \<Rightarrow> ToolbarEntry list" where
  "toolbar_overflow visible = filter (\<lambda>entry. te_id entry \<notin> te_id ` set visible) toolbarEntries"

definition division_ok :: "bool \<Rightarrow> nat \<Rightarrow> bool" where
  "division_ok x11 n = (let visible = take n (toolbar_candidates x11); overflow = toolbar_overflow visible in
     distinct (visible @ overflow) \<and> set (visible @ overflow) = set toolbarEntries \<and> sorted (map te_priority visible) \<and>
     (overflow = [] \<longleftrightarrow> x11 \<and> n = 7) \<and> length visible = n)"

lemma divisions_ok: "list_all (division_ok True) [0..<8]" "list_all (division_ok False) [0..<7]"
  by code_simp+

lemma toolbar_lengths: "length (toolbar_candidates True) = 7" "length (toolbar_candidates False) = 6" "length toolbar_order = 7"
  by code_simp+

lemma toolbar_candidates_length: "length (toolbar_candidates x11) = (if x11 then 7 else 6)"
  by (cases x11) (simp_all add: toolbar_lengths)

lemma toolbar_division_ok: "division_ok x11 (toolbar_count width x11)"
proof -
  have "toolbar_count width x11 \<le> length (toolbar_candidates x11)"
    by (simp add: toolbar_count_def Let_def)
  then show ?thesis
    using divisions_ok by (cases x11) (auto simp: list_all_iff toolbar_candidates_length)
qed

lemma toolbar_count_fits:
  assumes "0 < toolbar_count width x11"
  shows "of_nat (toolbar_count width x11) * 34 - 2 + (if x11 \<and> toolbar_count width x11 = 7 then 0 else 34) \<le> width"
proof (cases "x11 \<and> 7 * 34 - 2 \<le> width")
  case True
  then have "7 \<le> (width + 2) / 34"
    by simp
  then have "7 \<le> \<lfloor>(width + 2) / 34\<rfloor>"
    by (simp add: le_floor_iff)
  then have "min 7 (nat \<lfloor>(width + 2) / 34\<rfloor>) = 7"
    by linarith
  then have "toolbar_count width x11 = 7"
    using True by (simp add: toolbar_count_def toolbar_candidates_length toolbar_lengths Let_def)
  then show ?thesis
    using True by simp
next
  case False
  let ?k = "\<lfloor>(width - 34 + 2) / 34\<rfloor>"
  have "toolbar_count width x11 \<le> nat (max 0 ?k)"
    using False by (auto simp: toolbar_count_def toolbar_candidates_length toolbar_lengths Let_def)
  moreover from this assms have "0 < ?k"
    by linarith
  ultimately have "int (toolbar_count width x11) \<le> ?k"
    by linarith
  then have "of_nat (toolbar_count width x11) \<le> (of_int ?k :: rat)"
    by (metis of_int_le_iff of_int_of_nat_eq)
  also have "of_int ?k \<le> (width - 34 + 2) / 34"
    by (rule of_int_floor_le)
  finally have "of_nat (toolbar_count width x11) * 34 \<le> width - 32"
    by simp
  then show ?thesis
    by auto
qed

text \<open>
  Every entry of the tool bar is either visible or in the overflow menu, never both, in the
  order of priority; the visible icons fit into the bar, together with the button of the overflow
  menu when there is one.
\<close>

theorem toolbar_partition_exact:
  fixes w :: js_number and x11 :: bool
  defines "visible \<equiv> tp_visible (partitionToolbar w x11)" and "overflow \<equiv> tp_overflow (partitionToolbar w x11)"
  shows "distinct (visible @ overflow) \<and> set (visible @ overflow) = set toolbarEntries \<and> sorted (map te_priority visible) \<and>
    (visible = [] \<or> of_nat (length visible) * 34 - 2 + (if overflow = [] then 0 else 34) \<le> toolbar_width w)"
proof -
  let ?n = "toolbar_count (toolbar_width w) x11"
  have v: "visible = take ?n (toolbar_candidates x11)" and o: "overflow = toolbar_overflow visible"
    by (simp_all add: visible_def overflow_def partitionToolbar_def toolbar_overflow_def toolbar_order_eq Let_def)
  have "length visible = ?n" "overflow = [] \<longleftrightarrow> x11 \<and> ?n = 7" "distinct (visible @ overflow)"
      "set (visible @ overflow) = set toolbarEntries" "sorted (map te_priority visible)"
    using toolbar_division_ok [of x11 "toolbar_width w"] unfolding division_ok_def Let_def v [symmetric] o [symmetric] by blast+
  moreover have "visible = [] \<or> of_nat ?n * 34 - 2 + (if x11 \<and> ?n = 7 then 0 else 34) \<le> toolbar_width w"
    using toolbar_count_fits [of "toolbar_width w" x11] v by (cases ?n) auto
  ultimately show ?thesis
    by simp
qed

end
