(* ===== verification/Terminal_Input.thy ===== *)
theory Terminal_Input
  imports Js_Units
begin

text \<open>
  What the terminal panel learns from the keys typed into a terminal: the working directory after
  a \<open>cd\<close> command (\<open>src/features/terminal/terminalInputDirectory.ts\<close>) and the commands of the input
  history (the history functions of \<open>TerminalPanel.tsx\<close>). Typed data is a list of UTF-16 code units.
\<close>

section \<open>Paths\<close>

definition slash_units :: "code_units \<Rightarrow> code_units" where
  "slash_units path = map (\<lambda>u. if u = 0x5C then 0x2F else u) path"

text \<open>One segment of a path, with the segments kept so far.\<close>

definition path_segment :: "code_units list \<Rightarrow> code_units \<Rightarrow> code_units list" where
  "path_segment parts part =
     (if part = [] \<or> part = units ''.'' then parts
      else if part = units ''..'' then butlast parts
      else parts @ [part])"

definition normalizeAbsolutePath :: "code_units \<Rightarrow> code_units" where
  "normalizeAbsolutePath path =
     0x2F # join_with [0x2F] (foldl path_segment [] (split_on 0x2F (slash_units path)))"

section \<open>Commands\<close>

function tokenize ::
  "16 word option \<Rightarrow> code_units \<Rightarrow> code_units list \<Rightarrow> code_units \<Rightarrow> code_units list option" where
  "tokenize quote token tokens [] =
     (if quote \<noteq> None then None
      else let tokens = (if token \<noteq> [] then tokens @ [token] else tokens)
        in if tokens \<noteq> [] then Some tokens else None)"
| "tokenize quote token tokens (char # rest) =
     (case quote of
        Some q \<Rightarrow>
          if char = q then tokenize None token tokens rest
          else if char = 0x5C \<and> q = 0x22 \<and> rest \<noteq> [] then tokenize quote (token @ [hd rest]) tokens (tl rest)
          else tokenize quote (token @ [char]) tokens rest
      | None \<Rightarrow>
          if char = 0x27 \<or> char = 0x22 then tokenize (Some char) token tokens rest
          else if char = 0x5C \<and> rest \<noteq> [] then tokenize quote (token @ [hd rest]) tokens (tl rest)
          else if is_space char then
            (if token \<noteq> [] then tokenize quote [] (tokens @ [token]) rest else tokenize quote token tokens rest)
          else tokenize quote (token @ [char]) tokens rest)"
  by pat_completeness auto
termination tokenize
  by (relation "measure (\<lambda>(quote, token, tokens, command). length command)") auto

definition tokenizeCommand :: "code_units \<Rightarrow> code_units list option" where
  "tokenizeCommand command = (if command = [] then None else tokenize None [] [] command)"

definition resolveDirectoryToken :: "code_units \<Rightarrow> code_units option \<Rightarrow> code_units option \<Rightarrow> code_units option" where
  "resolveDirectoryToken token currentDirectory homeDirectory =
     (if token = units ''-'' then None
      else if token = units ''~'' then homeDirectory
      else if prefix (units ''~/'') token then
        (case homeDirectory of
           None \<Rightarrow> None
         | Some home \<Rightarrow> if home = [] then None else Some (normalizeAbsolutePath (home @ drop 1 token)))
      else if prefix (units ''~'') token then None
      else if prefix (units ''/'') token then Some (normalizeAbsolutePath token)
      else (case currentDirectory of
          None \<Rightarrow> None
        | Some dir \<Rightarrow> if dir = [] then None else Some (normalizeAbsolutePath (dir @ units ''/'' @ token))))"

definition resolveCdCommand :: "code_units \<Rightarrow> code_units option \<Rightarrow> code_units option \<Rightarrow> code_units option" where
  "resolveCdCommand line currentDirectory homeDirectory =
     (case tokenizeCommand (trim_units line) of
        None \<Rightarrow> None
      | Some tokens \<Rightarrow>
          if nth_opt tokens 0 \<noteq> Some (units ''cd'') then None
          else let pathIndex = (if nth_opt tokens 1 = Some (units ''--'') then 2 else 1) in
            if length tokens = 1 \<or> (length tokens = 2 \<and> nth_opt tokens 1 = Some (units ''--'')) then homeDirectory
            else if length tokens \<noteq> pathIndex + 1 then None
            else resolveDirectoryToken (tokens ! pathIndex) currentDirectory homeDirectory)"

definition resolveTerminalInputDirectoryLine ::
  "code_units \<Rightarrow> code_units option \<Rightarrow> code_units option \<Rightarrow> code_units option" where
  "resolveTerminalInputDirectoryLine line currentDirectory homeDirectory =
     resolveCdCommand (trim_units line) currentDirectory homeDirectory"

text \<open>\<open>/^[A-Za-z0-9._-]+$/\<close>\<close>

definition name_unit :: "16 word \<Rightarrow> bool" where
  "name_unit u \<longleftrightarrow> 0x41 \<le> u \<and> u \<le> 0x5A \<or> 0x61 \<le> u \<and> u \<le> 0x7A \<or> 0x30 \<le> u \<and> u \<le> 0x39 \<or>
     u = 0x2E \<or> u = 0x5F \<or> u = 0x2D"

definition inferRemoteHomeDirectory :: "code_units option \<Rightarrow> code_units option" where
  "inferRemoteHomeDirectory username =
     (case username of
        None \<Rightarrow> None
      | Some u \<Rightarrow>
          let name = trim_units u in
          if name = [] \<or> \<not> list_all name_unit name then None
          else if name = units ''root'' then Some (units ''/root'')
          else Some (units ''/home/'' @ name))"

section \<open>Escape sequences\<close>

text \<open>
  The functions return the number of code units they skip; the source returns the index of the
  last one. \<open>data\<close> is what follows the place where the source starts.
\<close>

definition final_unit :: "16 word \<Rightarrow> bool" where
  "final_unit u \<longleftrightarrow> 0x40 \<le> u \<and> u \<le> 0x7E"

fun skipControlSequence :: "code_units \<Rightarrow> nat" where
  "skipControlSequence [] = 0"
| "skipControlSequence (u # data) = (if final_unit u then 1 else Suc (skipControlSequence data))"

fun skipOperatingSystemCommand :: "code_units \<Rightarrow> nat" where
  "skipOperatingSystemCommand [] = 0"
| "skipOperatingSystemCommand (u # data) =
     (if u = 0x07 then 1
      else if u = 0x1B \<and> first_of data = Some 0x5C then 2
      else Suc (skipOperatingSystemCommand data))"

definition skipEscapeSequence :: "code_units \<Rightarrow> nat" where
  "skipEscapeSequence data =
     (case data of
        [] \<Rightarrow> 0
      | marker # more \<Rightarrow>
          if marker = 0x5B then Suc (skipControlSequence more)
          else if marker = 0x5D then Suc (skipOperatingSystemCommand more)
          else skipControlSequence data)"

definition isBracketedPasteBoundary :: "code_units \<Rightarrow> bool" where
  "isBracketedPasteBoundary sequence \<longleftrightarrow> sequence = 0x1B # units ''[200~'' \<or> sequence = 0x1B # units ''[201~''"

definition isControlCharacter :: "16 word \<Rightarrow> bool" where
  "isControlCharacter u \<longleftrightarrow> u < 0x20 \<and> u \<noteq> 0x09"

section \<open>The tracked line\<close>

record TerminalInputDirectoryState =
  tid_dirty :: bool
  tid_directory :: "code_units option"
  tid_homeDirectory :: "code_units option"
  tid_line :: code_units

definition maxTrackedLineLength :: nat where "maxTrackedLineLength = 4096"

definition createTerminalInputDirectoryState :: "code_units option \<Rightarrow> code_units option \<Rightarrow> TerminalInputDirectoryState" where
  "createTerminalInputDirectoryState currentDirectory homeDirectory =
     \<lparr>tid_dirty = False, tid_directory = currentDirectory, tid_homeDirectory = homeDirectory, tid_line = []\<rparr>"

text \<open>One character that does not start an escape sequence.\<close>

definition input_unit ::
  "TerminalInputDirectoryState \<times> code_units option \<Rightarrow> 16 word \<Rightarrow> TerminalInputDirectoryState \<times> code_units option" where
  "input_unit = (\<lambda>(state, directory) char.
     (if char = 0x0D \<or> char = 0x0A then
        let nextDirectory = (if tid_dirty state then None
              else resolveCdCommand (tid_line state) (tid_directory state) (tid_homeDirectory state));
            state = state\<lparr>tid_dirty := False, tid_line := []\<rparr>
        in (case nextDirectory of
              None \<Rightarrow> (state, directory)
            | Some d \<Rightarrow> if d = [] then (state, directory) else (state\<lparr>tid_directory := Some d\<rparr>, Some d))
      else if char = 0x7F \<or> char = 0x08 then (state\<lparr>tid_line := butlast (tid_line state)\<rparr>, directory)
      else if char = 0x09 then (state\<lparr>tid_dirty := True\<rparr>, directory)
      else if isControlCharacter char then (state\<lparr>tid_dirty := True\<rparr>, directory)
      else (state\<lparr>tid_line := last_units maxTrackedLineLength (tid_line state @ [char])\<rparr>, directory)))"

function input_units ::
  "TerminalInputDirectoryState \<times> code_units option \<Rightarrow> code_units \<Rightarrow> TerminalInputDirectoryState \<times> code_units option" where
  "input_units acc [] = acc"
| "input_units acc (char # data) =
     (if char = 0x1B then
        let n = skipEscapeSequence data; (state, directory) = acc
        in input_units
             (if isBracketedPasteBoundary (char # take n data) then state else state\<lparr>tid_dirty := True\<rparr>, directory)
             (drop n data)
      else input_units (input_unit acc char) data)"
  by pat_completeness auto
termination input_units
  by (relation "measure (\<lambda>(acc, data). length data)") auto

definition applyTerminalInputDirectoryData ::
  "TerminalInputDirectoryState \<Rightarrow> code_units \<Rightarrow> code_units option \<times> TerminalInputDirectoryState" where
  "applyTerminalInputDirectoryData initialState data =
     (let (state, directory) = input_units (initialState, None) data in (directory, state))"

section \<open>The input history\<close>

definition lower_unit :: "16 word \<Rightarrow> 16 word" where
  "lower_unit u = (if 0x41 \<le> u \<and> u \<le> 0x5A then u + 0x20 else u)"

definition word_unit :: "16 word \<Rightarrow> bool" where
  "word_unit u \<longleftrightarrow> 0x41 \<le> u \<and> u \<le> 0x5A \<or> 0x61 \<le> u \<and> u \<le> 0x7A \<or> 0x30 \<le> u \<and> u \<le> 0x39 \<or> u = 0x5F"

text \<open>
  The regular expressions of \<open>isSensitiveTerminalInputCommand\<close>, each as a test of a place of the
  lower-case text: \<open>before\<close> is the text left of the place, \<open>here\<close> the text from the place on.
\<close>

definition boundary :: "code_units \<Rightarrow> code_units \<Rightarrow> bool" where
  "boundary before here \<longleftrightarrow> (before \<noteq> [] \<and> word_unit (last before)) \<noteq> (here \<noteq> [] \<and> word_unit (hd here))"

definition whole_word_at :: "string list \<Rightarrow> code_units \<Rightarrow> code_units \<Rightarrow> code_units option" where
  "whole_word_at ws before here =
     (if \<not> boundary before here then None
      else map_option (\<lambda>w. drop (length w) here)
        (find (\<lambda>w. prefix (units w) here \<and> boundary (units w) (drop (length w) here)) ws))"

definition sudo_stdin_at :: "code_units \<Rightarrow> code_units \<Rightarrow> bool" where
  "sudo_stdin_at before here \<longleftrightarrow>
     boundary before here \<and> prefix (units ''sudo'') here \<and>
     (let rest = drop 4 here; after = dropWhile is_space rest in
      rest \<noteq> after \<and> prefix (units ''-s'') after \<and> boundary (units ''-s'') (drop 2 after))"

fun password_flag :: "code_units \<Rightarrow> bool" where
  "password_flag [] = False"
| "password_flag (u # rest) =
     (is_space u \<and> prefix (units ''-p'') rest \<or> u \<noteq> 0x0A \<and> u \<noteq> 0x0D \<and> password_flag rest)"

definition assignment_at :: "code_units \<Rightarrow> code_units \<Rightarrow> bool" where
  "assignment_at before here \<longleftrightarrow>
     boundary before here \<and>
     list_ex (\<lambda>w. prefix (units w) here \<and> first_of (dropWhile is_space (drop (length w) here)) = Some 0x3D)
       [''password'', ''passwd'', ''token'', ''secret'', ''accesskey'', ''access_key'', ''access-key'']"

fun somewhere :: "(code_units \<Rightarrow> code_units \<Rightarrow> bool) \<Rightarrow> code_units \<Rightarrow> code_units \<Rightarrow> bool" where
  "somewhere test before [] = test before []"
| "somewhere test before (u # here) = (test before (u # here) \<or> somewhere test (before @ [u]) here)"

definition isSensitiveTerminalInputCommand :: "code_units \<Rightarrow> bool" where
  "isSensitiveTerminalInputCommand command =
     (let lower = map lower_unit command in
      somewhere (\<lambda>before here. whole_word_at [''passwd'', ''sshpass''] before here \<noteq> None) [] lower \<or>
      somewhere sudo_stdin_at [] lower \<or>
      somewhere (\<lambda>before here. case whole_word_at [''mysql'', ''mariadb'', ''psql'', ''redis-cli''] before here of
          None \<Rightarrow> False | Some rest \<Rightarrow> password_flag rest) [] lower \<or>
      somewhere assignment_at [] lower)"

record TerminalInputHistoryState =
  tih_buffer :: code_units
  tih_dirty :: bool

definition createTerminalInputHistoryState :: TerminalInputHistoryState where
  "createTerminalInputHistoryState = \<lparr>tih_buffer = [], tih_dirty = False\<rparr>"

definition history_unit ::
  "code_units list \<times> TerminalInputHistoryState \<Rightarrow> 16 word \<Rightarrow> code_units list \<times> TerminalInputHistoryState" where
  "history_unit = (\<lambda>(commands, state) char.
     (if char = 0x0D \<or> char = 0x0A then
        let command = (if tih_dirty state then [] else trim_units (tih_buffer state))
        in (if command \<noteq> [] \<and> \<not> isSensitiveTerminalInputCommand command then commands @ [command] else commands,
            createTerminalInputHistoryState)
      else if char = 0x08 \<or> char = 0x7F then (commands, state\<lparr>tih_buffer := butlast (tih_buffer state)\<rparr>)
      else if char < 0x20 \<or> char = 0x7F then (commands, state\<lparr>tih_dirty := True\<rparr>)
      else (commands, state\<lparr>tih_buffer := tih_buffer state @ [char]\<rparr>)))"

definition applyTerminalInputHistoryData ::
  "TerminalInputHistoryState \<Rightarrow> code_units \<Rightarrow> code_units list \<times> TerminalInputHistoryState" where
  "applyTerminalInputHistoryData state data = foldl history_unit ([], state) data"

definition isTerminalEnterInput :: "code_units \<Rightarrow> bool" where
  "isTerminalEnterInput data \<longleftrightarrow> data = [0x0D] \<or> data = [0x0A] \<or> data = [0x0D, 0x0A]"

section \<open>Paths in normal form\<close>

definition segment_ok :: "code_units \<Rightarrow> bool" where
  "segment_ok p \<longleftrightarrow> p \<noteq> [] \<and> p \<noteq> units ''.'' \<and> p \<noteq> units ''..'' \<and> 0x2F \<notin> set p \<and> 0x5C \<notin> set p"

definition canonical_directory :: "code_units \<Rightarrow> bool" where
  "canonical_directory d \<longleftrightarrow> (\<exists>parts. list_all segment_ok parts \<and> d = 0x2F # join_with [0x2F] parts)"

definition path_segments :: "code_units \<Rightarrow> code_units list" where
  "path_segments path = foldl path_segment [] (split_on 0x2F (slash_units path))"

lemma split_on_glue: "split_on c (a @ c # b) = split_on c a @ split_on c b"
proof (induction a)
  case (Cons x a)
  obtain y ys where "split_on c a = y # ys"
    by (cases "split_on c a") simp_all
  then show ?case
    using Cons by auto
qed simp

lemma slash_units_simps [simp]:
  "slash_units [] = []" "slash_units (u # s) = (if u = 0x5C then 0x2F else u) # slash_units s"
  "slash_units (s @ t) = slash_units s @ slash_units t"
  by (simp_all add: slash_units_def)

lemma slash_units_id: "0x5C \<notin> set s \<Longrightarrow> slash_units s = s"
  by (induction s) auto

lemma backslash_free: "0x5C \<notin> set (slash_units s)"
  by (induction s) auto

lemma path_segments_glue: "path_segments (a @ 0x2F # b) = foldl path_segment (path_segments a) (split_on 0x2F (slash_units b))"
  by (simp add: path_segments_def split_on_glue)

lemma path_segment_ok:
  "list_all segment_ok parts \<Longrightarrow> 0x2F \<notin> set part \<Longrightarrow> 0x5C \<notin> set part \<Longrightarrow> list_all segment_ok (path_segment parts part)"
  by (auto simp: path_segment_def segment_ok_def list_all_iff dest: in_set_butlastD)

lemma fold_segments_ok:
  "list_all segment_ok parts \<Longrightarrow> \<forall>p \<in> set ps. 0x2F \<notin> set p \<and> 0x5C \<notin> set p \<Longrightarrow> list_all segment_ok (foldl path_segment parts ps)"
  by (induction ps arbitrary: parts) (auto simp: path_segment_ok)

lemma fold_ok_segments: "list_all segment_ok ps \<Longrightarrow> foldl path_segment parts ps = parts @ ps"
  by (induction ps arbitrary: parts) (auto simp: path_segment_def segment_ok_def)

lemma split_on_subset: "p \<in> set (split_on c s) \<Longrightarrow> set p \<subseteq> set s"
  by (induction s arbitrary: p) (auto split: if_splits list.splits, blast+)

lemma path_segments_ok: "list_all segment_ok (path_segments path)"
  unfolding path_segments_def
proof (rule fold_segments_ok)
  show "\<forall>p \<in> set (split_on 0x2F (slash_units path)). 0x2F \<notin> set p \<and> 0x5C \<notin> set p"
    using split_on_free split_on_subset backslash_free by fastforce
qed simp

lemma normalizeAbsolutePath_segments: "normalizeAbsolutePath path = 0x2F # join_with [0x2F] (path_segments path)"
  by (simp add: normalizeAbsolutePath_def path_segments_def)

lemma canonical_normalizeAbsolutePath [simp]: "canonical_directory (normalizeAbsolutePath path)"
  unfolding canonical_directory_def normalizeAbsolutePath_segments using path_segments_ok by blast

lemma backslash_free_join: "list_all segment_ok parts \<Longrightarrow> 0x5C \<notin> set (join_with [0x2F] parts)"
  by (induction "[0x2F :: 16 word]" parts rule: join_with.induct) (auto simp: segment_ok_def)

lemma path_segments_canonical:
  assumes "list_all segment_ok parts"
  shows "path_segments (0x2F # join_with [0x2F] parts) = parts"
proof -
  have "split_on 0x2F (slash_units (0x2F # join_with [0x2F] parts)) = [] # (if parts = [] then [[]] else parts)"
    using assms backslash_free_join [OF assms] split_on_join [of parts "0x2F"]
    by (auto simp: slash_units_id segment_ok_def list_all_iff)
  then show ?thesis
    using fold_ok_segments [OF assms, of "[]"] by (auto simp: path_segments_def path_segment_def)
qed

lemma path_segments_normalize [simp]: "path_segments (normalizeAbsolutePath path) = path_segments path"
  unfolding normalizeAbsolutePath_segments [of path] by (rule path_segments_canonical [OF path_segments_ok])

lemma normalizeAbsolutePath_canonical: "canonical_directory d \<Longrightarrow> normalizeAbsolutePath d = d"
  using path_segments_canonical by (auto simp: canonical_directory_def normalizeAbsolutePath_segments)

lemma normalizeAbsolutePath_glue:
  "normalizeAbsolutePath (normalizeAbsolutePath a @ 0x2F # b) = normalizeAbsolutePath (a @ 0x2F # b)"
  by (simp add: normalizeAbsolutePath_segments [of "_ @ _"] path_segments_glue)

lemma canonical_nonempty: "canonical_directory d \<Longrightarrow> d \<noteq> []"
  by (auto simp: canonical_directory_def)

text \<open>A token that is a relative path for the shell.\<close>

definition relative_token :: "code_units \<Rightarrow> bool" where
  "relative_token t \<longleftrightarrow> t \<noteq> units ''-'' \<and> \<not> prefix (units ''~'') t \<and> \<not> prefix (units ''/'') t"

lemma resolve_relative:
  assumes "relative_token t" "d \<noteq> []"
  shows "resolveDirectoryToken t (Some d) home = Some (normalizeAbsolutePath (d @ 0x2F # t))"
proof -
  have "\<not> prefix (units ''~/'') t" "t \<noteq> units ''~''"
    using assms(1) by (auto simp: relative_token_def units_def prefix_def)
  then show ?thesis
    using assms by (simp add: resolveDirectoryToken_def relative_token_def units_def)
qed

text \<open>
  Following relative \<open>cd\<close> commands one after the other leads to the directory that the whole path
  names, in normal form: no empty, \<open>.\<close> or \<open>..\<close> segment and no backslash.
\<close>

theorem cd_steps_compose:
  assumes "\<forall>t \<in> set ts. relative_token t" "ts \<noteq> []" "d \<noteq> []"
  shows "foldl (\<lambda>dir t. resolveDirectoryToken t dir home) (Some d) ts = Some (normalizeAbsolutePath (join_with [0x2F] (d # ts))) \<and>
    canonical_directory (normalizeAbsolutePath (join_with [0x2F] (d # ts)))"
proof -
  have "foldl (\<lambda>dir t. resolveDirectoryToken t dir home) (Some d) ts = Some (normalizeAbsolutePath (join_with [0x2F] (d # ts)))"
    using assms
  proof (induction ts rule: rev_induct)
    case (snoc t ts)
    show ?case
    proof (cases "ts = []")
      case True
      then show ?thesis
        using snoc.prems by (simp add: resolve_relative)
    next
      case False
      let ?path = "join_with [0x2F] (d # ts)"
      have "normalizeAbsolutePath ?path \<noteq> []"
        using canonical_nonempty canonical_normalizeAbsolutePath by blast
      then have "foldl (\<lambda>dir t. resolveDirectoryToken t dir home) (Some d) (ts @ [t]) =
          Some (normalizeAbsolutePath (normalizeAbsolutePath ?path @ 0x2F # t))"
        using snoc False by (simp add: resolve_relative)
      also have "\<dots> = Some (normalizeAbsolutePath (?path @ 0x2F # t))"
        by (simp add: normalizeAbsolutePath_glue)
      also have "?path @ 0x2F # t = join_with [0x2F] (d # (ts @ [t]))"
        using join_with_snoc [of "d # ts" "[0x2F]" t] by simp
      finally show ?thesis .
    qed
  qed simp
  then show ?thesis
    by simp
qed

theorem cd_steps_compose_witness:
  "foldl (\<lambda>dir t. resolveDirectoryToken t dir None) (Some (units ''/var'')) [units ''log'', units ''..'', units ''./lib''] =
   Some (units ''/var/lib'')"
proof -
  have "\<forall>t \<in> set [units ''log'', units ''..'', units ''./lib'']. relative_token t"
    by (simp add: relative_token_def units_def)
  moreover have "normalizeAbsolutePath (join_with [0x2F] [units ''/var'', units ''log'', units ''..'', units ''./lib'']) =
      units ''/var/lib''"
    by code_simp
  ultimately show ?thesis
    using cd_steps_compose [of "[units ''log'', units ''..'', units ''./lib'']" "units ''/var''" None] by (simp add: units_def)
qed

section \<open>Words of a command\<close>

definition safe_unit :: "16 word \<Rightarrow> bool" where
  "safe_unit u \<longleftrightarrow> \<not> is_space u \<and> u \<noteq> 0x27 \<and> u \<noteq> 0x22 \<and> u \<noteq> 0x5C"

text \<open>A word the way a user types it: as it is, or in single quotes when it has special characters.\<close>

definition shell_word :: "code_units \<Rightarrow> code_units" where
  "shell_word w = (if list_all safe_unit w then w else 0x27 # w @ [0x27])"

definition word_ok :: "code_units \<Rightarrow> bool" where
  "word_ok w \<longleftrightarrow> w \<noteq> [] \<and> 0x27 \<notin> set w"

lemma tokenize_safe: "list_all safe_unit w \<Longrightarrow> tokenize None token tokens (w @ rest) = tokenize None (token @ w) tokens rest"
  by (induction w arbitrary: token) (auto simp: safe_unit_def)

lemma tokenize_quoted:
  "0x27 \<notin> set w \<Longrightarrow> tokenize (Some 0x27) token tokens (w @ 0x27 # rest) = tokenize None (token @ w) tokens rest"
  by (induction w arbitrary: token) auto

lemma tokenize_word: "word_ok w \<Longrightarrow> tokenize None token tokens (shell_word w @ rest) = tokenize None (token @ w) tokens rest"
  using tokenize_safe tokenize_quoted by (auto simp: shell_word_def word_ok_def)

lemma tokenize_words:
  assumes "\<forall>w \<in> set ws. word_ok w" "ws \<noteq> []"
  shows "tokenize None [] tokens (join_with [0x20] (map shell_word ws)) = Some (tokens @ ws)"
  using assms
proof (induction ws arbitrary: tokens)
  case (Cons w ws)
  have word: "word_ok w" "w \<noteq> []"
    using Cons.prems by (auto simp: word_ok_def)
  show ?case
  proof (cases ws)
    case Nil
    then show ?thesis
      using tokenize_word [OF word(1), of "[]" tokens "[]"] word(2) by simp
  next
    case (Cons v vs)
    have "is_space 0x20"
      by (simp add: is_space_def js_space_units_def)
    then have "tokenize None [] tokens (join_with [0x20] (map shell_word (w # ws))) =
        tokenize None [] (tokens @ [w]) (join_with [0x20] (map shell_word ws))"
      using tokenize_word [OF word(1), of "[]" tokens "0x20 # join_with [0x20] (map shell_word ws)"] word(2) Cons by simp
    then show ?thesis
      using Cons.IH Cons.prems \<open>ws = v # vs\<close> by simp
  qed
qed simp

lemma shell_word_ends:
  assumes "word_ok w"
  shows "shell_word w \<noteq> [] \<and> \<not> is_space (hd (shell_word w)) \<and> \<not> is_space (last (shell_word w))"
proof -
  have "\<not> is_space 0x27"
    by (simp add: is_space_def js_space_units_def)
  moreover have "\<not> is_space (hd w) \<and> \<not> is_space (last w)" if "list_all safe_unit w"
    using that assms by (auto simp: list_all_iff safe_unit_def word_ok_def)
  ultimately show ?thesis
    using assms by (auto simp: shell_word_def word_ok_def)
qed

lemma join_ends:
  assumes "xs \<noteq> []" "\<forall>x \<in> set xs. x \<noteq> []"
  shows "join_with sep xs \<noteq> []" "hd (join_with sep xs) = hd (hd xs)" "last (join_with sep xs) = last (last xs)"
  using assms by (induction sep xs rule: join_with.induct) auto

lemma command_trimmed:
  assumes "\<forall>w \<in> set ws. word_ok w" "ws \<noteq> []"
  shows "trim_units (join_with [0x20] (map shell_word ws)) = join_with [0x20] (map shell_word ws)"
    "join_with [0x20] (map shell_word ws) \<noteq> []"
proof -
  have ne: "map shell_word ws \<noteq> []" "\<forall>x \<in> set (map shell_word ws). x \<noteq> []"
    using assms shell_word_ends by auto
  have "\<not> is_space (hd (hd (map shell_word ws)))" "\<not> is_space (last (last (map shell_word ws)))"
    using assms shell_word_ends by (auto simp: hd_map last_map)
  then show "trim_units (join_with [0x20] (map shell_word ws)) = join_with [0x20] (map shell_word ws)"
    by (intro trim_units_id) (simp add: join_ends [OF ne])
  show "join_with [0x20] (map shell_word ws) \<noteq> []"
    by (rule join_ends(1) [OF ne])
qed

lemma command_words:
  assumes "\<forall>w \<in> set ws. word_ok w" "ws \<noteq> []"
  shows "tokenizeCommand (trim_units (join_with [0x20] (map shell_word ws))) = Some ws"
  using command_trimmed [OF assms] tokenize_words [OF assms, of "[]"] by (simp add: tokenizeCommand_def)

text \<open>
  Splitting a command into words undoes quoting: words that are typed with single quotes around
  special characters come back unchanged.
\<close>

theorem command_words_roundtrip:
  assumes "\<forall>w \<in> set ws. word_ok w" "ws \<noteq> []"
  shows "tokenizeCommand (trim_units (join_with [0x20] (map shell_word ws))) = Some ws"
  using assms by (rule command_words)

theorem command_words_roundtrip_witness:
  "tokenizeCommand (trim_units (units ''cd '' @ [0x27] @ units ''/srv/my files'' @ [0x27])) = Some [units ''cd'', units ''/srv/my files'']"
proof -
  let ?ws = "[units ''cd'', units ''/srv/my files'']"
  have "\<forall>w \<in> set ?ws. word_ok w"
    by (simp add: word_ok_def units_def)
  moreover have "join_with [0x20] (map shell_word ?ws) = units ''cd '' @ [0x27] @ units ''/srv/my files'' @ [0x27]"
    by code_simp
  ultimately show ?thesis
    using command_words_roundtrip [of ?ws] by simp
qed

section \<open>Typing\<close>

definition plain_unit :: "16 word \<Rightarrow> bool" where
  "plain_unit u \<longleftrightarrow> 0x20 \<le> u \<and> u \<noteq> 0x7F"

lemma input_plain:
  assumes "plain_unit u" "length (tid_line state) < maxTrackedLineLength"
  shows "input_units (state, d) (u # rest) = input_units (state\<lparr>tid_line := tid_line state @ [u]\<rparr>, d) rest"
proof -
  have "u \<noteq> 0x1B" "u \<noteq> 0x0D" "u \<noteq> 0x0A" "u \<noteq> 0x08" "u \<noteq> 0x09" "u \<noteq> 0x7F" "\<not> u < 0x20"
    using assms(1) by (auto simp: plain_unit_def)
  moreover have "last_units maxTrackedLineLength (tid_line state @ [u]) = tid_line state @ [u]"
    using assms(2) by (simp add: last_units_def)
  ultimately show ?thesis
    by (simp add: input_unit_def isControlCharacter_def)
qed

lemma input_plain_units:
  assumes "list_all plain_unit s" "length (tid_line state) + length s \<le> maxTrackedLineLength"
  shows "input_units (state, d) (s @ rest) = input_units (state\<lparr>tid_line := tid_line state @ s\<rparr>, d) rest"
  using assms
proof (induction s arbitrary: state)
  case (Cons u s)
  then show ?case
    using input_plain [of u state d "s @ rest"] by simp
qed simp

text \<open>
  Typing \<open>cd\<close> with a quoted absolute path on an empty line and pressing Enter reports exactly the
  normalised path, remembers it and clears the line.
\<close>

theorem typed_cd_is_tracked:
  assumes "word_ok path" "prefix (units ''/'') path" "list_all plain_unit path" "length path \<le> 4000"
    and "\<not> tid_dirty state" "tid_line state = []"
  shows "applyTerminalInputDirectoryData state (units ''cd '' @ shell_word path @ [0x0D]) =
    (Some (normalizeAbsolutePath path), state\<lparr>tid_directory := Some (normalizeAbsolutePath path)\<rparr>)"
proof -
  let ?ws = "[units ''cd'', path]" and ?line = "units ''cd '' @ shell_word path"
  have ws: "\<forall>w \<in> set ?ws. word_ok w"
    using assms(1) by (auto simp: word_ok_def units_def)
  have line: "join_with [0x20] (map shell_word ?ws) = ?line"
    by (simp add: shell_word_def units_def safe_unit_def is_space_def js_space_units_def)
  have "tokenizeCommand (trim_units ?line) = Some ?ws"
    using command_words [OF ws] unfolding line by simp
  moreover have "resolveDirectoryToken path dir home = Some (normalizeAbsolutePath path)" for dir home
    using assms(2) by (auto simp: resolveDirectoryToken_def units_def prefix_def)
  moreover have "path \<noteq> units ''--''"
    using assms(2) by (auto simp: units_def prefix_def)
  ultimately have cd: "resolveCdCommand ?line dir home = Some (normalizeAbsolutePath path)" for dir home
    by (simp add: resolveCdCommand_def nth_opt_def)
  have "list_all plain_unit ?line" "length ?line \<le> maxTrackedLineLength"
    using assms(3,4) by (auto simp: shell_word_def units_def plain_unit_def maxTrackedLineLength_def)
  then have "input_units (state, None) (?line @ [0x0D]) = input_units (state\<lparr>tid_line := ?line\<rparr>, None) [0x0D]"
    using input_plain_units [of ?line state None "[0x0D]"] assms(6) by simp
  also have "\<dots> = (state\<lparr>tid_directory := Some (normalizeAbsolutePath path)\<rparr>, Some (normalizeAbsolutePath path))"
    using assms(5,6) cd canonical_nonempty [OF canonical_normalizeAbsolutePath, of path] by (simp add: input_unit_def)
  finally show ?thesis
    by (simp add: applyTerminalInputDirectoryData_def)
qed

theorem typed_cd_is_tracked_witness:
  "applyTerminalInputDirectoryData (createTerminalInputDirectoryState None None) (units ''cd /tmp/../var'' @ [0x0D]) =
   (Some (units ''/var''), createTerminalInputDirectoryState (Some (units ''/var'')) None)"
proof -
  have "shell_word (units ''/tmp/../var'') = units ''/tmp/../var''" "normalizeAbsolutePath (units ''/tmp/../var'') = units ''/var''"
    by code_simp+
  moreover have "word_ok (units ''/tmp/../var'')" "prefix (units ''/'') (units ''/tmp/../var'')"
      "list_all plain_unit (units ''/tmp/../var'')"
    by code_simp+
  ultimately show ?thesis
    using typed_cd_is_tracked [of "units ''/tmp/../var''" "createTerminalInputDirectoryState None None"]
    by (simp add: createTerminalInputDirectoryState_def units_def)
qed

section \<open>Every reported directory is in normal form\<close>

definition found_ok :: "code_units option \<Rightarrow> bool" where
  "found_ok d \<longleftrightarrow> (case d of None \<Rightarrow> True | Some d \<Rightarrow> canonical_directory d)"

lemma found_ok_simps [simp]: "found_ok None" "found_ok (Some d) \<longleftrightarrow> canonical_directory d"
  by (simp_all add: found_ok_def)

definition input_ok :: "TerminalInputDirectoryState \<Rightarrow> bool" where
  "input_ok state \<longleftrightarrow> found_ok (tid_homeDirectory state) \<and> length (tid_line state) \<le> maxTrackedLineLength"

lemma resolveDirectoryToken_ok: "found_ok home \<Longrightarrow> found_ok (resolveDirectoryToken t dir home)"
  by (auto simp: resolveDirectoryToken_def found_ok_def split: option.splits)

lemma resolveCdCommand_ok: "found_ok home \<Longrightarrow> found_ok (resolveCdCommand line dir home)"
  using resolveDirectoryToken_ok [of home] by (simp add: resolveCdCommand_def Let_def split: option.split)

lemma input_unit_ok:
  assumes "input_ok state" "found_ok d" "input_unit (state, d) u = (state', d')"
  shows "input_ok state' \<and> found_ok d'"
proof (cases "u = 0x0D \<or> u = 0x0A")
  case True
  then show ?thesis
    using assms resolveCdCommand_ok [of "tid_homeDirectory state" "tid_line state" "tid_directory state"]
    by (auto simp: input_unit_def input_ok_def found_ok_def Let_def maxTrackedLineLength_def split: option.splits if_splits)
next
  case False
  then show ?thesis
    using assms by (auto simp: input_unit_def input_ok_def last_units_def split: if_splits)
qed

lemma input_units_ok:
  assumes "input_ok (fst acc)" "found_ok (snd acc)"
  shows "input_ok (fst (input_units acc data)) \<and> found_ok (snd (input_units acc data))"
  using assms
proof (induction acc data rule: input_units.induct)
  case (2 acc u data)
  obtain state d where acc: "acc = (state, d)"
    by (cases acc)
  show ?case
  proof (cases "u = 0x1B")
    case True
    then show ?thesis
      using "2.IH"(1) [OF True refl refl acc [symmetric]] "2.prems" acc by (simp add: input_ok_def Let_def)
  next
    case False
    obtain state' d' where step: "input_unit acc u = (state', d')"
      by (cases "input_unit acc u")
    then show ?thesis
      using "2.IH"(2) [OF False] "2.prems" False input_unit_ok [of state d u state' d'] acc by simp
  qed
qed simp

lemma apply_input_ok:
  assumes "input_ok state"
  shows "input_ok (snd (applyTerminalInputDirectoryData state data)) \<and> found_ok (fst (applyTerminalInputDirectoryData state data))"
  using input_units_ok [of "(state, None)" data] assms
  by (auto simp: applyTerminalInputDirectoryData_def found_ok_def split: prod.splits)

interpretation terminal_input: reducer "\<lambda>state data. snd (applyTerminalInputDirectoryData state data)" input_ok
  by unfold_locales (simp add: apply_input_ok)

lemma plain_name: "name_unit u \<Longrightarrow> u \<noteq> 0x2F \<and> u \<noteq> 0x5C"
  by (auto simp: name_unit_def)

lemma inferred_found_ok:
  assumes "\<And>u. username = Some u \<Longrightarrow> trim_units u \<noteq> units ''.'' \<and> trim_units u \<noteq> units ''..''"
  shows "found_ok (inferRemoteHomeDirectory username)"
proof (cases username)
  case (Some u)
  let ?name = "trim_units u"
  have ok: "list_all segment_ok [units ''home'', ?name]" if "?name \<noteq> []" "list_all name_unit ?name"
    using that assms [OF Some] plain_name by (auto simp: segment_ok_def list_all_iff units_def)
  have "canonical_directory (units ''/home/'' @ ?name)" if "?name \<noteq> []" "list_all name_unit ?name"
    unfolding canonical_directory_def using ok [OF that] by (intro exI [of _ "[units ''home'', ?name]"]) (simp add: units_def)
  moreover have "canonical_directory (units ''/root'')"
    unfolding canonical_directory_def by (intro exI [of _ "[units ''root'']"]) (simp add: units_def segment_ok_def)
  ultimately show ?thesis
    using Some by (auto simp: inferRemoteHomeDirectory_def Let_def)
qed (simp add: inferRemoteHomeDirectory_def)

text \<open>
  Whatever is typed, in however many pieces it arrives, every directory reported from the
  keyboard is an absolute path in normal form and the tracked line never exceeds its bound; the
  user name may be any but \<open>.\<close> and \<open>..\<close>.
\<close>

theorem tracked_directory_canonical:
  fixes username dir :: "code_units option" and chunks :: "code_units list" and data :: code_units
  assumes "\<And>u. username = Some u \<Longrightarrow> trim_units u \<noteq> units ''.'' \<and> trim_units u \<noteq> units ''..''"
  defines "state \<equiv> foldl (\<lambda>state data. snd (applyTerminalInputDirectoryData state data))
    (createTerminalInputDirectoryState dir (inferRemoteHomeDirectory username)) chunks"
  shows "length (tid_line state) \<le> 4096 \<and>
    (case fst (applyTerminalInputDirectoryData state data) of None \<Rightarrow> True | Some d \<Rightarrow> canonical_directory d)"
proof -
  have "input_ok (createTerminalInputDirectoryState dir (inferRemoteHomeDirectory username))"
    using inferred_found_ok [OF assms(1)] by (simp add: input_ok_def createTerminalInputDirectoryState_def)
  then have "input_ok state"
    unfolding state_def by (rule terminal_input.run_invar)
  then show ?thesis
    using apply_input_ok [of state data] by (simp add: input_ok_def found_ok_def maxTrackedLineLength_def)
qed

section \<open>Chunks\<close>

lemma input_unit_found: "input_unit (state, d) u = (fst (input_unit (state, None) u), coalesce (snd (input_unit (state, None) u)) d)"
  by (auto simp: input_unit_def Let_def split: option.splits)

lemma coalesce_assoc: "coalesce (coalesce a b) c = coalesce a (coalesce b c)"
  by (cases a) simp_all

lemma input_units_found:
  "input_units (state, d) data = (fst (input_units (state, None) data), coalesce (snd (input_units (state, None) data)) d)"
proof (induction data arbitrary: state d rule: length_induct)
  case (1 data)
  show ?case
  proof (cases data)
    case (Cons u rest)
    obtain state' d' where step: "input_unit (state, None) u = (state', d')"
      by (cases "input_unit (state, None) u")
    then have step': "input_unit (state, d) u = (state', coalesce d' d)"
      using input_unit_found [of state d u] by simp
    have rest: "input_units (st, e) xs = (fst (input_units (st, None) xs), coalesce (snd (input_units (st, None) xs)) e)"
      if "length xs \<le> length rest" for st e xs
      using that "1.IH" [rule_format, of xs st e] Cons by simp
    show ?thesis
    proof (cases "u = 0x1B")
      case True
      then show ?thesis
        using Cons rest [of "drop (skipEscapeSequence rest) rest" _ d] by (simp add: Let_def)
    next
      case False
      then show ?thesis
        using Cons step step' rest [of rest state' "coalesce d' d"] rest [of rest state' d'] by (simp add: coalesce_assoc)
    qed
  qed simp
qed

lemma input_units_append: "0x1B \<notin> set a \<Longrightarrow> input_units acc (a @ b) = input_units (input_units acc a) b"
  by (induction a arbitrary: acc) auto

text \<open>
  Typed text without escape sequences may arrive in pieces of any size: reading them one after
  the other leaves the same state and reports the same last directory.
\<close>

theorem typed_chunks_compose:
  assumes "0x1B \<notin> set a"
  shows "applyTerminalInputDirectoryData state (a @ b) =
    (let (d1, state1) = applyTerminalInputDirectoryData state a; (d2, state2) = applyTerminalInputDirectoryData state1 b
     in (coalesce d2 d1, state2))"
proof -
  obtain state1 d1 where a: "input_units (state, None) a = (state1, d1)"
    by (cases "input_units (state, None) a")
  then have "input_units (state, None) (a @ b) =
      (fst (input_units (state1, None) b), coalesce (snd (input_units (state1, None) b)) d1)"
    using input_units_append [OF assms, of "(state, None)" b] input_units_found [of state1 d1 b] by simp
  then show ?thesis
    using a by (simp add: applyTerminalInputDirectoryData_def split: prod.splits)
qed

theorem typed_chunks_compose_witness:
  "fst (applyTerminalInputDirectoryData
     (snd (applyTerminalInputDirectoryData (createTerminalInputDirectoryState None None) (units ''cd /t''))) (units ''mp'' @ [0x0D])) =
   Some (units ''/tmp'')"
proof -
  have "applyTerminalInputDirectoryData (createTerminalInputDirectoryState None None) (units ''cd /t'' @ units ''mp'' @ [0x0D]) =
      (Some (units ''/tmp''), createTerminalInputDirectoryState (Some (units ''/tmp'')) None)"
    by code_simp
  moreover have "fst (applyTerminalInputDirectoryData (createTerminalInputDirectoryState None None) (units ''cd /t'')) = None"
    by code_simp
  moreover have "0x1B \<notin> set (units ''cd /t'')"
    by code_simp
  ultimately show ?thesis
    using typed_chunks_compose [of "units ''cd /t''" "createTerminalInputDirectoryState None None" "units ''mp'' @ [0x0D]"]
    by (auto simp: coalesce_eq_Some split: prod.splits)
qed

theorem tracked_directory_canonical_witness:
  "canonical_directory (units ''/home/ada'')"
proof -
  have "fst (applyTerminalInputDirectoryData (foldl (\<lambda>state data. snd (applyTerminalInputDirectoryData state data))
      (createTerminalInputDirectoryState None (inferRemoteHomeDirectory (Some (units ''ada'')))) [units ''c'']) (units ''d'' @ [0x0D])) =
      Some (units ''/home/ada'')"
    by code_simp
  moreover have "trim_units (units ''ada'') \<noteq> units ''.'' \<and> trim_units (units ''ada'') \<noteq> units ''..''"
    by code_simp
  ultimately show ?thesis
    using tracked_directory_canonical [of "Some (units ''ada'')" None "[units ''c'']" "units ''d'' @ [0x0D]"] by simp
qed

text \<open>
  An argument that is empty in quotes is dropped, so that \<open>cd ""\<close> is taken for a \<open>cd\<close> to the home
  directory; a shell stays where it is.
\<close>

lemma empty_argument_goes_home: "resolveTerminalInputDirectoryLine (units ''cd '' @ [0x22, 0x22]) dir home = home"
proof -
  have "tokenizeCommand (trim_units (trim_units (units ''cd '' @ [0x22, 0x22]))) = Some [units ''cd'']"
    by code_simp
  then show ?thesis
    by (simp add: resolveTerminalInputDirectoryLine_def resolveCdCommand_def nth_opt_def)
qed

section \<open>The history\<close>

lemma history_unit_prefix:
  "history_unit (cs, state) u = (cs @ fst (history_unit ([], state) u), snd (history_unit ([], state) u))"
  by (simp add: history_unit_def Let_def)

lemma history_prefix:
  "foldl history_unit (cs, state) data = (cs @ fst (foldl history_unit ([], state) data), snd (foldl history_unit ([], state) data))"
proof (induction data arbitrary: cs state)
  case (Cons u data)
  obtain new state' where step: "history_unit ([], state) u = (new, state')"
    by (cases "history_unit ([], state) u")
  then show ?case
    using Cons [of "cs @ new" state'] Cons [of new state'] history_unit_prefix [of cs state u] by simp
qed simp

lemma history_append:
  "applyTerminalInputHistoryData state (a @ b) =
    (let (c1, state1) = applyTerminalInputHistoryData state a; (c2, state2) = applyTerminalInputHistoryData state1 b
     in (c1 @ c2, state2))"
proof -
  obtain c1 state1 where a: "foldl history_unit ([], state) a = (c1, state1)"
    by (cases "foldl history_unit ([], state) a")
  then show ?thesis
    using history_prefix [of c1 state1 b] by (simp add: applyTerminalInputHistoryData_def split: prod.split)
qed

lemma history_plain:
  "list_all plain_unit s \<Longrightarrow> foldl history_unit (cs, state) s = (cs, state\<lparr>tih_buffer := tih_buffer state @ s\<rparr>)"
proof (induction s arbitrary: state)
  case (Cons u s)
  then have "u \<noteq> 0x0D" "u \<noteq> 0x0A" "u \<noteq> 0x08" "u \<noteq> 0x7F" "\<not> u < 0x20"
    by (auto simp: plain_unit_def)
  then show ?case
    using Cons by (simp add: history_unit_def)
qed simp

text \<open>
  Of the lines typed into a terminal the history records, in order and trimmed, exactly those
  that are not blank and not sensitive.
\<close>

theorem history_records_typed_lines:
  assumes "\<forall>l \<in> set ls. list_all plain_unit l"
  shows "applyTerminalInputHistoryData createTerminalInputHistoryState (concat (map (\<lambda>l. l @ [0x0D]) ls)) =
    (filter (\<lambda>c. c \<noteq> [] \<and> \<not> isSensitiveTerminalInputCommand c) (map trim_units ls), createTerminalInputHistoryState)"
  using assms
proof (induction ls)
  case Nil
  then show ?case
    by (simp add: applyTerminalInputHistoryData_def)
next
  case (Cons l ls)
  have "applyTerminalInputHistoryData createTerminalInputHistoryState (l @ [0x0D]) =
      (filter (\<lambda>c. c \<noteq> [] \<and> \<not> isSensitiveTerminalInputCommand c) [trim_units l], createTerminalInputHistoryState)"
    using Cons.prems history_plain [of l "[]" createTerminalInputHistoryState]
    by (simp add: applyTerminalInputHistoryData_def history_unit_def createTerminalInputHistoryState_def)
  then show ?case
    using Cons history_append [of createTerminalInputHistoryState "l @ [0x0D]"] by (simp split: if_splits)
qed

theorem history_records_typed_lines_witness:
  "fst (applyTerminalInputHistoryData createTerminalInputHistoryState (units '' ls'' @ [0x0D, 0x0D])) = [units ''ls'']"
proof -
  let ?ls = "[units '' ls'', []]"
  have "\<forall>l \<in> set ?ls. list_all plain_unit l"
    by code_simp
  moreover have "filter (\<lambda>c. c \<noteq> [] \<and> \<not> isSensitiveTerminalInputCommand c) (map trim_units ?ls) = [units ''ls'']"
    by code_simp
  ultimately show ?thesis
    using history_records_typed_lines [of ?ls] by simp
qed

text \<open>
  The test for sensitive commands asks for a word boundary before the name, and an underscore is
  no boundary: an assignment to a variable such as \<open>A_TOKEN\<close> is recorded in the history.
\<close>

theorem history_records_prefixed_secret:
  "isSensitiveTerminalInputCommand (units ''token=1'') \<and>
   applyTerminalInputHistoryData createTerminalInputHistoryState (units ''a_token=1'' @ [0x0D]) =
     ([units ''a_token=1''], createTerminalInputHistoryState)"
proof -
  have "isSensitiveTerminalInputCommand (units ''token=1'')" "\<not> isSensitiveTerminalInputCommand (units ''a_token=1'')"
    by code_simp+
  moreover have "trim_units (units ''a_token=1'') = units ''a_token=1''" "list_all plain_unit (units ''a_token=1'')"
    by code_simp+
  ultimately show ?thesis
    using history_plain [of "units ''a_token=1''" "[]" createTerminalInputHistoryState]
    by (simp add: applyTerminalInputHistoryData_def history_unit_def createTerminalInputHistoryState_def units_def)
qed

end
