(* ===== verification/Terminal_Osc.thy ===== *)
theory Terminal_Osc
  imports Terminal_Input
begin

text \<open>
  The working directory a shell reports in its output with the control sequence OSC 7
  (\<open>src/features/terminal/osc7.ts\<close>), and how the terminal panel joins it with the directory it tracks
  from the keyboard (\<open>writeDecodedOutput\<close> and the data listener of \<open>TerminalPanel.tsx\<close>).
\<close>

section \<open>Decoding of URIs\<close>

text \<open>
  \<open>decodeURIComponent\<close> as the language defines it: escapes of one to four octets that must be the
  UTF-8 form of one code point; \<open>None\<close> is the \<open>URIError\<close>.
\<close>

definition hex_digit :: "16 word \<Rightarrow> int option" where
  "hex_digit u =
     (if 0x30 \<le> u \<and> u \<le> 0x39 then Some (uint u - 48)
      else if 0x41 \<le> u \<and> u \<le> 0x46 then Some (uint u - 55)
      else if 0x61 \<le> u \<and> u \<le> 0x66 then Some (uint u - 87)
      else None)"

fun read_octet :: "code_units \<Rightarrow> (int \<times> code_units) option" where
  "read_octet (p # h # l # rest) =
     (if p \<noteq> 0x25 then None
      else case (hex_digit h, hex_digit l) of (Some a, Some b) \<Rightarrow> Some (16 * a + b, rest) | _ \<Rightarrow> None)"
| "read_octet _ = None"

fun read_octets :: "nat \<Rightarrow> code_units \<Rightarrow> (int list \<times> code_units) option" where
  "read_octets 0 s = Some ([], s)"
| "read_octets (Suc n) s =
     (case read_octet s of
        None \<Rightarrow> None
      | Some (b, rest) \<Rightarrow> map_option (\<lambda>(bs, rest). (b # bs, rest)) (read_octets n rest))"

text \<open>The number of octets that a first octet announces; \<open>None\<close> for one that cannot come first.\<close>

definition octet_count :: "int \<Rightarrow> nat option" where
  "octet_count b =
     (if b < 0x80 then Some 1 else if b < 0xC0 then None else if b < 0xE0 then Some 2
      else if b < 0xF0 then Some 3 else if b < 0xF8 then Some 4 else None)"

definition code_point :: "int list \<Rightarrow> int option" where
  "code_point bs =
     (if \<not> list_all (\<lambda>b. 0x80 \<le> b \<and> b < 0xC0) (tl bs) then None
      else case bs of
          [a] \<Rightarrow> Some a
        | [a, b] \<Rightarrow> (let v = (a - 0xC0) * 64 + (b - 128) in if 0x80 \<le> v then Some v else None)
        | [a, b, c] \<Rightarrow>
            (let v = (a - 0xE0) * 4096 + (b - 128) * 64 + (c - 128)
             in if 0x800 \<le> v \<and> \<not> (0xD800 \<le> v \<and> v \<le> 0xDFFF) then Some v else None)
        | [a, b, c, d] \<Rightarrow>
            (let v = (a - 0xF0) * 262144 + (b - 128) * 4096 + (c - 128) * 64 + (d - 128)
             in if 0x10000 \<le> v \<and> v \<le> 0x10FFFF then Some v else None)
        | _ \<Rightarrow> None)"

definition utf16_units :: "int \<Rightarrow> code_units" where
  "utf16_units v =
     (if v < 0x10000 then [word_of_int v]
      else [word_of_int (0xD800 + (v - 0x10000) div 1024), word_of_int (0xDC00 + (v - 0x10000) mod 1024)])"

definition read_escape :: "code_units \<Rightarrow> (code_units \<times> code_units) option" where
  "read_escape s =
     (case read_octet s of
        None \<Rightarrow> None
      | Some (b, rest) \<Rightarrow>
          (case octet_count b of
             None \<Rightarrow> None
           | Some n \<Rightarrow>
               (case read_octets (n - 1) rest of
                  None \<Rightarrow> None
                | Some (bs, rest) \<Rightarrow> map_option (\<lambda>v. (utf16_units v, rest)) (code_point (b # bs)))))"

lemma read_octet_shorter: "read_octet s = Some (b, rest) \<Longrightarrow> length rest < length s"
  by (induction s rule: read_octet.induct) (auto split: option.splits if_splits)

lemma read_octets_shorter: "read_octets n s = Some (bs, rest) \<Longrightarrow> length rest \<le> length s"
  by (induction n s arbitrary: bs rule: read_octets.induct) (fastforce dest: read_octet_shorter split: option.splits)+

lemma read_escape_shorter: "read_escape s = Some (us, rest) \<Longrightarrow> length rest < length s"
  by (fastforce simp: read_escape_def dest: read_octet_shorter read_octets_shorter split: option.splits)

function decodeURIComponent :: "code_units \<Rightarrow> code_units option" where
  "decodeURIComponent [] = Some []"
| "decodeURIComponent (u # s) =
     (if u \<noteq> 0x25 then map_option (Cons u) (decodeURIComponent s)
      else case read_escape (u # s) of
          None \<Rightarrow> None
        | Some (us, rest) \<Rightarrow> map_option ((@) us) (decodeURIComponent rest))"
  by pat_completeness auto
termination decodeURIComponent
  by (relation "measure length") (auto dest: read_escape_shorter)

section \<open>Reports in the output\<close>

definition osc7Prefix :: code_units where "osc7Prefix = 0x1B # units '']7;''"
definition stTerminator :: code_units where "stTerminator = [0x1B, 0x5C]"
definition maxOscBufferLength :: nat where "maxOscBufferLength = 2048"

definition chooseOscEnd :: "nat option \<Rightarrow> nat option \<Rightarrow> nat option" where
  "chooseOscEnd bellEnd stEnd =
     (case bellEnd of
        None \<Rightarrow> stEnd
      | Some b \<Rightarrow> (case stEnd of None \<Rightarrow> bellEnd | Some s \<Rightarrow> Some (min b s)))"

definition osc7PayloadToPath :: "code_units \<Rightarrow> code_units option" where
  "osc7PayloadToPath payload =
     (let v = trim_units payload in
      if v = [] then None
      else let path = (if prefix (units ''file://'') v then dropWhile (\<lambda>u. u \<noteq> 0x2F) (drop 7 v) else v)
        in Some (case decodeURIComponent path of Some p \<Rightarrow> p | None \<Rightarrow> path))"

definition found_path :: "code_units option \<Rightarrow> code_units list" where
  "found_path path = (case path of None \<Rightarrow> [] | Some p \<Rightarrow> if p = [] then [] else [p])"

function scan_osc7 :: "code_units \<Rightarrow> code_units list \<times> code_units" where
  "scan_osc7 input =
     (case index_of osc7Prefix input of
        None \<Rightarrow> ([], [])
      | Some start \<Rightarrow>
          let payload = drop (start + length osc7Prefix) input;
              stEnd = index_of stTerminator payload
          in case chooseOscEnd (index_of [0x07] payload) stEnd of
               None \<Rightarrow> ([], drop start input)
             | Some e \<Rightarrow>
                 let (paths, buffer) = scan_osc7 (drop (e + (if stEnd = Some e then length stTerminator else 1)) payload)
                 in (found_path (osc7PayloadToPath (take e payload)) @ paths, buffer))"
  by pat_completeness auto
termination scan_osc7
proof (relation "measure length", goal_cases)
  case (2 input start payload stEnd e)
  then have "start \<le> length input" "prefix osc7Prefix (drop start input)"
    using index_of_Some by blast+
  then have "0 < length input"
    by (cases input) (auto simp: osc7Prefix_def)
  with 2 show ?case
    by (auto simp: osc7Prefix_def units_def)
qed simp

declare scan_osc7.simps [simp del]

definition extractOsc7Directories :: "code_units \<Rightarrow> code_units list \<times> code_units" where
  "extractOsc7Directories input =
     (let (paths, buffer) = scan_osc7 input in (paths, last_units maxOscBufferLength buffer))"

section \<open>The panel\<close>

record directory_tracker =
  dt_osc7Buffer :: code_units
  dt_input :: TerminalInputDirectoryState
  dt_reported :: "code_units list"

definition empty_tracker :: directory_tracker where
  "empty_tracker = \<lparr>dt_osc7Buffer = [], dt_input = createTerminalInputDirectoryState None None, dt_reported = []\<rparr>"

definition report_path :: "directory_tracker \<Rightarrow> code_units \<Rightarrow> directory_tracker" where
  "report_path dt path =
     dt\<lparr>dt_input := (dt_input dt)\<lparr>tid_directory := Some path\<rparr>, dt_reported := dt_reported dt @ [path]\<rparr>"

definition track_output :: "directory_tracker \<Rightarrow> code_units \<Rightarrow> directory_tracker" where
  "track_output dt decoded =
     (let (paths, buffer) = extractOsc7Directories (dt_osc7Buffer dt @ decoded)
      in foldl report_path (dt\<lparr>dt_osc7Buffer := buffer\<rparr>) paths)"

definition track_input :: "directory_tracker \<Rightarrow> code_units \<Rightarrow> directory_tracker" where
  "track_input dt data =
     (let (directory, state) = applyTerminalInputDirectoryData (dt_input dt) data; dt = dt\<lparr>dt_input := state\<rparr>
      in case directory of None \<Rightarrow> dt | Some d \<Rightarrow> dt\<lparr>dt_reported := dt_reported dt @ [d]\<rparr>)"

definition reset_tracker :: "code_units option \<Rightarrow> directory_tracker \<Rightarrow> directory_tracker" where
  "reset_tracker homeDirectory dt =
     dt\<lparr>dt_osc7Buffer := [], dt_input := createTerminalInputDirectoryState None homeDirectory\<rparr>"

section \<open>Output in pieces\<close>

lemma index_of_skip:
  assumes "\<And>i. i < length a \<Longrightarrow> \<not> prefix pat (drop i (a @ b))"
  shows "index_of pat (a @ b) = map_option ((+) (length a)) (index_of pat b)"
  using assms
proof (induction a)
  case (Cons x a)
  have "\<not> prefix pat (x # a @ b)" "\<And>i. i < length a \<Longrightarrow> \<not> prefix pat (drop i (a @ b))"
    using Cons.prems [of 0] Cons.prems [of "Suc i" for i] by auto
  then show ?case
    using Cons.IH by (cases "index_of pat b") auto
qed (cases "index_of pat b"; simp)

lemma choose_append:
  assumes "chooseOscEnd (index_of [0x07] p) (index_of stTerminator p) = Some e"
  shows "chooseOscEnd (index_of [0x07] (p @ b)) (index_of stTerminator (p @ b)) = Some e"
    and "index_of stTerminator (p @ b) = Some e \<longleftrightarrow> index_of stTerminator p = Some e"
    and "e + (if index_of stTerminator p = Some e then length stTerminator else 1) \<le> length p"
proof -
  have fits: "i + length pat \<le> length s" if "index_of pat s = Some i" for pat s :: code_units and i
    using index_of_Some [OF that] prefix_length_le by fastforce
  have conflict: "\<not> (prefix [0x07] (drop i s) \<and> prefix stTerminator (drop i s))" for i and s :: code_units
    by (auto simp: stTerminator_def prefix_def)
  consider (both) x y where "index_of [0x07] p = Some x" "index_of stTerminator p = Some y" "e = min x y"
    | (bell) "index_of [0x07] p = Some e" "index_of stTerminator p = None"
    | (st) "index_of [0x07] p = None" "index_of stTerminator p = Some e"
    using assms by (auto simp: chooseOscEnd_def split: option.splits)
  then have all: "chooseOscEnd (index_of [0x07] (p @ b)) (index_of stTerminator (p @ b)) = Some e \<and>
      (index_of stTerminator (p @ b) = Some e \<longleftrightarrow> index_of stTerminator p = Some e) \<and>
      e + (if index_of stTerminator p = Some e then length stTerminator else 1) \<le> length p"
  proof cases
    case both
    then show ?thesis
      using index_of_append [of "[0x07]" p x b] index_of_append [of stTerminator p y b] fits [OF both(1)] fits [OF both(2)]
      by (auto simp: chooseOscEnd_def)
  next
    case bell
    have later: "e < y" if "index_of stTerminator (p @ b) = Some y" for y
    proof -
      have "length p < y + 2"
        using index_of_later [OF bell(2) that] by (simp add: stTerminator_def)
      moreover have "y \<noteq> e"
        using conflict [of e "p @ b"] index_of_Some [OF index_of_append [OF bell(1), of b]] index_of_Some [OF that] by auto
      ultimately show ?thesis
        using fits [OF bell(1)] by simp
    qed
    then show ?thesis
      using index_of_append [OF bell(1), of b] bell(2) fits [OF bell(1)]
      by (cases "index_of stTerminator (p @ b)") (auto simp: chooseOscEnd_def)
  next
    case st
    have later: "e < x" if "index_of [0x07] (p @ b) = Some x" for x
      using index_of_later [OF st(1) that] fits [OF st(2)] by (simp add: stTerminator_def)
    then show ?thesis
      using index_of_append [OF st(2), of b] st(2) fits [OF st(2)]
      by (cases "index_of [0x07] (p @ b)") (auto simp: chooseOscEnd_def)
  qed
  then show "chooseOscEnd (index_of [0x07] (p @ b)) (index_of stTerminator (p @ b)) = Some e"
    "index_of stTerminator (p @ b) = Some e \<longleftrightarrow> index_of stTerminator p = Some e"
    "e + (if index_of stTerminator p = Some e then length stTerminator else 1) \<le> length p"
    by blast+
qed

text \<open>A piece of output does not end in the middle of the four code units that open a report.\<close>

definition ends_whole :: "code_units \<Rightarrow> bool" where
  "ends_whole a \<longleftrightarrow> (\<forall>k \<in> {1, 2, 3}. \<not> suffix (take k osc7Prefix) a)"

lemma no_straddle:
  assumes "ends_whole a" "index_of osc7Prefix a = None" "i < length a"
  shows "\<not> prefix osc7Prefix (drop i (a @ b))"
proof
  assume pre: "prefix osc7Prefix (drop i (a @ b))"
  let ?k = "length a - i"
  have "\<not> i + length osc7Prefix \<le> length a"
    using pre prefix_drop_append [of i osc7Prefix a b] index_of_None [OF assms(2)] by blast
  then have k: "?k \<in> {1, 2, 3}"
    using assms(3) by (auto simp: osc7Prefix_def units_def)
  obtain zs where zs: "drop i (a @ b) = osc7Prefix @ zs"
    using pre unfolding prefix_def by blast
  have "?k \<le> length osc7Prefix"
    using k by (auto simp: osc7Prefix_def units_def)
  then have "take ?k osc7Prefix = take ?k (drop i (a @ b))"
    unfolding zs by simp
  also have "\<dots> = drop i a"
    using assms(3) by simp
  finally have "suffix (take ?k osc7Prefix) a"
    by (simp add: suffix_drop)
  then show False
    using assms(1) k unfolding ends_whole_def by blast
qed

lemma ends_whole_drop: "ends_whole a \<Longrightarrow> ends_whole (drop n a)"
  unfolding ends_whole_def using suffix_drop suffix_order.trans by blast

lemma scan_osc7_append:
  assumes "snd (scan_osc7 a) \<noteq> [] \<or> ends_whole a"
  shows "scan_osc7 (a @ b) =
    (let (p1, b1) = scan_osc7 a; (p2, b2) = scan_osc7 (b1 @ b) in (p1 @ p2, b2))"
  using assms
proof (induction a rule: scan_osc7.induct)
  case (1 a)
  show ?case
  proof (cases "index_of osc7Prefix a")
    case None
    then have a: "scan_osc7 a = ([], [])"
      by (simp add: scan_osc7.simps [of a])
    then have "ends_whole a"
      using "1.prems" by simp
    then have "index_of osc7Prefix (a @ b) = map_option ((+) (length a)) (index_of osc7Prefix b)"
      using index_of_skip no_straddle None by blast
    then have "scan_osc7 (a @ b) = scan_osc7 b"
      by (cases "index_of osc7Prefix b") (simp_all add: scan_osc7.simps [of "a @ b"] scan_osc7.simps [of b] add.assoc
        cong: option.case_cong)
    then show ?thesis
      using a by simp
  next
    case (Some start)
    let ?p = "drop (start + length osc7Prefix) a"
    have start: "start + length osc7Prefix \<le> length a" "prefix osc7Prefix (drop start a)"
      using index_of_Some [OF Some] prefix_length_le by fastforce+
    have ab: "index_of osc7Prefix (a @ b) = Some start" "drop (start + length osc7Prefix) (a @ b) = ?p @ b"
      using index_of_append [OF Some] start(1) by simp_all
    show ?thesis
    proof (cases "chooseOscEnd (index_of [0x07] ?p) (index_of stTerminator ?p)")
      case None
      then have a: "scan_osc7 a = ([], drop start a)"
        using Some by (simp add: scan_osc7.simps [of a] Let_def)
      have "index_of osc7Prefix (drop start a @ b) = Some 0"
        using start(2) by (intro index_of_eqI) (auto simp: prefix_append)
      moreover have "drop (length osc7Prefix) (drop start a @ b) = ?p @ b"
        using start(1) by (simp add: add.commute)
      ultimately have "scan_osc7 (drop start a @ b) = scan_osc7 (a @ b)"
        using ab start(1) by (simp add: scan_osc7.simps [of "drop start a @ b"] scan_osc7.simps [of "a @ b"]
            add.commute [of "length osc7Prefix" start] cong: option.case_cong)
      then show ?thesis
        using a by (simp split: prod.split)
    next
      case (Some e)
      note ends = choose_append(1,2) [OF Some, of b] choose_append(3) [OF Some]
      let ?n = "e + (if index_of stTerminator ?p = Some e then length stTerminator else 1)"
      let ?found = "found_path (osc7PayloadToPath (take e ?p))"
      have a: "scan_osc7 a = (?found @ fst (scan_osc7 (drop ?n ?p)), snd (scan_osc7 (drop ?n ?p)))"
        using \<open>index_of osc7Prefix a = Some start\<close> Some by (simp add: scan_osc7.simps [of a] Let_def split: prod.split)
      have "scan_osc7 (a @ b) = (?found @ fst (scan_osc7 (drop ?n ?p @ b)), snd (scan_osc7 (drop ?n ?p @ b)))"
        using ab ends by (simp add: scan_osc7.simps [of "a @ b"] Let_def split: prod.split)
      moreover have "snd (scan_osc7 (drop ?n ?p)) \<noteq> [] \<or> ends_whole (drop ?n ?p)"
        using "1.prems" a ends_whole_drop by fastforce
      ultimately show ?thesis
        using "1.IH" [OF \<open>index_of osc7Prefix a = Some start\<close> refl refl Some] a by (simp split: prod.splits)
    qed
  qed
qed

lemma extract_append:
  assumes "snd (extractOsc7Directories a) \<noteq> [] \<or> ends_whole a" "length (snd (extractOsc7Directories a)) < maxOscBufferLength"
  shows "extractOsc7Directories (a @ b) =
    (let (p1, b1) = extractOsc7Directories a; (p2, b2) = extractOsc7Directories (b1 @ b) in (p1 @ p2, b2))"
proof -
  obtain p1 b1 where a: "scan_osc7 a = (p1, b1)"
    by (cases "scan_osc7 a")
  then have "length b1 \<le> maxOscBufferLength"
    using assms(2) by (auto simp: extractOsc7Directories_def last_units_def)
  then have "extractOsc7Directories a = (p1, b1)"
    using a by (simp add: extractOsc7Directories_def last_units_def)
  then show ?thesis
    using assms(1) a scan_osc7_append [of a b] by (simp add: extractOsc7Directories_def split: prod.splits)
qed

lemma report_path_simps [simp]:
  "dt_osc7Buffer (report_path dt path) = dt_osc7Buffer dt"
  "report_path (dt\<lparr>dt_osc7Buffer := buffer\<rparr>) path = (report_path dt path)\<lparr>dt_osc7Buffer := buffer\<rparr>"
  by (simp_all add: report_path_def)

lemma report_paths_simps [simp]:
  "dt_osc7Buffer (foldl report_path dt paths) = dt_osc7Buffer dt"
  "foldl report_path (dt\<lparr>dt_osc7Buffer := buffer\<rparr>) paths = (foldl report_path dt paths)\<lparr>dt_osc7Buffer := buffer\<rparr>"
  by (induction paths arbitrary: dt) simp_all

text \<open>
  C28. The output of a session may arrive in pieces: reading them one after the other reports the same
  directories as reading them at once, as long as no piece ends inside the four code units that open
  a report and an unfinished report stays within its bound.
\<close>

theorem output_chunks_compose:
  assumes "snd (extractOsc7Directories (dt_osc7Buffer dt @ a)) \<noteq> [] \<or> ends_whole (dt_osc7Buffer dt @ a)"
    and "length (snd (extractOsc7Directories (dt_osc7Buffer dt @ a))) < maxOscBufferLength"
  shows "track_output (track_output dt a) b = track_output dt (a @ b)"
  using extract_append [OF assms, of b] by (simp add: track_output_def split: prod.splits)

text \<open>
  A report whose opening is cut by a chunk boundary is lost: nothing is kept of a piece of output
  that ends in the escape character.
\<close>

theorem split_report_is_lost:
  "dt_reported (track_output empty_tracker (osc7Prefix @ units ''/tmp'' @ [0x07])) = [units ''/tmp''] \<and>
   dt_reported (track_output (track_output empty_tracker [0x1B]) (units '']7;/tmp'' @ [0x07])) = []"
  by code_simp

theorem output_chunks_compose_witness:
  "dt_reported (track_output (track_output empty_tracker (osc7Prefix @ units ''/t'')) (units ''mp'' @ [0x07])) = [units ''/tmp'']"
proof -
  let ?a = "osc7Prefix @ units ''/t''"
  have "snd (extractOsc7Directories (dt_osc7Buffer empty_tracker @ ?a)) = ?a"
    by code_simp
  then have "track_output (track_output empty_tracker ?a) (units ''mp'' @ [0x07]) = track_output empty_tracker (?a @ units ''mp'' @ [0x07])"
    by (intro output_chunks_compose) (simp_all add: osc7Prefix_def maxOscBufferLength_def units_def)
  moreover have "dt_reported (track_output empty_tracker (?a @ units ''mp'' @ [0x07])) = [units ''/tmp'']"
    by code_simp
  ultimately show ?thesis
    by simp
qed

section \<open>Every report is read\<close>

lemma index_of_absent: "pat \<noteq> [] \<Longrightarrow> hd pat \<notin> set s \<Longrightarrow> index_of pat s = None"
proof (induction s)
  case (Cons x s)
  then show ?case
    by (cases pat) auto
qed simp

lemma index_of_first:
  assumes "hd pat \<notin> set s" "pat \<noteq> []"
  shows "index_of pat (s @ pat @ t) = Some (length s)"
proof (rule index_of_eqI)
  show "\<not> prefix pat (drop j (s @ pat @ t))" if "j < length s" for j
  proof
    assume "prefix pat (drop j (s @ pat @ t))"
    then have "hd pat = hd (drop j (s @ pat @ t))"
      using assms(2) by (auto simp: prefix_def)
    also have "\<dots> = s ! j"
      using that by (simp add: hd_drop_conv_nth nth_append)
    finally show False
      using assms(1) that by simp
  qed
qed simp_all

lemma scan_report:
  assumes "0x1B \<notin> set before" "0x1B \<notin> set payload" "0x07 \<notin> set payload"
  shows "scan_osc7 (before @ osc7Prefix @ payload @ 0x07 # rest) =
    (found_path (osc7PayloadToPath payload) @ fst (scan_osc7 rest), snd (scan_osc7 rest))"
proof -
  let ?input = "before @ osc7Prefix @ payload @ 0x07 # rest"
  have start: "index_of osc7Prefix ?input = Some (length before)"
    using index_of_first [of osc7Prefix before "payload @ 0x07 # rest"] assms(1) by (simp add: osc7Prefix_def)
  have payload: "drop (length before + length osc7Prefix) ?input = payload @ 0x07 # rest"
    by simp
  have bell: "index_of [0x07] (payload @ 0x07 # rest) = Some (length payload)"
    using index_of_first [of "[0x07]" payload rest] assms(3) by simp
  have st: "chooseOscEnd (Some (length payload)) (index_of stTerminator (payload @ 0x07 # rest)) = Some (length payload) \<and>
      index_of stTerminator (payload @ 0x07 # rest) \<noteq> Some (length payload)"
  proof (cases "index_of stTerminator (payload @ 0x07 # rest)")
    case (Some y)
    have "index_of stTerminator (payload @ [0x07]) = None"
      using assms(2) by (intro index_of_absent) (auto simp: stTerminator_def)
    then have "length payload + 1 < y + 2"
      using index_of_later [of stTerminator "payload @ [0x07]" rest y] Some by (simp add: stTerminator_def)
    moreover have "y \<noteq> length payload"
      using index_of_Some [OF Some] by (auto simp: stTerminator_def prefix_def)
    ultimately show ?thesis
      using Some by (simp add: chooseOscEnd_def)
  qed (simp add: chooseOscEnd_def)
  show ?thesis
    using start payload bell st by (simp add: scan_osc7.simps [of ?input] Let_def split: prod.split)
qed

text \<open>
  Every report in the output is read, in order: between texts without escape characters, a
  report that ends with a bell yields the path of its payload.
\<close>

theorem reported_directories_exact:
  assumes "\<forall>(before, payload) \<in> set reports. 0x1B \<notin> set before \<and> 0x1B \<notin> set payload \<and> 0x07 \<notin> set payload" "0x1B \<notin> set after"
  shows "extractOsc7Directories (concat (map (\<lambda>(before, payload). before @ osc7Prefix @ payload @ [0x07]) reports) @ after) =
    (concat (map (\<lambda>(before, payload). found_path (osc7PayloadToPath payload)) reports), [])"
proof -
  have "scan_osc7 (concat (map (\<lambda>(before, payload). before @ osc7Prefix @ payload @ [0x07]) reports) @ after) =
      (concat (map (\<lambda>(before, payload). found_path (osc7PayloadToPath payload)) reports), [])"
    using assms(1)
  proof (induction reports)
    case Nil
    then show ?case
      using index_of_absent [of osc7Prefix after] assms(2) by (simp add: scan_osc7.simps [of after] osc7Prefix_def)
  next
    case (Cons r reports)
    then show ?case
      using scan_report [of "fst r" "snd r"] by (auto split: prod.splits)
  qed
  then show ?thesis
    by (simp add: extractOsc7Directories_def last_units_def)
qed

theorem reported_directories_exact_witness:
  "fst (extractOsc7Directories (units ''a'' @ osc7Prefix @ units ''file://h/%41b'' @ [0x07])) = [units ''/Ab'']"
proof -
  have "osc7PayloadToPath (units ''file://h/%41b'') = Some (units ''/Ab'')"
    by code_simp
  then show ?thesis
    using reported_directories_exact [of "[(units ''a'', units ''file://h/%41b'')]" "[]"]
    by (simp add: units_def found_path_def)
qed

end
