(* ===== verification/Terminal_Prompt.thy ===== *)
theory Terminal_Prompt
  imports Terminal_Input
begin

text \<open>
  The working directory read off the prompts on the screen
  (\<open>src/features/terminal/terminalPromptDirectory.ts\<close>): lines of the terminal, newest first, are
  cleaned of escape sequences, prompts are recognised and \<open>cd\<close> commands are replayed. The file has
  copies of \<open>normalizeAbsolutePath\<close> and \<open>skipEscapeSequence\<close> that are the same as those of
  \<open>terminalInputDirectory.ts\<close>; the definitions of the theory \<open>Terminal_Input\<close> stand for both.
\<close>

section \<open>Cleaning lines\<close>

function stripAnsiSequences :: "code_units \<Rightarrow> code_units" where
  "stripAnsiSequences [] = []"
| "stripAnsiSequences (u # input) =
     (if u \<noteq> 0x1B then u # stripAnsiSequences input
      else stripAnsiSequences (drop (skipEscapeSequence input) input))"
  by pat_completeness auto
termination stripAnsiSequences
  by (relation "measure length") auto

definition promptLineKey :: "code_units \<Rightarrow> code_units" where
  "promptLineKey line = trim_end (stripAnsiSequences line)"

section \<open>Prompts\<close>

record PromptLine =
  pl_command :: "code_units option"
  pl_label :: code_units

definition normalizePromptCommand :: "code_units \<Rightarrow> code_units option" where
  "normalizePromptCommand command = (let c = trim_units command in if c = [] then None else Some c)"

definition line_terminator :: "16 word \<Rightarrow> bool" where
  "line_terminator u \<longleftrightarrow> u = 0x0A \<or> u = 0x0D \<or> u = 0x2028 \<or> u = 0x2029"

text \<open>
  The two regular expressions, as deterministic readers. Each repetition ends at a character that
  the next part of the expression requires and the repetition excludes, so that the matcher never
  has a choice, but for the white space before the label of a bracket prompt: when nothing but
  white space stands there, its last character is the label.
\<close>

definition read_name :: "code_units \<Rightarrow> code_units option" where
  "read_name s = (if takeWhile name_unit s = [] then None else Some (dropWhile name_unit s))"

definition read_unit :: "16 word \<Rightarrow> code_units \<Rightarrow> code_units option" where
  "read_unit u s = (case s of v # rest \<Rightarrow> if v = u then Some rest else None | [] \<Rightarrow> None)"

definition read_user_host :: "code_units \<Rightarrow> code_units option" where
  "read_user_host s = Option.bind (Option.bind (read_name s) (read_unit 0x40)) read_name"

definition read_command :: "code_units \<Rightarrow> code_units option" where
  "read_command s =
     (case s of
        u # rest \<Rightarrow>
          if u \<noteq> 0x23 \<and> u \<noteq> 0x24 then None
          else let command = dropWhile is_space rest in if list_ex line_terminator command then None else Some command
      | [] \<Rightarrow> None)"

definition label_unit :: "16 word \<Rightarrow> bool" where
  "label_unit u \<longleftrightarrow> u \<noteq> 0x3A \<and> u \<noteq> 0x23 \<and> u \<noteq> 0x24"

definition colonPrompt :: "code_units \<Rightarrow> (code_units \<times> code_units) option" where
  "colonPrompt line =
     Option.bind (Option.bind (read_user_host (dropWhile is_space line)) (read_unit 0x3A)) (\<lambda>s.
       let label = takeWhile label_unit s in
       if label = [] then None else map_option (Pair label) (read_command (dropWhile label_unit s)))"

definition bracket_unit :: "16 word \<Rightarrow> bool" where
  "bracket_unit u \<longleftrightarrow> u \<noteq> 0x5D \<and> u \<noteq> 0x0D \<and> u \<noteq> 0x0A"

definition bracket_label :: "code_units \<Rightarrow> (code_units \<times> code_units) option" where
  "bracket_label s =
     (let spaces = takeWhile is_space s; rest = dropWhile is_space s; label = takeWhile bracket_unit rest in
      if spaces = [] then None
      else if label \<noteq> [] then Some (label, dropWhile bracket_unit rest)
      else if 2 \<le> length spaces \<and> bracket_unit (last spaces) then Some ([last spaces], rest)
      else None)"

definition bracketPrompt :: "code_units \<Rightarrow> (code_units \<times> code_units) option" where
  "bracketPrompt line =
     Option.bind (Option.bind (Option.bind (read_unit 0x5B (dropWhile is_space line)) read_user_host) bracket_label) (\<lambda>(label, s).
       map_option (Pair label) (Option.bind (read_unit 0x5D s) read_command))"

definition parsePromptLine :: "code_units \<Rightarrow> PromptLine option" where
  "parsePromptLine line =
     map_option (\<lambda>(label, command). \<lparr>pl_command = normalizePromptCommand command, pl_label = trim_units label\<rparr>)
       (case colonPrompt line of Some m \<Rightarrow> Some m | None \<Rightarrow> bracketPrompt line)"

section \<open>Directories\<close>

definition truthy_units :: "code_units option \<Rightarrow> code_units option" where
  "truthy_units s = (case s of None \<Rightarrow> None | Some u \<Rightarrow> if u = [] then None else Some u)"

definition promptPathToDirectory :: "code_units \<Rightarrow> code_units option \<Rightarrow> code_units option" where
  "promptPathToDirectory promptPath homeDirectory =
     (if promptPath = units ''~'' then homeDirectory
      else if prefix (units ''~/'') promptPath then
        map_option (\<lambda>home. normalizeAbsolutePath (home @ drop 1 promptPath)) (truthy_units homeDirectory)
      else if \<not> prefix (units ''/'') promptPath then None
      else Some (normalizeAbsolutePath promptPath))"

definition promptLineToDirectory :: "code_units \<Rightarrow> code_units option \<Rightarrow> code_units option" where
  "promptLineToDirectory line homeDirectory =
     (case parsePromptLine (promptLineKey line) of
        None \<Rightarrow> None
      | Some prompt \<Rightarrow> if pl_command prompt \<noteq> None then None else promptPathToDirectory (pl_label prompt) homeDirectory)"

definition directory_name :: "code_units \<Rightarrow> code_units" where
  "directory_name directory =
     (let names = filter (\<lambda>p. p \<noteq> []) (split_on 0x2F directory) in if names = [] then units ''/'' else last names)"

definition directoryMatchesPromptLabel :: "code_units \<Rightarrow> code_units \<Rightarrow> code_units option \<Rightarrow> bool" where
  "directoryMatchesPromptLabel directory promptLabel homeDirectory =
     (case truthy_units (promptPathToDirectory promptLabel homeDirectory) of
        Some d \<Rightarrow> normalizeAbsolutePath directory = d
      | None \<Rightarrow> directory_name (normalizeAbsolutePath directory) = promptLabel)"

text \<open>The messages of a failed \<open>cd\<close>, in lower case, with the Chinese ones as code units.\<close>

definition cd_failures :: "code_units list" where
  "cd_failures =
     [units ''no such file or directory'', units ''not a directory'', units ''permission denied'',
      [0x6CA1, 0x6709, 0x90A3, 0x4E2A, 0x6587, 0x4EF6, 0x6216, 0x76EE, 0x5F55], [0x4E0D, 0x662F, 0x76EE, 0x5F55],
      [0x6743, 0x9650, 0x4E0D, 0x591F], [0x6743, 0x9650, 0x88AB, 0x62D2, 0x7EDD]]"

fun failure_follows :: "code_units \<Rightarrow> bool" where
  "failure_follows [] = False"
| "failure_follows (u # s) =
     (list_ex (\<lambda>m. prefix m (u # s)) cd_failures \<or> \<not> line_terminator u \<and> failure_follows s)"

fun failure_in :: "code_units \<Rightarrow> bool" where
  "failure_in [] = False"
| "failure_in (u # s) = (prefix (units ''cd:'') (u # s) \<and> failure_follows (drop 2 s) \<or> failure_in s)"

definition isCdFailureLine :: "code_units \<Rightarrow> bool" where
  "isCdFailureLine line = failure_in (map lower_unit line)"

fun commandOutputHasCdFailure :: "code_units list \<Rightarrow> bool" where
  "commandOutputHasCdFailure [] = False"
| "commandOutputHasCdFailure (line # later) =
     (if parsePromptLine line \<noteq> None then False
      else if isCdFailureLine line then True
      else commandOutputHasCdFailure later)"

fun replay_lines :: "code_units option \<Rightarrow> code_units option \<Rightarrow> code_units list \<Rightarrow> code_units option" where
  "replay_lines home currentDirectory [] = currentDirectory"
| "replay_lines home currentDirectory (line # later) =
     (case parsePromptLine line of
        None \<Rightarrow> replay_lines home currentDirectory later
      | Some prompt \<Rightarrow>
          let currentDirectory = (case truthy_units (promptPathToDirectory (pl_label prompt) home) of
                None \<Rightarrow> currentDirectory | Some d \<Rightarrow> Some d)
          in (case pl_command prompt of
                None \<Rightarrow> replay_lines home currentDirectory later
              | Some command \<Rightarrow>
                  (case truthy_units (resolveTerminalInputDirectoryLine command currentDirectory home) of
                     None \<Rightarrow> replay_lines home currentDirectory later
                   | Some d \<Rightarrow> if commandOutputHasCdFailure later then replay_lines home currentDirectory later
                       else replay_lines home (Some d) later)))"

definition replayPromptSnapshotDirectory :: "code_units list \<Rightarrow> code_units option \<Rightarrow> code_units option" where
  "replayPromptSnapshotDirectory cleanLinesNewestFirst homeDirectory = replay_lines homeDirectory None (rev cleanLinesNewestFirst)"

definition latest_prompt :: "code_units list \<Rightarrow> PromptLine option" where
  "latest_prompt cleanLines = first_of (List.map_filter parsePromptLine cleanLines)"

definition promptSnapshotLinesToDirectory ::
  "code_units list \<Rightarrow> code_units option \<Rightarrow> code_units option \<Rightarrow> code_units option" where
  "promptSnapshotLinesToDirectory lines homeDirectory currentDirectory =
     (let cleanLines = map promptLineKey lines in
      case latest_prompt cleanLines of
        None \<Rightarrow> None
      | Some latest \<Rightarrow>
          (case truthy_units (promptPathToDirectory (pl_label latest) homeDirectory) of
             Some d \<Rightarrow> Some d
           | None \<Rightarrow>
               let replayed = (case truthy_units (replayPromptSnapshotDirectory cleanLines homeDirectory) of
                     None \<Rightarrow> None
                   | Some d \<Rightarrow> if directoryMatchesPromptLabel d (pl_label latest) homeDirectory then Some d else None)
               in (case truthy_units currentDirectory of
                     None \<Rightarrow> replayed
                   | Some current \<Rightarrow>
                       if directoryMatchesPromptLabel current (pl_label latest) homeDirectory then Some (normalizeAbsolutePath current)
                       else replayed)))"

section \<open>The result fits the prompt\<close>

lemma truthy_units_simps [simp]:
  "truthy_units None = None" "truthy_units (Some u) = (if u = [] then None else Some u)"
  by (simp_all add: truthy_units_def)

lemma truthy_units_eq_Some: "truthy_units s = Some u \<longleftrightarrow> s = Some u \<and> u \<noteq> []"
  by (auto simp: truthy_units_def split: option.splits)

lemma promptPath_ok: "found_ok home \<Longrightarrow> found_ok (promptPathToDirectory label home)"
  by (auto simp: promptPathToDirectory_def truthy_units_def split: option.splits)

lemma resolveLine_ok: "found_ok home \<Longrightarrow> found_ok (resolveTerminalInputDirectoryLine line dir home)"
  by (simp add: resolveTerminalInputDirectoryLine_def resolveCdCommand_ok)

lemma replay_lines_ok:
  assumes "found_ok home" "found_ok dir"
  shows "found_ok (replay_lines home dir lines)"
  using assms(2)
proof (induction lines arbitrary: dir)
  case (Cons line later)
  have label: "found_ok (case truthy_units (promptPathToDirectory l home) of None \<Rightarrow> dir | Some d \<Rightarrow> Some d)" for l
    using promptPath_ok [OF assms(1), of l] Cons.prems by (auto simp: truthy_units_eq_Some split: option.splits)
  have command: "found_ok (truthy_units (resolveTerminalInputDirectoryLine c e home))" for c e
    using resolveLine_ok [OF assms(1), of c e] by (auto simp: truthy_units_def split: option.splits)
  show ?case
  proof (cases "parsePromptLine line")
    case (Some prompt)
    define e where "e = (case truthy_units (promptPathToDirectory (pl_label prompt) home) of None \<Rightarrow> dir | Some d \<Rightarrow> Some d)"
    have e: "found_ok e"
      using label by (simp add: e_def)
    show ?thesis
    proof (cases "pl_command prompt")
      case None
      then show ?thesis
        using Some Cons.IH [OF e] by (simp add: Let_def e_def)
    next
      case (Some c)
      have "found_ok (truthy_units (resolveTerminalInputDirectoryLine c e home))"
        by (rule command)
      then show ?thesis
        using \<open>parsePromptLine line = Some prompt\<close> Some Cons.IH [OF e] Cons.IH [of "Some d" for d]
        by (cases "truthy_units (resolveTerminalInputDirectoryLine c e home)") (simp_all add: Let_def e_def)
    qed
  qed (simp add: Cons)
qed simp

lemma directoryMatches_normalize:
  "directoryMatchesPromptLabel (normalizeAbsolutePath d) label home = directoryMatchesPromptLabel d label home"
  by (simp add: directoryMatchesPromptLabel_def normalizeAbsolutePath_canonical split: option.split)

text \<open>The newest prompt, and the directory that a name shown by it can stand for.\<close>

lemma latest_prompt_newest:
  "latest_prompt (map promptLineKey lines) = Some prompt \<Longrightarrow>
     \<exists>newer line older. lines = newer @ line # older \<and> parsePromptLine (promptLineKey line) = Some prompt \<and>
        (\<forall>l \<in> set newer. parsePromptLine (promptLineKey l) = None)"
proof (induction lines)
  case Nil
  then show ?case
    by (simp add: latest_prompt_def first_of_def List.map_filter_simps)
next
  case (Cons l lines)
  show ?case
  proof (cases "parsePromptLine (promptLineKey l)")
    case None
    then obtain newer line older where "lines = newer @ line # older" "parsePromptLine (promptLineKey line) = Some prompt"
        "\<forall>l \<in> set newer. parsePromptLine (promptLineKey l) = None"
      using Cons by (auto simp: latest_prompt_def List.map_filter_simps)
    then have "l # lines = (l # newer) @ line # older" "\<forall>l \<in> set (l # newer). parsePromptLine (promptLineKey l) = None"
      using None by simp_all
    then show ?thesis
      using \<open>parsePromptLine (promptLineKey line) = Some prompt\<close> by blast
  next
    case (Some p)
    then have "p = prompt"
      using Cons.prems by (simp add: latest_prompt_def List.map_filter_simps first_of_def)
    then show ?thesis
      using Some by (metis append_Nil empty_iff list.set(1))
  qed
qed

lemma directory_name_last:
  assumes "canonical_directory d" "directory_name d = label" "\<not> prefix (units ''/'') label"
  shows "0x2F \<notin> set label \<and> (\<exists>above. d = above @ 0x2F # label)"
proof -
  obtain parts where parts: "list_all segment_ok parts" "d = 0x2F # join_with [0x2F] parts"
    using assms(1) by (auto simp: canonical_directory_def)
  have ne: "parts \<noteq> []"
    using assms(2,3) parts(2) by (auto simp: directory_name_def units_def)
  have "split_on 0x2F d = [] # parts"
    using parts ne split_on_join [of parts "0x2F"] by (auto simp: list_all_iff segment_ok_def)
  then have label: "label = last parts"
    using assms(2) parts(1) ne by (auto simp: directory_name_def list_all_iff segment_ok_def filter_id_conv)
  obtain init where init: "parts = init @ [label]"
    using ne label by (metis append_butlast_last_id)
  have "d = (if init = [] then [] else 0x2F # join_with [0x2F] init) @ 0x2F # label"
    using join_with_snoc [of init "[0x2F]" label] parts(2) by (simp add: init)
  moreover have "0x2F \<notin> set label"
    using parts(1) by (simp add: init segment_ok_def)
  ultimately show ?thesis
    by blast
qed

lemma shown_directory:
  assumes "case home of None \<Rightarrow> True | Some h \<Rightarrow> canonical_directory h"
    and "canonical_directory d" "directoryMatchesPromptLabel d label home"
  shows "if prefix (units ''/'') label then d = normalizeAbsolutePath label
    else if label = units ''~'' \<and> home \<noteq> None then Some d = home
    else if prefix (units ''~/'') label \<and> home \<noteq> None then d = normalizeAbsolutePath (the home @ drop 1 label)
    else 0x2F \<notin> set label \<and> (\<exists>above. d = above @ 0x2F # label)"
proof -
  have d: "normalizeAbsolutePath d = d"
    using assms(2) by (rule normalizeAbsolutePath_canonical)
  have home: "h \<noteq> []" if "home = Some h" for h
    using assms(1) that by (auto dest: canonical_nonempty)
  have path: "normalizeAbsolutePath p \<noteq> []" for p
    using canonical_nonempty [OF canonical_normalizeAbsolutePath] .
  have tilde: "\<not> prefix (units ''/'') label" if "label = units ''~'' \<or> prefix (units ''~/'') label"
    using that by (auto simp: units_def prefix_def)
  consider (full) "prefix (units ''/'') label" | (home) h where "label = units ''~''" "home = Some h"
    | (below) h where "prefix (units ''~/'') label" "label \<noteq> units ''~''" "home = Some h"
    | (name) "\<not> prefix (units ''/'') label" "label \<noteq> units ''~'' \<and> \<not> prefix (units ''~/'') label \<or> home = None"
    by (cases home) auto
  then show ?thesis
  proof cases
    case full
    then have "promptPathToDirectory label home = Some (normalizeAbsolutePath label)"
      using tilde by (auto simp: promptPathToDirectory_def)
    then show ?thesis
      using assms(3) full path d by (simp add: directoryMatchesPromptLabel_def)
  next
    case home
    then show ?thesis
      using assms(3) d tilde \<open>\<And>h. home = Some h \<Longrightarrow> h \<noteq> []\<close> by (auto simp: directoryMatchesPromptLabel_def promptPathToDirectory_def)
  next
    case below
    then show ?thesis
      using assms(3) d tilde path \<open>\<And>h. home = Some h \<Longrightarrow> h \<noteq> []\<close> by (auto simp: directoryMatchesPromptLabel_def promptPathToDirectory_def)
  next
    case name
    then have "truthy_units (promptPathToDirectory label home) = None"
      by (auto simp: promptPathToDirectory_def)
    then have "directory_name d = label"
      using assms(3) d by (simp add: directoryMatchesPromptLabel_def)
    then show ?thesis
      using directory_name_last [OF assms(2) _ name(1)] name by auto
  qed
qed

text \<open>
  C29. A directory read off the screen is in normal form and is what the newest prompt shows, the first
  line from the bottom that is a prompt: the path itself when the prompt shows a full path, the home
  directory or the path below it when the prompt shows a tilde and the home directory is known, and
  otherwise a directory whose last segment is the name that the prompt shows.
\<close>

theorem prompt_directory_fits_label:
  assumes "case homeDirectory of None \<Rightarrow> True | Some h \<Rightarrow> canonical_directory h"
    and "promptSnapshotLinesToDirectory lines homeDirectory currentDirectory = Some d"
  shows "canonical_directory d \<and>
    (\<exists>newer line older label command. lines = newer @ line # older \<and>
       (\<forall>l \<in> set newer. parsePromptLine (promptLineKey l) = None) \<and>
       parsePromptLine (promptLineKey line) = Some \<lparr>pl_command = command, pl_label = label\<rparr> \<and>
       (if prefix (units ''/'') label then d = normalizeAbsolutePath label
        else if label = units ''~'' \<and> homeDirectory \<noteq> None then Some d = homeDirectory
        else if prefix (units ''~/'') label \<and> homeDirectory \<noteq> None then d = normalizeAbsolutePath (the homeDirectory @ drop 1 label)
        else 0x2F \<notin> set label \<and> (\<exists>above. d = above @ 0x2F # label)))"
proof -
  have home: "found_ok homeDirectory"
    using assms(1) by (simp add: found_ok_def)
  obtain latest where latest: "latest_prompt (map promptLineKey lines) = Some latest"
    using assms(2) by (auto simp: promptSnapshotLinesToDirectory_def Let_def split: option.splits)
  let ?replayed = "replayPromptSnapshotDirectory (map promptLineKey lines) homeDirectory"
  have replayed: "found_ok ?replayed"
    using replay_lines_ok [OF home] by (simp add: replayPromptSnapshotDirectory_def)
  consider (label) "truthy_units (promptPathToDirectory (pl_label latest) homeDirectory) = Some d"
    | (current) c where "truthy_units currentDirectory = Some c" "directoryMatchesPromptLabel c (pl_label latest) homeDirectory"
        "d = normalizeAbsolutePath c"
    | (replayed) "truthy_units ?replayed = Some d" "directoryMatchesPromptLabel d (pl_label latest) homeDirectory"
    using assms(2) latest
    by (auto simp: promptSnapshotLinesToDirectory_def Let_def split: option.splits if_splits)
  then have "canonical_directory d \<and> directoryMatchesPromptLabel d (pl_label latest) homeDirectory"
  proof cases
    case label
    then have "canonical_directory d"
      using promptPath_ok [OF home, of "pl_label latest"] by (simp add: truthy_units_eq_Some)
    then show ?thesis
      using label by (simp add: directoryMatchesPromptLabel_def normalizeAbsolutePath_canonical)
  next
    case current
    then show ?thesis
      by (simp add: directoryMatches_normalize)
  next
    case replayed
    then show ?thesis
      using \<open>found_ok ?replayed\<close> by (simp add: truthy_units_eq_Some)
  qed
  then have matches: "canonical_directory d" "directoryMatchesPromptLabel d (pl_label latest) homeDirectory"
    by blast+
  obtain label command where latest_eq: "latest = \<lparr>pl_command = command, pl_label = label\<rparr>"
    by (cases latest) auto
  obtain newer line older where "lines = newer @ line # older" "parsePromptLine (promptLineKey line) = Some \<lparr>pl_command = command, pl_label = label\<rparr>"
      "\<forall>l \<in> set newer. parsePromptLine (promptLineKey l) = None"
    using latest_prompt_newest [OF latest] unfolding latest_eq by blast
  moreover have "directoryMatchesPromptLabel d label homeDirectory"
    using matches(2) by (simp add: latest_eq)
  ultimately show ?thesis
    using matches(1) shown_directory [OF assms(1) matches(1)] by blast
qed

section \<open>Prompts are recognised\<close>

lemma read_name_append: "list_all name_unit n \<Longrightarrow> n \<noteq> [] \<Longrightarrow> \<not> name_unit u \<Longrightarrow> read_name (n @ u # s) = Some (u # s)"
  by (auto simp: read_name_def list_all_iff takeWhile_append dropWhile_append)

lemma read_command_plain:
  assumes "command = [] \<or> \<not> is_space (hd command)" "\<not> list_ex line_terminator command" "u = 0x23 \<or> u = 0x24"
  shows "read_command (u # 0x20 # command) = Some command"
proof -
  have "dropWhile is_space (0x20 # command) = command"
    using assms(1) by (cases command) (auto simp: is_space_def js_space_units_def)
  then show ?thesis
    using assms(2,3) by (simp add: read_command_def)
qed

lemma name_units: "\<not> name_unit 0x40" "\<not> name_unit 0x3A"
  by (simp_all add: name_unit_def)

lemma name_not_space: "name_unit u \<Longrightarrow> \<not> is_space u"
  by (auto simp: name_unit_def is_space_def js_space_units_def)

text \<open>
  A prompt of the form \<open>user@host:label$ command\<close>, with or without a command, is read back into
  its label and its command.
\<close>

theorem prompt_roundtrip:
  assumes "list_all name_unit user" "user \<noteq> []" "list_all name_unit host" "host \<noteq> []"
    and "label \<noteq> []" "list_all label_unit label" "trim_units label = label"
    and "trim_units command = command" "\<not> list_ex line_terminator command" "sign = 0x23 \<or> sign = 0x24"
  shows "parsePromptLine (user @ 0x40 # host @ 0x3A # label @ sign # 0x20 # command) =
    Some \<lparr>pl_command = (if command = [] then None else Some command), pl_label = label\<rparr>"
proof -
  let ?line = "user @ 0x40 # host @ 0x3A # label @ sign # 0x20 # command"
  have "\<not> is_space (hd user)"
    using assms(1,2) name_not_space by (cases user) auto
  then have start: "dropWhile is_space ?line = ?line"
    using assms(2) by (cases user) auto
  have host: "read_user_host ?line = Some (0x3A # label @ sign # 0x20 # command)"
    using read_name_append [OF assms(1,2), of "0x40"] read_name_append [OF assms(3,4), of "0x3A"] name_units
    by (simp add: read_user_host_def read_unit_def)
  have "\<not> label_unit sign"
    using assms(10) by (auto simp: label_unit_def)
  then have "takeWhile label_unit (label @ sign # 0x20 # command) = label"
      "dropWhile label_unit (label @ sign # 0x20 # command) = sign # 0x20 # command"
    using assms(6) by (auto simp: list_all_iff takeWhile_append dropWhile_append)
  moreover have "command = [] \<or> \<not> is_space (hd command)"
    using trim_units_free [of command] assms(8) by auto
  ultimately have "colonPrompt ?line = Some (label, command)"
    using start host assms(5) read_command_plain [OF _ assms(9,10)] by (simp add: colonPrompt_def read_unit_def Let_def)
  then show ?thesis
    using assms(7,8) by (simp add: parsePromptLine_def normalizePromptCommand_def Let_def)
qed

theorem prompt_roundtrip_witness:
  "parsePromptLine (units ''ada@srv:~/src$ ls'') = Some \<lparr>pl_command = Some (units ''ls''), pl_label = units ''~/src''\<rparr>"
proof -
  have "list_all name_unit (units ''ada'')" "list_all name_unit (units ''srv'')" "list_all label_unit (units ''~/src'')"
      "trim_units (units ''~/src'') = units ''~/src''" "trim_units (units ''ls'') = units ''ls''" "\<not> list_ex line_terminator (units ''ls'')"
    by code_simp+
  then show ?thesis
    using prompt_roundtrip [of "units ''ada''" "units ''srv''" "units ''~/src''" "units ''ls''" "0x24"] by (simp add: units_def)
qed

lemma stripped_no_escape: "0x1B \<notin> set (stripAnsiSequences line)"
  by (induction line rule: stripAnsiSequences.induct) auto

theorem prompt_directory_fits_label_witness:
  "\<exists>above. units ''/home/ada/src'' = above @ 0x2F # units ''src''"
proof -
  let ?lines = "[units ''out'', units ''[ada@srv src]$ '', units ''ada@srv:/tmp$ '']"
  have "promptSnapshotLinesToDirectory ?lines None (Some (units ''/home/ada/src'')) = Some (units ''/home/ada/src'')"
    by code_simp
  from prompt_directory_fits_label [OF _ this] obtain newer line older label command
    where found: "?lines = newer @ line # older" "\<forall>l \<in> set newer. parsePromptLine (promptLineKey l) = None"
      "parsePromptLine (promptLineKey line) = Some \<lparr>pl_command = command, pl_label = label\<rparr>"
      "if prefix (units ''/'') label then units ''/home/ada/src'' = normalizeAbsolutePath label
       else 0x2F \<notin> set label \<and> (\<exists>above. units ''/home/ada/src'' = above @ 0x2F # label)"
    by auto
  have "parsePromptLine (promptLineKey (units ''out'')) = None"
      "parsePromptLine (promptLineKey (units ''[ada@srv src]$ '')) = Some \<lparr>pl_command = None, pl_label = units ''src''\<rparr>"
    by code_simp+
  with found(1-3) have "label = units ''src''"
    by (auto simp: Cons_eq_append_conv)
  with found(4) show ?thesis
    by (simp add: units_def prefix_def)
qed

end
