(* ===== verification/Settings.thy ===== *)
theory Settings
  imports Js_Json Shortcuts
begin

text \<open>
  The settings of the application (\<open>features/settings/settingsTypes.ts\<close>, \<open>useSettings.ts\<close>,
  \<open>startupSettings.ts\<close>): the value read from local storage is an arbitrary JSON value, and
  \<open>normalizeSettings\<close> makes settings of it, field by field. Every update of the hook builds an
  object from the current settings and normalises it again; \<open>settings_json\<close> and its parts are
  those objects. A field with a closed set of texts is a string, as in the source, whose type
  lists them.
\<close>

section \<open>Data\<close>

record BasicSettings =
  autoCheckAppUpdate :: bool
  filePanelFollowsActiveConnection :: bool
  keepFailedTerminalTabs :: bool
  locale_preference :: string
  reopenLastTerminal :: bool
  remoteFileOpenMode :: string
  restoreWorkspaceOnLaunch :: bool
  recentConnectionLimit :: rat

record FileTransferSettings =
  conflictPolicyDefault :: string
  concurrentTransfers :: rat
  downloadRoot :: string
  groupBySession :: bool
  compressDirectories :: bool
  keepArchives :: bool
  timestampDirectory :: bool
  timestampFormat :: string

record LocalTerminalProfileInput =
  lp_id :: "string option"
  lp_name :: string
  lp_kind :: string
  lp_platform :: string
  lp_source :: string
  lp_command :: string
  lp_args :: "string list"
  lp_cwd :: "string option"
  lp_env :: "(string \<times> string) list"
  lp_icon :: string
  lp_hidden :: bool
  lp_detected :: bool

record LocalTerminalSettings =
  ctrlVPaste :: bool
  defaultProfileId :: "string option"
  hiddenProfileIds :: "string list"
  customProfiles :: "LocalTerminalProfileInput list"
  reopenLastLocalWorkspace :: bool

record SecuritySettings =
  masterPasswordEnabled :: bool
  allowPasswordReveal :: bool
  autoLockMinutes :: rat

record AppearanceSettings =
  accentColor :: string
  accentColorCustom :: string
  cursorBlink :: bool
  cursorStyle :: string
  density :: string
  iconSize :: string
  rememberPaneWidths :: bool
  terminalFontCustom :: string
  terminalFontMode :: string
  terminalFontPreset :: string
  terminalFontSize :: rat
  themeMode :: string
  uiFontCustom :: string
  uiFontMode :: string
  uiFontPreset :: string
  uiFontSize :: rat
  windowMaterial :: string

record MxtermSettings =
  set_basic :: BasicSettings
  set_fileTransfer :: FileTransferSettings
  set_localTerminal :: LocalTerminalSettings
  recordTerminalInputHistory :: bool
  set_security :: SecuritySettings
  set_bindings :: shortcut_bindings
  set_appearance :: AppearanceSettings
  set_scheme :: string

section \<open>Reading one field\<close>

definition normalizeBoolean :: "json option \<Rightarrow> bool \<Rightarrow> bool" where
  "normalizeBoolean v fallback = (case v of Some (JBool b) \<Rightarrow> b | _ \<Rightarrow> fallback)"

definition normalizeNumber :: "json option \<Rightarrow> rat list \<Rightarrow> rat \<Rightarrow> rat" where
  "normalizeNumber v allowed fallback =
     (case v of Some (JNum (Finite r)) \<Rightarrow> if r \<in> set allowed then r else fallback | _ \<Rightarrow> fallback)"

definition normalizeOneOf :: "json option \<Rightarrow> string list \<Rightarrow> string \<Rightarrow> string" where
  "normalizeOneOf v allowed fallback =
     (case v of Some (JStr s) \<Rightarrow> if s \<in> set allowed then s else fallback | _ \<Rightarrow> fallback)"

definition hex_char :: "char \<Rightarrow> bool" where
  "hex_char c \<longleftrightarrow> c \<in> set ''0123456789abcdefABCDEF''"

definition normalizeHexColor :: "json option \<Rightarrow> string \<Rightarrow> string" where
  "normalizeHexColor v fallback =
     (case v of
        Some (JStr s) \<Rightarrow>
          (case js_trim s of
             c # digits \<Rightarrow>
               if c = CHR ''#'' \<and> length digits = 3 \<and> list_all hex_char digits then
                 toUpperCase (CHR ''#'' # concat (map (\<lambda>d. [d, d]) digits))
               else if c = CHR ''#'' \<and> length digits = 6 \<and> list_all hex_char digits then
                 CHR ''#'' # toUpperCase digits
               else fallback
           | [] \<Rightarrow> fallback)
      | _ \<Rightarrow> fallback)"

definition font_breaks :: string where
  "font_breaks = '';{}'' @ [CHR 0x0A, CHR 0x0D, CHR 0x09]"

definition normalizeFontFamilyInput :: "json option \<Rightarrow> string \<Rightarrow> string" where
  "normalizeFontFamilyInput v fallback =
     (case v of
        Some (JStr s) \<Rightarrow>
          (let text = map (\<lambda>c. if c \<in> set font_breaks then CHR '' '' else c) (js_trim s)
           in if 0 < js_length text \<and> js_length text \<le> 180 then text else fallback)
      | _ \<Rightarrow> fallback)"

definition path_breaks :: string where
  "path_breaks = ''<>|?*'' @ [CHR 0x22, CHR 0x0A, CHR 0x0D, CHR 0x09]"

definition normalizePathInput :: "json option \<Rightarrow> string \<Rightarrow> string" where
  "normalizePathInput v fallback =
     (case v of
        Some (JStr s) \<Rightarrow>
          (let text = filter (\<lambda>c. c \<notin> set path_breaks) (js_trim s)
           in if js_length text \<le> 260 then text else fallback)
      | _ \<Rightarrow> fallback)"

definition normalizeOptionalString :: "json option \<Rightarrow> string option \<Rightarrow> string option" where
  "normalizeOptionalString v fallback =
     (case v of Some (JStr s) \<Rightarrow> if js_trim s \<noteq> [] then Some (js_trim s) else fallback | _ \<Rightarrow> fallback)"

definition json_texts :: "json list \<Rightarrow> string list" where
  "json_texts items = List.map_filter (\<lambda>item. case item of JStr s \<Rightarrow> Some s | _ \<Rightarrow> None) items"

definition normalizeStringArray :: "json option \<Rightarrow> string list" where
  "normalizeStringArray v =
     (case v of Some (JArr items) \<Rightarrow> filter (\<lambda>s. s \<noteq> []) (map js_trim (json_texts items)) | _ \<Rightarrow> [])"

definition trimmed_text :: "json option \<Rightarrow> string" where
  "trimmed_text v = (case v of Some (JStr s) \<Rightarrow> js_trim s | _ \<Rightarrow> [])"

definition text_or :: "json option \<Rightarrow> string \<Rightarrow> string" where
  "text_or v fallback = (if trimmed_text v = [] then fallback else trimmed_text v)"

definition text_or_null :: "json option \<Rightarrow> string option" where
  "text_or_null v = (if trimmed_text v = [] then None else Some (trimmed_text v))"

text \<open>\<open>Object.fromEntries\<close> over the entries of an object whose value is a text.\<close>

definition normalize_env :: "json option \<Rightarrow> (string \<times> string) list" where
  "normalize_env v =
     (case v of
        Some (JObj entries) \<Rightarrow>
          List.map_filter (\<lambda>(key, item). case item of JStr s \<Rightarrow> Some (key, js_trim s) | _ \<Rightarrow> None) entries
      | _ \<Rightarrow> [])"

definition normalizeLocalTerminalProfile :: "json \<Rightarrow> LocalTerminalProfileInput option" where
  "normalizeLocalTerminalProfile v =
     (case v of
        JObj r \<Rightarrow>
          (let name = trimmed_text (field r ''name'');
               kind = trimmed_text (field r ''kind'');
               command = trimmed_text (field r ''command'')
           in if name = [] \<or> kind = [] \<or> command = [] then None
              else Some \<lparr>lp_id = text_or_null (field r ''id''), lp_name = name, lp_kind = kind,
                lp_platform = text_or (field r ''platform'') ''all'',
                lp_source = text_or (field r ''source'') ''custom'',
                lp_command = command,
                lp_args = (case field r ''args'' of Some (JArr items) \<Rightarrow> json_texts items | _ \<Rightarrow> []),
                lp_cwd = text_or_null (field r ''cwd''),
                lp_env = normalize_env (field r ''env''),
                lp_icon = text_or (field r ''icon'') ''terminal-shell'',
                lp_hidden = normalizeBoolean (field r ''hidden'') False,
                lp_detected = normalizeBoolean (field r ''detected'') False\<rparr>)
      | _ \<Rightarrow> None)"

definition normalizeLocalTerminalProfiles :: "json option \<Rightarrow> LocalTerminalProfileInput list" where
  "normalizeLocalTerminalProfiles v =
     (case v of Some (JArr items) \<Rightarrow> List.map_filter normalizeLocalTerminalProfile items | _ \<Rightarrow> [])"

definition binding_value :: "json option \<Rightarrow> stored_binding" where
  "binding_value v = (case v of Some JNull \<Rightarrow> StoredNull | Some (JStr s) \<Rightarrow> StoredText s | _ \<Rightarrow> StoredOther)"

definition record_or_empty :: "json option \<Rightarrow> (string \<times> json) list" where
  "record_or_empty v = (case v of Some (JObj obj) \<Rightarrow> obj | _ \<Rightarrow> [])"

section \<open>Defaults and presets\<close>

definition uiFontPresets :: "(string \<times> string) list" where
  "uiFontPresets =
     [(''system'', ''system-ui, -apple-system, BlinkMacSystemFont, \"Segoe UI\", sans-serif''),
      (''segoe-ui'', ''\"Segoe UI Variable Text\", \"Segoe UI\", \"Microsoft YaHei UI\", system-ui, sans-serif''),
      (''microsoft-yahei'', ''\"Microsoft YaHei UI\", \"Microsoft YaHei\", \"Segoe UI\", sans-serif''),
      (''noto-sans-sc'', ''\"Noto Sans SC\", \"Source Han Sans SC\", \"Microsoft YaHei UI\", sans-serif'')]"

definition terminalFontPresets :: "(string \<times> string) list" where
  "terminalFontPresets =
     [(''cascadia-code'', ''\"Cascadia Code\", \"Cascadia Mono\", Consolas, monospace''),
      (''jetbrains-mono'', ''\"JetBrains Mono\", \"Cascadia Mono\", Consolas, monospace''),
      (''fira-code'', ''\"Fira Code\", \"Cascadia Mono\", Consolas, monospace''),
      (''source-code-pro'', ''\"Source Code Pro\", \"Cascadia Mono\", Consolas, monospace''),
      (''iosevka'', ''Iosevka, \"Cascadia Mono\", Consolas, monospace''),
      (''hack'', ''Hack, \"Cascadia Mono\", Consolas, monospace''),
      (''noto-sans-mono'', ''\"Noto Sans Mono\", \"Cascadia Mono\", Consolas, monospace'')]"

definition default_basic :: BasicSettings where
  "default_basic = \<lparr>autoCheckAppUpdate = True, filePanelFollowsActiveConnection = True,
     keepFailedTerminalTabs = True, locale_preference = ''system'', reopenLastTerminal = False,
     remoteFileOpenMode = ''split'', restoreWorkspaceOnLaunch = True, recentConnectionLimit = 5\<rparr>"

definition default_fileTransfer :: FileTransferSettings where
  "default_fileTransfer = \<lparr>conflictPolicyDefault = ''ask'', concurrentTransfers = 3, downloadRoot = [],
     groupBySession = True, compressDirectories = True, keepArchives = False, timestampDirectory = True,
     timestampFormat = ''yyyyMMddHHmm''\<rparr>"

definition default_localTerminal :: LocalTerminalSettings where
  "default_localTerminal = \<lparr>ctrlVPaste = True, defaultProfileId = None, hiddenProfileIds = [],
     customProfiles = [], reopenLastLocalWorkspace = True\<rparr>"

definition default_security :: SecuritySettings where
  "default_security = \<lparr>masterPasswordEnabled = False, allowPasswordReveal = True, autoLockMinutes = 15\<rparr>"

definition default_appearance :: AppearanceSettings where
  "default_appearance = \<lparr>accentColor = ''blue'', accentColorCustom = ''#2374C6'', cursorBlink = True,
     cursorStyle = ''block'', density = ''comfortable'', iconSize = ''medium'', rememberPaneWidths = True,
     terminalFontCustom = ''\"Cascadia Code\", \"Cascadia Mono\", Consolas, monospace'',
     terminalFontMode = ''preset'', terminalFontPreset = ''cascadia-code'', terminalFontSize = 13,
     themeMode = ''system'',
     uiFontCustom = ''\"Segoe UI Variable Text\", \"Segoe UI\", \"Microsoft YaHei UI\", system-ui, sans-serif'',
     uiFontMode = ''preset'', uiFontPreset = ''segoe-ui'', uiFontSize = 14, windowMaterial = ''auto''\<rparr>"

definition defaultTerminalColorSchemeId :: string where
  "defaultTerminalColorSchemeId = ''mxterm-default''"

definition defaultSettings :: MxtermSettings where
  "defaultSettings = \<lparr>set_basic = default_basic, set_fileTransfer = default_fileTransfer,
     set_localTerminal = default_localTerminal, recordTerminalInputHistory = False,
     set_security = default_security,
     set_bindings = map (\<lambda>action. (sa_id action, sa_defaultBinding action)) shortcutActions,
     set_appearance = default_appearance, set_scheme = defaultTerminalColorSchemeId\<rparr>"

section \<open>Normalisation\<close>

definition normalize_basic :: "(string \<times> json) list \<Rightarrow> BasicSettings" where
  "normalize_basic basic =
     \<lparr>autoCheckAppUpdate = normalizeBoolean (field basic ''autoCheckAppUpdate'') (autoCheckAppUpdate default_basic),
      filePanelFollowsActiveConnection =
        normalizeBoolean (field basic ''filePanelFollowsActiveConnection'') (filePanelFollowsActiveConnection default_basic),
      keepFailedTerminalTabs = normalizeBoolean (field basic ''keepFailedTerminalTabs'') (keepFailedTerminalTabs default_basic),
      locale_preference = normalizeOneOf (field basic ''locale'') [''system'', ''en'', ''zh-CN''] (locale_preference default_basic),
      reopenLastTerminal = normalizeBoolean (field basic ''reopenLastTerminal'') (reopenLastTerminal default_basic),
      remoteFileOpenMode =
        normalizeOneOf (field basic ''remoteFileOpenMode'') [''split'', ''unified''] (remoteFileOpenMode default_basic),
      restoreWorkspaceOnLaunch =
        normalizeBoolean (field basic ''restoreWorkspaceOnLaunch'') (restoreWorkspaceOnLaunch default_basic),
      recentConnectionLimit =
        normalizeNumber (field basic ''recentConnectionLimit'') [5, 10, 15, 20, 30, 50] (recentConnectionLimit default_basic)\<rparr>"

definition normalize_fileTransfer :: "(string \<times> json) list \<Rightarrow> FileTransferSettings" where
  "normalize_fileTransfer fileTransfer =
     \<lparr>conflictPolicyDefault =
        normalizeOneOf (field fileTransfer ''conflictPolicyDefault'') [''ask'', ''overwrite'', ''skip'', ''rename'']
          (conflictPolicyDefault default_fileTransfer),
      concurrentTransfers =
        normalizeNumber (field fileTransfer ''concurrentTransfers'') [1, 2, 3, 4, 5, 6, 7, 8, 9, 10]
          (concurrentTransfers default_fileTransfer),
      downloadRoot = normalizePathInput (field fileTransfer ''downloadRoot'') (downloadRoot default_fileTransfer),
      groupBySession = normalizeBoolean (field fileTransfer ''groupBySession'') (groupBySession default_fileTransfer),
      compressDirectories = normalizeBoolean (field fileTransfer ''compressDirectories'') (compressDirectories default_fileTransfer),
      keepArchives = normalizeBoolean (field fileTransfer ''keepArchives'') (keepArchives default_fileTransfer),
      timestampDirectory = normalizeBoolean (field fileTransfer ''timestampDirectory'') (timestampDirectory default_fileTransfer),
      timestampFormat =
        normalizeOneOf (field fileTransfer ''timestampFormat'') [''yyyyMMddHHmm'', ''yyyyMMdd-HHmm'', ''yyyy-MM-dd-HHmm'']
          (timestampFormat default_fileTransfer)\<rparr>"

definition normalize_localTerminal :: "(string \<times> json) list \<Rightarrow> LocalTerminalSettings" where
  "normalize_localTerminal localTerminal =
     \<lparr>ctrlVPaste = normalizeBoolean (field localTerminal ''ctrlVPaste'') (ctrlVPaste default_localTerminal),
      defaultProfileId = normalizeOptionalString (field localTerminal ''defaultProfileId'') (defaultProfileId default_localTerminal),
      hiddenProfileIds = normalizeStringArray (field localTerminal ''hiddenProfileIds''),
      customProfiles = normalizeLocalTerminalProfiles (field localTerminal ''customProfiles''),
      reopenLastLocalWorkspace =
        normalizeBoolean (field localTerminal ''reopenLastLocalWorkspace'') (reopenLastLocalWorkspace default_localTerminal)\<rparr>"

definition normalize_security :: "(string \<times> json) list \<Rightarrow> SecuritySettings" where
  "normalize_security security =
     \<lparr>masterPasswordEnabled = normalizeBoolean (field security ''masterPasswordEnabled'') (masterPasswordEnabled default_security),
      allowPasswordReveal = normalizeBoolean (field security ''allowPasswordReveal'') (allowPasswordReveal default_security),
      autoLockMinutes = normalizeNumber (field security ''autoLockMinutes'') [0, 5, 15, 30, 60] (autoLockMinutes default_security)\<rparr>"

definition normalize_appearance :: "(string \<times> json) list \<Rightarrow> AppearanceSettings" where
  "normalize_appearance appearance =
     \<lparr>accentColor =
        normalizeOneOf (field appearance ''accentColor'')
          [''blue'', ''slate'', ''emerald'', ''amber'', ''rose'', ''violet'', ''custom''] (accentColor default_appearance),
      accentColorCustom = normalizeHexColor (field appearance ''accentColorCustom'') (accentColorCustom default_appearance),
      cursorBlink = normalizeBoolean (field appearance ''cursorBlink'') (cursorBlink default_appearance),
      cursorStyle =
        normalizeOneOf (field appearance ''cursorStyle'') [''block'', ''bar'', ''underline''] (cursorStyle default_appearance),
      density = normalizeOneOf (field appearance ''density'') [''comfortable'', ''compact''] (density default_appearance),
      iconSize = normalizeOneOf (field appearance ''iconSize'') [''small'', ''medium'', ''large''] (iconSize default_appearance),
      rememberPaneWidths = normalizeBoolean (field appearance ''rememberPaneWidths'') (rememberPaneWidths default_appearance),
      terminalFontCustom =
        normalizeFontFamilyInput (field appearance ''terminalFontCustom'') (terminalFontCustom default_appearance),
      terminalFontMode =
        normalizeOneOf (field appearance ''terminalFontMode'') [''preset'', ''custom''] (terminalFontMode default_appearance),
      terminalFontPreset =
        normalizeOneOf (field appearance ''terminalFontPreset'') (map fst terminalFontPresets) (terminalFontPreset default_appearance),
      terminalFontSize =
        normalizeNumber (field appearance ''terminalFontSize'') [12, 13, 14, 15, 16] (terminalFontSize default_appearance),
      themeMode = normalizeOneOf (field appearance ''themeMode'') [''system'', ''light'', ''dark''] (themeMode default_appearance),
      uiFontCustom = normalizeFontFamilyInput (field appearance ''uiFontCustom'') (uiFontCustom default_appearance),
      uiFontMode = normalizeOneOf (field appearance ''uiFontMode'') [''preset'', ''custom''] (uiFontMode default_appearance),
      uiFontPreset =
        normalizeOneOf (field appearance ''uiFontPreset'') (map fst uiFontPresets) (uiFontPreset default_appearance),
      uiFontSize = normalizeNumber (field appearance ''uiFontSize'') [12, 13, 14, 15] (uiFontSize default_appearance),
      windowMaterial =
        normalizeOneOf (field appearance ''windowMaterial'') [''auto'', ''mica'', ''acrylic'', ''micaAlt'', ''macosGlass'']
          (windowMaterial default_appearance)\<rparr>"

definition normalize_bindings :: "(string \<times> json) list \<Rightarrow> shortcut_bindings" where
  "normalize_bindings shortcuts =
     normalizeShortcutBindings (\<lambda>i. binding_value (field (record_or_empty (field shortcuts ''bindings'')) i))
       (map_of (set_bindings defaultSettings))"

definition normalize_scheme :: "(string \<times> json) list \<Rightarrow> string" where
  "normalize_scheme terminalTheme =
     (case field terminalTheme ''scheme'' of
        Some (JStr s) \<Rightarrow> if 0 < js_length (js_trim s) then s else set_scheme defaultSettings
      | _ \<Rightarrow> set_scheme defaultSettings)"

definition normalizeSettings :: "json \<Rightarrow> MxtermSettings" where
  "normalizeSettings v =
     (let rec = record_or_empty (Some v);
          part = (\<lambda>name. record_or_empty (field rec name))
      in \<lparr>set_basic = normalize_basic (part ''basic''),
          set_fileTransfer = normalize_fileTransfer (part ''fileTransfer''),
          set_localTerminal = normalize_localTerminal (part ''localTerminal''),
          recordTerminalInputHistory =
            normalizeBoolean (field (part ''command'') ''recordTerminalInputHistory'') (recordTerminalInputHistory defaultSettings),
          set_security = normalize_security (part ''security''),
          set_bindings = normalize_bindings (part ''shortcuts''),
          set_appearance = normalize_appearance (part ''appearance''),
          set_scheme = normalize_scheme (part ''terminalTheme'')\<rparr>)"

section \<open>Settings as objects\<close>

text \<open>A number, a text or \<open>null\<close>, and the entries of an object with a field that may be undefined.\<close>

definition json_number :: "rat \<Rightarrow> json" where
  "json_number r = JNum (Finite r)"

definition json_or_null :: "string option \<Rightarrow> json" where
  "json_or_null v = (case v of None \<Rightarrow> JNull | Some s \<Rightarrow> JStr s)"

definition json_defined :: "string \<Rightarrow> string option \<Rightarrow> (string \<times> json) list" where
  "json_defined name v = (case v of None \<Rightarrow> [] | Some s \<Rightarrow> [(name, JStr s)])"

definition basic_json :: "BasicSettings \<Rightarrow> (string \<times> json) list" where
  "basic_json b =
     [(''autoCheckAppUpdate'', JBool (autoCheckAppUpdate b)),
      (''filePanelFollowsActiveConnection'', JBool (filePanelFollowsActiveConnection b)),
      (''keepFailedTerminalTabs'', JBool (keepFailedTerminalTabs b)),
      (''locale'', JStr (locale_preference b)),
      (''reopenLastTerminal'', JBool (reopenLastTerminal b)),
      (''remoteFileOpenMode'', JStr (remoteFileOpenMode b)),
      (''restoreWorkspaceOnLaunch'', JBool (restoreWorkspaceOnLaunch b)),
      (''recentConnectionLimit'', json_number (recentConnectionLimit b))]"

definition fileTransfer_json :: "FileTransferSettings \<Rightarrow> (string \<times> json) list" where
  "fileTransfer_json f =
     [(''conflictPolicyDefault'', JStr (conflictPolicyDefault f)),
      (''concurrentTransfers'', json_number (concurrentTransfers f)),
      (''downloadRoot'', JStr (downloadRoot f)),
      (''groupBySession'', JBool (groupBySession f)),
      (''compressDirectories'', JBool (compressDirectories f)),
      (''keepArchives'', JBool (keepArchives f)),
      (''timestampDirectory'', JBool (timestampDirectory f)),
      (''timestampFormat'', JStr (timestampFormat f))]"

definition profile_json :: "LocalTerminalProfileInput \<Rightarrow> (string \<times> json) list" where
  "profile_json p =
     json_defined ''id'' (lp_id p) @
     [(''name'', JStr (lp_name p)), (''kind'', JStr (lp_kind p)), (''platform'', JStr (lp_platform p)),
      (''source'', JStr (lp_source p)), (''command'', JStr (lp_command p)),
      (''args'', JArr (map JStr (lp_args p))), (''cwd'', json_or_null (lp_cwd p)),
      (''env'', JObj (map (\<lambda>(k, v). (k, JStr v)) (lp_env p))), (''icon'', JStr (lp_icon p)),
      (''hidden'', JBool (lp_hidden p)), (''detected'', JBool (lp_detected p))]"

definition localTerminal_json :: "LocalTerminalSettings \<Rightarrow> (string \<times> json) list" where
  "localTerminal_json l =
     [(''ctrlVPaste'', JBool (ctrlVPaste l)),
      (''defaultProfileId'', json_or_null (defaultProfileId l)),
      (''hiddenProfileIds'', JArr (map JStr (hiddenProfileIds l))),
      (''customProfiles'', JArr (map (\<lambda>p. JObj (profile_json p)) (customProfiles l))),
      (''reopenLastLocalWorkspace'', JBool (reopenLastLocalWorkspace l))]"

definition security_json :: "SecuritySettings \<Rightarrow> (string \<times> json) list" where
  "security_json s =
     [(''masterPasswordEnabled'', JBool (masterPasswordEnabled s)),
      (''allowPasswordReveal'', JBool (allowPasswordReveal s)),
      (''autoLockMinutes'', json_number (autoLockMinutes s))]"

definition bindings_json :: "shortcut_bindings \<Rightarrow> (string \<times> json) list" where
  "bindings_json bindings = [(''bindings'', JObj (map (\<lambda>(i, b). (i, json_or_null b)) bindings))]"

definition appearance_json :: "AppearanceSettings \<Rightarrow> (string \<times> json) list" where
  "appearance_json a =
     [(''accentColor'', JStr (accentColor a)), (''accentColorCustom'', JStr (accentColorCustom a)),
      (''cursorBlink'', JBool (cursorBlink a)), (''cursorStyle'', JStr (cursorStyle a)),
      (''density'', JStr (density a)), (''iconSize'', JStr (iconSize a)),
      (''rememberPaneWidths'', JBool (rememberPaneWidths a)),
      (''terminalFontCustom'', JStr (terminalFontCustom a)), (''terminalFontMode'', JStr (terminalFontMode a)),
      (''terminalFontPreset'', JStr (terminalFontPreset a)), (''terminalFontSize'', json_number (terminalFontSize a)),
      (''themeMode'', JStr (themeMode a)), (''uiFontCustom'', JStr (uiFontCustom a)),
      (''uiFontMode'', JStr (uiFontMode a)), (''uiFontPreset'', JStr (uiFontPreset a)),
      (''uiFontSize'', json_number (uiFontSize a)), (''windowMaterial'', JStr (windowMaterial a))]"

definition settings_fields :: "MxtermSettings \<Rightarrow> (string \<times> json) list" where
  "settings_fields s =
     [(''basic'', JObj (basic_json (set_basic s))),
      (''fileTransfer'', JObj (fileTransfer_json (set_fileTransfer s))),
      (''localTerminal'', JObj (localTerminal_json (set_localTerminal s))),
      (''command'', JObj [(''recordTerminalInputHistory'', JBool (recordTerminalInputHistory s))]),
      (''security'', JObj (security_json (set_security s))),
      (''shortcuts'', JObj (bindings_json (set_bindings s))),
      (''appearance'', JObj (appearance_json (set_appearance s))),
      (''terminalTheme'', JObj [(''scheme'', JStr (set_scheme s))])]"

definition settings_json :: "MxtermSettings \<Rightarrow> json" where
  "settings_json s = JObj (settings_fields s)"

text \<open>The entries of \<open>{...base, ...update}\<close>, where a lookup finds the update first.\<close>

definition spread :: "(string \<times> json) list \<Rightarrow> (string \<times> json) list \<Rightarrow> (string \<times> json) list" where
  "spread base update = update @ base"

section \<open>The hook\<close>

definition update_part :: "string \<Rightarrow> (string \<times> json) list \<Rightarrow> (string \<times> json) list \<Rightarrow> MxtermSettings \<Rightarrow> MxtermSettings" where
  "update_part name part update s =
     normalizeSettings (JObj (spread (settings_fields s) [(name, JObj (spread part update))]))"

definition updateBasic :: "(string \<times> json) list \<Rightarrow> MxtermSettings \<Rightarrow> MxtermSettings" where
  "updateBasic update s = update_part ''basic'' (basic_json (set_basic s)) update s"

definition updateAppearance :: "(string \<times> json) list \<Rightarrow> MxtermSettings \<Rightarrow> MxtermSettings" where
  "updateAppearance update s = update_part ''appearance'' (appearance_json (set_appearance s)) update s"

definition updateSecurity :: "(string \<times> json) list \<Rightarrow> MxtermSettings \<Rightarrow> MxtermSettings" where
  "updateSecurity update s = update_part ''security'' (security_json (set_security s)) update s"

definition updateShortcuts :: "(string \<times> json) list \<Rightarrow> MxtermSettings \<Rightarrow> MxtermSettings" where
  "updateShortcuts update s = update_part ''shortcuts'' (bindings_json (set_bindings s)) update s"

definition updateTerminalTheme :: "(string \<times> json) list \<Rightarrow> MxtermSettings \<Rightarrow> MxtermSettings" where
  "updateTerminalTheme update s = update_part ''terminalTheme'' [(''scheme'', JStr (set_scheme s))] update s"

definition updateFileTransfer :: "(string \<times> json) list \<Rightarrow> MxtermSettings \<Rightarrow> MxtermSettings" where
  "updateFileTransfer update s = update_part ''fileTransfer'' (fileTransfer_json (set_fileTransfer s)) update s"

definition updateCommand :: "(string \<times> json) list \<Rightarrow> MxtermSettings \<Rightarrow> MxtermSettings" where
  "updateCommand update s =
     update_part ''command'' [(''recordTerminalInputHistory'', JBool (recordTerminalInputHistory s))] update s"

definition updateLocalTerminal :: "(string \<times> json) list \<Rightarrow> MxtermSettings \<Rightarrow> MxtermSettings" where
  "updateLocalTerminal update s = update_part ''localTerminal'' (localTerminal_json (set_localTerminal s)) update s"

text \<open>
  Local storage holds the text of a JSON value, or nothing; a text that does not parse makes
  \<open>JSON.parse\<close> throw. Writing stores the object of the settings, unless the storage is not available.
\<close>

datatype stored_text = NothingStored | BrokenText | StoredJson json

definition readStartupSettings :: "stored_text \<Rightarrow> MxtermSettings" where
  "readStartupSettings stored =
     (case stored of
        NothingStored \<Rightarrow> normalizeSettings JNull
      | BrokenText \<Rightarrow> defaultSettings
      | StoredJson v \<Rightarrow> normalizeSettings v)"

definition writeStoredSettings :: "bool \<Rightarrow> MxtermSettings \<Rightarrow> stored_text \<Rightarrow> stored_text" where
  "writeStoredSettings available s stored = (if available then StoredJson (settings_json s) else stored)"

section \<open>Fonts and colours\<close>

definition resolveUiFontFamily :: "AppearanceSettings \<Rightarrow> string" where
  "resolveUiFontFamily a =
     (if uiFontMode a = ''custom'' then normalizeFontFamilyInput (Some (JStr (uiFontCustom a))) (uiFontCustom default_appearance)
      else case Option.bind (map_of uiFontPresets (uiFontPreset a)) (truthy \<circ> Some) of
             None \<Rightarrow> uiFontCustom default_appearance
           | Some stack \<Rightarrow> stack)"

definition resolveTerminalFontFamily :: "AppearanceSettings \<Rightarrow> string" where
  "resolveTerminalFontFamily a =
     (if terminalFontMode a = ''custom''
      then normalizeFontFamilyInput (Some (JStr (terminalFontCustom a))) (terminalFontCustom default_appearance)
      else case Option.bind (map_of terminalFontPresets (terminalFontPreset a)) (truthy \<circ> Some) of
             None \<Rightarrow> terminalFontCustom default_appearance
           | Some stack \<Rightarrow> stack)"

text \<open>\<open>parseInt\<close> of hexadecimal digits, and a channel as two of them.\<close>

definition digit_value :: "char \<Rightarrow> nat" where
  "digit_value c =
     (let n = (of_char c :: nat) in
      if 48 \<le> n \<and> n \<le> 57 then n - 48 else if 65 \<le> n \<and> n \<le> 70 then n - 55 else n - 87)"

definition hex_value :: "string \<Rightarrow> nat" where
  "hex_value s = foldl (\<lambda>n c. 16 * n + digit_value c) 0 s"

definition hex_text :: "nat \<Rightarrow> string" where
  "hex_text n = [''0123456789ABCDEF'' ! (n div 16), ''0123456789ABCDEF'' ! (n mod 16)]"

definition mix_channel :: "nat \<Rightarrow> nat" where
  "mix_channel channel = nat \<lfloor>(of_nat channel + (255 - of_nat channel) * (6 / 25) + 1 / 2 :: rat)\<rfloor>"

definition createDarkAccentColor :: "string \<Rightarrow> string" where
  "createDarkAccentColor lightHex =
     (let normalized = normalizeHexColor (Some (JStr lightHex)) (accentColorCustom default_appearance);
          red = hex_value (take 2 (drop 1 normalized));
          green = hex_value (take 2 (drop 3 normalized));
          blue = hex_value (take 2 (drop 5 normalized))
      in CHR ''#'' # concat (map hex_text [mix_channel red, mix_channel green, mix_channel blue]))"

definition accentColorPresets :: "(string \<times> string \<times> string) list" where
  "accentColorPresets =
     [(''blue'', ''#2374C6'', ''#73B7FF''), (''emerald'', ''#168264'', ''#57D8AE''), (''amber'', ''#C97A19'', ''#FFBF66''),
      (''rose'', ''#C85F82'', ''#FF9DB8''), (''violet'', ''#7460DE'', ''#AC9CFF'')]"

definition legacyAccentColors :: "(string \<times> string \<times> string) list" where
  "legacyAccentColors = [(''slate'', ''#64748B'', ''#94A3B8'')]"

text \<open>The light and the dark colour.\<close>

definition resolveAccentColors :: "AppearanceSettings \<Rightarrow> string \<times> string" where
  "resolveAccentColors a =
     (if accentColor a = ''custom'' then
        (let light = normalizeHexColor (Some (JStr (accentColorCustom a))) (accentColorCustom default_appearance)
         in (light, createDarkAccentColor light))
      else case coalesce (map_of accentColorPresets (accentColor a)) (map_of legacyAccentColors (accentColor a)) of
             Some preset \<Rightarrow> preset
           | None \<Rightarrow> (accentColorCustom default_appearance, createDarkAccentColor (accentColorCustom default_appearance)))"

definition resolveAccentColor :: "AppearanceSettings \<Rightarrow> string" where
  "resolveAccentColor a = fst (resolveAccentColors a)"

section \<open>Well-formed settings\<close>

lemma js_trim_parts: "\<exists>a b. s = a @ js_trim s @ b"
proof -
  obtain a where a: "s = a @ strip js_spaces s"
    using strip_suffix [of js_spaces s] by (auto simp: suffix_def)
  have "suffix (strip (map rev js_spaces) (rev (strip js_spaces s))) (rev (strip js_spaces s))"
    by (rule strip_suffix)
  then obtain b where "strip js_spaces s = js_trim s @ b"
    by (auto simp: js_trim_def suffix_to_prefix prefix_def)
  with a show ?thesis
    by metis
qed

lemma js_length_trim: "js_length (js_trim s) \<le> js_length s"
proof -
  obtain a b where "s = a @ js_trim s @ b"
    using js_trim_parts by blast
  then have "js_length s = js_length a + (js_length (js_trim s) + js_length b)"
    by (metis js_length_append)
  then show ?thesis
    by simp
qed

lemma set_js_trim: "set (js_trim s) \<subseteq> set s"
  using js_trim_parts [of s] by (metis Un_iff set_append subsetI)

lemma printable_trimmed:
  assumes "\<forall>c \<in> set s. 33 \<le> (of_char c :: nat) \<and> (of_char c :: nat) < 127"
  shows "trimmed s"
proof -
  have "\<forall>w \<in> set js_spaces. \<exists>c \<in> set w. \<not> (33 \<le> (of_char c :: nat) \<and> (of_char c :: nat) < 127)"
    by (simp add: js_spaces_def)
  then show ?thesis
    using assms by (auto simp: trimmed_def dest!: set_mono_prefix set_mono_suffix)
qed

definition font_ok :: "string \<Rightarrow> bool" where
  "font_ok s \<longleftrightarrow> 0 < js_length s \<and> js_length s \<le> 180 \<and> list_all (\<lambda>c. c \<notin> set font_breaks) s"

definition path_ok :: "string \<Rightarrow> bool" where
  "path_ok s \<longleftrightarrow> js_length s \<le> 260 \<and> list_all (\<lambda>c. c \<notin> set path_breaks) s"

definition hex_color :: "string \<Rightarrow> bool" where
  "hex_color s \<longleftrightarrow> length s = 7 \<and> hd s = CHR ''#'' \<and> list_all (\<lambda>c. c \<in> set ''0123456789ABCDEF'') (tl s)"

definition text_ok :: "string \<Rightarrow> bool" where
  "text_ok s \<longleftrightarrow> s \<noteq> [] \<and> trimmed s"

definition profile_ok :: "LocalTerminalProfileInput \<Rightarrow> bool" where
  "profile_ok p \<longleftrightarrow> list_all text_ok [lp_name p, lp_kind p, lp_command p, lp_platform p, lp_source p, lp_icon p] \<and>
     pred_option text_ok (lp_id p) \<and> pred_option text_ok (lp_cwd p) \<and> list_all (\<lambda>(k, v). trimmed v) (lp_env p)"

definition basic_ok :: "BasicSettings \<Rightarrow> bool" where
  "basic_ok b \<longleftrightarrow> locale_preference b \<in> set [''system'', ''en'', ''zh-CN''] \<and> remoteFileOpenMode b \<in> set [''split'', ''unified''] \<and>
     recentConnectionLimit b \<in> set [5, 10, 15, 20, 30, 50]"

definition fileTransfer_ok :: "FileTransferSettings \<Rightarrow> bool" where
  "fileTransfer_ok f \<longleftrightarrow> conflictPolicyDefault f \<in> set [''ask'', ''overwrite'', ''skip'', ''rename''] \<and>
     concurrentTransfers f \<in> set [1, 2, 3, 4, 5, 6, 7, 8, 9, 10] \<and> path_ok (downloadRoot f) \<and>
     timestampFormat f \<in> set [''yyyyMMddHHmm'', ''yyyyMMdd-HHmm'', ''yyyy-MM-dd-HHmm'']"

definition localTerminal_ok :: "LocalTerminalSettings \<Rightarrow> bool" where
  "localTerminal_ok l \<longleftrightarrow> pred_option text_ok (defaultProfileId l) \<and> list_all text_ok (hiddenProfileIds l) \<and>
     list_all profile_ok (customProfiles l)"

definition bindings_ok :: "shortcut_bindings \<Rightarrow> bool" where
  "bindings_ok bindings \<longleftrightarrow> map fst bindings = map sa_id shortcutActions \<and>
     list_all (\<lambda>(i, b). pred_option (\<lambda>s. validateShortcutBinding (Some s) = ShortcutValid \<and>
       normalizeShortcutBinding (Some s) = Some s) b) bindings"

definition appearance_ok :: "AppearanceSettings \<Rightarrow> bool" where
  "appearance_ok a \<longleftrightarrow>
     accentColor a \<in> set [''blue'', ''slate'', ''emerald'', ''amber'', ''rose'', ''violet'', ''custom''] \<and>
     hex_color (accentColorCustom a) \<and> cursorStyle a \<in> set [''block'', ''bar'', ''underline''] \<and>
     density a \<in> set [''comfortable'', ''compact''] \<and> iconSize a \<in> set [''small'', ''medium'', ''large''] \<and>
     font_ok (terminalFontCustom a) \<and> terminalFontMode a \<in> set [''preset'', ''custom''] \<and>
     terminalFontPreset a \<in> set (map fst terminalFontPresets) \<and> terminalFontSize a \<in> set [12, 13, 14, 15, 16] \<and>
     themeMode a \<in> set [''system'', ''light'', ''dark''] \<and> font_ok (uiFontCustom a) \<and>
     uiFontMode a \<in> set [''preset'', ''custom''] \<and> uiFontPreset a \<in> set (map fst uiFontPresets) \<and>
     uiFontSize a \<in> set [12, 13, 14, 15] \<and> windowMaterial a \<in> set [''auto'', ''mica'', ''acrylic'', ''micaAlt'', ''macosGlass'']"

definition settings_ok :: "MxtermSettings \<Rightarrow> bool" where
  "settings_ok s \<longleftrightarrow> basic_ok (set_basic s) \<and> fileTransfer_ok (set_fileTransfer s) \<and>
     localTerminal_ok (set_localTerminal s) \<and> autoLockMinutes (set_security s) \<in> set [0, 5, 15, 30, 60] \<and>
     bindings_ok (set_bindings s) \<and> appearance_ok (set_appearance s) \<and> 0 < js_length (js_trim (set_scheme s))"

text \<open>The three texts that are trimmed before their characters are replaced.\<close>

definition settings_trimmed :: "MxtermSettings \<Rightarrow> bool" where
  "settings_trimmed s \<longleftrightarrow> trimmed (downloadRoot (set_fileTransfer s)) \<and>
     trimmed (terminalFontCustom (set_appearance s)) \<and> trimmed (uiFontCustom (set_appearance s))"

section \<open>The readers\<close>

named_theorems reader_defs
lemmas [reader_defs] = normalizeBoolean_def normalizeNumber_def normalizeOneOf_def

lemma normalizeOneOf_in: "fallback \<in> set allowed \<Longrightarrow> normalizeOneOf v allowed fallback \<in> set allowed"
  by (auto simp: normalizeOneOf_def split: option.splits json.splits)

lemma normalizeNumber_in: "fallback \<in> set allowed \<Longrightarrow> normalizeNumber v allowed fallback \<in> set allowed"
  by (auto simp: normalizeNumber_def split: option.splits json.splits js_number.splits)

lemma js_length_replace:
  "js_length (map (\<lambda>c. if c \<in> set font_breaks then CHR '' '' else c) s) = js_length s"
  unfolding js_length_def by (rule arg_cong [where f = sum_list]) (auto simp: font_breaks_def Let_def)

lemma font_ok_normalize:
  assumes "font_ok fallback"
  shows "font_ok (normalizeFontFamilyInput v fallback)"
proof -
  have "\<not> CHR '' '' \<in> set font_breaks"
    by (simp add: font_breaks_def)
  then have "list_all (\<lambda>c. c \<notin> set font_breaks) (map (\<lambda>c. if c \<in> set font_breaks then CHR '' '' else c) s)" for s
    by (auto simp: list_all_iff)
  then show ?thesis
    using assms by (auto simp: normalizeFontFamilyInput_def font_ok_def Let_def split: option.splits json.splits)
qed

lemma font_text_id: "list_all (\<lambda>c. c \<notin> set font_breaks) s \<Longrightarrow> map (\<lambda>c. if c \<in> set font_breaks then CHR '' '' else c) s = s"
  by (simp add: list_all_iff map_idI)

lemma font_again:
  assumes "font_ok s"
  shows "normalizeFontFamilyInput (Some (JStr s)) fallback = (if 0 < js_length (js_trim s) then js_trim s else fallback)"
proof -
  have "list_all (\<lambda>c. c \<notin> set font_breaks) (js_trim s)"
    using assms set_js_trim by (auto simp: font_ok_def list_all_iff)
  then show ?thesis
    using assms js_length_trim [of s]
    by (simp add: normalizeFontFamilyInput_def Let_def font_text_id font_ok_def)
qed

lemma path_ok_normalize: "path_ok fallback \<Longrightarrow> path_ok (normalizePathInput v fallback)"
  by (auto simp: normalizePathInput_def path_ok_def Let_def list_all_iff split: option.splits json.splits)

lemma path_again: "path_ok s \<Longrightarrow> normalizePathInput (Some (JStr s)) fallback = js_trim s"
proof -
  assume ok: "path_ok s"
  then have "filter (\<lambda>c. c \<notin> set path_breaks) (js_trim s) = js_trim s"
    using set_js_trim [of s] by (intro filter_True) (auto simp: path_ok_def list_all_iff)
  then show ?thesis
    using ok js_length_trim [of s] by (simp add: normalizePathInput_def path_ok_def Let_def)
qed

lemma hex_upper_digits:
  "list_all (\<lambda>c. upper_char c = c \<and> hex_char c \<and> 33 \<le> (of_char c :: nat) \<and> (of_char c :: nat) < 127) ''0123456789ABCDEF''"
  by code_simp

lemma hex_digits_upper: "list_all (\<lambda>c. upper_char c \<in> set ''0123456789ABCDEF'') ''0123456789abcdefABCDEF''"
  by code_simp

lemma upper_hex: "hex_char c \<Longrightarrow> upper_char c \<in> set ''0123456789ABCDEF''"
  using hex_digits_upper unfolding hex_char_def list_all_iff by blast

lemma upper_hash [simp]: "upper_char CHR ''#'' = CHR ''#''"
  by (simp add: upper_char_def)

lemma hex_color_short:
  assumes "length digits = 3" "list_all hex_char digits"
  shows "hex_color (toUpperCase (CHR ''#'' # concat (map (\<lambda>d. [d, d]) digits)))"
proof -
  obtain x y z where "digits = [x, y, z]"
    using assms(1) by (auto simp: length_Suc_conv numeral_3_eq_3)
  then show ?thesis
    using assms(2) upper_hex unfolding hex_color_def toUpperCase_def by (simp del: set_simps insert_iff)
qed

lemma hex_color_full:
  assumes "length digits = 6" "list_all hex_char digits"
  shows "hex_color (CHR ''#'' # toUpperCase digits)"
  using assms upper_hex unfolding hex_color_def toUpperCase_def by (simp add: list_all_iff del: set_simps insert_iff)

lemma hex_color_normalize: "hex_color fallback \<Longrightarrow> hex_color (normalizeHexColor v fallback)"
  by (simp add: normalizeHexColor_def hex_color_short hex_color_full split: option.splits json.splits list.splits)

lemma hex_color_again: "hex_color s \<Longrightarrow> normalizeHexColor (Some (JStr s)) fallback = s"
proof -
  assume ok: "hex_color s"
  then obtain digits where s: "s = CHR ''#'' # digits" "length digits = 6" "list_all (\<lambda>c. c \<in> set ''0123456789ABCDEF'') digits"
    by (cases s) (auto simp: hex_color_def)
  have digit: "upper_char c = c \<and> hex_char c \<and> 33 \<le> (of_char c :: nat) \<and> (of_char c :: nat) < 127" if "c \<in> set digits" for c
    using that s(3) hex_upper_digits unfolding list_all_iff by blast
  have "list_all hex_char digits" and "toUpperCase digits = digits"
    unfolding toUpperCase_def using digit by (auto simp: list_all_iff intro: map_idI)
  moreover have "js_trim s = s"
    by (rule js_trim_id, rule printable_trimmed) (use digit s(1) in auto)
  ultimately show ?thesis
    using s by (simp add: normalizeHexColor_def)
qed

lemma text_ok_trim: "js_trim s \<noteq> [] \<Longrightarrow> text_ok (js_trim s)"
  by (simp add: text_ok_def trimmed_js_trim)

lemma text_ok_again [simp]: "text_ok s \<Longrightarrow> js_trim s = s" and text_ok_nonempty [simp]: "text_ok s \<Longrightarrow> s \<noteq> []"
  by (auto simp: text_ok_def js_trim_id)

lemma text_ok_text_or: "text_ok fallback \<Longrightarrow> text_ok (text_or v fallback)"
  by (auto simp: text_or_def trimmed_text_def text_ok_trim split: option.splits json.splits)

lemma text_ok_text_or_null: "pred_option text_ok (text_or_null v)"
  by (auto simp: text_or_null_def trimmed_text_def text_ok_trim split: option.splits json.splits)

lemma text_ok_trimmed_text: "trimmed_text v \<noteq> [] \<Longrightarrow> text_ok (trimmed_text v)"
  by (auto simp: trimmed_text_def text_ok_trim split: option.splits json.splits)

lemma normalize_env_trimmed: "list_all (\<lambda>(k, v). trimmed v) (normalize_env v)"
  by (auto simp: normalize_env_def list_all_iff List.map_filter_def trimmed_js_trim split: option.splits json.splits)

lemma profile_ok_normalize:
  assumes "normalizeLocalTerminalProfile v = Some p"
  shows "profile_ok p"
proof -
  have "text_ok ''all''" "text_ok ''custom''" "text_ok ''terminal-shell''"
    by (auto simp: text_ok_def intro!: printable_trimmed)
  then show ?thesis
    using assms
    by (auto simp: normalizeLocalTerminalProfile_def profile_ok_def Let_def text_ok_text_or text_ok_text_or_null
        text_ok_trimmed_text normalize_env_trimmed split: json.splits if_splits)
qed

lemma trimmed_text_JStr [simp]: "trimmed_text (Some (JStr s)) = js_trim s"
  by (simp add: trimmed_text_def)

lemma json_texts_JStr [simp]: "json_texts (map JStr xs) = xs"
  by (induction xs) (simp_all add: json_texts_def List.map_filter_simps)

lemma normalize_env_json: "list_all (\<lambda>(k, v). trimmed v) env \<Longrightarrow> normalize_env (Some (JObj (map (\<lambda>(k, v). (k, JStr v)) env))) = env"
  by (induction env) (auto simp: normalize_env_def List.map_filter_simps js_trim_id)

lemma field_Nil [simp]: "field [] name = None"
  by (simp add: field_def)

lemma field_Cons [simp]: "field ((k, v) # obj) name = (if k = name then Some v else field obj name)"
  by (simp add: field_def)

lemma field_defined [simp]:
  "field (json_defined k v @ obj) name = (if k = name \<and> v \<noteq> None then map_option JStr v else field obj name)"
  by (cases v) (auto simp: json_defined_def)

lemma text_or_null_json [simp]: "pred_option text_ok v \<Longrightarrow> text_or_null (Some (json_or_null v)) = v"
  by (cases v) (simp_all add: text_or_null_def json_or_null_def trimmed_text_def)

lemma text_or_null_defined [simp]: "pred_option text_ok v \<Longrightarrow> text_or_null (map_option JStr v) = v"
  by (cases v) (simp_all add: text_or_null_def trimmed_text_def)

lemma text_or_null_None [simp]: "text_or_null None = None"
  by (simp add: text_or_null_def trimmed_text_def)

lemma profile_json_again: "profile_ok p \<Longrightarrow> normalizeLocalTerminalProfile (JObj (profile_json p)) = Some p"
  by (cases p) (simp add: profile_ok_def normalizeLocalTerminalProfile_def profile_json_def Let_def text_or_def
      normalizeBoolean_def normalize_env_json)

section \<open>The parts\<close>

lemma basic_ok_normalize: "basic_ok (normalize_basic obj)"
  unfolding basic_ok_def normalize_basic_def BasicSettings.simps
  by (intro conjI normalizeOneOf_in normalizeNumber_in) (simp_all add: default_basic_def)

lemma basic_json_again: "basic_ok b \<Longrightarrow> normalize_basic (basic_json b) = b"
  by (cases b) (simp add: basic_ok_def normalize_basic_def basic_json_def json_number_def reader_defs)

lemma fileTransfer_ok_normalize: "fileTransfer_ok (normalize_fileTransfer obj)"
  unfolding fileTransfer_ok_def normalize_fileTransfer_def FileTransferSettings.simps
  by (intro conjI normalizeOneOf_in normalizeNumber_in path_ok_normalize) (simp_all add: default_fileTransfer_def path_ok_def)

lemma fileTransfer_json_again:
  "fileTransfer_ok f \<Longrightarrow> normalize_fileTransfer (fileTransfer_json f) = f\<lparr>downloadRoot := js_trim (downloadRoot f)\<rparr>"
  by (cases f) (simp add: fileTransfer_ok_def normalize_fileTransfer_def fileTransfer_json_def json_number_def reader_defs path_again)

lemma localTerminal_ok_normalize: "localTerminal_ok (normalize_localTerminal obj)"
proof -
  have "list_all text_ok (normalizeStringArray v)" for v
    by (auto simp: normalizeStringArray_def list_all_iff text_ok_trim split: option.splits json.splits)
  moreover have "list_all profile_ok (normalizeLocalTerminalProfiles v)" for v
    by (auto simp: normalizeLocalTerminalProfiles_def list_all_iff List.map_filter_def intro: profile_ok_normalize
        split: option.splits json.splits)
  moreover have "pred_option text_ok (normalizeOptionalString v None)" for v
    by (auto simp: normalizeOptionalString_def text_ok_trim split: option.splits json.splits)
  ultimately show ?thesis
    by (simp add: localTerminal_ok_def normalize_localTerminal_def default_localTerminal_def)
qed

lemma profiles_json_again:
  "list_all profile_ok ps \<Longrightarrow> normalizeLocalTerminalProfiles (Some (JArr (map (\<lambda>p. JObj (profile_json p)) ps))) = ps"
  by (induction ps) (simp_all add: normalizeLocalTerminalProfiles_def List.map_filter_simps profile_json_again)

lemma localTerminal_json_again:
  assumes "localTerminal_ok l"
  shows "normalize_localTerminal (localTerminal_json l) = l"
proof -
  have "normalizeOptionalString (Some (json_or_null v)) None = v" if "pred_option text_ok v" for v
    using that by (cases v) (simp_all add: normalizeOptionalString_def json_or_null_def)
  moreover have "normalizeStringArray (Some (JArr (map JStr xs))) = xs" if "list_all text_ok xs" for xs
    using that unfolding normalizeStringArray_def by (simp add: list_all_iff map_idI)
  ultimately show ?thesis
    using assms
    by (cases l) (simp add: localTerminal_ok_def normalize_localTerminal_def localTerminal_json_def default_localTerminal_def
        normalizeBoolean_def profiles_json_again)
qed

lemma appearance_ok_normalize: "appearance_ok (normalize_appearance obj)"
  unfolding appearance_ok_def normalize_appearance_def AppearanceSettings.simps
  by (intro conjI normalizeOneOf_in normalizeNumber_in font_ok_normalize hex_color_normalize)
    (simp_all add: default_appearance_def terminalFontPresets_def uiFontPresets_def font_ok_def hex_color_def js_length_def
      font_breaks_def)

lemma appearance_json_again:
  "appearance_ok a \<Longrightarrow> normalize_appearance (appearance_json a) =
     a\<lparr>terminalFontCustom := normalizeFontFamilyInput (Some (JStr (terminalFontCustom a))) (terminalFontCustom default_appearance),
       uiFontCustom := normalizeFontFamilyInput (Some (JStr (uiFontCustom a))) (uiFontCustom default_appearance)\<rparr>"
  by (cases a) (simp add: appearance_ok_def normalize_appearance_def appearance_json_def json_number_def reader_defs hex_color_again
      del: insert_iff)

lemma bindings_ok_normalize: "bindings_ok (normalize_bindings obj)"
proof -
  let ?stored = "\<lambda>i. binding_value (field (record_or_empty (field obj ''bindings'')) i)"
  have eq: "normalize_bindings obj = normalizeShortcutBindings ?stored defaultShortcutBindings"
    by (simp add: normalize_bindings_def defaultSettings_def defaultShortcutBindings_def)
  then have "validateShortcutBinding (Some s) = ShortcutValid \<and> normalizeShortcutBinding (Some s) = Some s"
    if "(i, Some s) \<in> set (normalize_bindings obj)" for i s
    using stored_shortcuts_sound [of i "Some s" ?stored] that by simp
  then have "list_all (\<lambda>(i, b). pred_option (\<lambda>s. validateShortcutBinding (Some s) = ShortcutValid \<and>
       normalizeShortcutBinding (Some s) = Some s) b) (normalize_bindings obj)"
    unfolding list_all_iff pred_option_def by fastforce
  then show ?thesis
    by (simp add: bindings_ok_def) (simp add: eq normalizeShortcutBindings_def comp_def)
qed

lemma stored_binding_again:
  assumes "pred_option (\<lambda>s. validateShortcutBinding (Some s) = ShortcutValid \<and> normalizeShortcutBinding (Some s) = Some s) b"
  shows "normalize_stored fallback action (binding_value (Some (json_or_null b))) = b"
proof (cases b)
  case (Some s)
  then show ?thesis
    using assms truthy_normalized [of "Some s"]
    by (simp add: json_or_null_def binding_value_def normalize_stored_def Let_def)
qed (simp add: json_or_null_def binding_value_def normalize_stored_def)

lemma bindings_json_again:
  assumes ok: "bindings_ok bindings"
  shows "normalize_bindings (bindings_json bindings) = bindings"
proof (rule nth_equalityI)
  have ids: "map fst bindings = map sa_id shortcutActions"
    using ok by (simp add: bindings_ok_def)
  then show len: "length (normalize_bindings (bindings_json bindings)) = length bindings"
    unfolding normalize_bindings_def normalizeShortcutBindings_def by (metis length_map)
  have "distinct (map sa_id shortcutActions)"
    by (simp add: shortcutActions_def shortcut_action_def aiSendMessageShortcutActionId_def)
  then have unique: "distinct (map fst bindings)"
    by (simp add: ids)
  fix k assume "k < length (normalize_bindings (bindings_json bindings))"
  then have k: "k < length bindings" "k < length shortcutActions"
    using len ids by (auto dest: map_eq_imp_length_eq)
  obtain i b where b: "bindings ! k = (i, b)"
    by (cases "bindings ! k")
  then have i: "sa_id (shortcutActions ! k) = i"
    using k ids by (metis fst_conv nth_map)
  have "map_of bindings i = Some b"
    using unique k(1) b by (metis map_of_eq_Some_iff nth_mem)
  then have "field (map (\<lambda>(i, b). (i, json_or_null b)) bindings) i = Some (json_or_null b)"
    by (simp add: field_def map_of_map)
  moreover have "pred_option (\<lambda>s. validateShortcutBinding (Some s) = ShortcutValid \<and> normalizeShortcutBinding (Some s) = Some s) b"
    using ok k(1) b unfolding bindings_ok_def list_all_length by fastforce
  ultimately show "normalize_bindings (bindings_json bindings) ! k = bindings ! k"
    using k i b
    by (simp add: normalize_bindings_def normalizeShortcutBindings_def bindings_json_def record_or_empty_def stored_binding_again)
qed

section \<open>Settings read back\<close>

lemmas parts_ok = basic_ok_normalize fileTransfer_ok_normalize localTerminal_ok_normalize bindings_ok_normalize appearance_ok_normalize

lemmas parts_again = basic_json_again fileTransfer_json_again localTerminal_json_again bindings_json_again appearance_json_again

lemma record_or_empty_JObj [simp]: "record_or_empty (Some (JObj obj)) = obj"
  by (simp add: record_or_empty_def)

lemma security_ok_normalize: "autoLockMinutes (normalize_security obj) \<in> set [0, 5, 15, 30, 60]"
  unfolding normalize_security_def SecuritySettings.simps by (rule normalizeNumber_in) (simp add: default_security_def)

lemma security_json_again: "autoLockMinutes s \<in> set [0, 5, 15, 30, 60] \<Longrightarrow> normalize_security (security_json s) = s"
  by (cases s) (simp add: normalize_security_def security_json_def json_number_def reader_defs)

lemma scheme_ok_normalize: "0 < js_length (js_trim (normalize_scheme obj))"
proof -
  have "js_trim defaultTerminalColorSchemeId = defaultTerminalColorSchemeId"
    by (rule js_trim_id, rule printable_trimmed) (simp add: defaultTerminalColorSchemeId_def)
  moreover have "0 < js_length defaultTerminalColorSchemeId"
    by (simp add: defaultTerminalColorSchemeId_def js_length_def)
  ultimately show ?thesis
    by (simp add: normalize_scheme_def defaultSettings_def split: option.splits json.splits)
qed

lemma settings_normalised: "settings_ok (normalizeSettings v)"
  using parts_ok security_ok_normalize scheme_ok_normalize
  by (simp add: settings_ok_def normalizeSettings_def Let_def del: list.set)

lemma normalize_settings_json:
  assumes "settings_ok s"
  shows "normalizeSettings (settings_json s) =
    s\<lparr>set_fileTransfer := normalize_fileTransfer (fileTransfer_json (set_fileTransfer s)),
      set_appearance := normalize_appearance (appearance_json (set_appearance s))\<rparr>"
  using assms
  by (simp add: settings_ok_def normalizeSettings_def Let_def settings_json_def settings_fields_def basic_json_again
      localTerminal_json_again bindings_json_again security_json_again normalize_scheme_def normalizeBoolean_def del: list.set)

lemma settled_settings:
  assumes "settings_ok s" "settings_trimmed s"
  shows "normalizeSettings (settings_json s) = s"
proof -
  have ok: "fileTransfer_ok (set_fileTransfer s)" "appearance_ok (set_appearance s)"
    using assms(1) by (auto simp: settings_ok_def)
  then have "normalizeFontFamilyInput (Some (JStr (terminalFontCustom (set_appearance s)))) d = terminalFontCustom (set_appearance s)"
      "normalizeFontFamilyInput (Some (JStr (uiFontCustom (set_appearance s)))) d = uiFontCustom (set_appearance s)" for d
    using assms(2) by (auto simp: appearance_ok_def settings_trimmed_def font_again js_trim_id font_ok_def)
  moreover have "js_trim (downloadRoot (set_fileTransfer s)) = downloadRoot (set_fileTransfer s)"
    using assms(2) by (simp add: settings_trimmed_def js_trim_id)
  ultimately show ?thesis
    using assms(1) ok by (simp add: normalize_settings_json fileTransfer_json_again appearance_json_again)
qed

lemma trimmed_font_again: "font_ok s \<Longrightarrow> trimmed fallback \<Longrightarrow> trimmed (normalizeFontFamilyInput (Some (JStr s)) fallback)"
  by (simp add: font_again trimmed_js_trim)

lemma default_fonts_trimmed: "trimmed (terminalFontCustom default_appearance)" "trimmed (uiFontCustom default_appearance)"
  by (simp_all add: trimmed_def js_spaces_def default_appearance_def suffix_to_prefix)

lemma normalised_settings_trimmed:
  assumes "settings_ok s"
  shows "settings_trimmed (normalizeSettings (settings_json s))"
proof -
  have "font_ok (terminalFontCustom (set_appearance s))" "font_ok (uiFontCustom (set_appearance s))"
      "fileTransfer_ok (set_fileTransfer s)" "appearance_ok (set_appearance s)"
    using assms by (auto simp: settings_ok_def appearance_ok_def)
  then show ?thesis
    using assms by (simp add: settings_trimmed_def normalize_settings_json fileTransfer_json_again appearance_json_again
        trimmed_font_again default_fonts_trimmed trimmed_js_trim)
qed

lemma normalize_nothing: "normalizeSettings JNull = defaultSettings"
proof -
  have "map (\<lambda>action. (sa_id action, coalesce (case defaultShortcutBindings (sa_id action) of None \<Rightarrow> None | Some b \<Rightarrow> b)
      (sa_defaultBinding action))) shortcutActions = map (\<lambda>action. (sa_id action, sa_defaultBinding action)) shortcutActions"
    by code_simp
  then show ?thesis
    by (simp add: normalizeSettings_def record_or_empty_def Let_def defaultSettings_def normalize_basic_def default_basic_def
        normalize_fileTransfer_def default_fileTransfer_def normalize_localTerminal_def default_localTerminal_def
        normalize_security_def default_security_def normalize_appearance_def default_appearance_def normalize_bindings_def
        normalize_scheme_def normalizeShortcutBindings_def normalize_stored_def binding_value_def defaultShortcutBindings_def
        normalizeStringArray_def normalizeLocalTerminalProfiles_def normalizeOptionalString_def normalizePathInput_def
        normalizeFontFamilyInput_def normalizeHexColor_def reader_defs)
qed

lemma startup_settings_ok: "settings_ok (readStartupSettings stored)"
  by (cases stored) (simp_all add: readStartupSettings_def settings_normalised flip: normalize_nothing)

text \<open>
  Whatever local storage holds, the settings the program works with are well formed: each choice
  is one of those offered, the number of concurrent transfers lies between 1 and 10, fonts and
  paths keep their length and have none of the excluded characters, colours are six hexadecimal
  digits, shortcuts are valid.
\<close>

theorem startup_settings_well_formed: "settings_ok (readStartupSettings stored)"
  by (rule startup_settings_ok)

text \<open>
  C31. Settings survive a restart: what is written and read back is again well formed and stays as it is
  from then on, and it is unchanged from the first time exactly when the fonts and the download
  path carry no outer white space.
\<close>

theorem settings_survive_restart:
  defines "restart \<equiv> (\<lambda>s. readStartupSettings (writeStoredSettings True s NothingStored))"
  shows "settings_ok (restart (readStartupSettings stored)) \<and>
    restart (restart (readStartupSettings stored)) = restart (readStartupSettings stored) \<and>
    (restart (readStartupSettings stored) = readStartupSettings stored \<longleftrightarrow> settings_trimmed (readStartupSettings stored))"
proof -
  let ?s = "readStartupSettings stored"
  have restart: "restart s = normalizeSettings (settings_json s)" for s
    by (simp add: restart_def readStartupSettings_def writeStoredSettings_def)
  have ok: "settings_ok ?s" "settings_ok (restart ?s)"
    using startup_settings_ok by (simp_all add: restart_def)
  then have trim: "settings_trimmed (restart ?s)"
    using normalised_settings_trimmed by (simp add: restart)
  moreover have "restart (restart ?s) = restart ?s"
    using settled_settings [OF ok(2) trim] by (simp add: restart)
  moreover have "restart ?s = ?s \<longleftrightarrow> settings_trimmed ?s"
    using settled_settings [OF ok(1)] trim by (auto simp: restart)
  ultimately show ?thesis
    using ok(2) by blast
qed

section \<open>Updates\<close>

definition settings_settled :: "MxtermSettings \<Rightarrow> bool" where
  "settings_settled s \<longleftrightarrow> settings_ok s \<and> settings_trimmed s"

lemma normalize_part [simp]: "record_or_empty (field (spread obj [(name, JObj part)]) n) =
    (if name = n then part else record_or_empty (field obj n))"
  by (simp add: spread_def)

lemma settings_json_parts:
  "normalize_basic (basic_json (set_basic s)) = set_basic (normalizeSettings (settings_json s))"
  "normalize_fileTransfer (fileTransfer_json (set_fileTransfer s)) = set_fileTransfer (normalizeSettings (settings_json s))"
  "normalize_localTerminal (localTerminal_json (set_localTerminal s)) = set_localTerminal (normalizeSettings (settings_json s))"
  "normalize_security (security_json (set_security s)) = set_security (normalizeSettings (settings_json s))"
  "normalize_bindings (bindings_json (set_bindings s)) = set_bindings (normalizeSettings (settings_json s))"
  "normalize_appearance (appearance_json (set_appearance s)) = set_appearance (normalizeSettings (settings_json s))"
  "normalize_scheme [(''scheme'', JStr (set_scheme s))] = set_scheme (normalizeSettings (settings_json s))"
  by (simp_all add: normalizeSettings_def settings_json_def settings_fields_def Let_def)

lemma settled_parts:
  assumes "settings_settled s"
  shows "normalize_basic (basic_json (set_basic s)) = set_basic s"
    and "normalize_fileTransfer (fileTransfer_json (set_fileTransfer s)) = set_fileTransfer s"
    and "normalize_localTerminal (localTerminal_json (set_localTerminal s)) = set_localTerminal s"
    and "normalize_security (security_json (set_security s)) = set_security s"
    and "normalize_bindings (bindings_json (set_bindings s)) = set_bindings s"
    and "normalize_appearance (appearance_json (set_appearance s)) = set_appearance s"
    and "normalize_scheme [(''scheme'', JStr (set_scheme s))] = set_scheme s"
proof -
  have "normalizeSettings (settings_json s) = s"
    using assms by (simp add: settings_settled_def settled_settings)
  note parts = settings_json_parts [of s, unfolded this]
  show "normalize_basic (basic_json (set_basic s)) = set_basic s"
    "normalize_fileTransfer (fileTransfer_json (set_fileTransfer s)) = set_fileTransfer s"
    "normalize_localTerminal (localTerminal_json (set_localTerminal s)) = set_localTerminal s"
    "normalize_security (security_json (set_security s)) = set_security s"
    "normalize_bindings (bindings_json (set_bindings s)) = set_bindings s"
    "normalize_appearance (appearance_json (set_appearance s)) = set_appearance s"
    "normalize_scheme [(''scheme'', JStr (set_scheme s))] = set_scheme s"
    by (simp_all only: parts)
qed

lemmas update_defs = update_part_def updateBasic_def updateAppearance_def updateSecurity_def updateShortcuts_def
  updateTerminalTheme_def updateFileTransfer_def updateCommand_def updateLocalTerminal_def

text \<open>
  On settings that are settled, an update changes its own part only, to what the updated part
  normalises to.
\<close>

theorem update_changes_own_part:
  assumes "settings_settled s"
  shows "updateBasic u s = s\<lparr>set_basic := normalize_basic (spread (basic_json (set_basic s)) u)\<rparr> \<and>
    updateAppearance u s = s\<lparr>set_appearance := normalize_appearance (spread (appearance_json (set_appearance s)) u)\<rparr> \<and>
    updateSecurity u s = s\<lparr>set_security := normalize_security (spread (security_json (set_security s)) u)\<rparr> \<and>
    updateShortcuts u s = s\<lparr>set_bindings := normalize_bindings (spread (bindings_json (set_bindings s)) u)\<rparr> \<and>
    updateTerminalTheme u s = s\<lparr>set_scheme := normalize_scheme (spread [(''scheme'', JStr (set_scheme s))] u)\<rparr> \<and>
    updateFileTransfer u s = s\<lparr>set_fileTransfer := normalize_fileTransfer (spread (fileTransfer_json (set_fileTransfer s)) u)\<rparr> \<and>
    updateLocalTerminal u s = s\<lparr>set_localTerminal := normalize_localTerminal (spread (localTerminal_json (set_localTerminal s)) u)\<rparr> \<and>
    updateCommand u s = s\<lparr>recordTerminalInputHistory :=
      normalizeBoolean (field (spread [(''recordTerminalInputHistory'', JBool (recordTerminalInputHistory s))] u)
        ''recordTerminalInputHistory'') False\<rparr>"
  using settled_parts [OF assms]
  by (intro conjI)
    (simp_all add: update_defs normalizeSettings_def settings_fields_def Let_def normalizeBoolean_def defaultSettings_def)

text \<open>
  The white space around a font is removed before the separators are replaced by spaces, so a
  font that ends in a separator is kept with a space, and the next change of any other setting
  changes the font as well: here a semicolon is accepted as the font of a single space, which an
  update without content then replaces by the default font.
\<close>

theorem unrelated_update_changes_font:
  defines "s \<equiv> updateAppearance [(''uiFontCustom'', JStr '';'')] defaultSettings"
  shows "uiFontCustom (set_appearance s) = '' '' \<and>
    uiFontCustom (set_appearance (updateBasic [] s)) = uiFontCustom default_appearance"
proof -
  have font: "uiFontCustom (set_appearance s) = '' ''"
  proof -
    have "uiFontCustom (set_appearance s) = normalizeFontFamilyInput (Some (JStr '';'')) (uiFontCustom default_appearance)"
      by (simp add: s_def update_defs normalizeSettings_def Let_def normalize_appearance_def) (simp add: spread_def)
    also have "\<dots> = '' ''"
      by code_simp
    finally show ?thesis .
  qed
  have "uiFontCustom (set_appearance (updateBasic [] s)) =
      normalizeFontFamilyInput (Some (JStr (uiFontCustom (set_appearance s)))) (uiFontCustom default_appearance)"
    by (simp add: update_defs normalizeSettings_def Let_def normalize_appearance_def settings_fields_def appearance_json_def)
  also have "\<dots> = uiFontCustom default_appearance"
    unfolding font by code_simp
  finally show ?thesis
    using font by simp
qed

lemma default_settled: "settings_settled defaultSettings"
  using settings_normalised [of JNull] default_fonts_trimmed
  by (simp add: settings_settled_def normalize_nothing settings_trimmed_def)
    (simp add: defaultSettings_def default_fileTransfer_def)

theorem update_changes_own_part_witness:
  "settings_settled defaultSettings \<and>
   updateBasic [(''keepFailedTerminalTabs'', JBool False)] defaultSettings =
     defaultSettings\<lparr>set_basic := default_basic\<lparr>keepFailedTerminalTabs := False\<rparr>\<rparr>"
proof -
  have "normalize_basic (spread (basic_json (set_basic defaultSettings)) [(''keepFailedTerminalTabs'', JBool False)]) =
      default_basic\<lparr>keepFailedTerminalTabs := False\<rparr>"
    by (simp add: normalize_basic_def spread_def basic_json_def defaultSettings_def default_basic_def json_number_def reader_defs)
  then show ?thesis
    using update_changes_own_part [OF default_settled, of "[(''keepFailedTerminalTabs'', JBool False)]"] default_settled by simp
qed

section \<open>The dark accent colour\<close>

definition channels :: "string \<Rightarrow> nat list" where
  "channels s = [hex_value (take 2 (drop 1 s)), hex_value (take 2 (drop 3 s)), hex_value (take 2 (drop 5 s))]"

lemma mix_channel_bounds: "c \<le> 255 \<Longrightarrow> c \<le> mix_channel c \<and> mix_channel c \<le> 255"
proof -
  assume c: "c \<le> 255"
  have mix: "of_nat c + (255 - of_nat c) * (6 / 25) + 1 / 2 = (of_int (38 * int c + 3085) / 50 :: rat)"
    by (simp add: field_simps)
  have "\<lfloor>of_int (38 * int c + 3085) / (50 :: rat)\<rfloor> = (38 * int c + 3085) div 50"
    using floor_divide_of_int_eq [of "38 * int c + 3085" 50] by simp
  then have "mix_channel c = nat ((38 * int c + 3085) div 50)"
    by (simp only: mix_channel_def mix)
  with c show ?thesis
    by linarith
qed

lemma hex_digit_value:
  "k < 16 \<Longrightarrow> digit_value (''0123456789ABCDEF'' ! k) = k \<and> ''0123456789ABCDEF'' ! k \<in> set ''0123456789ABCDEF''"
proof -
  have "list_all (\<lambda>k. digit_value (''0123456789ABCDEF'' ! k) = k \<and> ''0123456789ABCDEF'' ! k \<in> set ''0123456789ABCDEF'') [0..<16]"
    by code_simp
  then show "k < 16 \<Longrightarrow> ?thesis"
    unfolding list_all_iff by simp
qed

lemma hex_text_value:
  assumes "n < 256"
  shows "hex_value (hex_text n) = n \<and> list_all (\<lambda>c. c \<in> set ''0123456789ABCDEF'') (hex_text n)"
proof -
  have "n div 16 < 16" "n mod 16 < 16"
    using assms by auto
  note hex_digit_value [OF this(1)] hex_digit_value [OF this(2)]
  then show ?thesis
    unfolding hex_value_def hex_text_def by (simp del: list.set)
qed

lemma digit_value_bound: "c \<in> set ''0123456789ABCDEF'' \<Longrightarrow> digit_value c < 16"
proof -
  have "list_all (\<lambda>c. digit_value c < 16) ''0123456789ABCDEF''"
    by code_simp
  then show "c \<in> set ''0123456789ABCDEF'' \<Longrightarrow> ?thesis"
    unfolding list_all_iff by blast
qed

lemma hex_pair_bound: "list_all (\<lambda>c. c \<in> set ''0123456789ABCDEF'') [c, d] \<Longrightarrow> hex_value [c, d] \<le> 255"
  using digit_value_bound [of c] digit_value_bound [of d] by (simp add: hex_value_def del: list.set)

lemma hex_color_digits:
  assumes "hex_color s"
  obtains a b c d e f where "s = [CHR ''#'', a, b, c, d, e, f]"
    "list_all (\<lambda>c. c \<in> set ''0123456789ABCDEF'') [a, b, c, d, e, f]"
  using assms unfolding hex_color_def
  by (cases s) (auto simp: length_Suc_conv numeral_eq_Suc simp del: list.set)

text \<open>
  The dark variant of an accent colour is again a colour of six digits, and none of its channels is
  darker than in the light one.
\<close>

theorem dark_accent_is_lighter:
  assumes "hex_color light"
  shows "hex_color (createDarkAccentColor light) \<and> list_all2 (\<le>) (channels light) (channels (createDarkAccentColor light))"
proof -
  obtain a b c d e f where s: "light = [CHR ''#'', a, b, c, d, e, f]"
      "list_all (\<lambda>c. c \<in> set ''0123456789ABCDEF'') [a, b, c, d, e, f]"
    using assms by (rule hex_color_digits)
  let ?m = "map mix_channel (channels light)"
  have channels: "channels light = [hex_value [a, b], hex_value [c, d], hex_value [e, f]]"
    by (simp add: channels_def s(1))
  then have bound: "list_all (\<lambda>n. n \<le> 255) (channels light)"
    using s(2) hex_pair_bound by (simp del: list.set)
  have dark: "createDarkAccentColor light = CHR ''#'' # concat (map hex_text ?m)"
    by (simp add: createDarkAccentColor_def Let_def hex_color_again [OF assms] channels_def)
  define x y z where "x = mix_channel (hex_value [a, b])" and "y = mix_channel (hex_value [c, d])"
    and "z = mix_channel (hex_value [e, f])"
  then have m: "?m = [x, y, z]" "x < 256" "y < 256" "z < 256"
    using bound mix_channel_bounds [of "hex_value [a, b]"] mix_channel_bounds [of "hex_value [c, d]"]
      mix_channel_bounds [of "hex_value [e, f]"] unfolding channels by simp_all
  note digits = hex_text_value [OF m(2)] hex_text_value [OF m(3)] hex_text_value [OF m(4)]
  obtain p q p' q' p'' q'' where two: "hex_text x = [p, q]" "hex_text y = [p', q']" "hex_text z = [p'', q'']"
    by (simp add: hex_text_def)
  have shown: "createDarkAccentColor light = [CHR ''#'', p, q, p', q', p'', q'']"
    by (simp add: dark m(1) two)
  have "channels (createDarkAccentColor light) = ?m"
    unfolding m(1) using digits by (simp add: shown two channels_def del: list.set)
  moreover have "hex_color (createDarkAccentColor light)"
    using digits by (simp add: shown two hex_color_def del: list.set)
  moreover have "list_all2 (\<le>) (channels light) ?m"
    using bound mix_channel_bounds unfolding channels by auto
  ultimately show ?thesis
    by simp
qed

theorem dark_accent_is_lighter_witness: "hex_color ''#2374C6'' \<and> createDarkAccentColor ''#2374C6'' = ''#5895D4''"
proof -
  have "hex_color ''#2374C6''"
    by (simp add: hex_color_def)
  moreover have "createDarkAccentColor ''#2374C6'' = ''#5895D4''"
    by code_simp
  ultimately show ?thesis
    using dark_accent_is_lighter [of "''#2374C6''"] by blast
qed

end
