(* ===== verification/Secret_Vault.thy ===== *)
theory Secret_Vault
  imports Prelude
begin

text \<open>
  The lock of the stored secrets as the front end sees it
  (\<open>features/security/useSecretVault.ts\<close>). The vault itself is in the desktop process; the hook
  sends requests and keeps the last status it was told. The hook is a transition system: a call of
  one of its functions runs up to its first \<open>await\<close> and leaves a request in \<open>sv_calls\<close>, and the
  answer to a request (a status or an error text) runs the code after the \<open>await\<close>, \<open>catch\<close> and
  \<open>finally\<close> included. Requests may be answered in any order. After every event the effects whose
  dependencies have changed run in the order of the source. Time is in milliseconds.
\<close>

section \<open>State\<close>

record SecretVaultStatus =
  vs_initialized :: bool
  vs_unlocked :: bool

definition previewStatus :: SecretVaultStatus where
  "previewStatus = \<lparr>vs_initialized = True, vs_unlocked = True\<rparr>"

datatype vault_call = StatusCall | UnlockCall | LocalStatusCall | LocalUnlockCall | LockCall | EnableCall | DisableCall

record vault =
  sv_isTauri :: bool
  sv_masterPassword :: bool
  sv_autoLock :: nat
  sv_status :: "SecretVaultStatus option"
  sv_loading :: bool
  sv_unlocking :: bool
  sv_error :: "string option"
  sv_attempted :: bool
  sv_localInFlight :: bool
  sv_calls :: "vault_call list"
  sv_now :: rat
  sv_deadline :: "rat option"

definition canAutoUnlockLocal :: "vault \<Rightarrow> bool" where
  "canAutoUnlockLocal v \<longleftrightarrow> sv_isTauri v \<and> \<not> sv_masterPassword v"

text \<open>\<open>status?.unlocked\<close>\<close>

definition unlocked :: "vault \<Rightarrow> bool" where
  "unlocked v \<longleftrightarrow> (case sv_status v of None \<Rightarrow> False | Some s \<Rightarrow> vs_unlocked s)"

definition initial_vault :: "bool \<Rightarrow> bool \<Rightarrow> nat \<Rightarrow> vault" where
  "initial_vault isTauri masterPasswordEnabled autoLockMinutes =
     \<lparr>sv_isTauri = isTauri, sv_masterPassword = masterPasswordEnabled, sv_autoLock = autoLockMinutes,
      sv_status = (if isTauri then None else Some previewStatus), sv_loading = isTauri, sv_unlocking = False,
      sv_error = None, sv_attempted = False, sv_localInFlight = False, sv_calls = [], sv_now = 0, sv_deadline = None\<rparr>"

section \<open>Requests\<close>

definition send :: "vault_call \<Rightarrow> vault \<Rightarrow> vault" where
  "send c v = v\<lparr>sv_calls := sv_calls v @ [c]\<rparr>"

definition refresh :: "vault \<Rightarrow> vault" where
  "refresh v =
     (if \<not> sv_isTauri v then v\<lparr>sv_status := Some previewStatus, sv_loading := False, sv_error := None\<rparr>
      else send StatusCall (v\<lparr>sv_loading := True, sv_error := None\<rparr>))"

definition unlock :: "vault \<Rightarrow> vault" where
  "unlock v =
     (if \<not> sv_isTauri v then v\<lparr>sv_status := Some previewStatus\<rparr>
      else send UnlockCall (v\<lparr>sv_unlocking := True, sv_error := None\<rparr>))"

definition unlockLocal :: "vault \<Rightarrow> vault" where
  "unlockLocal v =
     (if \<not> sv_isTauri v then v\<lparr>sv_status := Some previewStatus\<rparr>
      else if sv_localInFlight v then v
      else send LocalStatusCall (v\<lparr>sv_localInFlight := True, sv_unlocking := True, sv_loading := True\<rparr>))"

definition lock :: "vault \<Rightarrow> vault" where
  "lock v =
     (if \<not> sv_isTauri v then v\<lparr>sv_status := Some previewStatus\<rparr>
      else send LockCall (v\<lparr>sv_error := None\<rparr>))"

definition enableMasterPassword :: "vault \<Rightarrow> vault" where
  "enableMasterPassword v =
     (if \<not> sv_isTauri v then v\<lparr>sv_status := Some previewStatus\<rparr>
      else send EnableCall (v\<lparr>sv_unlocking := True, sv_error := None\<rparr>))"

definition disableMasterPassword :: "vault \<Rightarrow> vault" where
  "disableMasterPassword v =
     (if \<not> sv_isTauri v then v\<lparr>sv_status := Some previewStatus\<rparr>
      else send DisableCall (v\<lparr>sv_unlocking := True, sv_error := None\<rparr>))"

section \<open>Answers\<close>

definition take_answer :: "string + SecretVaultStatus \<Rightarrow> vault \<Rightarrow> vault" where
  "take_answer answer v =
     (case answer of Inl e \<Rightarrow> v\<lparr>sv_error := Some e\<rparr> | Inr s \<Rightarrow> v\<lparr>sv_status := Some s\<rparr>)"

definition local_done :: "vault \<Rightarrow> vault" where
  "local_done v = v\<lparr>sv_localInFlight := False, sv_unlocking := False, sv_loading := False\<rparr>"

fun answered :: "vault_call \<Rightarrow> string + SecretVaultStatus \<Rightarrow> vault \<Rightarrow> vault" where
  "answered StatusCall answer v = (take_answer answer v)\<lparr>sv_loading := False\<rparr>"
| "answered UnlockCall answer v = (take_answer answer v)\<lparr>sv_unlocking := False\<rparr>"
| "answered EnableCall answer v = (take_answer answer v)\<lparr>sv_unlocking := False\<rparr>"
| "answered DisableCall answer v = (take_answer answer v)\<lparr>sv_unlocking := False\<rparr>"
| "answered LockCall answer v = take_answer answer v"
| "answered LocalStatusCall (Inl e) v = local_done (take_answer (Inl e) v)"
| "answered LocalStatusCall (Inr s) v =
     (if vs_unlocked s then local_done (take_answer (Inr s) v\<lparr>sv_error := None\<rparr>)
      else send LocalUnlockCall (take_answer (Inr s) v))"
| "answered LocalUnlockCall (Inl e) v = local_done (take_answer (Inl e) v)"
| "answered LocalUnlockCall (Inr s) v = local_done (take_answer (Inr s) v\<lparr>sv_error := None\<rparr>)"

section \<open>Effects\<close>

definition refresh_effect :: "vault \<Rightarrow> vault" where
  "refresh_effect v = (if canAutoUnlockLocal v then v else refresh v)"

definition attempt_reset :: "vault \<Rightarrow> vault" where
  "attempt_reset v = v\<lparr>sv_attempted := False\<rparr>"

definition auto_unlock_effect :: "vault \<Rightarrow> vault" where
  "auto_unlock_effect v =
     (if \<not> canAutoUnlockLocal v \<or> sv_attempted v then v else unlockLocal (v\<lparr>sv_attempted := True\<rparr>))"

definition second_unlock_effect :: "vault \<Rightarrow> vault" where
  "second_unlock_effect v =
     (if \<not> sv_isTauri v \<or> canAutoUnlockLocal v \<or> sv_masterPassword v \<or> sv_loading v \<or> sv_unlocking v \<or>
         unlocked v \<or> sv_attempted v then v
      else unlockLocal (v\<lparr>sv_attempted := True\<rparr>))"

definition auto_lock_on :: "vault \<Rightarrow> bool" where
  "auto_lock_on v \<longleftrightarrow> sv_isTauri v \<and> sv_masterPassword v \<and> unlocked v \<and> sv_autoLock v \<noteq> 0"

definition arm_timer :: "vault \<Rightarrow> vault" where
  "arm_timer v = v\<lparr>sv_deadline := Some (sv_now v + of_nat (sv_autoLock v) * 60 * 1000)\<rparr>"

text \<open>Cleanup of the last run, then the effect.\<close>

definition timer_effect :: "vault \<Rightarrow> vault" where
  "timer_effect v = (if auto_lock_on v then arm_timer v else v\<lparr>sv_deadline := None\<rparr>)"

definition timer_deps :: "vault \<Rightarrow> nat \<times> bool \<times> bool \<times> bool" where
  "timer_deps v = (sv_autoLock v, sv_isTauri v, sv_masterPassword v, unlocked v)"

text \<open>The effects after a commit that led from \<open>old\<close> to \<open>v\<close>. The functions of the hook depend on \<open>isTauri\<close> only.\<close>

definition run_effects :: "vault \<Rightarrow> vault \<Rightarrow> vault" where
  "run_effects old v =
     (let v = (if sv_masterPassword v = sv_masterPassword old then v
               else auto_unlock_effect (attempt_reset (refresh_effect v)));
          v = second_unlock_effect v
      in if timer_deps v = timer_deps old then v else timer_effect v)"

definition mount_vault :: "vault \<Rightarrow> vault" where
  "mount_vault v = timer_effect (second_unlock_effect (auto_unlock_effect (attempt_reset (refresh_effect v))))"

section \<open>Events\<close>

datatype vault_event =
    Refresh | Unlock | Retry | Lock | EnablePassword | DisablePassword
  | Answer nat "string + SecretVaultStatus"
  | SettingsChange bool nat
  | UserActivity
  | TimePasses rat

text \<open>\<open>retry\<close>, as the hook returns it.\<close>

definition retry :: "vault \<Rightarrow> vault" where
  "retry v = (if canAutoUnlockLocal v then unlockLocal v else refresh v)"

definition reset_timer :: "vault \<Rightarrow> vault" where
  "reset_timer v = (if auto_lock_on v then arm_timer v else v)"

definition auto_lock_fires :: "vault \<Rightarrow> vault" where
  "auto_lock_fires v =
     (case sv_deadline v of
        Some d \<Rightarrow> if d \<le> sv_now v then lock (v\<lparr>sv_deadline := None\<rparr>) else v
      | None \<Rightarrow> v)"

definition answer_call :: "nat \<Rightarrow> string + SecretVaultStatus \<Rightarrow> vault \<Rightarrow> vault" where
  "answer_call n answer v =
     (if n < length (sv_calls v)
      then answered (sv_calls v ! n) answer (v\<lparr>sv_calls := take n (sv_calls v) @ drop (Suc n) (sv_calls v)\<rparr>)
      else v)"

fun vault_operation :: "vault \<Rightarrow> vault_event \<Rightarrow> vault" where
  "vault_operation v Refresh = refresh v"
| "vault_operation v Unlock = unlock v"
| "vault_operation v Retry = retry v"
| "vault_operation v Lock = lock v"
| "vault_operation v EnablePassword = enableMasterPassword v"
| "vault_operation v DisablePassword = disableMasterPassword v"
| "vault_operation v (Answer n answer) = answer_call n answer v"
| "vault_operation v (SettingsChange enabled minutes) = v\<lparr>sv_masterPassword := enabled, sv_autoLock := minutes\<rparr>"
| "vault_operation v UserActivity = reset_timer v"
| "vault_operation v (TimePasses dt) = auto_lock_fires (v\<lparr>sv_now := sv_now v + \<bar>dt\<bar>\<rparr>)"

definition vault_step :: "vault \<Rightarrow> vault_event \<Rightarrow> vault" where
  "vault_step v e = run_effects v (vault_operation v e)"

section \<open>What the shell reads\<close>

definition ready :: "vault \<Rightarrow> bool" where
  "ready v \<longleftrightarrow> \<not> sv_isTauri v \<or> unlocked v"

definition requiresUnlock :: "vault \<Rightarrow> bool" where
  "requiresUnlock v \<longleftrightarrow> sv_isTauri v \<and> \<not> unlocked v \<and> (sv_masterPassword v \<or> truthy (sv_error v) \<noteq> None)"


section \<open>Requests and flags\<close>

definition local_call :: "vault_call \<Rightarrow> bool" where
  "local_call c \<longleftrightarrow> c = LocalStatusCall \<or> c = LocalUnlockCall"

definition loads :: "vault_call \<Rightarrow> bool" where
  "loads c \<longleftrightarrow> c = StatusCall \<or> local_call c"

definition unlocks :: "vault_call \<Rightarrow> bool" where
  "unlocks c \<longleftrightarrow> c = UnlockCall \<or> c = EnableCall \<or> c = DisableCall \<or> local_call c"

definition flags_ok :: "vault \<Rightarrow> bool" where
  "flags_ok v \<longleftrightarrow> (sv_loading v \<longrightarrow> list_ex loads (sv_calls v)) \<and> (sv_unlocking v \<longrightarrow> list_ex unlocks (sv_calls v)) \<and>
     length (filter local_call (sv_calls v)) = (if sv_localInFlight v then 1 else 0) \<and>
     (sv_isTauri v \<or> sv_calls v = [])"

definition timer_ok :: "vault \<Rightarrow> bool" where
  "timer_ok v \<longleftrightarrow> (case sv_deadline v of
     None \<Rightarrow> True
   | Some d \<Rightarrow> auto_lock_on v \<and> sv_now v < d \<and> d \<le> sv_now v + of_nat (sv_autoLock v) * 60 * 1000)"

definition vault_ok :: "vault \<Rightarrow> bool" where
  "vault_ok v \<longleftrightarrow> flags_ok v \<and> timer_ok v"

lemmas call_kinds = local_call_def loads_def unlocks_def

lemmas request_defs = send_def refresh_def unlock_def unlockLocal_def lock_def enableMasterPassword_def disableMasterPassword_def

lemma flags_ok_requests:
  assumes "flags_ok v"
  shows "flags_ok (refresh v)" "flags_ok (unlock v)" "flags_ok (unlockLocal v)" "flags_ok (lock v)"
    "flags_ok (enableMasterPassword v)" "flags_ok (disableMasterPassword v)"
  using assms by (auto simp: flags_ok_def request_defs call_kinds)

lemma flags_ok_cong:
  "sv_loading v = sv_loading w \<Longrightarrow> sv_unlocking v = sv_unlocking w \<Longrightarrow> sv_localInFlight v = sv_localInFlight w \<Longrightarrow>
   sv_calls v = sv_calls w \<Longrightarrow> sv_isTauri v = sv_isTauri w \<Longrightarrow> flags_ok v = flags_ok w"
  by (simp add: flags_ok_def)

lemma take_answer_flags [simp]:
  "sv_loading (take_answer a v) = sv_loading v" "sv_unlocking (take_answer a v) = sv_unlocking v"
  "sv_localInFlight (take_answer a v) = sv_localInFlight v" "sv_calls (take_answer a v) = sv_calls v"
  "sv_isTauri (take_answer a v) = sv_isTauri v" "sv_masterPassword (take_answer a v) = sv_masterPassword v"
  "sv_autoLock (take_answer a v) = sv_autoLock v" "sv_now (take_answer a v) = sv_now v"
  "sv_deadline (take_answer a v) = sv_deadline v" "sv_attempted (take_answer a v) = sv_attempted v"
  by (simp_all add: take_answer_def split: sum.splits)

lemma flags_ok_answered:
  assumes "flags_ok (v\<lparr>sv_calls := a @ c # b\<rparr>)"
  shows "flags_ok (answered c answer (v\<lparr>sv_calls := a @ b\<rparr>))"
  using assms by (cases c; cases answer) (auto simp: flags_ok_def send_def local_done_def call_kinds split: if_splits)

lemma flags_ok_answer:
  assumes "flags_ok v"
  shows "flags_ok (answer_call n answer v)"
proof (cases "n < length (sv_calls v)")
  case True
  then have "v\<lparr>sv_calls := take n (sv_calls v) @ sv_calls v ! n # drop (Suc n) (sv_calls v)\<rparr> = v"
    by (simp flip: id_take_nth_drop)
  with assms have "flags_ok (v\<lparr>sv_calls := take n (sv_calls v) @ sv_calls v ! n # drop (Suc n) (sv_calls v)\<rparr>)"
    by simp
  from flags_ok_answered [OF this] True show ?thesis
    by (simp add: answer_call_def)
qed (use assms in \<open>simp add: answer_call_def\<close>)

lemma flags_ok_attempt: "flags_ok (v\<lparr>sv_attempted := b\<rparr>) = flags_ok v"
  by (rule flags_ok_cong) simp_all

lemmas effect_defs = refresh_effect_def attempt_reset_def auto_unlock_effect_def second_unlock_effect_def

lemma flags_ok_effects:
  assumes "flags_ok v"
  shows "flags_ok (refresh_effect v)" "flags_ok (attempt_reset v)" "flags_ok (auto_unlock_effect v)" "flags_ok (second_unlock_effect v)"
  using assms flags_ok_requests [of v] flags_ok_requests(3) [of "v\<lparr>sv_attempted := True\<rparr>"]
  by (simp_all add: effect_defs flags_ok_attempt)

lemma flags_ok_timer: "flags_ok (timer_effect v) = flags_ok v"
  by (rule flags_ok_cong) (simp_all add: timer_effect_def arm_timer_def)

lemma flags_ok_run_effects: "flags_ok v \<Longrightarrow> flags_ok (run_effects old v)"
  by (simp add: run_effects_def Let_def flags_ok_effects flags_ok_timer)

lemma flags_ok_operation: "flags_ok v \<Longrightarrow> flags_ok (vault_operation v e)"
proof (induction v e rule: vault_operation.induct)
  case (8 v enabled minutes)
  then show ?case
    by (simp add: flags_ok_def)
next
  case (9 v)
  then show ?case
    by (auto simp: reset_timer_def arm_timer_def flags_ok_def)
next
  case (10 v dt)
  then show ?case
    by (auto simp: auto_lock_fires_def lock_def send_def flags_ok_def call_kinds split: option.splits)
qed (simp_all add: flags_ok_requests flags_ok_answer retry_def)

lemma flags_ok_step: "flags_ok v \<Longrightarrow> flags_ok (vault_step v e)"
  by (simp add: vault_step_def flags_ok_run_effects flags_ok_operation)

section \<open>The automatic lock\<close>

text \<open>What the requests, the answers and the first effects leave alone.\<close>

definition same_timer :: "vault \<Rightarrow> vault \<Rightarrow> bool" where
  "same_timer v w \<longleftrightarrow> sv_deadline w = sv_deadline v \<and> sv_now w = sv_now v \<and> sv_isTauri w = sv_isTauri v \<and>
     sv_masterPassword w = sv_masterPassword v \<and> sv_autoLock w = sv_autoLock v"

lemma same_timer_refl [simp]: "same_timer v v"
  by (simp add: same_timer_def)

lemma same_timer_trans: "same_timer u v \<Longrightarrow> same_timer v w \<Longrightarrow> same_timer u w"
  by (simp add: same_timer_def)

lemma same_timer_requests [simp]:
  "same_timer v (refresh v)" "same_timer v (unlock v)" "same_timer v (unlockLocal v)" "same_timer v (lock v)"
  "same_timer v (enableMasterPassword v)" "same_timer v (disableMasterPassword v)" "same_timer v (retry v)"
  by (simp_all add: same_timer_def request_defs retry_def)

lemma same_timer_answered: "same_timer v (answered c answer v)"
  by (cases c; cases answer) (simp_all add: same_timer_def send_def local_done_def)

lemma same_timer_answer [simp]: "same_timer v (answer_call n answer v)"
proof -
  have "same_timer (v\<lparr>sv_calls := cs\<rparr>) (answered c answer (v\<lparr>sv_calls := cs\<rparr>))" for c cs
    by (rule same_timer_answered)
  then show ?thesis
    by (simp add: answer_call_def same_timer_def)
qed

lemma same_timer_effects [simp]:
  "same_timer v (refresh_effect v)" "same_timer v (attempt_reset v)" "same_timer v (auto_unlock_effect v)"
  "same_timer v (second_unlock_effect v)"
  by (simp_all add: same_timer_def effect_defs request_defs)

text \<open>The effects before the one of the timer, and the step as a whole.\<close>

definition before_timer :: "vault \<Rightarrow> vault \<Rightarrow> vault" where
  "before_timer old v = second_unlock_effect
     (if sv_masterPassword v = sv_masterPassword old then v else auto_unlock_effect (attempt_reset (refresh_effect v)))"

lemma run_effects_eq:
  "run_effects old v =
     (if timer_deps (before_timer old v) = timer_deps old then before_timer old v else timer_effect (before_timer old v))"
  by (simp add: run_effects_def before_timer_def)

lemma same_timer_before: "same_timer v (before_timer old v)"
  by (simp add: before_timer_def same_timer_def effect_defs request_defs)

lemma timer_ok_effect: "timer_ok (timer_effect v)"
  by (auto simp: timer_ok_def timer_effect_def arm_timer_def auto_lock_on_def unlocked_def)

lemma auto_lock_on_deps: "timer_deps v = timer_deps w \<Longrightarrow> auto_lock_on v = auto_lock_on w"
  by (simp add: timer_deps_def auto_lock_on_def)

definition timer_later :: "vault \<Rightarrow> vault \<Rightarrow> bool" where
  "timer_later v w \<longleftrightarrow> sv_deadline w = None \<or>
     (auto_lock_on v \<longrightarrow> sv_now w < the (sv_deadline w) \<and> the (sv_deadline w) \<le> sv_now w + of_nat (sv_autoLock v) * 60 * 1000) \<and>
     (auto_lock_on v \<or> sv_deadline v \<noteq> None)"

lemma operation_timer:
  assumes "timer_ok v"
  shows "timer_later v (vault_operation v e)"
proof -
  have same: "timer_later v w" if "sv_deadline w = sv_deadline v" "sv_now w = sv_now v" for w
    using assms that by (auto simp: timer_later_def timer_ok_def split: option.splits)
  have "sv_deadline w = sv_deadline v" "sv_now w = sv_now v" if "same_timer v w" for w
    using that by (simp_all add: same_timer_def)
  note requests = same [OF this]
  show ?thesis
  proof (cases e)
    case UserActivity
    then show ?thesis
      using same by (auto simp: reset_timer_def arm_timer_def timer_later_def auto_lock_on_def)
  next
    case (TimePasses dt)
    define w where "w = v\<lparr>sv_now := sv_now v + \<bar>dt\<bar>\<rparr>"
    have now: "sv_now v \<le> sv_now w" "sv_deadline w = sv_deadline v"
      by (simp_all add: w_def)
    have "sv_deadline (lock (w\<lparr>sv_deadline := None\<rparr>)) = None"
      by (simp add: lock_def send_def)
    then show ?thesis
      using TimePasses assms now unfolding w_def [symmetric]
      by (cases "sv_deadline v") (auto simp: auto_lock_fires_def timer_later_def timer_ok_def w_def [symmetric])
  qed (simp_all add: requests same)
qed

lemma timer_ok_step:
  assumes "timer_ok v"
  shows "timer_ok (vault_step v e)"
proof -
  let ?w = "vault_operation v e"
  let ?x = "before_timer v ?w"
  have "sv_deadline ?x = sv_deadline ?w" "sv_now ?x = sv_now ?w"
    using same_timer_before [of ?w v] by (auto simp: same_timer_def)
  moreover have "auto_lock_on ?x = auto_lock_on v" "sv_autoLock ?x = sv_autoLock v" if "timer_deps ?x = timer_deps v"
    using auto_lock_on_deps [OF that] that by (auto simp: timer_deps_def)
  moreover have "sv_deadline v \<noteq> None \<Longrightarrow> auto_lock_on v"
    using assms by (auto simp: timer_ok_def)
  ultimately have "timer_ok ?x" if "timer_deps ?x = timer_deps v"
    using operation_timer [OF assms, of e] that by (auto simp: timer_later_def timer_ok_def split: option.splits)
  then show ?thesis
    by (simp add: vault_step_def run_effects_eq timer_ok_effect)
qed

lemma vault_ok_step: "vault_ok v \<Longrightarrow> vault_ok (vault_step v e)"
  by (simp add: vault_ok_def flags_ok_step timer_ok_step)

interpretation secret_vault: reducer vault_step vault_ok
  by unfold_locales (rule vault_ok_step)

definition mounted :: "bool \<Rightarrow> bool \<Rightarrow> nat \<Rightarrow> vault" where
  "mounted isTauri masterPasswordEnabled autoLockMinutes = mount_vault (initial_vault isTauri masterPasswordEnabled autoLockMinutes)"

lemma mounted_ok: "vault_ok (mounted isTauri mp m)"
  unfolding vault_ok_def mounted_def mount_vault_def flags_ok_timer
  by (intro conjI timer_ok_effect)
    (simp add: flags_ok_def initial_vault_def effect_defs request_defs canAutoUnlockLocal_def call_kinds unlocked_def previewStatus_def)

text \<open>
  Along every run the flags that the shell shows are backed by requests: it shows that the vault
  is loading or unlocking only while such a request is unanswered, and at most one local unlock
  is under way; outside the desktop application no request is ever sent.
\<close>

theorem vault_flags_are_backed:
  fixes isTauri mp :: bool and m :: nat and events :: "vault_event list"
  defines "v \<equiv> foldl vault_step (mounted isTauri mp m) events"
  shows "(sv_loading v \<longrightarrow> list_ex loads (sv_calls v)) \<and> (sv_unlocking v \<longrightarrow> list_ex unlocks (sv_calls v)) \<and>
    length (filter local_call (sv_calls v)) \<le> 1 \<and> (sv_isTauri v \<or> sv_calls v = [])"
proof -
  have "flags_ok v"
    using secret_vault.run_invar [OF mounted_ok] unfolding v_def vault_ok_def by blast
  then show ?thesis
    by (simp add: flags_ok_def split: if_splits)
qed

lemma unlocked_before: "sv_isTauri w \<Longrightarrow> unlocked (before_timer old w) = unlocked w"
  by (simp add: before_timer_def effect_defs request_defs unlocked_def)

lemma calls_before: "set (sv_calls w) \<subseteq> set (sv_calls (before_timer old w))"
  by (auto simp: before_timer_def effect_defs request_defs)

lemma calls_step: "set (sv_calls (vault_operation v e)) \<subseteq> set (sv_calls (vault_step v e))"
  using calls_before [of "vault_operation v e" v] by (auto simp: vault_step_def run_effects_eq timer_effect_def arm_timer_def)

text \<open>Requests to lock are answered, and a vault that was locked says so.\<close>

fun lock_honest :: "vault \<Rightarrow> vault_event \<Rightarrow> bool" where
  "lock_honest v (Answer n answer) \<longleftrightarrow>
     (n < length (sv_calls v) \<and> sv_calls v ! n = LockCall \<longrightarrow> (case answer of Inl e \<Rightarrow> False | Inr s \<Rightarrow> \<not> vs_unlocked s))"
| "lock_honest v e \<longleftrightarrow> True"

fun honest_run :: "vault \<Rightarrow> vault_event list \<Rightarrow> bool" where
  "honest_run v [] \<longleftrightarrow> True"
| "honest_run v (e # es) \<longleftrightarrow> lock_honest v e \<and> honest_run (vault_step v e) es"

definition lock_watched :: "vault \<Rightarrow> bool" where
  "lock_watched v \<longleftrightarrow> (auto_lock_on v \<longrightarrow> sv_deadline v \<noteq> None \<or> LockCall \<in> set (sv_calls v))"

lemma remove_other_call:
  assumes "x \<in> set xs" "n < length xs" "xs ! n \<noteq> x"
  shows "x \<in> set (take n xs @ drop (Suc n) xs)"
proof -
  have "set xs = insert (xs ! n) (set (take n xs @ drop (Suc n) xs))"
    using assms(2) by (subst id_take_nth_drop) auto
  with assms(1,3) show ?thesis
    by (metis insertE)
qed

lemma answered_calls: "set (sv_calls v) \<subseteq> set (sv_calls (answered c answer v))"
  by (cases c; cases answer) (auto simp: send_def local_done_def)

lemma operation_watched:
  assumes "lock_watched v" "lock_honest v e" "auto_lock_on v"
  shows "sv_deadline (vault_operation v e) \<noteq> None \<or> LockCall \<in> set (sv_calls (vault_operation v e)) \<or>
    \<not> unlocked (vault_operation v e)"
proof (cases e)
  case (Answer n answer)
  show ?thesis
  proof (cases "n < length (sv_calls v)")
    case True
    let ?calls = "take n (sv_calls v) @ drop (Suc n) (sv_calls v)"
    have op: "vault_operation v e = answered (sv_calls v ! n) answer (v\<lparr>sv_calls := ?calls\<rparr>)"
      using True Answer by (simp add: answer_call_def)
    show ?thesis
    proof (cases "sv_calls v ! n = LockCall")
      case lock: True
      then show ?thesis
        using assms(2) True Answer by (cases answer) (auto simp: answer_call_def take_answer_def unlocked_def)
    next
      case False
      then have "LockCall \<in> set ?calls" if "LockCall \<in> set (sv_calls v)"
        by (rule remove_other_call [OF that True])
      moreover have "set ?calls \<subseteq> set (sv_calls (vault_operation v e))"
        using answered_calls [of "v\<lparr>sv_calls := ?calls\<rparr>"] unfolding op by simp
      moreover have "sv_deadline (vault_operation v e) = sv_deadline v"
        using same_timer_answer [of v n answer] Answer by (simp add: same_timer_def)
      ultimately show ?thesis
        using assms(1,3) by (auto simp: lock_watched_def)
    qed
  qed (use assms Answer in \<open>auto simp: lock_watched_def answer_call_def\<close>)
next
  case (TimePasses dt)
  then show ?thesis
    using assms by (auto simp: auto_lock_fires_def lock_def send_def lock_watched_def auto_lock_on_def split: option.splits)
qed (use assms in \<open>auto simp: request_defs retry_def reset_timer_def arm_timer_def lock_watched_def\<close>)

lemma timer_effect_watched: "lock_watched (timer_effect v)"
proof -
  have "auto_lock_on (timer_effect v) = auto_lock_on v"
    by (simp add: timer_effect_def arm_timer_def auto_lock_on_def unlocked_def)
  then show ?thesis
    by (simp add: lock_watched_def) (simp add: timer_effect_def arm_timer_def)
qed

lemma lock_watched_step:
  assumes "lock_watched v" "lock_honest v e"
  shows "lock_watched (vault_step v e)"
proof (cases "timer_deps (before_timer v (vault_operation v e)) = timer_deps v")
  case True
  let ?w = "vault_operation v e" and ?x = "before_timer v (vault_operation v e)"
  have x: "vault_step v e = ?x"
    using True by (simp add: vault_step_def run_effects_eq)
  have same: "sv_deadline ?x = sv_deadline ?w" "sv_isTauri ?x = sv_isTauri ?w"
    using same_timer_before [of ?w v] by (auto simp: same_timer_def)
  show ?thesis
  proof (cases "auto_lock_on v")
    case on: True
    then have "auto_lock_on ?x"
      using auto_lock_on_deps [OF True] by simp
    then have "unlocked ?w"
      using unlocked_before [of ?w v] same by (simp add: auto_lock_on_def)
    then show ?thesis
      using operation_watched [OF assms on] calls_before [of ?w v] by (auto simp: x lock_watched_def same)
  qed (use auto_lock_on_deps [OF True] in \<open>simp add: x lock_watched_def\<close>)
qed (simp add: vault_step_def run_effects_eq timer_effect_watched)

lemma lock_watched_run: "honest_run v es \<Longrightarrow> lock_watched v \<Longrightarrow> lock_watched (foldl vault_step v es)"
  by (induction es arbitrary: v) (simp_all add: lock_watched_step)

lemma mounted_watched: "lock_watched (mounted isTauri mp m)"
  by (simp add: mounted_def mount_vault_def timer_effect_watched)

text \<open>
  C30. The vault is locked when nobody uses it: after any run in which requests to lock succeed, if the
  vault is open under a master password and an automatic lock is set, then a request to lock it is
  under way at the latest when the set number of minutes passes without activity.
\<close>

theorem vault_locks_when_idle:
  assumes "honest_run (mounted True mp m) events"
    and "unlocked (foldl vault_step (mounted True mp m) events)"
    and "sv_masterPassword (foldl vault_step (mounted True mp m) events)"
    and "sv_autoLock (foldl vault_step (mounted True mp m) events) = minutes" "minutes \<noteq> 0"
  shows "LockCall \<in> set (sv_calls (foldl vault_step (mounted True mp m) (events @ [TimePasses (of_nat minutes * 60 * 1000)])))"
proof -
  let ?v = "foldl vault_step (mounted True mp m) events"
  have tauri: "sv_isTauri (vault_step v e) = sv_isTauri v" for v e
  proof -
    have "sv_isTauri (vault_operation v e) = sv_isTauri v"
      using same_timer_requests [of v] same_timer_answer [of v]
      by (cases e) (auto simp: same_timer_def reset_timer_def arm_timer_def auto_lock_fires_def lock_def send_def split: option.splits)
    then show ?thesis
      using same_timer_before [of "vault_operation v e" v]
      by (simp add: vault_step_def run_effects_eq timer_effect_def arm_timer_def same_timer_def)
  qed
  have "sv_isTauri (foldl vault_step v es) = sv_isTauri v" for v es
    by (induction es arbitrary: v) (simp_all add: tauri)
  then have "sv_isTauri ?v"
    by (simp add: mounted_def mount_vault_def timer_effect_def arm_timer_def effect_defs request_defs initial_vault_def)
  then have on: "auto_lock_on ?v"
    using assms(2-5) by (simp add: auto_lock_on_def)
  have "timer_ok ?v"
    using secret_vault.run_invar [OF mounted_ok] by (simp add: vault_ok_def)
  moreover have "sv_deadline ?v \<noteq> None \<or> LockCall \<in> set (sv_calls ?v)"
    using lock_watched_run [OF assms(1) mounted_watched] on by (simp add: lock_watched_def)
  ultimately have "LockCall \<in> set (sv_calls (vault_operation ?v (TimePasses (of_nat minutes * 60 * 1000))))"
    using assms(4) \<open>sv_isTauri ?v\<close>
    by (auto simp: auto_lock_fires_def lock_def send_def timer_ok_def split: option.splits)
  then have "LockCall \<in> set (sv_calls (vault_step ?v (TimePasses (of_nat minutes * 60 * 1000))))"
    using calls_step by blast
  then show ?thesis
    by simp
qed

definition open_status :: SecretVaultStatus where
  "open_status = \<lparr>vs_initialized = True, vs_unlocked = True\<rparr>"

theorem vault_locks_when_idle_witness:
  "honest_run (mounted True True 5) [Answer 0 (Inr open_status)] \<and>
   LockCall \<in> set (sv_calls (foldl vault_step (mounted True True 5) [Answer 0 (Inr open_status), TimePasses 300000]))"
proof -
  have honest: "honest_run (mounted True True 5) [Answer 0 (Inr open_status)]"
    by code_simp
  have "unlocked (foldl vault_step (mounted True True 5) [Answer 0 (Inr open_status)])"
    "sv_masterPassword (foldl vault_step (mounted True True 5) [Answer 0 (Inr open_status)])"
    "sv_autoLock (foldl vault_step (mounted True True 5) [Answer 0 (Inr open_status)]) = 5"
    by code_simp+
  from vault_locks_when_idle [OF honest this] honest show ?thesis
    by simp
qed

text \<open>
  When the automatic lock fails, it is not tried again by itself: the timer has fired and nothing
  arms it until the user is active, so the vault of an unattended application stays open.
\<close>

theorem failed_auto_lock_is_not_retried:
  defines "v \<equiv> foldl vault_step (mounted True True 5)
    [Answer 0 (Inr open_status), TimePasses 300000, Answer 0 (Inl ''busy'')]"
  shows "unlocked v \<and> (\<forall>dt. vault_step v (TimePasses dt) = v\<lparr>sv_now := sv_now v + \<bar>dt\<bar>\<rparr>) \<and> sv_calls v = []"
proof -
  have v: "unlocked v" "sv_deadline v = None" "sv_calls v = []" "sv_isTauri v" "sv_masterPassword v"
    unfolding v_def by code_simp+
  have "vault_step v (TimePasses dt) = v\<lparr>sv_now := sv_now v + \<bar>dt\<bar>\<rparr>" for dt
    using v by (simp add: vault_step_def auto_lock_fires_def run_effects_eq before_timer_def second_unlock_effect_def timer_deps_def
        unlocked_def)
  then show ?thesis
    using v by simp
qed

section \<open>The gate\<close>

lemma status_answered:
  "sv_status (answered c answer v) = (case answer of Inl e \<Rightarrow> sv_status v | Inr s \<Rightarrow> Some s)"
  by (cases c; cases answer) (simp_all add: take_answer_def local_done_def send_def)

lemma status_operation:
  assumes "sv_isTauri v" "sv_status (vault_operation v e) = Some s"
  shows "sv_status v = Some s \<or> (\<exists>n. e = Answer n (Inr s))"
  using assms by (cases e)
    (auto simp: request_defs retry_def answer_call_def status_answered reset_timer_def arm_timer_def auto_lock_fires_def
      split: option.splits sum.splits if_splits)

lemma status_before: "sv_isTauri w \<Longrightarrow> sv_status (before_timer old w) = sv_status w"
  by (simp add: before_timer_def effect_defs request_defs)

lemma tauri_operation: "sv_isTauri (vault_operation v e) = sv_isTauri v"
  using same_timer_requests [of v] same_timer_answer [of v]
  by (cases e) (auto simp: same_timer_def reset_timer_def arm_timer_def auto_lock_fires_def lock_def send_def split: option.splits)

lemma step_simps:
  "sv_isTauri (vault_step v e) = sv_isTauri v"
  "sv_isTauri v \<Longrightarrow> sv_status (vault_step v e) = sv_status (vault_operation v e)"
  "sv_error (vault_step v e) = sv_error (before_timer v (vault_operation v e))"
  "sv_calls (vault_step v e) = sv_calls (before_timer v (vault_operation v e))"
  "sv_masterPassword (vault_step v e) = sv_masterPassword (vault_operation v e)"
  using same_timer_before [of "vault_operation v e" v] tauri_operation [of v e] status_before [of "vault_operation v e" v]
  by (simp_all add: vault_step_def run_effects_eq timer_effect_def arm_timer_def same_timer_def)

text \<open>
  In the desktop application the vault counts as open only when the desktop process has said so:
  the status the hook works with is always one that some request was answered with.
\<close>

theorem vault_opens_only_when_reported:
  assumes "ready (foldl vault_step (mounted True mp m) events)"
  shows "\<exists>n s. Answer n (Inr s) \<in> set events \<and> vs_unlocked s"
proof -
  have tauri: "sv_isTauri (foldl vault_step v es) = sv_isTauri v" for v es
    by (induction es arbitrary: v) (simp_all add: step_simps)
  have start: "sv_isTauri (mounted True mp m)" "sv_status (mounted True mp m) = None"
    by (simp_all add: mounted_def mount_vault_def timer_effect_def arm_timer_def effect_defs request_defs initial_vault_def)
  then obtain s where s: "sv_status (foldl vault_step (mounted True mp m) events) = Some s" "vs_unlocked s"
    using assms tauri by (auto simp: ready_def unlocked_def split: option.splits)
  have "sv_isTauri v \<Longrightarrow> sv_status (foldl vault_step v es) = Some s \<Longrightarrow> sv_status v = Some s \<or> (\<exists>n. Answer n (Inr s) \<in> set es)" for v es
  proof (induction es arbitrary: v)
    case (Cons e es)
    then show ?case
      using Cons.IH [of "vault_step v e"] status_operation [of v e s] by (auto simp: step_simps)
  qed simp
  from this [OF start(1) s(1)] show ?thesis
    using start(2) s(2) by auto
qed

theorem vault_opens_only_when_reported_witness:
  "ready (foldl vault_step (mounted True False 0) [Answer 0 (Inr open_status)]) \<and>
   (\<exists>n s. Answer n (Inr s) \<in> set [Answer 0 (Inr open_status)] \<and> vs_unlocked s)"
proof -
  have "ready (foldl vault_step (mounted True False 0) [Answer 0 (Inr open_status)])"
    by code_simp
  from vault_opens_only_when_reported [OF this] this show ?thesis
    by blast
qed

text \<open>
  The gate of an application without a master password: the automatic unlock has failed, the
  only requests are those of the unlock itself, and no automatic lock is set.
\<close>

definition gate_shown :: "vault \<Rightarrow> bool" where
  "gate_shown v \<longleftrightarrow> canAutoUnlockLocal v \<and> requiresUnlock v \<and> list_all local_call (sv_calls v) \<and> sv_deadline v = None"

text \<open>
  What can happen behind the gate. Errors have a text, and a local unlock that succeeds reports
  an open vault.
\<close>

fun behind_gate :: "vault \<Rightarrow> vault_event \<Rightarrow> bool" where
  "behind_gate v Retry \<longleftrightarrow> True"
| "behind_gate v UserActivity \<longleftrightarrow> True"
| "behind_gate v (TimePasses dt) \<longleftrightarrow> True"
| "behind_gate v (Answer n answer) \<longleftrightarrow>
     (case answer of Inl e \<Rightarrow> e \<noteq> []
      | Inr s \<Rightarrow> n < length (sv_calls v) \<and> sv_calls v ! n = LocalUnlockCall \<longrightarrow> vs_unlocked s)"
| "behind_gate v e \<longleftrightarrow> False"

lemma before_timer_local: "canAutoUnlockLocal v \<Longrightarrow> sv_masterPassword v = sv_masterPassword old \<Longrightarrow> before_timer old v = v"
  by (simp add: before_timer_def second_unlock_effect_def)

lemma gate_answer:
  assumes "gate_shown v" "behind_gate v (Answer n answer)"
  shows "gate_shown (answer_call n answer v) \<or> unlocked (answer_call n answer v)"
proof (cases "n < length (sv_calls v)")
  case True
  let ?calls = "take n (sv_calls v) @ drop (Suc n) (sv_calls v)"
  have "list_all local_call ?calls"
    using assms(1) by (auto simp: gate_shown_def list_all_iff dest: in_set_takeD in_set_dropD)
  moreover have "local_call (sv_calls v ! n)"
    using assms(1) True by (simp add: gate_shown_def list_all_length)
  then consider "sv_calls v ! n = LocalStatusCall" | "sv_calls v ! n = LocalUnlockCall"
    by (auto simp: local_call_def)
  then show ?thesis
    using assms True calculation
    by cases (auto simp: gate_shown_def requiresUnlock_def canAutoUnlockLocal_def unlocked_def answer_call_def take_answer_def
        local_done_def send_def local_call_def truthy_def split: sum.splits)
qed (use assms in \<open>simp add: answer_call_def\<close>)

lemma gate_operation:
  assumes "gate_shown v" "behind_gate v e"
  shows "(gate_shown (vault_operation v e) \<or> unlocked (vault_operation v e)) \<and> canAutoUnlockLocal (vault_operation v e)"
proof (cases e)
  case (Answer n answer)
  then show ?thesis
    using gate_answer [OF assms(1), of n answer] assms same_timer_answer [of v n answer]
    by (auto simp: gate_shown_def canAutoUnlockLocal_def same_timer_def)
next
  case (TimePasses dt)
  then show ?thesis
    using assms by (auto simp: auto_lock_fires_def gate_shown_def requiresUnlock_def canAutoUnlockLocal_def unlocked_def)
qed (use assms in \<open>auto simp: gate_shown_def requiresUnlock_def canAutoUnlockLocal_def retry_def unlockLocal_def send_def
      unlocked_def local_call_def reset_timer_def auto_lock_on_def\<close>)

text \<open>
  While the automatic unlock is retried the gate stays: whatever happens behind it next, either the
  gate is still shown or the vault is open, so the workspace never appears with a locked vault.
\<close>

theorem gate_kept_while_retrying:
  assumes "gate_shown v" "behind_gate v e"
  shows "gate_shown (vault_step v e) \<or> ready (vault_step v e)"
proof -
  have w: "canAutoUnlockLocal (vault_operation v e)" "gate_shown (vault_operation v e) \<or> unlocked (vault_operation v e)"
    using gate_operation [OF assms] by blast+
  have "sv_masterPassword (vault_operation v e) = sv_masterPassword v"
    using w(1) assms(1) by (simp add: gate_shown_def canAutoUnlockLocal_def)
  then have before: "before_timer v (vault_operation v e) = vault_operation v e"
    by (rule before_timer_local [OF w(1)])
  have "\<not> auto_lock_on (vault_operation v e)"
    using w(1) by (simp add: auto_lock_on_def canAutoUnlockLocal_def)
  then have "vault_step v e = vault_operation v e \<or> vault_step v e = (vault_operation v e)\<lparr>sv_deadline := None\<rparr>"
    by (simp add: vault_step_def run_effects_eq before timer_effect_def)
  then show ?thesis
    using w by (auto simp: gate_shown_def ready_def requiresUnlock_def canAutoUnlockLocal_def unlocked_def)
qed

theorem gate_kept_while_retrying_witness:
  "gate_shown (vault_step (mounted True False 0) (Answer 0 (Inl ''io''))) \<and>
   gate_shown (foldl vault_step (mounted True False 0) [Answer 0 (Inl ''io''), Retry])"
proof -
  let ?v = "vault_step (mounted True False 0) (Answer 0 (Inl ''io''))"
  have gate: "gate_shown ?v"
    by code_simp
  have "\<not> ready (vault_step ?v Retry)"
    by code_simp
  then show ?thesis
    using gate_kept_while_retrying [OF gate, of Retry] gate by simp
qed

text \<open>The second effect that starts the local unlock never does anything: its guards exclude each other.\<close>

lemma second_unlock_effect_idle: "second_unlock_effect v = v"
  by (auto simp: second_unlock_effect_def canAutoUnlockLocal_def)

end
