(* ===== verification/Remote_Monitor.thy ===== *)
theory Remote_Monitor
  imports Prelude
begin

text \<open>
  The status monitor of a remote host (\<open>features/monitor/useRemoteMonitor.ts\<close>): requests carry a
  run number so that late answers are recognised, and an effect polls while the panel is active
  and the document visible. The hook is a transition system over the promises of
  \<open>remoteMonitorSnapshot\<close>; an answer is a snapshot or an error text. Only the two fields of a
  snapshot that the hook reads are distinguished. A commit runs the effects whose dependencies
  have changed, in the order of the source, and the state they set is committed in turn.
\<close>

section \<open>State\<close>

datatype MonitorPanelView = StatusView | HardwareView | NetworkView | ProcessesView

record 'a RemoteMonitorSnapshot =
  collected_at_ms :: rat
  refresh_hint_ms :: rat
  monitor_data :: 'a

definition statusPollMs :: rat where "statusPollMs = 3000"
definition networkPollMs :: rat where "networkPollMs = 2000"
definition processPollMs :: rat where "processPollMs = 5000"
definition hardwarePollMs :: rat where "hardwarePollMs = 30000"
definition historyWindowMs :: rat where "historyWindowMs = 60000"

text \<open>
  A request that has not been answered: its run, what it asks for, and the instance of the polling
  effect that waits for it, if any.
\<close>

record monitor_request =
  rq_run :: nat
  rq_connection :: string
  rq_processes :: bool
  rq_poll :: "nat option"

text \<open>
  \<open>mo_poll\<close> numbers the instances of the polling effect (an instance with another number is
  cancelled); \<open>mo_polling\<close> says whether the current one polls, \<open>mo_timer\<close> is its pending timer.
\<close>

record 'a monitor =
  mo_active :: bool
  mo_connection :: "string option"
  mo_view :: MonitorPanelView
  mo_visible :: bool
  mo_mounted :: bool
  mo_snapshot :: "'a RemoteMonitorSnapshot option"
  mo_history :: "'a RemoteMonitorSnapshot list"
  mo_loading :: bool
  mo_refreshing :: bool
  mo_error :: "string option"
  mo_inFlight :: "nat option"
  mo_run :: nat
  mo_snapshotRef :: "'a RemoteMonitorSnapshot option"
  mo_requests :: "monitor_request list"
  mo_poll :: nat
  mo_polling :: bool
  mo_timer :: "rat option"

definition includeProcesses :: "'a monitor \<Rightarrow> bool" where
  "includeProcesses v \<longleftrightarrow> mo_view v = ProcessesView"

definition pollingMs :: "MonitorPanelView \<Rightarrow> 'a RemoteMonitorSnapshot option \<Rightarrow> rat" where
  "pollingMs view snapshot =
     (case view of
        ProcessesView \<Rightarrow> processPollMs
      | NetworkView \<Rightarrow> networkPollMs
      | HardwareView \<Rightarrow> hardwarePollMs
      | StatusView \<Rightarrow>
          (case snapshot of
             None \<Rightarrow> statusPollMs
           | Some s \<Rightarrow> if refresh_hint_ms s = 0 then statusPollMs else refresh_hint_ms s))"

section \<open>Refresh\<close>

definition appendHistory ::
  "'a RemoteMonitorSnapshot list \<Rightarrow> 'a RemoteMonitorSnapshot \<Rightarrow> 'a RemoteMonitorSnapshot list" where
  "appendHistory current snapshot =
     (let since = collected_at_ms snapshot - historyWindowMs;
          kept = filter (\<lambda>item. since \<le> collected_at_ms item) current @ [snapshot]
      in drop (length kept - 40) kept)"

text \<open>
  Up to the first \<open>await\<close>: \<open>Inl\<close> when it returns at once, \<open>Inr\<close> when a request was sent. An empty
  connection id counts as none.
\<close>

definition refresh_monitor :: "bool \<Rightarrow> nat option \<Rightarrow> 'a monitor \<Rightarrow> bool \<times> 'a monitor" where
  "refresh_monitor silent poll v =
     (case truthy (mo_connection v) of
        None \<Rightarrow> (False, v)
      | Some connectionId \<Rightarrow>
          if mo_inFlight v \<noteq> None then (False, v)
          else let runId = mo_run v + 1 in
            (True, v\<lparr>mo_run := runId, mo_inFlight := Some runId, mo_loading := (\<not> silent \<or> mo_loading v), mo_refreshing := True,
               mo_requests := mo_requests v @ [\<lparr>rq_run = runId, rq_connection = connectionId,
                 rq_processes = includeProcesses v, rq_poll = poll\<rparr>]\<rparr>))"

definition set_poll_timer :: "nat \<Rightarrow> 'a monitor \<Rightarrow> 'a monitor" where
  "set_poll_timer poll v = (if mo_polling v \<and> mo_poll v = poll then v\<lparr>mo_timer := Some (pollingMs (mo_view v) (mo_snapshot v))\<rparr> else v)"

text \<open>The function \<open>poll\<close> of the effect up to its \<open>await\<close>, with the rest when nothing is awaited.\<close>

definition poll_monitor :: "bool \<Rightarrow> 'a monitor \<Rightarrow> 'a monitor" where
  "poll_monitor silent v =
     (let (sent, v) = refresh_monitor silent (Some (mo_poll v)) v
      in if sent then v else set_poll_timer (mo_poll v) v)"

definition current_run :: "nat \<Rightarrow> 'a monitor \<Rightarrow> bool" where
  "current_run runId v \<longleftrightarrow> mo_mounted v \<and> mo_run v = runId"

definition monitor_answered :: "monitor_request \<Rightarrow> string + 'a RemoteMonitorSnapshot \<Rightarrow> 'a monitor \<Rightarrow> 'a monitor" where
  "monitor_answered request answer v =
     (let runId = rq_run request;
          v = (if current_run runId v then
                 (case answer of
                    Inr s \<Rightarrow> v\<lparr>mo_snapshot := Some s, mo_history := appendHistory (mo_history v) s, mo_error := None\<rparr>
                  | Inl e \<Rightarrow> v\<lparr>mo_error := Some e\<rparr>)
               else v);
          v = (if mo_inFlight v = Some runId then v\<lparr>mo_inFlight := None\<rparr> else v);
          v = (if current_run runId v then v\<lparr>mo_loading := False, mo_refreshing := False\<rparr> else v)
      in case rq_poll request of None \<Rightarrow> v | Some poll \<Rightarrow> set_poll_timer poll v)"

section \<open>Effects\<close>

definition reset_effect :: "'a monitor \<Rightarrow> 'a monitor" where
  "reset_effect v = v\<lparr>mo_run := mo_run v + 1, mo_inFlight := None, mo_snapshot := None, mo_history := [],
     mo_error := None, mo_loading := False, mo_refreshing := False\<rparr>"

definition wants_polling :: "'a monitor \<Rightarrow> bool" where
  "wants_polling v \<longleftrightarrow> truthy (mo_connection v) \<noteq> None \<and> mo_active v \<and> mo_visible v"

text \<open>The cleanup of the last instance, then the effect.\<close>

definition poll_effect :: "'a monitor \<Rightarrow> 'a monitor" where
  "poll_effect v =
     (let v = v\<lparr>mo_poll := mo_poll v + 1, mo_timer := None, mo_polling := wants_polling v\<rparr>
      in if mo_polling v then poll_monitor (mo_snapshotRef v \<noteq> None) v else v)"

definition poll_deps :: "'a monitor \<Rightarrow> bool \<times> string option \<times> bool \<times> rat \<times> bool" where
  "poll_deps v = (mo_active v, mo_connection v, mo_visible v, pollingMs (mo_view v) (mo_snapshot v), includeProcesses v)"

definition monitor_effects :: "'a monitor \<Rightarrow> 'a monitor \<Rightarrow> 'a monitor" where
  "monitor_effects old v =
     (let deps_changed = poll_deps v \<noteq> poll_deps old;
          w = v\<lparr>mo_snapshotRef := mo_snapshot v\<rparr>;
          w = (if mo_connection v = mo_connection old then w else reset_effect w)
      in if deps_changed then poll_effect w else w)"

text \<open>
  The effects of a commit and those of the commit that their own updates cause; after that nothing
  they depend on changes any more.
\<close>

definition commit_monitor :: "'a monitor \<Rightarrow> 'a monitor \<Rightarrow> 'a monitor" where
  "commit_monitor old v = monitor_effects v (monitor_effects old v)"

definition initial_monitor :: "bool \<Rightarrow> string option \<Rightarrow> MonitorPanelView \<Rightarrow> bool \<Rightarrow> 'a monitor" where
  "initial_monitor active connectionId view visible =
     \<lparr>mo_active = active, mo_connection = connectionId, mo_view = view, mo_visible = visible, mo_mounted = True,
      mo_snapshot = None, mo_history = [], mo_loading = False, mo_refreshing = False, mo_error = None, mo_inFlight = None,
      mo_run = 0, mo_snapshotRef = None, mo_requests = [], mo_poll = 0, mo_polling = False, mo_timer = None\<rparr>"

definition mount_monitor :: "'a monitor \<Rightarrow> 'a monitor" where
  "mount_monitor v = poll_effect (reset_effect (v\<lparr>mo_snapshotRef := mo_snapshot v\<rparr>))"

section \<open>Events\<close>

datatype 'a monitor_event =
    RefreshMonitor bool
  | MonitorAnswer nat "string + 'a RemoteMonitorSnapshot"
  | PollTimer
  | MonitorProps bool "string option" MonitorPanelView
  | DocumentVisible bool

fun monitor_operation :: "'a monitor \<Rightarrow> 'a monitor_event \<Rightarrow> 'a monitor" where
  "monitor_operation v (RefreshMonitor silent) = snd (refresh_monitor silent None v)"
| "monitor_operation v (MonitorAnswer n answer) =
     (if n < length (mo_requests v)
      then monitor_answered (mo_requests v ! n) answer (v\<lparr>mo_requests := take n (mo_requests v) @ drop (Suc n) (mo_requests v)\<rparr>)
      else v)"
| "monitor_operation v PollTimer = (if mo_timer v = None then v else poll_monitor True (v\<lparr>mo_timer := None\<rparr>))"
| "monitor_operation v (MonitorProps active connectionId view) =
     v\<lparr>mo_active := active, mo_connection := connectionId, mo_view := view\<rparr>"
| "monitor_operation v (DocumentVisible visible) = v\<lparr>mo_visible := visible\<rparr>"

definition monitor_step :: "'a monitor \<Rightarrow> 'a monitor_event \<Rightarrow> 'a monitor" where
  "monitor_step v e = commit_monitor v (monitor_operation v e)"

text \<open>The cleanup on unmount: late answers find another run, and the poll is cancelled.\<close>

definition unmount_monitor :: "'a monitor \<Rightarrow> 'a monitor" where
  "unmount_monitor v = v\<lparr>mo_mounted := False, mo_run := mo_run v + 1, mo_polling := False, mo_timer := None\<rparr>"

section \<open>Runs\<close>

definition runs_ok :: "'a monitor \<Rightarrow> bool" where
  "runs_ok v \<longleftrightarrow> distinct (map rq_run (mo_requests v)) \<and> (\<forall>r \<in> set (mo_requests v). rq_run r \<le> mo_run v) \<and>
     (mo_inFlight v = (if mo_run v \<in> rq_run ` set (mo_requests v) then Some (mo_run v) else None))"

text \<open>The request of the current run asks for connection \<open>c\<close>.\<close>

definition owned :: "string option \<Rightarrow> 'a monitor \<Rightarrow> bool" where
  "owned c v \<longleftrightarrow> (\<forall>r \<in> set (mo_requests v). rq_run r = mo_run v \<longrightarrow> Some (rq_connection r) = c)"

definition polled :: "'a monitor \<Rightarrow> bool" where
  "polled v \<longleftrightarrow> (mo_polling v \<longrightarrow> mo_timer v \<noteq> None \<or> Some (mo_poll v) \<in> rq_poll ` set (mo_requests v))"

definition flags_backed :: "'a monitor \<Rightarrow> bool" where
  "flags_backed v \<longleftrightarrow> (mo_loading v \<or> mo_refreshing v \<longrightarrow> mo_inFlight v \<noteq> None)"

definition window_of :: "'a RemoteMonitorSnapshot option \<Rightarrow> 'a RemoteMonitorSnapshot list \<Rightarrow> bool" where
  "window_of snapshot history \<longleftrightarrow> length history \<le> 40 \<and>
     (case snapshot of
        None \<Rightarrow> history = []
      | Some s \<Rightarrow> history \<noteq> [] \<and> last history = s \<and>
          list_all (\<lambda>item. collected_at_ms s - historyWindowMs \<le> collected_at_ms item) history)"

definition window_ok :: "'a monitor \<Rightarrow> bool" where
  "window_ok v \<longleftrightarrow> window_of (mo_snapshot v) (mo_history v)"

definition pending_ok :: "'a monitor \<Rightarrow> bool" where
  "pending_ok v \<longleftrightarrow> runs_ok v \<and> polled v \<and> flags_backed v \<and> window_ok v"

lemma refresh_cases:
  assumes "refresh_monitor silent poll v = (sent, w)"
  obtains (idle) "\<not> sent" "w = v"
  | (request) c where "sent" "mo_connection v = Some c" "mo_inFlight v = None"
      "w = v\<lparr>mo_run := Suc (mo_run v), mo_inFlight := Some (Suc (mo_run v)), mo_loading := (\<not> silent \<or> mo_loading v),
        mo_refreshing := True,
        mo_requests := mo_requests v @ [\<lparr>rq_run = Suc (mo_run v), rq_connection = c, rq_processes = includeProcesses v, rq_poll = poll\<rparr>]\<rparr>"
proof (cases "truthy (mo_connection v) = None \<or> mo_inFlight v \<noteq> None")
  case True
  then have "\<not> sent \<and> w = v"
    using assms by (auto simp: refresh_monitor_def split: option.splits)
  then show thesis
    using idle by blast
next
  case False
  then obtain c where c: "truthy (mo_connection v) = Some c" "mo_inFlight v = None"
    by auto
  show thesis
    by (rule request [of c]) (use assms c c(1) [unfolded truthy_eq_Some] in \<open>auto simp: refresh_monitor_def Let_def\<close>)
qed

lemma no_later_run: "runs_ok v \<Longrightarrow> Suc (mo_run v) \<notin> rq_run ` set (mo_requests v)"
  by (auto simp: runs_ok_def)

lemma refresh_runs:
  assumes "refresh_monitor silent poll v = (sent, w)" "runs_ok v"
  shows "runs_ok w" and "owned (mo_connection v) v \<Longrightarrow> owned (mo_connection v) w"
  using assms(1) by (cases rule: refresh_cases; use assms(2) no_later_run [OF assms(2)] in \<open>auto simp: runs_ok_def owned_def le_SucI\<close>)+

lemma refresh_keeps:
  assumes "refresh_monitor silent poll v = (sent, w)"
  shows "polled v \<Longrightarrow> polled w" and "flags_backed v \<Longrightarrow> flags_backed w" and "window_ok v \<Longrightarrow> window_ok w"
    and "sent \<Longrightarrow> poll \<in> rq_poll ` set (mo_requests w)"
    and "mo_polling w = mo_polling v" "mo_poll w = mo_poll v" "mo_connection w = mo_connection v"
    and "mo_snapshot w = mo_snapshot v" "poll_deps w = poll_deps v" "wants_polling w = wants_polling v" "mo_mounted w = mo_mounted v"
  using assms by (cases rule: refresh_cases; auto simp: polled_def flags_backed_def window_ok_def poll_deps_def includeProcesses_def
      wants_polling_def)+

lemma poll_timer_keeps:
  "runs_ok (set_poll_timer p v) = runs_ok v" "owned c (set_poll_timer p v) = owned c v"
  "flags_backed (set_poll_timer p v) = flags_backed v" "window_ok (set_poll_timer p v) = window_ok v"
  "mo_connection (set_poll_timer p v) = mo_connection v" "mo_snapshot (set_poll_timer p v) = mo_snapshot v"
  "poll_deps (set_poll_timer p v) = poll_deps v" "wants_polling (set_poll_timer p v) = wants_polling v"
  "mo_polling (set_poll_timer p v) = mo_polling v" "mo_mounted (set_poll_timer p v) = mo_mounted v"
  by (simp_all add: set_poll_timer_def runs_ok_def owned_def flags_backed_def window_ok_def poll_deps_def
      includeProcesses_def wants_polling_def)

lemma poll_keeps:
  "runs_ok v \<Longrightarrow> runs_ok (poll_monitor silent v)" "runs_ok v \<Longrightarrow> owned (mo_connection v) v \<Longrightarrow> owned (mo_connection v) (poll_monitor silent v)"
  "polled (poll_monitor silent v)" "flags_backed v \<Longrightarrow> flags_backed (poll_monitor silent v)"
  "window_ok v \<Longrightarrow> window_ok (poll_monitor silent v)" "mo_connection (poll_monitor silent v) = mo_connection v"
  "mo_snapshot (poll_monitor silent v) = mo_snapshot v" "poll_deps (poll_monitor silent v) = poll_deps v"
  "wants_polling (poll_monitor silent v) = wants_polling v" "mo_polling (poll_monitor silent v) = mo_polling v" "mo_mounted (poll_monitor silent v) = mo_mounted v"
proof -
  obtain sent w where w: "refresh_monitor silent (Some (mo_poll v)) v = (sent, w)"
    by (cases "refresh_monitor silent (Some (mo_poll v)) v")
  have "polled (if sent then w else set_poll_timer (mo_poll w) w)"
    using refresh_keeps(4,6) [OF w] by (auto simp: polled_def set_poll_timer_def)
  then show "polled (poll_monitor silent v)"
    by (simp add: poll_monitor_def w)
  show "runs_ok v \<Longrightarrow> runs_ok (poll_monitor silent v)" "runs_ok v \<Longrightarrow> owned (mo_connection v) v \<Longrightarrow> owned (mo_connection v) (poll_monitor silent v)"
    "flags_backed v \<Longrightarrow> flags_backed (poll_monitor silent v)"
    "window_ok v \<Longrightarrow> window_ok (poll_monitor silent v)" "mo_connection (poll_monitor silent v) = mo_connection v"
    "mo_snapshot (poll_monitor silent v) = mo_snapshot v" "poll_deps (poll_monitor silent v) = poll_deps v"
    "wants_polling (poll_monitor silent v) = wants_polling v" "mo_polling (poll_monitor silent v) = mo_polling v" "mo_mounted (poll_monitor silent v) = mo_mounted v"
    using refresh_keeps [OF w] refresh_runs [OF w] by (simp_all add: poll_monitor_def w poll_timer_keeps)
qed

lemma reset_keeps:
  "runs_ok v \<Longrightarrow> runs_ok (reset_effect v)" "runs_ok v \<Longrightarrow> owned c (reset_effect v)" "polled (reset_effect v) = polled v"
  "flags_backed (reset_effect v)" "window_ok (reset_effect v)"
proof -
  assume ok: "runs_ok v"
  then have "Suc (mo_run v) \<notin> rq_run ` set (mo_requests v)"
    by (auto simp: runs_ok_def)
  then show "runs_ok (reset_effect v)" "owned c (reset_effect v)"
    using ok by (auto simp: runs_ok_def reset_effect_def owned_def le_SucI)
qed (simp_all add: polled_def reset_effect_def flags_backed_def window_ok_def window_of_def)

lemma poll_effect_keeps:
  fixes v :: "'a monitor"
  defines "w \<equiv> poll_effect v"
  shows "runs_ok v \<Longrightarrow> runs_ok w" "runs_ok v \<Longrightarrow> owned (mo_connection v) v \<Longrightarrow> owned (mo_connection v) w" "polled w"
    "flags_backed v \<Longrightarrow> flags_backed w" "window_ok v \<Longrightarrow> window_ok w" "mo_connection w = mo_connection v"
    "mo_snapshot w = mo_snapshot v" "poll_deps w = poll_deps v" "mo_polling w = wants_polling w" "mo_mounted w = mo_mounted v"
proof -
  define x where "x = v\<lparr>mo_poll := mo_poll v + 1, mo_timer := None, mo_polling := wants_polling v\<rparr>"
  have x: "runs_ok x = runs_ok v" "owned c x = owned c v" "flags_backed x = flags_backed v" "window_ok x = window_ok v"
      "mo_connection x = mo_connection v" "mo_snapshot x = mo_snapshot v" "poll_deps x = poll_deps v"
      "wants_polling x = wants_polling v" "mo_polling x = wants_polling v" "mo_mounted x = mo_mounted v" for c
    by (simp_all add: x_def runs_ok_def owned_def flags_backed_def window_ok_def poll_deps_def includeProcesses_def
        wants_polling_def)
  have w: "w = (if mo_polling x then poll_monitor (mo_snapshotRef x \<noteq> None) x else x)"
    by (simp add: w_def poll_effect_def x_def)
  show "runs_ok v \<Longrightarrow> runs_ok w" "runs_ok v \<Longrightarrow> owned (mo_connection v) v \<Longrightarrow> owned (mo_connection v) w" "polled w"
    "flags_backed v \<Longrightarrow> flags_backed w" "window_ok v \<Longrightarrow> window_ok w" "mo_connection w = mo_connection v"
    "mo_snapshot w = mo_snapshot v" "poll_deps w = poll_deps v" "mo_polling w = wants_polling w" "mo_mounted w = mo_mounted v"
    using poll_keeps [where v = x and silent = "mo_snapshotRef x \<noteq> None"] by (auto simp: w x polled_def)
qed

section \<open>Steps\<close>

text \<open>Between an operation that started in a state \<open>old\<close> and its effects.\<close>

definition uncommitted_ok :: "'a monitor \<Rightarrow> 'a monitor \<Rightarrow> bool" where
  "uncommitted_ok old v \<longleftrightarrow> runs_ok v \<and> owned (mo_connection old) v \<and> polled v \<and> flags_backed v \<and> window_ok v \<and>
     mo_polling v = wants_polling old \<and> mo_mounted v"

definition monitor_ok :: "'a monitor \<Rightarrow> bool" where
  "monitor_ok v \<longleftrightarrow> uncommitted_ok v v"

lemma wants_polling_deps: "poll_deps v = poll_deps w \<Longrightarrow> wants_polling v = wants_polling w"
  by (simp add: poll_deps_def wants_polling_def)

lemma snapshot_ref_keeps:
  "runs_ok (v\<lparr>mo_snapshotRef := s\<rparr>) = runs_ok v" "owned c (v\<lparr>mo_snapshotRef := s\<rparr>) = owned c v"
  "polled (v\<lparr>mo_snapshotRef := s\<rparr>) = polled v" "flags_backed (v\<lparr>mo_snapshotRef := s\<rparr>) = flags_backed v"
  "window_ok (v\<lparr>mo_snapshotRef := s\<rparr>) = window_ok v" "wants_polling (v\<lparr>mo_snapshotRef := s\<rparr>) = wants_polling v"
  by (simp_all add: runs_ok_def owned_def polled_def flags_backed_def window_ok_def wants_polling_def)

lemma effects_ok:
  fixes v :: "'a monitor"
  assumes ok: "uncommitted_ok old v"
  shows "uncommitted_ok v (monitor_effects old v)" and "mo_polling (monitor_effects old v) = wants_polling (monitor_effects old v)"
    and "mo_connection (monitor_effects old v) = mo_connection v"
proof -
  define w where "w = (if mo_connection v = mo_connection old then v\<lparr>mo_snapshotRef := mo_snapshot v\<rparr>
    else reset_effect (v\<lparr>mo_snapshotRef := mo_snapshot v\<rparr>))"
  have w: "runs_ok w" "owned (mo_connection w) w" "polled w" "flags_backed w" "window_ok w" "mo_connection w = mo_connection v"
      "wants_polling w = wants_polling v" "mo_polling w = mo_polling v" "mo_mounted w"
    using ok reset_keeps [of "v\<lparr>mo_snapshotRef := mo_snapshot v\<rparr>"]
    by (auto simp: w_def uncommitted_ok_def snapshot_ref_keeps reset_effect_def wants_polling_def)
  have eff: "monitor_effects old v = (if poll_deps v \<noteq> poll_deps old then poll_effect w else w)"
    by (simp add: monitor_effects_def w_def Let_def)
  show conn: "mo_connection (monitor_effects old v) = mo_connection v"
    using w poll_effect_keeps(6) [of w] by (simp add: eff)
  have wants: "wants_polling (monitor_effects old v) = wants_polling v"
    using w wants_polling_deps [OF poll_effect_keeps(8) [of w]] by (simp add: eff)
  show polling: "mo_polling (monitor_effects old v) = wants_polling (monitor_effects old v)"
  proof (cases "poll_deps v = poll_deps old")
    case True
    then show ?thesis
      using ok w wants_polling_deps [OF True] by (simp add: eff uncommitted_ok_def)
  qed (simp add: eff poll_effect_keeps(9))
  show "uncommitted_ok v (monitor_effects old v)"
    unfolding uncommitted_ok_def polling wants using w poll_effect_keeps [where v = w] by (simp add: eff)
qed

lemma commit_ok:
  assumes "uncommitted_ok old v"
  shows "monitor_ok (commit_monitor old v)"
proof -
  let ?x = "monitor_effects old v"
  note first = effects_ok [OF assms]
  note second = effects_ok [OF first(1)]
  show ?thesis
    using second(1) unfolding monitor_ok_def commit_monitor_def uncommitted_ok_def [of "monitor_effects v ?x"] second(2,3)
    by (simp add: uncommitted_ok_def)
qed

lemma appendHistory_window:
  "window_of (Some s) (appendHistory history s)"
proof -
  define kept where "kept = filter (\<lambda>item. collected_at_ms s - historyWindowMs \<le> collected_at_ms item) history @ [s]"
  have app: "appendHistory history s = drop (length kept - 40) kept"
    by (simp add: appendHistory_def kept_def Let_def)
  have len: "length kept - 40 < length kept"
    by (simp add: kept_def)
  have "last (appendHistory history s) = s" "appendHistory history s \<noteq> []"
    using len by (simp_all add: app last_drop) (simp add: kept_def)
  moreover have "list_all (\<lambda>item. collected_at_ms s - historyWindowMs \<le> collected_at_ms item) kept"
    by (simp add: kept_def list_all_iff historyWindowMs_def)
  then have "list_all (\<lambda>item. collected_at_ms s - historyWindowMs \<le> collected_at_ms item) (appendHistory history s)"
    by (auto simp: app list_all_iff dest: in_set_dropD)
  moreover have "length (appendHistory history s) \<le> 40"
    by (simp add: app)
  ultimately show ?thesis
    by (simp add: window_of_def)
qed

lemma runs_remove:
  assumes "runs_ok v" "mo_requests v = a @ r # b"
  shows "rq_run r = mo_run v \<Longrightarrow> mo_inFlight v = Some (mo_run v)"
    and "rq_run r \<noteq> mo_run v \<Longrightarrow> mo_inFlight v \<noteq> Some (rq_run r)"
    and "runs_ok (v\<lparr>mo_requests := a @ b, mo_inFlight := (if rq_run r = mo_run v then None else mo_inFlight v)\<rparr>)"
  using assms by (auto simp: runs_ok_def split: if_splits)

text \<open>The state that an answer leaves before the poll that waited for it goes on.\<close>

definition answer_taken :: "monitor_request \<Rightarrow> monitor_request list \<Rightarrow> string + 'a RemoteMonitorSnapshot \<Rightarrow> 'a monitor \<Rightarrow> 'a monitor" where
  "answer_taken r rest answer v =
     (let v = v\<lparr>mo_requests := rest\<rparr> in
      if rq_run r = mo_run v then
        (case answer of
           Inr s \<Rightarrow> v\<lparr>mo_snapshot := Some s, mo_history := appendHistory (mo_history v) s, mo_error := None\<rparr>
         | Inl e \<Rightarrow> v\<lparr>mo_error := Some e\<rparr>)\<lparr>mo_inFlight := None, mo_loading := False, mo_refreshing := False\<rparr>
      else v)"

lemma answered_taken:
  assumes "runs_ok v" "mo_mounted v" "mo_requests v = a @ r # b"
  shows "monitor_answered r answer (v\<lparr>mo_requests := a @ b\<rparr>) =
    (case rq_poll r of None \<Rightarrow> id | Some p \<Rightarrow> set_poll_timer p) (answer_taken r (a @ b) answer v)"
  using runs_remove(1,2) [OF assms(1,3)] assms(2)
  by (cases "rq_run r = mo_run v")
    (auto simp: monitor_answered_def Let_def current_run_def answer_taken_def Let_def split: option.splits sum.splits)

lemma taken_ok:
  assumes "runs_ok v" "mo_requests v = a @ r # b"
  shows "runs_ok (answer_taken r (a @ b) answer v)"
    and "owned c v \<Longrightarrow> owned c (answer_taken r (a @ b) answer v)"
    and "flags_backed v \<Longrightarrow> flags_backed (answer_taken r (a @ b) answer v)"
    and "window_ok v \<Longrightarrow> window_ok (answer_taken r (a @ b) answer v)"
proof -
  show "runs_ok (answer_taken r (a @ b) answer v)"
    using runs_remove(3) [OF assms] by (auto simp: answer_taken_def Let_def runs_ok_def split: sum.splits)
  show "owned c v \<Longrightarrow> owned c (answer_taken r (a @ b) answer v)"
    using assms(2) by (auto simp: owned_def answer_taken_def Let_def split: sum.splits)
  show "flags_backed v \<Longrightarrow> flags_backed (answer_taken r (a @ b) answer v)"
    by (auto simp: flags_backed_def answer_taken_def Let_def split: sum.splits)
  show "window_ok v \<Longrightarrow> window_ok (answer_taken r (a @ b) answer v)"
    using appendHistory_window by (auto simp: window_ok_def answer_taken_def Let_def split: sum.splits)
qed

lemma polled_taken:
  assumes "polled v" "mo_requests v = a @ r # b"
  shows "polled ((case rq_poll r of None \<Rightarrow> id | Some p \<Rightarrow> set_poll_timer p) (answer_taken r (a @ b) answer v))"
  using assms by (auto simp: polled_def answer_taken_def Let_def set_poll_timer_def split: option.splits sum.splits)

lemma answered_ok:
  fixes v :: "'a monitor"
  assumes ok: "monitor_ok v" and n: "n < length (mo_requests v)"
  shows "uncommitted_ok v (monitor_operation v (MonitorAnswer n answer))"
proof -
  define r a b where "r = mo_requests v ! n" and "a = take n (mo_requests v)" and "b = drop (Suc n) (mo_requests v)"
  have split: "mo_requests v = a @ r # b"
    using n by (simp add: r_def a_def b_def id_take_nth_drop)
  have v: "runs_ok v" "mo_mounted v" "polled v"
    using ok by (simp_all add: monitor_ok_def uncommitted_ok_def)
  let ?t = "answer_taken r (a @ b) answer v"
  have op: "monitor_operation v (MonitorAnswer n answer) =
      (case rq_poll r of None \<Rightarrow> id | Some p \<Rightarrow> set_poll_timer p) ?t"
    using answered_taken [OF v(1,2) split] n by (simp add: r_def a_def b_def)
  have "mo_polling ?t = mo_polling v" "mo_mounted ?t = mo_mounted v"
    by (simp_all add: answer_taken_def Let_def split: sum.splits)
  then show ?thesis
    using ok taken_ok [OF v(1) split] polled_taken [OF v(3) split]
    unfolding op by (auto simp: monitor_ok_def uncommitted_ok_def poll_timer_keeps split: option.splits)
qed

lemma operation_ok:
  fixes v :: "'a monitor"
  assumes ok: "monitor_ok v"
  shows "uncommitted_ok v (monitor_operation v e)"
proof (cases e)
  case (RefreshMonitor silent)
  obtain sent w where w: "refresh_monitor silent None v = (sent, w)"
    by (cases "refresh_monitor silent None v")
  then show ?thesis
    using RefreshMonitor ok refresh_runs [OF w] refresh_keeps [OF w] by (simp add: monitor_ok_def uncommitted_ok_def)
next
  case (MonitorAnswer n answer)
  then show ?thesis
    using ok answered_ok [OF ok] by (cases "n < length (mo_requests v)") (simp_all add: monitor_ok_def)
next
  case PollTimer
  let ?x = "v\<lparr>mo_timer := None\<rparr>"
  have "runs_ok ?x = runs_ok v" "owned c ?x = owned c v" "flags_backed ?x = flags_backed v" "window_ok ?x = window_ok v" for c
    by (simp_all add: runs_ok_def owned_def flags_backed_def window_ok_def)
  then show ?thesis
    using PollTimer ok poll_keeps [where v = ?x and silent = True] by (simp add: monitor_ok_def uncommitted_ok_def)
qed (use ok in \<open>auto simp: monitor_ok_def uncommitted_ok_def runs_ok_def owned_def polled_def flags_backed_def window_ok_def
      split: if_splits\<close>)

lemma monitor_step_ok: "monitor_ok v \<Longrightarrow> monitor_ok (monitor_step v e)"
  by (simp add: monitor_step_def commit_ok operation_ok)

interpretation remote_monitor: reducer monitor_step monitor_ok
  by unfold_locales (rule monitor_step_ok)

definition started :: "bool \<Rightarrow> string option \<Rightarrow> MonitorPanelView \<Rightarrow> bool \<Rightarrow> 'a monitor" where
  "started active connectionId view visible = mount_monitor (initial_monitor active connectionId view visible)"

lemma started_ok: "monitor_ok (started active connectionId view visible :: 'a monitor)"
proof -
  let ?x = "reset_effect ((initial_monitor active connectionId view visible)\<lparr>mo_snapshotRef := None\<rparr>) :: 'a monitor"
  have "runs_ok ?x" "owned (mo_connection ?x) ?x" "flags_backed ?x" "window_ok ?x" "mo_mounted ?x"
    by (simp_all add: reset_effect_def initial_monitor_def runs_ok_def owned_def flags_backed_def window_ok_def window_of_def)
  moreover have "(started active connectionId view visible :: 'a monitor) = poll_effect ?x"
    by (simp add: started_def mount_monitor_def initial_monitor_def)
  ultimately show ?thesis
    using poll_effect_keeps [where v = ?x] by (simp add: monitor_ok_def uncommitted_ok_def)
qed

lemma monitor_run_ok: "monitor_ok (foldl monitor_step (started active connectionId view visible) events)"
  by (rule remote_monitor.run_invar [OF started_ok])

section \<open>What the monitor guarantees\<close>

text \<open>
  C37. Along every run the monitor never stalls: while a connection is selected, the panel active and
  the document visible, the current poll has its timer running or waits for a request that is
  still unanswered, however requests fail and whatever the user changes.
\<close>

theorem monitor_never_stalls:
  fixes active visible :: bool and connectionId :: "string option" and view :: MonitorPanelView and events :: "'a monitor_event list"
  defines "v \<equiv> foldl monitor_step (started active connectionId view visible) events"
  assumes "truthy (mo_connection v) \<noteq> None" "mo_active v" "mo_visible v"
  shows "mo_timer v \<noteq> None \<or> Some (mo_poll v) \<in> rq_poll ` set (mo_requests v)"
proof -
  have "monitor_ok v"
    unfolding v_def by (rule monitor_run_ok)
  then show ?thesis
    using assms(2-4) by (simp add: monitor_ok_def uncommitted_ok_def polled_def wants_polling_def)
qed

text \<open>What the panel shows.\<close>

definition shown :: "'a monitor \<Rightarrow> 'a RemoteMonitorSnapshot option \<times> 'a RemoteMonitorSnapshot list \<times> bool \<times> bool \<times> string option" where
  "shown v = (mo_snapshot v, mo_history v, mo_loading v, mo_refreshing v, mo_error v)"

lemma effects_idle:
  assumes "poll_deps v = poll_deps old" "mo_connection v = mo_connection old"
  shows "monitor_effects old v = v\<lparr>mo_snapshotRef := mo_snapshot v\<rparr>"
  using assms by (simp add: monitor_effects_def)

lemma commit_idle:
  assumes "poll_deps v = poll_deps old" "mo_connection v = mo_connection old"
  shows "shown (commit_monitor old v) = shown v"
proof -
  have "poll_deps (v\<lparr>mo_snapshotRef := mo_snapshot v\<rparr>) = poll_deps v"
    by (simp add: poll_deps_def includeProcesses_def)
  then show ?thesis
    by (simp add: commit_monitor_def effects_idle assms shown_def)
qed

text \<open>
  C38. An answer that belongs to another connection than the one now selected changes nothing that is
  shown: neither the snapshot nor the history, the error or the progress of the current one.
\<close>

theorem late_answer_is_ignored:
  fixes active visible :: bool and connectionId :: "string option" and view :: MonitorPanelView and events :: "'a monitor_event list"
  defines "v \<equiv> foldl monitor_step (started active connectionId view visible) events"
  assumes "n < length (mo_requests v)" "Some (rq_connection (mo_requests v ! n)) \<noteq> mo_connection v"
  shows "shown (monitor_step v (MonitorAnswer n answer)) = shown v"
proof -
  define r a b where "r = mo_requests v ! n" and "a = take n (mo_requests v)" and "b = drop (Suc n) (mo_requests v)"
  have split: "mo_requests v = a @ r # b"
    using assms(2) by (simp add: r_def a_def b_def id_take_nth_drop)
  have ok: "runs_ok v" "mo_mounted v" "owned (mo_connection v) v"
    using monitor_run_ok [of active connectionId view visible events]
    by (simp_all add: v_def monitor_ok_def uncommitted_ok_def)
  then have "rq_run r \<noteq> mo_run v"
    using nth_mem [OF assms(2)] assms(3) unfolding owned_def r_def by blast
  then have "monitor_operation v (MonitorAnswer n answer) =
      (case rq_poll r of None \<Rightarrow> id | Some p \<Rightarrow> set_poll_timer p) (v\<lparr>mo_requests := a @ b\<rparr>)"
    using answered_taken [OF ok(1,2) split] assms(2) by (simp add: r_def a_def b_def answer_taken_def Let_def)
  then have "shown (monitor_operation v (MonitorAnswer n answer)) = shown v"
      "poll_deps (monitor_operation v (MonitorAnswer n answer)) = poll_deps v"
      "mo_connection (monitor_operation v (MonitorAnswer n answer)) = mo_connection v"
    by (auto simp: shown_def set_poll_timer_def poll_deps_def includeProcesses_def split: option.splits)
  then show ?thesis
    by (simp add: monitor_step_def commit_idle)
qed

text \<open>
  The history holds at most forty snapshots, the last of which is the one shown, and all of them
  were taken within one minute before it; without a snapshot there is no history.
\<close>

theorem monitor_history_window:
  fixes active visible :: bool and connectionId :: "string option" and view :: MonitorPanelView and events :: "'a monitor_event list"
  defines "v \<equiv> foldl monitor_step (started active connectionId view visible) events"
  shows "length (mo_history v) \<le> 40 \<and>
    (case mo_snapshot v of
       None \<Rightarrow> mo_history v = []
     | Some s \<Rightarrow> mo_history v \<noteq> [] \<and> last (mo_history v) = s \<and>
         list_all (\<lambda>item. collected_at_ms s - historyWindowMs \<le> collected_at_ms item) (mo_history v))"
  using monitor_run_ok [of active connectionId view visible events] unfolding v_def [symmetric]
  by (simp add: monitor_ok_def uncommitted_ok_def window_ok_def window_of_def)

definition sample_host_snapshot :: "nat RemoteMonitorSnapshot" where
  "sample_host_snapshot = \<lparr>collected_at_ms = 5, refresh_hint_ms = 0, monitor_data = 0\<rparr>"

text \<open>
  The first load of a connection is announced as loading when the panel is opened on it, but not
  when it is selected while the snapshot of another one is shown: the effect that starts the poll
  still sees the old snapshot and loads silently.
\<close>

theorem switched_connection_loads_silently:
  "mo_loading (started True (Some ''a'') StatusView True :: nat monitor) \<and>
   \<not> mo_loading (foldl monitor_step (started True (Some ''a'') StatusView True)
     [MonitorAnswer 0 (Inr sample_host_snapshot), MonitorProps True (Some ''b'') StatusView]) \<and>
   mo_snapshot (foldl monitor_step (started True (Some ''a'') StatusView True)
     [MonitorAnswer 0 (Inr sample_host_snapshot), MonitorProps True (Some ''b'') StatusView]) = None"
  by (intro conjI; code_simp)

theorem monitor_never_stalls_witness:
  "mo_timer (foldl monitor_step (started True (Some ''a'') StatusView True) [MonitorAnswer 0 (Inl ''down'')] :: nat monitor) \<noteq> None"
proof -
  let ?v = "foldl monitor_step (started True (Some ''a'') StatusView True) [MonitorAnswer 0 (Inl ''down'')] :: nat monitor"
  have "truthy (mo_connection ?v) \<noteq> None" "mo_active ?v" "mo_visible ?v" "mo_requests ?v = []"
    by code_simp+
  then show ?thesis
    using monitor_never_stalls [where ?events = "[MonitorAnswer 0 (Inl ''down'')] :: nat monitor_event list"
        and active = True and connectionId = "Some ''a''" and view = StatusView and visible = True] by simp
qed

theorem late_answer_is_ignored_witness:
  "mo_snapshot (foldl monitor_step (started True (Some ''a'') StatusView True)
     [MonitorProps True (Some ''b'') StatusView, MonitorAnswer 0 (Inr sample_host_snapshot)]) = None"
proof -
  let ?events = "[MonitorProps True (Some ''b'') StatusView] :: nat monitor_event list"
  let ?v = "foldl monitor_step (started True (Some ''a'') StatusView True) ?events"
  have "0 < length (mo_requests ?v)" "Some (rq_connection (mo_requests ?v ! 0)) \<noteq> mo_connection ?v" "mo_snapshot ?v = None"
    by code_simp+
  then show ?thesis
    using late_answer_is_ignored [where events = ?events and n = 0 and answer = "Inr sample_host_snapshot"
        and active = True and connectionId = "Some ''a''" and view = StatusView and visible = True]
    by (simp add: shown_def)
qed

end
