(* ===== verification/Semantic_Highlight.thy ===== *)
theory Semantic_Highlight
  imports Terminal_Input
begin

text \<open>
  The tokens that the terminal highlights in a line (\<open>features/terminal/terminalSemanticHighlight.ts\<close>):
  the regular expressions of the token kinds, the choice among overlapping matches, and the cells
  of the line a token covers. The expressions are written in a small language of regular
  expressions whose meaning is the list of the ends of all matches at a position, in the order in
  which a backtracking matcher tries them; the first one is the match. Offsets count UTF-16 code
  units. Decorations and markers belong to the terminal emulator and are not modelled.
\<close>

section \<open>Regular expressions\<close>

datatype regex =
    OneOf "16 word \<Rightarrow> bool"
  | Nothing
  | Then regex regex
  | Or regex regex
  | Many regex
  | WordBoundary
  | NotAfter "16 word \<Rightarrow> bool"
  | NotBefore "16 word \<Rightarrow> bool"

function ends :: "regex \<Rightarrow> code_units \<Rightarrow> nat \<Rightarrow> nat list" where
  "ends (OneOf p) s i = (if i < length s \<and> p (s ! i) then [Suc i] else [])"
| "ends Nothing s i = [i]"
| "ends (Then a b) s i = concat (map (ends b s) (ends a s i))"
| "ends (Or a b) s i = ends a s i @ ends b s i"
| "ends (Many a) s i =
     concat (map (\<lambda>j. if i < j \<and> j \<le> length s then ends (Many a) s j else []) (ends a s i)) @ [i]"
| "ends WordBoundary s i = (if boundary (take i s) (drop i s) then [i] else [])"
| "ends (NotAfter p) s i = (if 0 < i \<and> i \<le> length s \<and> p (s ! (i - 1)) then [] else [i])"
| "ends (NotBefore p) s i = (if i < length s \<and> p (s ! i) then [] else [i])"
  by pat_completeness auto
termination ends
  by (relation "measures [\<lambda>(r, s, i). size r, \<lambda>(r, s, i). length s - i]") auto

declare ends.simps(5) [simp del]

text \<open>\<open>matchAll\<close>: the matches from left to right, each from the end of the last one on.\<close>

function match_from :: "regex \<Rightarrow> code_units \<Rightarrow> nat \<Rightarrow> (nat \<times> nat) list" where
  "match_from r s i =
     (if length s < i then []
      else case ends r s i of
             [] \<Rightarrow> match_from r s (Suc i)
           | e # _ \<Rightarrow> (i, e) # match_from r s (if e \<le> i then Suc i else e))"
  by pat_completeness auto
termination match_from
  by (relation "measure (\<lambda>(r, s, i). Suc (length s) - i)") auto

declare match_from.simps [simp del]

definition literal :: "string \<Rightarrow> regex" where
  "literal s = foldr (\<lambda>c r. Then (OneOf (\<lambda>u. u = of_char c)) r) s Nothing"

text \<open>A literal in lower case that also matches in upper case.\<close>

definition any_case :: "string \<Rightarrow> regex" where
  "any_case s = foldr (\<lambda>c r. Then (OneOf (\<lambda>u. lower_unit u = of_char c)) r) s Nothing"

definition optional :: "regex \<Rightarrow> regex" where
  "optional r = Or r Nothing"

definition some_of :: "regex \<Rightarrow> regex" where
  "some_of r = Then r (Many r)"

fun times :: "nat \<Rightarrow> regex \<Rightarrow> regex" where
  "times 0 r = Nothing"
| "times (Suc n) r = Then r (times n r)"

text \<open>Up to \<open>n\<close> times, as often as possible.\<close>

fun up_to :: "nat \<Rightarrow> regex \<Rightarrow> regex" where
  "up_to 0 r = Nothing"
| "up_to (Suc n) r = optional (Then r (up_to n r))"

definition alternatives :: "regex list \<Rightarrow> regex" where
  "alternatives rs = foldr Or (butlast rs) (last rs)"

definition sequence :: "regex list \<Rightarrow> regex" where
  "sequence rs = foldr Then rs Nothing"

definition between :: "16 word \<Rightarrow> 16 word \<Rightarrow> regex" where
  "between lo hi = OneOf (\<lambda>u. lo \<le> u \<and> u \<le> hi)"

definition digit :: regex where "digit = between 0x30 0x39"
definition spaces :: regex where "spaces = some_of (OneOf is_space)"
definition alnum :: regex where
  "alnum = OneOf (\<lambda>u. 0x41 \<le> u \<and> u \<le> 0x5A \<or> 0x61 \<le> u \<and> u \<le> 0x7A \<or> 0x30 \<le> u \<and> u \<le> 0x39)"

section \<open>Token kinds\<close>

datatype TerminalSemanticTokenKind = UrlToken | DateToken | IpToken | VersionToken | NumberToken

definition url_pattern :: regex where
  "url_pattern = sequence [WordBoundary, any_case ''http'', optional (any_case ''s''), literal ''://'',
     some_of (OneOf (\<lambda>u. \<not> is_space u \<and> u \<notin> set (units ''<>`'') \<and> u \<noteq> 0x22 \<and> u \<noteq> 0x27))]"

definition date_pattern :: regex where
  "date_pattern = sequence [WordBoundary,
     alternatives (map literal [''Mon'', ''Tue'', ''Wed'', ''Thu'', ''Fri'', ''Sat'', ''Sun'']), spaces,
     alternatives (map literal [''Jan'', ''Feb'', ''Mar'', ''Apr'', ''May'', ''Jun'', ''Jul'', ''Aug'', ''Sep'', ''Oct'', ''Nov'', ''Dec'']),
     spaces, digit, optional digit, spaces, times 2 digit, literal '':'', times 2 digit,
     optional (Then (literal '':'') (times 2 digit)), spaces, times 4 digit, WordBoundary]"

text \<open>A number up to 255, and a port.\<close>

definition ip_part :: regex where
  "ip_part = alternatives
     [sequence [literal ''25'', between 0x30 0x35], sequence [literal ''2'', between 0x30 0x34, digit],
      sequence [literal ''1'', digit, digit], Then (optional (between 0x31 0x39)) digit]"

definition ip_port :: regex where
  "ip_port = alternatives
     [sequence [literal ''6553'', between 0x30 0x35], sequence [literal ''655'', between 0x30 0x32, digit],
      sequence [literal ''65'', between 0x30 0x34, times 2 digit], sequence [literal ''6'', between 0x30 0x34, times 3 digit],
      sequence [optional (between 0x31 0x35), digit, up_to 3 digit]]"

definition ip_pattern :: regex where
  "ip_pattern = sequence [WordBoundary, times 3 (Then ip_part (literal ''.'')), ip_part,
     optional (Then (literal '':'') ip_port), WordBoundary]"

definition version_pattern :: regex where
  "version_pattern = sequence [WordBoundary, some_of digit,
     Then (times 2 (Then (literal ''.'') (some_of digit))) (Many (Then (literal ''.'') (some_of digit))),
     optional (sequence [OneOf (\<lambda>u. u = of_char (CHR ''-'') \<or> u = of_char (CHR ''+'')), some_of alnum,
       Many (Then (literal ''.'') (some_of alnum))]), WordBoundary]"

definition number_edge :: "16 word \<Rightarrow> bool" where
  "number_edge u \<longleftrightarrow> word_unit u \<or> u \<in> set (units ''.:-'')"

definition number_pattern :: regex where
  "number_pattern = sequence [NotAfter number_edge, some_of digit, NotBefore number_edge]"

definition tokenMatchers :: "(TerminalSemanticTokenKind \<times> regex \<times> nat) list" where
  "tokenMatchers =
     [(UrlToken, url_pattern, 100), (DateToken, date_pattern, 90), (IpToken, ip_pattern, 80),
      (VersionToken, version_pattern, 70), (NumberToken, number_pattern, 10)]"

section \<open>Choosing tokens\<close>

record TerminalSemanticToken =
  tok_start :: nat
  tok_end :: nat
  tok_kind :: TerminalSemanticTokenKind
  tok_text :: code_units

record semantic_match = TerminalSemanticToken +
  match_priority :: nat

definition opening_unit :: "16 word \<Rightarrow> bool" where
  "opening_unit u \<longleftrightarrow> u \<in> set (units ''([{<'') \<or> u = 0x22 \<or> u = 0x27"

definition closing_unit :: "16 word \<Rightarrow> bool" where
  "closing_unit u \<longleftrightarrow> u \<in> set (units ''],.;!?:)'') \<or> u = 0x22 \<or> u = 0x27"

text \<open>The start, the end and the text between them.\<close>

definition trimTerminalSemanticTokenText :: "code_units \<Rightarrow> nat \<times> nat \<times> code_units" where
  "trimTerminalSemanticTokenText text =
     (let start = length (takeWhile opening_unit text);
          e = start + length (dropWhile closing_unit (rev (drop start text)))
      in (start, e, take (e - start) (drop start text)))"

definition token_match :: "TerminalSemanticTokenKind \<Rightarrow> nat \<Rightarrow> code_units \<Rightarrow> nat \<times> nat \<Rightarrow> semantic_match option" where
  "token_match kind priority text raw =
     (case raw of (rawStart, rawEnd) \<Rightarrow>
        case trimTerminalSemanticTokenText (take (rawEnd - rawStart) (drop rawStart text)) of (s, e, shown) \<Rightarrow>
          if shown = [] then None
          else Some \<lparr>tok_start = rawStart + s, tok_end = rawStart + e, tok_kind = kind, tok_text = shown,
            match_priority = priority\<rparr>)"

definition semantic_matches :: "code_units \<Rightarrow> semantic_match list" where
  "semantic_matches text =
     concat (map (\<lambda>(kind, pattern, priority).
       List.map_filter (token_match kind priority text) (match_from pattern text 0)) tokenMatchers)"

definition match_order :: "semantic_match \<Rightarrow> semantic_match \<Rightarrow> rat" where
  "match_order left right =
     (let by_priority = (of_nat (match_priority right) - of_nat (match_priority left) :: rat);
          by_length = (of_nat (tok_end right) - of_nat (tok_start right)) - (of_nat (tok_end left) - of_nat (tok_start left))
      in if by_priority \<noteq> 0 then by_priority
         else if by_length \<noteq> 0 then by_length
         else of_nat (tok_start left) - of_nat (tok_start right))"

definition occupied_in :: "bool list \<Rightarrow> nat \<Rightarrow> nat \<Rightarrow> bool" where
  "occupied_in occupied i j \<longleftrightarrow> list_ex (\<lambda>k. k < length occupied \<and> occupied ! k) [i..<j]"

definition occupy :: "nat \<Rightarrow> nat \<Rightarrow> bool list \<Rightarrow> bool list" where
  "occupy i j occupied = foldl (\<lambda>occ k. occ[k := True]) occupied [i..<j]"

fun select_matches :: "bool list \<Rightarrow> semantic_match list \<Rightarrow> semantic_match list" where
  "select_matches occupied [] = []"
| "select_matches occupied (m # ms) =
     (if occupied_in occupied (tok_start m) (tok_end m) then select_matches occupied ms
      else m # select_matches (occupy (tok_start m) (tok_end m) occupied) ms)"

definition selected_matches :: "code_units \<Rightarrow> semantic_match list" where
  "selected_matches text = select_matches (replicate (length text) False) (js_sort match_order (semantic_matches text))"

definition start_order :: "TerminalSemanticToken \<Rightarrow> TerminalSemanticToken \<Rightarrow> rat" where
  "start_order left right = of_nat (tok_start left) - of_nat (tok_start right)"

definition findTerminalSemanticTokens :: "code_units \<Rightarrow> TerminalSemanticToken list" where
  "findTerminalSemanticTokens text = js_sort start_order (map TerminalSemanticToken.truncate (selected_matches text))"

section \<open>Cells\<close>

text \<open>A cell of the buffer line as the terminal emulator returns it, and the line: \<open>None\<close> where it returns none.\<close>

record buffer_cell =
  bc_width :: nat
  bc_chars :: code_units
  bc_plain :: bool

record TerminalLineCell =
  cell_plain :: bool
  cell_end :: nat
  cell_start :: nat
  cell_width :: nat
  cell_x :: nat

definition maxLineCells :: nat where "maxLineCells = 4096"

fun read_cells :: "nat \<Rightarrow> nat \<Rightarrow> buffer_cell option list \<Rightarrow> TerminalLineCell list \<times> code_units" where
  "read_cells x start [] = ([], [])"
| "read_cells x start (c # cs) =
     (case c of
        None \<Rightarrow> read_cells (Suc x) start cs
      | Some cell \<Rightarrow>
          if bc_width cell = 0 then read_cells (Suc x) start cs
          else let chars = (if bc_chars cell = [] then units '' '' else bc_chars cell);
                   (cells, text) = read_cells (Suc x) (start + length chars) cs
               in (\<lparr>cell_plain = bc_plain cell, cell_end = start + length chars, cell_start = start,
                    cell_width = max 1 (bc_width cell), cell_x = x\<rparr> # cells, chars @ text))"

definition readTerminalLineSnapshot :: "buffer_cell option list \<Rightarrow> nat \<Rightarrow> TerminalLineCell list \<times> code_units" where
  "readTerminalLineSnapshot line cols =
     (let (cells, text) = read_cells 0 0 (take (min cols maxLineCells) line) in (cells, trim_end text))"

record SemanticCellRange =
  range_kind :: TerminalSemanticTokenKind
  range_width :: nat
  range_x :: nat

definition tokenToCellRange :: "TerminalSemanticToken \<Rightarrow> TerminalLineCell list \<Rightarrow> SemanticCellRange option" where
  "tokenToCellRange token cells =
     (case dropWhile (\<lambda>cell. cell_end cell \<le> tok_start token) cells of
        [] \<Rightarrow> None
      | first # others \<Rightarrow>
          let covered = first # (if cell_start first < tok_end token then takeWhile (\<lambda>cell. cell_start cell < tok_end token) others else [])
          in if list_ex (\<lambda>cell. \<not> cell_plain cell) covered then None
             else Some \<lparr>range_kind = tok_kind token,
               range_width = max 1 (cell_x (last covered) + cell_width (last covered) - cell_x first),
               range_x = cell_x first\<rparr>)"

definition line_ranges :: "buffer_cell option list \<Rightarrow> nat \<Rightarrow> SemanticCellRange list" where
  "line_ranges line cols =
     (let (cells, text) = readTerminalLineSnapshot line cols
      in List.map_filter (\<lambda>token. tokenToCellRange token cells) (findTerminalSemanticTokens text))"

section \<open>Decorated lines\<close>

text \<open>The entries of the map of decorated lines, in its order: the key of a line and the line of its marker.\<close>

type_synonym decorated_lines = "(nat \<times> int) list"

definition retainedDecoratedLines :: nat where "retainedDecoratedLines = 360"

definition marker_order :: "nat \<times> int \<Rightarrow> nat \<times> int \<Rightarrow> rat" where
  "marker_order left right = of_int (snd left) - of_int (snd right)"

definition disposeDecoratedLine :: "nat \<Rightarrow> decorated_lines \<Rightarrow> decorated_lines" where
  "disposeDecoratedLine lineIndex lines = filter (\<lambda>(k, _). k \<noteq> lineIndex) lines"

definition in_sight :: "int \<Rightarrow> int \<Rightarrow> int \<Rightarrow> int \<Rightarrow> bool" where
  "in_sight recentStart viewStart viewEnd l \<longleftrightarrow> 0 \<le> l \<and> (recentStart \<le> l \<or> viewStart \<le> l \<and> l \<le> viewEnd)"

definition pruneDecorations :: "int \<Rightarrow> int \<Rightarrow> int \<Rightarrow> decorated_lines \<Rightarrow> decorated_lines" where
  "pruneDecorations recentStart viewStart viewEnd lines =
     (let seen = fold (\<lambda>(k, l) ds. if in_sight recentStart viewStart viewEnd l then ds else disposeDecoratedLine k ds) lines lines
      in if length seen \<le> retainedDecoratedLines then seen
         else fold (\<lambda>(k, _). disposeDecoratedLine k)
           (take (length seen - retainedDecoratedLines) (js_sort marker_order seen)) seen)"

section \<open>Matches\<close>

lemma ends_bounds: "i \<le> length s \<Longrightarrow> e \<in> set (ends r s i) \<Longrightarrow> i \<le> e \<and> e \<le> length s"
proof (induction r s i arbitrary: e rule: ends.induct)
  case (3 a b s i)
  from "3.prems"(2) obtain j where j: "j \<in> set (ends a s i)" "e \<in> set (ends b s j)"
    by auto
  have "i \<le> j \<and> j \<le> length s"
    by (rule "3.IH"(1) [OF "3.prems"(1) j(1)])
  moreover from this have "j \<le> e \<and> e \<le> length s"
    using "3.IH"(2) [OF j(1) _ j(2)] by simp
  ultimately show ?case
    by simp
next
  case (4 a b s i)
  from "4.prems"(2) consider "e \<in> set (ends a s i)" | "e \<in> set (ends b s i)"
    by auto
  then show ?case
    by cases (rule "4.IH"(1) [OF "4.prems"(1)] "4.IH"(2) [OF "4.prems"(1)], assumption)+
next
  case (5 a s i)
  show ?case
  proof (cases "e = i")
    case True
    then show ?thesis
      using "5.prems"(1) by simp
  next
    case False
    then obtain j where j: "j \<in> set (ends a s i)" "i < j \<and> j \<le> length s" "e \<in> set (ends (Many a) s j)"
      using "5.prems"(2) unfolding ends.simps(5) [of a s i] by (auto split: if_splits)
    then have "j \<le> e \<and> e \<le> length s"
      using "5.IH"(2) [OF j(1,2) _ j(3)] by simp
    then show ?thesis
      using j(2) by simp
  qed
qed (simp_all split: if_splits)

lemma match_from_bounds: "(a, e) \<in> set (match_from r s i) \<Longrightarrow> i \<le> a \<and> a \<le> e \<and> e \<le> length s"
proof (induction r s i rule: match_from.induct)
  case (1 r s i)
  show ?case
  proof (cases "length s < i")
    case True
    then show ?thesis
      using "1.prems" by (simp add: match_from.simps)
  next
    case False
    show ?thesis
    proof (cases "ends r s i")
      case Nil
      then show ?thesis
        using "1.IH"(1) [OF False Nil] "1.prems" False by (subst (asm) match_from.simps) auto
    next
      case (Cons x xs)
      then have "i \<le> x" "x \<le> length s"
        using ends_bounds [of i s x r] False by auto
      then show ?thesis
        using "1.IH"(2) [OF False Cons] "1.prems" False Cons by (subst (asm) match_from.simps) (auto split: if_splits)
    qed
  qed
qed

lemma trim_token:
  assumes "trimTerminalSemanticTokenText text = (s, e, t)"
  shows "s \<le> e" "e \<le> length text" "t = take (e - s) (drop s text)"
proof -
  define rest where "rest = drop (length (takeWhile opening_unit text)) text"
  have "length (dropWhile closing_unit (rev rest)) \<le> length rest"
    by (metis length_dropWhile_le length_rev)
  moreover have "length (takeWhile opening_unit text) \<le> length text"
    by (rule length_takeWhile_le)
  ultimately show "s \<le> e" "e \<le> length text" "t = take (e - s) (drop s text)"
    using assms by (auto simp: trimTerminalSemanticTokenText_def Let_def rest_def)
qed

definition match_ok :: "code_units \<Rightarrow> ('a TerminalSemanticToken_scheme) \<Rightarrow> bool" where
  "match_ok text m \<longleftrightarrow> tok_start m < tok_end m \<and> tok_end m \<le> length text \<and>
     tok_text m = take (tok_end m - tok_start m) (drop (tok_start m) text)"

lemma semantic_matches_ok:
  assumes "m \<in> set (semantic_matches text)"
  shows "match_ok text m"
proof -
  obtain kind pattern priority a b where raw: "(a, b) \<in> set (match_from pattern text 0)"
      "token_match kind priority text (a, b) = Some m"
    using assms by (auto simp: semantic_matches_def List.map_filter_def)
  obtain s e t where m: "trimTerminalSemanticTokenText (take (b - a) (drop a text)) = (s, e, t)" "t \<noteq> []"
      "m = \<lparr>tok_start = a + s, tok_end = a + e, tok_kind = kind, tok_text = t, match_priority = priority\<rparr>"
    using raw(2) by (auto simp: token_match_def split: prod.splits if_splits)
  have ab: "a \<le> b" "b \<le> length text"
    using match_from_bounds [OF raw(1)] by auto
  have "s \<le> e" "e \<le> b - a" and t: "t = take (e - s) (drop s (take (b - a) (drop a text)))"
    using trim_token [OF m(1)] ab by auto
  then have "t = take (e - s) (drop (a + s) text)"
    by (simp add: drop_take take_take min_def add.commute)
  moreover have "s < e"
    using m(2) t \<open>s \<le> e\<close> by (cases "s = e") auto
  ultimately show ?thesis
    using ab \<open>e \<le> b - a\<close> by (simp add: m(3) match_ok_def)
qed

section \<open>The choice\<close>

definition span :: "('a TerminalSemanticToken_scheme) \<Rightarrow> nat set" where
  "span m = {tok_start m..<tok_end m}"

definition taken :: "bool list \<Rightarrow> nat set" where
  "taken occupied = {k. k < length occupied \<and> occupied ! k}"

lemma occupied_in_iff: "occupied_in occ (tok_start m) (tok_end m) \<longleftrightarrow> span m \<inter> taken occ \<noteq> {}"
  by (auto simp: occupied_in_def list_ex_iff span_def taken_def)

lemma taken_foldl: "taken (foldl (\<lambda>occ k. occ[k := True]) occ ks) = taken occ \<union> (set ks \<inter> {..<length occ})"
proof (induction ks arbitrary: occ)
  case (Cons k ks)
  have "taken (occ[k := True]) = taken occ \<union> ({k} \<inter> {..<length occ})"
    by (cases "k < length occ") (auto simp: taken_def nth_list_update)
  then show ?case
    using Cons by auto
qed simp

lemma length_occupy [simp]: "length (occupy i j occ) = length occ"
proof -
  have "length (foldl (\<lambda>occ k. occ[k := True]) occ ks) = length occ" for ks :: "nat list"
    by (induction ks arbitrary: occ) auto
  then show ?thesis
    by (simp add: occupy_def)
qed

lemma taken_occupy: "tok_end m \<le> length occ \<Longrightarrow> taken (occupy (tok_start m) (tok_end m) occ) = taken occ \<union> span m"
  by (auto simp: occupy_def taken_foldl span_def)

lemma select_sub: "set (select_matches occ ms) \<subseteq> set ms"
  by (induction occ ms rule: select_matches.induct) auto

lemma select_free:
  assumes "\<forall>m \<in> set ms. tok_end m \<le> length occ"
  shows "(\<forall>x \<in> set (select_matches occ ms). span x \<inter> taken occ = {}) \<and>
    sorted_wrt (\<lambda>x y. span x \<inter> span y = {}) (select_matches occ ms)"
  using assms
proof (induction occ ms rule: select_matches.induct)
  case (2 occ m ms)
  then show ?case
    by (auto simp: occupied_in_iff taken_occupy)
qed simp

lemma select_complete:
  assumes "\<forall>m \<in> set ms. tok_end m \<le> length occ \<and> tok_start m < tok_end m \<and> P m m" "sorted_wrt P ms" "m \<in> set ms"
  shows "span m \<inter> taken occ \<noteq> {} \<or> (\<exists>x \<in> set (select_matches occ ms). P x m \<and> span x \<inter> span m \<noteq> {})"
  using assms
proof (induction occ ms rule: select_matches.induct)
  case (2 occ a ms)
  show ?case
  proof (cases "m = a")
    case True
    then have "span a \<inter> span m \<noteq> {}"
      using "2.prems"(1,3) by (auto simp: span_def)
    then show ?thesis
      using True "2.prems"(1) by (auto simp: occupied_in_iff)
  next
    case False
    then have m: "m \<in> set ms" "P a m"
      using "2.prems"(2,3) by auto
    show ?thesis
    proof (cases "occupied_in occ (tok_start a) (tok_end a)")
      case True
      then show ?thesis
        using "2.IH"(1) [OF True] "2.prems" m by auto
    next
      case free: False
      have "span m \<inter> taken (occupy (tok_start a) (tok_end a) occ) \<noteq> {} \<or>
          (\<exists>x \<in> set (select_matches (occupy (tok_start a) (tok_end a) occ) ms). P x m \<and> span x \<inter> span m \<noteq> {})"
        using "2.IH"(2) [OF free] "2.prems" m by simp
      then show ?thesis
        using free m "2.prems"(1) by (auto simp: taken_occupy)
    qed
  qed
qed simp

section \<open>Sorting\<close>

lemma match_order_total: "match_order x y \<le> 0 \<or> match_order y x \<le> 0"
  by (auto simp: match_order_def Let_def)

lemma match_order_trans: "match_order x y \<le> 0 \<Longrightarrow> match_order y z \<le> 0 \<Longrightarrow> match_order x z \<le> 0"
  by (auto simp: match_order_def Let_def split: if_splits)

lemma start_order_sorted: "sorted_wrt (\<lambda>x y. tok_start x \<le> tok_start y) (js_sort start_order ts)"
proof -
  have "sorted_wrt (\<lambda>x y. start_order x y \<le> 0) (js_sort start_order ts)"
    by (rule sorted_js_sort) (auto simp: start_order_def)
  then show ?thesis
    by (rule sorted_wrt_mono_rel [rotated]) (simp add: start_order_def)
qed

lemma truncate_sel [simp]:
  "tok_start (TerminalSemanticToken.truncate m) = tok_start m" "tok_end (TerminalSemanticToken.truncate m) = tok_end m"
  "tok_text (TerminalSemanticToken.truncate m) = tok_text m" "tok_kind (TerminalSemanticToken.truncate m) = tok_kind m"
  by (simp_all add: TerminalSemanticToken.truncate_def)

lemma selected_matches_ok: "m \<in> set (selected_matches text) \<Longrightarrow> match_ok text m"
  using select_sub semantic_matches_ok by (fastforce simp: selected_matches_def)

text \<open>Two lists with the same members and distinct entries carry the same pairwise symmetric relation.\<close>

lemma sorted_wrt_symmetric:
  assumes "sorted_wrt R xs" "mset ys = mset xs" "\<And>x y. R x y \<Longrightarrow> R y x"
  shows "sorted_wrt R ys"
  using assms(1,2)
proof (induction ys arbitrary: xs)
  case (Cons y ys)
  obtain as bs where xs: "xs = as @ y # bs"
    using Cons.prems(2) by (metis list.set_intros(1) set_mset_mset split_list)
  then have "sorted_wrt R (as @ bs)" "mset ys = mset (as @ bs)" "\<forall>x \<in> set as \<union> set bs. R y x"
    using Cons.prems assms(3) by (auto simp: sorted_wrt_append)
  then show ?case
    using Cons.IH by (metis mset_append set_append set_mset_mset sorted_wrt.simps(2))
qed simp

lemma selected_disjoint: "sorted_wrt (\<lambda>x y. span x \<inter> span y = {}) (selected_matches text)"
proof -
  have "\<forall>m \<in> set (js_sort match_order (semantic_matches text)). tok_end m \<le> length (replicate (length text) False)"
    using semantic_matches_ok by (auto simp: match_ok_def)
  then show ?thesis
    unfolding selected_matches_def by (rule select_free [THEN conjunct2])
qed

lemma tokens_disjoint: "sorted_wrt (\<lambda>x y. span x \<inter> span y = {}) (findTerminalSemanticTokens text)"
proof (rule sorted_wrt_symmetric)
  show "sorted_wrt (\<lambda>x y. span x \<inter> span y = {}) (map TerminalSemanticToken.truncate (selected_matches text))"
    using selected_disjoint [of "text"] by (simp add: sorted_wrt_map span_def)
qed (auto simp: findTerminalSemanticTokens_def)

text \<open>
  C39. The tokens of a line are non-empty pieces of it, each carrying its own text, and they are
  listed from left to right without overlap: each one ends before the next one starts.
\<close>

theorem semantic_tokens_disjoint:
  "list_all (match_ok text) (findTerminalSemanticTokens text) \<and>
   sorted_wrt (\<lambda>x y. tok_end x \<le> tok_start y) (findTerminalSemanticTokens text)"
proof
  show ok: "list_all (match_ok text) (findTerminalSemanticTokens text)"
    using selected_matches_ok [of _ "text"] by (auto simp: list_all_iff findTerminalSemanticTokens_def match_ok_def)
  have "sorted_wrt (\<lambda>x y. tok_start x \<le> tok_start y \<and> span x \<inter> span y = {}) (findTerminalSemanticTokens text)"
    using start_order_sorted tokens_disjoint unfolding sorted_wrt_iff_nth_less findTerminalSemanticTokens_def by blast
  then show "sorted_wrt (\<lambda>x y. tok_end x \<le> tok_start y) (findTerminalSemanticTokens text)"
  proof (rule sorted_wrt_mono_rel [rotated])
    fix x y
    assume "x \<in> set (findTerminalSemanticTokens text)" "y \<in> set (findTerminalSemanticTokens text)"
      "tok_start x \<le> tok_start y \<and> span x \<inter> span y = {}"
    moreover from this have "tok_start x < tok_end x" "tok_start y < tok_end y"
      using ok by (auto simp: list_all_iff match_ok_def)
    ultimately show "tok_end x \<le> tok_start y"
      by (auto simp: span_def)
  qed
qed

text \<open>
  No match is dropped without cause: for every match of every kind, a token is shown that
  overlaps it and that comes no later in the order of priority, length and position; and the
  tokens shown are exactly the matches chosen.
\<close>

theorem semantic_choice_is_maximal:
  "list_all (\<lambda>m. list_ex (\<lambda>x. match_order x m \<le> 0 \<and> tok_start x < tok_end m \<and> tok_start m < tok_end x)
     (selected_matches text)) (semantic_matches text) \<and>
   mset (findTerminalSemanticTokens text) = mset (map TerminalSemanticToken.truncate (selected_matches text))"
proof
  have sorted: "sorted_wrt (\<lambda>x y. match_order x y \<le> 0) (js_sort match_order (semantic_matches text))"
    by (rule sorted_js_sort) (use match_order_total match_order_trans in blast)+
  have "\<exists>x \<in> set (selected_matches text). match_order x m \<le> 0 \<and> span x \<inter> span m \<noteq> {}"
    if "m \<in> set (semantic_matches text)" for m
    using select_complete [OF _ sorted, of "replicate (length text) False" m] that semantic_matches_ok
    by (auto simp: selected_matches_def taken_def match_ok_def match_order_def)
  moreover have "tok_start x < tok_end m \<and> tok_start m < tok_end x" if "span x \<inter> span m \<noteq> {}" for x m :: semantic_match
    using that by (auto simp: span_def)
  ultimately show "list_all (\<lambda>m. list_ex (\<lambda>x. match_order x m \<le> 0 \<and> tok_start x < tok_end m \<and> tok_start m < tok_end x)
     (selected_matches text)) (semantic_matches text)"
    unfolding list_all_iff list_ex_iff by blast
qed (simp add: findTerminalSemanticTokens_def)

section \<open>The decorated lines kept\<close>

lemma fold_dispose:
  "fold (\<lambda>(k, l) ds. if P l then ds else disposeDecoratedLine k ds) xs lines =
   filter (\<lambda>(k, _). k \<notin> fst ` {x \<in> set xs. \<not> P (snd x)}) lines"
proof (induction xs arbitrary: lines)
  case (Cons x xs)
  then show ?case
    by (cases x) (auto simp: disposeDecoratedLine_def image_iff intro!: filter_cong)
qed simp

lemma fold_dispose_all:
  "fold (\<lambda>(k, _). disposeDecoratedLine k) xs lines = filter (\<lambda>(k, _). k \<notin> fst ` set xs) lines"
  using fold_dispose [of "\<lambda>_. False" xs lines] by simp

lemma length_filter_keys:
  assumes "distinct (map fst lines)" "distinct (map fst xs)" "set xs \<subseteq> set lines"
  shows "length (filter (\<lambda>(k, _). k \<notin> fst ` set xs) lines) = length lines - length xs"
proof -
  have "set (filter (\<lambda>(k, _). k \<notin> fst ` set xs) lines) = set lines - set xs"
    using assms(1,3) by (force simp: distinct_map inj_on_def)
  moreover have "distinct lines" "distinct xs"
    using assms(1,2) by (auto simp: distinct_map)
  ultimately show ?thesis
    using assms(3) by (metis List.finite_set card_Diff_subset distinct_card distinct_filter)
qed

text \<open>Pruning keeps no more lines than the limit, and only lines in sight.\<close>

lemma prune_keeps_bounded:
  assumes "distinct (map fst lines)"
  shows "length (pruneDecorations r vs ve lines) \<le> retainedDecoratedLines"
    and "\<forall>(k, l) \<in> set (pruneDecorations r vs ve lines). (k, l) \<in> set lines \<and> in_sight r vs ve l"
proof -
  define seen where "seen = filter (\<lambda>(k, _). k \<notin> fst ` {x \<in> set lines. \<not> in_sight r vs ve (snd x)}) lines"
  define out where "out = take (length seen - retainedDecoratedLines) (js_sort marker_order seen)"
  have eq: "pruneDecorations r vs ve lines =
      (if length seen \<le> retainedDecoratedLines then seen else filter (\<lambda>(k, _). k \<notin> fst ` set out) seen)"
    by (simp add: pruneDecorations_def fold_dispose fold_dispose_all seen_def out_def Let_def)
  have keys: "distinct (map fst seen)"
    using assms by (simp add: seen_def distinct_map_filter)
  moreover have "distinct (map fst out)"
  proof -
    have "mset (map fst (js_sort marker_order seen)) = mset (map fst seen)"
      by simp
    then show ?thesis
      using keys unfolding out_def take_map [symmetric] by (metis distinct_take mset_eq_imp_distinct_iff)
  qed
  moreover have "set out \<subseteq> set seen"
    using set_take_subset by (fastforce simp: out_def)
  ultimately show "length (pruneDecorations r vs ve lines) \<le> retainedDecoratedLines"
    by (simp add: eq length_filter_keys) (simp add: out_def)
  have "\<forall>(k, l) \<in> set seen. (k, l) \<in> set lines \<and> in_sight r vs ve l"
    by (force simp: seen_def)
  then show "\<forall>(k, l) \<in> set (pruneDecorations r vs ve lines). (k, l) \<in> set lines \<and> in_sight r vs ve l"
    by (auto simp: eq)
qed

end
