(* ===== verification/Connection_Input.thy ===== *)
theory Connection_Input
  imports Js_Strings
begin

text \<open>
  The form of a connection and the list of saved connections
  (\<open>features/connections/useConnections.ts\<close>, with the types and defaults of
  \<open>connectionTypes.ts\<close>): how an input is normalised before it is stored, protocol by protocol, and
  the hook that keeps the list while its requests are answered. A part of an input that the code
  reads with a fallback may be missing, \<open>null\<close> and \<open>undefined\<close> are both \<open>None\<close>, and an enumeration is
  the string it is at run time. Outside the desktop process the hook works on demonstration data;
  these operations are modelled, the demonstration data itself is an argument.
\<close>

section \<open>Fallbacks\<close>

text \<open>\<open>value?.trim() || undefined\<close>, \<open>a || b\<close> on strings and on numbers, and \<open>Boolean(a)\<close>.\<close>

definition trim_opt :: "string option \<Rightarrow> string option" where
  "trim_opt v = truthy (map_option js_trim v)"

definition or_str :: "string option \<Rightarrow> string option \<Rightarrow> string option" where
  "or_str a b = (case truthy a of None \<Rightarrow> b | Some s \<Rightarrow> Some s)"

definition num_truthy :: "js_number option \<Rightarrow> js_number option" where
  "num_truthy n = (if n = Some (Finite 0) \<or> n = Some NaN then None else n)"

definition or_num :: "js_number option \<Rightarrow> js_number option \<Rightarrow> js_number option" where
  "or_num a b = (case num_truthy a of None \<Rightarrow> b | Some n \<Rightarrow> Some n)"

definition to_bool :: "bool option \<Rightarrow> bool option" where
  "to_bool b = Some (b = Some True)"

section \<open>Parts of a connection\<close>

record ConnectionProxyConfig =
  px_kind :: "string option"
  px_host :: "string option"
  px_port :: "js_number option"
  px_username :: "string option"
  px_password :: "string option"

record jump_input =
  ji_kind :: "string option"
  ji_connection :: "string option"

record ConnectionAdvancedConfig =
  ad_connect_timeout_ms :: "js_number option"
  ad_auth_timeout_ms :: "js_number option"
  ad_keepalive_interval_ms :: "js_number option"
  ad_terminal_encoding :: "string option"
  ad_x11_forwarding :: "bool option"
  ad_x11_display :: "string option"

record RdpDisplayConfig =
  rdd_mode :: "string option"
  rdd_width :: "js_number option"
  rdd_height :: "js_number option"
  rdd_dynamic_resize :: "bool option"
  rdd_use_multimon :: "bool option"

record RdpResourceConfig =
  rdr_clipboard :: "bool option"
  rdr_audio :: "string option"
  rdr_drives :: "bool option"
  rdr_printers :: "bool option"
  rdr_smart_cards :: "bool option"

record RdpGatewayConfig =
  rdg_mode :: "string option"
  rdg_host :: "string option"
  rdg_credential_source :: "string option"

record RdpRemoteAppConfig =
  rda_enabled :: "bool option"
  rda_program :: "string option"
  rda_working_dir :: "string option"
  rda_args :: "string option"

record RdpPerformanceConfig =
  rdp_preset :: "string option"
  rdp_desktop_background :: "bool option"
  rdp_font_smoothing :: "bool option"
  rdp_visual_styles :: "bool option"

record RdpSecurityConfig =
  rds_credential_mode :: "string option"
  rds_nla :: "string option"
  rds_certificate_policy :: "string option"

record runner_config =
  run_render_mode :: "string option"
  run_preferred_runner :: "string option"
  run_custom_executable :: "string option"
  run_custom_args_template :: "string option"

record RdpConnectionConfig =
  rc_domain :: "string option"
  rc_display :: "RdpDisplayConfig option"
  rc_resources :: "RdpResourceConfig option"
  rc_gateway :: "RdpGatewayConfig option"
  rc_remote_app :: "RdpRemoteAppConfig option"
  rc_performance :: "RdpPerformanceConfig option"
  rc_security :: "RdpSecurityConfig option"
  rc_runner :: "runner_config option"
  rc_raw_rdp_settings :: "string option"
  rc_raw_runner_args :: "string option"

record VncDisplayConfig =
  vnd_scale_mode :: "string option"
  vnd_resize_session :: "bool option"
  vnd_clip_viewport :: "bool option"

record VncInputConfig =
  vni_view_only :: "bool option"
  vni_clipboard :: "bool option"
  vni_shared :: "bool option"

record VncPerformanceConfig =
  vnp_preset :: "string option"
  vnp_quality_level :: "js_number option"
  vnp_compression_level :: "js_number option"

record VncConnectionConfig =
  vc_display :: "VncDisplayConfig option"
  vc_input :: "VncInputConfig option"
  vc_performance :: "VncPerformanceConfig option"
  vc_security_credential_mode :: "string option"
  vc_runner :: "runner_config option"
  vc_raw_runner_args :: "string option"

record TelnetConnectionConfig =
  tn_enter_mode :: "string option"
  tn_backspace_mode :: "string option"

record SerialConnectionConfig =
  sr_port_name :: "string option"
  sr_baud_rate :: "js_number option"
  sr_data_bits :: "string option"
  sr_parity :: "string option"
  sr_stop_bits :: "string option"
  sr_flow_control :: "string option"
  sr_backspace_mode :: "string option"

section \<open>Defaults\<close>

definition defaultAdvancedConfig :: ConnectionAdvancedConfig where
  "defaultAdvancedConfig =
     \<lparr>ad_connect_timeout_ms = Some (Finite 30000), ad_auth_timeout_ms = Some (Finite 45000),
      ad_keepalive_interval_ms = Some (Finite 20000), ad_terminal_encoding = Some ''utf-8'',
      ad_x11_forwarding = Some False, ad_x11_display = Some []\<rparr>"

definition defaultRdpConfig :: RdpConnectionConfig where
  "defaultRdpConfig =
     \<lparr>rc_domain = Some [],
      rc_display = Some \<lparr>rdd_mode = Some ''embedded'', rdd_width = Some (Finite 1440), rdd_height = Some (Finite 900),
        rdd_dynamic_resize = Some True, rdd_use_multimon = Some False\<rparr>,
      rc_resources = Some \<lparr>rdr_clipboard = Some True, rdr_audio = Some ''local'', rdr_drives = Some False,
        rdr_printers = Some False, rdr_smart_cards = Some False\<rparr>,
      rc_gateway = Some \<lparr>rdg_mode = Some ''disabled'', rdg_host = Some [], rdg_credential_source = Some ''prompt''\<rparr>,
      rc_remote_app = Some \<lparr>rda_enabled = Some False, rda_program = Some [], rda_working_dir = Some [], rda_args = Some []\<rparr>,
      rc_performance = Some \<lparr>rdp_preset = Some ''auto'', rdp_desktop_background = Some False,
        rdp_font_smoothing = Some True, rdp_visual_styles = Some True\<rparr>,
      rc_security = Some \<lparr>rds_credential_mode = Some ''prompt'', rds_nla = Some ''auto'', rds_certificate_policy = Some ''prompt''\<rparr>,
      rc_runner = Some \<lparr>run_render_mode = Some ''embedded'', run_preferred_runner = None,
        run_custom_executable = Some [], run_custom_args_template = Some []\<rparr>,
      rc_raw_rdp_settings = Some [], rc_raw_runner_args = Some []\<rparr>"

definition defaultVncConfig :: VncConnectionConfig where
  "defaultVncConfig =
     \<lparr>vc_display = Some \<lparr>vnd_scale_mode = Some ''fit'', vnd_resize_session = Some True, vnd_clip_viewport = Some True\<rparr>,
      vc_input = Some \<lparr>vni_view_only = Some False, vni_clipboard = Some True, vni_shared = Some True\<rparr>,
      vc_performance = Some \<lparr>vnp_preset = Some ''auto'', vnp_quality_level = Some (Finite 7), vnp_compression_level = Some (Finite 0)\<rparr>,
      vc_security_credential_mode = Some ''prompt'',
      vc_runner = Some \<lparr>run_render_mode = Some ''embedded'', run_preferred_runner = Some ''novnc'',
        run_custom_executable = Some [], run_custom_args_template = Some []\<rparr>,
      vc_raw_runner_args = Some []\<rparr>"

definition defaultTelnetConfig :: TelnetConnectionConfig where
  "defaultTelnetConfig = \<lparr>tn_enter_mode = Some ''crlf'', tn_backspace_mode = Some ''del''\<rparr>"

definition defaultSerialConfig :: SerialConnectionConfig where
  "defaultSerialConfig =
     \<lparr>sr_port_name = Some [], sr_baud_rate = Some (Finite 9600), sr_data_bits = Some ''eight'', sr_parity = Some ''none'',
      sr_stop_bits = Some ''one'', sr_flow_control = Some ''none'', sr_backspace_mode = Some ''del''\<rparr>"

definition terminalEncodingOptions :: "string list" where
  "terminalEncodingOptions = [''utf-8'', ''gbk'', ''gb18030'', ''big5'', ''euc-jp'', ''iso-2022-jp'', ''shift-jis'', ''euc-kr'']"

definition normalizeTerminalEncoding :: "string option \<Rightarrow> string option" where
  "normalizeTerminalEncoding v =
     (let normalized = map (\<lambda>c. if c = CHR ''_'' then CHR ''-'' else c) (toLowerCase (js_trim (case v of None \<Rightarrow> [] | Some s \<Rightarrow> s)))
      in or_str (find (\<lambda>item. item = normalized) terminalEncodingOptions) (ad_terminal_encoding defaultAdvancedConfig))"

definition defaultRdpExternalRunnerForPlatform :: "string \<Rightarrow> string" where
  "defaultRdpExternalRunnerForPlatform platform =
     (if platform = ''macos'' then ''macos_app'' else if platform = ''linux'' then ''freerdp'' else ''mstsc'')"

section \<open>Normalising the parts\<close>

definition normalizeTelnetConfig :: "TelnetConnectionConfig option \<Rightarrow> TelnetConnectionConfig" where
  "normalizeTelnetConfig input =
     (let telnet = (case input of None \<Rightarrow> defaultTelnetConfig | Some t \<Rightarrow> t)
      in \<lparr>tn_enter_mode = or_str (tn_enter_mode telnet) (tn_enter_mode defaultTelnetConfig),
          tn_backspace_mode = or_str (tn_backspace_mode telnet) (tn_backspace_mode defaultTelnetConfig)\<rparr>)"

definition normalizeSerialConfig :: "SerialConnectionConfig option \<Rightarrow> SerialConnectionConfig" where
  "normalizeSerialConfig input =
     (let serial = (case input of None \<Rightarrow> defaultSerialConfig | Some s \<Rightarrow> s)
      in \<lparr>sr_port_name = or_str (map_option js_trim (sr_port_name serial)) (Some []),
          sr_baud_rate = or_num (sr_baud_rate serial) (sr_baud_rate defaultSerialConfig),
          sr_data_bits = or_str (sr_data_bits serial) (sr_data_bits defaultSerialConfig),
          sr_parity = or_str (sr_parity serial) (sr_parity defaultSerialConfig),
          sr_stop_bits = or_str (sr_stop_bits serial) (sr_stop_bits defaultSerialConfig),
          sr_flow_control = or_str (sr_flow_control serial) (sr_flow_control defaultSerialConfig),
          sr_backspace_mode = or_str (sr_backspace_mode serial) (sr_backspace_mode defaultSerialConfig)\<rparr>)"

text \<open>\<open>Math.min(9, Math.max(0, x))\<close>.\<close>

fun clamp_level :: "js_number \<Rightarrow> js_number" where
  "clamp_level (Finite x) = Finite (min 9 (max 0 x))"
| "clamp_level PosInfinity = Finite 9"
| "clamp_level NegInfinity = Finite 0"
| "clamp_level NaN = NaN"

definition level_or :: "js_number option \<Rightarrow> js_number option \<Rightarrow> js_number option" where
  "level_or n d = (case n of None \<Rightarrow> d | Some x \<Rightarrow> Some (clamp_level x))"

definition normalizeVncConfig :: "VncConnectionConfig option \<Rightarrow> VncConnectionConfig" where
  "normalizeVncConfig input =
     (let vnc = (case input of None \<Rightarrow> defaultVncConfig | Some v \<Rightarrow> v);
          default_display = the (vc_display defaultVncConfig); default_input = the (vc_input defaultVncConfig);
          default_performance = the (vc_performance defaultVncConfig); default_runner = the (vc_runner defaultVncConfig);
          renderMode = or_str (Option.bind (vc_runner vnc) run_render_mode) (run_render_mode default_runner)
      in \<lparr>vc_display = Some
            \<lparr>vnd_scale_mode = or_str (Option.bind (vc_display vnc) vnd_scale_mode) (vnd_scale_mode default_display),
             vnd_resize_session = coalesce (Option.bind (vc_display vnc) vnd_resize_session) (vnd_resize_session default_display),
             vnd_clip_viewport = coalesce (Option.bind (vc_display vnc) vnd_clip_viewport) (vnd_clip_viewport default_display)\<rparr>,
          vc_input = Some
            \<lparr>vni_view_only = to_bool (Option.bind (vc_input vnc) vni_view_only),
             vni_clipboard = coalesce (Option.bind (vc_input vnc) vni_clipboard) (vni_clipboard default_input),
             vni_shared = coalesce (Option.bind (vc_input vnc) vni_shared) (vni_shared default_input)\<rparr>,
          vc_performance = Some
            \<lparr>vnp_preset = or_str (Option.bind (vc_performance vnc) vnp_preset) (vnp_preset default_performance),
             vnp_quality_level = level_or (Option.bind (vc_performance vnc) vnp_quality_level) (vnp_quality_level default_performance),
             vnp_compression_level =
               level_or (Option.bind (vc_performance vnc) vnp_compression_level) (vnp_compression_level default_performance)\<rparr>,
          vc_security_credential_mode = or_str (vc_security_credential_mode vnc) (vc_security_credential_mode defaultVncConfig),
          vc_runner = Some
            \<lparr>run_render_mode = renderMode,
             run_preferred_runner =
               (if renderMode = Some ''embedded'' \<or> renderMode = Some ''windowed'' then Some ''novnc''
                else or_str (Option.bind (vc_runner vnc) run_preferred_runner) (run_preferred_runner default_runner)),
             run_custom_executable =
               (if renderMode = Some ''custom'' then trim_opt (Option.bind (vc_runner vnc) run_custom_executable) else None),
             run_custom_args_template =
               (if renderMode = Some ''custom'' then trim_opt (Option.bind (vc_runner vnc) run_custom_args_template) else None)\<rparr>,
          vc_raw_runner_args = trim_opt (vc_raw_runner_args vnc)\<rparr>)"

definition normalizeRdpConfig :: "string \<Rightarrow> RdpConnectionConfig option \<Rightarrow> RdpConnectionConfig" where
  "normalizeRdpConfig platform input =
     (let rdp = (case input of None \<Rightarrow> defaultRdpConfig | Some r \<Rightarrow> r);
          default_display = the (rc_display defaultRdpConfig); default_resources = the (rc_resources defaultRdpConfig);
          default_performance = the (rc_performance defaultRdpConfig); default_security = the (rc_security defaultRdpConfig);
          gatewayMode = or_str (Option.bind (rc_gateway rdp) rdg_mode) (Some ''disabled'');
          remoteAppEnabled = to_bool (Option.bind (rc_remote_app rdp) rda_enabled);
          renderMode = (if Option.bind (rc_runner rdp) run_render_mode = Some ''external'' then ''external'' else ''embedded'');
          mode = Option.bind (rc_display rdp) rdd_mode;
          displayMode = (if mode = Some ''windowed'' then rdd_mode default_display else mode)
      in \<lparr>rc_domain = trim_opt (rc_domain rdp),
          rc_display = Some
            \<lparr>rdd_mode = or_str displayMode (rdd_mode default_display),
             rdd_width = or_num (Option.bind (rc_display rdp) rdd_width) (rdd_width default_display),
             rdd_height = or_num (Option.bind (rc_display rdp) rdd_height) (rdd_height default_display),
             rdd_dynamic_resize = coalesce (Option.bind (rc_display rdp) rdd_dynamic_resize) (rdd_dynamic_resize default_display),
             rdd_use_multimon = Some (mode = Some ''all_monitors'' \<or> Option.bind (rc_display rdp) rdd_use_multimon = Some True)\<rparr>,
          rc_resources = Some
            \<lparr>rdr_clipboard = coalesce (Option.bind (rc_resources rdp) rdr_clipboard) (rdr_clipboard default_resources),
             rdr_audio = or_str (Option.bind (rc_resources rdp) rdr_audio) (rdr_audio default_resources),
             rdr_drives = to_bool (Option.bind (rc_resources rdp) rdr_drives),
             rdr_printers = to_bool (Option.bind (rc_resources rdp) rdr_printers),
             rdr_smart_cards = to_bool (Option.bind (rc_resources rdp) rdr_smart_cards)\<rparr>,
          rc_gateway =
            (if gatewayMode = Some ''disabled'' then None
             else Some \<lparr>rdg_mode = gatewayMode, rdg_host = trim_opt (Option.bind (rc_gateway rdp) rdg_host),
               rdg_credential_source = or_str (Option.bind (rc_gateway rdp) rdg_credential_source)
                 (or_str (Option.bind (rc_gateway defaultRdpConfig) rdg_credential_source) (Some ''prompt''))\<rparr>),
          rc_remote_app = Some
            (if remoteAppEnabled = Some True then
               \<lparr>rda_enabled = Some True, rda_program = trim_opt (Option.bind (rc_remote_app rdp) rda_program),
                rda_working_dir = trim_opt (Option.bind (rc_remote_app rdp) rda_working_dir),
                rda_args = trim_opt (Option.bind (rc_remote_app rdp) rda_args)\<rparr>
             else \<lparr>rda_enabled = Some False, rda_program = None, rda_working_dir = None, rda_args = None\<rparr>),
          rc_performance = Some
            \<lparr>rdp_preset = or_str (Option.bind (rc_performance rdp) rdp_preset) (rdp_preset default_performance),
             rdp_desktop_background = to_bool (Option.bind (rc_performance rdp) rdp_desktop_background),
             rdp_font_smoothing = coalesce (Option.bind (rc_performance rdp) rdp_font_smoothing) (rdp_font_smoothing default_performance),
             rdp_visual_styles = coalesce (Option.bind (rc_performance rdp) rdp_visual_styles) (rdp_visual_styles default_performance)\<rparr>,
          rc_security = Some
            \<lparr>rds_credential_mode = or_str (Option.bind (rc_security rdp) rds_credential_mode) (rds_credential_mode default_security),
             rds_nla = or_str (Option.bind (rc_security rdp) rds_nla) (rds_nla default_security),
             rds_certificate_policy = or_str (Option.bind (rc_security rdp) rds_certificate_policy) (rds_certificate_policy default_security)\<rparr>,
          rc_runner = Some
            \<lparr>run_render_mode = Some renderMode,
             run_preferred_runner = (if renderMode = ''external'' then Some (defaultRdpExternalRunnerForPlatform platform) else None),
             run_custom_executable = None, run_custom_args_template = None\<rparr>,
          rc_raw_rdp_settings = trim_opt (rc_raw_rdp_settings rdp), rc_raw_runner_args = None\<rparr>)"

definition normalizeJumpConfig :: "jump_input option \<Rightarrow> jump_input" where
  "normalizeJumpConfig input =
     (if Option.bind input ji_kind \<noteq> Some ''ssh_jump'' then \<lparr>ji_kind = Some ''none'', ji_connection = None\<rparr>
      else \<lparr>ji_kind = Some ''ssh_jump'', ji_connection = or_str (map_option js_trim (Option.bind input ji_connection)) (Some [])\<rparr>)"

section \<open>Normalising an input\<close>

text \<open>The fields of an input that hold its credentials, the superseded ones last.\<close>

record credential_fields =
  cr_credential_mode :: "string option"
  cr_credential_id :: "string option"
  cr_inline_auth_kind :: "string option"
  cr_inline_password :: "string option"
  cr_inline_password_touched :: "bool option"
  cr_inline_private_key_path :: "string option"
  cr_inline_private_key_passphrase :: "string option"
  cr_inline_private_key_passphrase_touched :: "bool option"
  cr_prompt_auth_kind :: "string option"
  cr_auth_kind :: "string option"
  cr_password :: "string option"
  cr_private_key_path :: "string option"
  cr_private_key_passphrase :: "string option"

record ConnectionProfileInput =
  in_id :: "string option"
  in_source_connection_id :: "string option"
  in_protocol :: "string option"
  in_name :: "string option"
  in_group :: "string option"
  in_group_id :: "string option"
  in_host :: string
  in_port :: js_number
  in_username :: string
  in_credentials :: credential_fields
  in_proxy :: "ConnectionProxyConfig option"
  in_jump :: "jump_input option"
  in_advanced :: "ConnectionAdvancedConfig option"
  in_rdp :: "RdpConnectionConfig option"
  in_vnc :: "VncConnectionConfig option"
  in_telnet :: "TelnetConnectionConfig option"
  in_serial :: "SerialConnectionConfig option"
  in_notes :: "string option"
  in_is_favorite :: "bool option"
  in_last_connected_at :: "string option"
  in_remote_os_id :: "string option"
  in_remote_os_name :: "string option"
  in_remote_os_version :: "string option"

text \<open>\<open>Number(input.port) || d\<close>.\<close>

definition port_or :: "js_number \<Rightarrow> rat \<Rightarrow> js_number" where
  "port_or n d = (if n = Finite 0 \<or> n = NaN then Finite d else n)"

definition no_proxy :: ConnectionProxyConfig where
  "no_proxy = \<lparr>px_kind = Some ''none'', px_host = None, px_port = None, px_username = None, px_password = None\<rparr>"

definition no_jump :: jump_input where
  "no_jump = \<lparr>ji_kind = Some ''none'', ji_connection = None\<rparr>"

definition kept_group :: "string option \<Rightarrow> string option \<Rightarrow> string option" where
  "kept_group gid g = (if truthy gid \<noteq> None then None else trim_opt g)"

definition no_credentials :: credential_fields where
  "no_credentials =
     \<lparr>cr_credential_mode = Some ''prompt'', cr_credential_id = None, cr_inline_auth_kind = None, cr_inline_password = None,
      cr_inline_password_touched = Some False, cr_inline_private_key_path = None, cr_inline_private_key_passphrase = None,
      cr_inline_private_key_passphrase_touched = Some False, cr_prompt_auth_kind = None, cr_auth_kind = None,
      cr_password = None, cr_private_key_path = None, cr_private_key_passphrase = None\<rparr>"

text \<open>The fields that every branch fills in the same way; a branch overrides the others.\<close>

definition shared_fields :: "ConnectionProfileInput \<Rightarrow> ConnectionProfileInput" where
  "shared_fields i =
     \<lparr>in_id = trim_opt (in_id i), in_source_connection_id = trim_opt (in_source_connection_id i), in_protocol = None,
      in_name = trim_opt (in_name i), in_group = kept_group (in_group_id i) (in_group i),
      in_group_id = trim_opt (in_group_id i), in_host = js_trim (in_host i), in_port = in_port i, in_username = [],
      in_credentials = no_credentials, in_proxy = Some no_proxy, in_jump = Some no_jump,
      in_advanced = Some defaultAdvancedConfig, in_rdp = None, in_vnc = None, in_telnet = None, in_serial = None,
      in_notes = trim_opt (in_notes i), in_is_favorite = in_is_favorite i,
      in_last_connected_at = trim_opt (in_last_connected_at i), in_remote_os_id = None, in_remote_os_name = None,
      in_remote_os_version = None\<rparr>"

definition with_system :: "ConnectionProfileInput \<Rightarrow> ConnectionProfileInput \<Rightarrow> ConnectionProfileInput" where
  "with_system i out = out\<lparr>in_remote_os_id := trim_opt (in_remote_os_id i), in_remote_os_name := trim_opt (in_remote_os_name i),
     in_remote_os_version := trim_opt (in_remote_os_version i)\<rparr>"

text \<open>A secret is sent if the user touched its field; an input without the flag counts as touched when it has the secret.\<close>

definition touched :: "bool option \<Rightarrow> string option \<Rightarrow> bool" where
  "touched flag secret = (case flag of Some b \<Rightarrow> b | None \<Rightarrow> secret \<noteq> None)"

text \<open>The credential fields of the branches for RDP and VNC.\<close>

definition desktop_credentials :: "credential_fields \<Rightarrow> credential_fields" where
  "desktop_credentials i =
     (let credentialMode = or_str (cr_credential_mode i) (Some ''prompt'');
          inlinePassword = trim_opt (or_str (cr_inline_password i) (cr_password i));
          inlinePasswordTouched = touched (cr_inline_password_touched i) inlinePassword;
          inline = credentialMode = Some ''inline''
      in no_credentials
         \<lparr>cr_credential_mode := credentialMode,
          cr_credential_id := (if credentialMode = Some ''saved'' then trim_opt (cr_credential_id i) else None),
          cr_inline_auth_kind := (if inline then Some ''password'' else None),
          cr_inline_password := (if inline \<and> inlinePasswordTouched then inlinePassword else None),
          cr_inline_password_touched := Some (inline \<and> inlinePasswordTouched)\<rparr>)"

definition normalize_rdp_input :: "string \<Rightarrow> ConnectionProfileInput \<Rightarrow> ConnectionProfileInput" where
  "normalize_rdp_input platform i = with_system i (shared_fields i)
     \<lparr>in_protocol := Some ''rdp'', in_port := port_or (in_port i) 3389, in_username := js_trim (in_username i),
      in_credentials := desktop_credentials (in_credentials i), in_rdp := Some (normalizeRdpConfig platform (in_rdp i))\<rparr>"

definition normalize_vnc_input :: "ConnectionProfileInput \<Rightarrow> ConnectionProfileInput" where
  "normalize_vnc_input i = with_system i (shared_fields i)
     \<lparr>in_protocol := Some ''vnc'', in_port := port_or (in_port i) 5900, in_username := js_trim (in_username i),
      in_credentials := desktop_credentials (in_credentials i), in_vnc := Some (normalizeVncConfig (in_vnc i))\<rparr>"

definition normalize_telnet_input :: "ConnectionProfileInput \<Rightarrow> ConnectionProfileInput" where
  "normalize_telnet_input i = (shared_fields i)
     \<lparr>in_protocol := Some ''telnet'', in_port := port_or (in_port i) 23, in_telnet := Some (normalizeTelnetConfig (in_telnet i))\<rparr>"

definition normalize_serial_input :: "ConnectionProfileInput \<Rightarrow> ConnectionProfileInput" where
  "normalize_serial_input i =
     (let serial = normalizeSerialConfig (in_serial i);
          portName = (case truthy (sr_port_name serial) of Some p \<Rightarrow> p | None \<Rightarrow> js_trim (in_host i))
      in (shared_fields i)\<lparr>in_protocol := Some ''serial'', in_host := portName, in_port := Finite 1,
          in_serial := Some (serial\<lparr>sr_port_name := Some portName\<rparr>)\<rparr>)"

definition normalize_proxy :: "ConnectionProxyConfig option \<Rightarrow> ConnectionProxyConfig" where
  "normalize_proxy proxy =
     (let proxyKind = or_str (Option.bind proxy px_kind) (Some ''none'')
      in if proxyKind = Some ''none'' then no_proxy
         else \<lparr>px_kind = proxyKind, px_host = trim_opt (Option.bind proxy px_host),
           px_port = num_truthy (Option.bind proxy px_port), px_username = trim_opt (Option.bind proxy px_username),
           px_password = trim_opt (Option.bind proxy px_password)\<rparr>)"

definition normalize_advanced :: "ConnectionAdvancedConfig option \<Rightarrow> ConnectionAdvancedConfig" where
  "normalize_advanced advanced =
     \<lparr>ad_connect_timeout_ms = or_num (Option.bind advanced ad_connect_timeout_ms) (ad_connect_timeout_ms defaultAdvancedConfig),
      ad_auth_timeout_ms = or_num (Option.bind advanced ad_auth_timeout_ms) (ad_auth_timeout_ms defaultAdvancedConfig),
      ad_keepalive_interval_ms =
        or_num (Option.bind advanced ad_keepalive_interval_ms) (ad_keepalive_interval_ms defaultAdvancedConfig),
      ad_terminal_encoding = normalizeTerminalEncoding (Option.bind advanced ad_terminal_encoding),
      ad_x11_forwarding = to_bool (Option.bind advanced ad_x11_forwarding),
      ad_x11_display = trim_opt (Option.bind advanced ad_x11_display)\<rparr>"

definition ssh_credentials :: "credential_fields \<Rightarrow> credential_fields" where
  "ssh_credentials i =
     (let credentialMode = or_str (cr_credential_mode i) (Some ''inline'');
          inlineAuthKind = or_str (cr_inline_auth_kind i) (or_str (cr_auth_kind i)
            (Some (if truthy (cr_private_key_path i) \<noteq> None then ''private_key'' else ''password'')));
          promptAuthKind = or_str (cr_prompt_auth_kind i) (or_str (cr_auth_kind i) (Some ''password''));
          inlinePassword = trim_opt (or_str (cr_inline_password i) (cr_password i));
          inlinePrivateKeyPassphrase = trim_opt (or_str (cr_inline_private_key_passphrase i) (cr_private_key_passphrase i));
          inlinePasswordTouched = touched (cr_inline_password_touched i) inlinePassword;
          inlinePrivateKeyPassphraseTouched = touched (cr_inline_private_key_passphrase_touched i) inlinePrivateKeyPassphrase;
          byPassword = credentialMode = Some ''inline'' \<and> inlineAuthKind = Some ''password'';
          byKey = credentialMode = Some ''inline'' \<and> inlineAuthKind = Some ''private_key''
      in no_credentials
         \<lparr>cr_credential_mode := credentialMode,
          cr_credential_id := (if credentialMode = Some ''saved'' then trim_opt (cr_credential_id i) else None),
          cr_inline_auth_kind := (if credentialMode = Some ''inline'' then inlineAuthKind else None),
          cr_inline_password := (if byPassword \<and> inlinePasswordTouched then inlinePassword else None),
          cr_inline_password_touched := Some (byPassword \<and> inlinePasswordTouched),
          cr_inline_private_key_path :=
            (if byKey then trim_opt (or_str (cr_inline_private_key_path i) (cr_private_key_path i)) else None),
          cr_inline_private_key_passphrase :=
            (if byKey \<and> inlinePrivateKeyPassphraseTouched then inlinePrivateKeyPassphrase else None),
          cr_inline_private_key_passphrase_touched := Some (byKey \<and> inlinePrivateKeyPassphraseTouched),
          cr_prompt_auth_kind := (if credentialMode = Some ''prompt'' then promptAuthKind else None)\<rparr>)"

definition normalize_ssh_input :: "ConnectionProfileInput \<Rightarrow> ConnectionProfileInput" where
  "normalize_ssh_input i = with_system i (shared_fields i)
     \<lparr>in_protocol := Some ''ssh'', in_port := port_or (in_port i) 22, in_username := js_trim (in_username i),
      in_credentials := ssh_credentials (in_credentials i), in_proxy := Some (normalize_proxy (in_proxy i)),
      in_jump := Some (normalizeJumpConfig (in_jump i)), in_advanced := Some (normalize_advanced (in_advanced i))\<rparr>"

definition normalizeConnectionInput :: "string \<Rightarrow> ConnectionProfileInput \<Rightarrow> ConnectionProfileInput" where
  "normalizeConnectionInput platform i =
     (let protocol = or_str (in_protocol i) (Some ''ssh'')
      in if protocol = Some ''rdp'' then normalize_rdp_input platform i
         else if protocol = Some ''vnc'' then normalize_vnc_input i
         else if protocol = Some ''telnet'' then normalize_telnet_input i
         else if protocol = Some ''serial'' then normalize_serial_input i
         else normalize_ssh_input i)"

section \<open>The list of connections\<close>

text \<open>
  A profile: the fields the hook changes, and the rest as the input that was saved. The translated
  texts and the text of a number are arguments where a name is made.
\<close>

record ConnectionProfile =
  pf_id :: string
  pf_name :: string
  pf_is_favorite :: bool
  pf_last_connected_at :: "string option"
  pf_created_at :: string
  pf_updated_at :: string
  pf_input :: ConnectionProfileInput

definition defaultConnectionName :: "(string \<Rightarrow> string) \<Rightarrow> (js_number \<Rightarrow> string) \<Rightarrow> ConnectionProfileInput \<Rightarrow> string" where
  "defaultConnectionName tr numberText i =
     (if in_protocol i = Some ''telnet'' then ''Telnet '' @ js_trim (in_host i) @ '':'' @ numberText (in_port i)
      else if in_protocol i = Some ''serial'' then
        tr ''demo.connection.serialPrefix'' @ '' '' @
          js_trim (case truthy (Option.bind (in_serial i) sr_port_name) of Some n \<Rightarrow> n | None \<Rightarrow> in_host i)
      else js_trim (in_username i) @ ''@'' @ js_trim (in_host i))"

text \<open>The requests in flight: the list, a profile that is saved, one that is changed, and a deletion.\<close>

datatype connection_request = ListRequest | UpsertRequest | ChangeRequest | DeleteRequest string

record connection_list =
  cl_connections :: "ConnectionProfile list"
  cl_loading :: bool
  cl_error :: "string option"
  cl_requests :: "connection_request list"

definition send_request :: "connection_request \<Rightarrow> connection_list \<Rightarrow> connection_list" where
  "send_request r v = v\<lparr>cl_requests := cl_requests v @ [r]\<rparr>"

definition reload_connections :: "bool \<Rightarrow> bool \<Rightarrow> ConnectionProfile list \<Rightarrow> connection_list \<Rightarrow> connection_list" where
  "reload_connections isTauri enabled demo v =
     (let v = v\<lparr>cl_loading := True, cl_error := None\<rparr>
      in if \<not> enabled then v\<lparr>cl_connections := [], cl_loading := False\<rparr>
         else if \<not> isTauri then v\<lparr>cl_connections := demo, cl_loading := False\<rparr>
         else send_request ListRequest v)"

definition replace_profile :: "ConnectionProfile \<Rightarrow> ConnectionProfile list \<Rightarrow> ConnectionProfile list" where
  "replace_profile profile items = map (\<lambda>item. if pf_id item = pf_id profile then profile else item) items"

definition upsert_profile :: "ConnectionProfile \<Rightarrow> ConnectionProfile list \<Rightarrow> ConnectionProfile list" where
  "upsert_profile profile items =
     (if list_ex (\<lambda>item. pf_id item = pf_id profile) items then replace_profile profile items else items @ [profile])"

definition preview_profile :: "(string \<Rightarrow> string) \<Rightarrow> (js_number \<Rightarrow> string) \<Rightarrow> nat \<Rightarrow> ConnectionProfileInput \<Rightarrow> ConnectionProfile" where
  "preview_profile tr numberText now i =
     \<lparr>pf_id = (case truthy (in_id i) of Some x \<Rightarrow> x | None \<Rightarrow> ''preview-'' @ nat_str now),
      pf_name = (case truthy (in_name i) of Some x \<Rightarrow> x | None \<Rightarrow> defaultConnectionName tr numberText i),
      pf_is_favorite = (in_is_favorite i = Some True), pf_last_connected_at = truthy (in_last_connected_at i),
      pf_created_at = ''preview'', pf_updated_at = ''preview'', pf_input = i\<rparr>"

text \<open>Without the desktop process a change is applied to the list at once.\<close>

definition upsert_connection ::
  "bool \<Rightarrow> (string \<Rightarrow> string) \<Rightarrow> (js_number \<Rightarrow> string) \<Rightarrow> string \<Rightarrow> nat \<Rightarrow> ConnectionProfileInput \<Rightarrow> connection_list \<Rightarrow> connection_list" where
  "upsert_connection isTauri tr numberText platform now i v =
     (let normalized = normalizeConnectionInput platform i
      in if isTauri then send_request UpsertRequest v
         else v\<lparr>cl_connections := upsert_profile (preview_profile tr numberText now normalized) (cl_connections v)\<rparr>)"

definition setFavorite :: "bool \<Rightarrow> string \<Rightarrow> string \<Rightarrow> bool \<Rightarrow> connection_list \<Rightarrow> connection_list" where
  "setFavorite isTauri now connectionId isFavorite v =
     (if isTauri then send_request ChangeRequest v
      else v\<lparr>cl_connections := map (\<lambda>item. if pf_id item \<noteq> connectionId then item
        else item\<lparr>pf_is_favorite := isFavorite, pf_updated_at := now\<rparr>) (cl_connections v)\<rparr>)"

definition markConnected :: "bool \<Rightarrow> string \<Rightarrow> string \<Rightarrow> connection_list \<Rightarrow> connection_list" where
  "markConnected isTauri now connectionId v =
     (if isTauri then send_request ChangeRequest v
      else v\<lparr>cl_connections := map (\<lambda>item. if pf_id item \<noteq> connectionId then item
        else item\<lparr>pf_last_connected_at := Some now\<rparr>) (cl_connections v)\<rparr>)"

definition probeSystem :: "bool \<Rightarrow> connection_list \<Rightarrow> connection_list" where
  "probeSystem isTauri v = (if isTauri then send_request ChangeRequest v else v)"

definition remove_connection :: "bool \<Rightarrow> string \<Rightarrow> connection_list \<Rightarrow> connection_list" where
  "remove_connection isTauri i v =
     (let v = v\<lparr>cl_connections := filter (\<lambda>item. pf_id item \<noteq> i) (cl_connections v)\<rparr>
      in if isTauri then send_request (DeleteRequest i) v else v)"

text \<open>The answers of the desktop process, in the order in which they arrive.\<close>

datatype connection_answer =
    Listed "ConnectionProfile list"
  | ListFailed string
  | Saved ConnectionProfile
  | Changed ConnectionProfile
  | Deleted
  | DeleteFailed
  | CallFailed

definition connection_answered :: "bool \<Rightarrow> ConnectionProfile list \<Rightarrow> connection_answer \<Rightarrow> connection_list \<Rightarrow> connection_list" where
  "connection_answered enabled demo answer v =
     (case answer of
        Listed items \<Rightarrow> v\<lparr>cl_connections := items, cl_loading := False\<rparr>
      | ListFailed e \<Rightarrow> v\<lparr>cl_error := Some e, cl_loading := False\<rparr>
      | Saved profile \<Rightarrow> v\<lparr>cl_connections := upsert_profile profile (cl_connections v)\<rparr>
      | Changed profile \<Rightarrow> v\<lparr>cl_connections := replace_profile profile (cl_connections v)\<rparr>
      | Deleted \<Rightarrow> v
      | DeleteFailed \<Rightarrow> reload_connections True enabled demo v
      | CallFailed \<Rightarrow> v)"

datatype connection_event =
    Reload
  | Upsert ConnectionProfileInput nat
  | Favorite string bool string
  | Connected string string
  | Probe
  | Remove string
  | Answer nat connection_answer

fun fits :: "connection_request \<Rightarrow> connection_answer \<Rightarrow> bool" where
  "fits ListRequest (Listed items) = True"
| "fits ListRequest (ListFailed e) = True"
| "fits UpsertRequest (Saved profile) = True"
| "fits UpsertRequest CallFailed = True"
| "fits ChangeRequest (Changed profile) = True"
| "fits ChangeRequest CallFailed = True"
| "fits (DeleteRequest i) Deleted = True"
| "fits (DeleteRequest i) DeleteFailed = True"
| "fits _ _ = False"

text \<open>What the hook does not choose: the runtime, its data and the texts.\<close>

record connection_host =
  ho_isTauri :: bool
  ho_enabled :: bool
  ho_demo :: "ConnectionProfile list"
  ho_platform :: string
  ho_tr :: "string \<Rightarrow> string"
  ho_numberText :: "js_number \<Rightarrow> string"

fun connection_step :: "connection_host \<Rightarrow> connection_list \<Rightarrow> connection_event \<Rightarrow> connection_list" where
  "connection_step h v Reload = reload_connections (ho_isTauri h) (ho_enabled h) (ho_demo h) v"
| "connection_step h v (Upsert i now) = upsert_connection (ho_isTauri h) (ho_tr h) (ho_numberText h) (ho_platform h) now i v"
| "connection_step h v (Favorite i b now) = setFavorite (ho_isTauri h) now i b v"
| "connection_step h v (Connected i now) = markConnected (ho_isTauri h) now i v"
| "connection_step h v Probe = probeSystem (ho_isTauri h) v"
| "connection_step h v (Remove i) = remove_connection (ho_isTauri h) i v"
| "connection_step h v (Answer n answer) =
     (if n < length (cl_requests v) \<and> fits (cl_requests v ! n) answer then
        connection_answered (ho_enabled h) (ho_demo h) answer
          (v\<lparr>cl_requests := take n (cl_requests v) @ drop (Suc n) (cl_requests v)\<rparr>)
      else v)"

text \<open>The state after the first effect, which loads the list.\<close>

definition initial_connections :: "connection_host \<Rightarrow> connection_list" where
  "initial_connections h = reload_connections (ho_isTauri h) (ho_enabled h) (ho_demo h)
     \<lparr>cl_connections = [], cl_loading = True, cl_error = None, cl_requests = []\<rparr>"

section \<open>Idempotence of the parts\<close>

lemma trim_opt_idem [simp]: "trim_opt (trim_opt v) = trim_opt v"
  by (cases v) (auto simp: trim_opt_def truthy_def)

lemma trim_opt_None [simp]: "trim_opt None = None"
  by (simp add: trim_opt_def)

lemma or_str_idem [simp]: "or_str (or_str a b) b = or_str a b"
  by (auto simp: or_str_def truthy_def split: option.splits)

lemma or_str_None [simp]: "or_str None b = b"
  by (simp add: or_str_def)

lemma or_num_idem [simp]: "or_num (or_num a b) b = or_num a b"
  by (auto simp: or_num_def num_truthy_def split: option.splits)

lemma to_bool_idem [simp]: "to_bool (to_bool b) = to_bool b"
  by (simp add: to_bool_def)

lemma coalesce_idem [simp]: "coalesce (coalesce a b) b = coalesce a b"
  by (cases a; cases b) auto

lemma clamp_level_idem [simp]: "clamp_level (clamp_level x) = clamp_level x"
  by (cases x) auto

lemma normalizeTelnetConfig_idem: "normalizeTelnetConfig (Some (normalizeTelnetConfig t)) = normalizeTelnetConfig t"
  by (simp add: normalizeTelnetConfig_def Let_def)

lemma normalizeJumpConfig_idem: "normalizeJumpConfig (Some (normalizeJumpConfig j)) = normalizeJumpConfig j"
  by (auto simp: normalizeJumpConfig_def or_str_def truthy_def split: option.splits)

lemma encoding_fixed: "e \<in> set terminalEncodingOptions \<Longrightarrow> normalizeTerminalEncoding (Some e) = Some e"
proof -
  have "list_all (\<lambda>e. normalizeTerminalEncoding (Some e) = Some e) terminalEncodingOptions"
    by code_simp
  then show "e \<in> set terminalEncodingOptions \<Longrightarrow> normalizeTerminalEncoding (Some e) = Some e"
    by (simp add: list_all_iff)
qed

lemma normalizeTerminalEncoding_range: "\<exists>e \<in> set terminalEncodingOptions. normalizeTerminalEncoding v = Some e"
proof -
  define n where "n = map (\<lambda>c. if c = CHR ''_'' then CHR ''-'' else c) (toLowerCase (js_trim (case v of None \<Rightarrow> [] | Some s \<Rightarrow> s)))"
  have eq: "normalizeTerminalEncoding v = or_str (find (\<lambda>item. item = n) terminalEncodingOptions) (Some ''utf-8'')"
    by (simp add: normalizeTerminalEncoding_def n_def Let_def defaultAdvancedConfig_def)
  show ?thesis
  proof (cases "find (\<lambda>item. item = n) terminalEncodingOptions")
    case None
    then show ?thesis
      by (simp add: eq or_str_def terminalEncodingOptions_def)
  next
    case (Some e)
    then have e: "e \<in> set terminalEncodingOptions"
      by (auto dest: find_SomeD)
    then have "e \<noteq> []"
      by (auto simp: terminalEncodingOptions_def)
    then show ?thesis
      using Some e by (auto simp: eq or_str_def truthy_def)
  qed
qed

lemma normalizeTerminalEncoding_idem [simp]: "normalizeTerminalEncoding (normalizeTerminalEncoding v) = normalizeTerminalEncoding v"
  using normalizeTerminalEncoding_range [of v] encoding_fixed by auto

lemma or_str_trim_idem [simp]:
  "or_str (map_option js_trim (or_str (map_option js_trim a) (Some []))) (Some []) = or_str (map_option js_trim a) (Some [])"
  by (cases a) (auto simp: or_str_def truthy_def)

lemma normalizeSerialConfig_idem: "normalizeSerialConfig (Some (normalizeSerialConfig s)) = normalizeSerialConfig s"
  by (simp add: normalizeSerialConfig_def Let_def)

lemma level_or_idem [simp]: "level_or (level_or n (Some (Finite 7))) (Some (Finite 7)) = level_or n (Some (Finite 7))"
    "level_or (level_or n (Some (Finite 0))) (Some (Finite 0)) = level_or n (Some (Finite 0))"
  by (cases n; simp add: level_or_def)+

lemma normalizeVncConfig_idem: "normalizeVncConfig (Some (normalizeVncConfig v)) = normalizeVncConfig v"
  by (simp add: normalizeVncConfig_def Let_def defaultVncConfig_def)

lemma mode_cases:
  obtains "m = Some w" | "m \<noteq> Some w" "truthy m = None" | s where "m = Some s" "s \<noteq> w" "s \<noteq> []"
proof (cases m)
  case (Some s)
  then show ?thesis
    using that by (cases "s = w"; cases "s = []") (simp_all add: truthy_def)
qed (simp add: that)

lemma normalizeRdpConfig_idem: "normalizeRdpConfig platform (Some (normalizeRdpConfig platform r)) = normalizeRdpConfig platform r"
proof -
  let ?m = "Option.bind (rc_display (case r of None \<Rightarrow> defaultRdpConfig | Some r \<Rightarrow> r)) rdd_mode"
  show ?thesis
  proof (cases ?m "''windowed''" rule: mode_cases)
    case 1
    then show ?thesis
      by (simp add: normalizeRdpConfig_def Let_def defaultRdpConfig_def or_str_def [of "Some _"] to_bool_def)
  next
    case 2
    then have "or_str ?m (Some ''embedded'') = Some ''embedded''" "?m \<noteq> Some ''all_monitors''"
      by (auto simp: or_str_def truthy_def)
    with 2 show ?thesis
      by (simp add: normalizeRdpConfig_def Let_def defaultRdpConfig_def or_str_def [of "Some _"] to_bool_def)
  next
    case (3 s)
    then have "or_str ?m (Some ''embedded'') = Some s"
      by (auto simp: or_str_def truthy_def)
    with 3 show ?thesis
      by (simp add: normalizeRdpConfig_def Let_def defaultRdpConfig_def to_bool_def)
  qed
qed

section \<open>Idempotence of an input\<close>

lemma port_or_idem [simp]: "d \<noteq> 0 \<Longrightarrow> port_or (port_or n d) d = port_or n d"
  by (auto simp: port_or_def)

lemma normalize_proxy_idem: "normalize_proxy (Some (normalize_proxy p)) = normalize_proxy p"
  by (auto simp: normalize_proxy_def no_proxy_def Let_def num_truthy_def or_str_def [of "Some _"])

lemma normalize_advanced_idem: "normalize_advanced (Some (normalize_advanced a)) = normalize_advanced a"
  by (simp add: normalize_advanced_def)

text \<open>The fields a branch may change after \<open>shared_fields\<close> do not matter to it when it is applied again.\<close>

lemma kept_group_idem [simp]: "kept_group (trim_opt gid) (kept_group gid g) = kept_group gid g"
proof (cases "truthy gid")
  case None
  then have "trim_opt gid = None"
    by (cases gid) (auto simp: trim_opt_def truthy_def split: if_splits)
  with None show ?thesis
    by (simp add: kept_group_def)
qed (simp add: kept_group_def)

lemma touched_idem [simp]: "touched (Some b) s = b"
  by (simp add: touched_def)

lemma or_str_nonempty: "d \<noteq> [] \<Longrightarrow> \<exists>m. m \<noteq> [] \<and> or_str a (Some d) = Some m"
  by (cases a) (auto simp: or_str_def truthy_def)

lemma or_str_Some [simp]: "m \<noteq> [] \<Longrightarrow> or_str (Some m) b = Some m"
  by (simp add: or_str_def truthy_def)

lemma trim_or_str [simp]: "trim_opt (or_str (trim_opt a) None) = trim_opt a"
  by (cases a) (auto simp: trim_opt_def or_str_def truthy_def)

lemma or_str_nonempty2: "d \<noteq> [] \<Longrightarrow> \<exists>m. m \<noteq> [] \<and> or_str a (or_str b (Some d)) = Some m"
  using or_str_nonempty [of d b] or_str_nonempty [of _ a] by metis

lemma desktop_credentials_idem: "desktop_credentials (desktop_credentials i) = desktop_credentials i"
proof -
  obtain m where m: "m \<noteq> []" "or_str (cr_credential_mode i) (Some ''prompt'') = Some m"
    using or_str_nonempty [of "''prompt''" "cr_credential_mode i"] by auto
  show ?thesis
    using m by (simp add: desktop_credentials_def Let_def no_credentials_def)
qed

lemma ssh_credentials_idem: "ssh_credentials (ssh_credentials i) = ssh_credentials i"
proof -
  obtain m where m: "m \<noteq> []" "or_str (cr_credential_mode i) (Some ''inline'') = Some m"
    using or_str_nonempty [of "''inline''" "cr_credential_mode i"] by auto
  obtain k where k: "k \<noteq> []" "or_str (cr_inline_auth_kind i) (or_str (cr_auth_kind i)
      (Some (if truthy (cr_private_key_path i) \<noteq> None then ''private_key'' else ''password''))) = Some k"
    using or_str_nonempty2 [of "if truthy (cr_private_key_path i) \<noteq> None then ''private_key'' else ''password''"
        "cr_inline_auth_kind i" "cr_auth_kind i"] by (metis list.distinct(1))
  obtain q where q: "q \<noteq> []" "or_str (cr_prompt_auth_kind i) (or_str (cr_auth_kind i) (Some ''password'')) = Some q"
    using or_str_nonempty2 [of "''password''"] by auto
  show ?thesis
    unfolding ssh_credentials_def Let_def k(2) m(2) q(2)
    using m(1) k(1) q(1) by (simp add: no_credentials_def)
qed

lemmas branch_defs = shared_fields_def with_system_def Let_def

lemma telnet_input_idem: "normalize_telnet_input (normalize_telnet_input i) = normalize_telnet_input i"
  by (simp add: normalize_telnet_input_def normalizeTelnetConfig_idem branch_defs)

lemma serial_name_idem:
  "js_trim p = p \<Longrightarrow> normalizeSerialConfig (Some ((normalizeSerialConfig s)\<lparr>sr_port_name := Some p\<rparr>)) =
    (normalizeSerialConfig s)\<lparr>sr_port_name := Some p\<rparr>"
  by (cases "p = []") (simp_all add: normalizeSerialConfig_def Let_def, simp add: or_str_def)

lemma serial_name_trimmed: "sr_port_name (normalizeSerialConfig s) = Some p \<Longrightarrow> js_trim p = p"
  by (auto simp: normalizeSerialConfig_def Let_def or_str_def truthy_def split: option.splits if_splits)

lemma serial_input_idem: "normalize_serial_input (normalize_serial_input i) = normalize_serial_input i"
proof -
  define p where "p = (case truthy (sr_port_name (normalizeSerialConfig (in_serial i))) of Some p \<Rightarrow> p | None \<Rightarrow> js_trim (in_host i))"
  have trim: "js_trim p = p"
    by (auto simp: p_def truthy_eq_Some intro: serial_name_trimmed split: option.splits)
  have out: "normalize_serial_input i = (shared_fields i)\<lparr>in_protocol := Some ''serial'', in_host := p, in_port := Finite 1,
      in_serial := Some ((normalizeSerialConfig (in_serial i))\<lparr>sr_port_name := Some p\<rparr>)\<rparr>"
    by (simp add: normalize_serial_input_def Let_def p_def)
  have "(case truthy (Some p) of Some p \<Rightarrow> p | None \<Rightarrow> p) = p"
    by (auto split: option.splits simp: truthy_eq_Some)
  then show ?thesis
    unfolding out by (simp add: normalize_serial_input_def serial_name_idem trim branch_defs cong: option.case_cong)
qed

lemma vnc_input_idem: "normalize_vnc_input (normalize_vnc_input i) = normalize_vnc_input i"
  by (simp add: normalize_vnc_input_def normalizeVncConfig_idem desktop_credentials_idem branch_defs)

lemma rdp_input_idem: "normalize_rdp_input platform (normalize_rdp_input platform i) = normalize_rdp_input platform i"
  by (simp add: normalize_rdp_input_def normalizeRdpConfig_idem desktop_credentials_idem branch_defs)

lemma ssh_input_idem: "normalize_ssh_input (normalize_ssh_input i) = normalize_ssh_input i"
  by (simp add: normalize_ssh_input_def normalize_proxy_idem normalizeJumpConfig_idem normalize_advanced_idem
      ssh_credentials_idem branch_defs)

text \<open>
  C33. Normalising is stable: an input that has been normalised, for any protocol, is left as it is
  when it is normalised again, so saving a connection once more without a change stores the same
  fields.
\<close>

theorem connection_input_is_stable:
  "normalizeConnectionInput platform (normalizeConnectionInput platform i) = normalizeConnectionInput platform i"
proof -
  let ?p = "or_str (in_protocol i) (Some ''ssh'')"
  have protocols: "in_protocol (normalize_rdp_input platform i) = Some ''rdp''" "in_protocol (normalize_vnc_input i) = Some ''vnc''"
      "in_protocol (normalize_telnet_input i) = Some ''telnet''" "in_protocol (normalize_serial_input i) = Some ''serial''"
      "in_protocol (normalize_ssh_input i) = Some ''ssh''"
    by (simp_all add: normalize_rdp_input_def normalize_vnc_input_def normalize_telnet_input_def normalize_serial_input_def
        normalize_ssh_input_def Let_def)
  consider "?p = Some ''rdp''" | "?p = Some ''vnc''" | "?p = Some ''telnet''" | "?p = Some ''serial''" |
      "?p \<notin> {Some ''rdp'', Some ''vnc'', Some ''telnet'', Some ''serial''}"
    by auto
  then show ?thesis
    by cases (simp_all add: normalizeConnectionInput_def Let_def protocols rdp_input_idem vnc_input_idem telnet_input_idem
        serial_input_idem ssh_input_idem)
qed

definition secrets_placed :: "credential_fields \<Rightarrow> bool" where
  "secrets_placed c \<longleftrightarrow>
     (cr_inline_password c \<noteq> None \<longrightarrow> cr_credential_mode c = Some ''inline'' \<and> cr_inline_auth_kind c = Some ''password'' \<and>
        cr_inline_password_touched c = Some True) \<and>
     (cr_inline_private_key_path c \<noteq> None \<or> cr_inline_private_key_passphrase c \<noteq> None \<longrightarrow>
        cr_credential_mode c = Some ''inline'' \<and> cr_inline_auth_kind c = Some ''private_key'') \<and>
     (cr_credential_id c \<noteq> None \<longrightarrow> cr_credential_mode c = Some ''saved'') \<and>
     cr_auth_kind c = None \<and> cr_password c = None \<and> cr_private_key_path c = None \<and> cr_private_key_passphrase c = None"

lemma secrets_placed_branches [simp]:
  "secrets_placed (ssh_credentials c)" "secrets_placed (desktop_credentials c)" "secrets_placed no_credentials"
  by (auto simp: secrets_placed_def ssh_credentials_def desktop_credentials_def no_credentials_def Let_def)

text \<open>
  C32. Credentials never leave their mode: whatever fields the form carried, the stored input has a
  password only in inline mode with password authentication, a private key and its passphrase only
  in inline mode with key authentication, a saved credential only in saved mode, and none of the
  superseded secret fields; Telnet and serial connections have no secret at all, and only the
  configuration of its own protocol is kept.
\<close>

theorem credentials_stay_in_their_mode:
  "let out = normalizeConnectionInput platform i; protocol = in_protocol out in
     secrets_placed (in_credentials out) \<and>
     (in_credentials out = no_credentials \<or> protocol \<in> {Some ''ssh'', Some ''rdp'', Some ''vnc''}) \<and>
     (in_rdp out \<noteq> None) = (protocol = Some ''rdp'') \<and> (in_vnc out \<noteq> None) = (protocol = Some ''vnc'') \<and>
     (in_telnet out \<noteq> None) = (protocol = Some ''telnet'') \<and> (in_serial out \<noteq> None) = (protocol = Some ''serial'')"
  by (simp add: normalizeConnectionInput_def Let_def normalize_rdp_input_def normalize_vnc_input_def
      normalize_telnet_input_def normalize_serial_input_def normalize_ssh_input_def shared_fields_def with_system_def)

section \<open>The list keeps its promises\<close>

definition connections_ok :: "connection_list \<Rightarrow> bool" where
  "connections_ok v \<longleftrightarrow> distinct (map pf_id (cl_connections v)) \<and> (cl_loading v \<longrightarrow> ListRequest \<in> set (cl_requests v))"

text \<open>The desktop process lists every connection once.\<close>

fun answer_ok :: "connection_event \<Rightarrow> bool" where
  "answer_ok (Answer n (Listed items)) \<longleftrightarrow> distinct (map pf_id items)"
| "answer_ok _ \<longleftrightarrow> True"

lemma ids_replace [simp]: "map pf_id (replace_profile p items) = map pf_id items"
  by (auto simp: replace_profile_def)

lemma ids_upsert: "distinct (map pf_id items) \<Longrightarrow> distinct (map pf_id (upsert_profile p items))"
  by (auto simp: upsert_profile_def list_ex_iff)

lemma ids_changed [simp]:
  "pf_id \<circ> (\<lambda>item. if pf_id item \<noteq> i then item else item\<lparr>pf_is_favorite := b, pf_updated_at := now\<rparr>) = pf_id"
  "pf_id \<circ> (\<lambda>item. if pf_id item \<noteq> i then item else item\<lparr>pf_last_connected_at := t\<rparr>) = pf_id"
  by (rule ext, simp)+

lemma reload_ok: "distinct (map pf_id demo) \<Longrightarrow> distinct (map pf_id (cl_connections v)) \<Longrightarrow>
    connections_ok (reload_connections isTauri enabled demo v)"
  by (auto simp: connections_ok_def reload_connections_def send_request_def Let_def)

lemma other_request_kept:
  assumes "ListRequest \<in> set rs" "n < length rs" "rs ! n \<noteq> ListRequest"
  shows "ListRequest \<in> set (take n rs) \<or> ListRequest \<in> set (drop (Suc n) rs)"
  using assms by (metis Un_iff id_take_nth_drop list.set(2) insert_iff set_append)

lemma connection_step_ok:
  assumes "distinct (map pf_id (ho_demo h))" "connections_ok v" "answer_ok e"
  shows "connections_ok (connection_step h v e)"
proof (cases e)
  case (Answer n answer)
  show ?thesis
  proof (cases "n < length (cl_requests v) \<and> fits (cl_requests v ! n) answer")
    case True
    then show ?thesis
      using assms other_request_kept [of "cl_requests v" n] Answer
      by (cases answer; cases "cl_requests v ! n")
        (auto simp: connections_ok_def connection_answered_def ids_upsert intro!: reload_ok [unfolded connections_ok_def])
  next
    case False
    then show ?thesis
      using assms Answer by auto
  qed
qed (use assms in \<open>auto simp: connections_ok_def upsert_connection_def setFavorite_def markConnected_def probeSystem_def
    remove_connection_def send_request_def reload_connections_def Let_def ids_upsert distinct_map_filter
    split: if_splits\<close>)

lemma connection_run_ok:
  assumes "distinct (map pf_id (ho_demo h))" "connections_ok v" "list_all answer_ok events"
  shows "connections_ok (foldl (connection_step h) v events)"
  using assms(2,3) by (induction events arbitrary: v) (auto intro: connection_step_ok [OF assms(1)])

text \<open>
  Whatever is saved, changed, deleted and reloaded, and in whatever order the answers arrive:
  the list never holds two connections with one id, and the hook shows that it is loading only
  while a request for the list is on its way, so it never loads forever once requests are answered.
\<close>

theorem connection_ids_stay_unique:
  assumes "distinct (map pf_id (ho_demo h))" "list_all answer_ok events"
  defines "v \<equiv> foldl (connection_step h) (initial_connections h) events"
  shows "distinct (map pf_id (cl_connections v)) \<and> (cl_loading v \<longrightarrow> ListRequest \<in> set (cl_requests v))"
proof -
  have "connections_ok (initial_connections h)"
    unfolding initial_connections_def by (rule reload_ok) (use assms(1) in auto)
  then have "connections_ok v"
    unfolding v_def by (rule connection_run_ok [OF assms(1) _ assms(2)])
  then show ?thesis
    by (simp add: connections_ok_def)
qed

definition sample_input :: "string \<Rightarrow> ConnectionProfileInput" where
  "sample_input password =
     \<lparr>in_id = Some ''c1'', in_source_connection_id = None, in_protocol = None, in_name = Some ''web'', in_group = None,
      in_group_id = None, in_host = ''10.0.0.1'', in_port = Finite 22, in_username = ''root'',
      in_credentials = no_credentials\<lparr>cr_credential_mode := Some ''inline'', cr_inline_password := Some password,
        cr_inline_password_touched := Some True\<rparr>,
      in_proxy = None, in_jump = None, in_advanced = None, in_rdp = None, in_vnc = None, in_telnet = None, in_serial = None,
      in_notes = None, in_is_favorite = None, in_last_connected_at = None, in_remote_os_id = None,
      in_remote_os_name = None, in_remote_os_version = None\<rparr>"

definition sample_saved_connection :: ConnectionProfile where
  "sample_saved_connection = \<lparr>pf_id = ''c1'', pf_name = ''web'', pf_is_favorite = False, pf_last_connected_at = None,
     pf_created_at = [], pf_updated_at = [], pf_input = sample_input ''x''\<rparr>"

definition sample_host :: connection_host where
  "sample_host = \<lparr>ho_isTauri = True, ho_enabled = True, ho_demo = [], ho_platform = ''linux'', ho_tr = (\<lambda>s. s),
     ho_numberText = (\<lambda>_. [])\<rparr>"

text \<open>A password is trimmed like a name, so one that ends in a space is stored as another password.\<close>

theorem password_is_trimmed:
  "cr_inline_password (in_credentials (normalizeConnectionInput ''linux'' (sample_input ''pass ''))) = Some ''pass''"
  by code_simp

text \<open>
  A list that was read before a deletion but arrives after it brings the deleted connection back;
  the deletion then succeeds and nothing removes it again.
\<close>

theorem deleted_connection_returns:
  "map pf_id (cl_connections (foldl (connection_step sample_host) (initial_connections sample_host)
     [Answer 0 (Listed [sample_saved_connection]), Reload, Remove ''c1'', Answer 0 (Listed [sample_saved_connection]), Answer 0 Deleted])) = [''c1'']"
  by code_simp

theorem connection_ids_stay_unique_witness:
  "distinct (map pf_id (cl_connections (foldl (connection_step sample_host) (initial_connections sample_host)
     [Answer 0 (Listed [sample_saved_connection]), Upsert (sample_input ''x'') 0, Answer 0 (Saved sample_saved_connection)])))"
proof -
  have "distinct (map pf_id (ho_demo sample_host))"
      "list_all answer_ok [Answer 0 (Listed [sample_saved_connection]), Upsert (sample_input ''x'') 0, Answer 0 (Saved sample_saved_connection)]"
    by (simp_all add: sample_host_def)
  from connection_ids_stay_unique [OF this] show ?thesis
    by blast
qed

end
