(* ===== verification/Connection_Search.thy ===== *)
theory Connection_Search
  imports Terminal_Input
begin

text \<open>
  The search over the saved connections (\<open>features/connections/connectionSearch.ts\<close>): the terms of
  a query, the text of a connection they are looked for in, the score and the order of the results.
  Texts are lists of UTF-16 code units, of which \<open>toLowerCase\<close> changes the ASCII letters only: a name
  or a query with other capital letters is searched as it stands, where the code would lower it. The
  translations, the comparison of names in the language of the host, the parser of dates and the time
  are arguments; numbers are rationals. The code reads the time at each comparison of the sort, the
  model once for the whole search.
\<close>

section \<open>Connections and queries\<close>

record search_connection =
  sc_name :: code_units
  sc_protocol :: "code_units option"
  sc_host :: code_units
  sc_port :: nat
  sc_username :: code_units
  sc_group :: "code_units option"
  sc_notes :: "code_units option"
  sc_remote_os_id :: "code_units option"
  sc_remote_os_name :: "code_units option"
  sc_remote_os_version :: "code_units option"
  sc_serial_port_name :: "code_units option"
  sc_is_favorite :: bool
  sc_last_connected_at :: "code_units option"
  sc_created_at :: code_units

text \<open>What the host provides.\<close>

record search_host =
  sh_tr :: "string \<Rightarrow> code_units"
  sh_localeCompare :: "code_units \<Rightarrow> code_units \<Rightarrow> rat"
  sh_dateParse :: "code_units \<Rightarrow> rat option"
  sh_now :: rat

definition or_units :: "code_units option \<Rightarrow> code_units \<Rightarrow> code_units" where
  "or_units a b = (case a of None \<Rightarrow> b | Some s \<Rightarrow> if s = [] then b else s)"

definition lower_text :: "code_units \<Rightarrow> code_units" where
  "lower_text s = map lower_unit s"

text \<open>\<open>split\<close> at runs of white space.\<close>

function split_spaces :: "code_units \<Rightarrow> code_units list" where
  "split_spaces s =
     (let w = takeWhile (\<lambda>u. \<not> is_space u) s; rest = dropWhile (\<lambda>u. \<not> is_space u) s
      in if rest = [] then [w] else w # split_spaces (dropWhile is_space rest))"
  by pat_completeness auto
termination split_spaces
proof (relation "measure length")
  fix s w rest :: code_units
  assume "rest = dropWhile (\<lambda>u. \<not> is_space u) s" "rest \<noteq> []"
  then have "is_space (hd rest)" "length rest \<le> length s"
    using hd_dropWhile length_dropWhile_le by blast+
  then have "length (dropWhile is_space rest) < length s"
    using \<open>rest \<noteq> []\<close> length_dropWhile_le [of is_space "tl rest"] by (cases rest) auto
  then show "(dropWhile is_space rest, s) \<in> measure length"
    by simp
qed simp

declare split_spaces.simps [simp del]

definition normalizeConnectionSearchTerms :: "code_units \<Rightarrow> code_units list" where
  "normalizeConnectionSearchTerms query = filter (\<lambda>t. t \<noteq> []) (split_spaces (lower_text (trim_units query)))"

section \<open>The text of a connection\<close>

record ConnectionSearchFields =
  sf_address :: code_units
  sf_groupLabel :: code_units
  sf_metaLabel :: code_units
  sf_name :: code_units
  sf_searchText :: code_units

record ConnectionSearchEntry =
  se_address :: code_units
  se_connection :: search_connection
  se_groupLabel :: code_units
  se_metaLabel :: code_units
  se_score :: nat

definition middle_dot :: code_units where "middle_dot = [0x20, 0xB7, 0x20]"

definition protocol_of :: "search_connection \<Rightarrow> code_units" where
  "protocol_of c = or_units (sc_protocol c) (units ''ssh'')"

definition formatConnectionAddress :: "search_host \<Rightarrow> search_connection \<Rightarrow> code_units" where
  "formatConnectionAddress h c =
     (let place = sc_host c @ units '':'' @ units (nat_str (sc_port c));
          address = (if sc_username c \<noteq> [] then sc_username c @ units ''@'' @ place else place);
          protocol = protocol_of c
      in if protocol = units ''rdp'' then units ''RDP'' @ middle_dot @ address
         else if protocol = units ''vnc'' then units ''VNC'' @ middle_dot @ address
         else if protocol = units ''telnet'' then units ''Telnet'' @ middle_dot @ place
         else if protocol = units ''serial'' then
           sh_tr h ''connection.search.serial'' @ middle_dot @ or_units (sc_serial_port_name c) (sc_host c)
         else address)"

definition buildConnectionSearchFields :: "search_host \<Rightarrow> search_connection \<Rightarrow> ConnectionSearchFields" where
  "buildConnectionSearchFields h c =
     (let address = formatConnectionAddress h c;
          groupLabel = or_units (map_option trim_units (sc_group c)) (sh_tr h ''connection.search.ungrouped'');
          systemLabel = join_with (units '' '') (filter (\<lambda>s. s \<noteq> [])
            (map (\<lambda>v. case v of None \<Rightarrow> [] | Some s \<Rightarrow> trim_units s) [sc_remote_os_name c, sc_remote_os_version c]));
          metaLabel = join_with middle_dot (filter (\<lambda>s. s \<noteq> []) [groupLabel, systemLabel]);
          name = trim_units (sc_name c)
      in \<lparr>sf_address = address, sf_groupLabel = groupLabel, sf_metaLabel = metaLabel, sf_name = name,
          sf_searchText = lower_text (join_with [0x0A]
            [name, protocol_of c, sc_host c, units (nat_str (sc_port c)), sc_username c, address, groupLabel,
             or_units (sc_notes c) [], or_units (sc_remote_os_id c) [], or_units (sc_remote_os_name c) [],
             or_units (sc_remote_os_version c) []])\<rparr>)"

definition term_score :: "search_connection \<Rightarrow> ConnectionSearchFields \<Rightarrow> code_units \<Rightarrow> nat" where
  "term_score c f t =
     (let name = lower_text (sf_name f); host = lower_text (sc_host c); address = lower_text (sf_address f);
          username = lower_text (sc_username c); group = lower_text (sf_groupLabel f); notes = lower_text (or_units (sc_notes c) []);
          system = lower_text (join_with (units '' '') (map (\<lambda>v. case v of None \<Rightarrow> [] | Some s \<Rightarrow> s)
            [sc_remote_os_id c, sc_remote_os_name c, sc_remote_os_version c]))
      in if prefix t name then 120
         else if js_includes t name then 90
         else if js_includes t host then 70
         else if js_includes t address then 65
         else if js_includes t username then 50
         else if js_includes t group then 45
         else if js_includes t notes then 25
         else if js_includes t system then 20
         else 0)"

definition scoreConnectionSearchResult :: "search_connection \<Rightarrow> ConnectionSearchFields \<Rightarrow> code_units list \<Rightarrow> nat" where
  "scoreConnectionSearchResult c f terms =
     (if terms = [] then (if sc_is_favorite c then 1 else 0)
      else foldl (\<lambda>score t. score + term_score c f t) (if sc_is_favorite c then 6 else 0) terms)"

definition buildConnectionSearchEntry :: "search_host \<Rightarrow> code_units list \<Rightarrow> search_connection \<Rightarrow> ConnectionSearchEntry option" where
  "buildConnectionSearchEntry h terms c =
     (let fields = buildConnectionSearchFields h c
      in if \<not> list_all (\<lambda>t. js_includes t (sf_searchText fields)) terms then None
         else Some \<lparr>se_address = sf_address fields, se_connection = c, se_groupLabel = sf_groupLabel fields,
           se_metaLabel = sf_metaLabel fields, se_score = scoreConnectionSearchResult c fields terms\<rparr>)"

section \<open>The order\<close>

text \<open>A text of digits beyond the range of a double is infinite.\<close>

definition connectionTimestampOf :: "search_host \<Rightarrow> code_units option \<Rightarrow> rat" where
  "connectionTimestampOf h v =
     (let trimmed = (case v of None \<Rightarrow> [] | Some s \<Rightarrow> trim_units s); normalized = lower_text trimmed
      in if trimmed = [] then 0
         else if normalized = units ''demo'' \<or> normalized = units ''preview'' then sh_now h
         else if list_all (\<lambda>u. 0x30 \<le> u \<and> u \<le> 0x39) normalized then
           let numeric = (of_nat (foldl (\<lambda>acc u. 10 * acc + (unat u - 48)) 0 normalized) :: rat)
           in if 2 ^ 1024 - 2 ^ 970 \<le> numeric then 0 else if numeric < 1000000000000 then numeric * 1000 else numeric
         else case sh_dateParse h trimmed of None \<Rightarrow> 0 | Some t \<Rightarrow> t)"

definition sortConnectionsByRecent :: "search_host \<Rightarrow> search_connection \<Rightarrow> search_connection \<Rightarrow> rat" where
  "sortConnectionsByRecent h left right =
     (let rightConnectedAt = connectionTimestampOf h (sc_last_connected_at right);
          leftConnectedAt = connectionTimestampOf h (sc_last_connected_at left);
          createdDiff = connectionTimestampOf h (Some (sc_created_at right)) - connectionTimestampOf h (Some (sc_created_at left))
      in if rightConnectedAt \<noteq> leftConnectedAt then rightConnectedAt - leftConnectedAt
         else if createdDiff \<noteq> 0 then createdDiff
         else sh_localeCompare h (sc_name left) (sc_name right))"

definition compareConnectionSearchEntries :: "search_host \<Rightarrow> bool \<Rightarrow> ConnectionSearchEntry \<Rightarrow> ConnectionSearchEntry \<Rightarrow> rat" where
  "compareConnectionSearchEntries h hasQuery left right =
     (if hasQuery \<and> se_score left \<noteq> se_score right then of_nat (se_score right) - of_nat (se_score left)
      else sortConnectionsByRecent h (se_connection left) (se_connection right))"

definition defaultConnectionSearchLimit :: nat where "defaultConnectionSearchLimit = 50"

definition buildConnectionSearchEntries :: "search_host \<Rightarrow> search_connection list \<Rightarrow> code_units \<Rightarrow> nat \<Rightarrow> ConnectionSearchEntry list" where
  "buildConnectionSearchEntries h connections query limit =
     (let terms = normalizeConnectionSearchTerms query
      in take limit (js_sort (compareConnectionSearchEntries h (terms \<noteq> []))
           (List.map_filter (buildConnectionSearchEntry h terms) connections)))"

section \<open>The results\<close>

text \<open>The comparison of names orders them: it is total, and what follows follows.\<close>

definition orders_names :: "search_host \<Rightarrow> bool" where
  "orders_names h \<longleftrightarrow>
     (\<forall>x y. sh_localeCompare h x y \<le> 0 \<or> sh_localeCompare h y x \<le> 0) \<and>
     (\<forall>x y z. sh_localeCompare h x y \<le> 0 \<longrightarrow> sh_localeCompare h y z \<le> 0 \<longrightarrow> sh_localeCompare h x z \<le> 0)"

lemma recent_total: "orders_names h \<Longrightarrow> sortConnectionsByRecent h x y \<le> 0 \<or> sortConnectionsByRecent h y x \<le> 0"
  by (auto simp: sortConnectionsByRecent_def Let_def orders_names_def)

lemma recent_trans:
  "orders_names h \<Longrightarrow> sortConnectionsByRecent h x y \<le> 0 \<Longrightarrow> sortConnectionsByRecent h y z \<le> 0 \<Longrightarrow> sortConnectionsByRecent h x z \<le> 0"
  unfolding sortConnectionsByRecent_def Let_def orders_names_def by (auto split: if_splits)

lemma entries_total:
  "orders_names h \<Longrightarrow> compareConnectionSearchEntries h q x y \<le> 0 \<or> compareConnectionSearchEntries h q y x \<le> 0"
  using recent_total by (auto simp: compareConnectionSearchEntries_def)

lemma entries_trans:
  assumes "orders_names h" "compareConnectionSearchEntries h q x y \<le> 0" "compareConnectionSearchEntries h q y z \<le> 0"
  shows "compareConnectionSearchEntries h q x z \<le> 0"
proof (cases q)
  case True
  have "se_score y \<le> se_score x" "se_score z \<le> se_score y"
    using assms(2,3) True by (auto simp: compareConnectionSearchEntries_def split: if_splits)
  then consider "se_score z < se_score x" | "se_score x = se_score y" "se_score y = se_score z"
    by linarith
  then show ?thesis
  proof cases
    case 2
    then show ?thesis
      using assms recent_trans [OF assms(1)] by (simp add: compareConnectionSearchEntries_def)
  qed (simp add: True compareConnectionSearchEntries_def)
next
  case False
  then show ?thesis
    using assms recent_trans [OF assms(1)] by (simp add: compareConnectionSearchEntries_def)
qed

definition matches_query :: "search_host \<Rightarrow> code_units \<Rightarrow> search_connection \<Rightarrow> bool" where
  "matches_query h query c \<longleftrightarrow>
     list_all (\<lambda>t. js_includes t (sf_searchText (buildConnectionSearchFields h c))) (normalizeConnectionSearchTerms query)"

lemma matching_entries:
  "map se_connection (List.map_filter (buildConnectionSearchEntry h (normalizeConnectionSearchTerms query)) cs) = filter (matches_query h query) cs"
  by (induction cs) (auto simp: List.map_filter_def buildConnectionSearchEntry_def matches_query_def Let_def)

text \<open>
  C35. The search returns the best matches: at most as many entries as the limit, in order, each of
  a connection whose text contains every term of the query; and a matching connection that is not
  shown was cut off by the limit, with every entry shown ordered no later than it.
\<close>

theorem search_returns_best_matches:
  fixes h :: search_host and connections :: "search_connection list" and query :: code_units and limit :: nat
  assumes "orders_names h"
  defines "shown \<equiv> buildConnectionSearchEntries h connections query limit"
    and "cmp \<equiv> compareConnectionSearchEntries h (normalizeConnectionSearchTerms query \<noteq> [])"
  shows "\<exists>hidden. mset (map se_connection (shown @ hidden)) = mset (filter (matches_query h query) connections) \<and>
    sorted_wrt (\<lambda>x y. cmp x y \<le> 0) (shown @ hidden) \<and> length shown \<le> limit \<and> (hidden = [] \<or> length shown = limit)"
proof -
  let ?es = "List.map_filter (buildConnectionSearchEntry h (normalizeConnectionSearchTerms query)) connections"
  let ?sorted = "js_sort cmp ?es"
  have shown: "shown = take limit ?sorted"
    by (simp add: shown_def cmp_def buildConnectionSearchEntries_def Let_def)
  have "sorted_wrt (\<lambda>x y. cmp x y \<le> 0) ?sorted"
    unfolding cmp_def by (rule sorted_js_sort) (use entries_total [OF assms(1)] entries_trans [OF assms(1)] in blast)+
  moreover have "mset (map se_connection ?sorted) = mset (filter (matches_query h query) connections)"
    by (simp flip: matching_entries)
  ultimately show ?thesis
    by (intro exI [of _ "drop limit ?sorted"]) (auto simp: shown min_def)
qed

definition sample_search_host :: search_host where
  "sample_search_host = \<lparr>sh_tr = units, sh_localeCompare = (\<lambda>_ _. 0), sh_dateParse = (\<lambda>_. None), sh_now = 0\<rparr>"

definition sample_search_connection :: "string \<Rightarrow> search_connection" where
  "sample_search_connection name = \<lparr>sc_name = units name, sc_protocol = None, sc_host = units ''10.0.0.1'', sc_port = 22,
     sc_username = units ''root'', sc_group = None, sc_notes = None, sc_remote_os_id = None, sc_remote_os_name = None,
     sc_remote_os_version = None, sc_serial_port_name = None, sc_is_favorite = False, sc_last_connected_at = None, sc_created_at = []\<rparr>"

theorem search_returns_best_matches_witness:
  "\<exists>hidden. mset (map se_connection (buildConnectionSearchEntries sample_search_host
     [sample_search_connection ''web'', sample_search_connection ''db''] (units ''WEB root'') 50 @ hidden)) =
     {#sample_search_connection ''web''#}"
proof -
  have "orders_names sample_search_host"
    by (simp add: orders_names_def sample_search_host_def)
  moreover have "filter (matches_query sample_search_host (units ''WEB root''))
      [sample_search_connection ''web'', sample_search_connection ''db''] = [sample_search_connection ''web'']"
    by code_simp
  ultimately show ?thesis
    using search_returns_best_matches [of sample_search_host "[sample_search_connection ''web'', sample_search_connection ''db'']"
        "units ''WEB root''" 50] by auto
qed

end
