(* ===== verification/Quick_Connect.thy ===== *)
theory Quick_Connect
  imports Terminal_Osc
begin

text \<open>
  The address typed into the quick connection field (\<open>features/connections/quickConnect.ts\<close>): which
  texts are an SSH target, and the profile of a temporary connection. Texts are lists of UTF-16 code
  units. The parser of URLs belongs to the platform and is an argument: \<open>None\<close> when it throws. A
  result of \<open>None\<close> is the \<open>URIError\<close> of \<open>encodeURIComponent\<close>, which is caught only for a URL.
\<close>

section \<open>Escapes\<close>

definition unreserved :: "16 word \<Rightarrow> bool" where
  "unreserved u \<longleftrightarrow> word_unit u \<or> u \<in> set (units ''-.!~*()'') \<or> u = 0x27"

definition hex_unit :: "nat \<Rightarrow> 16 word" where
  "hex_unit n = of_nat (if n < 10 then 48 + n else 55 + n)"

definition octet :: "nat \<Rightarrow> code_units" where
  "octet b = [0x25, hex_unit (b div 16), hex_unit (b mod 16)]"

function encodeURIComponent :: "code_units \<Rightarrow> code_units option" where
  "encodeURIComponent [] = Some []"
| "encodeURIComponent (u # s) =
     (if unreserved u then map_option (Cons u) (encodeURIComponent s)
      else if 0xDC00 \<le> u \<and> u \<le> 0xDFFF then None
      else if 0xD800 \<le> u \<and> u \<le> 0xDBFF then
        (case s of
           [] \<Rightarrow> None
         | v # t \<Rightarrow>
             if 0xDC00 \<le> v \<and> v \<le> 0xDFFF then
               map_option ((@) (concat (map octet (utf8_octets (0x10000 + (unat u - 0xD800) * 1024 + (unat v - 0xDC00))))))
                 (encodeURIComponent t)
             else None)
      else map_option ((@) (concat (map octet (utf8_octets (unat u))))) (encodeURIComponent s))"
  by pat_completeness auto
termination encodeURIComponent
  by (relation "measure length") auto

section \<open>Addresses\<close>

record QuickConnectTarget =
  qt_canonicalAddress :: code_units
  qt_host :: code_units
  qt_port :: nat
  qt_username :: "code_units option"

datatype quick_code = BadAddress | BadPassword | BadPort

datatype QuickConnectParseResult = QuickEmpty | QuickInvalid quick_code | QuickValid QuickConnectTarget

text \<open>What the code reads of a \<open>URL\<close>.\<close>

record quick_url =
  url_protocol :: code_units
  url_username :: code_units
  url_password :: code_units
  url_hostname :: code_units
  url_port :: code_units
  url_pathname :: code_units
  url_search :: code_units
  url_hash :: code_units

definition DEFAULT_SSH_PORT :: nat where "DEFAULT_SSH_PORT = 22"

definition lower_units :: "code_units \<Rightarrow> code_units" where
  "lower_units s = map lower_unit s"

definition digit_unit :: "16 word \<Rightarrow> bool" where
  "digit_unit u \<longleftrightarrow> 0x30 \<le> u \<and> u \<le> 0x39"

definition digits_value :: "code_units \<Rightarrow> nat" where
  "digits_value ds = foldl (\<lambda>acc d. 10 * acc + (unat d - 48)) 0 ds"

text \<open>\<open>Number\<close> of a port text; \<open>None\<close> is \<open>NaN\<close>.\<close>

definition port_number :: "code_units \<Rightarrow> nat option" where
  "port_number s = (if s \<noteq> [] \<and> list_all digit_unit s then Some (digits_value s) else None)"

definition isValidPort :: "nat \<Rightarrow> bool" where
  "isValidPort p \<longleftrightarrow> 1 \<le> p \<and> p \<le> 65535"

definition separator_unit :: "16 word \<Rightarrow> bool" where
  "separator_unit u \<longleftrightarrow> u \<in> set (units ''/?#'') \<or> u = 0x5C"

definition isValidHost :: "code_units \<Rightarrow> bool" where
  "isValidHost host \<longleftrightarrow> host \<noteq> [] \<and> \<not> list_ex is_space host \<and> \<not> list_ex (\<lambda>u. separator_unit u \<or> u = 0x40) host"

definition bracketed :: "code_units \<Rightarrow> bool" where
  "bracketed s \<longleftrightarrow> prefix (units ''['') s \<and> suffix (units '']'') s"

definition stripIpv6Brackets :: "code_units \<Rightarrow> code_units" where
  "stripIpv6Brackets s = (if bracketed s then take (length s - 2) (drop 1 s) else s)"

text \<open>The expression for a colon, digits, and a separator or the end.\<close>

fun trailingPortCandidate :: "code_units \<Rightarrow> nat option" where
  "trailingPortCandidate [] = None"
| "trailingPortCandidate (u # s) =
     (let ds = takeWhile digit_unit s; rest = dropWhile digit_unit s
      in if u = 0x3A \<and> ds \<noteq> [] \<and> (rest = [] \<or> hd rest \<in> set (units ''/?#'')) then Some (digits_value ds)
         else trailingPortCandidate s)"

definition has_password :: "code_units \<Rightarrow> bool" where
  "has_password v =
     (let rest = drop 6 v; user = takeWhile (\<lambda>u. u \<notin> set (units ''/@:'')) rest; after = drop (length user) rest;
          secret = takeWhile (\<lambda>u. u \<noteq> 0x40) (drop 1 after)
      in user \<noteq> [] \<and> after \<noteq> [] \<and> hd after = 0x3A \<and> secret \<noteq> [] \<and> length secret < length (drop 1 after))"

definition decodeUrlUsername :: "code_units \<Rightarrow> code_units" where
  "decodeUrlUsername v = (case decodeURIComponent v of Some s \<Rightarrow> s | None \<Rightarrow> [])"

definition buildTarget :: "code_units \<Rightarrow> nat \<Rightarrow> code_units option \<Rightarrow> QuickConnectTarget option" where
  "buildTarget host port username =
     (let displayHost = (if 0x3A \<in> set host then units ''['' @ host @ units '']'' else host)
      in map_option (\<lambda>user. \<lparr>qt_canonicalAddress = units ''ssh://'' @ user @ displayHost @ units '':'' @ units (nat_str port),
           qt_host = host, qt_port = port, qt_username = username\<rparr>)
         (case username of None \<Rightarrow> Some [] | Some u \<Rightarrow> map_option (\<lambda>e. e @ units ''@'') (encodeURIComponent u)))"

definition or_undefined :: "code_units \<Rightarrow> code_units option" where
  "or_undefined s = (if s = [] then None else Some s)"

definition quick_url_target :: "quick_url \<Rightarrow> QuickConnectParseResult option" where
  "quick_url_target url =
     (if url_protocol url \<noteq> units ''ssh:'' \<or> url_password url \<noteq> [] \<or> url_search url \<noteq> [] \<or> url_hash url \<noteq> [] then
        Some (QuickInvalid (if url_password url \<noteq> [] then BadPassword else BadAddress))
      else if url_pathname url \<noteq> [] \<and> url_pathname url \<noteq> units ''/'' then Some (QuickInvalid BadAddress)
      else let host = stripIpv6Brackets (url_hostname url)
           in if \<not> isValidHost host then Some (QuickInvalid BadAddress)
              else case (if url_port url \<noteq> [] then port_number (url_port url) else Some DEFAULT_SSH_PORT) of
                     None \<Rightarrow> Some (QuickInvalid BadPort)
                   | Some port \<Rightarrow>
                       if \<not> isValidPort port then Some (QuickInvalid BadPort)
                       else map_option QuickValid (buildTarget host port (or_undefined (decodeUrlUsername (url_username url)))))"

definition quick_plain_target :: "code_units \<Rightarrow> QuickConnectParseResult option" where
  "quick_plain_target v =
     (if js_includes (units ''://'') v \<or> list_ex separator_unit v then Some (QuickInvalid BadAddress)
      else if 1 < length (filter (\<lambda>u. u = 0x40) v) then Some (QuickInvalid BadAddress)
      else let hasAt = (0x40 \<in> set v);
               username = (if hasAt then takeWhile (\<lambda>u. u \<noteq> 0x40) v else []);
               hostInput = (if hasAt then drop (Suc (length username)) v else v)
           in if 0x3A \<in> set username then Some (QuickInvalid BadPassword)
              else if hasAt \<and> username = [] then Some (QuickInvalid BadAddress)
              else if 0x3A \<in> set hostInput \<and> \<not> bracketed hostInput then Some (QuickInvalid BadAddress)
              else let host = stripIpv6Brackets hostInput
                   in if \<not> isValidHost host then Some (QuickInvalid BadAddress)
                      else map_option QuickValid (buildTarget host DEFAULT_SSH_PORT (or_undefined username)))"

definition parseQuickConnectAddress :: "(code_units \<Rightarrow> quick_url option) \<Rightarrow> code_units \<Rightarrow> QuickConnectParseResult option" where
  "parseQuickConnectAddress parseUrl input =
     (let v = trim_units input
      in if v = [] then Some QuickEmpty
         else if list_ex is_space v then Some (QuickInvalid BadAddress)
         else if prefix (units ''ssh://'') (lower_units v) then
           (if has_password v then Some (QuickInvalid BadPassword)
            else case Option.bind (parseUrl v) quick_url_target of
                   Some r \<Rightarrow> Some r
                 | None \<Rightarrow> Some (QuickInvalid (case trailingPortCandidate v of
                     Some p \<Rightarrow> if \<not> isValidPort p then BadPort else BadAddress | None \<Rightarrow> BadAddress)))
         else quick_plain_target v)"

definition shouldOfferQuickConnect :: "code_units \<Rightarrow> nat \<Rightarrow> bool" where
  "shouldOfferQuickConnect input savedMatchCount =
     (let v = trim_units input
      in v \<noteq> [] \<and> (prefix (units ''ssh://'') (lower_units v) \<or> 0x40 \<in> set v \<or> savedMatchCount = 0))"

definition isQuickConnectCredentialError :: "code_units option \<Rightarrow> bool" where
  "isQuickConnectCredentialError code =
     (case code of
        None \<Rightarrow> False
      | Some c \<Rightarrow> c \<noteq> [] \<and> (prefix (units ''terminal_auth'') c \<or> prefix (units ''terminal_private_key'') c \<or>
          c \<in> set (map units [''terminal_username_missing'', ''connection_password_missing'', ''connection_private_key_missing'',
            ''credential_prompt_required''])))"

section \<open>What a target is\<close>

definition target_good :: "QuickConnectTarget \<Rightarrow> bool" where
  "target_good t \<longleftrightarrow> isValidHost (qt_host t) \<and> isValidPort (qt_port t) \<and> qt_username t \<noteq> Some [] \<and>
     prefix (units ''ssh://'') (qt_canonicalAddress t) \<and> suffix (units (nat_str (qt_port t))) (qt_canonicalAddress t)"

lemma buildTarget_good:
  assumes "buildTarget host port username = Some t" "isValidHost host" "isValidPort port" "username \<noteq> Some []"
  shows "target_good t"
  using assms by (auto simp: buildTarget_def target_good_def Let_def suffix_def)

lemma or_undefined_nonempty [simp]: "or_undefined s \<noteq> Some []"
  by (simp add: or_undefined_def)

lemma url_target_good: "quick_url_target url = Some (QuickValid t) \<Longrightarrow> target_good t \<and> url_password url = []"
  by (auto simp: quick_url_target_def Let_def intro: buildTarget_good split: if_splits option.splits)

lemma default_port_valid [simp]: "isValidPort DEFAULT_SSH_PORT"
  by (simp add: isValidPort_def DEFAULT_SSH_PORT_def)

lemma plain_target_good: "quick_plain_target v = Some (QuickValid t) \<Longrightarrow> target_good t"
  by (auto simp: quick_plain_target_def Let_def intro: buildTarget_good split: if_splits)

text \<open>
  Whatever is typed and whatever the URL parser returns, an accepted target has a host without
  spaces or URL separators, a port from 1 to 65535 and no empty user name, and its canonical address is
  an SSH URL with that port; a text in which the parser finds a password is never accepted.
\<close>

theorem quick_connect_target_is_valid:
  assumes "parseQuickConnectAddress parseUrl input = Some (QuickValid t)"
  shows "target_good t \<and>
    (prefix (units ''ssh://'') (lower_units (trim_units input)) \<longrightarrow>
       (\<exists>url. parseUrl (trim_units input) = Some url \<and> url_password url = []))"
proof -
  let ?v = "trim_units input"
  show ?thesis
  proof (cases "prefix (units ''ssh://'') (lower_units ?v)")
    case True
    then obtain url where "parseUrl ?v = Some url" "quick_url_target url = Some (QuickValid t)"
      using assms by (auto simp: parseQuickConnectAddress_def Let_def bind_eq_Some_conv split: if_splits option.splits)
    then show ?thesis
      using url_target_good by auto
  next
    case False
    then show ?thesis
      using assms plain_target_good by (auto simp: parseQuickConnectAddress_def Let_def split: if_splits)
  qed
qed

definition plain_name :: "code_units \<Rightarrow> bool" where
  "plain_name s \<longleftrightarrow> isValidHost s \<and> 0x3A \<notin> set s \<and> \<not> bracketed s"

lemma sublist_first: "sublist (x # xs) ys \<Longrightarrow> x \<in> set ys"
  using set_mono_sublist by fastforce

lemma plain_parts:
  assumes "plain_name user" "plain_name host"
  defines "v \<equiv> user @ 0x40 # host"
  shows "trim_units v = v" "v \<noteq> []" "\<not> list_ex is_space v" "\<not> js_includes (units ''://'') v" "\<not> list_ex separator_unit v"
    "takeWhile (\<lambda>u. u \<noteq> 0x40) v = user" "drop (Suc (length user)) v = host" "length (filter (\<lambda>u. u = 0x40) v) = 1" "0x40 \<in> set v"
    "stripIpv6Brackets host = host"
proof -
  have free: "user \<noteq> []" "host \<noteq> []" "0x40 \<notin> set user" "0x40 \<notin> set host" "0x3A \<notin> set user" "0x3A \<notin> set host"
    and spaces: "\<forall>u \<in> set user. \<not> is_space u" "\<forall>u \<in> set host. \<not> is_space u"
    and separators: "\<forall>u \<in> set user. \<not> separator_unit u" "\<forall>u \<in> set host. \<not> separator_unit u"
    using assms(1,2) by (auto simp: plain_name_def isValidHost_def list_ex_iff)
  show nospace: "\<not> list_ex is_space v"
    using spaces by (auto simp: v_def list_ex_iff) (simp add: is_space_def js_space_units_def)
  show "\<not> list_ex separator_unit v"
    using separators by (auto simp: v_def list_ex_iff) (simp add: separator_unit_def units_def)
  show "trim_units v = v"
    using nospace free by (intro trim_units_id) (auto simp: v_def list_ex_iff)
  show "\<not> js_includes (units ''://'') v"
    using free(5,6) by (auto simp: js_includes_sublist units_def v_def dest!: sublist_first)
  show "takeWhile (\<lambda>u. u \<noteq> 0x40) v = user"
    unfolding v_def by (subst takeWhile_append2) (use free(3) in auto)
  show "drop (Suc (length user)) v = host" "length (filter (\<lambda>u. u = 0x40) v) = 1"
    using free(3,4) by (auto simp: v_def filter_empty_conv)
  show "v \<noteq> []" "0x40 \<in> set v"
    by (simp_all add: v_def)
  show "stripIpv6Brackets host = host"
    using assms(2) by (simp add: plain_name_def stripIpv6Brackets_def)
qed

text \<open>
  A plain address is taken as it is written: \<open>user@host\<close> with a user and a host free of spaces,
  colons and separators, the host without brackets, is the target with this user, this host and the default port.
\<close>

theorem plain_address_is_taken:
  assumes "plain_name user" "plain_name host" "encodeURIComponent user = Some escaped"
    and "\<not> prefix (units ''ssh://'') (lower_units (user @ units ''@'' @ host))"
  shows "parseQuickConnectAddress parseUrl (user @ units ''@'' @ host) =
    Some (QuickValid \<lparr>qt_canonicalAddress = units ''ssh://'' @ escaped @ units ''@'' @ host @ units '':22'',
      qt_host = host, qt_port = 22, qt_username = Some user\<rparr>)"
proof -
  let ?v = "user @ 0x40 # host"
  have typed: "user @ units ''@'' @ host = ?v"
    by (simp add: units_def)
  have user: "user \<noteq> []" "0x3A \<notin> set user" and host: "isValidHost host" "0x3A \<notin> set host"
    using assms(1,2) by (auto simp: plain_name_def isValidHost_def)
  have "quick_plain_target ?v = map_option QuickValid (buildTarget host DEFAULT_SSH_PORT (Some user))"
    using plain_parts [OF assms(1,2)] user host unfolding quick_plain_target_def Let_def by (simp add: or_undefined_def)
  moreover have "nat_str DEFAULT_SSH_PORT = ''22''"
    by code_simp
  ultimately have "quick_plain_target ?v = Some (QuickValid \<lparr>qt_canonicalAddress = units ''ssh://'' @ escaped @ units ''@'' @ host @ units '':22'',
      qt_host = host, qt_port = 22, qt_username = Some user\<rparr>)"
    using assms(3) host(2) by (simp add: buildTarget_def Let_def units_def) (simp add: DEFAULT_SSH_PORT_def)
  then show ?thesis
    using plain_parts [OF assms(1,2)] assms(4) unfolding typed parseQuickConnectAddress_def Let_def by simp
qed

theorem quick_connect_target_is_valid_witness:
  "isValidPort 22 \<and> parseQuickConnectAddress (\<lambda>_. None) (units '' web '') =
     Some (QuickValid \<lparr>qt_canonicalAddress = units ''ssh://web:22'', qt_host = units ''web'', qt_port = 22, qt_username = None\<rparr>)"
proof -
  have "parseQuickConnectAddress (\<lambda>_. None) (units '' web '') =
     Some (QuickValid \<lparr>qt_canonicalAddress = units ''ssh://web:22'', qt_host = units ''web'', qt_port = 22, qt_username = None\<rparr>)"
    by code_simp
  with quick_connect_target_is_valid [OF this] show ?thesis
    by (simp add: target_good_def)
qed

theorem plain_address_is_taken_witness:
  "parseQuickConnectAddress (\<lambda>_. None) (units ''root@web'') =
    Some (QuickValid \<lparr>qt_canonicalAddress = units ''ssh://root@web:22'', qt_host = units ''web'', qt_port = 22,
      qt_username = Some (units ''root'')\<rparr>)"
proof -
  have "plain_name (units ''root'')" "plain_name (units ''web'')" "encodeURIComponent (units ''root'') = Some (units ''root'')"
      "\<not> prefix (units ''ssh://'') (lower_units (units ''root'' @ units ''@'' @ units ''web''))"
    by code_simp+
  from plain_address_is_taken [OF this, of "\<lambda>_. None"] show ?thesis
    by (simp flip: units_append)
qed

end
