(* ===== verification/Error_Payloads.thy ===== *)
theory Error_Payloads
  imports Js_Json
begin

text \<open>
  What the front end reads from an error of the desktop process: the request to confirm a host key
  (\<open>features/connections/hostKeyErrors.ts\<close>), the request for a credential and the node of a jump chain
  that failed (\<open>features/connections/jumpRuntime.ts\<close>), and the credentials kept for a running attempt.
  An error is a value of unknown type; only objects have fields.
\<close>

section \<open>Reading\<close>

fun object_of :: "json \<Rightarrow> (string \<times> json) list option" where
  "object_of (JObj fs) = Some fs"
| "object_of (JArr vs) = Some []"
| "object_of _ = None"

definition errorDetails :: "json \<Rightarrow> (string \<times> json) list option" where
  "errorDetails error = Option.bind (object_of error) (\<lambda>fs. Option.bind (field fs ''details'') object_of)"

fun string_of :: "json option \<Rightarrow> string option" where
  "string_of (Some (JStr s)) = Some s"
| "string_of _ = None"

fun number_of :: "json option \<Rightarrow> js_number option" where
  "number_of (Some (JNum n)) = Some n"
| "number_of _ = None"

section \<open>Host keys\<close>

record HostKeyInfo =
  hk_host :: string
  hk_port :: js_number
  hk_key_algorithm :: string
  hk_fingerprint_sha256 :: string
  hk_public_key :: string

datatype HostKeyDecision = UnknownKey | ChangedKey

record ParsedHostKeyError =
  ph_decision :: HostKeyDecision
  ph_hostKey :: HostKeyInfo
  ph_oldFingerprint :: "string option"

definition isHostKeyInfo :: "json \<Rightarrow> HostKeyInfo option" where
  "isHostKeyInfo v =
     Option.bind (object_of v) (\<lambda>fs.
     Option.bind (string_of (field fs ''host'')) (\<lambda>host.
     Option.bind (number_of (field fs ''port'')) (\<lambda>port.
     Option.bind (string_of (field fs ''key_algorithm'')) (\<lambda>alg.
     Option.bind (string_of (field fs ''fingerprint_sha256'')) (\<lambda>fp.
     Option.bind (string_of (field fs ''public_key'')) (\<lambda>key.
       Some \<lparr>hk_host = host, hk_port = port, hk_key_algorithm = alg, hk_fingerprint_sha256 = fp, hk_public_key = key\<rparr>))))))"

definition parseHostKeyError :: "json \<Rightarrow> ParsedHostKeyError option" where
  "parseHostKeyError error =
     (case object_of error of
        None \<Rightarrow> None
      | Some fs \<Rightarrow>
          let code = field fs ''code'' in
          if code \<noteq> Some (JStr ''host_key_unknown'') \<and> code \<noteq> Some (JStr ''host_key_changed'') then None
          else case Option.bind (field fs ''details'') object_of of
                 None \<Rightarrow> None
               | Some payload \<Rightarrow>
                   let decision = (if code = Some (JStr ''host_key_changed'') then ChangedKey else UnknownKey);
                       expectedKind = (if decision = ChangedKey then ''host_key_changed'' else ''host_key_unknown'')
                   in if field payload ''kind'' \<noteq> Some (JStr expectedKind) then None
                      else case Option.bind (field payload ''host_key'') isHostKeyInfo of
                             None \<Rightarrow> None
                           | Some key \<Rightarrow>
                               if decision = ChangedKey then
                                 (case string_of (field payload ''old_fingerprint_sha256'') of
                                    None \<Rightarrow> None
                                  | Some old \<Rightarrow> Some \<lparr>ph_decision = decision, ph_hostKey = key, ph_oldFingerprint = Some old\<rparr>)
                               else Some \<lparr>ph_decision = decision, ph_hostKey = key, ph_oldFingerprint = None\<rparr>)"

section \<open>Credentials and jump chains\<close>

datatype ConnectionAuthKind = PasswordAuth | PrivateKeyAuth

record CredentialPromptTarget =
  cp_authKind :: ConnectionAuthKind
  cp_connectionId :: string
  cp_host :: string
  cp_name :: "string option"
  cp_port :: js_number
  cp_username :: string

record SshNodeFailure =
  nf_connectionId :: string
  nf_host :: string
  nf_port :: js_number
  nf_stage :: string

definition authKind :: "json option \<Rightarrow> ConnectionAuthKind option" where
  "authKind v = (if v = Some (JStr ''password'') then Some PasswordAuth
     else if v = Some (JStr ''private_key'') then Some PrivateKeyAuth else None)"

definition parseCredentialPromptTarget :: "json \<Rightarrow> CredentialPromptTarget option" where
  "parseCredentialPromptTarget error =
     (if Option.bind (object_of error) (\<lambda>fs. field fs ''code'') \<noteq> Some (JStr ''credential_prompt_required'') then None
      else Option.bind (errorDetails error) (\<lambda>details.
        if field details ''kind'' \<noteq> Some (JStr ''credential_prompt_required'') then None
        else Option.bind (string_of (field details ''connection_id'')) (\<lambda>i.
             Option.bind (string_of (field details ''host'')) (\<lambda>host.
             Option.bind (number_of (field details ''port'')) (\<lambda>port.
             Option.bind (string_of (field details ''username'')) (\<lambda>username.
             Option.bind (authKind (field details ''auth_kind'')) (\<lambda>kind.
               Some \<lparr>cp_authKind = kind, cp_connectionId = i, cp_host = host, cp_name = None, cp_port = port, cp_username = username\<rparr>)))))))"

definition parseSshNodeFailure :: "json \<Rightarrow> SshNodeFailure option" where
  "parseSshNodeFailure error =
     Option.bind (errorDetails error) (\<lambda>details.
       if field details ''kind'' \<noteq> Some (JStr ''ssh_node_failure'') then None
       else Option.bind (string_of (field details ''connection_id'')) (\<lambda>i.
            Option.bind (string_of (field details ''host'')) (\<lambda>host.
            Option.bind (number_of (field details ''port'')) (\<lambda>port.
            Option.bind (string_of (field details ''stage'')) (\<lambda>stage.
              Some \<lparr>nf_connectionId = i, nf_host = host, nf_port = port, nf_stage = stage\<rparr>)))))"

record RuntimeCredentialInput =
  rci_auth_kind :: "ConnectionAuthKind option"
  rci_password :: "string option"
  rci_private_key_path :: "string option"
  rci_private_key_passphrase :: "string option"

definition upsertRuntimeCredential ::
  "(string \<times> RuntimeCredentialInput) list \<Rightarrow> string \<Rightarrow> ConnectionAuthKind \<Rightarrow> string \<Rightarrow> string \<Rightarrow> string \<Rightarrow> (string \<times> RuntimeCredentialInput) list" where
  "upsertRuntimeCredential current connectionId kind password privateKeyPath privateKeyPassphrase =
     (let credential =
        (if kind = PasswordAuth then
           \<lparr>rci_auth_kind = Some kind, rci_password = truthy (Some password), rci_private_key_path = None, rci_private_key_passphrase = None\<rparr>
         else \<lparr>rci_auth_kind = Some kind, rci_password = None, rci_private_key_path = truthy (Some privateKeyPath),
           rci_private_key_passphrase = truthy (Some privateKeyPassphrase)\<rparr>)
      in map_set connectionId credential current)"

text \<open>The request of an attempt: the credential of its own connection, its id, and the credentials of all hops.\<close>

definition buildRuntimeCredentialRequest ::
  "string \<Rightarrow> (string \<times> RuntimeCredentialInput) list \<Rightarrow> RuntimeCredentialInput \<times> string \<times> (string \<times> RuntimeCredentialInput) list" where
  "buildRuntimeCredentialRequest connectionId runtimeCredentials =
     (case map_of runtimeCredentials connectionId of
        Some target \<Rightarrow> target
      | None \<Rightarrow> \<lparr>rci_auth_kind = None, rci_password = None, rci_private_key_path = None, rci_private_key_passphrase = None\<rparr>,
      connectionId, runtimeCredentials)"

section \<open>Guarantees\<close>

lemma string_of_eq: "string_of v = Some s \<longleftrightarrow> v = Some (JStr s)"
  by (induction v rule: string_of.induct) auto

lemma number_of_eq: "number_of v = Some n \<longleftrightarrow> v = Some (JNum n)"
  by (induction v rule: number_of.induct) auto

lemma isHostKeyInfo_eq:
  "isHostKeyInfo v = Some k \<longleftrightarrow>
     (\<exists>fs. object_of v = Some fs \<and> field fs ''host'' = Some (JStr (hk_host k)) \<and> field fs ''port'' = Some (JNum (hk_port k)) \<and>
        field fs ''key_algorithm'' = Some (JStr (hk_key_algorithm k)) \<and>
        field fs ''fingerprint_sha256'' = Some (JStr (hk_fingerprint_sha256 k)) \<and> field fs ''public_key'' = Some (JStr (hk_public_key k)))"
  by (cases k) (auto simp: isHostKeyInfo_def bind_eq_Some_conv string_of_eq number_of_eq)

text \<open>
  C34. The host key dialog never understates the risk: an error is recognised as a request to confirm
  a key exactly when its code and the kind of its payload name the same case and the payload holds
  every part of the key, and for a changed key also the old fingerprint; and what the dialog then
  shows is what the payload holds, part by part, the old fingerprint beside the new one.
\<close>

theorem host_key_prompt_is_consistent:
  "parseHostKeyError error = Some p \<longleftrightarrow>
   (\<exists>fs payload key. object_of error = Some fs \<and> Option.bind (field fs ''details'') object_of = Some payload \<and>
      Option.bind (field payload ''host_key'') object_of = Some key \<and>
      field key ''host'' = Some (JStr (hk_host (ph_hostKey p))) \<and> field key ''port'' = Some (JNum (hk_port (ph_hostKey p))) \<and>
      field key ''key_algorithm'' = Some (JStr (hk_key_algorithm (ph_hostKey p))) \<and>
      field key ''fingerprint_sha256'' = Some (JStr (hk_fingerprint_sha256 (ph_hostKey p))) \<and>
      field key ''public_key'' = Some (JStr (hk_public_key (ph_hostKey p))) \<and>
      (case ph_decision p of
         ChangedKey \<Rightarrow> field fs ''code'' = Some (JStr ''host_key_changed'') \<and> field payload ''kind'' = Some (JStr ''host_key_changed'') \<and>
           (\<exists>old. field payload ''old_fingerprint_sha256'' = Some (JStr old) \<and> ph_oldFingerprint p = Some old)
       | UnknownKey \<Rightarrow> field fs ''code'' = Some (JStr ''host_key_unknown'') \<and> field payload ''kind'' = Some (JStr ''host_key_unknown'') \<and>
           ph_oldFingerprint p = None))"
  (is "_ \<longleftrightarrow> (\<exists>fs payload key. ?spec fs payload key)")
proof
  assume "parseHostKeyError error = Some p"
  then show "\<exists>fs payload key. ?spec fs payload key"
    by (auto simp: parseHostKeyError_def isHostKeyInfo_eq string_of_eq Let_def bind_eq_Some_conv split: option.splits if_splits)
next
  assume "\<exists>fs payload key. ?spec fs payload key"
  then obtain fs payload key where spec: "?spec fs payload key"
    by blast
  then have "Option.bind (field payload ''host_key'') isHostKeyInfo = Some (ph_hostKey p)"
    by (auto simp: bind_eq_Some_conv isHostKeyInfo_eq)
  then show "parseHostKeyError error = Some p"
    using spec by (cases p) (auto simp: parseHostKeyError_def Let_def split: HostKeyDecision.splits)
qed

text \<open>A changed key with its old fingerprint is recognised and shown with it.\<close>

theorem host_key_prompt_is_consistent_witness:
  "parseHostKeyError (JObj [(''code'', JStr ''host_key_changed''), (''details'', JObj [(''kind'', JStr ''host_key_changed''),
     (''host_key'', JObj [(''host'', JStr ''h''), (''port'', JNum (Finite 22)), (''key_algorithm'', JStr ''a''),
       (''fingerprint_sha256'', JStr ''f''), (''public_key'', JStr ''k'')]), (''old_fingerprint_sha256'', JStr ''o'')])]) =
   Some \<lparr>ph_decision = ChangedKey, ph_hostKey = \<lparr>hk_host = ''h'', hk_port = Finite 22, hk_key_algorithm = ''a'',
     hk_fingerprint_sha256 = ''f'', hk_public_key = ''k''\<rparr>, ph_oldFingerprint = Some ''o''\<rparr>"
  by (subst host_key_prompt_is_consistent) (simp add: field_def)

lemma runtime_credential_lookup:
  "fst (buildRuntimeCredentialRequest i (upsertRuntimeCredential current i kind pw path phrase)) =
     (if kind = PasswordAuth then
        \<lparr>rci_auth_kind = Some PasswordAuth, rci_password = truthy (Some pw), rci_private_key_path = None, rci_private_key_passphrase = None\<rparr>
      else \<lparr>rci_auth_kind = Some PrivateKeyAuth, rci_password = None, rci_private_key_path = truthy (Some path),
        rci_private_key_passphrase = truthy (Some phrase)\<rparr>)"
  by (cases kind) (simp_all add: buildRuntimeCredentialRequest_def upsertRuntimeCredential_def)

lemma runtime_credential_other:
  "j \<noteq> i \<Longrightarrow> fst (buildRuntimeCredentialRequest j (upsertRuntimeCredential current i kind pw path phrase)) =
     fst (buildRuntimeCredentialRequest j current)"
  by (simp add: buildRuntimeCredentialRequest_def upsertRuntimeCredential_def Let_def)

end
