(* ===== verification/Sidebar_Files.thy ===== *)
theory Sidebar_Files
  imports Prelude
begin

text \<open>
  Which remote session the file panels show: the context of the side bar
  (\<open>features/layout/workspaceSidebarContext.ts\<close>), the panels kept for the right pane
  (\<open>features/layout/remoteFilePanelStrategy.ts\<close>), and the rules of a panel instance for its owner, its
  following of the terminal and the answers it may apply
  (\<open>features/files/remoteFileInstanceState.ts\<close>).
\<close>

section \<open>The side bar\<close>

record WorkspaceSidebarTerminal =
  wst_connectionId :: string
  wst_id :: string

datatype sidebar_kind = SshPane | LocalPane

record WorkspaceSidebarBinding =
  wsb_kind :: sidebar_kind
  wsb_tabId :: string

record WorkspaceSidebarResolvedFileContext =
  wsr_connectionId :: string
  wsr_path :: "string option"
  wsr_tabId :: string

record sidebar_input =
  si_activeTabId :: "string option"
  si_activeWorkspaceMode :: string
  si_focusedBinding :: "WorkspaceSidebarBinding option"
  si_showingHome :: bool
  si_splitActive :: bool
  si_terminalDirectories :: "string \<Rightarrow> string option"
  si_terminalTabs :: "WorkspaceSidebarTerminal list"

definition sidebar_tab :: "sidebar_input \<Rightarrow> string option" where
  "sidebar_tab i =
     (if si_splitActive i then
        (case si_focusedBinding i of Some b \<Rightarrow> if wsb_kind b = SshPane then Some (wsb_tabId b) else None | None \<Rightarrow> None)
      else if si_activeWorkspaceMode i = ''ssh'' then si_activeTabId i else None)"

definition resolveWorkspaceSidebarFileContext :: "sidebar_input \<Rightarrow> WorkspaceSidebarResolvedFileContext option" where
  "resolveWorkspaceSidebarFileContext i =
     (if si_showingHome i then None
      else case truthy (sidebar_tab i) of
             None \<Rightarrow> None
           | Some tabId \<Rightarrow>
               (case find (\<lambda>t. wst_id t = tabId) (si_terminalTabs i) of
                  None \<Rightarrow> None
                | Some tab \<Rightarrow> Some \<lparr>wsr_connectionId = wst_connectionId tab,
                    wsr_path = truthy (si_terminalDirectories i (wst_id tab)), wsr_tabId = wst_id tab\<rparr>))"

record OpenSessionEntry =
  ose_id :: string
  ose_label :: string
  ose_detail :: "string option"

record sidebar_session =
  ss_tab :: string
  ss_type :: string
  ss_sessionId :: "string option"

record WorkspaceSidebarFileContext =
  wsf_binding :: WorkspaceSidebarResolvedFileContext
  wsf_connectionName :: "string option"
  wsf_instanceTitle :: "string option"
  wsf_address :: "string option"
  wsf_status :: string
  wsf_paneNumber :: "nat option"

definition describeWorkspaceSidebarFiles ::
  "WorkspaceSidebarResolvedFileContext option \<Rightarrow> OpenSessionEntry list \<Rightarrow> sidebar_session list \<Rightarrow> nat option \<Rightarrow>
    (string \<Rightarrow> string) \<Rightarrow> WorkspaceSidebarFileContext option" where
  "describeWorkspaceSidebarFiles binding entries terminals paneNumber t =
     (case binding of
        None \<Rightarrow> None
      | Some b \<Rightarrow>
          let entry = find (\<lambda>e. ose_id e = ''ssh:'' @ wsr_tabId b) entries;
              terminal = find (\<lambda>x. ss_tab x = wsr_tabId b) terminals;
              label = truthy (map_option ose_label entry);
              connected = (case terminal of None \<Rightarrow> False | Some x \<Rightarrow> ss_type x = ''terminal'' \<and> truthy (ss_sessionId x) \<noteq> None)
          in Some \<lparr>wsf_binding = b, wsf_connectionName = label, wsf_instanceTitle = label,
               wsf_address = truthy (Option.bind entry ose_detail),
               wsf_status = t (if connected then ''sidebar.filesConnected'' else ''sidebar.filesNotConnected''),
               wsf_paneNumber = paneNumber\<rparr>)"

section \<open>The panels of the right pane\<close>

record SshRemoteFilePanelTab =
  fp_connectionId :: string
  fp_id :: string
  fp_sessionId :: "string option"
  fp_type :: string

record SshRemoteFilePanelDescriptor =
  fd_active :: bool
  fd_connectionId :: string
  fd_key :: string
  fd_renderDockerTools :: bool
  fd_tabId :: string

definition buildSshRemoteFilePanelStack ::
  "string option \<Rightarrow> string \<Rightarrow> bool \<Rightarrow> string \<Rightarrow> SshRemoteFilePanelTab list \<Rightarrow> SshRemoteFilePanelDescriptor list" where
  "buildSshRemoteFilePanelStack activeTabId activeWorkspaceMode rightPaneCollapsed rightTool tabs =
     (if activeWorkspaceMode \<noteq> ''ssh'' then []
      else map (\<lambda>tab. let active = \<not> rightPaneCollapsed \<and> Some (fp_id tab) = activeTabId
             in \<lparr>fd_active = active, fd_connectionId = fp_connectionId tab, fd_key = ''ssh-file-panel:'' @ fp_id tab,
                 fd_renderDockerTools = (active \<and> rightTool = ''tools''), fd_tabId = fp_id tab\<rparr>)
           (filter (\<lambda>tab. fp_type tab = ''terminal'' \<and> truthy (fp_sessionId tab) \<noteq> None \<and> Some (fp_id tab) = activeTabId) tabs))"

section \<open>A panel instance\<close>

datatype RemoteFileManualBrowseBehavior = KeepFollowing | PauseFollowing

record RemoteFileFollowPolicy =
  fo_defaultEnabled :: bool
  fo_manualBrowseBehavior :: RemoteFileManualBrowseBehavior

definition currentRemoteFileFollowPolicy :: RemoteFileFollowPolicy where
  "currentRemoteFileFollowPolicy = \<lparr>fo_defaultEnabled = False, fo_manualBrowseBehavior = KeepFollowing\<rparr>"

definition remoteFileInstanceOwnerKey :: "string option \<Rightarrow> string option \<Rightarrow> string option" where
  "remoteFileInstanceOwnerKey stateKey connectionId = coalesce (truthy stateKey) connectionId"

definition shouldResetRemoteFileNavigation :: "string option \<Rightarrow> string option \<Rightarrow> bool" where
  "shouldResetRemoteFileNavigation previousOwnerKey nextOwnerKey \<longleftrightarrow> previousOwnerKey \<noteq> nextOwnerKey"

definition followStateAfterManualBrowse :: "bool \<Rightarrow> RemoteFileFollowPolicy \<Rightarrow> bool" where
  "followStateAfterManualBrowse enabled policy =
     (if enabled \<and> fo_manualBrowseBehavior policy = PauseFollowing then False else enabled)"

record RemoteFileDirectoryRequestToken =
  rt_reqConnectionId :: string
  rt_ownerKey :: "string option"
  rt_requestId :: nat
  rt_scope :: nat

record RemoteFileDirectoryRequestState =
  rs_connectionId :: "string option"
  rs_mounted :: bool
  rs_ownerKey :: "string option"
  rs_requestId :: nat
  rs_scope :: nat

definition canApplyRemoteFileDirectoryResponse ::
  "RemoteFileDirectoryRequestToken \<Rightarrow> RemoteFileDirectoryRequestState \<Rightarrow> bool \<Rightarrow> bool" where
  "canApplyRemoteFileDirectoryResponse request current latestOnly =
     (if \<not> rs_mounted current \<or> rt_ownerKey request \<noteq> rs_ownerKey current \<or>
         Some (rt_reqConnectionId request) \<noteq> rs_connectionId current \<or> rt_scope request \<noteq> rs_scope current then False
      else \<not> latestOnly \<or> rt_requestId request = rs_requestId current)"

section \<open>No borrowed session\<close>

text \<open>
  The files shown are those of the session the user is in, or none: with a split they belong to
  the focused SSH pane, otherwise to the active SSH tab, always to an open terminal of that very id,
  and never to another pane; at home, in a local pane or after the session is gone nothing is shown.
\<close>

theorem sidebar_shows_active_session:
  assumes "resolveWorkspaceSidebarFileContext i = Some c"
  shows "\<not> si_showingHome i \<and>
    (\<exists>tab \<in> set (si_terminalTabs i). wst_id tab = wsr_tabId c \<and> wst_connectionId tab = wsr_connectionId c) \<and>
    (if si_splitActive i then si_focusedBinding i = Some \<lparr>wsb_kind = SshPane, wsb_tabId = wsr_tabId c\<rparr>
     else si_activeWorkspaceMode i = ''ssh'' \<and> si_activeTabId i = Some (wsr_tabId c))"
proof -
  obtain tabId tab where tab: "\<not> si_showingHome i" "sidebar_tab i = Some tabId" "find (\<lambda>t. wst_id t = tabId) (si_terminalTabs i) = Some tab"
      "wsr_connectionId c = wst_connectionId tab" "wsr_tabId c = wst_id tab"
    using assms by (auto simp: resolveWorkspaceSidebarFileContext_def truthy_eq_Some split: if_splits option.splits)
  moreover have "tab \<in> set (si_terminalTabs i)" "wst_id tab = tabId"
    using find_SomeD [OF tab(3)] by simp_all
  ultimately show ?thesis
    by (auto simp: sidebar_tab_def split: if_splits option.splits)
qed

theorem sidebar_shows_active_session_witness:
  "\<exists>c. resolveWorkspaceSidebarFileContext \<lparr>si_activeTabId = Some ''t1'', si_activeWorkspaceMode = ''ssh'', si_focusedBinding = None,
     si_showingHome = False, si_splitActive = False, si_terminalDirectories = (\<lambda>_. None),
     si_terminalTabs = [\<lparr>wst_connectionId = ''c1'', wst_id = ''t1''\<rparr>]\<rparr> = Some c \<and> wsr_tabId c = ''t1''"
proof -
  let ?i = "\<lparr>si_activeTabId = Some ''t1'', si_activeWorkspaceMode = ''ssh'', si_focusedBinding = None,
     si_showingHome = False, si_splitActive = False, si_terminalDirectories = (\<lambda>_. None),
     si_terminalTabs = [\<lparr>wst_connectionId = ''c1'', wst_id = ''t1''\<rparr>]\<rparr>"
  obtain c where c: "resolveWorkspaceSidebarFileContext ?i = Some c"
    by (simp add: resolveWorkspaceSidebarFileContext_def sidebar_tab_def truthy_def)
  then show ?thesis
    using sidebar_shows_active_session [OF c] by simp
qed

text \<open>The panel of the right pane belongs to the active tab, and an answer is applied only in the place it was asked for.\<close>

lemma panel_is_active_tab:
  "d \<in> set (buildSshRemoteFilePanelStack activeTabId mode collapsed tool tabs) \<Longrightarrow> Some (fd_tabId d) = activeTabId \<and> mode = ''ssh''"
  by (auto simp: buildSshRemoteFilePanelStack_def Let_def split: if_splits)

lemma answer_applies_in_place:
  "canApplyRemoteFileDirectoryResponse r s latestOnly \<Longrightarrow>
    rs_mounted s \<and> rt_ownerKey r = rs_ownerKey s \<and> rs_connectionId s = Some (rt_reqConnectionId r) \<and> rt_scope r = rs_scope s"
  by (auto simp: canApplyRemoteFileDirectoryResponse_def split: if_splits)

end
