(* ===== verification/Docker_Window.thy ===== *)
theory Docker_Window
  imports Prelude
begin

text \<open>
  The list of containers of the Docker panel: the rows that are rendered for a scroll position
  (\<open>features/tools/dockerVirtualization.ts\<close>) and when the list is loaded without being asked for
  (\<open>features/tools/dockerRefreshStrategy.ts\<close>). Pixel values are rationals.
\<close>

section \<open>The rendered window\<close>

record DockerVirtualWindowInput =
  vw_itemCount :: rat
  vw_scrollTop :: rat
  vw_viewportHeight :: rat
  vw_rowHeight :: rat
  vw_gap :: rat
  vw_overscan :: rat

record DockerVirtualWindow =
  win_startIndex :: int
  win_endIndexExclusive :: int
  win_rowStep :: int
  win_totalHeight :: int
  win_topPadding :: int
  win_bottomPadding :: int

definition dockerContainerCardHeight :: rat where "dockerContainerCardHeight = 76"
definition dockerContainerListGap :: rat where "dockerContainerListGap = 8"
definition dockerContainerWindowOverscan :: rat where "dockerContainerWindowOverscan = 2"

definition clamp_index :: "int \<Rightarrow> int \<Rightarrow> int \<Rightarrow> int" where
  "clamp_index n lo hi = min (max n lo) hi"

definition calculateDockerVirtualWindow :: "DockerVirtualWindowInput \<Rightarrow> DockerVirtualWindow" where
  "calculateDockerVirtualWindow i =
     (let safeCount = max 0 \<lfloor>vw_itemCount i\<rfloor>;
          safeRowHeight = max 1 \<lfloor>vw_rowHeight i\<rfloor>;
          safeGap = max 0 \<lfloor>vw_gap i\<rfloor>;
          safeOverscan = max 0 \<lfloor>vw_overscan i\<rfloor>;
          rowStep = safeRowHeight + safeGap;
          totalHeight = (if safeCount = 0 then 0 else safeCount * rowStep - safeGap)
      in if safeCount = 0 then
           \<lparr>win_startIndex = 0, win_endIndexExclusive = 0, win_rowStep = rowStep, win_totalHeight = totalHeight,
            win_topPadding = 0, win_bottomPadding = 0\<rparr>
         else
           let safeScrollTop = max 0 \<lfloor>vw_scrollTop i\<rfloor>;
               safeViewportHeight = max 0 \<lfloor>vw_viewportHeight i\<rfloor>;
               visibleCount = max 1 \<lceil>(of_int safeViewportHeight :: rat) / of_int rowStep\<rceil>;
               startIndex = clamp_index (\<lfloor>(of_int safeScrollTop :: rat) / of_int rowStep\<rfloor> - safeOverscan) 0 (max 0 (safeCount - 1));
               endIndexExclusive = clamp_index (startIndex + visibleCount + safeOverscan * 2) (startIndex + 1) safeCount;
               topPadding = startIndex * rowStep;
               renderedHeight = (endIndexExclusive - startIndex) * rowStep - safeGap;
               bottomPadding = max 0 (totalHeight - topPadding - renderedHeight)
           in \<lparr>win_startIndex = startIndex, win_endIndexExclusive = endIndexExclusive, win_rowStep = rowStep,
               win_totalHeight = totalHeight, win_topPadding = topPadding, win_bottomPadding = bottomPadding\<rparr>)"

section \<open>Loading without being asked\<close>

datatype DockerInitialRefreshView = ContainersView | ImagesView | EngineView
datatype DockerInitialRefreshToolboxView = DockerToolbox | TunnelsToolbox | NetworkToolbox | ScheduleToolbox

record DockerInitialRefreshInput =
  dr_active :: bool
  dr_connectionId :: "string option"
  dr_documentVisible :: bool
  dr_dockerView :: DockerInitialRefreshView
  dr_initialRefreshStarted :: bool
  dr_lastContainersRefreshAt :: rat
  dr_lastImagesRefreshAt :: rat
  dr_toolboxView :: DockerInitialRefreshToolboxView

record DockerInitialRefreshPlan =
  drp_delayMs :: nat
  drp_refreshContainers :: bool
  drp_refreshImages :: bool
  drp_silent :: bool

definition dockerInitialRefreshDelayMs :: nat where "dockerInitialRefreshDelayMs = 1200"

definition planDockerInitialRefresh :: "DockerInitialRefreshInput \<Rightarrow> DockerInitialRefreshPlan option" where
  "planDockerInitialRefresh i =
     (if \<not> dr_active i \<or> truthy (dr_connectionId i) = None \<or> \<not> dr_documentVisible i \<or>
         dr_toolboxView i \<noteq> DockerToolbox \<or> dr_initialRefreshStarted i then None
      else let refreshContainers = dr_dockerView i = ContainersView \<and> dr_lastContainersRefreshAt i \<le> 0;
               refreshImages = dr_dockerView i = ImagesView \<and> dr_lastImagesRefreshAt i \<le> 0
           in if \<not> refreshContainers \<and> \<not> refreshImages then None
              else Some \<lparr>drp_delayMs = dockerInitialRefreshDelayMs, drp_refreshContainers = refreshContainers,
                drp_refreshImages = refreshImages, drp_silent = False\<rparr>)"

definition shouldRunDockerAutoRefresh :: "bool \<Rightarrow> DockerInitialRefreshView \<Rightarrow> DockerInitialRefreshView \<Rightarrow> bool" where
  "shouldRunDockerAutoRefresh active dockerView refreshKind \<longleftrightarrow> active \<and> dockerView = refreshKind"

text \<open>A planned load fetches exactly one of the two lists, the one in view that was never loaded.\<close>

lemma planned_refresh_is_single:
  "planDockerInitialRefresh i = Some p \<Longrightarrow> drp_refreshContainers p \<noteq> drp_refreshImages p \<and> \<not> dr_initialRefreshStarted i"
  by (auto simp: planDockerInitialRefresh_def Let_def split: if_splits)

section \<open>The window covers the view\<close>

lemma floor_quotient:
  assumes "0 < (d :: int)"
  shows "\<lfloor>(of_int n :: rat) / of_int d\<rfloor> * d \<le> n" "n < (\<lfloor>(of_int n :: rat) / of_int d\<rfloor> + 1) * d"
proof -
  have "n = n div d * d + n mod d" "0 \<le> n mod d" "n mod d < d"
    using assms by simp_all
  then show "\<lfloor>(of_int n :: rat) / of_int d\<rfloor> * d \<le> n" "n < (\<lfloor>(of_int n :: rat) / of_int d\<rfloor> + 1) * d"
    unfolding floor_divide_of_int_eq distrib_right by linarith+
qed

lemma ceiling_quotient:
  assumes "0 < (d :: int)"
  shows "n \<le> \<lceil>(of_int n :: rat) / of_int d\<rceil> * d"
proof -
  have "(of_int n :: rat) = (of_int n / of_int d) * of_int d"
    using assms by simp
  also have "\<dots> \<le> of_int \<lceil>(of_int n :: rat) / of_int d\<rceil> * of_int d"
    by (rule mult_right_mono) (use assms in simp_all)
  also have "\<dots> = of_int (\<lceil>(of_int n :: rat) / of_int d\<rceil> * d)"
    by simp
  finally show ?thesis
    by (simp only: of_int_le_iff)
qed

lemma clamp_bounds: "lo \<le> hi \<Longrightarrow> lo \<le> min (max x lo) hi \<and> min (max x lo) hi \<le> (hi :: int)"
  by (simp add: le_max_iff_disj)

lemma window_fields:
  assumes "1 \<le> \<lfloor>vw_itemCount i\<rfloor>"
  defines "w \<equiv> calculateDockerVirtualWindow i"
  shows "win_rowStep w = max 1 \<lfloor>vw_rowHeight i\<rfloor> + max 0 \<lfloor>vw_gap i\<rfloor>"
    and "win_startIndex w = min (max (\<lfloor>(of_int (max 0 \<lfloor>vw_scrollTop i\<rfloor>) :: rat) / of_int (win_rowStep w)\<rfloor> - max 0 \<lfloor>vw_overscan i\<rfloor>) 0)
      (\<lfloor>vw_itemCount i\<rfloor> - 1)"
    and "win_endIndexExclusive w = min (max (win_startIndex w + max 1 \<lceil>(of_int (max 0 \<lfloor>vw_viewportHeight i\<rfloor>) :: rat) / of_int (win_rowStep w)\<rceil> +
      max 0 \<lfloor>vw_overscan i\<rfloor> * 2) (win_startIndex w + 1)) \<lfloor>vw_itemCount i\<rfloor>"
    and "win_totalHeight w = \<lfloor>vw_itemCount i\<rfloor> * win_rowStep w - max 0 \<lfloor>vw_gap i\<rfloor>"
    and "win_topPadding w = win_startIndex w * win_rowStep w"
    and "win_bottomPadding w = max 0 (win_totalHeight w - win_topPadding w -
      ((win_endIndexExclusive w - win_startIndex w) * win_rowStep w - max 0 \<lfloor>vw_gap i\<rfloor>))"
proof -
  have "max 0 \<lfloor>vw_itemCount i\<rfloor> = \<lfloor>vw_itemCount i\<rfloor>" "\<lfloor>vw_itemCount i\<rfloor> \<noteq> 0"
      "max 0 (\<lfloor>vw_itemCount i\<rfloor> - 1) = \<lfloor>vw_itemCount i\<rfloor> - 1"
    using assms(1) by linarith+
  note positive = this
  show "win_rowStep w = max 1 \<lfloor>vw_rowHeight i\<rfloor> + max 0 \<lfloor>vw_gap i\<rfloor>"
    and "win_startIndex w = min (max (\<lfloor>(of_int (max 0 \<lfloor>vw_scrollTop i\<rfloor>) :: rat) / of_int (win_rowStep w)\<rfloor> - max 0 \<lfloor>vw_overscan i\<rfloor>) 0)
      (\<lfloor>vw_itemCount i\<rfloor> - 1)"
    and "win_endIndexExclusive w = min (max (win_startIndex w + max 1 \<lceil>(of_int (max 0 \<lfloor>vw_viewportHeight i\<rfloor>) :: rat) / of_int (win_rowStep w)\<rceil> +
      max 0 \<lfloor>vw_overscan i\<rfloor> * 2) (win_startIndex w + 1)) \<lfloor>vw_itemCount i\<rfloor>"
    and "win_totalHeight w = \<lfloor>vw_itemCount i\<rfloor> * win_rowStep w - max 0 \<lfloor>vw_gap i\<rfloor>"
    and "win_topPadding w = win_startIndex w * win_rowStep w"
    and "win_bottomPadding w = max 0 (win_totalHeight w - win_topPadding w -
      ((win_endIndexExclusive w - win_startIndex w) * win_rowStep w - max 0 \<lfloor>vw_gap i\<rfloor>))"
    unfolding w_def calculateDockerVirtualWindow_def Let_def clamp_index_def positive(1,3) if_not_P [OF positive(2)]
      DockerVirtualWindow.select_convs by (rule refl)+
qed

text \<open>
  The rendered rows stand exactly where they would stand in the full list: the space above them,
  their height and the space below them add up to the height of the list, and the rows rendered are
  rows of the list.
\<close>

theorem docker_window_fills_list:
  assumes "1 \<le> vw_itemCount i"
  defines "w \<equiv> calculateDockerVirtualWindow i"
  shows "0 \<le> win_startIndex w \<and> win_startIndex w < win_endIndexExclusive w \<and> win_endIndexExclusive w \<le> \<lfloor>vw_itemCount i\<rfloor> \<and>
    win_topPadding w + ((win_endIndexExclusive w - win_startIndex w) * win_rowStep w - max 0 \<lfloor>vw_gap i\<rfloor>) + win_bottomPadding w =
      win_totalHeight w"
proof -
  have count: "1 \<le> \<lfloor>vw_itemCount i\<rfloor>"
    using assms(1) by simp
  note w = window_fields [OF count, folded w_def]
  have step: "0 \<le> win_rowStep w"
    unfolding w(1) by simp
  have start: "0 \<le> win_startIndex w \<and> win_startIndex w \<le> \<lfloor>vw_itemCount i\<rfloor> - 1"
    unfolding w(2) by (rule clamp_bounds) (use count in linarith)
  have "win_startIndex w + 1 \<le> win_endIndexExclusive w \<and> win_endIndexExclusive w \<le> \<lfloor>vw_itemCount i\<rfloor>"
    unfolding w(3) by (rule clamp_bounds) (use start in linarith)
  with start have below: "win_endIndexExclusive w \<le> \<lfloor>vw_itemCount i\<rfloor>" "0 \<le> win_startIndex w"
      "win_startIndex w < win_endIndexExclusive w"
    by linarith+
  have "win_endIndexExclusive w * win_rowStep w \<le> \<lfloor>vw_itemCount i\<rfloor> * win_rowStep w"
    by (rule mult_right_mono [OF below(1) step])
  then show ?thesis
    using below unfolding w(4-6) by (simp add: left_diff_distrib)
qed

text \<open>
  C36. Every row in view is rendered: with an overscan of at least two rows (the default), a row of
  the list that meets the visible part, at any fractional scroll position and height, lies in the
  window.
\<close>

theorem docker_window_covers_view:
  assumes "2 \<le> vw_overscan i" "0 \<le> vw_scrollTop i" "0 \<le> vw_viewportHeight i"
    and "0 \<le> row" "row < \<lfloor>vw_itemCount i\<rfloor>"
  defines "w \<equiv> calculateDockerVirtualWindow i"
  assumes "of_int (row * win_rowStep w) < vw_scrollTop i + vw_viewportHeight i" "vw_scrollTop i < of_int ((row + 1) * win_rowStep w)"
  shows "win_startIndex w \<le> row \<and> row < win_endIndexExclusive w"
proof -
  define st vh o' step count where "st = \<lfloor>vw_scrollTop i\<rfloor>" and "vh = \<lfloor>vw_viewportHeight i\<rfloor>" and "o' = \<lfloor>vw_overscan i\<rfloor>"
    and "step = win_rowStep w" and "count = \<lfloor>vw_itemCount i\<rfloor>"
  have count: "1 \<le> count"
    using assms(4,5) by (simp only: count_def)
  note w = window_fields [OF count [unfolded count_def], folded w_def, folded st_def vh_def o'_def step_def count_def]
  have pos: "0 < step" "0 \<le> st" "0 \<le> vh" "2 \<le> o'"
    using assms(1-3) w(1) by (simp_all add: st_def vh_def o'_def le_floor_iff)
  define q v where "q = \<lfloor>(of_int st :: rat) / of_int step\<rfloor>" and "v = max 1 \<lceil>(of_int vh :: rat) / of_int step\<rceil>"
  have start: "win_startIndex w = min (max (q - o') 0) (count - 1)"
    and fin: "win_endIndexExclusive w = min (max (win_startIndex w + v + o' * 2) (win_startIndex w + 1)) count"
    using pos w(2,3) unfolding q_def v_def by (simp_all only: max_absorb2)
  have q: "q * step \<le> st" "st < (q + 1) * step"
    unfolding q_def by (rule floor_quotient [OF pos(1)])+
  have "vh \<le> \<lceil>(of_int vh :: rat) / of_int step\<rceil> * step"
    by (rule ceiling_quotient [OF pos(1)])
  also have "\<dots> \<le> v * step"
    unfolding v_def using pos(1) by (simp add: mult_right_mono)
  finally have v: "vh \<le> v * step" .
  have "st < (row + 1) * step"
    using assms(8) unfolding st_def step_def by (simp only: floor_less_iff)
  then have "q * step < (row + 1) * step"
    using q(1) by linarith
  then have low: "q \<le> row"
    using pos(1) by (simp add: mult_less_cancel_right)
  have "vw_scrollTop i + vw_viewportHeight i < of_int (st + vh + 2)"
    unfolding st_def vh_def by (simp, linarith)
  then have "row * step < st + vh + 2"
    using assms(7) unfolding step_def by linarith
  then have "row * step < (q + 1) * step + v * step + 1"
    using q(2) v by linarith
  then have "row * step \<le> (q + 1 + v) * step"
    by (simp add: distrib_right)
  then have "row \<le> q + 1 + v"
    using pos(1) by simp
  moreover have "win_startIndex w \<le> row"
    using start low pos(4) assms(4) by linarith
  moreover have "win_startIndex w = count - 1 \<or> q - o' \<le> win_startIndex w"
    using start by linarith
  ultimately show ?thesis
    using assms(5) fin pos(4) unfolding count_def by linarith
qed

definition sample_window :: DockerVirtualWindowInput where
  "sample_window = \<lparr>vw_itemCount = 100, vw_scrollTop = 1000, vw_viewportHeight = 420, vw_rowHeight = dockerContainerCardHeight,
     vw_gap = dockerContainerListGap, vw_overscan = dockerContainerWindowOverscan\<rparr>"

theorem docker_window_fills_list_witness:
  "win_endIndexExclusive (calculateDockerVirtualWindow sample_window) \<le> 100"
  using docker_window_fills_list [of sample_window] by (simp add: sample_window_def)

theorem docker_window_covers_view_witness:
  "win_startIndex (calculateDockerVirtualWindow sample_window) \<le> 12 \<and> 12 < win_endIndexExclusive (calculateDockerVirtualWindow sample_window)"
proof -
  have step: "win_rowStep (calculateDockerVirtualWindow sample_window) = 84"
    by (simp add: calculateDockerVirtualWindow_def sample_window_def Let_def dockerContainerCardHeight_def dockerContainerListGap_def)
  show ?thesis
    by (rule docker_window_covers_view)
      (unfold step, simp_all add: sample_window_def dockerContainerWindowOverscan_def)
qed

end
