(* ===== verification/Text_Flush.thy ===== *)
theory Text_Flush
  imports Prelude
begin

text \<open>
  The buffer that joins the pieces of a streamed text before they are shown
  (\<open>shared/stream/bufferedTextFlush.ts\<close>). The texts handed to the callback are recorded in the order
  of the calls; a schedule that was cancelled does not fire, and the callback does not call back
  into the buffer.
\<close>

record text_buffer =
  tb_disposed :: bool
  tb_pending :: "string list"
  tb_scheduled :: bool
  tb_flushed :: "string list"

definition new_buffer :: text_buffer where
  "new_buffer = \<lparr>tb_disposed = False, tb_pending = [], tb_scheduled = False, tb_flushed = []\<rparr>"

definition append_text :: "string \<Rightarrow> text_buffer \<Rightarrow> text_buffer" where
  "append_text s b =
     (if tb_disposed b \<or> s = [] then b
      else b\<lparr>tb_pending := tb_pending b @ [s], tb_scheduled := True\<rparr>)"

definition flush_text :: "text_buffer \<Rightarrow> text_buffer" where
  "flush_text b =
     (let b = b\<lparr>tb_scheduled := False\<rparr>
      in if tb_disposed b \<or> tb_pending b = [] then b
         else b\<lparr>tb_pending := [], tb_flushed := tb_flushed b @ [concat (tb_pending b)]\<rparr>)"

definition discard_text :: "text_buffer \<Rightarrow> text_buffer" where
  "discard_text b = b\<lparr>tb_scheduled := False, tb_pending := []\<rparr>"

definition dispose_text :: "text_buffer \<Rightarrow> text_buffer" where
  "dispose_text b = discard_text (b\<lparr>tb_disposed := True\<rparr>)"

text \<open>The scheduled callback.\<close>

definition schedule_fires :: "text_buffer \<Rightarrow> text_buffer" where
  "schedule_fires b = (if tb_scheduled b then flush_text (b\<lparr>tb_scheduled := False\<rparr>) else b)"

datatype text_event = AppendText string | FlushText | DiscardText | DisposeText | ScheduleFires

fun text_step :: "text_buffer \<Rightarrow> text_event \<Rightarrow> text_buffer" where
  "text_step b (AppendText s) = append_text s b"
| "text_step b FlushText = flush_text b"
| "text_step b DiscardText = discard_text b"
| "text_step b DisposeText = dispose_text b"
| "text_step b ScheduleFires = schedule_fires b"

definition text_buffer_ok :: "text_buffer \<Rightarrow> bool" where
  "text_buffer_ok b \<longleftrightarrow> (tb_scheduled b \<longleftrightarrow> tb_pending b \<noteq> []) \<and> [] \<notin> set (tb_pending b) \<and> (tb_disposed b \<longrightarrow> tb_pending b = [])"

lemmas text_defs = append_text_def flush_text_def discard_text_def dispose_text_def schedule_fires_def Let_def

interpretation text_flush: reducer text_step text_buffer_ok
proof
  fix b e
  assume "text_buffer_ok b"
  then show "text_buffer_ok (text_step b e)"
    by (cases e) (auto simp: text_buffer_ok_def text_defs)
qed

text \<open>What the reader has seen and will see: the texts handed over, then the pending ones.\<close>

definition text_content :: "text_buffer \<Rightarrow> string" where
  "text_content b = concat (tb_flushed b) @ concat (tb_pending b)"

fun appended :: "text_event list \<Rightarrow> string" where
  "appended [] = []"
| "appended (AppendText s # es) = s @ appended es"
| "appended (_ # es) = appended es"

lemma text_content_step:
  "e \<noteq> DiscardText \<Longrightarrow> e \<noteq> DisposeText \<Longrightarrow> \<not> tb_disposed b \<Longrightarrow>
    text_content (text_step b e) = text_content b @ appended [e] \<and> \<not> tb_disposed (text_step b e)"
  by (cases e) (auto simp: text_content_def text_defs)

lemma text_content_run:
  "DiscardText \<notin> set es \<Longrightarrow> DisposeText \<notin> set es \<Longrightarrow> \<not> tb_disposed b \<Longrightarrow>
    text_content (foldl text_step b es) = text_content b @ appended es"
proof (induction es arbitrary: b)
  case (Cons e es)
  have "text_content (text_step b e) = text_content b @ appended [e]" "\<not> tb_disposed (text_step b e)"
    using text_content_step [of e b] Cons.prems by auto
  then show ?case
    using Cons by (cases e) auto
qed simp

text \<open>
  Streamed text is neither lost, repeated nor reordered: as long as it is not discarded, what was
  handed over followed by what is pending is the text appended; and whenever text is pending a flush
  is scheduled, so that after it everything has been handed over.
\<close>

theorem streamed_text_is_delivered:
  assumes "DiscardText \<notin> set es" "DisposeText \<notin> set es"
  defines "b \<equiv> foldl text_step new_buffer es"
  shows "text_content b = appended es \<and> (tb_pending b \<noteq> [] \<longleftrightarrow> tb_scheduled b) \<and>
    concat (tb_flushed (text_step b ScheduleFires)) = appended es"
proof -
  have content: "text_content b = appended es"
    using text_content_run [OF assms(1,2), of new_buffer] by (simp add: b_def text_content_def new_buffer_def)
  have ok: "text_buffer_ok b"
    unfolding b_def by (rule text_flush.run_invar) (simp add: text_buffer_ok_def new_buffer_def)
  have live: "\<not> tb_disposed (foldl text_step v es)" if "\<not> tb_disposed v" for v
    using that assms(1,2)
  proof (induction es arbitrary: v)
    case (Cons e es)
    then show ?case
      using text_content_step [of e v] by auto
  qed simp
  have "\<not> tb_disposed b"
    unfolding b_def by (rule live) (simp add: new_buffer_def)
  with content ok show ?thesis
    by (auto simp: text_buffer_ok_def text_content_def text_defs)
qed

theorem streamed_text_is_delivered_witness:
  "concat (tb_flushed (text_step (foldl text_step new_buffer [AppendText ''a'', FlushText, AppendText ''b'']) ScheduleFires)) = ''ab''"
proof -
  have "DiscardText \<notin> set [AppendText ''a'', FlushText, AppendText ''b'']" "DisposeText \<notin> set [AppendText ''a'', FlushText, AppendText ''b'']"
    by simp_all
  from streamed_text_is_delivered [OF this] show ?thesis
    by simp
qed

end
