(* ===== verification/Startup_Output.thy ===== *)
theory Startup_Output
  imports Semantic_Highlight
begin

text \<open>
  The first output of a session (\<open>features/terminal/terminalStartupOutput.ts\<close>): a prompt or a login
  banner that the remote shell printed twice is shown once. The expressions are those of the
  language of \<open>Semantic_Highlight\<close>; the one with a back reference is a search over the matches of its
  parts, in the order of a backtracking matcher.
\<close>

section \<open>Expressions\<close>

definition line_end :: "16 word \<Rightarrow> bool" where
  "line_end u \<longleftrightarrow> u = 0x0D \<or> u = 0x0A"

definition blank :: "16 word \<Rightarrow> bool" where
  "blank u \<longleftrightarrow> u = 0x20 \<or> u = 0x09"

definition prompt_mark :: regex where
  "prompt_mark = OneOf (\<lambda>u. u \<in> set (units ''#$>''))"

definition bracket_part :: regex where
  "bracket_part = Then (OneOf (\<lambda>u. u \<noteq> 0x5D \<and> \<not> line_end u)) (up_to 179 (OneOf (\<lambda>u. u \<noteq> 0x5D \<and> \<not> line_end u)))"

definition shellPromptPattern :: regex where
  "shellPromptPattern = Or
     (sequence [literal ''['', bracket_part, literal ''@'', bracket_part, literal '']'', Many (OneOf is_space), prompt_mark])
     (sequence [some_of (OneOf (\<lambda>u. \<not> is_space u \<and> u \<noteq> 0x40)), literal ''@'', some_of (OneOf (\<lambda>u. \<not> is_space u \<and> u \<noteq> 0x3A)),
        literal '':'', up_to 120 (OneOf (\<lambda>u. \<not> line_end u)), prompt_mark])"

definition blanks :: regex where
  "blanks = some_of (OneOf blank)"

text \<open>The first class holds the closing bracket, so a command \<open>ESC ]\<close> is matched without its text.\<close>

definition ansi_pattern :: regex where
  "ansi_pattern = Then (OneOf (\<lambda>u. u = 0x1B)) (alternatives
     [OneOf (\<lambda>u. 0x40 \<le> u \<and> u \<le> 0x5A \<or> 0x5C \<le> u \<and> u \<le> 0x5F),
      sequence [literal ''['', Many (between 0x30 0x3F), Many (between 0x20 0x2F), between 0x40 0x7E],
      sequence [literal '']'', Many (OneOf (\<lambda>u. u \<noteq> 0x07)), Or (OneOf (\<lambda>u. u = 0x07)) (Then (OneOf (\<lambda>u. u = 0x1B)) (OneOf (\<lambda>u. u = 0x5C)))]])"

text \<open>\<open>replace\<close> of every match by nothing.\<close>

function delete_from :: "regex \<Rightarrow> code_units \<Rightarrow> nat \<Rightarrow> code_units" where
  "delete_from r s i =
     (if length s \<le> i then []
      else case ends r s i of
             [] \<Rightarrow> s ! i # delete_from r s (Suc i)
           | e # _ \<Rightarrow> if e \<le> i then s ! i # delete_from r s (Suc i) else delete_from r s e)"
  by pat_completeness auto
termination delete_from
  by (relation "measure (\<lambda>(r, s, i). length s - i)") auto

declare delete_from.simps [simp del]

definition stripAnsi :: "code_units \<Rightarrow> code_units" where
  "stripAnsi s = delete_from ansi_pattern s 0"

definition looksLikeLoginBanner :: "code_units \<Rightarrow> bool" where
  "looksLikeLoginBanner s =
     list_ex (\<lambda>w. js_includes (units w) (map lower_unit s))
       [''welcome to'', ''last login'', ''system load'', ''security updates'', ''updates total'', ''linux'']"

section \<open>Lines\<close>

function splitLinesPreservingEndings :: "code_units \<Rightarrow> code_units list" where
  "splitLinesPreservingEndings s =
     (if s = [] then []
      else let line = takeWhile (\<lambda>u. \<not> line_end u) s; rest = dropWhile (\<lambda>u. \<not> line_end u) s;
               n = (if prefix [0x0D, 0x0A] rest then 2 else if rest = [] then 0 else 1)
           in (line @ take n rest) # splitLinesPreservingEndings (drop n rest))"
  by pat_completeness auto
termination splitLinesPreservingEndings
proof (relation "measure length")
  fix s line rest :: code_units and n :: nat
  assume s: "s \<noteq> []" "line = takeWhile (\<lambda>u. \<not> line_end u) s" "rest = dropWhile (\<lambda>u. \<not> line_end u) s"
    and n: "n = (if prefix [0x0D, 0x0A] rest then 2 else if rest = [] then 0 else 1)"
  have "length rest \<le> length s"
    unfolding s(3) by (rule length_dropWhile_le)
  then have "length (drop n rest) < length s"
    using s(1) n by (cases rest; cases s) auto
  then show "(drop n rest, s) \<in> measure length"
    by simp
qed simp

declare splitLinesPreservingEndings.simps [simp del]

text \<open>A line of the list above ends at its first line end.\<close>

definition normalizeLineForComparison :: "code_units \<Rightarrow> code_units" where
  "normalizeLineForComparison line = trim_units (stripAnsi (takeWhile (\<lambda>u. \<not> line_end u) line))"

definition tests :: "regex \<Rightarrow> code_units \<Rightarrow> bool" where
  "tests r s \<longleftrightarrow> list_ex (\<lambda>i. ends r s i \<noteq> []) [0..<Suc (length s)]"

definition repeated_block :: "code_units list \<Rightarrow> nat \<Rightarrow> bool" where
  "repeated_block lines n =
     (let firstBlock = map normalizeLineForComparison (take n lines);
          secondBlock = map normalizeLineForComparison (take n (drop n lines))
      in list_ex (\<lambda>l. l \<noteq> []) firstBlock \<and> firstBlock = secondBlock \<and> looksLikeLoginBanner (join_with [0x0A] firstBlock))"

definition stripRepeatedLeadingLoginBanner :: "code_units \<Rightarrow> code_units" where
  "stripRepeatedLeadingLoginBanner output =
     (let lines = splitLinesPreservingEndings output;
          promptLineIndex = length (takeWhile (\<lambda>l. \<not> tests shellPromptPattern (normalizeLineForComparison l)) lines)
      in if length lines < 3 \<or> promptLineIndex = length lines \<or> promptLineIndex < 2 then output
         else case find (repeated_block lines) [1..<Suc (promptLineIndex div 2)] of
                None \<Rightarrow> output
              | Some n \<Rightarrow> concat (drop n lines))"

section \<open>A prompt before the banner\<close>

text \<open>The first line, its end and the rest, if the line has 1 to 180 units and something follows it.\<close>

definition first_line :: "code_units \<Rightarrow> (code_units \<times> code_units \<times> code_units) option" where
  "first_line s =
     (let line = takeWhile (\<lambda>u. \<not> line_end u) s; rest = dropWhile (\<lambda>u. \<not> line_end u) s;
          n = (if prefix [0x0D, 0x0A] rest then 2 else if prefix [0x0A] rest then 1 else 0)
      in if line = [] \<or> 180 < length line \<or> n = 0 \<or> drop n rest = [] then None else Some (line, take n rest, drop n rest))"

definition dot_unit :: "16 word \<Rightarrow> bool" where
  "dot_unit u \<longleftrightarrow> \<not> line_end u \<and> u \<noteq> 0x2028 \<and> u \<noteq> 0x2029"

text \<open>A prompt at the start, alone or with blanks and a text after it: the prompt and the text.\<close>

definition prompt_match :: "code_units \<Rightarrow> (code_units \<times> code_units) option" where
  "prompt_match s =
     first_of (concat (map (\<lambda>e.
       List.map_filter (\<lambda>e2. if e2 < length s \<and> list_all dot_unit (drop e2 s) then Some (take e s, drop e2 s) else None) (ends blanks s e) @
       (if e = length s then [(take e s, [])] else [])) (ends shellPromptPattern s 0)))"

definition rest_lines :: "code_units \<Rightarrow> code_units list" where
  "rest_lines s = map (\<lambda>l. trim_units (if suffix [0x0D] l then butlast l else l)) (butlast (split_on 0x0A s)) @
     [trim_units (last (split_on 0x0A s))]"

definition stripLeadingDuplicateStartupPrompt :: "code_units \<Rightarrow> code_units" where
  "stripLeadingDuplicateStartupPrompt output =
     (case first_line output of
        None \<Rightarrow> output
      | Some (line, lineBreak, rest) \<Rightarrow>
          let firstLine = trim_units (stripAnsi line); plainRest = stripAnsi rest
          in case prompt_match firstLine of
               None \<Rightarrow> output
             | Some (p, r) \<Rightarrow>
                 let prompt = trim_units p; remainder = trim_units r;
                     bannerText = (if remainder \<noteq> [] then remainder @ 0x0A # plainRest else plainRest)
                 in if \<not> looksLikeLoginBanner bannerText then output
                    else if prompt \<notin> set (rest_lines plainRest) then output
                    else if remainder \<noteq> [] then remainder @ lineBreak @ rest
                    else rest)"

section \<open>Prompts side by side\<close>

text \<open>A prompt at \<open>i\<close>, blanks, and the same prompt before a space or the end: the ends of both.\<close>

definition dup_match :: "code_units \<Rightarrow> nat \<Rightarrow> (nat \<times> nat) option" where
  "dup_match s i =
     first_of (concat (map (\<lambda>e.
       List.map_filter (\<lambda>e2. let e3 = e2 + (e - i) in
         if prefix (take (e - i) (drop i s)) (drop e2 s) \<and> (e3 = length s \<or> e3 < length s \<and> is_space (s ! e3)) then Some (e, e3) else None)
         (ends blanks s e)) (ends shellPromptPattern s i)))"

function collapse_from :: "code_units \<Rightarrow> nat \<Rightarrow> code_units" where
  "collapse_from s i =
     (if length s \<le> i then []
      else case dup_match s i of
             None \<Rightarrow> s ! i # collapse_from s (Suc i)
           | Some (e, e3) \<Rightarrow> if e3 \<le> i then s ! i # collapse_from s (Suc i) else take (e - i) (drop i s) @ collapse_from s e3)"
  by pat_completeness auto
termination collapse_from
  by (relation "measure (\<lambda>(s, i). length s - i)") auto

declare collapse_from.simps [simp del]

lemma some_of_advances: "i \<le> length s \<Longrightarrow> e \<in> set (ends (some_of (OneOf p)) s i) \<Longrightarrow> i < e"
proof -
  assume "i \<le> length s" "e \<in> set (ends (some_of (OneOf p)) s i)"
  then have "i < length s" "e \<in> set (ends (Many (OneOf p)) s (Suc i))"
    by (auto simp: some_of_def split: if_splits)
  then show "i < e"
    using ends_bounds [of "Suc i" s e "Many (OneOf p)"] by simp
qed

lemma dup_match_bounds:
  assumes "dup_match s i = Some (e, e3)" "i \<le> length s"
  shows "i \<le> e" "e < e3" "e3 \<le> length s"
proof -
  obtain e2 where e: "e \<in> set (ends shellPromptPattern s i)" "e2 \<in> set (ends blanks s e)" "e3 = e2 + (e - i)" "e3 \<le> length s"
    using first_of_SomeD [OF assms(1) [unfolded dup_match_def]]
    by (auto simp: List.map_filter_def Let_def split: if_splits)
  have "i \<le> e" "e \<le> length s"
    using ends_bounds [OF assms(2) e(1)] by auto
  then show "i \<le> e" "e < e3" "e3 \<le> length s"
    using e some_of_advances [of e s e2 blank] by (auto simp: blanks_def)
qed

lemma drop_nth: "i < length s \<Longrightarrow> drop i s = s ! i # drop (Suc i) s"
  by (rule Cons_nth_drop_Suc [symmetric])

lemma collapse_shrinks: "collapse_from s i = drop i s \<or> length (collapse_from s i) < length s - i"
proof (induction s i rule: collapse_from.induct)
  case (1 s i)
  show ?case
  proof (cases "length s \<le> i")
    case True
    then show ?thesis
      by (simp add: collapse_from.simps)
  next
    case False
    have step: "collapse_from s i = drop i s \<or> length (collapse_from s i) < length s - i" if "collapse_from s i = s ! i # collapse_from s (Suc i)"
      "collapse_from s (Suc i) = drop (Suc i) s \<or> length (collapse_from s (Suc i)) < length s - Suc i"
      using that False by (auto simp: drop_nth)
    show ?thesis
    proof (cases "dup_match s i")
      case None
      then show ?thesis
        using step "1.IH"(1) [OF False None] False by (simp add: collapse_from.simps [of s i])
    next
      case (Some m)
      obtain e e3 where m: "m = (e, e3)"
        by force
      have b: "i \<le> e" "e < e3" "e3 \<le> length s"
        using dup_match_bounds [of s i e e3] Some False by (auto simp: m)
      then have "collapse_from s i = take (e - i) (drop i s) @ collapse_from s e3"
        using Some False by (simp add: collapse_from.simps [of s i] m)
      moreover have "length (collapse_from s e3) \<le> length s - e3"
        using "1.IH"(3) [OF False Some [unfolded m] refl] b by auto
      ultimately have "length (collapse_from s i) \<le> (e - i) + (length s - e3)"
        by simp
      then show ?thesis
        using b by linarith
    qed
  qed
qed

function collapseAdjacentDuplicatePrompts :: "code_units \<Rightarrow> code_units" where
  "collapseAdjacentDuplicatePrompts s =
     (let next = collapse_from s 0 in if next = s then next else collapseAdjacentDuplicatePrompts next)"
  by pat_completeness auto
termination collapseAdjacentDuplicatePrompts
proof (relation "measure length")
  fix s s' :: code_units
  assume "s' = collapse_from s 0" "s' \<noteq> s"
  then show "(s', s) \<in> measure length"
    using collapse_shrinks [of s 0] by auto
qed simp

declare collapseAdjacentDuplicatePrompts.simps [simp del]

definition normalizeStartupOutput :: "code_units \<Rightarrow> code_units" where
  "normalizeStartupOutput output =
     collapseAdjacentDuplicatePrompts (stripRepeatedLeadingLoginBanner (stripLeadingDuplicateStartupPrompt (dropWhile line_end output)))"

section \<open>Nothing is invented\<close>

lemma delete_subseq: "subseq (delete_from r s i) (drop i s)"
proof (induction r s i rule: delete_from.induct)
  case (1 r s i)
  show ?case
  proof (cases "length s \<le> i")
    case True
    then show ?thesis
      by (simp add: delete_from.simps)
  next
    case False
    show ?thesis
    proof (cases "ends r s i")
      case Nil
      then show ?thesis
        using "1.IH"(1) [OF False Nil] False by (simp add: delete_from.simps [of r s i] drop_nth [of i s])
    next
      case (Cons e es)
      show ?thesis
      proof (cases "e \<le> i")
        case True
        then show ?thesis
          using "1.IH"(2) [OF False Cons True] False Cons by (simp add: delete_from.simps [of r s i] drop_nth [of i s])
      next
        case later: False
        have "suffix (drop e s) (drop i s)"
          using later by (metis drop_drop le_add_diff_inverse2 nat_le_linear suffix_drop)
        then show ?thesis
          using "1.IH"(3) [OF False Cons later] False Cons later
          by (simp add: delete_from.simps [of r s i]) (meson suffix_imp_subseq subseq_order.order_trans)
      qed
    qed
  qed
qed

lemma stripAnsi_subseq: "subseq (stripAnsi s) s"
  using delete_subseq [of ansi_pattern s 0] by (simp add: stripAnsi_def)

lemma trim_units_subseq: "subseq (trim_units s) s"
  unfolding trim_units_def using prefix_trim_end [of "trim_start s"] suffix_dropWhile [of is_space s]
  by (metis prefix_imp_subseq suffix_imp_subseq subseq_order.order_trans trim_start_def)

lemma collapse_subseq: "subseq (collapse_from s i) (drop i s)"
proof (induction s i rule: collapse_from.induct)
  case (1 s i)
  show ?case
  proof (cases "length s \<le> i")
    case True
    then show ?thesis
      by (simp add: collapse_from.simps)
  next
    case False
    show ?thesis
    proof (cases "dup_match s i")
      case None
      then show ?thesis
        using "1.IH"(1) [OF False None] False by (simp add: collapse_from.simps [of s i] drop_nth [of i s])
    next
      case (Some m)
      obtain e e3 where m: "m = (e, e3)"
        by force
      have b: "i \<le> e" "e < e3" "e3 \<le> length s"
        using dup_match_bounds [of s i e e3] Some False by (auto simp: m)
      then have out: "collapse_from s i = take (e - i) (drop i s) @ collapse_from s e3"
        using Some False by (simp add: collapse_from.simps [of s i] m)
      have "suffix (drop e3 s) (drop e s)"
        using b by (metis drop_drop le_add_diff_inverse2 less_imp_le suffix_drop)
      then have "subseq (collapse_from s e3) (drop e s)"
        using "1.IH"(3) [OF False Some [unfolded m] refl] b by (meson leD suffix_imp_subseq subseq_order.order_trans less_le_trans)
      moreover have "drop i s = take (e - i) (drop i s) @ drop e s"
        using b by (metis append_take_drop_id drop_drop le_add_diff_inverse2)
      ultimately show ?thesis
        unfolding out by (metis list_emb_append_mono subseq_order.order_refl)
    qed
  qed
qed

lemma collapse_all:
  "subseq (collapseAdjacentDuplicatePrompts s) s \<and>
   collapse_from (collapseAdjacentDuplicatePrompts s) 0 = collapseAdjacentDuplicatePrompts s"
proof (induction s rule: collapseAdjacentDuplicatePrompts.induct)
  case (1 s)
  show ?case
  proof (cases "collapse_from s 0 = s")
    case True
    then show ?thesis
      by (simp add: collapseAdjacentDuplicatePrompts.simps [of s])
  next
    case False
    have "subseq (collapse_from s 0) s"
      using collapse_subseq [of s 0] by simp
    then show ?thesis
      using "1.IH" [OF refl False] False
      by (simp add: collapseAdjacentDuplicatePrompts.simps [of s] Let_def) (meson subseq_order.order_trans)
  qed
qed

lemma concat_lines: "concat (splitLinesPreservingEndings s) = s"
proof (induction s rule: splitLinesPreservingEndings.induct)
  case (1 s)
  show ?case
  proof (cases "s = []")
    case False
    then show ?thesis
      using "1.IH" [OF False refl refl refl] by (subst splitLinesPreservingEndings.simps) (simp add: Let_def)
  qed (simp add: splitLinesPreservingEndings.simps)
qed

lemma banner_subseq: "subseq (stripRepeatedLeadingLoginBanner s) s"
proof -
  have "suffix (concat (drop n xs)) (concat xs)" for n and xs :: "code_units list"
    by (metis append_take_drop_id concat_append suffixI)
  then have "subseq (concat (drop n (splitLinesPreservingEndings s))) s" for n
    by (metis concat_lines suffix_imp_subseq)
  then show ?thesis
    by (simp add: stripRepeatedLeadingLoginBanner_def Let_def split: option.splits)
qed

lemma prompt_match_suffix: "prompt_match s = Some (p, r) \<Longrightarrow> suffix r s"
  by (auto simp: prompt_match_def List.map_filter_def suffix_drop dest!: first_of_SomeD split: if_splits)

lemma first_line_parts: "first_line s = Some (line, lineBreak, rest) \<Longrightarrow> s = line @ lineBreak @ rest"
  by (auto simp: first_line_def Let_def split: if_splits)

lemma leading_prompt_subseq: "subseq (stripLeadingDuplicateStartupPrompt s) s"
proof (cases "first_line s")
  case (Some t)
  obtain line lineBreak rest where t: "t = (line, lineBreak, rest)"
    by (cases t) auto
  have s: "s = line @ lineBreak @ rest"
    using first_line_parts Some t by simp
  have "subseq (trim_units r) line" if "prompt_match (trim_units (stripAnsi line)) = Some (p, r)" for p r
    using prompt_match_suffix [OF that] trim_units_subseq stripAnsi_subseq suffix_imp_subseq by (meson subseq_order.order_trans)
  then have "subseq (trim_units r @ lineBreak @ rest) s" if "prompt_match (trim_units (stripAnsi line)) = Some (p, r)" for p r
    unfolding s using that by (intro list_emb_append_mono) auto
  moreover have "subseq rest s"
    unfolding s by (simp add: suffix_imp_subseq suffix_def)
  ultimately show ?thesis
    by (auto simp: stripLeadingDuplicateStartupPrompt_def Some t Let_def split: option.splits)
qed (simp add: stripLeadingDuplicateStartupPrompt_def)

text \<open>
  Cleaning the first output only removes text: what is shown is a subsequence of what the session
  sent, and cleaning ends with a text in which no prompt stands twice side by side.
\<close>

theorem startup_output_only_shrinks:
  "subseq (normalizeStartupOutput output) output \<and>
   collapse_from (normalizeStartupOutput output) 0 = normalizeStartupOutput output"
proof
  have "subseq (dropWhile line_end output) output"
    by (simp add: suffix_dropWhile suffix_imp_subseq)
  then show "subseq (normalizeStartupOutput output) output"
    unfolding normalizeStartupOutput_def
    using collapse_all banner_subseq leading_prompt_subseq by (meson subseq_order.order_trans)
  show "collapse_from (normalizeStartupOutput output) 0 = normalizeStartupOutput output"
    unfolding normalizeStartupOutput_def using collapse_all by blast
qed

text \<open>The text of a command such as a window title is left in place, because only its opening is removed.\<close>

theorem title_text_is_left: "stripAnsi (0x1B # units '']0;t'' @ [0x07]) = units ''0;t'' @ [0x07]"
  by code_simp

end
