(* ===== verification/App_Update.thy ===== *)
theory App_Update
  imports Js_Json Js_Strings
begin

text \<open>
  The update of the application: what the runtime supports, the result of a check and the progress
  of a download (\<open>shared/tauri/appUpdate.ts\<close>), and the hook that checks, asks for consent and installs
  (\<open>features/settings/useAppUpdate.ts\<close>). A text of the interface is the key of its sentence in a
  language, or a text from outside. An error is its message. The updater plug-in and the commands of
  the desktop process answer in any order; what the hook asks of them is recorded.
\<close>

section \<open>Runtime\<close>

datatype AppDistributionMode = DesktopInstaller | DesktopPortable | DesktopAppimage | DesktopPackage | WebPreview

record AppRuntimeInfo =
  ri_version :: string
  ri_repositoryUrl :: string
  ri_distributionMode :: AppDistributionMode
  ri_isTauri :: bool

datatype update_locale = English | Chinese

datatype sentence =
    NoUpdateInWeb | NoUpdateInDev | PortableManual | PackageManual | RuntimeUnreadable | CheckingReleases | CheckFailedLater
  | CheckFailedNow | AlreadyLatest | NewVersionIs string | NewVersion | NothingToInstall | PreparingUpdate | StoppingMcp
  | InstallFailed | McpUnreadable | DownloadingUpdate | DownloadingPercent int | DownloadComplete | UpdateInstalled

datatype update_text = Localized update_locale sentence | Given string

definition fallbackVersion :: string where "fallbackVersion = ''0.1.0''"
definition repositoryUrl :: string where "repositoryUrl = ''https://github.com/DenisZheng/NexaTerm''"

definition webRuntimeInfo :: AppRuntimeInfo where
  "webRuntimeInfo = \<lparr>ri_version = fallbackVersion, ri_repositoryUrl = repositoryUrl, ri_distributionMode = WebPreview, ri_isTauri = False\<rparr>"

fun normalizeString :: "json option \<Rightarrow> string" where
  "normalizeString (Some (JStr s)) = js_trim s"
| "normalizeString _ = []"

fun json_truthy :: "json option \<Rightarrow> bool" where
  "json_truthy None = False"
| "json_truthy (Some JNull) = False"
| "json_truthy (Some (JBool b)) = b"
| "json_truthy (Some (JNum n)) = (n \<noteq> Finite 0 \<and> n \<noteq> NaN)"
| "json_truthy (Some (JStr s)) = (s \<noteq> [])"
| "json_truthy _ = True"

definition normalizeDistributionMode :: "bool \<Rightarrow> json option \<Rightarrow> AppDistributionMode" where
  "normalizeDistributionMode hasTauri v =
     (if v = Some (JStr ''desktop-installer'') then DesktopInstaller
      else if v = Some (JStr ''desktop-portable'') then DesktopPortable
      else if v = Some (JStr ''desktop-appimage'') then DesktopAppimage
      else if v = Some (JStr ''desktop-package'') then DesktopPackage
      else if v = Some (JStr ''web'') then WebPreview
      else if hasTauri then DesktopInstaller else WebPreview)"

definition or_text :: "string \<Rightarrow> string \<Rightarrow> string" where
  "or_text a b = (if a = [] then b else a)"

definition normalizeRuntimeInfo :: "bool \<Rightarrow> json \<Rightarrow> AppRuntimeInfo" where
  "normalizeRuntimeInfo hasTauri v =
     (let record = (case v of JObj fs \<Rightarrow> fs | _ \<Rightarrow> []); mode = field record ''distributionMode''
      in \<lparr>ri_version = or_text (normalizeString (field record ''version'')) fallbackVersion,
          ri_repositoryUrl = or_text (normalizeString (field record ''repositoryUrl''))
            (or_text (normalizeString (field record ''repository_url'')) repositoryUrl),
          ri_distributionMode = normalizeDistributionMode hasTauri (if json_truthy mode then mode else field record ''distribution_mode''),
          ri_isTauri = (field record ''isTauri'' \<noteq> Some (JBool False) \<and> field record ''is_tauri'' \<noteq> Some (JBool False))\<rparr>)"

definition getAppRuntimeInfo :: "bool \<Rightarrow> string + json \<Rightarrow> string + AppRuntimeInfo" where
  "getAppRuntimeInfo hasTauri answer =
     (if \<not> hasTauri then Inr webRuntimeInfo else case answer of Inl e \<Rightarrow> Inl e | Inr v \<Rightarrow> Inr (normalizeRuntimeInfo hasTauri v))"

definition getUnsupportedUpdateMessage :: "bool \<Rightarrow> AppRuntimeInfo \<Rightarrow> update_locale \<Rightarrow> update_text option" where
  "getUnsupportedUpdateMessage dev info locale =
     (if \<not> ri_isTauri info \<or> ri_distributionMode info = WebPreview then Some (Localized locale NoUpdateInWeb)
      else if dev then Some (Localized locale NoUpdateInDev)
      else if ri_distributionMode info = DesktopPortable then Some (Localized locale PortableManual)
      else if ri_distributionMode info = DesktopPackage then Some (Localized locale PackageManual)
      else None)"

section \<open>Checking and downloading\<close>

text \<open>An update the plug-in found: its handle, its version and its notes.\<close>

record found_update =
  fu_handle :: nat
  fu_version :: string
  fu_body :: string

datatype AppUpdateStatus = Idle | Checking | Latest | Available | Installing | Failed | Unsupported

record AppUpdateCheckResult =
  cr_message :: update_text
  cr_runtimeInfo :: AppRuntimeInfo
  cr_status :: AppUpdateStatus
  cr_update :: "found_update option"
  cr_version :: "string option"

definition error_text :: "string \<Rightarrow> update_text \<Rightarrow> update_text" where
  "error_text e fallback = (if js_trim e \<noteq> [] then Given e else fallback)"

definition checkForAppUpdate ::
  "bool \<Rightarrow> update_locale \<Rightarrow> bool \<Rightarrow> string + AppRuntimeInfo \<Rightarrow> string + found_update option \<Rightarrow> AppUpdateCheckResult option" where
  "checkForAppUpdate dev locale silent runtime found =
     (case runtime of
        Inl e \<Rightarrow> if silent then None
          else Some \<lparr>cr_message = error_text e (Localized locale RuntimeUnreadable), cr_runtimeInfo = webRuntimeInfo,
            cr_status = Failed, cr_update = None, cr_version = None\<rparr>
      | Inr info \<Rightarrow>
          (case getUnsupportedUpdateMessage dev info locale of
             Some m \<Rightarrow> Some \<lparr>cr_message = m, cr_runtimeInfo = info, cr_status = Unsupported, cr_update = None, cr_version = None\<rparr>
           | None \<Rightarrow>
               (case found of
                  Inl e \<Rightarrow> if silent then None
                    else Some \<lparr>cr_message = error_text e (Localized locale CheckFailedNow), cr_runtimeInfo = info,
                      cr_status = Failed, cr_update = None, cr_version = None\<rparr>
                | Inr None \<Rightarrow> Some \<lparr>cr_message = Localized locale AlreadyLatest, cr_runtimeInfo = info, cr_status = Latest,
                    cr_update = None, cr_version = None\<rparr>
                | Inr (Some u) \<Rightarrow>
                    let version = truthy (Some (js_trim (fu_version u))); body = js_trim (fu_body u)
                    in Some \<lparr>cr_message = (if body \<noteq> [] then Given body
                         else Localized locale (case version of Some v \<Rightarrow> NewVersionIs v | None \<Rightarrow> NewVersion)),
                       cr_runtimeInfo = info, cr_status = Available, cr_update = Some u, cr_version = version\<rparr>)))"

datatype DownloadEvent = DownloadStarted "nat option" | DownloadProgress nat | DownloadFinished

record UpdateDownloadProgressState =
  dp_downloaded :: nat
  dp_total :: nat

definition formatUpdateDownloadProgress ::
  "DownloadEvent \<Rightarrow> UpdateDownloadProgressState \<Rightarrow> update_locale \<Rightarrow> update_text \<times> UpdateDownloadProgressState" where
  "formatUpdateDownloadProgress event state locale =
     (let state = (case event of
            DownloadStarted n \<Rightarrow> \<lparr>dp_downloaded = 0, dp_total = (case n of None \<Rightarrow> 0 | Some t \<Rightarrow> t)\<rparr>
          | DownloadProgress n \<Rightarrow> state\<lparr>dp_downloaded := dp_downloaded state + n\<rparr>
          | DownloadFinished \<Rightarrow> state)
      in (Localized locale
           (if event = DownloadFinished then DownloadComplete
            else if dp_total state = 0 then DownloadingUpdate
            else DownloadingPercent (min 100 \<lfloor>(of_nat (dp_downloaded state) :: rat) / of_nat (dp_total state) * 100 + 1 / 2\<rfloor>)), state))"

text \<open>The percentage shown is between 0 and 100, whatever sizes are reported.\<close>

lemma download_percent_bounds:
  "fst (formatUpdateDownloadProgress event state locale) = Localized l (DownloadingPercent p) \<Longrightarrow> 0 \<le> p \<and> p \<le> 100"
  by (auto simp: formatUpdateDownloadProgress_def Let_def split: DownloadEvent.splits if_splits)

section \<open>The hook\<close>

text \<open>The requests in flight, each with what its continuation has captured.\<close>

datatype update_request =
    RuntimeRequest nat update_locale
  | CheckRequest bool update_locale "AppRuntimeInfo option"
  | BlockersRequest found_update update_locale
  | StopRequest found_update update_locale
  | InstallRequest found_update bool update_locale UpdateDownloadProgressState
  | RelaunchRequest found_update bool update_locale
  | CloseRequest "(bool \<times> update_text) option"
  | RestartRequest update_text

text \<open>
  What is asked of the desktop process. \<open>StartMcp\<close> is the request to start the service again: the code
  swallows its failure, so the request does not say that the service runs.
\<close>

datatype update_call = Download found_update bool | Relaunch | CloseUpdate found_update | StopMcp | StartMcp

record update_hook =
  uh_autoCheck :: bool
  uh_locale :: update_locale
  uh_runtimeInfo :: "AppRuntimeInfo option"
  uh_status :: AppUpdateStatus
  uh_message :: "update_text option"
  uh_updateVersion :: "string option"
  uh_update :: "found_update option"
  uh_installProgress :: "update_text option"
  uh_dismissedVersion :: "string option"
  uh_confirmationOpen :: bool
  uh_processCount :: nat
  uh_lastAutoCheck :: "string option"
  uh_generation :: nat
  uh_installed :: bool
  uh_requests :: "update_request list"
  uh_calls :: "update_call list"

definition ask :: "update_request \<Rightarrow> update_hook \<Rightarrow> update_hook" where
  "ask r v = v\<lparr>uh_requests := uh_requests v @ [r]\<rparr>"

definition load_runtime :: "update_hook \<Rightarrow> update_hook" where
  "load_runtime v = (let v = v\<lparr>uh_generation := uh_generation v + 1\<rparr> in ask (RuntimeRequest (uh_generation v) (uh_locale v)) v)"

definition runCheck :: "bool \<Rightarrow> update_hook \<Rightarrow> update_hook" where
  "runCheck silent v =
     ask (CheckRequest silent (uh_locale v) (uh_runtimeInfo v))
       (v\<lparr>uh_status := Checking, uh_message := (if silent then None else Some (Localized (uh_locale v) CheckingReleases)),
         uh_installProgress := None\<rparr>)"

definition auto_check_effect :: "bool \<Rightarrow> update_hook \<Rightarrow> update_hook" where
  "auto_check_effect dev v =
     (case uh_runtimeInfo v of
        None \<Rightarrow> v
      | Some info \<Rightarrow>
          if \<not> uh_autoCheck v \<or> getUnsupportedUpdateMessage dev info (uh_locale v) \<noteq> None \<or> uh_lastAutoCheck v = Some (ri_version info) then v
          else runCheck True (v\<lparr>uh_lastAutoCheck := Some (ri_version info)\<rparr>))"

definition runtime_loaded :: "bool \<Rightarrow> nat \<Rightarrow> update_locale \<Rightarrow> string + AppRuntimeInfo \<Rightarrow> update_hook \<Rightarrow> update_hook" where
  "runtime_loaded dev generation locale answer v =
     (if generation \<noteq> uh_generation v then v
      else case answer of
             Inl e \<Rightarrow> v\<lparr>uh_status := Failed, uh_message := Some (error_text e (Localized locale RuntimeUnreadable))\<rparr>
           | Inr info \<Rightarrow>
               let m = getUnsupportedUpdateMessage dev info locale
               in v\<lparr>uh_runtimeInfo := Some info, uh_status := (if m \<noteq> None then Unsupported else Idle), uh_message := m\<rparr>)"

definition applyCheckResult :: "AppUpdateCheckResult \<Rightarrow> update_hook \<Rightarrow> update_hook" where
  "applyCheckResult r v =
     (let v = v\<lparr>uh_runtimeInfo := Some (cr_runtimeInfo r), uh_message := Some (cr_message r), uh_installProgress := None, uh_status := cr_status r\<rparr>
      in if cr_status r = Available then v\<lparr>uh_update := cr_update r, uh_updateVersion := cr_version r\<rparr>
         else v\<lparr>uh_update := None, uh_updateVersion := None\<rparr>)"

definition check_answered ::
  "bool \<Rightarrow> bool \<Rightarrow> update_locale \<Rightarrow> AppRuntimeInfo option \<Rightarrow> string + AppRuntimeInfo \<Rightarrow> string + found_update option \<Rightarrow> update_hook \<Rightarrow> update_hook" where
  "check_answered dev silent locale captured runtime found v =
     (case checkForAppUpdate dev locale silent runtime found of
        Some r \<Rightarrow> applyCheckResult r v
      | None \<Rightarrow>
          if \<not> silent then v\<lparr>uh_status := Failed, uh_message := Some (Localized locale CheckFailedLater)\<rparr>
          else case captured of
                 None \<Rightarrow> v
               | Some info \<Rightarrow> let m = getUnsupportedUpdateMessage dev info locale
                   in v\<lparr>uh_status := (if m \<noteq> None then Unsupported else Idle), uh_message := m\<rparr>)"

definition nothing_to_install :: "update_hook \<Rightarrow> update_hook" where
  "nothing_to_install v = v\<lparr>uh_status := Failed, uh_message := Some (Localized (uh_locale v) NothingToInstall)\<rparr>"

definition download_update :: "found_update \<Rightarrow> bool \<Rightarrow> update_locale \<Rightarrow> update_hook \<Rightarrow> update_hook" where
  "download_update u stopped locale v =
     ask (InstallRequest u stopped locale \<lparr>dp_downloaded = 0, dp_total = 0\<rparr>)
       (v\<lparr>uh_installProgress := Some (Localized locale PreparingUpdate), uh_calls := uh_calls v @ [Download u stopped]\<rparr>)"

definition performInstall :: "bool \<Rightarrow> found_update \<Rightarrow> update_locale \<Rightarrow> update_hook \<Rightarrow> update_hook" where
  "performInstall stopMcpProcesses u locale v =
     (let v = v\<lparr>uh_status := Installing, uh_installProgress := Some (Localized locale PreparingUpdate), uh_message := None\<rparr>
      in if stopMcpProcesses then
           ask (StopRequest u locale) (v\<lparr>uh_installProgress := Some (Localized locale StoppingMcp), uh_calls := uh_calls v @ [StopMcp]\<rparr>)
         else download_update u False locale v)"

definition installNow :: "update_hook \<Rightarrow> update_hook" where
  "installNow v = (case uh_update v of None \<Rightarrow> nothing_to_install v | Some u \<Rightarrow> ask (BlockersRequest u (uh_locale v)) v)"

definition confirmInstallAfterMcpStop :: "update_hook \<Rightarrow> update_hook" where
  "confirmInstallAfterMcpStop v =
     (let v = v\<lparr>uh_confirmationOpen := False\<rparr>
      in case uh_update v of None \<Rightarrow> nothing_to_install v | Some u \<Rightarrow> performInstall True u (uh_locale v) v)"

definition cancelInstallAfterMcpStop :: "update_hook \<Rightarrow> update_hook" where
  "cancelInstallAfterMcpStop v = v\<lparr>uh_confirmationOpen := False\<rparr>"

definition dismissWorkspaceNotice :: "update_hook \<Rightarrow> update_hook" where
  "dismissWorkspaceNotice v = (case truthy (uh_updateVersion v) of None \<Rightarrow> v | Some x \<Rightarrow> v\<lparr>uh_dismissedVersion := Some x\<rparr>)"

definition install_failed :: "update_text \<Rightarrow> update_hook \<Rightarrow> update_hook" where
  "install_failed m v = v\<lparr>uh_status := Failed, uh_message := Some m\<rparr>"

text \<open>
  The handle of the update is closed in any case; only then does the error of an installation reach
  the hook, which asks for the service to be started again when it had been stopped. \<open>CloseRequest\<close>
  carries that error with \<open>mcpStopped\<close>, or nothing after a successful restart of the application.
\<close>

definition close_update :: "found_update \<Rightarrow> (bool \<times> update_text) option \<Rightarrow> update_hook \<Rightarrow> update_hook" where
  "close_update u failure v = ask (CloseRequest failure) (v\<lparr>uh_calls := uh_calls v @ [CloseUpdate u]\<rparr>)"

definition installation_failed :: "bool \<Rightarrow> update_text \<Rightarrow> update_hook \<Rightarrow> update_hook" where
  "installation_failed stopped m v =
     (if stopped then ask (RestartRequest m) (v\<lparr>uh_calls := uh_calls v @ [StartMcp]\<rparr>) else install_failed m v)"

definition update_closed :: "(bool \<times> update_text) option \<Rightarrow> update_hook \<Rightarrow> update_hook" where
  "update_closed failure v = (case failure of None \<Rightarrow> v | Some (stopped, m) \<Rightarrow> installation_failed stopped m v)"

definition installAppUpdate :: "found_update \<Rightarrow> bool \<Rightarrow> update_locale \<Rightarrow> string option \<Rightarrow> update_hook \<Rightarrow> update_hook" where
  "installAppUpdate u stopped locale answer v =
     (case answer of
        Some e \<Rightarrow> close_update u (Some (stopped, error_text e (Localized locale InstallFailed))) v
      | None \<Rightarrow> ask (RelaunchRequest u stopped locale)
          (v\<lparr>uh_installProgress := Some (Localized locale UpdateInstalled), uh_calls := uh_calls v @ [Relaunch]\<rparr>))"

definition relaunched :: "found_update \<Rightarrow> bool \<Rightarrow> update_locale \<Rightarrow> string option \<Rightarrow> update_hook \<Rightarrow> update_hook" where
  "relaunched u stopped locale answer v =
     (case answer of
        Some e \<Rightarrow> close_update u (Some (stopped, error_text e (Localized locale InstallFailed))) v
      | None \<Rightarrow> close_update u None (v\<lparr>uh_installed := True\<rparr>))"

definition blockers_answered :: "found_update \<Rightarrow> update_locale \<Rightarrow> string + nat \<Rightarrow> update_hook \<Rightarrow> update_hook" where
  "blockers_answered u locale answer v =
     (case answer of
        Inl e \<Rightarrow> install_failed (error_text e (Localized locale McpUnreadable)) v
      | Inr n \<Rightarrow> if 0 < n then v\<lparr>uh_processCount := n, uh_confirmationOpen := True\<rparr> else performInstall False u locale v)"

definition stop_answered :: "found_update \<Rightarrow> update_locale \<Rightarrow> string option \<Rightarrow> update_hook \<Rightarrow> update_hook" where
  "stop_answered u locale answer v =
     (case answer of
        Some e \<Rightarrow> install_failed (error_text e (Localized locale InstallFailed)) v
      | None \<Rightarrow> download_update u True locale v)"

datatype update_answer =
    RuntimeAnswer "string + AppRuntimeInfo"
  | CheckAnswer "string + AppRuntimeInfo" "string + found_update option"
  | BlockersAnswer "string + nat"
  | DoneAnswer "string option"

fun update_answered :: "bool \<Rightarrow> update_request \<Rightarrow> update_answer \<Rightarrow> update_hook \<Rightarrow> update_hook" where
  "update_answered dev (RuntimeRequest g locale) (RuntimeAnswer a) v = runtime_loaded dev g locale a v"
| "update_answered dev (CheckRequest silent locale captured) (CheckAnswer runtime found) v = check_answered dev silent locale captured runtime found v"
| "update_answered dev (BlockersRequest u locale) (BlockersAnswer a) v = blockers_answered u locale a v"
| "update_answered dev (StopRequest u locale) (DoneAnswer a) v = stop_answered u locale a v"
| "update_answered dev (InstallRequest u stopped locale p) (DoneAnswer a) v = installAppUpdate u stopped locale a v"
| "update_answered dev (RelaunchRequest u stopped locale) (DoneAnswer a) v = relaunched u stopped locale a v"
| "update_answered dev (CloseRequest failure) (DoneAnswer a) v = update_closed failure v"
| "update_answered dev (RestartRequest m) (DoneAnswer a) v = install_failed m v"
| "update_answered dev _ _ v = v"

fun fits_request :: "update_request \<Rightarrow> update_answer \<Rightarrow> bool" where
  "fits_request (RuntimeRequest g l) a \<longleftrightarrow> (case a of RuntimeAnswer _ \<Rightarrow> True | _ \<Rightarrow> False)"
| "fits_request (CheckRequest s l c) a \<longleftrightarrow> (case a of CheckAnswer _ _ \<Rightarrow> True | _ \<Rightarrow> False)"
| "fits_request (BlockersRequest u l) a \<longleftrightarrow> (case a of BlockersAnswer _ \<Rightarrow> True | _ \<Rightarrow> False)"
| "fits_request _ a \<longleftrightarrow> (case a of DoneAnswer _ \<Rightarrow> True | _ \<Rightarrow> False)"

text \<open>A download event reaches the installation that is waiting for it.\<close>

definition download_event :: "nat \<Rightarrow> DownloadEvent \<Rightarrow> update_hook \<Rightarrow> update_hook" where
  "download_event n event v =
     (if n < length (uh_requests v) then
        case uh_requests v ! n of
          InstallRequest u stopped locale p \<Rightarrow>
            (let (message, q) = formatUpdateDownloadProgress event p locale
             in v\<lparr>uh_installProgress := Some message, uh_requests := (uh_requests v)[n := InstallRequest u stopped locale q]\<rparr>)
        | _ \<Rightarrow> v
      else v)"

datatype update_event =
    CheckNow | InstallNow | ConfirmInstall | CancelInstall | DismissNotice | ChangeLocale update_locale | ChangeAutoCheck bool
  | DownloadEventArrived nat DownloadEvent | UpdateAnswered nat update_answer

fun update_operation :: "bool \<Rightarrow> update_hook \<Rightarrow> update_event \<Rightarrow> update_hook" where
  "update_operation dev v CheckNow = runCheck False v"
| "update_operation dev v InstallNow = installNow v"
| "update_operation dev v ConfirmInstall = confirmInstallAfterMcpStop v"
| "update_operation dev v CancelInstall = cancelInstallAfterMcpStop v"
| "update_operation dev v DismissNotice = dismissWorkspaceNotice v"
| "update_operation dev v (ChangeLocale l) = (if l = uh_locale v then v else load_runtime (v\<lparr>uh_locale := l\<rparr>))"
| "update_operation dev v (ChangeAutoCheck b) = v\<lparr>uh_autoCheck := b\<rparr>"
| "update_operation dev v (DownloadEventArrived n event) = download_event n event v"
| "update_operation dev v (UpdateAnswered n a) =
     (if n < length (uh_requests v) \<and> fits_request (uh_requests v ! n) a then
        update_answered dev (uh_requests v ! n) a (v\<lparr>uh_requests := take n (uh_requests v) @ drop (Suc n) (uh_requests v)\<rparr>)
      else v)"

text \<open>The effect of the automatic check runs again when one of its dependencies has changed.\<close>

definition update_step :: "bool \<Rightarrow> update_hook \<Rightarrow> update_event \<Rightarrow> update_hook" where
  "update_step dev v e =
     (let v' = update_operation dev v e
      in if uh_autoCheck v' = uh_autoCheck v \<and> uh_runtimeInfo v' = uh_runtimeInfo v \<and> uh_locale v' = uh_locale v then v'
         else auto_check_effect dev v')"

definition initial_update :: "bool \<Rightarrow> update_locale \<Rightarrow> update_hook" where
  "initial_update autoCheck locale = load_runtime
     \<lparr>uh_autoCheck = autoCheck, uh_locale = locale, uh_runtimeInfo = None, uh_status = Idle, uh_message = None,
      uh_updateVersion = None, uh_update = None, uh_installProgress = None, uh_dismissedVersion = None,
      uh_confirmationOpen = False, uh_processCount = 0, uh_lastAutoCheck = None, uh_generation = 0, uh_installed = False,
      uh_requests = [], uh_calls = []\<rparr>"

definition workspaceNoticeVisible :: "update_hook \<Rightarrow> bool" where
  "workspaceNoticeVisible v \<longleftrightarrow> uh_status v = Available \<and> truthy (uh_updateVersion v) \<noteq> None \<and> uh_dismissedVersion v \<noteq> uh_updateVersion v"

definition canInstall :: "update_hook \<Rightarrow> bool" where
  "canInstall v \<longleftrightarrow> uh_status v = Available \<and> uh_update v \<noteq> None"

definition shown_message :: "update_hook \<Rightarrow> update_text option" where
  "shown_message v = (if uh_status v = Installing then uh_installProgress v else uh_message v)"

datatype status_label =
  LabelChecking | LabelUpToDate | LabelFound string | LabelAvailable | LabelInstalling | LabelCheckFailed | LabelUnsupported
| LabelAutomatic | LabelManual

definition statusLabel :: "update_hook \<Rightarrow> status_label" where
  "statusLabel v = (case uh_status v of
     Checking \<Rightarrow> LabelChecking
   | Latest \<Rightarrow> LabelUpToDate
   | Available \<Rightarrow> (case truthy (uh_updateVersion v) of Some x \<Rightarrow> LabelFound x | None \<Rightarrow> LabelAvailable)
   | Installing \<Rightarrow> LabelInstalling
   | Failed \<Rightarrow> LabelCheckFailed
   | Unsupported \<Rightarrow> LabelUnsupported
   | Idle \<Rightarrow> if uh_autoCheck v then LabelAutomatic else LabelManual)"

definition workspaceNoticeLabel :: "update_hook \<Rightarrow> sentence option" where
  "workspaceNoticeLabel v =
     (if uh_status v = Available then Some (case truthy (uh_updateVersion v) of Some x \<Rightarrow> NewVersionIs x | None \<Rightarrow> NewVersion) else None)"

definition run_update :: "bool \<Rightarrow> update_hook \<Rightarrow> update_event list \<Rightarrow> update_hook" where
  "run_update dev = foldl (update_step dev)"

section \<open>The hook is never stuck\<close>

fun checks :: "update_request \<Rightarrow> bool" where
  "checks (CheckRequest _ _ _) = True"
| "checks _ = False"

fun installs :: "update_request \<Rightarrow> bool" where
  "installs (StopRequest _ _) = True"
| "installs (InstallRequest _ _ _ _) = True"
| "installs (RelaunchRequest _ _ _) = True"
| "installs (CloseRequest failure) = (failure \<noteq> None)"
| "installs (RestartRequest _) = True"
| "installs _ = False"

fun after_stop :: "update_request \<Rightarrow> bool" where
  "after_stop (InstallRequest _ stopped _ _) = stopped"
| "after_stop (RelaunchRequest _ stopped _) = stopped"
| "after_stop (CloseRequest (Some (stopped, _))) = stopped"
| "after_stop _ = False"

fun forgetful :: "update_request \<Rightarrow> bool" where
  "forgetful (CheckRequest True _ None) = True"
| "forgetful _ = False"

text \<open>
  What the desktop process does is seen from the events alone: the service stops when a request to
  stop it is answered with success.
\<close>

fun stops_service :: "update_hook \<Rightarrow> update_event \<Rightarrow> bool" where
  "stops_service v (UpdateAnswered n (DoneAnswer None)) =
     (n < length (uh_requests v) \<and> (case uh_requests v ! n of StopRequest _ _ \<Rightarrow> True | _ \<Rightarrow> False))"
| "stops_service v _ = False"

fun service_stops :: "bool \<Rightarrow> update_hook \<Rightarrow> update_event list \<Rightarrow> nat" where
  "service_stops dev v [] = 0"
| "service_stops dev v (e # es) = of_bool (stops_service v e) + service_stops dev (update_step dev v e) es"

definition service_starts :: "update_hook \<Rightarrow> nat" where
  "service_starts v = length (filter (\<lambda>c. c = StartMcp) (uh_calls v))"

text \<open>
  A hook that shows a check or an installation waits for one, a silent check has captured the runtime
  it falls back to, and for each of the \<open>k\<close> stops of the service an installation is still going on or
  a start has been asked for.
\<close>

definition hook_ok :: "nat \<Rightarrow> update_hook \<Rightarrow> bool" where
  "hook_ok k v \<longleftrightarrow>
     (uh_status v = Checking \<longrightarrow> list_ex checks (uh_requests v)) \<and>
     (uh_status v = Installing \<longrightarrow> uh_installed v \<or> list_ex installs (uh_requests v)) \<and>
     list_all (\<lambda>r. \<not> forgetful r) (uh_requests v) \<and>
     (\<not> uh_installed v \<longrightarrow> k = service_starts v + length (filter after_stop (uh_requests v)))"

lemmas hook_ops = ask_def load_runtime_def runCheck_def auto_check_effect_def runtime_loaded_def applyCheckResult_def
  nothing_to_install_def download_update_def performInstall_def installNow_def confirmInstallAfterMcpStop_def
  cancelInstallAfterMcpStop_def dismissWorkspaceNotice_def install_failed_def installation_failed_def close_update_def
  update_closed_def installAppUpdate_def
  relaunched_def blockers_answered_def stop_answered_def Let_def

lemma check_result_status:
  "checkForAppUpdate dev locale silent runtime found = Some r \<Longrightarrow> cr_status r \<noteq> Checking \<and> cr_status r \<noteq> Installing"
  by (auto simp: checkForAppUpdate_def Let_def split: sum.splits option.splits if_splits)

lemma check_answered_ok:
  assumes "hook_ok k (v\<lparr>uh_requests := a @ CheckRequest silent locale captured # b\<rparr>)"
  shows "hook_ok k (check_answered dev silent locale captured runtime found (v\<lparr>uh_requests := a @ b\<rparr>))"
  using assms check_result_status [of dev "locale" silent runtime found]
  by (cases silent; cases captured)
     (auto simp: hook_ok_def service_starts_def check_answered_def applyCheckResult_def Let_def split: option.splits)

fun confirms_stop :: "update_request \<Rightarrow> update_answer \<Rightarrow> bool" where
  "confirms_stop (StopRequest _ _) (DoneAnswer None) = True"
| "confirms_stop _ _ = False"

lemma update_answered_ok:
  assumes "hook_ok k (v\<lparr>uh_requests := a @ r # b\<rparr>)" "fits_request r answer"
  shows "hook_ok (of_bool (confirms_stop r answer) + k) (update_answered dev r answer (v\<lparr>uh_requests := a @ b\<rparr>))"
proof (cases r)
  case (CheckRequest silent l captured)
  then show ?thesis
    using assms check_answered_ok by (auto split: update_answer.splits)
qed (use assms in \<open>auto simp: hook_ok_def service_starts_def hook_ops split: update_answer.splits option.splits sum.splits\<close>)

lemma list_update_same:
  assumes "n < length xs" "P x = P (xs ! n)"
  shows "list_ex P (xs[n := x]) = list_ex P xs" "list_all P (xs[n := x]) = list_all P xs"
    "length (filter P (xs[n := x])) = length (filter P xs)"
proof -
  have "xs = take n xs @ xs ! n # drop (Suc n) xs" "xs[n := x] = take n xs @ x # drop (Suc n) xs"
    using assms(1) by (simp_all add: id_take_nth_drop upd_conv_take_nth_drop)
  moreover have "list_ex P (take n xs @ x # drop (Suc n) xs) = list_ex P (take n xs @ xs ! n # drop (Suc n) xs)"
    "list_all P (take n xs @ x # drop (Suc n) xs) = list_all P (take n xs @ xs ! n # drop (Suc n) xs)"
    "length (filter P (take n xs @ x # drop (Suc n) xs)) = length (filter P (take n xs @ xs ! n # drop (Suc n) xs))"
    using assms(2) by simp_all
  ultimately show "list_ex P (xs[n := x]) = list_ex P xs" "list_all P (xs[n := x]) = list_all P xs"
    "length (filter P (xs[n := x])) = length (filter P xs)"
    by simp_all
qed

lemma download_event_ok: "hook_ok k v \<Longrightarrow> hook_ok k (download_event n event v)"
  by (auto simp: hook_ok_def service_starts_def download_event_def list_update_same split: update_request.split prod.split)

lemma stops_confirmed:
  "stops_service v (UpdateAnswered n answer) \<longleftrightarrow> n < length (uh_requests v) \<and> confirms_stop (uh_requests v ! n) answer"
  by (cases "(v, UpdateAnswered n answer)" rule: stops_service.cases; cases "uh_requests v ! n") auto

lemma confirms_fits: "confirms_stop r answer \<Longrightarrow> fits_request r answer"
  by (induction r answer rule: confirms_stop.induct) auto

lemma update_operation_ok:
  assumes "hook_ok k v"
  shows "hook_ok (of_bool (stops_service v e) + k) (update_operation dev v e)"
proof (cases e)
  case (UpdateAnswered n answer)
  show ?thesis
  proof (cases "n < length (uh_requests v) \<and> fits_request (uh_requests v ! n) answer")
    case True
    then have "v = v\<lparr>uh_requests := take n (uh_requests v) @ uh_requests v ! n # drop (Suc n) (uh_requests v)\<rparr>"
      by (simp add: id_take_nth_drop [symmetric])
    then show ?thesis
      using True UpdateAnswered assms stops_confirmed [of v n answer]
        update_answered_ok [where v = v and k = k and a = "take n (uh_requests v)" and r = "uh_requests v ! n" and b = "drop (Suc n) (uh_requests v)"]
      by simp
  next
    case False
    then have "\<not> stops_service v e" "update_operation dev v e = v"
      using UpdateAnswered confirms_fits by (auto simp: stops_confirmed)
    then show ?thesis
      using assms by simp
  qed
next
  case (DownloadEventArrived n event)
  then show ?thesis
    using assms by (simp add: download_event_ok)
qed (use assms in \<open>auto simp: hook_ok_def service_starts_def hook_ops split: option.splits\<close>)

lemma auto_check_ok: "hook_ok k v \<Longrightarrow> hook_ok k (auto_check_effect dev v)"
  by (auto simp: hook_ok_def service_starts_def auto_check_effect_def runCheck_def ask_def split: option.splits)

lemma update_step_ok: "hook_ok k v \<Longrightarrow> hook_ok (of_bool (stops_service v e) + k) (update_step dev v e)"
  by (simp add: update_step_def Let_def update_operation_ok auto_check_ok)

lemma run_update_ok: "hook_ok k v \<Longrightarrow> hook_ok (service_stops dev v es + k) (run_update dev v es)"
proof (induction es arbitrary: k v)
  case (Cons e es)
  from Cons.IH [OF update_step_ok [OF Cons.prems]] show ?case
    by (simp add: run_update_def add_ac)
qed (simp add: run_update_def)

lemma initial_update_ok: "hook_ok 0 (initial_update autoCheck locale)"
  by (simp add: hook_ok_def service_starts_def initial_update_def load_runtime_def ask_def Let_def)

text \<open>
  C40. Whatever the user does and in whatever order the answers arrive, once every request has been
  answered the hook shows neither a check nor an installation, unless the update is installed, and
  the service has been asked to start again as often as it had been stopped for an installation.
\<close>

theorem update_hook_settles:
  assumes "uh_requests (run_update dev (initial_update autoCheck l) es) = []"
    and "\<not> uh_installed (run_update dev (initial_update autoCheck l) es)"
  shows "uh_status (run_update dev (initial_update autoCheck l) es) \<notin> {Checking, Installing} \<and>
    service_stops dev (initial_update autoCheck l) es = service_starts (run_update dev (initial_update autoCheck l) es)"
  using run_update_ok [OF initial_update_ok, of dev autoCheck l es] assms by (auto simp: hook_ok_def)

definition example_runtime :: AppRuntimeInfo where
  "example_runtime = \<lparr>ri_version = ''1.0'', ri_repositoryUrl = repositoryUrl, ri_distributionMode = DesktopInstaller, ri_isTauri = True\<rparr>"

definition example_update :: found_update where
  "example_update = \<lparr>fu_handle = 1, fu_version = ''1.1'', fu_body = []\<rparr>"

text \<open>The download fails after the service has been stopped.\<close>

definition failing_events :: "update_event list" where
  "failing_events =
     [UpdateAnswered 0 (RuntimeAnswer (Inr example_runtime)),
      UpdateAnswered 0 (CheckAnswer (Inr example_runtime) (Inr (Some example_update))),
      InstallNow, UpdateAnswered 0 (BlockersAnswer (Inr 2)), ConfirmInstall, UpdateAnswered 0 (DoneAnswer None),
      DownloadEventArrived 0 (DownloadStarted (Some 10)), DownloadEventArrived 0 (DownloadProgress 3),
      UpdateAnswered 0 (DoneAnswer (Some ''offline'')), UpdateAnswered 0 (DoneAnswer None), UpdateAnswered 0 (DoneAnswer None)]"

definition failing_update :: update_hook where
  "failing_update = run_update False (initial_update True English) failing_events"

lemma failing_update_state:
  "uh_requests failing_update = []" "\<not> uh_installed failing_update" "uh_status failing_update = Failed"
  "uh_calls failing_update = [StopMcp, Download example_update True, CloseUpdate example_update, StartMcp]"
  "service_stops False (initial_update True English) failing_events = 1"
  by code_simp+

theorem update_hook_settles_witness:
  "uh_status failing_update \<notin> {Checking, Installing} \<and> service_starts failing_update = 1"
  using update_hook_settles [of False True English failing_events] failing_update_state
  by (simp add: failing_update_def [symmetric])

section \<open>Consent\<close>

fun new_calls :: "update_hook \<Rightarrow> update_hook \<Rightarrow> update_call list" where
  "new_calls v v' = drop (length (uh_calls v)) (uh_calls v')"

lemma auto_check_calls [simp]: "uh_calls (auto_check_effect dev v) = uh_calls v"
  by (simp add: auto_check_effect_def runCheck_def ask_def split: option.split)

lemma update_step_calls: "uh_calls (update_step dev v e) = uh_calls (update_operation dev v e)"
  by (simp add: update_step_def Let_def)

lemma update_answered_calls:
  "uh_calls (update_answered dev r answer v) = uh_calls v @
     (case (r, answer) of
        (BlockersRequest u l, BlockersAnswer (Inr n)) \<Rightarrow> if 0 < n then [] else [Download u False]
      | (StopRequest u l, DoneAnswer None) \<Rightarrow> [Download u True]
      | (InstallRequest u stopped l p, DoneAnswer None) \<Rightarrow> [Relaunch]
      | (InstallRequest u stopped l p, DoneAnswer (Some e)) \<Rightarrow> [CloseUpdate u]
      | (RelaunchRequest u stopped l, DoneAnswer a) \<Rightarrow> [CloseUpdate u]
      | (CloseRequest (Some (True, m)), DoneAnswer a) \<Rightarrow> [StartMcp]
      | _ \<Rightarrow> [])"
  by (cases r; cases answer)
     (auto simp: hook_ops check_answered_def split: option.splits sum.splits bool.splits)

lemma operation_calls:
  "uh_calls (update_operation dev v e) = uh_calls v @
     (case e of
        ConfirmInstall \<Rightarrow> if uh_update v = None then [] else [StopMcp]
      | UpdateAnswered n answer \<Rightarrow>
          if n < length (uh_requests v) \<and> fits_request (uh_requests v ! n) answer
          then drop (length (uh_calls v)) (uh_calls (update_answered dev (uh_requests v ! n) answer v)) else []
      | _ \<Rightarrow> [])"
  by (cases e) (auto simp: hook_ops update_answered_calls download_event_def split: option.splits update_request.splits prod.splits)

text \<open>
  A step that starts a download is the answer to the question of which processes are in the way and
  the answer is none, or it is the success of the stop of the service; and the service is stopped only
  when the user has confirmed it.
\<close>

theorem download_needs_consent:
  assumes "c \<in> set (new_calls v (update_step dev v e))"
  shows "c = StopMcp \<Longrightarrow> e = ConfirmInstall"
    "c = Download u stopped \<Longrightarrow> \<exists>n answer l. e = UpdateAnswered n answer \<and> n < length (uh_requests v) \<and>
       (if stopped then uh_requests v ! n = StopRequest u l \<and> answer = DoneAnswer None
        else uh_requests v ! n = BlockersRequest u l \<and> answer = BlockersAnswer (Inr 0))"
  using assms
  by (auto simp: update_step_calls operation_calls update_answered_calls
      split: update_event.splits if_splits update_request.splits update_answer.splits option.splits sum.splits)

text \<open>
  A change of the language while an update is installed reads the runtime again and sets the state
  back to idle: the installation goes on unseen, and after another check a second one can be started
  beside it.
\<close>

lemma locale_change_hides_installation:
  "let v = run_update False (initial_update False English)
       [UpdateAnswered 0 (RuntimeAnswer (Inr example_runtime)),
        CheckNow, UpdateAnswered 0 (CheckAnswer (Inr example_runtime) (Inr (Some example_update))),
        InstallNow, UpdateAnswered 0 (BlockersAnswer (Inr 0)),
        ChangeLocale Chinese, UpdateAnswered 1 (RuntimeAnswer (Inr example_runtime))];
     w = run_update False v
       [CheckNow, UpdateAnswered 1 (CheckAnswer (Inr example_runtime) (Inr (Some example_update))),
        InstallNow, UpdateAnswered 1 (BlockersAnswer (Inr 0))]
   in uh_status v = Idle \<and> uh_calls v = [Download example_update False] \<and> length (uh_requests v) = 1 \<and>
      uh_calls w = [Download example_update False, Download example_update False] \<and> length (uh_requests w) = 2"
  by code_simp

end
