(* ===== verification/Upload_Archive.thy ===== *)
theory Upload_Archive
  imports Js_Units
begin

text \<open>
  The archive in which a folder is uploaded, after the functions of
  \<open>src/features/layout/WorkspaceShell.tsx\<close> that build it: the paths of the files, the headers and blocks
  of the tar format, the reading of a file in pieces and the collection of the compressed output.
  The reader of the format (\<open>read_tar\<close>) is written from the description of the ustar format, not from
  the code. The clock, the order of names (\<open>localeCompare\<close>) and the compression are outside the source:
  the first two are arguments, the third is the list of the pieces it delivers.
  The errors of the streams and the reports of the phase that compresses are not modelled.
\<close>

section \<open>Paths\<close>

record UploadFile =
  ui_relativePath :: code_units
  ui_file :: octets

definition normalizeUploadRelativePath :: "code_units \<Rightarrow> code_units" where
  "normalizeUploadRelativePath path =
     join_with [0x2F] (filter (\<lambda>part. part \<noteq> [] \<and> part \<noteq> units ''.'' \<and> part \<noteq> units ''..'')
       (map trim_units (split_on 0x2F (map (\<lambda>u. if u = 0x5C then 0x2F else u) path))))"

definition totalUploadBytes :: "UploadFile list \<Rightarrow> nat" where
  "totalUploadBytes items =
     foldl (\<lambda>total item. if normalizeUploadRelativePath (ui_relativePath item) \<noteq> [] then total + length (ui_file item) else total) 0 items"

text \<open>A \<open>Map\<close> from the first segment of a path to the files below it, in the order of insertion.\<close>

fun add_to_group :: "code_units \<Rightarrow> UploadFile \<Rightarrow> (code_units \<times> UploadFile list) list \<Rightarrow>
    (code_units \<times> UploadFile list) list" where
  "add_to_group rootName item [] = [(rootName, [item])]"
| "add_to_group rootName item ((r, files) # groups) =
     (if r = rootName then (r, files @ [item]) # groups else (r, files) # add_to_group rootName item groups)"

definition groupUploadDirectories :: "UploadFile list \<Rightarrow> (code_units \<times> UploadFile list) list" where
  "groupUploadDirectories items =
     foldl (\<lambda>groups item.
       let relativePath = normalizeUploadRelativePath (ui_relativePath item); rootName = hd (split_on 0x2F relativePath)
       in if rootName = [] \<or> 0x2F \<notin> set relativePath then groups
          else add_to_group rootName (item\<lparr>ui_relativePath := relativePath\<rparr>) groups) [] items"

definition direct_files :: "UploadFile list \<Rightarrow> UploadFile list" where
  "direct_files items = filter (\<lambda>item. 0x2F \<notin> set (normalizeUploadRelativePath (ui_relativePath item))) items"

definition collectTarDirectories :: "(code_units \<Rightarrow> code_units \<Rightarrow> rat) \<Rightarrow> UploadFile list \<Rightarrow> code_units list" where
  "collectTarDirectories localeCompare items =
     js_sort localeCompare (dedupe (concat (map (\<lambda>item.
       let parts = split_on 0x2F (normalizeUploadRelativePath (ui_relativePath item))
       in map (\<lambda>index. join_with [0x2F] (take index parts)) [1..<length parts]) items)))"

section \<open>Headers\<close>

text \<open>\<open>Uint8Array.set\<close>\<close>

definition put_octets :: "nat \<Rightarrow> octets \<Rightarrow> octets \<Rightarrow> octets" where
  "put_octets offset bs header = take offset header @ bs @ drop (offset + length bs) header"

fun octal :: "nat \<Rightarrow> octets" where
  "octal n = (if n < 8 then [of_nat (48 + n)] else octal (n div 8) @ [of_nat (48 + n mod 8)])"

declare octal.simps [simp del]

definition padStart :: "nat \<Rightarrow> 'a \<Rightarrow> 'a list \<Rightarrow> 'a list" where
  "padStart n c s = replicate (n - length s) c @ s"

definition writeTarString :: "octets \<Rightarrow> nat \<Rightarrow> nat \<Rightarrow> code_units \<Rightarrow> octets" where
  "writeTarString header offset len s = put_octets offset (take len (encode_utf8 s)) header"

definition writeTarOctal :: "octets \<Rightarrow> nat \<Rightarrow> nat \<Rightarrow> nat \<Rightarrow> octets" where
  "writeTarOctal header offset len n =
     (let digits = take (len - 1) (padStart (len - 1) 48 (octal n))
      in (put_octets offset digits header)[offset + len - 1 := 0])"

text \<open>\<open>slice(-n)\<close>\<close>

definition splitTarPath :: "code_units \<Rightarrow> code_units \<times> code_units" where
  "splitTarPath path =
     (if length path \<le> 100 then (path, [])
      else let segments = split_on 0x2F path; name = last segments;
               name = (if name = [] then last_units 100 path else name); pre = join_with [0x2F] (butlast segments)
           in (if length name > 100 then last_units 100 name else name, if length pre > 155 then last_units 155 pre else pre))"

definition octet_sum :: "octets \<Rightarrow> nat" where
  "octet_sum bs = foldl (\<lambda>sum byte. sum + unat byte) 0 bs"

definition buildTarHeader :: "nat \<Rightarrow> code_units \<Rightarrow> nat \<Rightarrow> bool \<Rightarrow> octets" where
  "buildTarHeader now path sz directory =
     (let header = replicate 512 0;
          normalizedPath = take 255 (normalizeUploadRelativePath path);
          (name, pre) = splitTarPath normalizedPath;
          header = writeTarString header 0 100 name;
          header = writeTarOctal header 100 8 (if directory then 493 else 420);
          header = writeTarOctal header 108 8 0;
          header = writeTarOctal header 116 8 0;
          header = writeTarOctal header 124 12 (if directory then 0 else sz);
          header = writeTarOctal header 136 12 (now div 1000);
          header = put_octets 148 (replicate 8 32) header;
          header = header[156 := (if directory then 53 else 48)];
          header = writeTarString header 257 6 (units ''ustar'');
          header = writeTarString header 263 2 (units ''00'');
          header = writeTarString header 345 155 pre;
          checksum = octet_sum header
      in writeTarOctal header 148 8 checksum)"

definition paddingForTarBlock :: "nat \<Rightarrow> nat" where
  "paddingForTarBlock sz = (512 - sz mod 512) mod 512"

section \<open>Writing the archive\<close>

definition fileReadChunkBytes :: nat where "fileReadChunkBytes = 4 * 1024 * 1024"
definition uploadTempAppendChunkBytes :: nat where "uploadTempAppendChunkBytes = fileReadChunkBytes"

text \<open>What happens in order: a piece is written to the compression, or the bytes read so far are reported.\<close>

datatype archive_event = Write octets | ReadProgress nat

function file_pieces :: "octets \<Rightarrow> nat \<Rightarrow> (octets \<times> nat) list" where
  "file_pieces file loadedInFile =
     (if loadedInFile < length file then
        let nextOffset = min (length file) (loadedInFile + fileReadChunkBytes)
        in (take (nextOffset - loadedInFile) (drop loadedInFile file), nextOffset) # file_pieces file nextOffset
      else [])"
  by pat_completeness auto
termination file_pieces
  by (relation "measure (\<lambda>(file, n). length file - n)") (auto simp: fileReadChunkBytes_def)

declare file_pieces.simps [simp del]

definition writeFileToTarGzipStream :: "octets \<Rightarrow> nat \<Rightarrow> archive_event list" where
  "writeFileToTarGzipStream file loadedBeforeFile =
     (if file = [] then [ReadProgress loadedBeforeFile]
      else concat (map (\<lambda>(chunk, loadedInFile). [Write chunk, ReadProgress (loadedBeforeFile + loadedInFile)]) (file_pieces file 0)))"

text \<open>The headers take the time in turn: \<open>clock n\<close> is what the \<open>n\<close>-th of them reads.\<close>

fun write_directories :: "(nat \<Rightarrow> nat) \<Rightarrow> nat \<Rightarrow> code_units list \<Rightarrow> archive_event list" where
  "write_directories clock n [] = []"
| "write_directories clock n (d # ds) = Write (buildTarHeader (clock n) (d @ [0x2F]) 0 True) # write_directories clock (Suc n) ds"

fun write_items :: "(nat \<Rightarrow> nat) \<Rightarrow> nat \<Rightarrow> nat \<Rightarrow> UploadFile list \<Rightarrow> archive_event list" where
  "write_items clock n loadedBytes [] = []"
| "write_items clock n loadedBytes (item # items) =
     (let relativePath = normalizeUploadRelativePath (ui_relativePath item); file = ui_file item
      in if relativePath = [] then write_items clock n loadedBytes items
         else Write (buildTarHeader (clock n) relativePath (length file) False) #
           writeFileToTarGzipStream file loadedBytes @
           Write (replicate (paddingForTarBlock (length file)) 0) #
           write_items clock (Suc n) (loadedBytes + length file) items)"

definition buildTarArchive :: "(code_units \<Rightarrow> code_units \<Rightarrow> rat) \<Rightarrow> (nat \<Rightarrow> nat) \<Rightarrow> UploadFile list \<Rightarrow> archive_event list" where
  "buildTarArchive localeCompare clock items =
     (let directories = collectTarDirectories localeCompare items
      in write_directories clock 0 directories @ write_items clock (length directories) 0 items @ [Write (replicate 1024 0)])"

fun written :: "archive_event list \<Rightarrow> octets" where
  "written [] = []"
| "written (Write bs # es) = bs @ written es"
| "written (ReadProgress n # es) = written es"

fun progress_values :: "archive_event list \<Rightarrow> nat list" where
  "progress_values [] = []"
| "progress_values (Write bs # es) = progress_values es"
| "progress_values (ReadProgress n # es) = n # progress_values es"

section \<open>Collecting the compressed output\<close>

record gzip_state =
  gz_pendingGzipChunks :: "octets list"
  gz_appended :: "octets list"
  gz_archiveBytes :: nat

definition pendingGzipBytes :: "gzip_state \<Rightarrow> nat" where
  "pendingGzipBytes g = sum_list (map length (gz_pendingGzipChunks g))"

definition concatenateUint8Arrays :: "octets list \<Rightarrow> nat \<Rightarrow> octets" where
  "concatenateUint8Arrays chunks totalBytes =
     fst (foldl (\<lambda>(combined, offset) chunk. (put_octets offset chunk combined, offset + length chunk)) (replicate totalBytes 0, 0) chunks)"

definition flushGzipChunks :: "gzip_state \<Rightarrow> gzip_state" where
  "flushGzipChunks g =
     (if pendingGzipBytes g = 0 then g
      else let chunks = gz_pendingGzipChunks g;
               chunk = (if length chunks = 1 then hd chunks else concatenateUint8Arrays chunks (pendingGzipBytes g))
           in g\<lparr>gz_pendingGzipChunks := [], gz_appended := gz_appended g @ [chunk], gz_archiveBytes := gz_archiveBytes g + length chunk\<rparr>)"

definition gzip_chunk :: "gzip_state \<Rightarrow> octets \<Rightarrow> gzip_state" where
  "gzip_chunk g chunk =
     (if chunk = [] then g
      else let g = g\<lparr>gz_pendingGzipChunks := gz_pendingGzipChunks g @ [chunk]\<rparr>
           in if pendingGzipBytes g \<ge> uploadTempAppendChunkBytes then flushGzipChunks g else g)"

definition persistGzip :: "octets list \<Rightarrow> gzip_state" where
  "persistGzip chunks =
     flushGzipChunks (foldl gzip_chunk \<lparr>gz_pendingGzipChunks = [], gz_appended = [], gz_archiveBytes = 0\<rparr> chunks)"

section \<open>Reading an archive\<close>

text \<open>The fields of a header by their place, after the description of the format.\<close>

definition tar_field :: "nat \<Rightarrow> nat \<Rightarrow> octets \<Rightarrow> octets" where
  "tar_field offset len header = take len (drop offset header)"

definition until_zero :: "octets \<Rightarrow> octets" where
  "until_zero bs = takeWhile (\<lambda>b. b \<noteq> 0) bs"

fun octal_value :: "nat \<Rightarrow> octets \<Rightarrow> nat option" where
  "octal_value n [] = Some n"
| "octal_value n (b # bs) = (if 48 \<le> b \<and> b < 56 then octal_value (8 * n + (unat b - 48)) bs else None)"

definition tar_number :: "nat \<Rightarrow> nat \<Rightarrow> octets \<Rightarrow> nat option" where
  "tar_number offset len header = octal_value 0 (until_zero (tar_field offset len header))"

text \<open>The checksum is the sum of the header with spaces in place of the checksum itself.\<close>

definition checksum_ok :: "octets \<Rightarrow> bool" where
  "checksum_ok header \<longleftrightarrow>
     tar_number 148 8 header = Some (sum_list (map unat (take 148 header)) + 8 * 32 + sum_list (map unat (drop 156 header)))"

record tar_entry =
  te_path :: octets
  te_directory :: bool
  te_content :: octets

definition tar_path :: "octets \<Rightarrow> octets" where
  "tar_path header =
     (let name = until_zero (tar_field 0 100 header); pre = until_zero (tar_field 345 155 header)
      in if pre = [] then name else pre @ 0x2F # name)"

definition read_header :: "octets \<Rightarrow> (octets \<times> bool \<times> nat) option" where
  "read_header header =
     (if tar_field 257 6 header \<noteq> [0x75, 0x73, 0x74, 0x61, 0x72, 0] \<or> \<not> checksum_ok header then None
      else if header ! 156 = 53 then Some (tar_path header, True, 0)
      else if header ! 156 = 48 then map_option (\<lambda>sz. (tar_path header, False, sz)) (tar_number 124 12 header)
      else None)"

definition block_size :: "nat \<Rightarrow> nat" where
  "block_size sz = (sz + 511) div 512 * 512"

function read_tar :: "octets \<Rightarrow> tar_entry list option" where
  "read_tar bs =
     (if length bs < 512 then None
      else if list_all (\<lambda>b. b = 0) (take 512 bs) then Some []
      else case read_header (take 512 bs) of
             None \<Rightarrow> None
           | Some (path, directory, sz) \<Rightarrow>
               if length bs < 512 + block_size sz then None
               else map_option (Cons \<lparr>te_path = path, te_directory = directory, te_content = take sz (drop 512 bs)\<rparr>)
                 (read_tar (drop (512 + block_size sz) bs)))"
  by pat_completeness auto
termination read_tar
  by (relation "measure length") auto

declare read_tar.simps [simp del]

section \<open>The layout of a header\<close>

definition tar_octal :: "nat \<Rightarrow> nat \<Rightarrow> octets" where
  "tar_octal len n = take (len - 1) (padStart (len - 1) 48 (octal n)) @ [0]"

definition padded :: "nat \<Rightarrow> octets \<Rightarrow> octets" where
  "padded len bs = take len bs @ replicate (len - length bs) 0"

lemma length_tar_octal [simp]: "0 < len \<Longrightarrow> length (tar_octal len n) = len"
  by (auto simp: tar_octal_def padStart_def)

lemma length_padded [simp]: "length (padded len bs) = len"
  by (simp add: padded_def)

text \<open>The fields are written from left to right into a header of zeros.\<close>

lemma put_zeros:
  assumes "length a \<le> offset" "offset + length bs \<le> n"
  shows "put_octets offset bs (a @ replicate (n - length a) 0) =
    (a @ replicate (offset - length a) 0 @ bs) @ replicate (n - (offset + length bs)) 0"
  using assms by (simp add: put_octets_def min_def)

lemma put_field:
  assumes "length a = offset" "offset + len \<le> n"
  shows "put_octets offset (take len bs) (a @ replicate (n - offset) 0) = (a @ padded len bs) @ replicate (n - (offset + len)) 0"
proof -
  have fits: "offset + length (take len bs) \<le> n"
    and rest: "n - (offset + length (take len bs)) = (len - length bs) + (n - (offset + len))"
    using assms by (auto simp: min_def)
  have "put_octets offset (take len bs) (a @ replicate (n - offset) 0) =
    (a @ take len bs) @ replicate (n - (offset + length (take len bs))) 0"
    using put_zeros [of a offset "take len bs" n] assms(1) fits by simp
  also have "\<dots> = (a @ padded len bs) @ replicate (n - (offset + len)) 0"
    unfolding rest replicate_add padded_def by simp
  finally show ?thesis .
qed

lemma put_octal:
  assumes "length a = offset" "offset + len \<le> n" "0 < len"
  shows "writeTarOctal (a @ replicate (n - offset) 0) offset len m = (a @ tar_octal len m) @ replicate (n - (offset + len)) 0"
proof -
  let ?digits = "take (len - 1) (padStart (len - 1) 48 (octal m))"
  have digits: "length ?digits = len - 1"
    by (simp add: padStart_def)
  have "n - (offset + (len - 1)) = Suc (n - (offset + len))"
    using assms by simp
  then have "put_octets offset ?digits (a @ replicate (n - offset) 0) = (a @ ?digits) @ 0 # replicate (n - (offset + len)) 0"
    using put_zeros [of a offset ?digits n] assms digits by simp
  moreover have "offset + len - 1 = length (a @ ?digits)"
    using assms digits by simp
  ultimately show ?thesis
    unfolding writeTarOctal_def Let_def tar_octal_def by (simp only: list_update_length) simp
qed

lemma put_gap:
  assumes "length a = offset" "offset + k \<le> n"
  shows "a @ replicate (n - offset) 0 = (a @ replicate k 0) @ replicate (n - (offset + k)) 0"
  using assms by (simp add: replicate_add [symmetric])

definition header_front :: "nat \<Rightarrow> code_units \<Rightarrow> nat \<Rightarrow> bool \<Rightarrow> octets" where
  "header_front now name sz directory =
     padded 100 (encode_utf8 name) @ tar_octal 8 (if directory then 493 else 420) @ tar_octal 8 0 @ tar_octal 8 0 @
     tar_octal 12 (if directory then 0 else sz) @ tar_octal 12 (now div 1000)"

definition header_back :: "code_units \<Rightarrow> bool \<Rightarrow> octets" where
  "header_back pre directory =
     [if directory then 53 else 48] @ replicate 100 0 @ [0x75, 0x73, 0x74, 0x61, 0x72, 0, 48, 48] @ replicate 80 0 @
     padded 155 (encode_utf8 pre) @ replicate 12 0"

lemma header_part_lengths [simp]: "length (header_front now name sz directory) = 148" "length (header_back pre directory) = 356"
  by (simp_all add: header_front_def header_back_def)

definition header_sum :: "nat \<Rightarrow> code_units \<Rightarrow> code_units \<Rightarrow> nat \<Rightarrow> bool \<Rightarrow> nat" where
  "header_sum now name pre sz directory =
     sum_list (map unat (header_front now name sz directory)) + 8 * 32 + sum_list (map unat (header_back pre directory))"

lemma octet_sum: "octet_sum bs = sum_list (map unat bs)"
proof -
  have "foldl (\<lambda>sum byte. sum + unat byte) n bs = n + sum_list (map unat bs)" for n
    by (induction bs arbitrary: n) auto
  then show ?thesis
    by (simp add: octet_sum_def)
qed

lemma ascii_ustar: "encode_utf8 (units ''ustar'') = [0x75, 0x73, 0x74, 0x61, 0x72]" "encode_utf8 (units ''00'') = [48, 48]"
  by code_simp+

lemma write_name: "writeTarString (replicate 512 0) 0 100 name = padded 100 (encode_utf8 name) @ replicate 412 0"
  using put_field [of "[]" 0 100 512 "encode_utf8 name"] by (simp add: writeTarString_def)

lemma header_front_written:
  "writeTarOctal (writeTarOctal (writeTarOctal (writeTarOctal (writeTarOctal
     (writeTarString (replicate 512 0) 0 100 name) 100 8 (if directory then 493 else 420)) 108 8 0) 116 8 0)
     124 12 (if directory then 0 else sz)) 136 12 (now div 1000) =
   header_front now name sz directory @ replicate 364 0"
proof -
  let ?a = "padded 100 (encode_utf8 name)"
  let ?b = "?a @ tar_octal 8 (if directory then 493 else 420)" let ?c = "?b @ tar_octal 8 0" let ?d = "?c @ tar_octal 8 0"
  let ?e = "?d @ tar_octal 12 (if directory then 0 else sz)"
  have "writeTarOctal (?a @ replicate 412 0) 100 8 m = ?a @ tar_octal 8 m @ replicate 404 0" for m
    using put_octal [of ?a 100 8 512 m] by simp
  moreover have "writeTarOctal (?b @ replicate 404 0) 108 8 0 = ?c @ replicate 396 0"
    using put_octal [of ?b 108 8 512 0] by simp
  moreover have "writeTarOctal (?c @ replicate 396 0) 116 8 0 = ?d @ replicate 388 0"
    using put_octal [of ?c 116 8 512 0] by simp
  moreover have "writeTarOctal (?d @ replicate 388 0) 124 12 m = ?d @ tar_octal 12 m @ replicate 376 0" for m
    using put_octal [of ?d 124 12 512 m] by simp
  moreover have "writeTarOctal (?e @ replicate 376 0) 136 12 m = ?e @ tar_octal 12 m @ replicate 364 0" for m
    using put_octal [of ?e 136 12 512 m] by simp
  ultimately show ?thesis
    by (simp add: write_name header_front_def)
qed

lemma header_back_written:
  assumes "length a = 148"
  shows "writeTarString (writeTarString (writeTarString ((put_octets 148 (replicate 8 32) (a @ replicate 364 0))[156 := x])
      257 6 (units ''ustar'')) 263 2 (units ''00'')) 345 155 pre =
    a @ replicate 8 32 @ [x] @ replicate 100 0 @ [0x75, 0x73, 0x74, 0x61, 0x72, 0, 48, 48] @ replicate 80 0 @
      padded 155 (encode_utf8 pre) @ replicate 12 0"
proof -
  let ?b = "a @ replicate 8 32 @ [x] @ replicate 100 0"
  let ?c = "?b @ [0x75, 0x73, 0x74, 0x61, 0x72, 0]" let ?d = "?c @ [48, 48] @ replicate 80 0"
  have "put_octets 148 (replicate 8 32) (a @ replicate 364 0) = (a @ replicate 8 32) @ 0 # replicate 355 0"
    using put_zeros [of a 148 "replicate 8 32" 512] assms by (simp add: numeral_eq_Suc)
  then have "(put_octets 148 (replicate 8 32) (a @ replicate 364 0))[156 := x] = (a @ replicate 8 32) @ x # replicate 355 0"
    using list_update_length [of "a @ replicate 8 32" 0 "replicate 355 0" x] assms by simp
  moreover have "replicate 355 0 = replicate 100 0 @ replicate 255 (0 :: 8 word)"
    by (simp flip: replicate_add)
  moreover have "writeTarString (?b @ replicate 255 0) 257 6 (units ''ustar'') = ?c @ replicate 249 0"
    using put_field [of ?b 257 6 512 "encode_utf8 (units ''ustar'')"] assms by (simp add: writeTarString_def ascii_ustar padded_def)
  moreover have "writeTarString (?c @ replicate 249 0) 263 2 (units ''00'') = ?d @ replicate 167 0"
    using put_field [of ?c 263 2 512 "encode_utf8 (units ''00'')"] put_gap [of "?c @ [48, 48]" 265 80 512] assms
    by (simp add: writeTarString_def ascii_ustar padded_def)
  moreover have "writeTarString (?d @ replicate 167 0) 345 155 pre = ?d @ padded 155 (encode_utf8 pre) @ replicate 12 0"
    using put_field [of ?d 345 155 512 "encode_utf8 pre"] assms by (simp add: writeTarString_def)
  ultimately show ?thesis
    by simp
qed

lemma header_layout:
  assumes "splitTarPath (take 255 (normalizeUploadRelativePath path)) = (name, pre)"
  shows "buildTarHeader now path sz directory =
    header_front now name sz directory @ tar_octal 8 (header_sum now name pre sz directory) @ header_back pre directory"
proof -
  let ?front = "header_front now name sz directory" and ?rear = "header_back pre directory"
  have "octet_sum (?front @ replicate 8 32 @ ?rear) = header_sum now name pre sz directory"
    by (simp add: octet_sum header_sum_def sum_list_replicate)
  moreover have "writeTarOctal (?front @ replicate 8 32 @ ?rear) 148 8 m = ?front @ tar_octal 8 m @ ?rear" for m
  proof -
    let ?digits = "take 7 (padStart 7 48 (octal m))"
    have digits: "length ?digits = 7"
      by (simp add: padStart_def)
    then have "put_octets 148 ?digits (?front @ replicate 8 32 @ ?rear) = (?front @ ?digits) @ 32 # ?rear"
      by (simp add: put_octets_def numeral_eq_Suc)
    then show ?thesis
      using digits by (simp add: writeTarOctal_def Let_def tar_octal_def list_update_append)
  qed
  ultimately show ?thesis
    unfolding buildTarHeader_def Let_def assms prod.case header_front_written
    by (simp only: header_back_written header_part_lengths) (simp add: header_back_def)
qed

section \<open>Reading a header back\<close>

lemma octal_digit: "n < 8 \<Longrightarrow> 48 \<le> (of_nat (48 + n) :: 8 word) \<and> (of_nat (48 + n) :: 8 word) < 56 \<and> unat (of_nat (48 + n) :: 8 word) = 48 + n"
  by (simp add: word_le_nat_alt word_less_nat_alt unat_of_nat take_bit_nat_eq_self del: of_nat_add)

lemma octal_value_append: "octal_value n (a @ b) = Option.bind (octal_value n a) (\<lambda>m. octal_value m b)"
  by (induction n a rule: octal_value.induct) auto

lemma octal_value_one: "m < 8 \<Longrightarrow> octal_value n [of_nat (48 + m)] = Some (8 * n + m)"
  using octal_digit [of m] by (simp del: of_nat_add)

lemma octal_value_octal: "octal_value n (octal m) = Some (n * 8 ^ length (octal m) + m)"
proof (induction m arbitrary: n rule: octal.induct)
  case (1 m)
  show ?case
  proof (cases "m < 8")
    case True
    then show ?thesis
      using octal_value_one [of m n] by (simp add: octal.simps [of m] mult.commute del: of_nat_add)
  next
    case False
    have "8 * (n * 8 ^ length (octal (m div 8)) + m div 8) + m mod 8 = n * 8 ^ Suc (length (octal (m div 8))) + m"
      by (simp add: algebra_simps)
    then show ?thesis
      using False 1 octal_value_one [of "m mod 8"] unfolding octal.simps [of m] by (simp add: octal_value_append del: of_nat_add)
  qed
qed

lemma octal_nonzero: "0 \<notin> set (octal m)"
proof (induction m rule: octal.induct)
  case (1 m)
  have "(of_nat (48 + k) :: 8 word) \<noteq> 0" if "k < 8" for k
    using octal_digit [OF that] by (metis add_eq_0_iff_both_eq_0 unsigned_0 zero_neq_numeral)
  then show ?case
    using 1 unfolding octal.simps [of m] by (auto simp del: of_nat_add)
qed

lemma octal_length: "m < 8 ^ Suc k \<Longrightarrow> length (octal m) \<le> Suc k"
proof (induction m arbitrary: k rule: octal.induct)
  case (1 m)
  show ?case
  proof (cases "m < 8")
    case False
    then obtain j where "k = Suc j"
      using "1.prems" by (cases k) auto
    moreover from this have "m div 8 < 8 ^ Suc j"
      using "1.prems" by (simp add: less_mult_imp_div_less mult.commute)
    ultimately show ?thesis
      using "1.IH" [of j] False unfolding octal.simps [of m] by simp
  qed (simp add: octal.simps [of m])
qed

lemma tar_octal_value:
  assumes "n < 8 ^ Suc k"
  shows "octal_value 0 (until_zero (tar_octal (Suc (Suc k)) n)) = Some n"
proof -
  have "tar_octal (Suc (Suc k)) n = (replicate (Suc k - length (octal n)) 48 @ octal n) @ [0]"
    using octal_length [OF assms] by (simp add: tar_octal_def padStart_def)
  moreover have "0 \<notin> set (replicate (Suc k - length (octal n)) 48 @ octal n)"
    using octal_nonzero by (auto simp: set_replicate_conv_if)
  moreover from this have "until_zero ((replicate (Suc k - length (octal n)) 48 @ octal n) @ [0]) =
      replicate (Suc k - length (octal n)) 48 @ octal n"
    unfolding until_zero_def by (subst takeWhile_append2) auto
  moreover have "octal_value 0 (replicate j 48) = Some 0" for j
    by (induction j) auto
  ultimately show ?thesis
    by (simp add: octal_value_append octal_value_octal)
qed

lemma tar_octal_fields:
  "n < 8 ^ 7 \<Longrightarrow> octal_value 0 (until_zero (tar_octal 8 n)) = Some n"
  "n < 8 ^ 11 \<Longrightarrow> octal_value 0 (until_zero (tar_octal 12 n)) = Some n"
  using tar_octal_value [of n 6] tar_octal_value [of n 10] by (simp_all add: eval_nat_numeral(3) [symmetric])

lemma until_zero_padded: "0 \<notin> set bs \<Longrightarrow> length bs \<le> len \<Longrightarrow> until_zero (padded len bs) = bs"
  unfolding until_zero_def padded_def by (subst takeWhile_append2) (auto simp: takeWhile_eq_Nil_iff hd_replicate)

lemma sum_octets_bound: "sum_list (map unat bs) \<le> 255 * length bs" for bs :: octets
proof (induction bs)
  case (Cons b bs)
  moreover have "unat b < 256"
    using unsigned_less [of b] by simp
  ultimately show ?case
    by simp
qed simp

lemma header_sum_bound: "header_sum now name pre sz directory < 8 ^ 7"
  using sum_octets_bound [of "header_front now name sz directory"] sum_octets_bound [of "header_back pre directory"]
  by (simp add: header_sum_def)

lemma header_fields:
  assumes "header = header_front now name sz directory @ tar_octal 8 c @ header_back pre directory"
  shows "length header = 512" "tar_field 0 100 header = padded 100 (encode_utf8 name)"
    "tar_field 124 12 header = tar_octal 12 (if directory then 0 else sz)" "tar_field 148 8 header = tar_octal 8 c"
    "header ! 156 = (if directory then 53 else 48)" "tar_field 257 6 header = [0x75, 0x73, 0x74, 0x61, 0x72, 0]"
    "tar_field 345 155 header = padded 155 (encode_utf8 pre)" "take 148 header = header_front now name sz directory"
    "drop 156 header = header_back pre directory"
proof -
  show "length header = 512" "take 148 header = header_front now name sz directory" "drop 156 header = header_back pre directory"
    "tar_field 148 8 header = tar_octal 8 c"
    unfolding assms tar_field_def by simp_all
  show "tar_field 0 100 header = padded 100 (encode_utf8 name)" "tar_field 124 12 header = tar_octal 12 (if directory then 0 else sz)"
    unfolding assms tar_field_def header_front_def by simp_all
  show "header ! 156 = (if directory then 53 else 48)" "tar_field 257 6 header = [0x75, 0x73, 0x74, 0x61, 0x72, 0]"
    "tar_field 345 155 header = padded 155 (encode_utf8 pre)"
    unfolding assms tar_field_def header_back_def by (simp_all add: nth_append)
qed

section \<open>The shape of a path\<close>

definition good_part :: "code_units \<Rightarrow> bool" where
  "good_part part \<longleftrightarrow> part \<noteq> [] \<and> part \<noteq> units ''.'' \<and> part \<noteq> units ''..'' \<and> trim_units part = part \<and> 0x2F \<notin> set part \<and> 0x5C \<notin> set part"

definition path_parts :: "code_units \<Rightarrow> code_units list" where
  "path_parts path = filter (\<lambda>part. part \<noteq> [] \<and> part \<noteq> units ''.'' \<and> part \<noteq> units ''..'')
     (map trim_units (split_on 0x2F (map (\<lambda>u. if u = 0x5C then 0x2F else u) path)))"

lemma normalize_parts: "normalizeUploadRelativePath path = join_with [0x2F] (path_parts path)"
  by (simp add: normalizeUploadRelativePath_def path_parts_def)

lemma split_on_set: "part \<in> set (split_on c s) \<Longrightarrow> set part \<subseteq> set s"
proof (induction s arbitrary: part)
  case (Cons x s)
  then show ?case
    by (cases "split_on c s") (auto split: if_splits, blast+)
qed simp

lemma good_path_parts: "list_all good_part (path_parts path)"
proof -
  let ?slashed = "map (\<lambda>u. if u = 0x5C then 0x2F else u) path"
  have "0x2F \<notin> set (trim_units part)" "0x5C \<notin> set (trim_units part)" if "part \<in> set (split_on 0x2F ?slashed)" for part
    using set_trim_units [of part] split_on_free [OF that] split_on_set [OF that] by auto
  then show ?thesis
    by (auto simp: path_parts_def list_all_iff good_part_def)
qed

lemma no_backslash_id: "0x5C \<notin> set s \<Longrightarrow> map (\<lambda>u. if u = 0x5C then 0x2F else u) s = (s :: code_units)"
  by (induction s) auto

lemma join_no_backslash: "list_all good_part parts \<Longrightarrow> 0x5C \<notin> set (join_with [0x2F] parts)"
  by (induction "[0x2F] :: code_units" parts rule: join_with.induct) (auto simp: good_part_def)

lemma join_good_ne: "list_all good_part parts \<Longrightarrow> parts \<noteq> [] \<Longrightarrow> join_with [0x2F] parts \<noteq> []"
  by (induction "[0x2F] :: code_units" parts rule: join_with.induct) (auto simp: good_part_def)

lemma good_parts_kept:
  assumes "list_all good_part parts"
  shows "filter (\<lambda>part. part \<noteq> [] \<and> part \<noteq> units ''.'' \<and> part \<noteq> units ''..'') (map trim_units parts) = parts"
  using assms by (induction parts) (auto simp: good_part_def)

lemma path_parts_join:
  assumes "list_all good_part parts"
  shows "path_parts (join_with [0x2F] parts) = parts" "path_parts (join_with [0x2F] parts @ [0x2F]) = parts"
proof -
  have free: "\<forall>part \<in> set parts. 0x2F \<notin> set part"
    using assms by (auto simp: list_all_iff good_part_def)
  note slashed = no_backslash_id [OF join_no_backslash [OF assms]]
  show "path_parts (join_with [0x2F] parts) = parts"
  proof (cases "parts = []")
    case False
    then show ?thesis
      using split_on_join [OF False free] good_parts_kept [OF assms] by (simp add: path_parts_def slashed)
  qed (simp add: path_parts_def)
  show "path_parts (join_with [0x2F] parts @ [0x2F]) = parts"
  proof (cases "parts = []")
    case False
    then show ?thesis
      using split_on_join_append [OF False free, of "[]"] good_parts_kept [OF assms] by (simp add: path_parts_def slashed)
  qed (simp add: path_parts_def)
qed

lemma normalize_join:
  assumes "list_all good_part parts"
  shows "normalizeUploadRelativePath (join_with [0x2F] parts) = join_with [0x2F] parts"
    "normalizeUploadRelativePath (join_with [0x2F] parts @ [0x2F]) = join_with [0x2F] parts"
  using path_parts_join [OF assms] by (simp_all add: normalize_parts)

text \<open>
  What the format can hold: a path of at most 100 bytes in UTF-8, or one that is cut at its last slash
  into a name of at most 100 bytes and a prefix of at most 155, in at most 255 code units.
\<close>

definition tar_path_fits :: "code_units \<Rightarrow> bool" where
  "tar_path_fits path \<longleftrightarrow> 0 \<notin> set path \<and> length path \<le> 255 \<and>
     (if length path \<le> 100 then length (encode_utf8 path) \<le> 100
      else length (encode_utf8 (last (split_on 0x2F path))) \<le> 100 \<and>
        length (encode_utf8 (join_with [0x2F] (butlast (split_on 0x2F path)))) \<le> 155)"

lemma split_fitting_path:
  assumes "tar_path_fits path" "path = join_with [0x2F] parts" "list_all good_part parts" "parts \<noteq> []"
  obtains name pre where "splitTarPath path = (name, pre)" "0 \<notin> set name" "0 \<notin> set pre" "length (encode_utf8 name) \<le> 100"
    "length (encode_utf8 pre) \<le> 155" "encode_utf8 path = (if encode_utf8 pre = [] then encode_utf8 name else encode_utf8 pre @ 0x2F # encode_utf8 name)"
proof (cases "length path \<le> 100")
  case True
  then show ?thesis
    using that [of path "[]"] assms(1) by (simp add: splitTarPath_def tar_path_fits_def)
next
  case False
  let ?name = "last parts" and ?pre = "join_with [0x2F] (butlast parts)"
  have split: "split_on 0x2F path = parts"
    using assms by (simp add: split_on_join list_all_iff good_part_def)
  have sizes: "length (encode_utf8 ?name) \<le> 100" "length (encode_utf8 ?pre) \<le> 155"
    using assms(1) False by (simp_all add: tar_path_fits_def split)
  then have units: "length ?name \<le> 100" "length ?pre \<le> 155"
    using encode_utf8_length [of ?name] encode_utf8_length [of ?pre] by linarith+
  have parts: "parts = butlast parts @ [?name]"
    using assms(4) by simp
  have "butlast parts \<noteq> []"
    using False units(1) assms(2) parts by (metis append_Nil join_with.simps(2))
  then have path: "path = ?pre @ 0x2F # ?name"
    using join_with_snoc [of "butlast parts" "[0x2F]" ?name] parts assms(2) by simp
  have good: "list_all good_part (butlast parts)" "good_part ?name"
    using assms(3,4) by (auto simp: list_all_iff dest: in_set_butlastD)
  have "?pre \<noteq> []"
    using good(1) \<open>butlast parts \<noteq> []\<close> join_good_ne by blast
  then have "encode_utf8 ?pre \<noteq> []"
    using encode_utf8_length [of ?pre] by auto
  moreover have "0 \<notin> set ?name" "0 \<notin> set ?pre"
    using assms(1) path by (auto simp: tar_path_fits_def)
  moreover have "splitTarPath path = (?name, ?pre)"
    using False units good(2) by (simp add: splitTarPath_def split Let_def good_part_def)
  ultimately show ?thesis
    using that sizes path encode_utf8_slash by simp
qed

text \<open>A header of a path that fits is read back as that path, with the size of the file.\<close>

lemma read_built_header:
  assumes "tar_path_fits (join_with [0x2F] parts)" "list_all good_part parts" "parts \<noteq> []" "sz < 8 ^ 11"
    and "normalizeUploadRelativePath path = join_with [0x2F] parts"
  shows "length (buildTarHeader now path sz directory) = 512"
    "read_header (buildTarHeader now path sz directory) = Some (encode_utf8 (join_with [0x2F] parts), directory, if directory then 0 else sz)"
    "\<not> list_all (\<lambda>b. b = 0) (buildTarHeader now path sz directory)"
proof -
  obtain name pre where split: "splitTarPath (join_with [0x2F] parts) = (name, pre)" and zero: "0 \<notin> set name" "0 \<notin> set pre"
    and sizes: "length (encode_utf8 name) \<le> 100" "length (encode_utf8 pre) \<le> 155"
    and whole: "encode_utf8 (join_with [0x2F] parts) = (if encode_utf8 pre = [] then encode_utf8 name else encode_utf8 pre @ 0x2F # encode_utf8 name)"
    using split_fitting_path [OF assms(1) refl assms(2,3)] by metis
  have "take 255 (normalizeUploadRelativePath path) = join_with [0x2F] parts"
    using assms(1,5) by (simp add: tar_path_fits_def)
  with split have header: "buildTarHeader now path sz directory =
    header_front now name sz directory @ tar_octal 8 (header_sum now name pre sz directory) @ header_back pre directory"
    by (intro header_layout) simp
  note fields = header_fields [OF header]
  show "length (buildTarHeader now path sz directory) = 512"
    by (rule fields)
  have size: "tar_number 124 12 (buildTarHeader now path sz directory) = Some (if directory then 0 else sz)"
    unfolding tar_number_def fields by (rule tar_octal_fields) (use assms(4) in simp)
  have "tar_number 148 8 (buildTarHeader now path sz directory) = Some (header_sum now name pre sz directory)"
    unfolding tar_number_def fields by (intro tar_octal_fields header_sum_bound)
  then have sum: "checksum_ok (buildTarHeader now path sz directory)"
    by (simp add: checksum_ok_def fields header_sum_def)
  have "tar_path (buildTarHeader now path sz directory) = encode_utf8 (join_with [0x2F] parts)"
    using zero sizes by (simp add: tar_path_def fields until_zero_padded encode_utf8_no_zero whole)
  then show "read_header (buildTarHeader now path sz directory) =
      Some (encode_utf8 (join_with [0x2F] parts), directory, if directory then 0 else sz)"
    using size sum by (simp add: read_header_def fields)
  show "\<not> list_all (\<lambda>b. b = 0) (buildTarHeader now path sz directory)"
  proof -
    have "0x75 \<in> set (tar_field 257 6 (buildTarHeader now path sz directory))"
      unfolding fields by simp
    then have "0x75 \<in> set (buildTarHeader now path sz directory)"
      unfolding tar_field_def by (blast dest: in_set_takeD in_set_dropD)
    then show ?thesis
      by (auto simp: list_all_iff intro!: bexI [of _ "0x75"])
  qed
qed

section \<open>Reading an archive back\<close>

lemma written_append [simp]: "written (a @ b) = written a @ written b"
  by (induction a rule: written.induct) auto

lemma file_pieces_content: "n \<le> length bs \<Longrightarrow> concat (map fst (file_pieces bs n)) = drop n bs"
proof (induction bs n rule: file_pieces.induct)
  case (1 bs n)
  let ?next = "min (length bs) (n + fileReadChunkBytes)"
  show ?case
  proof (cases "n < length bs")
    case True
    then have "take (?next - n) (drop n bs) @ drop ?next bs = drop n bs"
      by (metis append_take_drop_id drop_drop le_add_diff_inverse2 min.bounded_iff order.strict_implies_order trans_le_add1 le_refl)
    then show ?thesis
      using 1 True unfolding file_pieces.simps [of bs n] Let_def by simp
  next
    case False
    then show ?thesis
      by (subst file_pieces.simps) simp
  qed
qed

lemma written_pieces: "written (concat (map (\<lambda>(chunk, n). [Write chunk, ReadProgress (f n)]) ps)) = concat (map fst ps)"
  by (induction ps) auto

lemma written_file [simp]: "written (writeFileToTarGzipStream bs n) = bs"
  using file_pieces_content [of 0 bs] by (simp add: writeFileToTarGzipStream_def written_pieces)

lemma block_size_padding: "block_size n = n + paddingForTarBlock n"
proof (cases "n mod 512 = 0")
  case True
  then have "n = 512 * (n div 512)" "(n + 511) div 512 = n div 512"
    by (auto intro!: div_nat_eqI)
  then show ?thesis
    using True by (simp add: block_size_def paddingForTarBlock_def)
next
  case False
  define q r where "q = n div 512" and "r = n mod 512"
  then have "n = 512 * q + r" "0 < r" "r < 512"
    using False by simp_all
  then have "(n + 511) div 512 = Suc q"
    by (intro div_nat_eqI) auto
  then show ?thesis
    using \<open>n = 512 * q + r\<close> \<open>0 < r\<close> \<open>r < 512\<close> unfolding block_size_def paddingForTarBlock_def r_def [symmetric] by simp
qed

lemma read_tar_entry:
  assumes "length h = 512" "\<not> list_all (\<lambda>b. b = 0) h" "read_header h = Some (path, directory, sz)" "length body = block_size sz"
  shows "read_tar (h @ body @ rest) =
    map_option (Cons \<lparr>te_path = path, te_directory = directory, te_content = take sz body\<rparr>) (read_tar rest)"
proof -
  have "sz \<le> length body"
    using assms(4) by (simp add: block_size_padding)
  then show ?thesis
    using assms by (subst read_tar.simps) simp
qed

lemma read_tar_end: "read_tar (replicate 1024 0) = Some []"
  by (subst read_tar.simps) (simp add: list_all_iff)

definition directory_entry :: "code_units \<Rightarrow> tar_entry" where
  "directory_entry d = \<lparr>te_path = encode_utf8 d, te_directory = True, te_content = []\<rparr>"

definition file_entry :: "UploadFile \<Rightarrow> tar_entry" where
  "file_entry item = \<lparr>te_path = encode_utf8 (normalizeUploadRelativePath (ui_relativePath item)), te_directory = False, te_content = ui_file item\<rparr>"

definition uploaded :: "UploadFile list \<Rightarrow> UploadFile list" where
  "uploaded items = filter (\<lambda>item. normalizeUploadRelativePath (ui_relativePath item) \<noteq> []) items"

definition good_path :: "code_units \<Rightarrow> bool" where
  "good_path path \<longleftrightarrow> tar_path_fits path \<and> (\<exists>parts. parts \<noteq> [] \<and> list_all good_part parts \<and> path = join_with [0x2F] parts)"

lemma read_directories:
  "list_all good_path ds \<Longrightarrow>
   read_tar (written (write_directories clock n ds) @ rest) = map_option ((@) (map directory_entry ds)) (read_tar rest)"
proof (induction ds arbitrary: n)
  case Nil
  then show ?case
    by (simp add: option.map_ident)
next
  case (Cons d ds)
  then obtain parts where parts: "parts \<noteq> []" "list_all good_part parts" "d = join_with [0x2F] parts" "tar_path_fits d"
    by (auto simp: good_path_def)
  note header = read_built_header [of parts 0 "d @ [0x2F]" "clock n" True]
  have "read_tar (buildTarHeader (clock n) (d @ [0x2F]) 0 True @ [] @ written (write_directories clock (Suc n) ds) @ rest) =
    map_option (Cons (directory_entry d)) (read_tar (written (write_directories clock (Suc n) ds) @ rest))"
    using read_tar_entry [of "buildTarHeader (clock n) (d @ [0x2F]) 0 True" "encode_utf8 d" True 0 "[]"] header parts normalize_join(2) [OF parts(2)]
    by (simp add: directory_entry_def block_size_def)
  then show ?case
    using Cons by (simp add: option.map_comp o_def)
qed

lemma good_upload_path:
  assumes "normalizeUploadRelativePath path \<noteq> []"
  shows "path_parts path \<noteq> []" "list_all good_part (path_parts path)" "normalizeUploadRelativePath path = join_with [0x2F] (path_parts path)"
  using assms good_path_parts by (auto simp: normalize_parts)

lemma read_items:
  assumes "\<forall>item \<in> set (uploaded items). tar_path_fits (normalizeUploadRelativePath (ui_relativePath item)) \<and> length (ui_file item) < 8 ^ 11"
  shows "read_tar (written (write_items clock n loaded items) @ rest) = map_option ((@) (map file_entry (uploaded items))) (read_tar rest)"
  using assms
proof (induction items arbitrary: n loaded)
  case Nil
  then show ?case
    by (simp add: uploaded_def option.map_ident)
next
  case (Cons item items)
  define path where "path = normalizeUploadRelativePath (ui_relativePath item)"
  show ?case
  proof (cases "path = []")
    case True
    then show ?thesis
      using Cons by (simp add: uploaded_def path_def)
  next
    case False
    then have parts: "path_parts (ui_relativePath item) \<noteq> []" "list_all good_part (path_parts (ui_relativePath item))"
      "path = join_with [0x2F] (path_parts (ui_relativePath item))"
      using good_upload_path unfolding path_def by blast+
    have up: "uploaded (item # items) = item # uploaded items"
      using False by (simp add: uploaded_def path_def)
    let ?sz = "length (ui_file item)"
    let ?header = "buildTarHeader (clock n) path ?sz False" and ?body = "ui_file item @ replicate (paddingForTarBlock ?sz) 0"
    let ?rest = "written (write_items clock (Suc n) (loaded + ?sz) items) @ rest"
    have "normalizeUploadRelativePath path = path" "tar_path_fits path" "?sz < 8 ^ 11"
      using normalize_join(1) [OF parts(2)] parts(3) Cons.prems by (simp_all add: up path_def)
    then have "read_tar (?header @ ?body @ ?rest) = map_option (Cons (file_entry item)) (read_tar ?rest)"
      using read_tar_entry [of ?header "encode_utf8 path" False ?sz ?body ?rest]
        read_built_header [of "path_parts (ui_relativePath item)" ?sz path "clock n" False] parts
      by (simp add: file_entry_def path_def [symmetric] block_size_padding)
    moreover have "written (write_items clock n loaded (item # items)) @ rest = ?header @ ?body @ ?rest"
      using False by (simp add: path_def Let_def)
    ultimately show ?thesis
      using Cons up by (simp add: option.map_comp o_def del: write_items.simps)
  qed
qed

lemma good_directories: "d \<in> set (collectTarDirectories localeCompare items) \<Longrightarrow> tar_path_fits d \<Longrightarrow> good_path d"
proof -
  assume "d \<in> set (collectTarDirectories localeCompare items)" and fits: "tar_path_fits d"
  then have "d \<in> (\<Union>item \<in> set items. let parts = split_on 0x2F (normalizeUploadRelativePath (ui_relativePath item))
      in (\<lambda>index. join_with [0x2F] (take index parts)) ` {1..<length parts})"
    by (simp add: collectTarDirectories_def Let_def)
  then obtain item :: UploadFile where "d \<in> (\<lambda>index. join_with [0x2F] (take index (split_on 0x2F (normalizeUploadRelativePath (ui_relativePath item))))) `
      {1..<length (split_on 0x2F (normalizeUploadRelativePath (ui_relativePath item)))}"
    unfolding Let_def by blast
  then obtain k where d: "d = join_with [0x2F] (take k (split_on 0x2F (normalizeUploadRelativePath (ui_relativePath item))))"
    and k: "1 \<le> k" "k < length (split_on 0x2F (normalizeUploadRelativePath (ui_relativePath item)))"
    by (elim imageE) simp
  let ?parts = "path_parts (ui_relativePath item)"
  have good: "list_all good_part ?parts"
    by (rule good_path_parts)
  have ne: "?parts \<noteq> []"
    using k by (auto simp: normalize_parts)
  then have "split_on 0x2F (normalizeUploadRelativePath (ui_relativePath item)) = ?parts"
    using good by (simp add: normalize_parts split_on_join list_all_iff good_part_def)
  with d k ne have "d = join_with [0x2F] (take k ?parts)" "take k ?parts \<noteq> []"
    by auto
  moreover have "list_all good_part (take k ?parts)"
    using good by (auto simp: list_all_iff dest: in_set_takeD)
  ultimately show "good_path d"
    using fits unfolding good_path_def by blast
qed

text \<open>
  Whoever reads the archive gets the folder back: when the paths fit the format and no file has
  8 GiB or more, an archive of the upload is read as the directories in order followed by the files,
  each under its normalised path and with its exact content.
\<close>

theorem upload_archive_roundtrip:
  assumes "\<forall>d \<in> set (collectTarDirectories localeCompare items). tar_path_fits d"
    and "\<forall>item \<in> set (uploaded items). tar_path_fits (normalizeUploadRelativePath (ui_relativePath item)) \<and> length (ui_file item) < 8 ^ 11"
  shows "read_tar (written (buildTarArchive localeCompare clock items)) =
    Some (map directory_entry (collectTarDirectories localeCompare items) @ map file_entry (uploaded items))"
proof -
  have "list_all good_path (collectTarDirectories localeCompare items)"
    using assms(1) good_directories by (auto simp: list_all_iff)
  then show ?thesis
    using assms(2) by (simp add: buildTarArchive_def Let_def read_directories read_items read_tar_end)
qed

definition sample_upload :: "UploadFile list" where
  "sample_upload =
     [\<lparr>ui_relativePath = units ''a/./b'', ui_file = [1, 2, 3]\<rparr>, \<lparr>ui_relativePath = units '' ..'', ui_file = [4]\<rparr>,
      \<lparr>ui_relativePath = units ''a/c/d'', ui_file = []\<rparr>]"

lemma sample_upload_paths:
  "map (\<lambda>item. normalizeUploadRelativePath (ui_relativePath item)) sample_upload = [units ''a/b'', [], units ''a/c/d'']"
  "collectTarDirectories (\<lambda>a b. 0) sample_upload = [units ''a'', units ''a/c'']"
  by code_simp+

lemma tar_path_fits_short: "0 \<notin> set path \<Longrightarrow> length path \<le> 33 \<Longrightarrow> tar_path_fits path"
  using encode_utf8_length_le [of path] by (simp add: tar_path_fits_def)

theorem upload_archive_roundtrip_witness:
  "read_tar (written (buildTarArchive (\<lambda>a b. 0) (\<lambda>n. 1700000000000) sample_upload)) =
     Some ([directory_entry (units ''a''), directory_entry (units ''a/c'')] @ map file_entry [sample_upload ! 0, sample_upload ! 2])"
proof -
  have "uploaded sample_upload = [sample_upload ! 0, sample_upload ! 2]"
    using sample_upload_paths(1) by (simp add: uploaded_def sample_upload_def units_def)
  moreover have "tar_path_fits (units ''a'')" "tar_path_fits (units ''a/c'')" "tar_path_fits (units ''a/b'')" "tar_path_fits (units ''a/c/d'')"
    by (rule tar_path_fits_short; simp add: units_def)+
  ultimately show ?thesis
    using upload_archive_roundtrip [of "\<lambda>a b. 0" sample_upload "\<lambda>n. 1700000000000"] sample_upload_paths
    by (simp add: sample_upload_def)
qed

text \<open>What the format cannot hold is cut without an error. The limits are counted in code units but the fields hold bytes.\<close>

lemma until_zero_cut: "0 \<notin> set bs \<Longrightarrow> until_zero (padded len bs) = take len bs"
proof (cases "length bs \<le> len")
  case False
  moreover assume "0 \<notin> set bs"
  ultimately show ?thesis
    by (auto simp: padded_def until_zero_def takeWhile_eq_all_conv dest: in_set_takeD)
qed (simp add: until_zero_padded)

lemma short_path_is_cut:
  assumes "normalizeUploadRelativePath path = path" "length path \<le> 100" "0 \<notin> set path"
  shows "tar_path (buildTarHeader now path sz directory) = take 100 (encode_utf8 path)"
proof -
  have "splitTarPath (take 255 (normalizeUploadRelativePath path)) = (path, [])"
    using assms by (simp add: splitTarPath_def)
  from header_fields [OF header_layout [OF this]] show ?thesis
    using until_zero_padded [of "[]" 155] by (simp add: tar_path_def until_zero_cut encode_utf8_no_zero assms(3))
qed

lemma good_part_replicate: "\<not> is_space u \<Longrightarrow> u \<notin> {0x2E, 0x2F, 0x5C} \<Longrightarrow> 0 < n \<Longrightarrow> good_part (replicate n u)"
  by (auto simp: good_part_def units_def trim_units_id last_replicate hd_replicate dest!: arg_cong [of _ _ hd])

lemma long_name_is_cut:
  "tar_path (buildTarHeader now (replicate 40 0x4E2D) sz directory) = take 100 (encode_utf8 (replicate 40 0x4E2D))"
  "length (encode_utf8 (replicate 40 0x4E2D)) = 120"
proof -
  have "good_part (replicate 40 0x4E2D)"
    by (rule good_part_replicate) (auto simp: is_space_def js_space_units_def)
  then have "normalizeUploadRelativePath (replicate 40 0x4E2D) = replicate 40 0x4E2D"
    using normalize_join(1) [of "[replicate 40 0x4E2D]"] by simp
  then show "tar_path (buildTarHeader now (replicate 40 0x4E2D) sz directory) = take 100 (encode_utf8 (replicate 40 0x4E2D))"
    by (rule short_path_is_cut) auto
  show "length (encode_utf8 (replicate 40 0x4E2D)) = 120"
    by (simp add: encode_utf8_replicate length_concat sum_list_replicate scalar_octets_def utf8_octets_def)
qed

lemma octal_length_ge: "8 ^ k \<le> m \<Longrightarrow> Suc k \<le> length (octal m)"
proof (induction m arbitrary: k rule: octal.induct)
  case (1 m)
  show ?case
  proof (cases k)
    case 0
    then show ?thesis
      unfolding octal.simps [of m] by simp
  next
    case (Suc j)
    then have "8 \<le> m" "8 ^ j \<le> m div 8"
      using "1.prems" div_le_mono [of "8 * 8 ^ j" m 8] by (auto intro: order.trans [of 8 "8 * 8 ^ j"])
    then show ?thesis
      using "1.IH" [of j] Suc unfolding octal.simps [of m] by simp
  qed
qed

lemma huge_size_is_cut:
  assumes "8 ^ 11 \<le> n" "n < 8 ^ 12"
  shows "octal_value 0 (until_zero (tar_octal 12 n)) = Some (n div 8)"
proof -
  have "length (octal (n div 8)) = 11"
    using octal_length [of "n div 8" 10] octal_length_ge [of 10 "n div 8"] div_le_mono [OF assms(1), of 8] assms(2) by simp
  moreover have "octal n = octal (n div 8) @ [of_nat (48 + n mod 8)]"
    using assms(1) by (subst octal.simps) simp
  ultimately have "tar_octal 12 n = tar_octal 12 (n div 8)"
    by (simp add: tar_octal_def padStart_def)
  then show ?thesis
    using tar_octal_fields(2) [of "n div 8"] assms(2) by auto
qed

text \<open>Cutting the prefix at its front can turn a segment that ends in two dots into the parent directory.\<close>

lemma cut_prefix_can_climb:
  "let path = units ''a../'' @ replicate 152 0x62 @ units ''/c''
   in normalizeUploadRelativePath path = path \<and> hd (split_on 0x2F (snd (splitTarPath (take 255 path)))) = units ''..''"
  by code_simp

section \<open>Progress\<close>

lemma totalUploadBytes_sum: "totalUploadBytes items = sum_list (map (\<lambda>item. length (ui_file item)) (uploaded items))"
proof -
  have "foldl (\<lambda>total item. if normalizeUploadRelativePath (ui_relativePath item) \<noteq> [] then total + length (ui_file item) else total) n items =
      n + sum_list (map (\<lambda>item. length (ui_file item)) (uploaded items))" for n
    by (induction items arbitrary: n) (auto simp: uploaded_def)
  then show ?thesis
    by (simp add: totalUploadBytes_def)
qed

lemma progress_append [simp]: "progress_values (a @ b) = progress_values a @ progress_values b"
  by (induction a rule: progress_values.induct) auto

lemma progress_directories [simp]: "progress_values (write_directories clock n ds) = []"
  by (induction ds arbitrary: n) auto

lemma progress_pieces:
  "progress_values (concat (map (\<lambda>(chunk, n). [Write chunk, ReadProgress (k + n)]) ps)) = map (\<lambda>p. k + snd p) ps"
  by (induction ps) auto

lemma file_pieces_progress:
  "n \<le> length bs \<Longrightarrow> sorted (map snd (file_pieces bs n)) \<and> (\<forall>p \<in> set (file_pieces bs n). n \<le> snd p \<and> snd p \<le> length bs)"
proof (induction bs n rule: file_pieces.induct)
  case (1 bs n)
  let ?next = "min (length bs) (n + fileReadChunkBytes)"
  show ?case
  proof (cases "n < length bs")
    case True
    then have "n \<le> ?next" "?next \<le> length bs"
      by auto
    then show ?thesis
      using 1 True unfolding file_pieces.simps [of bs n] Let_def by fastforce
  next
    case False
    then show ?thesis
      by (subst (1 2) file_pieces.simps) simp
  qed
qed

lemma file_progress:
  "sorted (progress_values (writeFileToTarGzipStream bs k)) \<and>
   (\<forall>v \<in> set (progress_values (writeFileToTarGzipStream bs k)). k \<le> v \<and> v \<le> k + length bs)"
proof -
  have "sorted (map (\<lambda>p. k + snd p) ps)" if "sorted (map snd ps)" for ps :: "(octets \<times> nat) list"
    using that by (induction ps) auto
  then show ?thesis
    using file_pieces_progress [of 0 bs] by (auto simp: writeFileToTarGzipStream_def progress_pieces)
qed

lemma items_progress:
  "sorted (progress_values (write_items clock n k items)) \<and>
   (\<forall>v \<in> set (progress_values (write_items clock n k items)). k \<le> v \<and> v \<le> k + totalUploadBytes items)"
proof (induction items arbitrary: n k)
  case (Cons item items)
  show ?case
  proof (cases "normalizeUploadRelativePath (ui_relativePath item) = []")
    case True
    then show ?thesis
      using Cons [of n k] by (simp add: totalUploadBytes_sum uploaded_def)
  next
    case False
    let ?a = "progress_values (writeFileToTarGzipStream (ui_file item) k)"
    let ?b = "progress_values (write_items clock (Suc n) (k + length (ui_file item)) items)"
    have total: "totalUploadBytes (item # items) = length (ui_file item) + totalUploadBytes items"
      using False by (simp add: totalUploadBytes_sum uploaded_def)
    have a: "sorted ?a" "\<forall>v \<in> set ?a. k \<le> v \<and> v \<le> k + length (ui_file item)"
      using file_progress [of "ui_file item" k] by blast+
    have b: "sorted ?b" "\<forall>v \<in> set ?b. k + length (ui_file item) \<le> v \<and> v \<le> k + length (ui_file item) + totalUploadBytes items"
      using Cons [of "Suc n" "k + length (ui_file item)"] by blast+
    have "progress_values (write_items clock n k (item # items)) = ?a @ ?b"
      using False by (simp add: Let_def)
    then show ?thesis
      using a b unfolding total by (fastforce simp: sorted_append)
  qed
qed simp

text \<open>The bytes reported while an archive is written never go back and never exceed the total.\<close>

theorem archive_progress_monotone:
  "sorted (progress_values (buildTarArchive localeCompare clock items)) \<and>
   (\<forall>v \<in> set (progress_values (buildTarArchive localeCompare clock items)). v \<le> totalUploadBytes items)"
  using items_progress [of clock _ 0 items] by (simp add: buildTarArchive_def Let_def)

section \<open>The temporary file\<close>

lemma concatenate_octets: "concatenateUint8Arrays chunks (sum_list (map length chunks)) = concat chunks"
proof -
  have "fst (foldl (\<lambda>(combined, offset) chunk. (put_octets offset chunk combined, offset + length chunk))
      (a @ replicate (sum_list (map length chunks)) 0, length a) chunks) = a @ concat chunks" for a :: octets
  proof (induction chunks arbitrary: a)
    case (Cons chunk chunks)
    have "put_octets (length a) chunk (a @ replicate (length chunk + sum_list (map length chunks)) 0) =
        (a @ chunk) @ replicate (sum_list (map length chunks)) 0"
      by (simp add: put_octets_def)
    then show ?case
      using Cons [of "a @ chunk"] by simp
  qed simp
  from this [of "[]"] show ?thesis
    by (simp add: concatenateUint8Arrays_def)
qed

text \<open>
  All bytes delivered so far are in the file or pending, in order; what is pending is less than the
  size of a piece, and every piece in the file has at least that size.
\<close>

definition gzip_ok :: "octets list \<Rightarrow> gzip_state \<Rightarrow> bool" where
  "gzip_ok delivered g \<longleftrightarrow>
     concat (gz_appended g) @ concat (gz_pendingGzipChunks g) = concat delivered \<and>
     gz_archiveBytes g = sum_list (map length (gz_appended g)) \<and>
     (\<forall>piece \<in> set (gz_appended g). uploadTempAppendChunkBytes \<le> length piece) \<and>
     pendingGzipBytes g < uploadTempAppendChunkBytes"

lemma flush_appends:
  assumes "pendingGzipBytes g \<noteq> 0"
  shows "flushGzipChunks g = g\<lparr>gz_pendingGzipChunks := [], gz_appended := gz_appended g @ [concat (gz_pendingGzipChunks g)],
    gz_archiveBytes := gz_archiveBytes g + pendingGzipBytes g\<rparr>"
proof -
  have piece: "(if length (gz_pendingGzipChunks g) = 1 then hd (gz_pendingGzipChunks g)
      else concatenateUint8Arrays (gz_pendingGzipChunks g) (pendingGzipBytes g)) = concat (gz_pendingGzipChunks g)"
    using concatenate_octets [of "gz_pendingGzipChunks g"] by (cases "gz_pendingGzipChunks g") (auto simp: pendingGzipBytes_def)
  have "length (concat (gz_pendingGzipChunks g)) = pendingGzipBytes g"
    by (simp add: pendingGzipBytes_def length_concat)
  then show ?thesis
    unfolding flushGzipChunks_def Let_def piece using assms by (simp only: if_False)
qed

lemma chunk_bytes_pos: "0 < uploadTempAppendChunkBytes"
  by (simp add: uploadTempAppendChunkBytes_def fileReadChunkBytes_def)

lemma gzip_chunk_ok:
  assumes "gzip_ok delivered g"
  shows "gzip_ok (delivered @ [chunk]) (gzip_chunk g chunk)"
proof (cases "chunk = []")
  case False
  let ?g = "g\<lparr>gz_pendingGzipChunks := gz_pendingGzipChunks g @ [chunk]\<rparr>"
  show ?thesis
  proof (cases "uploadTempAppendChunkBytes \<le> pendingGzipBytes ?g")
    case True
    then have "gzip_chunk g chunk = ?g\<lparr>gz_pendingGzipChunks := [], gz_appended := gz_appended g @ [concat (gz_pendingGzipChunks g @ [chunk])],
        gz_archiveBytes := gz_archiveBytes g + pendingGzipBytes ?g\<rparr>"
      using False flush_appends [of ?g] chunk_bytes_pos by (simp add: gzip_chunk_def Let_def)
    then show ?thesis
      using assms True chunk_bytes_pos by (auto simp: gzip_ok_def pendingGzipBytes_def length_concat simp flip: append_assoc)
  next
    case small: False
    then show ?thesis
      using assms False by (auto simp: gzip_ok_def gzip_chunk_def pendingGzipBytes_def Let_def simp flip: append_assoc)
  qed
qed (use assms in \<open>simp add: gzip_ok_def gzip_chunk_def\<close>)

lemma gzip_chunks_ok: "gzip_ok delivered g \<Longrightarrow> gzip_ok (delivered @ chunks) (foldl gzip_chunk g chunks)"
proof (induction chunks arbitrary: delivered g)
  case (Cons chunk chunks)
  then show ?case
    using gzip_chunk_ok [of delivered g chunk] Cons.IH [of "delivered @ [chunk]"] by simp
qed simp

text \<open>
  The temporary file holds exactly what the compression delivered, the size reported is its size, and
  it is written in pieces of which all but the last have at least the chosen size.
\<close>

theorem upload_temp_complete:
  "concat (gz_appended (persistGzip chunks)) = concat chunks \<and> gz_archiveBytes (persistGzip chunks) = length (concat chunks) \<and>
   (\<forall>piece \<in> set (butlast (gz_appended (persistGzip chunks))). uploadTempAppendChunkBytes \<le> length piece)"
proof -
  define g where "g = foldl gzip_chunk \<lparr>gz_pendingGzipChunks = [], gz_appended = [], gz_archiveBytes = 0\<rparr> chunks"
  have "gzip_ok [] \<lparr>gz_pendingGzipChunks = [], gz_appended = [], gz_archiveBytes = 0\<rparr>"
    using chunk_bytes_pos by (simp add: gzip_ok_def pendingGzipBytes_def)
  from gzip_chunks_ok [OF this, of chunks] have ok: "gzip_ok chunks g"
    by (simp add: g_def)
  show ?thesis
  proof (cases "pendingGzipBytes g = 0")
    case True
    then have "persistGzip chunks = g" "concat (gz_pendingGzipChunks g) = []"
      by (auto simp: persistGzip_def g_def [symmetric] flushGzipChunks_def pendingGzipBytes_def)
    moreover have "length (concat (gz_appended g)) = gz_archiveBytes g"
      using ok by (simp add: gzip_ok_def length_concat)
    moreover from calculation(2) have "concat (gz_appended g) = concat chunks"
      using ok unfolding gzip_ok_def by (metis append_Nil2)
    ultimately show ?thesis
      using ok by (auto simp: gzip_ok_def dest: in_set_butlastD)
  next
    case False
    have "gz_archiveBytes g = length (concat (gz_appended g))" "pendingGzipBytes g = length (concat (gz_pendingGzipChunks g))"
      using ok by (simp_all add: gzip_ok_def pendingGzipBytes_def length_concat)
    moreover have "concat (gz_appended g) @ concat (gz_pendingGzipChunks g) = concat chunks"
      using ok by (simp add: gzip_ok_def)
    ultimately have "gz_archiveBytes g + pendingGzipBytes g = length (concat chunks)"
      by (metis length_append)
    then show ?thesis
      using ok flush_appends [OF False] by (auto simp: persistGzip_def g_def [symmetric] gzip_ok_def)
  qed
qed

section \<open>Files and folders of an upload\<close>

definition normalized_item :: "UploadFile \<Rightarrow> UploadFile" where
  "normalized_item item = item\<lparr>ui_relativePath := normalizeUploadRelativePath (ui_relativePath item)\<rparr>"

definition groups_ok :: "(code_units \<times> UploadFile list) list \<Rightarrow> bool" where
  "groups_ok groups \<longleftrightarrow> distinct (map fst groups) \<and>
     (\<forall>(rootName, files) \<in> set groups. \<forall>item \<in> set files. hd (split_on 0x2F (ui_relativePath item)) = rootName)"

lemma add_to_group_keys: "set (map fst (add_to_group rootName item groups)) = insert rootName (set (map fst groups))"
  by (induction rootName item groups rule: add_to_group.induct) auto

lemma add_to_group_ok:
  "groups_ok groups \<Longrightarrow> hd (split_on 0x2F (ui_relativePath item)) = rootName \<Longrightarrow> groups_ok (add_to_group rootName item groups)"
  using add_to_group_keys
  by (induction rootName item groups rule: add_to_group.induct) (fastforce simp: groups_ok_def)+

lemma add_to_group_items: "mset (concat (map snd (add_to_group rootName item groups))) = add_mset item (mset (concat (map snd groups)))"
  by (induction rootName item groups rule: add_to_group.induct) auto

lemma folder_path_root:
  assumes "0x2F \<in> set (normalizeUploadRelativePath path)"
  shows "hd (split_on 0x2F (normalizeUploadRelativePath path)) \<noteq> []"
proof -
  have "path_parts path \<noteq> []"
    using assms by (auto simp: normalize_parts)
  then have "split_on 0x2F (normalizeUploadRelativePath path) = path_parts path" "good_part (hd (path_parts path))"
    using good_path_parts [of path] by (auto simp: normalize_parts split_on_join list_all_iff good_part_def)
  then show ?thesis
    by (simp add: good_part_def)
qed

text \<open>
  Every file of an upload is sent exactly once: those without a folder as files, the others in the
  group of their first folder, under their normalised path; no folder has two groups.
\<close>

theorem upload_groups_partition:
  "groups_ok (groupUploadDirectories items) \<and>
   mset (map normalized_item (direct_files items)) + mset (concat (map snd (groupUploadDirectories items))) = mset (map normalized_item items)"
proof -
  let ?step = "\<lambda>groups item.
    let relativePath = normalizeUploadRelativePath (ui_relativePath item); rootName = hd (split_on 0x2F relativePath)
    in if rootName = [] \<or> 0x2F \<notin> set relativePath then groups
       else add_to_group rootName (item\<lparr>ui_relativePath := relativePath\<rparr>) groups"
  have "groups_ok (foldl ?step groups items) \<and>
      mset (map normalized_item (direct_files items)) + mset (concat (map snd (foldl ?step groups items))) =
      mset (map normalized_item items) + mset (concat (map snd groups))" if "groups_ok groups" for groups
    using that
  proof (induction items arbitrary: groups)
    case (Cons item items)
    show ?case
    proof (cases "0x2F \<in> set (normalizeUploadRelativePath (ui_relativePath item))")
      case False
      then show ?thesis
        using Cons by (simp add: direct_files_def Let_def)
    next
      case True
      then have "?step groups item = add_to_group (hd (split_on 0x2F (normalizeUploadRelativePath (ui_relativePath item)))) (normalized_item item) groups"
        using folder_path_root by (simp add: Let_def normalized_item_def)
      then show ?thesis
        using Cons.IH [of "?step groups item"] Cons.prems True
        by (simp add: direct_files_def add_to_group_ok add_to_group_items normalized_item_def)
    qed
  qed (simp add: direct_files_def)
  from this [of "[]"] show ?thesis
    unfolding groupUploadDirectories_def by (simp add: groups_ok_def)
qed

end
