(* ===== verification/Spec2Isabelle.thy ===== *)
theory Spec2Isabelle
  imports Split_Controller Session_Reducer Item_Close Snapshot_Restore Snapshot_Lifecycle Batch_Runtime
    Output_Flow Transfer_Queue Remote_Paths Connection_Graph Shortcuts
    Workspace_Actions Titlebar Terminal_Osc Terminal_Prompt
    Settings Secret_Vault Remote_Monitor Semantic_Highlight
    Connection_Input Connection_Search Quick_Connect Error_Payloads Sidebar_Files Docker_Window Text_Flush
    Startup_Output App_Update Upload_Archive
begin

text \<open>
  A model of NexaTerm, a desktop client for SSH, local, Telnet, serial, RDP and VNC sessions, in the
  parts of its front end (\<open>src/src\<close>, TypeScript) that decide something: which sessions are open and
  what closes with them, how the workspace is saved and restored, how batches of connections,
  transfers and terminal output are scheduled, and how typed or stored text is read. Source paths
  below are under \<open>src/src/features/\<close> unless they start with \<open>shared/\<close>.

  \<^bold>\<open>How the code is modelled.\<close> Pure functions are functions of the same name. A React hook is a record
  of its state and refs with one function per operation; the code between two awaits is one step,
  a request in flight is an entry of a list, and its answer is an event that may come in any order.
  Effects run after each commit, in the order of the source, when a dependency has changed; handlers
  work on the state that was rendered. Reducers are functions of the state and an action datatype.
  Exceptions are \<open>Inl\<close> or \<open>None\<close>. \<open>Map\<close> and \<open>Set\<close> are lists in insertion order. What is not in the
  repository or not determined by it is an argument: the clock, random numbers, translated texts,
  the comparison of names in a language, the parsers of URLs and dates, the commands of the desktop
  process, the DOM tests of an event target. Translations and texts are compared as values, and
  objects by value where the code compares references.

  Idealisations: finite JavaScript numbers are rationals (\<open>js_number\<close> adds the infinities and NaN where
  a branch depends on them); strings are UTF-8 byte sequences with \<open>js_length\<close> counting UTF-16 code
  units, except in \<open>Js_Units\<close> and the theories on it, where they are the lists of their code units
  (\<open>16 word\<close>) because the code indexes into them; \<open>toLowerCase\<close> acts on ASCII letters; the keys of a
  record are those the code put there, never those of the prototype.

  \<^bold>\<open>Foundations.\<close> \<open>Prelude\<close> has the reading of JavaScript values, ordered maps and sets, the stable
  sort, results, and the locales the components share: \<open>reducer\<close> (an invariant kept by every action),
  \<open>shrinking_reducer\<close>, \<open>transition_system\<close> and \<open>progress_system\<close> (finitely many steps of progress in
  every run). Each is interpreted on the definitions of the components, in their theories, and the
  properties of the components rest on these interpretations. \<open>Js_Strings\<close>, \<open>Js_Units\<close> and \<open>Js_Json\<close> hold
  the string functions of the language and JSON values.

  \<^bold>\<open>The split workspace.\<close> \<open>Split_Layout\<close> (\<open>terminal/terminalSplitLayout.ts\<close>) is the binary tree of panes:
  its geometry tiles the unit square, and the operations that insert, close and move panes keep its
  ids distinct; \<open>pane_closing\<close> is the interface of closing. \<open>Split_Reducer\<close> (\<open>workspace/split\<close>) is the
  state around the tree with every action and its normalisation; \<open>Split_Controller\<close> is the hook
  \<open>useTerminalSplitController.ts\<close> with the handlers of \<open>layout/WorkspaceShell.tsx\<close> that change the split,
  and the invariant of the ids it hands out, which holds as long as no restored layout has an id that is
  still to be drawn. \<open>Multi_Exec\<close> (\<open>workspace/multiExec\<close>) is the broadcast of input:
  no terminal receives input that the user has not chosen.

  \<^bold>\<open>Sessions and closing.\<close> \<open>Close_Decision\<close> (\<open>workspace/sessionTabs/closeDecision.ts\<close>) says what becomes
  active when sessions close, \<open>Session_Reducer\<close> (\<open>reducer.ts\<close>, \<open>actions.ts\<close>, \<open>selectors.ts\<close>,
  \<open>useSessionTabsController.ts\<close>) applies it: no pointer is left to a closed session. \<open>Instances\<close>
  (\<open>instances.ts\<close>) projects the session collections to the items of the title bar, \<open>Titlebar\<close>
  (\<open>layout/titlebarItems.ts\<close>, \<open>shortcuts/actionPresentation.ts\<close>) chooses those that fit. \<open>Item_Close\<close>
  (\<open>itemClose.ts\<close>, \<open>useCloseRequest.ts\<close>, \<open>files/remoteFileTransferClosePolicy.ts\<close>) plans a close and asks for
  confirmation: the plan closes exactly what it must, and nothing unsaved is lost without a question.

  \<^bold>\<open>Saving and restoring.\<close> \<open>Snapshot_Codec\<close> (\<open>workspace/restore/snapshotCodec.ts\<close>, \<open>snapshotTypes.ts\<close>) decodes
  the stored snapshot, \<open>Snapshot_Restore\<close> (\<open>restorePlan.ts\<close>, \<open>shellHydration.ts\<close>,
  \<open>remoteFileSnapshotBridge.ts\<close>) projects and hydrates the workspace, and \<open>Snapshot_Lifecycle\<close>
  (\<open>useWorkspaceSnapshotLifecycle.ts\<close>) says when it is loaded and written. The decoder accepts only
  well-formed snapshots and reads back what was written, nothing is written before the stored workspace
  has been asked for and answered (or the hook is told not to restore), and the theorem of this theory
  composes projection, codec and hydration.

  \<^bold>\<open>Connections.\<close> \<open>Connection_Input\<close> (\<open>connections/useConnections.ts\<close>, \<open>connectionTypes.ts\<close>) normalises the
  form of a connection for each protocol and keeps the list of profiles; \<open>Connection_Search\<close>
  (\<open>connectionSearch.ts\<close>) ranks them; \<open>Connection_Graph\<close> (\<open>jumpPlanPreview.ts\<close>, \<open>connectionGroupModel.ts\<close>)
  walks jump chains and groups; \<open>Quick_Connect\<close> (\<open>quickConnect.ts\<close>) reads a typed address;
  \<open>Error_Payloads\<close> (\<open>hostKeyErrors.ts\<close>, \<open>jumpRuntime.ts\<close>) reads the errors that ask the user something.
  \<open>Batch_Model\<close> (\<open>batchConnectModel.ts\<close>) expands a folder, \<open>Batch_Executor\<close> and \<open>Batch_Guarantees\<close>
  (\<open>batchConnectExecutor.ts\<close>) run it with bounded concurrency and cancellation, and \<open>Batch_Runtime\<close>
  (\<open>batchConnectWorkspaceRuntime.ts\<close>, \<open>useBatchConnectController.ts\<close>) ties the executor to the workspace and
  to its dialog: every run ends, with a final result for every connection, which is delivered unless
  the cancellation of an attempt that opened late fails.

  \<^bold>\<open>Files.\<close> \<open>Remote_Paths\<close> (\<open>files/remoteFilePaths.ts\<close>), \<open>Transfer_Types\<close>, \<open>Transfer_Store\<close>
  (\<open>remoteFileTransferStore.ts\<close>) and \<open>Transfer_Queue\<close> (\<open>useRemoteFileTransferController.ts\<close>) hold paths, the
  list of transfers and the queue that runs them; \<open>Sidebar_Files\<close> (\<open>layout/workspaceSidebarContext.ts\<close>,
  \<open>layout/remoteFilePanelStrategy.ts\<close>, \<open>files/remoteFileInstanceState.ts\<close>) decides whose files are shown.
  \<open>Upload_Archive\<close> (\<open>buildTarGzArchiveToTemp\<close> and its helpers in \<open>layout/WorkspaceShell.tsx\<close>) writes the
  archive in which a folder is uploaded: a reader of the format gets back every folder and file whose
  path and size fit the header, and the compressed pieces are stored complete and in order.

  \<^bold>\<open>The terminal.\<close> \<open>Output_Flow\<close> (\<open>terminal/terminalOutputFlow.ts\<close>) is the queue between a session and the
  emulator, a refinement of a FIFO (\<open>batch_buffer\<close> is its interface) that never stalls; \<open>Text_Flush\<close>
  (\<open>shared/stream/bufferedTextFlush.ts\<close>) joins streamed text. \<open>Terminal_Input\<close> (\<open>terminalInputDirectory.ts\<close> and
  the history functions of \<open>TerminalPanel.tsx\<close>), \<open>Terminal_Osc\<close> (\<open>osc7.ts\<close>) and \<open>Terminal_Prompt\<close>
  (\<open>terminalPromptDirectory.ts\<close>) follow the working directory; \<open>Semantic_Highlight\<close>
  (\<open>terminalSemanticHighlight.ts\<close>) finds the tokens of a line with a model of the regular expressions, which
  \<open>Startup_Output\<close> (\<open>terminalStartupOutput.ts\<close>) uses to remove a prompt or banner shown twice.

  \<^bold>\<open>Actions, settings and tools.\<close> \<open>Shortcuts\<close> and \<open>Workspace_Actions\<close> (\<open>shortcuts\<close>,
  \<open>layout/workspaceActionContext.ts\<close>, \<open>layout/workspaceActionHandlers.ts\<close>) resolve keys and actions to a
  live session and run one action at a time; \<open>Settings\<close> (\<open>settings\<close>) normalises and stores the settings;
  \<open>Secret_Vault\<close> (\<open>security/useSecretVault.ts\<close>) is the lock of the stored secrets; \<open>Remote_Monitor\<close>
  (\<open>monitor/useRemoteMonitor.ts\<close>) polls a host; \<open>Docker_Window\<close> (\<open>tools/dockerVirtualization.ts\<close>,
  \<open>tools/dockerRefreshStrategy.ts\<close>) is the rendered part of the container list; \<open>App_Update\<close>
  (\<open>shared/tauri/appUpdate.ts\<close>, \<open>settings/useAppUpdate.ts\<close>) checks for an update and installs it, and asks
  for the service it stopped for that to be started again after a failure.

  \<^bold>\<open>Termination and bounds.\<close> Every loop of the code is a total function: structural recursion, or a
  measure (the unread input, the unvisited nodes of a graph, the items still to drop). \<open>strip\<close> has the
  length of its text as fuel, which is enough because each round removes at least one byte
  (\<open>strip_free\<close>). \<open>parsePane\<close> takes the depth limit of the source, counted down, as its argument. That the
  executor of a batch ends is a theorem about infinite runs, not an assumption. Bounds of the source
  (100 instances, 8 levels of panes, 360 decorated lines, 40 samples) are constants of the same value.

  \<^bold>\<open>Not modelled.\<close> The React components (\<open>*.tsx\<close>) apart from the handlers named above: they render and
  wire events, and their behaviour is that of the browser. The desktop process (\<open>src-tauri\<close>, Rust)
  and the typed wrappers that call it (\<open>shared/tauri/commands.ts\<close>). The panels for Docker, tunnels, AI and
  commands, which are forms over these commands. Tables of data: colour schemes, icons, languages,
  translations and the demonstration data of the preview. The terminal emulator, with its markers
  and decorations. Orders that the language of the host defines, other than through an argument.
\<close>

section \<open>The workspace across a restart\<close>

text \<open>
  The way of the workspace through the store: projection to a snapshot, encoding, decoding and
  hydration. Every target the running workspace refers to is filed under its own owner id.
\<close>

definition targets_filed :: "WorkspaceSnapshotCollections \<Rightarrow> bool" where
  "targets_filed c \<longleftrightarrow> (\<forall>k t. (wc_connections c k = Some t \<or> wc_localProfiles c k = Some t) \<longrightarrow> target_owner t = k)"

lemma filed_owner:
  assumes "targets_filed c"
  shows "target_owner (target_or_profile (wc_connections c) k) = k" "target_owner (target_or_profile (wc_localProfiles c) k) = k"
  using assms by (auto simp: targets_filed_def target_or_profile_def split: option.splits)

lemma filed_owners_unique:
  assumes "targets_filed c"
  shows "owners_unique (toSnapshot p c)"
  by (auto simp: owners_unique_def toSnapshot_def Let_def collectSnapshotInstances_def filed_owner [OF assms])

lemma item_id_kind: "instanceItemId k raw = instanceItemId k' raw' \<Longrightarrow> k = k'"
  by (cases k; cases k') (auto simp: instanceItemId_def)

lemma projected_pane_terminals:
  assumes "\<forall>x \<in> set xs. instance_ok x"
  shows "pane_terminals xs (snapshotPaneNode n (map snap_id xs))"
proof (induction n)
  case (SplitLeaf b i)
  have kind: "\<exists>x \<in> set xs. snap_id x = binding_item_id a \<and> snap_kind x \<in> {InstSsh, InstLocal}"
    if "binding_item_id a \<in> set (map snap_id xs)" for a
  proof -
    obtain x where x: "x \<in> set xs" "snap_id x = binding_item_id a"
      using \<open>binding_item_id a \<in> set (map snap_id xs)\<close> by auto
    then have "snap_kind x = binding_instance_kind a"
      using assms instance_ok_raw(2) [of x] by (auto simp: binding_item_id_def intro: item_id_kind)
    with x show ?thesis
      by (cases a) auto
  qed
  show ?case
  proof (cases b)
    case (Some a)
    then show ?thesis
      using kind [of a] by (cases "binding_item_id a \<in> set (map snap_id xs)") (simp_all del: set_map)
  qed simp
qed simp

lemma collected_by_kind:
  "of_kind InstSsh (toSnapshot p c) @ of_kind InstLocal (toSnapshot p c) @ of_kind InstRdp (toSnapshot p c) @
   of_kind InstVnc (toSnapshot p c) = collectSnapshotInstances c"
  by (simp add: of_kind_def toSnapshot_def Let_def collectSnapshotInstances_def filter_map comp_def)

text \<open>
  C3. The workspace survives a restart. What the running workspace saves (at most 100 instances
  with distinct bounded ids, a split at most 8 levels deep) is read back from the store, hydrates
  without an error, and the hydrated workspace has the same instances in the same order with the
  same targets, and the same pane tree up to panes of sessions that were not open any more.
\<close>

theorem workspace_survives_restart:
  assumes "collections_ok c" "targets_filed c"
    and "\<forall>n. wp_splitLayout p = Some n \<longrightarrow>
      node_depth n \<le> MAX_PANE_DEPTH \<and> (\<forall>i \<in> set (node_ids n). string_ok i)"
  shows "\<exists>s h. decodeWorkspaceSnapshot (encodeWorkspaceSnapshot (toSnapshot p c)) = Inr s \<and>
    buildWorkspaceShellHydration s connectionName localProfile = Inr h \<and>
    collectSnapshotInstances (hydrated_collections s h) = collectSnapshotInstances c \<and>
    map_option (\<lambda>l. snapshotPaneNode l (map snap_id (collectSnapshotInstances c))) (hy_splitLayout h) =
      map_option (\<lambda>l. snapshotPaneNode l (map snap_id (collectSnapshotInstances c))) (wp_splitLayout p)"
proof -
  let ?s = "toSnapshot p c"
  have inst: "ws_instances ?s = collectSnapshotInstances c"
    and panes: "ws_panes ?s = map_option (\<lambda>n. snapshotPaneNode n (map snap_id (collectSnapshotInstances c))) (wp_splitLayout p)"
    by (simp_all add: toSnapshot_def Let_def)
  have ok: "snapshot_ok ?s"
    by (rule toSnapshot_ok [OF assms(1,3)])
  moreover have "\<forall>n. ws_panes ?s = Some n \<longrightarrow> pane_terminals (ws_instances ?s) n"
    using projected_pane_terminals [OF collectSnapshotInstances_ok [OF assms(1)]] by (auto simp: inst panes)
  ultimately obtain h where "buildWorkspaceShellHydration ?s connectionName localProfile = Inr h"
      "collectSnapshotInstances (hydrated_collections ?s h) = collectSnapshotInstances c"
      "map_option (\<lambda>l. snapshotPaneNode l (map snap_id (collectSnapshotInstances c))) (hy_splitLayout h) = ws_panes ?s"
    using restart_exact [OF ok filed_owners_unique [OF assms(2)], of connectionName localProfile]
    unfolding collected_by_kind inst by blast
  then show ?thesis
    using decode_encode [OF ok] panes by auto
qed

theorem workspace_survives_restart_witness:
  "\<exists>s h. decodeWorkspaceSnapshot (encodeWorkspaceSnapshot (toSnapshot sample_snapshot_pointers sample_snapshot_collections)) = Inr s \<and>
    buildWorkspaceShellHydration s (\<lambda>_. None) (\<lambda>_. None) = Inr h \<and>
    collectSnapshotInstances (hydrated_collections s h) = collectSnapshotInstances sample_snapshot_collections"
proof -
  have "collections_ok sample_snapshot_collections" "targets_filed sample_snapshot_collections"
    by (simp_all add: collections_ok_def sample_snapshot_collections_def raw_ok_def instanceItemId_def js_length_def
        target_or_profile_def string_ok_def MAX_INSTANCES_def targets_filed_def)
  moreover have "\<forall>n. wp_splitLayout sample_snapshot_pointers = Some n \<longrightarrow>
      node_depth n \<le> MAX_PANE_DEPTH \<and> (\<forall>i \<in> set (node_ids n). string_ok i)"
    by (simp add: sample_snapshot_pointers_def MAX_PANE_DEPTH_def string_ok_def js_length_def)
  ultimately show ?thesis
    using workspace_survives_restart [of sample_snapshot_collections sample_snapshot_pointers "\<lambda>_. None" "\<lambda>_. None"]
    by blast
qed

end
